(* ===== verification/Prelude.thy ===== *)
theory Prelude
  imports Main "HOL-Library.Word" "HOL-Library.Sublist" "HOL-Library.Char_ord"
    "HOL-Library.List_Lexorder" "HOL-Library.Product_Lexorder"
begin

text \<open>
  Shared vocabulary of the development: the names of the machine integer types, Rust's
  \<^verbatim>\<open>Result\<close> as a sum with its \<^verbatim>\<open>?\<close> operator and \<^verbatim>\<open>collect\<close>, and loops whose body may
  return an error.
\<close>

section \<open>Machine integers\<close>

type_synonym u8 = "8 word"
type_synonym u32 = "32 word"
type_synonym u64 = "64 word"

text \<open>\<^verbatim>\<open>n as u32\<close> for a \<^verbatim>\<open>usize\<close>: truncation modulo \<open>2 ^ 32\<close>.\<close>

definition as_u32 :: "nat \<Rightarrow> u32" where
  "as_u32 n = of_nat n"

lemma unat_as_u32: "unat (as_u32 n) = n mod 2 ^ 32"
  by (simp add: as_u32_def unat_of_nat)

lemma as_u32_0 [simp]: "as_u32 0 = 0"
  by (simp add: as_u32_def)

lemma as_u32_Suc: "as_u32 (Suc n) = as_u32 n + 1"
  by (simp add: as_u32_def)

section \<open>Results\<close>

named_theorems result_simps \<open>equations of the result combinators\<close>

text \<open>\<open>rbind r f\<close> is Rust's \<^verbatim>\<open>let x = r?; f(x)\<close>.\<close>

fun rbind :: "'e + 'a \<Rightarrow> ('a \<Rightarrow> 'e + 'b) \<Rightarrow> 'e + 'b" where
  "rbind (Inl e) f = Inl e"
| "rbind (Inr x) f = f x"

lemma rbind_cong [fundef_cong]:
  "r = r' \<Longrightarrow> (\<And>x. r' = Inr x \<Longrightarrow> f x = f' x) \<Longrightarrow> rbind r f = rbind r' f'"
  by (cases r') auto

lemma rbind_Inr_iff [result_simps]: "rbind r f = Inr y \<longleftrightarrow> (\<exists>x. r = Inr x \<and> f x = Inr y)"
  by (cases r) auto

lemma rbind_Inl_iff [result_simps]:
  "rbind r f = Inl e \<longleftrightarrow> r = Inl e \<or> (\<exists>x. r = Inr x \<and> f x = Inl e)"
  by (cases r) auto

lemma rbind_assoc: "rbind (rbind r f) g = rbind r (\<lambda>x. rbind (f x) g)"
  by (cases r) auto

text \<open>\<open>map_ok\<close> is \<^verbatim>\<open>Result::map\<close>, \<open>map_err\<close> is \<^verbatim>\<open>Result::map_err\<close>.\<close>

definition map_ok :: "('a \<Rightarrow> 'b) \<Rightarrow> 'e + 'a \<Rightarrow> 'e + 'b" where
  "map_ok f r = rbind r (\<lambda>x. Inr (f x))"

lemma map_ok_simps [simp]: "map_ok f (Inl e) = Inl e" "map_ok f (Inr x) = Inr (f x)"
  by (simp_all add: map_ok_def)

lemma map_ok_Inr_iff [result_simps]: "map_ok f r = Inr y \<longleftrightarrow> (\<exists>x. r = Inr x \<and> y = f x)"
  by (cases r) auto

lemma map_ok_Inl_iff [result_simps]: "map_ok f r = Inl e \<longleftrightarrow> r = Inl e"
  by (cases r) auto

fun map_err :: "('e \<Rightarrow> 'd) \<Rightarrow> 'e + 'a \<Rightarrow> 'd + 'a" where
  "map_err f (Inl e) = Inl (f e)"
| "map_err f (Inr x) = Inr x"

text \<open>\<open>ok_or e o\<close> is \<^verbatim>\<open>Option::ok_or\<close>.\<close>

fun ok_or :: "'e \<Rightarrow> 'a option \<Rightarrow> 'e + 'a" where
  "ok_or e None = Inl e"
| "ok_or e (Some x) = Inr x"

lemma ok_or_Inr_iff [result_simps]: "ok_or e r = Inr x \<longleftrightarrow> r = Some x"
  by (cases r) auto

lemma ok_or_Inl_iff [result_simps]: "ok_or e r = Inl d \<longleftrightarrow> r = None \<and> d = e"
  by (cases r) auto

text \<open>
  \<open>collect rs\<close> is \<^verbatim>\<open>iter.collect::<Result<Vec<_>, _>>()\<close>: the values in order, or the
  first error. \<open>traverse f xs\<close> maps first.
\<close>

fun collect :: "('e + 'a) list \<Rightarrow> 'e + 'a list" where
  "collect [] = Inr []"
| "collect (r # rs) = rbind r (\<lambda>x. rbind (collect rs) (\<lambda>xs. Inr (x # xs)))"

definition traverse :: "('a \<Rightarrow> 'e + 'b) \<Rightarrow> 'a list \<Rightarrow> 'e + 'b list" where
  "traverse f xs = collect (map f xs)"

lemma traverse_simps [simp]:
  "traverse f [] = Inr []"
  "traverse f (x # xs) = rbind (f x) (\<lambda>y. rbind (traverse f xs) (\<lambda>ys. Inr (y # ys)))"
  by (simp_all add: traverse_def)

lemma traverse_cong [fundef_cong]:
  "xs = ys \<Longrightarrow> (\<And>x. x \<in> set ys \<Longrightarrow> f x = g x) \<Longrightarrow> traverse f xs = traverse g ys"
  by (simp add: traverse_def cong: map_cong)

lemma collect_Inr_iff [result_simps]: "collect rs = Inr xs \<longleftrightarrow> rs = map Inr xs"
proof (induction rs arbitrary: xs)
  case Nil
  then show ?case by auto
next
  case (Cons r rs)
  then show ?case by (cases xs) (auto simp: rbind_Inr_iff)
qed

lemma collect_map_Inr [simp]: "collect (map Inr xs) = Inr xs"
  by (simp add: collect_Inr_iff)

lemma traverse_Inr_length: "traverse f xs = Inr ys \<Longrightarrow> length ys = length xs"
  unfolding traverse_def collect_Inr_iff by (metis length_map)

lemma traverse_Inr_iff:
  "traverse f xs = Inr ys \<longleftrightarrow> list_all2 (\<lambda>x y. f x = Inr y) xs ys"
  unfolding traverse_def collect_Inr_iff list_all2_conv_all_nth list_eq_iff_nth_eq by auto

lemma traverse_Inr_nth:
  "traverse f xs = Inr ys \<Longrightarrow> i < length xs \<Longrightarrow> f (xs ! i) = Inr (ys ! i)"
  by (simp add: traverse_Inr_iff list_all2_conv_all_nth)

lemma traverse_Inr_set:
  "traverse f xs = Inr ys \<Longrightarrow> y \<in> set ys \<Longrightarrow> \<exists>x \<in> set xs. f x = Inr y"
  by (induction xs arbitrary: ys) (auto simp: rbind_Inr_iff)

lemma traverse_all_Inr:
  "(\<And>x. x \<in> set xs \<Longrightarrow> f x = Inr (g x)) \<Longrightarrow> traverse f xs = Inr (map g xs)"
  by (induction xs) auto

lemma collect_ex:
  assumes "\<And>x. x \<in> set xs \<Longrightarrow> \<exists>y. f x = Inr y \<and> P x y"
  shows "\<exists>ys. collect (map f xs) = Inr ys \<and> list_all2 P xs ys"
  using assms
proof (induction xs)
  case Nil
  then show ?case by simp
next
  case (Cons x xs)
  obtain y where "f x = Inr y" "P x y" using Cons.prems by auto
  moreover obtain ys where "collect (map f xs) = Inr ys" "list_all2 P xs ys"
    using Cons by auto
  ultimately show ?case by auto
qed

lemma list_all2_list_all: "list_all2 (\<lambda>x y. Q y = P x) xs ys \<Longrightarrow> list_all P xs = list_all Q ys"
  by (induction rule: list_all2_induct) auto

lemma list_all2_list_ex: "list_all2 (\<lambda>x y. Q y = P x) xs ys \<Longrightarrow> list_ex P xs = list_ex Q ys"
  by (induction rule: list_all2_induct) auto

lemma list_all2_length_filter:
  "list_all2 (\<lambda>x y. Q y = P x) xs ys \<Longrightarrow> length (filter P xs) = length (filter Q ys)"
  by (induction rule: list_all2_induct) auto

lemma collect_total_iff:
  "(\<exists>ys. collect (map f xs) = Inr ys) \<longleftrightarrow> (\<forall>x \<in> set xs. \<exists>y. f x = Inr y)"
proof (induction xs)
  case Nil
  then show ?case by simp
next
  case (Cons x xs)
  then show ?case by (cases "f x") (auto simp: rbind_Inr_iff)
qed

text \<open>\<open>fold_result f xs s\<close> runs a loop whose body threads a state and may return an error.\<close>

fun fold_result :: "('a \<Rightarrow> 's \<Rightarrow> 'e + 's) \<Rightarrow> 'a list \<Rightarrow> 's \<Rightarrow> 'e + 's" where
  "fold_result f [] s = Inr s"
| "fold_result f (x # xs) s = rbind (f x s) (fold_result f xs)"

lemma fold_result_append:
  "fold_result f (xs @ ys) s = rbind (fold_result f xs s) (fold_result f ys)"
proof (induction xs arbitrary: s)
  case Nil
  then show ?case by simp
next
  case (Cons x xs)
  then show ?case by (cases "f x s") simp_all
qed

lemma fold_result_invariant:
  assumes "fold_result f xs s = Inr t" and "P s"
    and "\<And>x a b. x \<in> set xs \<Longrightarrow> P a \<Longrightarrow> f x a = Inr b \<Longrightarrow> P b"
  shows "P t"
  using assms by (induction xs arbitrary: s) (auto simp: rbind_Inr_iff)

section \<open>Filtered maps\<close>

lemma mem_map_filter: "y \<in> set (List.map_filter f xs) \<longleftrightarrow> (\<exists>x \<in> set xs. f x = Some y)"
  by (induction xs) (auto simp: List.map_filter_simps split: option.splits)

lemma sorted_wrt_map_filter:
  "sorted_wrt (\<lambda>x y. \<forall>a b. f x = Some a \<longrightarrow> f y = Some b \<longrightarrow> P a b) xs \<Longrightarrow> sorted_wrt P (List.map_filter f xs)"
  by (induction xs) (auto simp: List.map_filter_simps mem_map_filter split: option.splits)

end
