(* ===== verification/Rust_Str.thy ===== *)
theory Rust_Str
  imports Prelude
begin

text \<open>
  The operations of Rust's \<^verbatim>\<open>str\<close> and of its integer parsers and printers that the
  sources call. A \<^verbatim>\<open>str\<close> is its sequence of UTF-8 bytes; byte-wise prefix, suffix and
  substring tests agree with Rust's, since UTF-8 is self-synchronising.
\<close>

section \<open>Searching and slicing\<close>

definition starts_with :: "string \<Rightarrow> string \<Rightarrow> bool" where
  "starts_with s p = prefix p s"

definition ends_with :: "string \<Rightarrow> string \<Rightarrow> bool" where
  "ends_with s p = suffix p s"

definition contains_str :: "string \<Rightarrow> string \<Rightarrow> bool" where
  "contains_str s needle = sublist needle s"

definition strip_prefix :: "string \<Rightarrow> string \<Rightarrow> string option" where
  "strip_prefix p s = (if prefix p s then Some (drop (length p) s) else None)"

definition strip_suffix :: "string \<Rightarrow> string \<Rightarrow> string option" where
  "strip_suffix p s = (if suffix p s then Some (take (length s - length p) s) else None)"

text \<open>\<open>find_str needle s\<close>: the byte index of the first occurrence (\<^verbatim>\<open>str::find\<close>).\<close>

fun find_str :: "string \<Rightarrow> string \<Rightarrow> nat option" where
  "find_str needle s =
     (if prefix needle s then Some 0
      else (case s of [] \<Rightarrow> None | _ # s' \<Rightarrow> map_option Suc (find_str needle s')))"

declare find_str.simps [simp del]

text \<open>\<open>rfind_char c s\<close>: the byte index of the last occurrence (\<^verbatim>\<open>str::rfind\<close>).\<close>

fun rfind_char :: "char \<Rightarrow> string \<Rightarrow> nat option" where
  "rfind_char c [] = None"
| "rfind_char c (x # xs) =
     (case rfind_char c xs of Some i \<Rightarrow> Some (Suc i)
      | None \<Rightarrow> if x = c then Some 0 else None)"

text \<open>\<open>split_once c s\<close>: the parts before and after the first occurrence of \<open>c\<close>.\<close>

fun split_once :: "char \<Rightarrow> string \<Rightarrow> (string \<times> string) option" where
  "split_once c [] = None"
| "split_once c (x # xs) =
     (if x = c then Some ([], xs) else map_option (\<lambda>(a, b). (x # a, b)) (split_once c xs))"

lemma strip_prefix_Some_iff: "strip_prefix p s = Some r \<longleftrightarrow> s = p @ r"
  by (auto simp: strip_prefix_def prefix_def)

lemma strip_suffix_Some_iff: "strip_suffix p s = Some r \<longleftrightarrow> s = r @ p"
  by (auto simp: strip_suffix_def suffix_def)

lemma rfind_char_None_iff: "rfind_char c s = None \<longleftrightarrow> c \<notin> set s"
  by (induction s) (auto split: option.splits)

lemma rfind_char_Some:
  "rfind_char c s = Some i \<Longrightarrow> s = take i s @ c # drop (Suc i) s \<and> c \<notin> set (drop (Suc i) s)"
  by (induction s arbitrary: i)
     (auto simp: rfind_char_None_iff split: option.splits if_splits)

lemma rfind_char_less: "rfind_char c s = Some i \<Longrightarrow> i < length s"
  by (induction s arbitrary: i) (auto split: option.splits if_splits)

lemma split_once_Some_iff:
  "split_once c s = Some (a, b) \<longleftrightarrow> s = a @ c # b \<and> c \<notin> set a"
proof (induction s arbitrary: a)
  case Nil
  then show ?case by simp
next
  case (Cons x s)
  then show ?case by (cases a) auto
qed

lemma split_once_None_iff: "split_once c s = None \<longleftrightarrow> c \<notin> set s"
  by (induction s) auto

lemma find_str_Some:
  "find_str needle s = Some i \<Longrightarrow> i \<le> length s \<and> prefix needle (drop i s)"
proof (induction s arbitrary: i)
  case Nil
  then show ?case by (simp add: find_str.simps split: if_splits)
next
  case (Cons x s)
  from Cons.prems show ?case
    by (subst (asm) find_str.simps) (auto split: if_splits dest: Cons.IH)
qed

lemma find_str_None_iff: "find_str needle s = None \<longleftrightarrow> \<not> sublist needle s"
proof (induction s)
  case Nil
  then show ?case by (simp add: find_str.simps)
next
  case (Cons x s)
  then show ?case by (subst find_str.simps) (simp add: sublist_Cons_right)
qed

section \<open>Trimming\<close>

text \<open>
  \<^verbatim>\<open>str::trim\<close> removes characters with the Unicode \<^verbatim>\<open>White_Space\<close> property. These are
  their UTF-8 encodings: U+0009 to U+000D, U+0020, U+0085, U+00A0, U+1680, U+2000 to
  U+200A, U+2028, U+2029, U+202F, U+205F and U+3000.
\<close>

definition white_space :: "string list" where
  "white_space =
     map (\<lambda>n. [char_of (n :: nat)]) [9, 10, 11, 12, 13, 32]
     @ map (map (\<lambda>n. char_of (n :: nat)))
        [[0xC2, 0x85], [0xC2, 0xA0], [0xE1, 0x9A, 0x80],
         [0xE2, 0x80, 0x80], [0xE2, 0x80, 0x81], [0xE2, 0x80, 0x82], [0xE2, 0x80, 0x83],
         [0xE2, 0x80, 0x84], [0xE2, 0x80, 0x85], [0xE2, 0x80, 0x86], [0xE2, 0x80, 0x87],
         [0xE2, 0x80, 0x88], [0xE2, 0x80, 0x89], [0xE2, 0x80, 0x8A],
         [0xE2, 0x80, 0xA8], [0xE2, 0x80, 0xA9], [0xE2, 0x80, 0xAF],
         [0xE2, 0x81, 0x9F], [0xE3, 0x80, 0x80]]"

text \<open>\<open>drop_front ws s\<close> removes members of \<open>ws\<close> from the front while one is a prefix.\<close>

function drop_front :: "string list \<Rightarrow> string \<Rightarrow> string" where
  "drop_front ws s =
     (case find (\<lambda>w. w \<noteq> [] \<and> prefix w s) ws of
        None \<Rightarrow> s
      | Some w \<Rightarrow> drop_front ws (drop (length w) s))"
  by pat_completeness auto
termination
  by (relation "measure (\<lambda>(ws, s). length s)")
     (auto simp: find_Some_iff prefix_def)

declare drop_front.simps [simp del]

definition trim_start :: "string \<Rightarrow> string" where
  "trim_start s = drop_front white_space s"

definition trim_end :: "string \<Rightarrow> string" where
  "trim_end s = rev (drop_front (map rev white_space) (rev s))"

definition trim :: "string \<Rightarrow> string" where
  "trim s = trim_end (trim_start s)"

lemma drop_front_suffix: "suffix (drop_front ws s) s"
proof (induction ws s rule: drop_front.induct)
  case (1 ws s)
  show ?case
  proof (cases "find (\<lambda>w. w \<noteq> [] \<and> prefix w s) ws")
    case None
    then show ?thesis by (simp add: drop_front.simps [of ws s])
  next
    case (Some w)
    with 1 have "suffix (drop_front ws (drop (length w) s)) (drop (length w) s)" by blast
    also have "suffix (drop (length w) s) s" by (rule suffix_drop)
    finally show ?thesis using Some by (simp add: drop_front.simps [of ws s])
  qed
qed

lemma drop_front_idle:
  "(\<And>w. w \<in> set ws \<Longrightarrow> w \<noteq> [] \<Longrightarrow> \<not> prefix w s) \<Longrightarrow> drop_front ws s = s"
proof -
  assume "\<And>w. w \<in> set ws \<Longrightarrow> w \<noteq> [] \<Longrightarrow> \<not> prefix w s"
  then have "find (\<lambda>w. w \<noteq> [] \<and> prefix w s) ws = None" by (auto simp: find_None_iff)
  then show ?thesis by (simp add: drop_front.simps [of ws s])
qed

section \<open>Digits\<close>

text \<open>\<^verbatim>\<open>char::to_digit(radix)\<close> for a radix of at most 36.\<close>

definition to_digit :: "nat \<Rightarrow> char \<Rightarrow> nat option" where
  "to_digit radix c =
     (let n = of_char c :: nat;
          d = (if 48 \<le> n \<and> n \<le> 57 then n - 48
               else if 97 \<le> n \<and> n \<le> 122 then n - 87
               else if 65 \<le> n \<and> n \<le> 90 then n - 55
               else radix)
      in if d < radix then Some d else None)"

definition digit_char :: "nat \<Rightarrow> char" where
  "digit_char d = char_of (if d < 10 then 48 + d else 87 + d)"

lemma to_digit_bound: "to_digit radix c = Some d \<Longrightarrow> d < radix"
  by (auto simp: to_digit_def Let_def split: if_splits)

lemma of_char_digit_char: "d < 10 \<Longrightarrow> of_char (digit_char d) = (48 + d :: nat)"
  by (simp add: digit_char_def)

lemma digit_char_neq:
  "d < 10 \<Longrightarrow> (of_char c :: nat) < 48 \<or> 57 < (of_char c :: nat) \<Longrightarrow> digit_char d \<noteq> c"
  using of_char_digit_char [of d] by auto

lemma to_digit_digit_char: "d < radix \<Longrightarrow> radix \<le> 36 \<Longrightarrow> to_digit radix (digit_char d) = Some d"
  by (auto simp: to_digit_def digit_char_def Let_def)

text \<open>The value of a digit string, most significant first; \<open>None\<close> on an invalid digit.\<close>

fun digits_value :: "nat \<Rightarrow> nat \<Rightarrow> string \<Rightarrow> nat option" where
  "digits_value radix acc [] = Some acc"
| "digits_value radix acc (c # cs) =
     (case to_digit radix c of None \<Rightarrow> None
      | Some d \<Rightarrow> digits_value radix (acc * radix + d) cs)"

text \<open>Printing a natural number in a radix of at least 2: \<^verbatim>\<open>{v}\<close> and \<^verbatim>\<open>{v:x}\<close>.\<close>

function show_radix :: "nat \<Rightarrow> nat \<Rightarrow> string" where
  "show_radix radix n =
     (if n < radix \<or> radix < 2 then [digit_char n]
      else show_radix radix (n div radix) @ [digit_char (n mod radix)])"
  by pat_completeness auto
termination
  by (relation "measure snd") auto

declare show_radix.simps [simp del]

abbreviation show_nat :: "nat \<Rightarrow> string" where
  "show_nat \<equiv> show_radix 10"

abbreviation show_hex :: "nat \<Rightarrow> string" where
  "show_hex \<equiv> show_radix 16"

definition show_int :: "int \<Rightarrow> string" where
  "show_int i = (if i < 0 then CHR ''-'' # show_nat (nat (- i)) else show_nat (nat i))"

lemma digits_value_append:
  "digits_value radix acc (xs @ ys) =
     Option.bind (digits_value radix acc xs) (\<lambda>a. digits_value radix a ys)"
  by (induction xs arbitrary: acc) (auto split: option.splits)

lemma digits_value_show_radix:
  "2 \<le> radix \<Longrightarrow> radix \<le> 36 \<Longrightarrow> digits_value radix 0 (show_radix radix n) = Some n"
proof (induction radix n rule: show_radix.induct)
  case (1 radix n)
  show ?case
  proof (cases "n < radix")
    case True
    with 1 show ?thesis by (simp add: show_radix.simps [of radix n] to_digit_digit_char)
  next
    case False
    with 1 have "digits_value radix 0 (show_radix radix (n div radix)) = Some (n div radix)"
      by simp
    with False 1 show ?thesis
      by (simp add: show_radix.simps [of radix n] digits_value_append to_digit_digit_char)
  qed
qed

lemma show_nat_inj [simp]: "show_nat m = show_nat n \<longleftrightarrow> m = n"
proof
  assume "show_nat m = show_nat n"
  then have "digits_value 10 0 (show_nat m) = digits_value 10 0 (show_nat n)" by simp
  then show "m = n" by (simp add: digits_value_show_radix)
qed simp

lemma set_show_radix:
  "2 \<le> radix \<Longrightarrow> set (show_radix radix n) \<subseteq> digit_char ` {..<radix}"
proof (induction radix n rule: show_radix.induct)
  case (1 radix n)
  show ?case
  proof (cases "n < radix")
    case True
    with 1 show ?thesis by (auto simp: show_radix.simps [of radix n])
  next
    case False
    with 1 have "set (show_radix radix (n div radix)) \<subseteq> digit_char ` {..<radix}" by simp
    with False 1 show ?thesis by (auto simp: show_radix.simps [of radix n])
  qed
qed

lemma show_radix_nonempty [simp]: "show_radix radix n \<noteq> []"
  by (subst show_radix.simps) simp

lemma show_nat_no_char:
  assumes "(of_char c :: nat) < 48 \<or> 57 < (of_char c :: nat)"
  shows "c \<notin> set (show_nat n)"
proof
  assume "c \<in> set (show_nat n)"
  then obtain d where "d < 10" "c = digit_char d"
    using set_show_radix [of 10 n] by auto
  with digit_char_neq [of d c] assms show False by simp
qed

lemma show_nat_no_sep:
  "CHR '','' \<notin> set (show_nat n)" "CHR ''/'' \<notin> set (show_nat n)"
  "CHR ''-'' \<notin> set (show_nat n)" "CHR ''+'' \<notin> set (show_nat n)"
  by (rule show_nat_no_char; simp)+

section \<open>Integer parsing\<close>

text \<open>
  \<^verbatim>\<open>from_str_radix\<close> of a signed type with the given bounds: an empty string and a lone
  sign are errors, one leading \<^verbatim>\<open>+\<close> or \<^verbatim>\<open>-\<close> is accepted, and a value out of range is an
  error. \<open>None\<close> stands for \<^verbatim>\<open>ParseIntError\<close>.
\<close>

definition signed_from_str_radix :: "int \<Rightarrow> int \<Rightarrow> nat \<Rightarrow> string \<Rightarrow> int option" where
  "signed_from_str_radix lo hi radix s =
     (let (neg, ds) =
        (case s of [] \<Rightarrow> (False, [])
         | c # cs \<Rightarrow> if c = CHR ''-'' then (True, cs)
                     else if c = CHR ''+'' then (False, cs) else (False, s))
      in if ds = [] then None
         else (case digits_value radix 0 ds of None \<Rightarrow> None
               | Some n \<Rightarrow>
                   let v = (if neg then - int n else int n)
                   in if lo \<le> v \<and> v \<le> hi then Some v else None))"

definition i128_from_str_radix :: "nat \<Rightarrow> string \<Rightarrow> int option" where
  "i128_from_str_radix = signed_from_str_radix (- (2 ^ 127)) (2 ^ 127 - 1)"

text \<open>\<^verbatim>\<open>str::parse::<u8>\<close>: no minus sign.\<close>

definition u8_parse :: "string \<Rightarrow> u8 option" where
  "u8_parse s =
     (let ds = (case s of [] \<Rightarrow> [] | c # cs \<Rightarrow> if c = CHR ''+'' then cs else s)
      in if ds = [] then None
         else (case digits_value 10 0 ds of None \<Rightarrow> None
               | Some n \<Rightarrow> if n < 256 then Some (of_nat n) else None))"

lemma signed_from_str_radix_bounds:
  "signed_from_str_radix lo hi radix s = Some v \<Longrightarrow> lo \<le> v \<and> v \<le> hi"
  by (auto simp: signed_from_str_radix_def Let_def split: option.splits if_splits prod.splits)

lemma hd_show_nat: "hd (show_nat n) \<noteq> CHR ''-''" "hd (show_nat n) \<noteq> CHR ''+''"
  using show_nat_no_sep [of n] hd_in_set [OF show_radix_nonempty, of 10 n] by metis+

lemma signed_parse_show_int:
  assumes "lo \<le> i" "i \<le> hi"
  shows "signed_from_str_radix lo hi 10 (show_int i) = Some i"
proof -
  obtain c cs where "show_nat (nat i) = c # cs" by (cases "show_nat (nat i)") auto
  with hd_show_nat [of "nat i"] digits_value_show_radix [of 10 "nat i"] assms show ?thesis
    using digits_value_show_radix [of 10 "nat (- i)"]
    by (auto simp: signed_from_str_radix_def show_int_def Let_def)
qed

end
