(* ===== verification/Address.thy ===== *)
theory Address
  imports Rust_Str
begin

text \<open>
  \<^verbatim>\<open>capa-x/src/address.rs\<close>: the address taxonomy of features and matches, its total order
  (the iteration order of every address-keyed tree), Python truthiness, the stable key of
  result comparison, and the display form.
\<close>

datatype address =
    Absolute u64
  | Relative u64
  | File u64
  | DnToken u32
  | DnTokenOffset u32 u32
  | Process u32 u32
  | Thread u32 u32 u32
  | Call u32 u32 u32 u64
  | NoAddress

type_synonym sort_key = "u8 \<times> u64 \<times> u32 \<times> u32 \<times> u32 \<times> u64"

fun sort_key :: "address \<Rightarrow> sort_key" where
  "sort_key (Absolute v) = (0, v, 0, 0, 0, 0)"
| "sort_key (Relative v) = (1, v, 0, 0, 0, 0)"
| "sort_key (File v) = (2, v, 0, 0, 0, 0)"
| "sort_key (DnToken v) = (3, ucast v, 0, 0, 0, 0)"
| "sort_key (DnTokenOffset token offset) = (4, 0, token, offset, 0, 0)"
| "sort_key (Process ppid pid) = (5, 0, ppid, pid, 0, 0)"
| "sort_key (Thread ppid pid tid) = (6, 0, ppid, pid, tid, 0)"
| "sort_key (Call ppid pid tid cid) = (7, 0, ppid, pid, tid, cid)"
| "sort_key NoAddress = (8, 0, 0, 0, 0, 0)"

text \<open>Python truthiness: numeric kinds are falsy at zero.\<close>

fun is_truthy :: "address \<Rightarrow> bool" where
  "is_truthy (Absolute v) = (v \<noteq> 0)"
| "is_truthy (Relative v) = (v \<noteq> 0)"
| "is_truthy (File v) = (v \<noteq> 0)"
| "is_truthy (DnToken v) = (v \<noteq> 0)"
| "is_truthy _ = True"

definition show_word :: "'w::len word \<Rightarrow> string" where
  "show_word w = show_nat (unat w)"

definition show_hex_word :: "'w::len word \<Rightarrow> string" where
  "show_hex_word w = show_hex (unat w)"

fun canonical_key :: "address \<Rightarrow> string" where
  "canonical_key (Absolute v) = ''absolute:'' @ show_word v"
| "canonical_key (Relative v) = ''relative:'' @ show_word v"
| "canonical_key (File v) = ''file:'' @ show_word v"
| "canonical_key (DnToken v) = ''dn token:'' @ show_word v"
| "canonical_key (DnTokenOffset token offset) =
     ''dn token offset:'' @ show_word token @ '','' @ show_word offset"
| "canonical_key (Process ppid pid) = ''process:'' @ show_word ppid @ '','' @ show_word pid"
| "canonical_key (Thread ppid pid tid) =
     ''thread:'' @ show_word ppid @ '','' @ show_word pid @ '','' @ show_word tid"
| "canonical_key (Call ppid pid tid cid) =
     ''call:'' @ show_word ppid @ '','' @ show_word pid @ '','' @ show_word tid @ '','' @ show_word cid"
| "canonical_key NoAddress = ''no address''"

text \<open>The \<^verbatim>\<open>Display\<close> implementation.\<close>

function show_address :: "address \<Rightarrow> string" where
  "show_address (Absolute v) = ''absolute(0x'' @ show_hex_word v @ '')''"
| "show_address (Relative v) = ''relative(0x'' @ show_hex_word v @ '')''"
| "show_address (File v) = ''file(0x'' @ show_hex_word v @ '')''"
| "show_address (DnToken v) = ''token(0x'' @ show_hex_word v @ '')''"
| "show_address (DnTokenOffset token offset) =
     ''token(0x'' @ show_hex_word token @ '')+(0x'' @ show_hex_word offset @ '')''"
| "show_address (Process ppid pid) =
     (if 0 < ppid
      then ''process(ppid: '' @ show_word ppid @ '', pid: '' @ show_word pid @ '')''
      else ''process(pid: '' @ show_word pid @ '')'')"
| "show_address (Thread ppid pid tid) =
     show_address (Process ppid pid) @ '', thread(tid: '' @ show_word tid @ '')''"
| "show_address (Call ppid pid tid cid) =
     show_address (Thread ppid pid tid) @ '', call(id: '' @ show_word cid @ '')''"
| "show_address NoAddress = ''no address''"
  by pat_completeness auto
termination
  by (relation "measure (\<lambda>a. case a of Call _ _ _ _ \<Rightarrow> 2 | Thread _ _ _ \<Rightarrow> 1 | _ \<Rightarrow> 0)") auto

section \<open>The order\<close>

lemma ucast_u32_u64_inj: "(ucast (a :: u32) :: u64) = ucast b \<longleftrightarrow> a = b"
proof
  assume "(ucast a :: u64) = ucast b"
  then have "unat (ucast a :: u64) = unat (ucast b :: u64)" by simp
  moreover have "unat (ucast w :: u64) = unat w" for w :: u32
  proof -
    have "unat w < 2 ^ LENGTH(32)" by (rule unsigned_less)
    then show ?thesis by (simp add: unsigned_ucast_eq take_bit_nat_eq_self)
  qed
  ultimately show "a = b" by (simp add: word_unat_eq_iff)
qed simp

lemma sort_key_inj: "sort_key a = sort_key b \<longleftrightarrow> a = b"
  by (cases a; cases b) (simp_all add: ucast_u32_u64_inj)

text \<open>\<^verbatim>\<open>impl Ord for Address\<close> compares the sort keys.\<close>

instantiation address :: linorder
begin

definition less_eq_address :: "address \<Rightarrow> address \<Rightarrow> bool" where
  "less_eq_address a b = (sort_key a \<le> sort_key b)"

definition less_address :: "address \<Rightarrow> address \<Rightarrow> bool" where
  "less_address a b = (sort_key a < sort_key b)"

instance
proof
  fix a b c :: address
  show "a < b \<longleftrightarrow> a \<le> b \<and> \<not> b \<le> a" by (auto simp: less_eq_address_def less_address_def)
  show "a \<le> a" by (simp add: less_eq_address_def)
  show "a \<le> b \<Longrightarrow> b \<le> c \<Longrightarrow> a \<le> c" by (auto simp: less_eq_address_def)
  show "a \<le> b \<Longrightarrow> b \<le> a \<Longrightarrow> a = b" by (simp add: less_eq_address_def flip: sort_key_inj)
  show "a \<le> b \<or> b \<le> a" by (auto simp: less_eq_address_def)
qed

end

section \<open>Properties\<close>

lemma show_word_inj [simp]: "show_word v = show_word w \<longleftrightarrow> v = w"
  by (simp add: show_word_def word_unat_eq_iff)

lemma show_word_no_comma [simp]: "CHR '','' \<notin> set (show_word w)"
  by (simp add: show_word_def show_nat_no_sep)

text \<open>Two comma-separated fields are determined by the joined string.\<close>

lemma comma_join_inj [simp]:
  "show_word v @ CHR '','' # r = show_word w @ CHR '','' # t \<longleftrightarrow> v = w \<and> r = t"
  using split_once_Some_iff [of "CHR '',''"] by (metis option.inject prod.inject show_word_inj show_word_no_comma)

lemma comma_join_neq [simp]:
  "show_word v \<noteq> show_word w @ CHR '','' # t" "show_word w @ CHR '','' # t \<noteq> show_word v"
  by (metis in_set_conv_decomp show_word_no_comma)+

text \<open>
  The order of addresses is a total order that separates every pair of distinct
  addresses, kinds first: no two different addresses share a sort key, so an
  address-keyed tree never merges two locations.
\<close>

lemma address_order_total:
  "(sort_key a = sort_key b \<longleftrightarrow> a = b) \<and> (a < b \<or> a = b \<or> b < a)
   \<and> \<not> (a < b \<and> b < a) \<and> (a \<le> b \<longleftrightarrow> sort_key a \<le> sort_key b)"
  using sort_key_inj by (auto simp: less_eq_address_def)

text \<open>
  Calls of a trace are ordered by thread and then by call number.
\<close>

lemma call_order_thread_then_id:
  "Call pp p t i < Call pp' p' t' i' \<longleftrightarrow>
     Thread pp p t < Thread pp' p' t' \<or> (Thread pp p t = Thread pp' p' t' \<and> i < i')"
  by (auto simp: less_address_def less_prod_def less_eq_prod_def)

text \<open>
  The stable key used to compare results separates every pair of distinct addresses:
  the address can be recovered from it.
\<close>

lemma canonical_key_injective: "canonical_key a = canonical_key b \<longleftrightarrow> a = b"
  by (cases a; cases b) auto

end
