(* ===== verification/Index_Map.thy ===== *)
theory Index_Map
  imports Prelude
begin

text \<open>
  Insertion-ordered maps: the \<^verbatim>\<open>IndexMap\<close> of the feature sets, and the hash maps of the
  sources where their contents are iterated. A map is the list of its entries in
  insertion order. Keys are compared by the key type's own \<^verbatim>\<open>PartialEq\<close>, an argument
  \<open>eq\<close>: it is symmetric and transitive but, for keys that carry a floating-point NaN, not
  reflexive. The locale \<open>keyed\<close> states what the maps rely on and proves the laws of lookup,
  update and merge once.
\<close>

type_synonym ('k, 'v) index_map = "('k \<times> 'v) list"

fun im_get :: "('k \<Rightarrow> 'k \<Rightarrow> bool) \<Rightarrow> ('k, 'v) index_map \<Rightarrow> 'k \<Rightarrow> 'v option" where
  "im_get eq [] q = None"
| "im_get eq ((k, v) # m) q = (if eq q k then Some v else im_get eq m q)"

text \<open>
  \<open>im_entry eq k d f m\<close> is \<^verbatim>\<open>f(m.entry(k).or_insert(d))\<close>: the value of an existing entry
  changes in place, a new entry goes to the end.
\<close>

fun im_entry ::
  "('k \<Rightarrow> 'k \<Rightarrow> bool) \<Rightarrow> 'k \<Rightarrow> 'v \<Rightarrow> ('v \<Rightarrow> 'v) \<Rightarrow> ('k, 'v) index_map \<Rightarrow> ('k, 'v) index_map" where
  "im_entry eq q d f [] = [(q, f d)]"
| "im_entry eq q d f ((k, v) # m) =
     (if eq q k then (k, f v) # m else (k, v) # im_entry eq q d f m)"

text \<open>\<open>im_remove\<close> is \<^verbatim>\<open>shift_remove\<close>: the later entries keep their order.\<close>

fun im_remove :: "('k \<Rightarrow> 'k \<Rightarrow> bool) \<Rightarrow> 'k \<Rightarrow> ('k, 'v) index_map \<Rightarrow> ('k, 'v) index_map" where
  "im_remove eq q [] = []"
| "im_remove eq q ((k, v) # m) = (if eq q k then m else (k, v) # im_remove eq q m)"

definition im_keys :: "('k, 'v) index_map \<Rightarrow> 'k list" where
  "im_keys m = map fst m"

definition im_contains :: "('k \<Rightarrow> 'k \<Rightarrow> bool) \<Rightarrow> ('k, 'v) index_map \<Rightarrow> 'k \<Rightarrow> bool" where
  "im_contains eq m q = (\<exists>k \<in> set (im_keys m). eq q k)"

text \<open>No two entries have equal keys.\<close>

definition im_wf :: "('k \<Rightarrow> 'k \<Rightarrow> bool) \<Rightarrow> ('k, 'v) index_map \<Rightarrow> bool" where
  "im_wf eq m = sorted_wrt (\<lambda>a b. \<not> eq a b) (im_keys m)"

lemma im_keys_simps [simp]:
  "im_keys [] = []" "im_keys ((k, v) # m) = k # im_keys m" "im_keys (m @ n) = im_keys m @ im_keys n"
  by (simp_all add: im_keys_def)

lemma im_contains_simps [simp]:
  "im_contains eq [] q \<longleftrightarrow> False"
  "im_contains eq ((k, v) # m) q \<longleftrightarrow> eq q k \<or> im_contains eq m q"
  by (simp_all add: im_contains_def)

lemma im_wf_simps [simp]:
  "im_wf eq [] \<longleftrightarrow> True"
  "im_wf eq ((k, v) # m) \<longleftrightarrow> (\<forall>q \<in> set (im_keys m). \<not> eq k q) \<and> im_wf eq m"
  by (simp_all add: im_wf_def)

lemma im_get_None_iff: "im_get eq m q = None \<longleftrightarrow> \<not> im_contains eq m q"
  by (induction m) (auto split: if_splits)

lemma im_contains_get: "im_contains eq m q \<longleftrightarrow> (\<exists>v. im_get eq m q = Some v)"
  using im_get_None_iff [of eq m q] by auto

lemma im_get_Some_key: "im_get eq m q = Some v \<Longrightarrow> \<exists>k. eq q k \<and> (k, v) \<in> set m"
  by (induction m) (auto split: if_splits)

lemma im_keys_entry:
  "im_keys (im_entry eq q d f m) = im_keys m @ (if im_contains eq m q then [] else [q])"
  by (induction m) auto

lemma length_im_entry:
  "length (im_entry eq q d f m) = length m + (if im_contains eq m q then 0 else 1)"
  by (induction m) auto

lemma im_entry_id:
  "im_get eq m q = Some v \<Longrightarrow> f v = v \<Longrightarrow> im_entry eq q d f m = m"
  by (induction m) (auto split: if_splits)

lemma im_entry_values:
  assumes "\<forall>e \<in> set m. P (snd e)" "P (f d)" "\<And>v. P v \<Longrightarrow> P (f v)"
  shows "\<forall>e \<in> set (im_entry eq q d f m). P (snd e)"
  using assms(1)
proof (induction m)
  case (Cons e m)
  then show ?case by (cases e) (simp add: assms(3))
qed (simp add: assms(2))

locale keyed =
  fixes eq :: "'k \<Rightarrow> 'k \<Rightarrow> bool"
  assumes eq_sym: "eq a b \<Longrightarrow> eq b a"
    and eq_trans: "eq a b \<Longrightarrow> eq b c \<Longrightarrow> eq a c"
begin

lemma eq_commute: "eq a b \<longleftrightarrow> eq b a"
  using eq_sym by blast

lemma eq_cong: "eq a b \<Longrightarrow> eq a c \<longleftrightarrow> eq b c"
  using eq_trans eq_sym by blast

lemma get_cong: "eq a b \<Longrightarrow> im_get eq m a = im_get eq m b"
  by (induction m) (auto simp: eq_cong)

lemma contains_cong: "eq a b \<Longrightarrow> im_contains eq m a = im_contains eq m b"
  using get_cong [of a b m] by (simp add: im_contains_get)

lemma get_entry:
  "im_get eq (im_entry eq q d f m) r =
     (if eq q r then Some (f (case im_get eq m q of None \<Rightarrow> d | Some v \<Rightarrow> v)) else im_get eq m r)"
proof (induction m)
  case Nil
  then show ?case by (auto simp: eq_commute)
next
  case (Cons e m)
  obtain k v where e: "e = (k, v)" by (cases e)
  show ?case
  proof (cases "eq q k")
    case True
    then have "eq r k \<longleftrightarrow> eq q r" using eq_trans eq_sym by blast
    with True e show ?thesis by simp
  next
    case False
    then have "eq q r \<Longrightarrow> \<not> eq r k" using eq_trans by blast
    with False e Cons show ?thesis by auto
  qed
qed

lemma contains_entry:
  "im_contains eq (im_entry eq q d f m) r \<longleftrightarrow> eq q r \<or> im_contains eq m r"
  by (simp add: im_contains_get get_entry)

lemma wf_entry: "im_wf eq m \<Longrightarrow> im_wf eq (im_entry eq q d f m)"
  by (induction m) (auto simp: im_keys_entry eq_commute split: if_splits)

lemma get_Cons_wf:
  "im_wf eq ((k, v) # m) \<Longrightarrow> eq k r \<Longrightarrow> im_get eq m r = None"
  by (auto simp: im_get_None_iff im_contains_def dest: eq_trans)

lemma keys_remove_mem: "k \<in> set (im_keys (im_remove eq q m)) \<Longrightarrow> k \<in> set (im_keys m)"
  by (induction m) (auto split: if_splits)

lemma wf_remove: "im_wf eq m \<Longrightarrow> im_wf eq (im_remove eq q m)"
  by (induction m) (auto dest!: keys_remove_mem)

lemma get_remove:
  assumes "im_wf eq m"
  shows "im_get eq (im_remove eq q m) r = (if eq q r then None else im_get eq m r)"
  using assms
proof (induction m)
  case Nil
  then show ?case by simp
next
  case (Cons e m)
  obtain k v where e: "e = (k, v)" by (cases e)
  show ?case
  proof (cases "eq q k")
    case True
    have k: "eq k r \<longleftrightarrow> eq q r" using eq_cong [OF True] by simp
    then have "eq q r \<Longrightarrow> im_get eq m r = None"
      using get_Cons_wf [of k v m r] Cons.prems e by simp
    with True e k show ?thesis by (simp add: eq_commute [of r k])
  next
    case False
    then have "eq q r \<Longrightarrow> \<not> eq r k" using eq_cong [of q r k] by simp
    with False Cons e show ?thesis by simp
  qed
qed

text \<open>An entry is found under its own key, provided that key equals itself.\<close>

lemma get_mem:
  "im_wf eq m \<Longrightarrow> (k, v) \<in> set m \<Longrightarrow> eq k k \<Longrightarrow> im_get eq m k = Some v"
proof (induction m)
  case Nil
  then show ?case by simp
next
  case (Cons e m)
  obtain k' v' where e: "e = (k', v')" by (cases e)
  show ?case
  proof (cases "(k, v) = e")
    case True
    with e Cons.prems show ?thesis by simp
  next
    case False
    with Cons.prems have m: "(k, v) \<in> set m" by simp
    then have "k \<in> set (im_keys m)" by (force simp: im_keys_def)
    with Cons.prems e have "\<not> eq k k'" using eq_sym by auto
    with m Cons e show ?thesis by simp
  qed
qed

end

text \<open>Maps keyed by a type whose \<^verbatim>\<open>PartialEq\<close> is equality, such as strings.\<close>

interpretation hol: keyed "(=)"
  by unfold_locales auto

end
