(* ===== verification/Features.thy ===== *)
theory Features
  imports Rust_Str Index_Map
begin

unbundle bit_operations_syntax

text \<open>
  \<^verbatim>\<open>capa-x/src/features.rs\<close>: the value of a feature as a rule writes it and as an
  extractor emits it, and the equality under which feature sets look features up.

  The regular expression engines (crates \<^verbatim>\<open>regex\<close> and \<^verbatim>\<open>fancy_regex\<close>) are not part of
  the repository. They are a parameter: a record of the four calls the code makes. A
  compiled expression keeps its pattern and the engine that accepted it.
\<close>

definition MAX_BYTES_FEATURE_SIZE :: nat where
  "MAX_BYTES_FEATURE_SIZE = 0x100"

definition MAX_OPERAND_COUNT :: u8 where
  "MAX_OPERAND_COUNT = 5"

definition MAX_OPERAND_INDEX :: u8 where
  "MAX_OPERAND_INDEX = MAX_OPERAND_COUNT - 1"

section \<open>Hexadecimal byte strings\<close>

fun hex_pairs :: "string \<Rightarrow> unit + u8 list" where
  "hex_pairs (h # l # s) =
     rbind (ok_or () (to_digit 16 h)) (\<lambda>hi.
     rbind (ok_or () (to_digit 16 l)) (\<lambda>lo.
     rbind (hex_pairs s) (\<lambda>bs.
       Inr (ucast (push_bit 4 (of_nat hi :: u32) OR of_nat lo) # bs))))"
| "hex_pairs _ = Inr []"

definition hex_decode :: "string \<Rightarrow> unit + u8 list" where
  "hex_decode s = (if length s mod 2 \<noteq> 0 then Inl () else hex_pairs s)"

section \<open>Small enumerations\<close>

datatype access = Read | Write

fun access_as_str :: "access \<Rightarrow> string" where
  "access_as_str Read = ''read''"
| "access_as_str Write = ''write''"

definition access_parse :: "string \<Rightarrow> access option" where
  "access_parse s =
     (if s = ''read'' then Some Read else if s = ''write'' then Some Write else None)"

datatype com_kind = ClassKind | InterfaceKind

definition com_kind_parse :: "string \<Rightarrow> com_kind option" where
  "com_kind_parse s =
     (if s = ''class'' then Some ClassKind
      else if s = ''interface'' then Some InterfaceKind else None)"

section \<open>Numbers\<close>

text \<open>
  An \<^verbatim>\<open>f64\<close> is its IEEE 754 bit pattern: sign in bit 63, biased exponent in bits 52 to
  62, fraction in bits 0 to 51.
\<close>

type_synonym f64 = u64

definition f64_sign :: "f64 \<Rightarrow> bool" where
  "f64_sign b = bit b 63"

definition f64_exponent :: "f64 \<Rightarrow> nat" where
  "f64_exponent b = unat (take_bit 11 (drop_bit 52 b))"

definition f64_fraction :: "f64 \<Rightarrow> nat" where
  "f64_fraction b = unat (take_bit 52 b)"

definition f64_is_nan :: "f64 \<Rightarrow> bool" where
  "f64_is_nan b = (f64_exponent b = 2047 \<and> f64_fraction b \<noteq> 0)"

definition f64_is_zero :: "f64 \<Rightarrow> bool" where
  "f64_is_zero b = (f64_exponent b = 0 \<and> f64_fraction b = 0)"

text \<open>IEEE equality: NaN differs from everything, the two zeros are equal.\<close>

definition f64_eq :: "f64 \<Rightarrow> f64 \<Rightarrow> bool" where
  "f64_eq a b = (\<not> f64_is_nan a \<and> (a = b \<or> f64_is_zero a \<and> f64_is_zero b))"

text \<open>
  The exact value of a finite number without fractional part; \<open>None\<close> for the others,
  whose \<^verbatim>\<open>fract()\<close> is not zero (for infinities and NaN it is NaN). A finite number is
  \<open>m \<sqdot> 2 ^ (e - 1075)\<close> with \<open>m\<close> the fraction, plus \<open>2 ^ 52\<close> when normal.
\<close>

definition f64_whole :: "f64 \<Rightarrow> int option" where
  "f64_whole b =
     (let ex = f64_exponent b;
          m = (if ex = 0 then f64_fraction b else 2 ^ 52 + f64_fraction b);
          e = (if ex = 0 then 1 else ex);
          sg = (if f64_sign b then - 1 else (1 :: int))
      in if ex = 2047 then None
         else if 1075 \<le> e then Some (sg * int (m * 2 ^ (e - 1075)))
         else if m mod 2 ^ (1075 - e) = 0 then Some (sg * int (m div 2 ^ (1075 - e)))
         else None)"

datatype number_value = NInt int | NFloat f64

text \<open>
  \<^verbatim>\<open>i128::MIN as f64\<close> is \<open>- (2 ^ 127)\<close> and \<^verbatim>\<open>i128::MAX as f64\<close> rounds to \<open>2 ^ 127\<close>; the
  cast back to \<^verbatim>\<open>i128\<close> saturates.
\<close>

fun as_whole_int :: "number_value \<Rightarrow> int option" where
  "as_whole_int (NInt v) = Some v"
| "as_whole_int (NFloat b) =
     (case f64_whole b of
        Some v \<Rightarrow> if - (2 ^ 127) \<le> v \<and> v \<le> 2 ^ 127 then Some (min v (2 ^ 127 - 1)) else None
      | None \<Rightarrow> None)"

definition number_eq :: "number_value \<Rightarrow> number_value \<Rightarrow> bool" where
  "number_eq x y =
     (case (as_whole_int x, as_whole_int y) of
        (Some a, Some b) \<Rightarrow> a = b
      | _ \<Rightarrow> (case (x, y) of (NFloat a, NFloat b) \<Rightarrow> f64_eq a b | _ \<Rightarrow> False))"

text \<open>What \<^verbatim>\<open>Hash\<close> feeds to the hasher: the whole value, or the bits.\<close>

definition number_hash :: "number_value \<Rightarrow> int + f64" where
  "number_hash x =
     (case as_whole_int x of
        Some i \<Rightarrow> Inl i
      | None \<Rightarrow> (case x of NFloat f \<Rightarrow> Inr f | NInt i \<Rightarrow> Inl i))"

section \<open>Regular expressions\<close>

record regex_lib =
  std_new :: "string \<Rightarrow> bool"
  std_is_match :: "string \<Rightarrow> string \<Rightarrow> bool"
  fancy_new :: "string \<Rightarrow> string option"
  fancy_is_match :: "string \<Rightarrow> string \<Rightarrow> bool option"

datatype regex_engine = Standard string | Fancy string

datatype compiled_regex = CompiledRegex (raw: string) (engine: regex_engine)

definition regex_compile :: "regex_lib \<Rightarrow> string \<Rightarrow> string + compiled_regex" where
  "regex_compile rx s =
     (let parts =
        (case Option.bind (strip_prefix ''/'' s) (strip_suffix ''/i'') of
           Some p \<Rightarrow> Some (p, True)
         | None \<Rightarrow>
             (case Option.bind (strip_prefix ''/'' s) (strip_suffix ''/'') of
                Some p \<Rightarrow> Some (p, False)
              | None \<Rightarrow> None))
      in case parts of
           None \<Rightarrow> Inl (''invalid regular expression syntax: '' @ s)
         | Some (pat, ignorecase) \<Rightarrow>
             let pattern = ''(?s'' @ (if ignorecase then ''i'' else []) @ '')'' @ pat
             in if std_new rx pattern then Inr (CompiledRegex s (Standard pattern))
                else (case fancy_new rx pattern of
                        None \<Rightarrow> Inr (CompiledRegex s (Fancy pattern))
                      | Some e \<Rightarrow>
                          Inl (''invalid regular expression: '' @ s
                               @ '' it should use Python syntax, try it at https://pythex.org (''
                               @ e @ '')'')))"

text \<open>An internal error of the backtracking engine counts as no match.\<close>

definition regex_is_match :: "regex_lib \<Rightarrow> compiled_regex \<Rightarrow> string \<Rightarrow> bool" where
  "regex_is_match rx re txt =
     (case engine re of
        Standard p \<Rightarrow> std_is_match rx p txt
      | Fancy p \<Rightarrow> (case fancy_is_match rx p txt of Some b \<Rightarrow> b | None \<Rightarrow> False))"

text \<open>Two compiled expressions are equal when their sources are.\<close>

definition regex_eq :: "compiled_regex \<Rightarrow> compiled_regex \<Rightarrow> bool" where
  "regex_eq a b = (raw a = raw b)"

section \<open>Features\<close>

datatype string_feature = Plain string | Substring string | Regex compiled_regex

datatype feature =
    Api string
  | Str string_feature
  | Bytes "u8 list"
  | Number number_value
  | Offset int
  | OperandNumber u8 number_value
  | OperandOffset u8 int
  | Mnemonic string
  | Characteristic string
  | Section string
  | Import string
  | Export string
  | FunctionName string
  | Class string
  | Namespace string
  | Property string "access option"
  | Os string
  | Arch string
  | Format string
  | Com com_kind string
  | MatchedRule string
  | BasicBlock

text \<open>
  \<^verbatim>\<open>#[derive(PartialEq)]\<close> on \<^verbatim>\<open>StringFeature\<close> and \<^verbatim>\<open>Feature\<close>: equal constructors with
  equal fields, numbers and regular expressions by their own equality.
\<close>

definition string_feature_eq :: "string_feature \<Rightarrow> string_feature \<Rightarrow> bool" where
  "string_feature_eq a b =
     (case a of
        Regex r \<Rightarrow> (case b of Regex s \<Rightarrow> regex_eq r s | _ \<Rightarrow> False)
      | _ \<Rightarrow> a = b)"

definition feature_eq :: "feature \<Rightarrow> feature \<Rightarrow> bool" where
  "feature_eq f g =
     (case f of
        Str a \<Rightarrow> (case g of Str b \<Rightarrow> string_feature_eq a b | _ \<Rightarrow> False)
      | Number a \<Rightarrow> (case g of Number b \<Rightarrow> number_eq a b | _ \<Rightarrow> False)
      | OperandNumber i a \<Rightarrow>
          (case g of OperandNumber j b \<Rightarrow> i = j \<and> number_eq a b | _ \<Rightarrow> False)
      | _ \<Rightarrow> f = g)"

text \<open>
  What the derived \<^verbatim>\<open>Hash\<close> distinguishes: the constructor and its fields, with numbers and
  regular expressions by their own hash.
\<close>

fun feature_hash :: "feature \<Rightarrow> feature \<times> (int + f64) option \<times> string option" where
  "feature_hash (Str (Regex r)) = (Str (Plain []), None, Some (raw r))"
| "feature_hash (Number n) = (Number (NInt 0), Some (number_hash n), None)"
| "feature_hash (OperandNumber i n) = (OperandNumber i (NInt 0), Some (number_hash n), None)"
| "feature_hash f = (f, None, None)"

section \<open>Equality is a partial equivalence, and hashing respects it\<close>

lemma f64_eq_sym: "f64_eq a b \<Longrightarrow> f64_eq b a"
  by (auto simp: f64_eq_def f64_is_nan_def f64_is_zero_def)

lemma f64_eq_trans: "f64_eq a b \<Longrightarrow> f64_eq b c \<Longrightarrow> f64_eq a c"
  by (auto simp: f64_eq_def)

lemma f64_whole_zero: "f64_is_zero b \<Longrightarrow> f64_whole b = Some 0"
  by (simp add: f64_whole_def f64_is_zero_def Let_def)

lemma f64_eq_whole: "f64_eq a b \<Longrightarrow> f64_whole a = f64_whole b"
  by (auto simp: f64_eq_def f64_whole_zero)

lemma number_eq_iff:
  "number_eq x y \<longleftrightarrow>
     as_whole_int x = as_whole_int y \<and>
     (as_whole_int x = None \<longrightarrow> (\<exists>a b. x = NFloat a \<and> y = NFloat b \<and> f64_eq a b))"
  by (cases x; cases y) (auto simp: number_eq_def f64_eq_whole split: option.splits)

lemma number_eq_sym: "number_eq x y \<Longrightarrow> number_eq y x"
  by (auto simp: number_eq_iff dest: f64_eq_sym)

lemma number_eq_trans: "number_eq x y \<Longrightarrow> number_eq y z \<Longrightarrow> number_eq x z"
  by (auto simp: number_eq_iff dest: f64_eq_trans)

lemma number_hash_eq: "number_eq x y \<Longrightarrow> number_hash x = number_hash y"
  by (auto simp: number_eq_iff number_hash_def f64_eq_def f64_whole_zero split: option.splits)

lemma string_feature_eq_simps [simp]:
  "string_feature_eq (Plain a) s \<longleftrightarrow> s = Plain a"
  "string_feature_eq (Substring a) s \<longleftrightarrow> s = Substring a"
  "string_feature_eq (Regex r) (Regex q) \<longleftrightarrow> raw r = raw q"
  "string_feature_eq (Regex r) (Plain a) \<longleftrightarrow> False"
  "string_feature_eq (Regex r) (Substring a) \<longleftrightarrow> False"
  by (auto simp: string_feature_eq_def regex_eq_def)

lemma string_feature_eq_Regex:
  "string_feature_eq (Regex r) s \<longleftrightarrow> (\<exists>q. s = Regex q \<and> raw r = raw q)"
  by (cases s) auto

lemma feature_eq_simps [simp]:
  "feature_eq (Str s) f \<longleftrightarrow> (\<exists>t. f = Str t \<and> string_feature_eq s t)"
  "feature_eq (Number n) f \<longleftrightarrow> (\<exists>m. f = Number m \<and> number_eq n m)"
  "feature_eq (OperandNumber i n) f \<longleftrightarrow> (\<exists>m. f = OperandNumber i m \<and> number_eq n m)"
  "feature_eq (Api a) f \<longleftrightarrow> f = Api a"
  "feature_eq (Bytes bs) f \<longleftrightarrow> f = Bytes bs"
  "feature_eq (Offset v) f \<longleftrightarrow> f = Offset v"
  "feature_eq (OperandOffset i v) f \<longleftrightarrow> f = OperandOffset i v"
  "feature_eq (Mnemonic a) f \<longleftrightarrow> f = Mnemonic a"
  "feature_eq (Characteristic a) f \<longleftrightarrow> f = Characteristic a"
  "feature_eq (Section a) f \<longleftrightarrow> f = Section a"
  "feature_eq (Import a) f \<longleftrightarrow> f = Import a"
  "feature_eq (Export a) f \<longleftrightarrow> f = Export a"
  "feature_eq (FunctionName a) f \<longleftrightarrow> f = FunctionName a"
  "feature_eq (Class a) f \<longleftrightarrow> f = Class a"
  "feature_eq (Namespace a) f \<longleftrightarrow> f = Namespace a"
  "feature_eq (Property a acc) f \<longleftrightarrow> f = Property a acc"
  "feature_eq (Os a) f \<longleftrightarrow> f = Os a"
  "feature_eq (Arch a) f \<longleftrightarrow> f = Arch a"
  "feature_eq (Format a) f \<longleftrightarrow> f = Format a"
  "feature_eq (Com k a) f \<longleftrightarrow> f = Com k a"
  "feature_eq (MatchedRule a) f \<longleftrightarrow> f = MatchedRule a"
  "feature_eq BasicBlock f \<longleftrightarrow> f = BasicBlock"
  by (auto simp: feature_eq_def split: feature.split)

lemma string_feature_eq_sym: "string_feature_eq a b \<Longrightarrow> string_feature_eq b a"
  by (cases a; cases b) auto

lemma string_feature_eq_trans:
  "string_feature_eq a b \<Longrightarrow> string_feature_eq b c \<Longrightarrow> string_feature_eq a c"
  by (cases a) (auto simp: string_feature_eq_Regex)

lemma feature_eq_sym: "feature_eq f g \<Longrightarrow> feature_eq g f"
  by (cases f) (auto dest: number_eq_sym string_feature_eq_sym)

lemma feature_eq_trans: "feature_eq f g \<Longrightarrow> feature_eq g h \<Longrightarrow> feature_eq f h"
  by (cases f; clarsimp) (blast intro: number_eq_trans string_feature_eq_trans)+

lemma feature_hash_eq: "feature_eq f g \<Longrightarrow> feature_hash f = feature_hash g"
proof (cases f)
  case (Str s)
  moreover assume "feature_eq f g"
  ultimately show ?thesis by (cases s) (auto simp: string_feature_eq_Regex)
qed (auto dest: number_hash_eq)

text \<open>Feature sets and feature-keyed indexes are maps keyed by this equality.\<close>

interpretation fmap: keyed feature_eq
  by unfold_locales (rule feature_eq_sym feature_eq_trans; assumption)+

text \<open>The only features that differ from themselves carry a NaN.\<close>

fun has_nan :: "feature \<Rightarrow> bool" where
  "has_nan (Number (NFloat b)) = f64_is_nan b"
| "has_nan (OperandNumber i (NFloat b)) = f64_is_nan b"
| "has_nan _ = False"

lemma number_eq_refl_iff: "number_eq n n \<longleftrightarrow> (\<forall>b. n = NFloat b \<longrightarrow> \<not> f64_is_nan b)"
  by (cases n) (auto simp: number_eq_iff f64_eq_def f64_whole_def f64_is_nan_def)

lemma feature_eq_refl_iff: "feature_eq f f \<longleftrightarrow> \<not> has_nan f"
proof (cases f)
  case (Str s)
  then show ?thesis by (cases s) auto
next
  case (Number n)
  then show ?thesis by (cases n) (auto simp: number_eq_refl_iff)
next
  case (OperandNumber i n)
  then show ?thesis by (cases n) (auto simp: number_eq_refl_iff)
qed auto

text \<open>
  Feature equality is symmetric and transitive, equal features feed the same data to
  the hasher, and the only features that are not equal to themselves are those whose
  number is a NaN. A hash lookup therefore finds a key exactly when some stored key is
  equal to it.
\<close>

lemma feature_eq_hash_consistent:
  "(feature_eq f g \<longrightarrow> feature_eq g f \<and> feature_hash f = feature_hash g)
   \<and> (feature_eq f g \<and> feature_eq g h \<longrightarrow> feature_eq f h)
   \<and> (feature_eq f f \<longleftrightarrow> \<not> has_nan f)"
  using feature_eq_sym feature_eq_trans feature_hash_eq feature_eq_refl_iff by blast

lemma feature_eq_hash_consistent_witness:
  "feature_eq (Number (NInt 6)) (Number (NFloat 0x4018000000000000))
   \<and> feature_hash (Number (NInt 6)) = feature_hash (Number (NFloat 0x4018000000000000))
   \<and> \<not> feature_eq (Number (NFloat 0x7ff8000000000000)) (Number (NFloat 0x7ff8000000000000))"
proof -
  have "f64_whole 0x4018000000000000 = Some 6" 
    by (simp add: f64_whole_def f64_exponent_def f64_fraction_def f64_sign_def)
  then have e: "feature_eq (Number (NInt 6)) (Number (NFloat 0x4018000000000000))"
    by (simp add: number_eq_iff)
  have "has_nan (Number (NFloat 0x7ff8000000000000))"
    by (simp add: f64_is_nan_def f64_exponent_def f64_fraction_def)
  with e feature_eq_hash_consistent [of "Number (NInt 6)" "Number (NFloat 0x4018000000000000)"]
    feature_eq_hash_consistent [of "Number (NFloat 0x7ff8000000000000)"]
  show ?thesis by blast
qed

section \<open>Hexadecimal round trip\<close>

text \<open>The reference encoder: two lower-case digits per byte.\<close>

definition hex_encode :: "u8 list \<Rightarrow> string" where
  "hex_encode bs = concat (map (\<lambda>b. [digit_char (unat b div 16), digit_char (unat b mod 16)]) bs)"

lemma nibbles_or:
  assumes "hi < 16" "lo < 16"
  shows "(ucast (push_bit 4 (of_nat hi :: u32) OR of_nat lo) :: u8) = of_nat (16 * hi + lo)"
proof -
  have "list_all (\<lambda>hi. list_all (\<lambda>lo.
          (ucast (push_bit 4 (of_nat hi :: u32) OR of_nat lo) :: u8) = of_nat (16 * hi + lo))
        [0..<16]) [0..<16]"
    by code_simp
  with assms show ?thesis by (simp add: list_all_iff)
qed

lemma hex_pairs_encode: "hex_pairs (hex_encode bs) = Inr bs"
proof (induction bs)
  case Nil
  then show ?case by (simp add: hex_encode_def)
next
  case (Cons b bs)
  have "unat b < 256" using unsigned_less [of b] by simp
  then have d: "unat b div 16 < 16" "unat b mod 16 < 16" by auto
  with Cons show ?case
    by (simp add: hex_encode_def to_digit_digit_char nibbles_or)
qed

lemma length_hex_encode: "length (hex_encode bs) = 2 * length bs"
  by (induction bs) (simp_all add: hex_encode_def)

lemma hex_pairs_length:
  "hex_pairs s = Inr bs \<Longrightarrow> even (length s) \<Longrightarrow> length s = 2 * length bs"
  by (induction s arbitrary: bs rule: hex_pairs.induct) (auto simp: result_simps)

lemma hex_pairs_error:
  "even (length s) \<Longrightarrow> hex_pairs s = Inl () \<longleftrightarrow> (\<exists>c \<in> set s. to_digit 16 c = None)"
  by (induction s rule: hex_pairs.induct) (auto simp: result_simps)

text \<open>
  Decoding a hexadecimal byte string inverts encoding; a decoded string has half as
  many bytes as digits; and decoding fails exactly on an odd number of characters or on a
  character that is not a hexadecimal digit.
\<close>

lemma hex_decode_correct:
  "hex_decode (hex_encode bs) = Inr bs
   \<and> (hex_decode s = Inr cs \<longrightarrow> length s = 2 * length cs)
   \<and> (hex_decode s = Inl () \<longleftrightarrow> odd (length s) \<or> (\<exists>c \<in> set s. to_digit 16 c = None))"
  using hex_pairs_encode [of bs] hex_pairs_length [of s cs] hex_pairs_error [of s]
  by (auto simp: hex_decode_def length_hex_encode odd_iff_mod_2_eq_one)

lemma hex_decode_correct_witness:
  "hex_decode ''0aFf'' = Inr [10, 255] \<and> length ''0aFf'' = 2 * length [10, 255 :: u8]
   \<and> hex_decode ''0ag'' = Inl ()"
proof -
  have d: "hex_decode ''0aFf'' = Inr [10, 255]" by code_simp
  with hex_decode_correct [of "[]" "''0aFf''" "[10, 255]"] hex_decode_correct [of "[]" "''0ag''"]
  show ?thesis by simp
qed

text \<open>
  A floating-point number of exactly \<open>2 ^ 127\<close>, which does not fit in a signed
  128-bit integer, is still treated as the whole number \<open>2 ^ 127 - 1\<close>, because the upper
  range check compares with the bound rounded to a float and the cast saturates: it is
  equal to that integer, and to no other.
\<close>

lemma float_bound_saturates:
  "as_whole_int (NFloat 0x47E0000000000000) = Some (2 ^ 127 - 1)
   \<and> f64_whole 0x47E0000000000000 = Some (2 ^ 127)
   \<and> (number_eq (NInt v) (NFloat 0x47E0000000000000) \<longleftrightarrow> v = 2 ^ 127 - 1)"
proof -
  have w: "f64_whole 0x47E0000000000000 = Some (2 ^ 127)"
    by (simp add: f64_whole_def f64_exponent_def f64_fraction_def f64_sign_def)
  then show ?thesis by (auto simp: number_eq_iff)
qed

end
