(* ===== verification/Yaml.thy ===== *)
theory Yaml
  imports Prelude
begin

text \<open>
  The YAML values the rule parser reads. The parser crate \<^verbatim>\<open>serde_yaml\<close> is not part of the
  repository: its \<^verbatim>\<open>Value\<close> is modelled by the data its public enum holds, a mapping by its
  entries in document order, a number by the three views of it the sources take, and the
  functions the sources call on values (\<^verbatim>\<open>as_str\<close>, \<^verbatim>\<open>as_bool\<close>, \<^verbatim>\<open>from_str\<close>) are a record
  of functions, a parameter of every definition that uses them.
\<close>

datatype yaml_number =
  YNum (num_as_i64: "int option") (num_as_u64: "nat option") (num_to_string: string)

datatype yaml =
    YNull
  | YBool bool
  | YNumber yaml_number
  | YString string
  | YSequence "yaml list"
  | YMapping "(yaml \<times> yaml) list"
  | YTagged string yaml

type_synonym mapping = "(yaml \<times> yaml) list"

record yaml_lib =
  y_as_str :: "yaml \<Rightarrow> string option"
  y_as_bool :: "yaml \<Rightarrow> bool option"
  y_from_str :: "string \<Rightarrow> string + yaml"

text \<open>\<^verbatim>\<open>Mapping::get\<close> with a string key, \<^verbatim>\<open>contains_key\<close> and \<^verbatim>\<open>insert\<close>.\<close>

definition mapping_get :: "mapping \<Rightarrow> string \<Rightarrow> yaml option" where
  "mapping_get m k = map_of m (YString k)"

definition mapping_contains :: "mapping \<Rightarrow> string \<Rightarrow> bool" where
  "mapping_contains m k = (mapping_get m k \<noteq> None)"

fun mapping_insert :: "yaml \<Rightarrow> yaml \<Rightarrow> mapping \<Rightarrow> mapping" where
  "mapping_insert k v [] = [(k, v)]"
| "mapping_insert k v ((k', v') # m) =
     (if k' = k then (k', v) # m else (k', v') # mapping_insert k v m)"

text \<open>
  What the documentation of \<^verbatim>\<open>serde_yaml\<close> promises of the accessors on untagged scalars:
  the interface the rule parser relies on.
\<close>

definition yaml_lib_ok :: "yaml_lib \<Rightarrow> bool" where
  "yaml_lib_ok yl \<longleftrightarrow>
     (\<forall>s. y_as_str yl (YString s) = Some s) \<and> (\<forall>b. y_as_bool yl (YBool b) = Some b)"

lemma mapping_get_mem: "mapping_get m k = Some v \<Longrightarrow> (YString k, v) \<in> set m"
  by (simp add: mapping_get_def map_of_SomeD)

lemma size_mapping_get:
  "mapping_get m k = Some v \<Longrightarrow>
     size v < Suc (size_list (\<lambda>p. Suc (size (fst p) + size (snd p))) m)"
  by (drule mapping_get_mem, induction m) auto

end
