(* ===== verification/Scopes.thy ===== *)
theory Scopes
  imports Features Yaml
begin

text \<open>
  \<^verbatim>\<open>capa-x/src/rules/error.rs\<close> and \<^verbatim>\<open>capa-x/src/rules/scope.rs\<close>: the errors of rule
  parsing, the scopes a rule is matched at, which scope may be nested in which, and which
  features are legal at which scope. An error message is its format string with the
  arguments that are strings; the Debug rendering of other values is left out.
\<close>

section \<open>Rule errors\<close>

datatype message = Msg string "string list"

datatype rule_error =
    Invalid message
  | InvalidWithPath string message
  | InvalidRuleSet message
  | YamlError message

abbreviation invalid :: "string \<Rightarrow> string list \<Rightarrow> rule_error" where
  "invalid fmt args \<equiv> Invalid (Msg fmt args)"

fun with_path :: "rule_error \<Rightarrow> string \<Rightarrow> rule_error" where
  "with_path (Invalid m) path = InvalidWithPath path m"
| "with_path (YamlError m) path = InvalidWithPath path m"
| "with_path (InvalidWithPath old_path m) path = InvalidWithPath path m"
| "with_path (InvalidRuleSet m) path = InvalidWithPath path m"

section \<open>Scopes\<close>

datatype scope =
    FileScope | ProcessScope | ThreadScope | SpanOfCallsScope | CallScope
  | FunctionScope | BasicBlockScope | InstructionScope | GlobalScope

fun scope_as_str :: "scope \<Rightarrow> string" where
  "scope_as_str FileScope = ''file''"
| "scope_as_str ProcessScope = ''process''"
| "scope_as_str ThreadScope = ''thread''"
| "scope_as_str SpanOfCallsScope = ''span of calls''"
| "scope_as_str CallScope = ''call''"
| "scope_as_str FunctionScope = ''function''"
| "scope_as_str BasicBlockScope = ''basic block''"
| "scope_as_str InstructionScope = ''instruction''"
| "scope_as_str GlobalScope = ''global''"

definition scope_parse :: "string \<Rightarrow> scope option" where
  "scope_parse s =
     (if s = ''file'' then Some FileScope
      else if s = ''process'' then Some ProcessScope
      else if s = ''thread'' then Some ThreadScope
      else if s = ''span of calls'' then Some SpanOfCallsScope
      else if s = ''call'' then Some CallScope
      else if s = ''function'' then Some FunctionScope
      else if s = ''basic block'' then Some BasicBlockScope
      else if s = ''instruction'' then Some InstructionScope
      else if s = ''global'' then Some GlobalScope
      else None)"

definition STATIC_SCOPES :: "scope list" where
  "STATIC_SCOPES =
     [FileScope, GlobalScope, FunctionScope, BasicBlockScope, InstructionScope]"

definition DYNAMIC_SCOPES :: "scope list" where
  "DYNAMIC_SCOPES =
     [FileScope, GlobalScope, ProcessScope, ThreadScope, SpanOfCallsScope, CallScope]"

definition STATIC_SCOPE_ORDER :: "scope list" where
  "STATIC_SCOPE_ORDER = [FileScope, FunctionScope, BasicBlockScope, InstructionScope]"

definition DYNAMIC_SCOPE_ORDER :: "scope list" where
  "DYNAMIC_SCOPE_ORDER = [FileScope, ProcessScope, ThreadScope, SpanOfCallsScope, CallScope]"

record scopes =
  sc_static :: "scope option"
  sc_dynamic :: "scope option"

definition scopes_contains :: "scopes \<Rightarrow> scope \<Rightarrow> bool" where
  "scopes_contains ss sc = (sc_static ss = Some sc \<or> sc_dynamic ss = Some sc)"

definition yaml_scalar_str :: "mapping \<Rightarrow> string \<Rightarrow> rule_error + string" where
  "yaml_scalar_str m key =
     (case mapping_get m key of
        None \<Rightarrow> Inl (invalid ''{} scope must be provided'' [key])
      | Some (YString s) \<Rightarrow> Inr s
      | Some _ \<Rightarrow> Inl (invalid ''{} scope must be a string, got: {:?}'' [key]))"

definition check_scope :: "scope list \<Rightarrow> string \<Rightarrow> string option \<Rightarrow> rule_error + scope option" where
  "check_scope allowed msg r =
     (case r of
        None \<Rightarrow> Inr None
      | Some s \<Rightarrow>
          (case scope_parse s of
             Some sc \<Rightarrow> if sc \<in> set allowed then Inr (Some sc) else Inl (invalid msg [s])
           | None \<Rightarrow> Inl (invalid msg [s])))"

definition scopes_from_dict :: "yaml_lib \<Rightarrow> mapping \<Rightarrow> rule_error + scopes" where
  "scopes_from_dict yl m =
     (let keys = List.map_filter (y_as_str yl) (map fst m)
      in if ''static'' \<notin> set keys then Inl (invalid ''static scope must be provided'' [])
         else if ''dynamic'' \<notin> set keys then Inl (invalid ''dynamic scope must be provided'' [])
         else if sort keys \<noteq> [''dynamic'', ''static''] then
           Inl (invalid ''scope flavors can be either static or dynamic'' [])
         else
           rbind (yaml_scalar_str m ''static'') (\<lambda>static_value.
           rbind (yaml_scalar_str m ''dynamic'') (\<lambda>dynamic_value.
             let static_raw = (if static_value = ''unsupported'' then None else Some static_value);
                 dynamic_raw = (if dynamic_value = ''unsupported'' then None else Some dynamic_value)
             in if static_raw = None \<and> dynamic_raw = None then
                  Inl (invalid ''invalid scopes value. At least one scope must be specified'' [])
                else
                  rbind (check_scope STATIC_SCOPES ''{} is not a valid static scope'' static_raw)
                    (\<lambda>static_scope.
                  rbind (check_scope DYNAMIC_SCOPES ''{} is not a valid dynamic scope'' dynamic_raw)
                    (\<lambda>dynamic_scope.
                      Inr \<lparr>sc_static = static_scope, sc_dynamic = dynamic_scope\<rparr>)))))"

text \<open>\<open>position x xs\<close> is \<^verbatim>\<open>iter().position(|s| *s == x)\<close>.\<close>

fun position :: "'a \<Rightarrow> 'a list \<Rightarrow> nat option" where
  "position x [] = None"
| "position x (y # ys) = (if y = x then Some 0 else map_option Suc (position x ys))"

definition is_subscope_compatible :: "scope option \<Rightarrow> scope \<Rightarrow> bool" where
  "is_subscope_compatible osc subscope =
     (case osc of
        None \<Rightarrow> False
      | Some sc \<Rightarrow>
          (case position subscope STATIC_SCOPE_ORDER of
             Some pos \<Rightarrow>
               (case position sc STATIC_SCOPE_ORDER of Some p \<Rightarrow> p \<le> pos | None \<Rightarrow> False)
           | None \<Rightarrow>
               (case position subscope DYNAMIC_SCOPE_ORDER of
                  Some pos \<Rightarrow>
                    (case position sc DYNAMIC_SCOPE_ORDER of Some p \<Rightarrow> p \<le> pos | None \<Rightarrow> False)
                | None \<Rightarrow> False)))"

section \<open>Feature legality\<close>

datatype feature_kind =
    MatchedRuleKind | ExportKind | ImportKind | SectionKind | FunctionNameKind
  | StringFamily | BytesKind | ApiKind | NumberKind | OffsetKind | MnemonicKind
  | OperandNumberKind | OperandOffsetKind | ClassKindF | NamespaceKind | PropertyKind
  | OsKind | ArchKind | FormatKind | BasicBlockKind

fun feature_kind_of :: "feature \<Rightarrow> feature_kind option" where
  "feature_kind_of (Api _) = Some ApiKind"
| "feature_kind_of (Str _) = Some StringFamily"
| "feature_kind_of (Bytes _) = Some BytesKind"
| "feature_kind_of (Number _) = Some NumberKind"
| "feature_kind_of (Offset _) = Some OffsetKind"
| "feature_kind_of (OperandNumber _ _) = Some OperandNumberKind"
| "feature_kind_of (OperandOffset _ _) = Some OperandOffsetKind"
| "feature_kind_of (Mnemonic _) = Some MnemonicKind"
| "feature_kind_of (Characteristic _) = None"
| "feature_kind_of (Section _) = Some SectionKind"
| "feature_kind_of (Import _) = Some ImportKind"
| "feature_kind_of (Export _) = Some ExportKind"
| "feature_kind_of (FunctionName _) = Some FunctionNameKind"
| "feature_kind_of (Class _) = Some ClassKindF"
| "feature_kind_of (Namespace _) = Some NamespaceKind"
| "feature_kind_of (Property _ _) = Some PropertyKind"
| "feature_kind_of (Os _) = Some OsKind"
| "feature_kind_of (Arch _) = Some ArchKind"
| "feature_kind_of (Format _) = Some FormatKind"
| "feature_kind_of (Com _ _) = None"
| "feature_kind_of (MatchedRule _) = Some MatchedRuleKind"
| "feature_kind_of BasicBlock = Some BasicBlockKind"

record scope_features =
  kinds :: "feature_kind set"
  characteristics :: "string set"

type_synonym feature_table = "scope \<rightharpoonup> scope_features"

definition merge_into :: "scope \<Rightarrow> scope_features \<Rightarrow> feature_table \<Rightarrow> feature_table" where
  "merge_into target src table =
     (case table target of
        None \<Rightarrow> table
      | Some entry \<Rightarrow>
          table(target \<mapsto> \<lparr>kinds = kinds entry \<union> kinds src,
                            characteristics = characteristics entry \<union> characteristics src\<rparr>))"

text \<open>\<open>inherit_from src target\<close>: clone the entry of \<open>src\<close> and merge it into \<open>target\<close>.\<close>

definition inherit_from :: "scope \<Rightarrow> scope \<Rightarrow> feature_table \<Rightarrow> feature_table" where
  "inherit_from src target table =
     (case table src of Some sf \<Rightarrow> merge_into target sf table | None \<Rightarrow> table)"

definition base_features :: feature_table where
  "base_features =
    [GlobalScope \<mapsto> \<lparr>kinds = {OsKind, ArchKind, FormatKind}, characteristics = {}\<rparr>,
     FileScope \<mapsto>
       \<lparr>kinds = {MatchedRuleKind, ExportKind, ImportKind, SectionKind, FunctionNameKind,
                  StringFamily, ClassKindF, NamespaceKind},
        characteristics = {''embedded pe'', ''mixed mode'', ''forwarded export''}\<rparr>,
     ProcessScope \<mapsto> \<lparr>kinds = {MatchedRuleKind}, characteristics = {}\<rparr>,
     ThreadScope \<mapsto> \<lparr>kinds = {}, characteristics = {}\<rparr>,
     SpanOfCallsScope \<mapsto> \<lparr>kinds = {}, characteristics = {}\<rparr>,
     CallScope \<mapsto>
       \<lparr>kinds = {MatchedRuleKind, StringFamily, ApiKind, NumberKind}, characteristics = {}\<rparr>,
     FunctionScope \<mapsto>
       \<lparr>kinds = {MatchedRuleKind, BasicBlockKind},
        characteristics = {''calls from'', ''calls to'', ''loop'', ''recursive call''}\<rparr>,
     BasicBlockScope \<mapsto>
       \<lparr>kinds = {MatchedRuleKind}, characteristics = {''tight loop'', ''stack string''}\<rparr>,
     InstructionScope \<mapsto>
       \<lparr>kinds = {MatchedRuleKind, ApiKind, PropertyKind, NumberKind, StringFamily, BytesKind,
                  OffsetKind, MnemonicKind, OperandNumberKind, OperandOffsetKind, ClassKindF,
                  NamespaceKind},
        characteristics = {''nzxor'', ''peb access'', ''fs access'', ''gs access'',
                            ''indirect call'', ''call $+5'', ''cross section flow'',
                            ''unmanaged call''}\<rparr>]"

definition supported_features :: feature_table where
  "supported_features =
     (inherit_from BasicBlockScope FunctionScope
      \<circ> inherit_from InstructionScope BasicBlockScope
      \<circ> inherit_from ThreadScope ProcessScope
      \<circ> inherit_from SpanOfCallsScope ThreadScope
      \<circ> inherit_from CallScope SpanOfCallsScope
      \<circ> fold (inherit_from GlobalScope)
          [InstructionScope, BasicBlockScope, FunctionScope, FileScope, ProcessScope,
           ThreadScope, SpanOfCallsScope, CallScope])
     base_features"

definition scope_entry :: "scope option \<Rightarrow> scope_features" where
  "scope_entry osc =
     (case Option.bind osc supported_features of
        Some sf \<Rightarrow> sf | None \<Rightarrow> \<lparr>kinds = {}, characteristics = {}\<rparr>)"

definition ensure_feature_valid_for_scopes :: "scopes \<Rightarrow> feature \<Rightarrow> rule_error + unit" where
  "ensure_feature_valid_for_scopes ss f =
     (let ks = kinds (scope_entry (sc_static ss)) \<union> kinds (scope_entry (sc_dynamic ss));
          cs = characteristics (scope_entry (sc_static ss)) \<union> characteristics (scope_entry (sc_dynamic ss));
          unsupported = Inl (invalid ''feature {} not supported for scopes {:?}'' [])
      in case f of
           Com _ _ \<Rightarrow> Inr ()
         | Characteristic v \<Rightarrow> if v \<in> cs then Inr () else unsupported
         | _ \<Rightarrow>
             (case feature_kind_of f of
                None \<Rightarrow> Inr ()
              | Some k \<Rightarrow> if k \<in> ks then Inr () else unsupported))"

section \<open>Properties\<close>

lemma scope_parse_as_str [simp]: "scope_parse (scope_as_str sc) = Some sc"
  by (cases sc) (simp_all add: scope_parse_def)

lemma scope_parse_Some: "scope_parse s = Some sc \<Longrightarrow> s = scope_as_str sc"
  by (auto simp: scope_parse_def split: if_splits)

lemma check_scope_Inr:
  "check_scope allowed msg r = Inr osc \<Longrightarrow>
     (r = None \<and> osc = None) \<or> (\<exists>sc. r = Some (scope_as_str sc) \<and> osc = Some sc \<and> sc \<in> set allowed)"
  by (auto simp: check_scope_def dest: scope_parse_Some scope_parse_Some [OF sym] split: option.splits if_splits)

text \<open>
  A scopes mapping that is accepted names at least one scope; its static scope, if
  any, is one of the five static scopes and its dynamic scope, if any, one of the six
  dynamic ones, and each is the scope whose name the mapping gives.
\<close>

lemma scopes_from_dict_valid:
  assumes "scopes_from_dict yl m = Inr ss"
  shows "(sc_static ss \<noteq> None \<or> sc_dynamic ss \<noteq> None)
    \<and> set_option (sc_static ss) \<subseteq> set STATIC_SCOPES \<and> set_option (sc_dynamic ss) \<subseteq> set DYNAMIC_SCOPES
    \<and> (\<forall>sc. sc_static ss = Some sc \<longrightarrow> mapping_get m ''static'' = Some (YString (scope_as_str sc)))
    \<and> (\<forall>sc. sc_dynamic ss = Some sc \<longrightarrow> mapping_get m ''dynamic'' = Some (YString (scope_as_str sc)))"
proof -
  have str: "yaml_scalar_str m k = Inr v \<Longrightarrow> mapping_get m k = Some (YString v)" for k v
    by (auto simp: yaml_scalar_str_def split: option.splits yaml.splits)
  from assms show ?thesis
    by (auto simp: scopes_from_dict_def Let_def result_simps split: if_splits
        dest!: check_scope_Inr str)
qed

lemma scopes_from_dict_valid_witness:
  "\<exists>yl ss. scopes_from_dict yl [(YString ''static'', YString ''function''),
      (YString ''dynamic'', YString ''unsupported'')] = Inr ss
    \<and> (sc_static ss \<noteq> None \<or> sc_dynamic ss \<noteq> None)"
proof -
  let ?yl = "\<lparr>y_as_str = (\<lambda>y. case y of YString s \<Rightarrow> Some s | _ \<Rightarrow> None),
     y_as_bool = (\<lambda>_. None), y_from_str = (\<lambda>_. Inl [])\<rparr>"
  let ?m = "[(YString ''static'', YString ''function''), (YString ''dynamic'', YString ''unsupported'')]"
  have "scopes_from_dict ?yl ?m = Inr \<lparr>sc_static = Some FunctionScope, sc_dynamic = None\<rparr>"
    by code_simp
  from this scopes_from_dict_valid [OF this] show ?thesis by blast
qed

text \<open>
  The rows of the table, symbolically: every scope has a row, and inheritance adds the
  source row to the target row.
\<close>

definition total_table :: "feature_table \<Rightarrow> bool" where
  "total_table t \<longleftrightarrow> (\<forall>sc. t sc \<noteq> None)"

lemma total_base: "total_table base_features"
  unfolding total_table_def by (rule allI, rename_tac sc, case_tac sc) (simp_all add: base_features_def)

lemma total_inherit: "total_table t \<Longrightarrow> total_table (inherit_from a b t)"
  by (auto simp: total_table_def inherit_from_def merge_into_def split: option.splits)

lemma row_inherit:
  assumes "total_table t"
  shows "kinds (the (inherit_from a b t sc)) =
      kinds (the (t sc)) \<union> (if sc = b then kinds (the (t a)) else {})"
    and "characteristics (the (inherit_from a b t sc)) =
      characteristics (the (t sc)) \<union> (if sc = b then characteristics (the (t a)) else {})"
proof -
  obtain ra rb where "t a = Some ra" "t b = Some rb"
    using assms unfolding total_table_def by (meson option.exhaust)
  then show "kinds (the (inherit_from a b t sc)) =
      kinds (the (t sc)) \<union> (if sc = b then kinds (the (t a)) else {})"
    and "characteristics (the (inherit_from a b t sc)) =
      characteristics (the (t sc)) \<union> (if sc = b then characteristics (the (t a)) else {})"
    by (simp_all add: inherit_from_def merge_into_def)
qed

lemmas row_simps = supported_features_def row_inherit total_inherit total_base

lemma total_supported: "total_table supported_features"
  by (simp add: row_simps)

lemma scope_entry_Some: "scope_entry (Some sc) = the (supported_features sc)"
  using total_supported unfolding scope_entry_def total_table_def
  by (metis bind.bind_lunit option.exhaust_sel option.simps(5))

text \<open>The features one scope supports are a subset of those of another.\<close>

definition scope_le :: "scope \<Rightarrow> scope \<Rightarrow> bool" where
  "scope_le inner outer \<longleftrightarrow>
     kinds (scope_entry (Some inner)) \<subseteq> kinds (scope_entry (Some outer)) \<and>
     characteristics (scope_entry (Some inner)) \<subseteq> characteristics (scope_entry (Some outer))"

lemma scope_le_refl [simp]: "scope_le sc sc"
  by (simp add: scope_le_def)

lemma scope_le_trans: "scope_le a b \<Longrightarrow> scope_le b c \<Longrightarrow> scope_le a c"
  by (auto simp: scope_le_def)

lemma scope_le_steps:
  "scope_le InstructionScope BasicBlockScope" "scope_le BasicBlockScope FunctionScope"
  "scope_le CallScope SpanOfCallsScope" "scope_le SpanOfCallsScope ThreadScope"
  "scope_le ThreadScope ProcessScope"
  by (auto simp: scope_le_def scope_entry_Some row_simps)

lemma nested_scope_le:
  assumes "is_subscope_compatible (Some outer) inner" "outer \<noteq> FileScope"
  shows "scope_le inner outer"
proof -
  from assms have "(outer, inner) \<in>
      {(FunctionScope, BasicBlockScope), (FunctionScope, InstructionScope),
       (BasicBlockScope, InstructionScope), (ProcessScope, ThreadScope),
       (ProcessScope, SpanOfCallsScope), (ProcessScope, CallScope),
       (ThreadScope, SpanOfCallsScope), (ThreadScope, CallScope),
       (SpanOfCallsScope, CallScope)} \<or> inner = outer"
    by (cases outer; cases inner)
       (simp_all add: is_subscope_compatible_def STATIC_SCOPE_ORDER_def DYNAMIC_SCOPE_ORDER_def)
  then show ?thesis
    using scope_le_steps by (auto intro: scope_le_trans)
qed

lemma global_scope_le: "scope_le GlobalScope sc"
  by (cases sc) (auto simp: scope_le_def scope_entry_Some row_simps)

lemma valid_scope_le:
  assumes "scope_le inner outer"
    "ensure_feature_valid_for_scopes \<lparr>sc_static = Some inner, sc_dynamic = None\<rparr> f = Inr ()
     \<or> ensure_feature_valid_for_scopes \<lparr>sc_static = None, sc_dynamic = Some inner\<rparr> f = Inr ()"
    "sc_static ss = Some outer \<or> sc_dynamic ss = Some outer"
  shows "ensure_feature_valid_for_scopes ss f = Inr ()"
proof -
  have n: "scope_entry None = \<lparr>kinds = {}, characteristics = {}\<rparr>"
    by (simp add: scope_entry_def)
  show ?thesis
  proof (cases "\<exists>c. f = Characteristic c")
    case True
    with assms n show ?thesis
      by (auto simp: ensure_feature_valid_for_scopes_def scope_le_def Let_def split: if_splits)
  next
    case False
    then have k: "ensure_feature_valid_for_scopes qs f = Inr () \<longleftrightarrow>
        (\<forall>k. feature_kind_of f = Some k \<longrightarrow>
          k \<in> kinds (scope_entry (sc_static qs)) \<union> kinds (scope_entry (sc_dynamic qs)))" for qs
      by (cases f) (simp_all add: ensure_feature_valid_for_scopes_def)
    with assms n show ?thesis by (auto simp: scope_le_def)
  qed
qed

text \<open>
  Feature legality is inherited outwards. A feature that is legal at a scope is legal
  at every scope it may be nested in, except the file scope, which inherits nothing;
  and the global features (operating system, architecture, format) are legal at every
  scope.
\<close>

lemma feature_legality_inherited:
  assumes "is_subscope_compatible (Some outer) inner" "outer \<noteq> FileScope"
    and "sc_static ss = Some outer \<or> sc_dynamic ss = Some outer"
    and "ensure_feature_valid_for_scopes \<lparr>sc_static = Some inner, sc_dynamic = None\<rparr> f = Inr ()
      \<or> ensure_feature_valid_for_scopes \<lparr>sc_static = None, sc_dynamic = Some inner\<rparr> f = Inr ()"
  shows "ensure_feature_valid_for_scopes ss f = Inr ()
    \<and> ensure_feature_valid_for_scopes ss (Os v) = Inr ()
    \<and> ensure_feature_valid_for_scopes ss (Arch v) = Inr ()
    \<and> ensure_feature_valid_for_scopes ss (Format v) = Inr ()"
proof -
  have g: "ensure_feature_valid_for_scopes \<lparr>sc_static = Some GlobalScope, sc_dynamic = None\<rparr> h = Inr ()"
    if "feature_kind_of h \<in> {Some OsKind, Some ArchKind, Some FormatKind}" for h
  proof -
    have "{OsKind, ArchKind, FormatKind} \<subseteq> kinds (the (base_features GlobalScope))"
      by (simp add: base_features_def)
    with that show ?thesis
      by (cases h) (auto simp: ensure_feature_valid_for_scopes_def scope_entry_Some row_simps)
  qed
  show ?thesis
    using assms valid_scope_le [OF nested_scope_le, of outer inner f ss]
      valid_scope_le [OF global_scope_le [of outer], of _ ss] g by auto
qed

lemma feature_legality_inherited_witness:
  "ensure_feature_valid_for_scopes \<lparr>sc_static = Some FunctionScope, sc_dynamic = None\<rparr>
     (Characteristic ''nzxor'') = Inr ()"
proof -
  have "is_subscope_compatible (Some FunctionScope) InstructionScope" by code_simp
  moreover have "ensure_feature_valid_for_scopes
      \<lparr>sc_static = Some InstructionScope, sc_dynamic = None\<rparr> (Characteristic ''nzxor'') = Inr ()"
  proof -
    have "''nzxor'' \<in> characteristics (the (base_features InstructionScope))"
      by (simp add: base_features_def)
    then show ?thesis
      by (simp add: ensure_feature_valid_for_scopes_def scope_entry_Some row_simps)
  qed
  ultimately show ?thesis
    using feature_legality_inherited [of FunctionScope InstructionScope
      "\<lparr>sc_static = Some FunctionScope, sc_dynamic = None\<rparr>" "Characteristic ''nzxor''"] by simp
qed

end
