(* ===== verification/Rules.thy ===== *)
theory Rules
  imports Scopes
begin

text \<open>
  \<^verbatim>\<open>capa-x/src/rules/mod.rs\<close>: the logic tree of a rule and the rule itself. A node is a
  statement with an optional description; the induction rule \<open>node_induct\<close> has one case
  per statement kind and is the induction of every proof about trees.
\<close>

datatype node = Node (stmt: statement) (node_description: "string option")
and statement =
    And "node list"
  | Or "node list"
  | Not node
  | SomeOf u32 "node list"
  | Range feature u32 "u32 option"
  | Subscope scope node
  | Leaf feature

lemma node_induct [case_names And Or Not SomeOf Range Subscope Leaf]:
  assumes "\<And>cs d. (\<And>c. c \<in> set cs \<Longrightarrow> P c) \<Longrightarrow> P (Node (And cs) d)"
    and "\<And>cs d. (\<And>c. c \<in> set cs \<Longrightarrow> P c) \<Longrightarrow> P (Node (Or cs) d)"
    and "\<And>c d. P c \<Longrightarrow> P (Node (Not c) d)"
    and "\<And>n cs d. (\<And>c. c \<in> set cs \<Longrightarrow> P c) \<Longrightarrow> P (Node (SomeOf n cs) d)"
    and "\<And>f lo hi d. P (Node (Range f lo hi) d)"
    and "\<And>sc c d. P c \<Longrightarrow> P (Node (Subscope sc c) d)"
    and "\<And>f d. P (Node (Leaf f) d)"
  shows "P n"
proof -
  have "P n" and "\<forall>d. P (Node s d)" for s
    by (induct n and s rule: node.induct statement.induct) (simp_all add: assms)
  then show ?thesis by blast
qed

lemma size_stmt [termination_simp]: "size (stmt n) < size n"
  by (cases n) simp

record rule_meta =
  meta_name :: string
  meta_namespace :: "string option"
  authors :: "string list"
  meta_description :: string
  lib :: bool
  attack :: "string list"
  mbc :: "string list"
  references :: "string list"
  examples :: "string list"
  meta_raw :: mapping

record rule =
  rule_name :: string
  namespace :: "string option"
  meta :: rule_meta
  rule_scopes :: scopes
  body :: node
  is_lib :: bool
  source :: string

text \<open>A rule with a name, a namespace, scopes and a tree and nothing else, for examples.\<close>

definition basic_rule :: "string \<Rightarrow> string option \<Rightarrow> scopes \<Rightarrow> node \<Rightarrow> rule" where
  "basic_rule nm ns scs b =
     rule.make nm ns (rule_meta.make nm ns [] [] False [] [] [] [] []) scs b False []"

lemma basic_rule_simps [simp]:
  "rule_name (basic_rule nm ns scs b) = nm" "namespace (basic_rule nm ns scs b) = ns"
  "rule_scopes (basic_rule nm ns scs b) = scs" "body (basic_rule nm ns scs b) = b"
  "meta_raw (meta (basic_rule nm ns scs b)) = []"
  by (simp_all add: basic_rule_def rule.defs rule_meta.defs)

definition is_subscope_rule :: "yaml_lib \<Rightarrow> rule \<Rightarrow> bool" where
  "is_subscope_rule yl r =
     (case Option.bind (mapping_get (meta_raw (meta r)) ''capa/subscope-rule'') (y_as_bool yl) of
        Some b \<Rightarrow> b
      | None \<Rightarrow> False)"

section \<open>Tree predicates\<close>

text \<open>
  The nodes of a tree that the evaluator rejects: subscopes that have not been extracted
  and COM features that have not been expanded. \<open>evaluable\<close> trees have none.
\<close>

fun evaluable :: "node \<Rightarrow> bool" where
  "evaluable (Node (And cs) d) = (\<forall>c \<in> set cs. evaluable c)"
| "evaluable (Node (Or cs) d) = (\<forall>c \<in> set cs. evaluable c)"
| "evaluable (Node (Not c) d) = evaluable c"
| "evaluable (Node (SomeOf n cs) d) = (\<forall>c \<in> set cs. evaluable c)"
| "evaluable (Node (Range f lo hi) d) = True"
| "evaluable (Node (Subscope sc c) d) = False"
| "evaluable (Node (Leaf f) d) = (case f of Com _ _ \<Rightarrow> False | _ \<Rightarrow> True)"

text \<open>
  Counted blocks on which the short-circuiting pass and the complete pass agree: no
  empty \<^verbatim>\<open>0 or more\<close> block, and fewer than \<open>2 ^ 32\<close> children, so that counting in 32 bits
  does not wrap.
\<close>

fun counted_ok :: "node \<Rightarrow> bool" where
  "counted_ok (Node (And cs) d) = (\<forall>c \<in> set cs. counted_ok c)"
| "counted_ok (Node (Or cs) d) = (\<forall>c \<in> set cs. counted_ok c)"
| "counted_ok (Node (Not c) d) = counted_ok c"
| "counted_ok (Node (SomeOf n cs) d) =
     ((n = 0 \<longrightarrow> cs \<noteq> []) \<and> length cs < 2 ^ 32 \<and> (\<forall>c \<in> set cs. counted_ok c))"
| "counted_ok (Node (Range f lo hi) d) = True"
| "counted_ok (Node (Subscope sc c) d) = counted_ok c"
| "counted_ok (Node (Leaf f) d) = True"

end
