(* ===== verification/Engine.thy ===== *)
theory Engine
  imports Address Rules
begin

text \<open>
  \<^verbatim>\<open>capa-x/src/engine.rs\<close>: feature sets, the evaluation of a rule tree against a feature
  set with its evidence tree, the evidence-free boolean pass, and the publication of rule
  matches as features.

  A set of addresses (\<^verbatim>\<open>BTreeSet\<close>) is a HOL set. A loop over the children of a statement is
  a recursion over the list of the children's outcomes; evaluation is pure, so looking at
  outcomes one by one and stopping early is what the loop does.
\<close>

type_synonym feature_set = "(feature, address set) index_map"

abbreviation fs_get :: "feature_set \<Rightarrow> feature \<Rightarrow> address set option" where
  "fs_get \<equiv> im_get feature_eq"

abbreviation fs_contains :: "feature_set \<Rightarrow> feature \<Rightarrow> bool" where
  "fs_contains \<equiv> im_contains feature_eq"

definition fs_insert :: "feature \<Rightarrow> address \<Rightarrow> feature_set \<Rightarrow> feature_set" where
  "fs_insert f addr fs = im_entry feature_eq f {} (insert addr) fs"

definition fs_insert_many :: "feature \<Rightarrow> address set \<Rightarrow> feature_set \<Rightarrow> feature_set" where
  "fs_insert_many f locs fs = im_entry feature_eq f {} (\<lambda>l. l \<union> locs) fs"

fun fs_merge :: "feature_set \<Rightarrow> feature_set \<Rightarrow> feature_set" where
  "fs_merge fs [] = fs"
| "fs_merge fs ((f, locs) # other) =
     fs_merge (im_entry feature_eq f {} (\<lambda>l. l \<union> locs) fs) other"

text \<open>\<^verbatim>\<open>merge_owned\<close> moves the location set of a new key instead of extending an empty one.\<close>

fun merge_owned :: "feature_set \<Rightarrow> feature_set \<Rightarrow> feature_set" where
  "merge_owned fs [] = fs"
| "merge_owned fs ((f, locs) # other) =
     merge_owned
       (if fs_contains fs f then im_entry feature_eq f {} (\<lambda>l. l \<union> locs) fs
        else fs @ [(f, locs)])
       other"

section \<open>Namespaces and rule matches\<close>

text \<open>A namespace and its ancestor prefixes, longest first.\<close>

function rule_namespaces :: "string \<Rightarrow> string list" where
  "rule_namespaces ns =
     ns # (case rfind_char (CHR ''/'') ns of
             Some i \<Rightarrow> rule_namespaces (take i ns)
           | None \<Rightarrow> [])"
  by pat_completeness auto
termination
  by (relation "measure length") (auto dest: rfind_char_less)

declare rule_namespaces.simps [simp del]

definition index_rule_matches :: "rule \<Rightarrow> address set \<Rightarrow> feature_set \<Rightarrow> feature_set" where
  "index_rule_matches r locs fs =
     (let fs = fs_insert_many (MatchedRule (rule_name r)) locs fs
      in case namespace r of
           None \<Rightarrow> fs
         | Some ns \<Rightarrow>
             fold (\<lambda>prefix. fs_insert_many (MatchedRule prefix) locs) (rule_namespaces ns) fs)"

section \<open>Evidence\<close>

datatype engine_error = UnextractedSubscope scope | UnexpandedCom com_kind

datatype matched_node =
    MAnd | MOr | MNot
  | MSome u32
  | MRange feature u32 "u32 option"
  | MLeaf feature

datatype match_result =
  MatchResult (success: bool) (mnode: matched_node) (mr_description: "string option")
    (locations: "address set") (children: "match_result list")
    (captures: "string \<rightharpoonup> address set")

definition leaf ::
  "matched_node \<Rightarrow> bool \<Rightarrow> string option \<Rightarrow> address set \<Rightarrow> match_result" where
  "leaf n ok d locs = MatchResult ok n d locs [] Map.empty"

abbreviation compound ::
  "bool \<Rightarrow> matched_node \<Rightarrow> string option \<Rightarrow> match_result list \<Rightarrow> match_result" where
  "compound ok n d rs \<equiv> MatchResult ok n d {} rs Map.empty"

type_synonym outcome = "engine_error + match_result"

section \<open>Statements\<close>

text \<open>The short-circuiting loops; \<open>acc\<close> holds the results pushed so far.\<close>

fun and_loop :: "string option \<Rightarrow> match_result list \<Rightarrow> outcome list \<Rightarrow> outcome" where
  "and_loop d acc [] = Inr (compound True MAnd d acc)"
| "and_loop d acc (o1 # os) =
     rbind o1 (\<lambda>r. if \<not> success r then Inr (compound False MAnd d (acc @ [r]))
                   else and_loop d (acc @ [r]) os)"

fun or_loop :: "string option \<Rightarrow> match_result list \<Rightarrow> outcome list \<Rightarrow> outcome" where
  "or_loop d acc [] = Inr (compound False MOr d acc)"
| "or_loop d acc (o1 # os) =
     rbind o1 (\<lambda>r. if success r then Inr (compound True MOr d (acc @ [r]))
                   else or_loop d (acc @ [r]) os)"

fun some_loop :: "u32 \<Rightarrow> string option \<Rightarrow> u32 \<Rightarrow> match_result list \<Rightarrow> outcome list \<Rightarrow> outcome" where
  "some_loop cnt d satisfied acc [] = Inr (compound False (MSome cnt) d acc)"
| "some_loop cnt d satisfied acc (o1 # os) =
     rbind o1 (\<lambda>r.
       let satisfied = (if success r then satisfied + 1 else satisfied)
       in if cnt \<le> satisfied then Inr (compound True (MSome cnt) d (acc @ [r]))
          else some_loop cnt d satisfied (acc @ [r]) os)"

definition eval_and :: "outcome list \<Rightarrow> bool \<Rightarrow> string option \<Rightarrow> outcome" where
  "eval_and os short_circuit d =
     (if short_circuit then and_loop d [] os
      else rbind (collect os) (\<lambda>rs. Inr (compound (list_all success rs) MAnd d rs)))"

definition eval_or :: "outcome list \<Rightarrow> bool \<Rightarrow> string option \<Rightarrow> outcome" where
  "eval_or os short_circuit d =
     (if short_circuit then or_loop d [] os
      else rbind (collect os) (\<lambda>rs. Inr (compound (list_ex success rs) MOr d rs)))"

definition eval_not :: "outcome \<Rightarrow> string option \<Rightarrow> outcome" where
  "eval_not o1 d = rbind o1 (\<lambda>r. Inr (compound (\<not> success r) MNot d [r]))"

definition eval_some :: "u32 \<Rightarrow> outcome list \<Rightarrow> bool \<Rightarrow> string option \<Rightarrow> outcome" where
  "eval_some cnt os short_circuit d =
     (if short_circuit then some_loop cnt d 0 [] os
      else rbind (collect os) (\<lambda>rs.
             let satisfied = as_u32 (length (filter success rs))
             in Inr (compound (cnt \<le> satisfied) (MSome cnt) d rs)))"

definition eval_range ::
  "feature \<Rightarrow> u32 \<Rightarrow> u32 option \<Rightarrow> feature_set \<Rightarrow> string option \<Rightarrow> match_result" where
  "eval_range f lo hi fs d =
     (let matched = fs_get fs f;
          cnt = (case matched of None \<Rightarrow> 0 | Some s \<Rightarrow> as_u32 (card s))
      in if lo = 0 \<and> cnt = 0 then leaf (MRange f lo hi) True d {}
         else
           let ok = (lo \<le> cnt \<and> (case hi of None \<Rightarrow> True | Some mx \<Rightarrow> cnt \<le> mx));
               locs = (case matched of None \<Rightarrow> {} | Some s \<Rightarrow> s)
           in leaf (MRange f lo hi) ok d locs)"

section \<open>Leaves\<close>

definition eval_exact :: "feature \<Rightarrow> feature_set \<Rightarrow> string option \<Rightarrow> match_result" where
  "eval_exact f fs d =
     (case fs_get fs f of
        Some locs \<Rightarrow> leaf (MLeaf f) True d locs
      | None \<Rightarrow> leaf (MLeaf f) False d {})"

fun string_value :: "feature \<Rightarrow> string option" where
  "string_value (Str (Plain v)) = Some v"
| "string_value (Str (Substring v)) = Some v"
| "string_value (Str (Regex re)) = Some (raw re)"
| "string_value _ = None"

datatype string_match = SubstringMatch | RegexMatch compiled_regex

fun string_matches :: "regex_lib \<Rightarrow> string_match \<Rightarrow> string \<Rightarrow> string \<Rightarrow> bool" where
  "string_matches rx SubstringMatch needle haystack = contains_str haystack needle"
| "string_matches rx (RegexMatch re) needle haystack = regex_is_match rx re haystack"

text \<open>The scan over the feature set, with its three accumulators.\<close>

fun string_scan_loop ::
  "regex_lib \<Rightarrow> string_match \<Rightarrow> string \<Rightarrow> bool \<Rightarrow> feature_set
   \<Rightarrow> bool \<times> address set \<times> (string \<rightharpoonup> address set)
   \<Rightarrow> bool \<times> address set \<times> (string \<rightharpoonup> address set)" where
  "string_scan_loop rx m needle sc [] st = st"
| "string_scan_loop rx m needle sc ((f, locs) # fs) (found, ls, caps) =
     (case string_value f of
        None \<Rightarrow> string_scan_loop rx m needle sc fs (found, ls, caps)
      | Some haystack \<Rightarrow>
          if string_matches rx m needle haystack then
            let st' = (True, ls \<union> locs,
                       caps(haystack \<mapsto> (case caps haystack of None \<Rightarrow> {} | Some s \<Rightarrow> s) \<union> locs))
            in if sc then st' else string_scan_loop rx m needle sc fs st'
          else string_scan_loop rx m needle sc fs (found, ls, caps))"

definition eval_string_scan ::
  "regex_lib \<Rightarrow> feature \<Rightarrow> string \<Rightarrow> string_match \<Rightarrow> feature_set \<Rightarrow> bool \<Rightarrow> string option
   \<Rightarrow> match_result" where
  "eval_string_scan rx query needle m fs sc d =
     (let (found, ls, caps) = string_scan_loop rx m needle sc fs (False, {}, Map.empty)
      in MatchResult found (MLeaf query) d ls [] caps)"

text \<open>The first entry of the feature set, in insertion order, that satisfies a test.\<close>

fun first_hit :: "(feature \<Rightarrow> bool) \<Rightarrow> feature_set \<Rightarrow> address set option" where
  "first_hit p [] = None"
| "first_hit p ((f, locs) # fs) = (if p f then Some locs else first_hit p fs)"

fun bytes_hit :: "u8 list \<Rightarrow> feature \<Rightarrow> bool" where
  "bytes_hit needle (Bytes v) = prefix needle v"
| "bytes_hit needle _ = False"

fun os_hit :: "string \<Rightarrow> feature \<Rightarrow> bool" where
  "os_hit query (Os v) = (query = ''any'' \<or> v = ''any'' \<or> query = v)"
| "os_hit query _ = False"

definition eval_bytes :: "feature \<Rightarrow> u8 list \<Rightarrow> feature_set \<Rightarrow> string option \<Rightarrow> match_result" where
  "eval_bytes query needle fs d =
     (case first_hit (bytes_hit needle) fs of
        Some locs \<Rightarrow> leaf (MLeaf query) True d locs
      | None \<Rightarrow> leaf (MLeaf query) False d {})"

definition eval_os :: "feature \<Rightarrow> string \<Rightarrow> feature_set \<Rightarrow> string option \<Rightarrow> match_result" where
  "eval_os query_feature query fs d =
     (case first_hit (os_hit query) fs of
        Some locs \<Rightarrow> leaf (MLeaf query_feature) True d locs
      | None \<Rightarrow> leaf (MLeaf query_feature) False d {})"

definition eval_leaf ::
  "regex_lib \<Rightarrow> feature \<Rightarrow> feature_set \<Rightarrow> bool \<Rightarrow> string option \<Rightarrow> outcome" where
  "eval_leaf rx f fs sc d =
     (case f of
        Str (Substring needle) \<Rightarrow> Inr (eval_string_scan rx f needle SubstringMatch fs sc d)
      | Str (Regex re) \<Rightarrow> Inr (eval_string_scan rx f (raw re) (RegexMatch re) fs sc d)
      | Bytes needle \<Rightarrow> Inr (eval_bytes f needle fs d)
      | Os query \<Rightarrow> Inr (eval_os f query fs d)
      | Com kind _ \<Rightarrow> Inl (UnexpandedCom kind)
      | _ \<Rightarrow> Inr (eval_exact f fs d))"

section \<open>Evaluation\<close>

fun evaluate :: "regex_lib \<Rightarrow> feature_set \<Rightarrow> bool \<Rightarrow> node \<Rightarrow> outcome" where
  "evaluate rx fs sc (Node (And cs) d) = eval_and (map (evaluate rx fs sc) cs) sc d"
| "evaluate rx fs sc (Node (Or cs) d) = eval_or (map (evaluate rx fs sc) cs) sc d"
| "evaluate rx fs sc (Node (Not c) d) = eval_not (evaluate rx fs sc c) d"
| "evaluate rx fs sc (Node (SomeOf cnt cs) d) = eval_some cnt (map (evaluate rx fs sc) cs) sc d"
| "evaluate rx fs sc (Node (Range f lo hi) d) = Inr (eval_range f lo hi fs d)"
| "evaluate rx fs sc (Node (Subscope scp c) d) = Inl (UnextractedSubscope scp)"
| "evaluate rx fs sc (Node (Leaf f) d) = eval_leaf rx f fs sc d"

text \<open>The loops of the boolean pass.\<close>

fun all_loop :: "(engine_error + bool) list \<Rightarrow> engine_error + bool" where
  "all_loop [] = Inr True"
| "all_loop (b # bs) = rbind b (\<lambda>x. if \<not> x then Inr False else all_loop bs)"

fun any_loop :: "(engine_error + bool) list \<Rightarrow> engine_error + bool" where
  "any_loop [] = Inr False"
| "any_loop (b # bs) = rbind b (\<lambda>x. if x then Inr True else any_loop bs)"

fun count_loop :: "u32 \<Rightarrow> u32 \<Rightarrow> (engine_error + bool) list \<Rightarrow> engine_error + bool" where
  "count_loop cnt satisfied [] = Inr False"
| "count_loop cnt satisfied (b # bs) =
     rbind b (\<lambda>x.
       let satisfied = (if x then satisfied + 1 else satisfied)
       in if cnt \<le> satisfied then Inr True else count_loop cnt satisfied bs)"

definition boolean_leaf :: "regex_lib \<Rightarrow> feature_set \<Rightarrow> feature \<Rightarrow> engine_error + bool" where
  "boolean_leaf rx fs f =
     (case f of
        Str (Substring needle) \<Rightarrow>
          Inr (\<exists>v \<in> set (List.map_filter string_value (im_keys fs)). contains_str v needle)
      | Str (Regex re) \<Rightarrow>
          Inr (\<exists>v \<in> set (List.map_filter string_value (im_keys fs)). regex_is_match rx re v)
      | Bytes needle \<Rightarrow> Inr (\<exists>k \<in> set (im_keys fs). bytes_hit needle k)
      | Os query \<Rightarrow> Inr (\<exists>k \<in> set (im_keys fs). os_hit query k)
      | Com kind _ \<Rightarrow> Inl (UnexpandedCom kind)
      | _ \<Rightarrow> Inr (fs_contains fs f))"

fun evaluate_boolean :: "regex_lib \<Rightarrow> feature_set \<Rightarrow> node \<Rightarrow> engine_error + bool" where
  "evaluate_boolean rx fs (Node (And cs) d) = all_loop (map (evaluate_boolean rx fs) cs)"
| "evaluate_boolean rx fs (Node (Or cs) d) = any_loop (map (evaluate_boolean rx fs) cs)"
| "evaluate_boolean rx fs (Node (Not c) d) = map_ok (\<lambda>b. \<not> b) (evaluate_boolean rx fs c)"
| "evaluate_boolean rx fs (Node (SomeOf cnt cs) d) =
     count_loop cnt 0 (map (evaluate_boolean rx fs) cs)"
| "evaluate_boolean rx fs (Node (Range f lo hi) d) =
     (let cnt = (case fs_get fs f of None \<Rightarrow> 0 | Some locs \<Rightarrow> as_u32 (card locs))
      in Inr (lo \<le> cnt \<and> (case hi of None \<Rightarrow> True | Some mx \<Rightarrow> cnt \<le> mx)))"
| "evaluate_boolean rx fs (Node (Subscope scp c) d) = Inl (UnextractedSubscope scp)"
| "evaluate_boolean rx fs (Node (Leaf f) d) = boolean_leaf rx fs f"

end
