(* ===== verification/Engine_Props.thy ===== *)
theory Engine_Props
  imports Engine
begin

text \<open>
  Properties of the matching engine (\<^verbatim>\<open>engine.rs\<close>): feature-set laws, the reference
  semantics of rule trees, and the agreement of the boolean pass, the short-circuiting
  pass and the complete pass with it.
\<close>

section \<open>Feature sets\<close>

named_theorems fs_laws \<open>lookup after an update of a feature set\<close>

lemma get_fs_insert [fs_laws]:
  "fs_get (fs_insert f a fs) g =
     (if feature_eq f g then Some (insert a (case fs_get fs f of None \<Rightarrow> {} | Some l \<Rightarrow> l))
      else fs_get fs g)"
  by (simp add: fs_insert_def fmap.get_entry)

lemma get_fs_insert_many [fs_laws]:
  "fs_get (fs_insert_many f ls fs) g =
     (if feature_eq f g then Some ((case fs_get fs f of None \<Rightarrow> {} | Some l \<Rightarrow> l) \<union> ls)
      else fs_get fs g)"
  by (simp add: fs_insert_many_def fmap.get_entry)

lemma wf_fs_insert [simp]: "im_wf feature_eq fs \<Longrightarrow> im_wf feature_eq (fs_insert f a fs)"
  by (simp add: fs_insert_def fmap.wf_entry)

lemma wf_fs_insert_many [simp]:
  "im_wf feature_eq fs \<Longrightarrow> im_wf feature_eq (fs_insert_many f ls fs)"
  by (simp add: fs_insert_many_def fmap.wf_entry)

lemma wf_fs_merge [simp]: "im_wf feature_eq fs \<Longrightarrow> im_wf feature_eq (fs_merge fs other)"
  by (induction fs other rule: fs_merge.induct) (simp_all add: fmap.wf_entry)

lemma im_entry_new: "\<not> im_contains eq m q \<Longrightarrow> im_entry eq q d f m = m @ [(q, f d)]"
  by (induction m) auto

lemma merge_owned_eq_merge: "merge_owned fs other = fs_merge fs other"
  by (induction fs other rule: merge_owned.induct) (simp_all add: im_entry_new)

lemma get_fs_merge [fs_laws]:
  assumes "im_wf feature_eq other"
  shows "fs_get (fs_merge fs other) f =
     (case fs_get other f of
        None \<Rightarrow> fs_get fs f
      | Some ls \<Rightarrow> Some ((case fs_get fs f of None \<Rightarrow> {} | Some l \<Rightarrow> l) \<union> ls))"
  using assms
proof (induction fs other rule: fs_merge.induct)
  case (1 fs)
  then show ?case by simp
next
  case (2 fs g ls other)
  then have IH: "fs_get (fs_merge (im_entry feature_eq g {} (\<lambda>l. l \<union> ls) fs) other) f =
     (case fs_get other f of
        None \<Rightarrow> fs_get (im_entry feature_eq g {} (\<lambda>l. l \<union> ls) fs) f
      | Some ms \<Rightarrow>
          Some ((case fs_get (im_entry feature_eq g {} (\<lambda>l. l \<union> ls) fs) f of None \<Rightarrow> {} | Some l \<Rightarrow> l) \<union> ms))"
    by simp
  show ?case
  proof (cases "feature_eq g f")
    case True
    then have "fs_get other f = None" by (rule fmap.get_Cons_wf [OF "2.prems"])
    moreover have "feature_eq f g" using True feature_eq_sym by blast
    ultimately show ?thesis
      using IH True fmap.get_cong [OF True, of fs] by (simp add: fmap.get_entry)
  next
    case False
    then have "\<not> feature_eq f g" using feature_eq_sym by blast
    moreover from False have e: "fs_get (im_entry feature_eq g {} (\<lambda>l. l \<union> ls) fs) f = fs_get fs f"
      by (simp add: fmap.get_entry)
    ultimately show ?thesis unfolding fs_merge.simps IH e by simp
  qed
qed

text \<open>
  Merging the features of a finished child scope adds up locations. A feature is in
  the merged set exactly when it is in one of the two, with the union of its locations;
  features the parent had keep their position and new ones follow in the child's order;
  and moving the child's sets gives the same set as copying them.
\<close>

lemma merge_union:
  assumes "im_wf feature_eq other"
  shows "fs_get (fs_merge fs other) f =
      (case fs_get other f of
         None \<Rightarrow> fs_get fs f
       | Some ls \<Rightarrow> Some ((case fs_get fs f of None \<Rightarrow> {} | Some l \<Rightarrow> l) \<union> ls))
    \<and> im_keys (fs_merge fs other) = im_keys fs @ filter (\<lambda>k. \<not> fs_contains fs k) (im_keys other)
    \<and> merge_owned fs other = fs_merge fs other"
proof -
  have "im_keys (fs_merge fs other) = im_keys fs @ filter (\<lambda>k. \<not> fs_contains fs k) (im_keys other)"
    using assms
  proof (induction fs other rule: fs_merge.induct)
    case (1 fs)
    then show ?case by simp
  next
    case (2 fs g ls other)
    from "2.prems" have "k \<in> set (im_keys other) \<Longrightarrow> \<not> feature_eq g k" for k by simp
    then have "filter (\<lambda>k. \<not> fs_contains (im_entry feature_eq g {} (\<lambda>l. l \<union> ls) fs) k) (im_keys other)
        = filter (\<lambda>k. \<not> fs_contains fs k) (im_keys other)"
      by (intro filter_cong) (auto simp: fmap.contains_entry)
    with 2 show ?case by (simp add: im_keys_entry)
  qed
  with assms show ?thesis by (simp add: get_fs_merge merge_owned_eq_merge)
qed

lemma merge_union_witness:
  "fs_get (fs_merge [(Api ''a'', {Absolute 1})] [(Api ''b'', {}), (Api ''a'', {Absolute 3})]) (Api ''a'')
     = Some {Absolute 1, Absolute 3}"
  using merge_union [of "[(Api ''b'', {}), (Api ''a'', {Absolute 3})]"
      "[(Api ''a'', {Absolute 1})]" "Api ''a''"]
  by auto

section \<open>Publishing matches\<close>

lemma rule_namespaces_iff:
  "p \<in> set (rule_namespaces ns) \<longleftrightarrow> p = ns \<or> (\<exists>q. ns = p @ CHR ''/'' # q)"
proof (induction ns arbitrary: p rule: rule_namespaces.induct)
  case (1 ns)
  show ?case
  proof (cases "rfind_char (CHR ''/'') ns")
    case None
    then have "rule_namespaces ns = [ns]" by (simp add: rule_namespaces.simps [of ns])
    moreover from None have "CHR ''/'' \<notin> set ns" by (simp add: rfind_char_None_iff)
    ultimately show ?thesis by auto
  next
    case (Some i)
    then have ns: "ns = take i ns @ CHR ''/'' # drop (Suc i) ns" "CHR ''/'' \<notin> set (drop (Suc i) ns)"
      using rfind_char_Some by blast+
    have "(\<exists>q. ns = p @ CHR ''/'' # q) \<longleftrightarrow> p = take i ns \<or> (\<exists>q. take i ns = p @ CHR ''/'' # q)"
      by (subst (1) ns) (use ns(2) in \<open>auto simp: append_eq_append_conv2 Cons_eq_append_conv append_eq_Cons_conv\<close>)
    with Some 1 show ?thesis by (auto simp: rule_namespaces.simps [of ns])
  qed
qed

lemma get_fold_insert_many:
  "fs_get (fold (\<lambda>p. fs_insert_many (MatchedRule p) ls) ps fs) g =
     (if \<exists>p \<in> set ps. g = MatchedRule p
      then Some ((case fs_get fs g of None \<Rightarrow> {} | Some l \<Rightarrow> l) \<union> ls)
      else fs_get fs g)"
  by (induction ps arbitrary: fs) (auto simp: fs_laws)

text \<open>The features a rule match publishes.\<close>

definition published :: "rule \<Rightarrow> feature set" where
  "published r =
     insert (MatchedRule (rule_name r))
       (MatchedRule ` (case namespace r of None \<Rightarrow> {} | Some ns \<Rightarrow> set (rule_namespaces ns)))"

lemma get_index_rule_matches [fs_laws]:
  "fs_get (index_rule_matches r ls fs) g =
     (if g \<in> published r then Some ((case fs_get fs g of None \<Rightarrow> {} | Some l \<Rightarrow> l) \<union> ls)
      else fs_get fs g)"
  by (auto simp: index_rule_matches_def published_def get_fold_insert_many fs_laws Let_def
      split: option.splits)

lemma contains_index_rule_matches:
  "fs_contains (index_rule_matches r ls fs) g \<longleftrightarrow> g \<in> published r \<or> fs_contains fs g"
  by (simp add: im_contains_get get_index_rule_matches)

text \<open>
  Recording a rule match at some locations publishes exactly the rule's name, its
  namespace and every ancestor of the namespace as match features, adds the locations to
  each of them, and leaves every other feature as it was.
\<close>

lemma index_rule_matches_publishes:
  "fs_get (index_rule_matches r ls fs) g =
     (if g = MatchedRule (rule_name r)
        \<or> (\<exists>ns p. namespace r = Some ns \<and> g = MatchedRule p \<and> (p = ns \<or> (\<exists>q. ns = p @ ''/'' @ q)))
      then Some ((case fs_get fs g of None \<Rightarrow> {} | Some l \<Rightarrow> l) \<union> ls)
      else fs_get fs g)"
  by (auto simp: get_index_rule_matches published_def rule_namespaces_iff split: option.splits)

section \<open>Reference semantics\<close>

text \<open>
  What a tree means, without traversal order, counters or errors. The truth of a leaf is
  the boolean pass's; a counted block compares the number of its true children.
\<close>

fun leaf_holds :: "regex_lib \<Rightarrow> feature_set \<Rightarrow> feature \<Rightarrow> bool" where
  "leaf_holds rx fs f = (case boolean_leaf rx fs f of Inr b \<Rightarrow> b | Inl _ \<Rightarrow> False)"

definition range_holds :: "feature_set \<Rightarrow> feature \<Rightarrow> u32 \<Rightarrow> u32 option \<Rightarrow> bool" where
  "range_holds fs f lo hi =
     (let cnt = (case fs_get fs f of None \<Rightarrow> 0 | Some locs \<Rightarrow> as_u32 (card locs))
      in lo \<le> cnt \<and> (case hi of None \<Rightarrow> True | Some mx \<Rightarrow> cnt \<le> mx))"

fun holds :: "regex_lib \<Rightarrow> feature_set \<Rightarrow> node \<Rightarrow> bool" where
  "holds rx fs (Node (And cs) d) = (\<forall>c \<in> set cs. holds rx fs c)"
| "holds rx fs (Node (Or cs) d) = (\<exists>c \<in> set cs. holds rx fs c)"
| "holds rx fs (Node (Not c) d) = (\<not> holds rx fs c)"
| "holds rx fs (Node (SomeOf cnt cs) d) = (unat cnt \<le> length (filter (holds rx fs) cs))"
| "holds rx fs (Node (Range f lo hi) d) = range_holds fs f lo hi"
| "holds rx fs (Node (Subscope sc c) d) = False"
| "holds rx fs (Node (Leaf f) d) = leaf_holds rx fs f"

section \<open>The boolean pass is the short-circuiting pass without evidence\<close>

lemma and_loop_success: "map_ok success (and_loop d acc os) = all_loop (map (map_ok success) os)"
proof (induction os arbitrary: acc)
  case Nil
  then show ?case by simp
next
  case (Cons o1 os)
  then show ?case by (cases o1) simp_all
qed

lemma or_loop_success: "map_ok success (or_loop d acc os) = any_loop (map (map_ok success) os)"
proof (induction os arbitrary: acc)
  case Nil
  then show ?case by simp
next
  case (Cons o1 os)
  then show ?case by (cases o1) simp_all
qed

lemma some_loop_success:
  "map_ok success (some_loop cnt d sat acc os) = count_loop cnt sat (map (map_ok success) os)"
proof (induction os arbitrary: sat acc)
  case Nil
  then show ?case by simp
next
  case (Cons o1 os)
  then show ?case by (cases o1) (simp_all add: Let_def)
qed

lemma string_scan_found:
  "fst (string_scan_loop rx m needle sc fs (found, ls, caps)) \<longleftrightarrow>
     found \<or> (\<exists>v \<in> set (List.map_filter string_value (im_keys fs)). string_matches rx m needle v)"
proof (induction fs arbitrary: found ls caps)
  case Nil
  then show ?case by simp
next
  case (Cons e fs)
  obtain f locs where "e = (f, locs)" by (cases e)
  with Cons show ?case
    by (cases "string_value f") (auto simp: List.map_filter_simps Let_def)
qed

lemma first_hit_None_iff: "first_hit p fs = None \<longleftrightarrow> (\<forall>k \<in> set (im_keys fs). \<not> p k)"
  by (induction p fs rule: first_hit.induct) (auto split: if_splits)

lemma success_leaf [simp]: "success (leaf n ok d ls) = ok"
  by (simp add: leaf_def)

lemma success_eval_string_scan:
  "success (eval_string_scan rx f needle m fs sc d) \<longleftrightarrow>
     (\<exists>v \<in> set (List.map_filter string_value (im_keys fs)). string_matches rx m needle v)"
  using string_scan_found [of rx m needle sc fs False "{}" Map.empty]
  by (simp add: eval_string_scan_def case_prod_beta)

lemma success_eval_bytes: "success (eval_bytes f bs fs d) \<longleftrightarrow> (\<exists>k \<in> set (im_keys fs). bytes_hit bs k)"
  using first_hit_None_iff [of "bytes_hit bs" fs] by (auto simp: eval_bytes_def split: option.split)

lemma success_eval_os: "success (eval_os f q fs d) \<longleftrightarrow> (\<exists>k \<in> set (im_keys fs). os_hit q k)"
  using first_hit_None_iff [of "os_hit q" fs] by (auto simp: eval_os_def split: option.split)

lemma success_eval_exact: "success (eval_exact f fs d) \<longleftrightarrow> fs_contains fs f"
  by (auto simp: eval_exact_def im_contains_get split: option.split)

lemmas leaf_success =
  success_eval_string_scan success_eval_bytes success_eval_os success_eval_exact

lemma eval_leaf_success: "map_ok success (eval_leaf rx f fs sc d) = boolean_leaf rx fs f"
proof (cases f)
  case (Str s)
  then show ?thesis by (cases s) (simp_all add: eval_leaf_def boolean_leaf_def leaf_success)
qed (simp_all add: eval_leaf_def boolean_leaf_def leaf_success)

lemma eval_range_success: "success (eval_range f lo hi fs d) = range_holds fs f lo hi"
  by (auto simp: eval_range_def range_holds_def Let_def split: option.split)

lemma evaluate_boolean_success:
  "evaluate_boolean rx fs n = map_ok success (evaluate rx fs True n)"
proof (induction n rule: node_induct)
  case (And cs d)
  then show ?case by (simp add: eval_and_def and_loop_success comp_def cong: map_cong)
next
  case (Or cs d)
  then show ?case by (simp add: eval_or_def or_loop_success comp_def cong: map_cong)
next
  case (Not c d)
  then show ?case by (cases "evaluate rx fs True c") (simp_all add: eval_not_def)
next
  case (SomeOf cnt cs d)
  then show ?case by (simp add: eval_some_def some_loop_success comp_def cong: map_cong)
next
  case (Range f lo hi d)
  then show ?case by (simp add: eval_range_success range_holds_def Let_def)
next
  case (Subscope sc c d)
  then show ?case by simp
next
  case (Leaf f d)
  then show ?case by (simp add: eval_leaf_success)
qed

text \<open>
  The boolean pass that decides whether a rule is worth building evidence for
  returns exactly the verdict of the short-circuiting evaluation, and fails with the same
  error exactly when that evaluation fails: on every tree, every feature set and every
  regular expression engine.
\<close>

lemma boolean_pass_equivalent:
  "evaluate_boolean rx fs n =
     (case evaluate rx fs True n of Inl e \<Rightarrow> Inl e | Inr r \<Rightarrow> Inr (success r))"
  using evaluate_boolean_success [of rx fs n] by (cases "evaluate rx fs True n") simp_all

section \<open>Both passes compute the reference semantics\<close>

lemma all_loop_Inr: "all_loop (map Inr bs) = Inr (list_all (\<lambda>b. b) bs)"
  by (induction bs) auto

lemma any_loop_Inr: "any_loop (map Inr bs) = Inr (list_ex (\<lambda>b. b) bs)"
  by (induction bs) auto

lemma u32_Suc: "unat (w :: u32) + 1 < 2 ^ 32 \<Longrightarrow> unat (w + 1) = unat w + 1"
  by (simp add: unat_word_ariths)

lemma count_loop_Inr:
  "unat sat + length bs < 2 ^ 32 \<Longrightarrow>
   count_loop cnt sat (map Inr bs) =
     Inr (bs \<noteq> [] \<and> unat cnt \<le> unat sat + length (filter (\<lambda>b. b) bs))"
proof (induction bs arbitrary: sat)
  case Nil
  then show ?case by simp
next
  case (Cons b bs)
  let ?sat = "if b then sat + 1 else sat"
  have s: "unat ?sat = unat sat + (if b then 1 else 0)"
    using Cons.prems u32_Suc [of sat] by simp
  have IH: "count_loop cnt ?sat (map Inr bs) =
     Inr (bs \<noteq> [] \<and> unat cnt \<le> unat ?sat + length (filter (\<lambda>b. b) bs))"
    using Cons by (intro Cons.IH) (simp add: s)
  show ?case
  proof (cases "cnt \<le> ?sat")
    case True
    then have "unat cnt \<le> unat sat + (if b then 1 else 0)" by (simp add: word_le_nat_alt s)
    with True show ?thesis by (cases b) (simp_all add: Let_def)
  next
    case False
    then have "\<not> unat cnt \<le> unat sat + (if b then 1 else 0)" by (simp add: word_le_nat_alt s)
    with False IH s show ?thesis by (cases b; cases bs) (simp_all add: Let_def)
  qed
qed

lemma boolean_leaf_evaluable:
  "evaluable (Node (Leaf f) d) \<Longrightarrow> boolean_leaf rx fs f = Inr (leaf_holds rx fs f)"
  by (cases f) (auto simp: boolean_leaf_def split: string_feature.splits)

lemma map_evaluate_boolean:
  "(\<And>c. c \<in> set cs \<Longrightarrow> evaluate_boolean rx fs c = Inr (holds rx fs c)) \<Longrightarrow>
   map (evaluate_boolean rx fs) cs = map Inr (map (holds rx fs) cs)"
  by simp

lemma evaluate_boolean_holds:
  "evaluable n \<Longrightarrow> counted_ok n \<Longrightarrow> evaluate_boolean rx fs n = Inr (holds rx fs n)"
proof (induction n rule: node_induct)
  case (And cs d)
  then have "map (evaluate_boolean rx fs) cs = map Inr (map (holds rx fs) cs)"
    by (intro map_evaluate_boolean) simp
  then show ?case by (simp add: all_loop_Inr list_all_iff del: map_map)
next
  case (Or cs d)
  then have "map (evaluate_boolean rx fs) cs = map Inr (map (holds rx fs) cs)"
    by (intro map_evaluate_boolean) simp
  then show ?case by (simp add: any_loop_Inr list_ex_iff del: map_map)
next
  case (SomeOf cnt cs d)
  then have "map (evaluate_boolean rx fs) cs = map Inr (map (holds rx fs) cs)"
    by (intro map_evaluate_boolean) simp
  moreover have "cnt = 0 \<Longrightarrow> cs \<noteq> []" "length cs < 2 ^ 32" using SomeOf.prems by auto
  ultimately show ?case
    by (cases "cs = []") (auto simp: count_loop_Inr filter_map o_def unat_eq_0 simp del: map_map)
next
  case (Range f lo hi d)
  then show ?case by (simp add: range_holds_def Let_def)
next
  case (Leaf f d)
  then show ?case using boolean_leaf_evaluable by simp
qed simp_all

text \<open>
  The evidence tree of the complete pass mirrors the rule tree: one result per child, in
  order, with the statement kind and the description of its node; only leaves and counts
  carry locations.
\<close>

fun mirrors :: "node \<Rightarrow> match_result \<Rightarrow> bool" where
  "mirrors (Node (And cs) d) r =
     (mnode r = MAnd \<and> mr_description r = d \<and> locations r = {} \<and> list_all2 mirrors cs (children r))"
| "mirrors (Node (Or cs) d) r =
     (mnode r = MOr \<and> mr_description r = d \<and> locations r = {} \<and> list_all2 mirrors cs (children r))"
| "mirrors (Node (Not c) d) r =
     (mnode r = MNot \<and> mr_description r = d \<and> locations r = {} \<and>
      (\<exists>s. children r = [s] \<and> mirrors c s))"
| "mirrors (Node (SomeOf n cs) d) r =
     (mnode r = MSome n \<and> mr_description r = d \<and> locations r = {} \<and> list_all2 mirrors cs (children r))"
| "mirrors (Node (Range f lo hi) d) r =
     (mnode r = MRange f lo hi \<and> mr_description r = d \<and> children r = [])"
| "mirrors (Node (Subscope sc c) d) r = False"
| "mirrors (Node (Leaf f) d) r = (mnode r = MLeaf f \<and> mr_description r = d \<and> children r = [])"

lemma leaf_fields [simp]:
  "mnode (leaf n ok d ls) = n" "mr_description (leaf n ok d ls) = d" "children (leaf n ok d ls) = []"
  "locations (leaf n ok d ls) = ls" "captures (leaf n ok d ls) = Map.empty"
  by (simp_all add: leaf_def)

lemma eval_leaf_mirrors: "eval_leaf rx f fs sc d = Inr r \<Longrightarrow> mirrors (Node (Leaf f) d) r"
  by (auto simp: eval_leaf_def eval_string_scan_def eval_bytes_def eval_os_def eval_exact_def
      split: feature.splits string_feature.splits prod.splits option.splits)

lemma eval_range_mirrors: "mirrors (Node (Range f lo hi) d) (eval_range f lo hi fs d)"
  by (simp add: eval_range_def Let_def)

lemma evaluate_full_mirrors: "evaluate rx fs False n = Inr r \<Longrightarrow> mirrors n r"
proof (induction n arbitrary: r rule: node_induct)
  case (Leaf f d)
  then show ?case using eval_leaf_mirrors by (metis evaluate.simps(7))
next
  case (Range f lo hi d)
  then show ?case using eval_range_mirrors by auto
next
  case (And cs d)
  then obtain rs where "list_all2 (\<lambda>c s. evaluate rx fs False c = Inr s) cs rs" "children r = rs"
    "mnode r = MAnd" "mr_description r = d" "locations r = {}"
    by (auto simp: eval_and_def result_simps simp flip: traverse_def collect_Inr_iff traverse_Inr_iff)
  with And.IH show ?case by (auto elim!: list.rel_mono_strong)
next
  case (Or cs d)
  then obtain rs where "list_all2 (\<lambda>c s. evaluate rx fs False c = Inr s) cs rs" "children r = rs"
    "mnode r = MOr" "mr_description r = d" "locations r = {}"
    by (auto simp: eval_or_def result_simps simp flip: traverse_def collect_Inr_iff traverse_Inr_iff)
  with Or.IH show ?case by (auto elim!: list.rel_mono_strong)
next
  case (SomeOf n cs d)
  then obtain rs where "list_all2 (\<lambda>c s. evaluate rx fs False c = Inr s) cs rs" "children r = rs"
    "mnode r = MSome n" "mr_description r = d" "locations r = {}"
    by (auto simp: eval_some_def result_simps simp flip: traverse_def collect_Inr_iff traverse_Inr_iff)
  with SomeOf.IH show ?case by (auto elim!: list.rel_mono_strong)
next
  case (Not c d)
  then show ?case by (auto simp: eval_not_def result_simps)
qed simp_all

lemma evaluate_full_holds:
  "evaluable n \<Longrightarrow> counted_ok n \<Longrightarrow>
   \<exists>r. evaluate rx fs False n = Inr r \<and> success r = holds rx fs n"
proof (induction n rule: node_induct)
  case (And cs d)
  then have "\<exists>rs. collect (map (evaluate rx fs False) cs) = Inr rs \<and>
      list_all2 (\<lambda>c r. success r = holds rx fs c) cs rs"
    by (intro collect_ex) auto
  then obtain rs where rs: "collect (map (evaluate rx fs False) cs) = Inr rs"
    and l2: "list_all2 (\<lambda>c r. success r = holds rx fs c) cs rs" by blast
  have "list_all success rs \<longleftrightarrow> (\<forall>c \<in> set cs. holds rx fs c)"
    unfolding list_all2_list_all [OF l2, symmetric] by (rule list_all_iff)
  with rs show ?case by (simp add: eval_and_def)
next
  case (Or cs d)
  then have "\<exists>rs. collect (map (evaluate rx fs False) cs) = Inr rs \<and>
      list_all2 (\<lambda>c r. success r = holds rx fs c) cs rs"
    by (intro collect_ex) auto
  then obtain rs where rs: "collect (map (evaluate rx fs False) cs) = Inr rs"
    and l2: "list_all2 (\<lambda>c r. success r = holds rx fs c) cs rs" by blast
  have "list_ex success rs \<longleftrightarrow> (\<exists>c \<in> set cs. holds rx fs c)"
    unfolding list_all2_list_ex [OF l2, symmetric] by (rule list_ex_iff)
  with rs show ?case by (simp add: eval_or_def)
next
  case (SomeOf cnt cs d)
  then have "\<exists>rs. collect (map (evaluate rx fs False) cs) = Inr rs \<and>
      list_all2 (\<lambda>c r. success r = holds rx fs c) cs rs"
    by (intro collect_ex) auto
  then obtain rs where rs: "collect (map (evaluate rx fs False) cs) = Inr rs"
    and l2: "list_all2 (\<lambda>c r. success r = holds rx fs c) cs rs" by blast
  have len: "length (filter success rs) = length (filter (holds rx fs) cs)"
    using list_all2_length_filter [OF l2] by (rule sym)
  have "length cs < 2 ^ 32" using SomeOf.prems by simp
  then have "length (filter (holds rx fs) cs) < 2 ^ 32"
    by (rule le_less_trans [OF length_filter_le])
  then have "unat (as_u32 (length (filter success rs))) = length (filter (holds rx fs) cs)"
    unfolding unat_as_u32 len by (rule mod_less)
  with rs show ?case by (simp add: eval_some_def word_le_nat_alt Let_def)
next
  case (Not c d)
  then show ?case by (auto simp: eval_not_def)
next
  case (Range f lo hi d)
  then show ?case by (simp add: eval_range_success)
next
  case (Leaf f d)
  have "map_ok success (eval_leaf rx f fs False d) = Inr (leaf_holds rx fs f)"
    unfolding eval_leaf_success by (rule boolean_leaf_evaluable [OF Leaf(1)])
  then show ?case unfolding map_ok_Inr_iff evaluate.simps holds.simps by auto
qed simp_all

lemma evaluate_full_total_iff: "(\<exists>r. evaluate rx fs False n = Inr r) \<longleftrightarrow> evaluable n"
proof (induction n rule: node_induct)
  case (Leaf f d)
  have "(\<exists>r. eval_leaf rx f fs False d = Inr r) \<longleftrightarrow> (\<exists>b. boolean_leaf rx fs f = Inr b)"
    using eval_leaf_success [of rx f fs False d] by (cases "eval_leaf rx f fs False d") (auto dest: sym)
  also have "\<dots> \<longleftrightarrow> evaluable (Node (Leaf f) d)"
    by (cases f) (auto simp: boolean_leaf_def split: string_feature.split)
  finally show ?case by simp
next
  case (And cs d)
  then show ?case
    using collect_total_iff [of "evaluate rx fs False" cs] by (auto simp: eval_and_def rbind_Inr_iff)
next
  case (Or cs d)
  then show ?case
    using collect_total_iff [of "evaluate rx fs False" cs] by (auto simp: eval_or_def rbind_Inr_iff)
next
  case (SomeOf n cs d)
  then show ?case
    using collect_total_iff [of "evaluate rx fs False" cs]
    by (auto simp: eval_some_def rbind_Inr_iff Let_def)
next
  case (Not c d)
  then show ?case by (auto simp: eval_not_def rbind_Inr_iff)
qed simp_all

text \<open>
  C2: on every tree without unextracted subscopes and unexpanded COM features whose
  counted blocks are neither empty \<^verbatim>\<open>0 or more\<close> blocks nor longer than 32 bits can count,
  the boolean pass and the complete pass both return, and both return the truth value of
  the tree.
\<close>

theorem evaluation_correct:
  assumes "evaluable n" "counted_ok n"
  shows "evaluate_boolean rx fs n = Inr (holds rx fs n)
    \<and> (\<exists>r. evaluate rx fs False n = Inr r \<and> success r = holds rx fs n)"
  using evaluate_boolean_holds [OF assms] evaluate_full_holds [OF assms] by blast

theorem evaluation_correct_witness:
  "let n = Node (SomeOf 2 [Node (Leaf (Api ''a'')) None, Node (Not (Node (Leaf (Api ''b'')) None)) None]) None;
       fs = [(Api ''a'', {Absolute 1})]
   in \<forall>rx. evaluate_boolean rx fs n = Inr True"
proof -
  let ?n = "Node (SomeOf 2 [Node (Leaf (Api ''a'')) None,
      Node (Not (Node (Leaf (Api ''b'')) None)) None]) None"
  let ?fs = "[(Api ''a'', {Absolute 1})]"
  have "evaluable ?n" "counted_ok ?n" by simp_all
  moreover have "holds rx ?fs ?n" for rx by (simp add: boolean_leaf_def)
  ultimately show ?thesis using evaluation_correct [of ?n _ ?fs] by simp
qed

text \<open>
  The complete pass, which builds the evidence of a match, returns a result exactly
  on the trees without unextracted subscopes and unexpanded COM features, whatever the
  features; and the evidence mirrors the tree: one result per child in order, with kind
  and description, locations on leaves and counts only.
\<close>

lemma complete_evidence:
  "((\<exists>r. evaluate rx fs False n = Inr r) \<longleftrightarrow> evaluable n)
   \<and> (\<forall>r. evaluate rx fs False n = Inr r \<longrightarrow> mirrors n r)"
  using evaluate_full_total_iff evaluate_full_mirrors by blast

lemma complete_evidence_witness:
  "\<forall>rx. \<exists>r. evaluate rx [] False (Node (Or []) None) = Inr r \<and> mirrors (Node (Or []) None) r"
proof
  fix rx
  show "\<exists>r. evaluate rx [] False (Node (Or []) None) = Inr r \<and> mirrors (Node (Or []) None) r"
    using complete_evidence [of rx "[]" "Node (Or []) None"] by auto
qed

text \<open>
  On a negated empty \<^verbatim>\<open>0 or more\<close> block the two passes disagree: the boolean pass
  reports a match and the complete pass then builds an evidence tree that says the rule
  did not match.
\<close>

lemma empty_optional_disagreement:
  "let n = Node (Not (Node (SomeOf 0 []) None)) None
   in evaluate_boolean rx fs n = Inr True
      \<and> (\<exists>r. evaluate rx fs False n = Inr r \<and> \<not> success r)"
  by (simp add: eval_not_def eval_some_def)

end
