(* ===== verification/Com.thy ===== *)
theory Com
  imports Engine_Props
begin

text \<open>
  \<^verbatim>\<open>capa-x/src/com.rs\<close>: the expansion of a COM class or interface name into the GUIDs
  registered for it. The two databases are generated data files; the parsed database is a
  parameter \<open>db\<close>, a map from kind and name to GUID strings.
\<close>

type_synonym com_db = "com_kind \<Rightarrow> string \<rightharpoonup> string list"

fun com_prefix :: "com_kind \<Rightarrow> string" where
  "com_prefix ClassKind = ''CLSID_''"
| "com_prefix InterfaceKind = ''IID_''"

fun kind_name :: "com_kind \<Rightarrow> string" where
  "kind_name ClassKind = ''class''"
| "kind_name InterfaceKind = ''interface''"

text \<open>The conversion to an array of 16 bytes fails on any other length.\<close>

definition guid_to_bytes :: "string \<Rightarrow> rule_error + u8 list" where
  "guid_to_bytes guid =
     (let hex_chars = filter (\<lambda>c. c \<noteq> CHR ''-'') guid;
          bad = invalid ''invalid COM GUID: {}'' [guid]
      in rbind (map_err (\<lambda>_. bad) (hex_decode hex_chars)) (\<lambda>octets.
           if length octets \<noteq> 16 then Inl bad
           else Inr [octets ! 3, octets ! 2, octets ! 1, octets ! 0, octets ! 5, octets ! 4, octets ! 7, octets ! 6,
                     octets ! 8, octets ! 9, octets ! 10, octets ! 11, octets ! 12, octets ! 13, octets ! 14, octets ! 15]))"

fun guid_children :: "string \<Rightarrow> string list \<Rightarrow> node list \<Rightarrow> rule_error + node list" where
  "guid_children symbol [] nodes = Inr nodes"
| "guid_children symbol (guid # guids) nodes =
     rbind (guid_to_bytes guid) (\<lambda>bs.
       guid_children symbol guids
         (nodes @ [Node (Leaf (Str (Plain guid))) (Some (symbol @ '' as GUID string'')),
                      Node (Leaf (Bytes bs)) (Some (symbol @ '' as bytes''))]))"

definition translate_com_feature :: "com_db \<Rightarrow> string \<Rightarrow> com_kind \<Rightarrow> rule_error + statement" where
  "translate_com_feature db com_name kind =
     (case db kind com_name of
        Some guids \<Rightarrow>
          if guids = [] then Inl (invalid ''{} doesn't exist in COM {} database'' [com_name, kind_name kind])
          else rbind (guid_children (com_prefix kind @ com_name) guids []) (\<lambda>nodes. Inr (Or nodes))
      | None \<Rightarrow> Inl (invalid ''{} doesn't exist in COM {} database'' [com_name, kind_name kind]))"

section \<open>Properties\<close>

text \<open>The binary layout of a GUID: three little-endian fields and eight bytes in order.\<close>

definition guid_layout :: "u8 list \<Rightarrow> u8 list" where
  "guid_layout octets =
     rev (take 4 octets) @ rev (take 2 (drop 4 octets)) @ rev (take 2 (drop 6 octets)) @ drop 8 octets"

lemma length_16_cases:
  assumes "length xs = 16"
  obtains a b c d e f g h i j k l m n p q where "xs = [a, b, c, d, e, f, g, h, i, j, k, l, m, n, p, q]"
proof -
  have "[0..<16] = [0, 1, 2, 3, 4, 5, 6, 7, 8, 9, 10, 11, 12, 13, 14, 15 :: nat]"
    by (simp add: upt_rec)
  with map_nth [of xs] assms
  have "xs = [xs ! 0, xs ! 1, xs ! 2, xs ! 3, xs ! 4, xs ! 5, xs ! 6, xs ! 7,
      xs ! 8, xs ! 9, xs ! 10, xs ! 11, xs ! 12, xs ! 13, xs ! 14, xs ! 15]" by simp
  then show thesis by (rule that)
qed

lemma guid_to_bytes_Inr_iff:
  "guid_to_bytes guid = Inr bs \<longleftrightarrow>
     (\<exists>octets. hex_decode (filter (\<lambda>c. c \<noteq> CHR ''-'') guid) = Inr octets \<and> length octets = 16 \<and> bs = guid_layout octets)"
proof -
  have "[octets ! 3, octets ! 2, octets ! 1, octets ! 0, octets ! 5, octets ! 4, octets ! 7, octets ! 6,
      octets ! 8, octets ! 9, octets ! 10, octets ! 11, octets ! 12, octets ! 13, octets ! 14, octets ! 15] = guid_layout octets"
    if "length octets = 16" for octets
    using that by (cases rule: length_16_cases) (simp add: guid_layout_def)
  then show ?thesis
    by (cases "hex_decode (filter (\<lambda>c. c \<noteq> CHR ''-'') guid)") (auto simp: guid_to_bytes_def Let_def)
qed

lemma guid_layout_involution: "length octets = 16 \<Longrightarrow> guid_layout (guid_layout octets) = octets"
  by (erule length_16_cases) (simp add: guid_layout_def)

lemma guid_children_Inr:
  "guid_children symbol guids acc = Inr cs \<longleftrightarrow>
     (\<forall>g \<in> set guids. \<exists>bs. guid_to_bytes g = Inr bs) \<and>
     cs = acc @ concat (map (\<lambda>g. [Node (Leaf (Str (Plain g))) (Some (symbol @ '' as GUID string'')),
                                 Node (Leaf (Bytes (projr (guid_to_bytes g)))) (Some (symbol @ '' as bytes''))]) guids)"
proof (induction guids arbitrary: acc)
  case Nil
  then show ?case by auto
next
  case (Cons g guids)
  then show ?case by (cases "guid_to_bytes g") auto
qed

lemma translate_com_feature_Inr:
  "translate_com_feature db nm kind = Inr s \<longleftrightarrow>
     (\<exists>guids cs. db kind nm = Some guids \<and> guids \<noteq> [] \<and> s = Or cs
        \<and> guid_children (com_prefix kind @ nm) guids [] = Inr cs)"
  by (auto simp: translate_com_feature_def result_simps split: option.splits)

lemma translate_com_evaluable:
  "translate_com_feature db nm kind = Inr s \<Longrightarrow> evaluable (Node s d) \<and> counted_ok (Node s d)"
  by (auto simp: translate_com_feature_Inr guid_children_Inr)

text \<open>A GUID occurs as a string, or in its binary layout at the start of a byte feature.\<close>

definition guid_occurs :: "feature_set \<Rightarrow> string \<Rightarrow> bool" where
  "guid_occurs fs g \<longleftrightarrow>
     fs_contains fs (Str (Plain g))
     \<or> (\<exists>octets v. hex_decode (filter (\<lambda>c. c \<noteq> CHR ''-'') g) = Inr octets \<and> length octets = 16
          \<and> Bytes v \<in> set (im_keys fs) \<and> prefix (guid_layout octets) v)"

lemma bytes_hit_iff: "bytes_hit needle k \<longleftrightarrow> (\<exists>v. k = Bytes v \<and> prefix needle v)"
  by (cases k) auto

lemma guid_leaves_hold:
  assumes "guid_to_bytes g = Inr bs"
  shows "fs_contains fs (Str (Plain g)) \<or> (\<exists>k \<in> set (im_keys fs). bytes_hit (projr (guid_to_bytes g)) k)
    \<longleftrightarrow> guid_occurs fs g"
proof -
  from assms obtain octets where "hex_decode (filter (\<lambda>c. c \<noteq> CHR ''-'') g) = Inr octets"
    "length octets = 16" "bs = guid_layout octets"
    unfolding guid_to_bytes_Inr_iff by blast
  with assms show ?thesis by (auto simp: guid_occurs_def bytes_hit_iff)
qed

lemma translate_com_holds:
  assumes "translate_com_feature db nm kind = Inr s"
  shows "holds rx fs (Node s d) \<longleftrightarrow> (\<exists>g \<in> set (the (db kind nm)). guid_occurs fs g)"
proof -
  from assms obtain guids cs where g: "db kind nm = Some guids" "s = Or cs"
    and cs: "guid_children (com_prefix kind @ nm) guids [] = Inr cs"
    by (auto simp: translate_com_feature_Inr)
  have "(\<exists>c \<in> set cs. holds rx fs c) \<longleftrightarrow>
      (\<exists>g \<in> set guids. fs_contains fs (Str (Plain g))
         \<or> (\<exists>k \<in> set (im_keys fs). bytes_hit (projr (guid_to_bytes g)) k))"
    using cs by (auto simp: guid_children_Inr boolean_leaf_def)
  also have "\<dots> \<longleftrightarrow> (\<exists>g \<in> set guids. guid_occurs fs g)"
  proof (intro bex_cong refl)
    fix g
    assume "g \<in> set guids"
    then obtain bs where "guid_to_bytes g = Inr bs" using cs unfolding guid_children_Inr by blast
    then show "fs_contains fs (Str (Plain g))
        \<or> (\<exists>k \<in> set (im_keys fs). bytes_hit (projr (guid_to_bytes g)) k) \<longleftrightarrow> guid_occurs fs g"
      by (rule guid_leaves_hold)
  qed
  finally show ?thesis using g by simp
qed

text \<open>
  A COM name is expanded exactly when the database has at least one GUID for it and
  every GUID is 32 hexadecimal digits (dashes apart). The expansion evaluates without
  error, and it is true exactly when one of the GUIDs occurs as a string, or as the prefix
  of a byte feature in the mixed-endian binary layout.
\<close>

lemma com_expansion_correct:
  "((\<exists>s. translate_com_feature db nm kind = Inr s) \<longleftrightarrow>
      (\<exists>guids. db kind nm = Some guids \<and> guids \<noteq> [] \<and> list_all (\<lambda>g. \<exists>bs. guid_to_bytes g = Inr bs) guids))
   \<and> (translate_com_feature db nm kind = Inr s \<longrightarrow>
        evaluate_boolean rx fs (Node s d) = Inr (\<exists>g \<in> set (the (db kind nm)). guid_occurs fs g))"
proof -
  have "(\<exists>s. translate_com_feature db nm kind = Inr s) \<longleftrightarrow>
      (\<exists>guids. db kind nm = Some guids \<and> guids \<noteq> [] \<and> list_all (\<lambda>g. \<exists>bs. guid_to_bytes g = Inr bs) guids)"
    by (auto simp: translate_com_feature_Inr guid_children_Inr list_all_iff)
  moreover have "evaluate_boolean rx fs (Node s d) = Inr (holds rx fs (Node s d))"
    if s: "translate_com_feature db nm kind = Inr s"
    using translate_com_evaluable [OF s] by (intro evaluate_boolean_holds) simp_all
  ultimately show ?thesis using translate_com_holds by simp
qed

lemma com_expansion_correct_witness:
  "\<forall>rx. \<exists>s. translate_com_feature (\<lambda>_. [''X'' \<mapsto> [''00000000-0000-0000-C000-000000000046'']]) ''X'' ClassKind = Inr s
     \<and> evaluate_boolean rx [(Str (Plain ''00000000-0000-0000-C000-000000000046''), {})] (Node s None) = Inr True"
proof
  fix rx
  let ?g = "''00000000-0000-0000-C000-000000000046''"
  let ?db = "\<lambda>_ :: com_kind. [''X'' \<mapsto> [?g]]"
  have "guid_to_bytes ?g = Inr [0, 0, 0, 0, 0, 0, 0, 0, 192, 0, 0, 0, 0, 0, 0, 70]" by code_simp
  then obtain s where s: "translate_com_feature ?db ''X'' ClassKind = Inr s"
    using com_expansion_correct [of ?db "''X''" ClassKind _ rx "[]" None, THEN conjunct1, THEN iffD2]
    by auto
  then show "\<exists>s. translate_com_feature ?db ''X'' ClassKind = Inr s
     \<and> evaluate_boolean rx [(Str (Plain ?g), {})] (Node s None) = Inr True"
    using com_expansion_correct [of ?db "''X''" ClassKind s rx "[(Str (Plain ?g), {})]" None]
    by (auto simp: guid_occurs_def)
qed

end
