(* ===== verification/Rule_Graph.thy ===== *)
theory Rule_Graph
  imports Rules
begin

text \<open>
  \<^verbatim>\<open>capa-x/src/rules/graph.rs\<close>: which rules a rule depends on through \<^verbatim>\<open>match:\<close>, the
  namespace index, and the validation of a rule set with its dependency-first order.

  A hash set is a HOL set; \<^verbatim>\<open>into_iter().collect()\<close> followed by \<^verbatim>\<open>sort()\<close> is
  \<^const>\<open>sorted_list_of_set\<close> with the byte-wise lexicographic order of strings. A hash map
  that is only looked up is an association list.
\<close>

type_synonym namespaces = "(string, string list) index_map"

definition register :: "namespaces \<Rightarrow> string \<Rightarrow> string set \<Rightarrow> string set" where
  "register nss v deps =
     (case im_get (=) nss v of
        Some names \<Rightarrow> deps \<union> set names
      | None \<Rightarrow> insert v deps)"

fun matched_name :: "feature \<Rightarrow> string option" where
  "matched_name (MatchedRule v) = Some v"
| "matched_name _ = None"

definition register_feature :: "namespaces \<Rightarrow> feature \<Rightarrow> string set \<Rightarrow> string set" where
  "register_feature nss f deps =
     (case matched_name f of Some v \<Rightarrow> register nss v deps | None \<Rightarrow> deps)"

fun walk :: "namespaces \<Rightarrow> node \<Rightarrow> string set \<Rightarrow> string set" where
  "walk nss (Node (Leaf f) d) deps = register_feature nss f deps"
| "walk nss (Node (And cs) d) deps = fold (walk nss) cs deps"
| "walk nss (Node (Or cs) d) deps = fold (walk nss) cs deps"
| "walk nss (Node (SomeOf n cs) d) deps = fold (walk nss) cs deps"
| "walk nss (Node (Not c) d) deps = walk nss c deps"
| "walk nss (Node (Subscope sc c) d) deps = walk nss c deps"
| "walk nss (Node (Range f lo hi) d) deps = register_feature nss f deps"

definition get_dependencies :: "namespaces \<Rightarrow> node \<Rightarrow> string set" where
  "get_dependencies nss n = walk nss n {}"

text \<open>The prefixes of a namespace the index registers: the loop stops at an empty prefix.\<close>

function namespace_prefixes :: "string \<Rightarrow> string list" where
  "namespace_prefixes current =
     (if current = [] then []
      else current # (case rfind_char (CHR ''/'') current of
                        Some i \<Rightarrow> namespace_prefixes (take i current)
                      | None \<Rightarrow> []))"
  by pat_completeness auto
termination
  by (relation "measure length") (auto dest: rfind_char_less)

declare namespace_prefixes.simps [simp del]

definition index_rule_by_namespace :: "rule \<Rightarrow> namespaces \<Rightarrow> namespaces" where
  "index_rule_by_namespace r nss =
     (case namespace r of
        None \<Rightarrow> nss
      | Some ns \<Rightarrow>
          fold (\<lambda>p. im_entry (=) p [] (\<lambda>names. names @ [rule_name r])) (namespace_prefixes ns) nss)"

definition index_rules_by_namespace :: "rule list \<Rightarrow> namespaces" where
  "index_rules_by_namespace rules = fold index_rule_by_namespace rules []"

fun unique_loop :: "string set \<Rightarrow> rule list \<Rightarrow> rule_error + unit" where
  "unique_loop seen [] = Inr ()"
| "unique_loop seen (r # rules) =
     (if rule_name r \<in> seen then Inl (invalid ''duplicate rule name: {}'' [rule_name r])
      else unique_loop (insert (rule_name r) seen) rules)"

definition ensure_rules_are_unique :: "rule list \<Rightarrow> rule_error + unit" where
  "ensure_rules_are_unique rules = unique_loop {} rules"

fun check_deps :: "string set \<Rightarrow> string \<Rightarrow> string list \<Rightarrow> rule_error + unit" where
  "check_deps by_name nm [] = Inr ()"
| "check_deps by_name nm (dep # deps) =
     (if dep \<notin> by_name then Inl (invalid ''rule {} depends on missing rule {}'' [nm, dep])
      else check_deps by_name nm deps)"

definition ensure_rule_dependencies_are_met :: "rule list \<Rightarrow> namespaces \<Rightarrow> rule_error + unit" where
  "ensure_rule_dependencies_are_met rules nss =
     (let by_name = set (map rule_name rules)
      in fold_result
           (\<lambda>r _. check_deps by_name (rule_name r) (sorted_list_of_set (get_dependencies nss (body r))))
           rules ())"

section \<open>Depth-first ordering\<close>

datatype mark = Visiting | Done

type_synonym rule_map = "(string \<times> rule) list"

text \<open>A map collected from the rules: the last rule of a name wins.\<close>

definition rules_by_name :: "rule list \<Rightarrow> rule_map" where
  "rules_by_name rules = rev (map (\<lambda>r. (rule_name r, r)) rules)"

definition sorted_deps :: "namespaces \<Rightarrow> rule \<Rightarrow> string list" where
  "sorted_deps nss r = sorted_list_of_set (get_dependencies nss (body r))"

type_synonym visit_state = "(string \<rightharpoonup> mark) \<times> string list"

function (sequential) visit ::
    "rule_map \<Rightarrow> namespaces \<Rightarrow> string \<Rightarrow> visit_state \<Rightarrow> rule_error + visit_state"
  and visit_deps ::
    "rule_map \<Rightarrow> namespaces \<Rightarrow> string list \<Rightarrow> visit_state \<Rightarrow> rule_error + visit_state" where
  "visit by_name nss nm (marks, order) =
     (case marks nm of
        Some Done \<Rightarrow> Inr (marks, order)
      | Some Visiting \<Rightarrow> Inl (invalid ''rule {} has a circular dependency'' [nm])
      | None \<Rightarrow>
          (case map_of by_name nm of
             None \<Rightarrow> Inl (invalid ''rule {} depends on missing rule'' [nm])
           | Some r \<Rightarrow>
               rbind (visit_deps by_name nss (sorted_deps nss r) (marks(nm \<mapsto> Visiting), order))
                 (\<lambda>(marks, order). Inr (marks(nm \<mapsto> Done), order @ [nm]))))"
| "visit_deps by_name nss [] st = Inr st"
| "visit_deps by_name nss (dep # deps) st =
     rbind (visit by_name nss dep st) (\<lambda>st'. visit_deps by_name nss deps st')"
  by pat_completeness auto

text \<open>
  The recursion ends because a visit only enters a rule that has no mark, marks it first,
  and no call removes a mark.
\<close>

lemma visit_marks_mono:
  "visit_visit_deps_dom (Inl (by_name, nss, nm, st)) \<Longrightarrow>
     visit by_name nss nm st = Inr st' \<Longrightarrow> dom (fst st) \<subseteq> dom (fst st')"
  "visit_visit_deps_dom (Inr (by_name, nss, deps, st)) \<Longrightarrow>
     visit_deps by_name nss deps st = Inr st' \<Longrightarrow> dom (fst st) \<subseteq> dom (fst st')"
proof (induction by_name nss nm st and by_name nss deps st arbitrary: st' and st'
    rule: visit_visit_deps.pinduct)
  case (1 by_name nss nm marks order)
  then show ?case
    by (fastforce simp: visit.psimps rbind_Inr_iff split: option.splits mark.splits prod.splits)
next
  case (2 by_name nss st)
  then show ?case by (simp add: visit_deps.psimps)
next
  case (3 by_name nss dep deps st)
  then obtain s where s: "visit by_name nss dep st = Inr s" "visit_deps by_name nss deps s = Inr st'"
    by (auto simp: visit_deps.psimps rbind_Inr_iff)
  from 3(2) [OF s(1)] 3(3) [OF s] show ?case by blast
qed

definition unmarked :: "rule_map \<Rightarrow> (string \<rightharpoonup> mark) \<Rightarrow> nat" where
  "unmarked by_name marks = card (dom (map_of by_name) - dom marks)"

lemma unmarked_mono: "dom m \<subseteq> dom m' \<Longrightarrow> unmarked by_name m' \<le> unmarked by_name m"
  unfolding unmarked_def by (intro card_mono) (auto simp: finite_dom_map_of)

lemma unmarked_update:
  "m nm = None \<Longrightarrow> map_of by_name nm = Some r \<Longrightarrow>
   unmarked by_name (m(nm \<mapsto> k)) < unmarked by_name m"
  unfolding unmarked_def by (intro psubset_card_mono) (auto simp: finite_dom_map_of)

termination visit
proof (relation "measures
    [\<lambda>x. case x of Inl (bn, nss, nm, m, _) \<Rightarrow> unmarked bn m | Inr (bn, nss, ds, m, _) \<Rightarrow> unmarked bn m,
     \<lambda>x. case x of Inl _ \<Rightarrow> 0 | Inr (bn, nss, ds, _) \<Rightarrow> Suc (length ds)]")
  fix by_name :: rule_map and nss dep deps and st st' :: visit_state
  assume "visit by_name nss dep st = Inr st'"
    and "visit_visit_deps_dom (Inl (by_name, nss, dep, st))"
  then have "unmarked by_name (fst st') \<le> unmarked by_name (fst st)"
    by (intro unmarked_mono visit_marks_mono(1))
  then show "(Inr (by_name, nss, deps, st'), Inr (by_name, nss, dep # deps, st)) \<in> measures
    [\<lambda>x. case x of Inl (bn, nss, nm, m, _) \<Rightarrow> unmarked bn m | Inr (bn, nss, ds, m, _) \<Rightarrow> unmarked bn m,
     \<lambda>x. case x of Inl _ \<Rightarrow> 0 | Inr (bn, nss, ds, _) \<Rightarrow> Suc (length ds)]"
    by (cases st; cases st') auto
qed (auto simp: unmarked_update)

definition topologically_order_rules :: "rule list \<Rightarrow> namespaces \<Rightarrow> rule_error + string list" where
  "topologically_order_rules rules nss =
     map_ok snd
       (fold_result (\<lambda>r. visit (rules_by_name rules) nss (rule_name r)) rules (Map.empty, []))"

record rule_set =
  rs_rules :: rule_map
  by_namespace_prefix :: namespaces
  eval_order :: "string list"

definition RuleSet_new :: "rule list \<Rightarrow> rule_error + rule_set" where
  "RuleSet_new rules =
     rbind (ensure_rules_are_unique rules) (\<lambda>_.
     if rules = [] then Inl (InvalidRuleSet (Msg ''no rules selected'' []))
     else
       let by_namespace_prefix = index_rules_by_namespace rules in
       rbind (ensure_rule_dependencies_are_met rules by_namespace_prefix) (\<lambda>_.
       rbind (topologically_order_rules rules by_namespace_prefix) (\<lambda>eval_order.
         Inr (rule_set.make (rules_by_name rules) by_namespace_prefix eval_order))))"

end
