(* ===== verification/Rule_Graph_Props.thy ===== *)
theory Rule_Graph_Props
  imports Rule_Graph Engine_Props "HOL-Library.Multiset"
begin

text \<open>
  Properties of the rule graph (\<^verbatim>\<open>rules/graph.rs\<close>): what a rule depends on, what the
  namespace index holds, and which rule sets are accepted with which order.
\<close>

section \<open>Dependencies\<close>

text \<open>The values of the \<^verbatim>\<open>match:\<close> references of a tree, nested scopes and counts included.\<close>

fun match_refs :: "node \<Rightarrow> string set" where
  "match_refs (Node (Leaf f) d) = set_option (matched_name f)"
| "match_refs (Node (And cs) d) = (\<Union>c \<in> set cs. match_refs c)"
| "match_refs (Node (Or cs) d) = (\<Union>c \<in> set cs. match_refs c)"
| "match_refs (Node (SomeOf n cs) d) = (\<Union>c \<in> set cs. match_refs c)"
| "match_refs (Node (Not c) d) = match_refs c"
| "match_refs (Node (Subscope sc c) d) = match_refs c"
| "match_refs (Node (Range f lo hi) d) = set_option (matched_name f)"

definition resolve :: "namespaces \<Rightarrow> string \<Rightarrow> string set" where
  "resolve nss v = (case im_get (=) nss v of Some names \<Rightarrow> set names | None \<Rightarrow> {v})"

lemma register_feature_resolve:
  "register_feature nss f deps = deps \<union> (\<Union>v \<in> set_option (matched_name f). resolve nss v)"
  by (auto simp: register_feature_def register_def resolve_def split: option.split)

lemma fold_union:
  "(\<And>c deps. c \<in> set cs \<Longrightarrow> g c deps = deps \<union> h c) \<Longrightarrow> fold g cs deps = deps \<union> (\<Union>c \<in> set cs. h c)"
  by (induction cs arbitrary: deps) auto

lemma walk_resolve: "walk nss n deps = deps \<union> (\<Union>v \<in> match_refs n. resolve nss v)"
proof (induction n arbitrary: deps rule: node_induct)
  case (And cs d)
  then show ?case by (simp add: fold_union [where h = "\<lambda>c. \<Union>v \<in> match_refs c. resolve nss v"])
next
  case (Or cs d)
  then show ?case by (simp add: fold_union [where h = "\<lambda>c. \<Union>v \<in> match_refs c. resolve nss v"])
next
  case (SomeOf n cs d)
  then show ?case by (simp add: fold_union [where h = "\<lambda>c. \<Union>v \<in> match_refs c. resolve nss v"])
qed (simp_all add: register_feature_resolve)

lemma get_dependencies_resolve: "get_dependencies nss n = (\<Union>v \<in> match_refs n. resolve nss v)"
  by (simp add: get_dependencies_def walk_resolve)

lemma finite_match_refs: "finite (match_refs n)"
  by (induction n rule: node_induct) simp_all

lemma finite_dependencies [simp]: "finite (get_dependencies nss n)"
  by (simp add: get_dependencies_resolve finite_match_refs resolve_def split: option.split)

lemma set_sorted_deps [simp]: "set (sorted_deps nss r) = get_dependencies nss (body r)"
  by (simp add: sorted_deps_def)

section \<open>The namespace index\<close>

lemma namespace_prefixes_filter:
  "namespace_prefixes ns = filter (\<lambda>p. p \<noteq> []) (rule_namespaces ns)"
proof (induction ns rule: namespace_prefixes.induct)
  case (1 ns)
  have "rfind_char (CHR ''/'') [] = None" by (simp add: rfind_char_None_iff)
  with 1 show ?case
    by (cases "ns = []")
      (simp_all add: namespace_prefixes.simps [of ns] rule_namespaces.simps [of ns]
        namespace_prefixes.simps [of "[]"] rule_namespaces.simps [of "[]"] split: option.split)
qed

lemma length_rule_namespaces: "p \<in> set (rule_namespaces ns) \<Longrightarrow> length p \<le> length ns"
  by (auto simp: rule_namespaces_iff)

lemma distinct_rule_namespaces: "distinct (rule_namespaces ns)"
proof (induction ns rule: rule_namespaces.induct)
  case (1 ns)
  then show ?case
    by (auto simp: rule_namespaces.simps [of ns] split: option.split
        dest!: length_rule_namespaces rfind_char_less)
qed

definition in_namespace :: "string \<Rightarrow> rule \<Rightarrow> bool" where
  "in_namespace p r = (\<exists>ns. namespace r = Some ns \<and> (ns = p \<or> (\<exists>q. ns = p @ ''/'' @ q)))"

lemma in_namespace_prefixes:
  "(\<exists>ns. namespace r = Some ns \<and> p \<in> set (namespace_prefixes ns)) \<longleftrightarrow> p \<noteq> [] \<and> in_namespace p r"
  by (auto simp: namespace_prefixes_filter rule_namespaces_iff in_namespace_def)

lemma get_fold_entry:
  "distinct ps \<Longrightarrow>
   im_get (=) (fold (\<lambda>p. im_entry (=) p [] (\<lambda>names. names @ [nm])) ps nss) q =
     (if q \<in> set ps then Some ((case im_get (=) nss q of None \<Rightarrow> [] | Some l \<Rightarrow> l) @ [nm])
      else im_get (=) nss q)"
  by (induction ps arbitrary: nss) (auto simp: hol.get_entry)

lemma get_index_rule_by_namespace:
  "im_get (=) (index_rule_by_namespace r nss) q =
     (if q \<noteq> [] \<and> in_namespace q r
      then Some ((case im_get (=) nss q of None \<Rightarrow> [] | Some l \<Rightarrow> l) @ [rule_name r])
      else im_get (=) nss q)"
proof (cases "namespace r")
  case None
  then show ?thesis by (simp add: index_rule_by_namespace_def in_namespace_def)
next
  case (Some ns)
  then have "q \<noteq> [] \<and> in_namespace q r \<longleftrightarrow> q \<in> set (namespace_prefixes ns)"
    using in_namespace_prefixes [of r q] by auto
  moreover have "distinct (namespace_prefixes ns)"
    by (simp add: namespace_prefixes_filter distinct_rule_namespaces)
  ultimately show ?thesis using Some by (simp add: index_rule_by_namespace_def get_fold_entry)
qed

lemma get_fold_index:
  "im_get (=) (fold index_rule_by_namespace rules nss) q =
     (case map rule_name (filter (\<lambda>r. q \<noteq> [] \<and> in_namespace q r) rules) of
        [] \<Rightarrow> im_get (=) nss q
      | names \<Rightarrow> Some ((case im_get (=) nss q of None \<Rightarrow> [] | Some l \<Rightarrow> l) @ names))"
  by (induction rules arbitrary: nss)
    (auto simp: get_index_rule_by_namespace split: list.split)

text \<open>
  The namespace index maps every non-empty namespace or namespace prefix that some
  rule lies in to the names of exactly the rules in it or beneath it, in rule order, and
  holds no other key.
\<close>

lemma namespace_index_correct:
  "im_get (=) (index_rules_by_namespace rules) p =
     (if p \<noteq> [] \<and> (\<exists>r \<in> set rules. in_namespace p r)
      then Some (map rule_name (filter (in_namespace p) rules)) else None)"
  by (auto simp: index_rules_by_namespace_def get_fold_index filter_empty_conv split: list.split)

section \<open>Depth-first search\<close>

definition depends :: "rule_map \<Rightarrow> namespaces \<Rightarrow> string rel" where
  "depends by_name nss =
     {(a, b). \<exists>r. map_of by_name a = Some r \<and> b \<in> get_dependencies nss (body r)}"

text \<open>Every name comes after everything it depends on.\<close>

definition dependency_first :: "string rel \<Rightarrow> string list \<Rightarrow> bool" where
  "dependency_first E order = (\<forall>xs x ys. order = xs @ x # ys \<longrightarrow> E `` {x} \<subseteq> set xs)"

lemma dependency_first_Nil [simp]: "dependency_first E []"
  by (simp add: dependency_first_def)

lemma dependency_first_snoc:
  "dependency_first E (xs @ [x]) \<longleftrightarrow> dependency_first E xs \<and> E `` {x} \<subseteq> set xs"
proof
  assume d: "dependency_first E (xs @ [x])"
  have "E `` {y} \<subseteq> set us" if "xs = us @ y # vs" for us y vs
    using d that unfolding dependency_first_def by (metis append_Cons append_assoc)
  with d show "dependency_first E xs \<and> E `` {x} \<subseteq> set xs"
    unfolding dependency_first_def by blast
next
  assume d: "dependency_first E xs \<and> E `` {x} \<subseteq> set xs"
  have "E `` {y} \<subseteq> set us" if e: "xs @ [x] = us @ y # vs" for us y vs
  proof (cases vs rule: rev_cases)
    case Nil
    with e d show ?thesis by simp
  next
    case (snoc ws w)
    with e have "xs = us @ y # ws" by simp
    with d show ?thesis unfolding dependency_first_def by blast
  qed
  then show "dependency_first E (xs @ [x])" unfolding dependency_first_def by blast
qed

definition visited_ok :: "string rel \<Rightarrow> visit_state \<Rightarrow> bool" where
  "visited_ok E st \<longleftrightarrow>
     distinct (snd st) \<and> dependency_first E (snd st) \<and> set (snd st) = {n. fst st n = Some Done}"

definition visiting :: "visit_state \<Rightarrow> string set" where
  "visiting st = {n. fst st n = Some Visiting}"

lemma visiting_simps:
  "visiting (m(nm \<mapsto> Visiting), ord) = insert nm (visiting (m, ord'))"
  "visiting (m(nm \<mapsto> Done), ord) = visiting (m, ord') - {nm}"
  by (auto simp: visiting_def)

lemma visiting_fst: "visiting (m, ord) = visiting (m, ord')"
  by (simp add: visiting_def)

lemma visited_ok_enter:
  "visited_ok E (m, ord) \<Longrightarrow> m nm = None \<Longrightarrow>
   visited_ok E (m(nm \<mapsto> Visiting), ord) \<and> nm \<notin> visiting (m, ord)"
  by (auto simp: visited_ok_def visiting_def)

lemma visited_ok_leave:
  "visited_ok E (m, ord) \<Longrightarrow> nm \<in> visiting (m, ord) \<Longrightarrow> E `` {nm} \<subseteq> set ord \<Longrightarrow>
   visited_ok E (m(nm \<mapsto> Done), ord @ [nm])"
  by (auto simp: visited_ok_def visiting_def dependency_first_snoc)

declare visit.simps [simp del]

lemma visit_extends:
  "visit by_name nss nm st = Inr st' \<Longrightarrow> visited_ok (depends by_name nss) st \<Longrightarrow>
     visited_ok (depends by_name nss) st' \<and> visiting st' = visiting st
     \<and> set (snd st) \<subseteq> set (snd st') \<and> nm \<in> set (snd st')"
  "visit_deps by_name nss deps st = Inr st' \<Longrightarrow> visited_ok (depends by_name nss) st \<Longrightarrow>
     visited_ok (depends by_name nss) st' \<and> visiting st' = visiting st
     \<and> set (snd st) \<subseteq> set (snd st') \<and> set deps \<subseteq> set (snd st')"
proof (induction by_name nss nm st and by_name nss deps st arbitrary: st' and st'
    rule: visit_visit_deps.induct)
  case (1 by_name nss nm marks order)
  let ?E = "depends by_name nss"
  show ?case
  proof (cases "marks nm")
    case None
    then obtain r m ord where r: "map_of by_name nm = Some r"
      and rec: "visit_deps by_name nss (sorted_deps nss r) (marks(nm \<mapsto> Visiting), order) = Inr (m, ord)"
      and st': "st' = (m(nm \<mapsto> Done), ord @ [nm])"
      using "1.prems"(1) by (auto simp: visit.simps rbind_Inr_iff split: option.splits)
    have enter: "visited_ok ?E (marks(nm \<mapsto> Visiting), order)" "nm \<notin> visiting (marks, order)"
      using visited_ok_enter "1.prems"(2) None by blast+
    from 1(1) [OF None r rec enter(1)]
    have *: "visited_ok ?E (m, ord)" "visiting (m, ord) = insert nm (visiting (marks, order))"
      "set order \<subseteq> set ord" "get_dependencies nss (body r) \<subseteq> set ord"
      by (simp_all add: visiting_simps(1) [of _ _ _ order])
    have "?E `` {nm} \<subseteq> set ord" using *(4) r by (auto simp: depends_def)
    then have "visited_ok ?E st'" unfolding st' using * by (intro visited_ok_leave) auto
    moreover have "visiting st' = visiting (marks, order)"
      unfolding st' visiting_simps(2) [of m nm _ ord] *(2) using enter(2) by blast
    ultimately show ?thesis using * st' by auto
  next
    case (Some k)
    have "set order = {n. marks n = Some Done}" using "1.prems"(2) by (simp add: visited_ok_def)
    then have "k = Done \<Longrightarrow> nm \<in> set order" using Some by simp
    with Some "1.prems" show ?thesis by (cases k) (auto simp: visit.simps)
  qed
next
  case (2 by_name nss st)
  then show ?case by simp
next
  case (3 by_name nss dep deps st)
  from "3.prems"(1) obtain s
    where s: "visit by_name nss dep st = Inr s" "visit_deps by_name nss deps s = Inr st'"
    unfolding visit_deps.simps rbind_Inr_iff by blast
  note one = 3(1) [OF s(1) "3.prems"(2)]
  show ?case using one 3(2) [OF s conjunct1 [OF one]] by auto
qed

lemma visit_total:
  "acyclic (depends by_name nss) \<Longrightarrow> snd ` depends by_name nss \<subseteq> dom (map_of by_name) \<Longrightarrow>
     visited_ok (depends by_name nss) st \<Longrightarrow> nm \<in> dom (map_of by_name) \<Longrightarrow>
     \<forall>v \<in> visiting st. (v, nm) \<in> (depends by_name nss)\<^sup>+ \<Longrightarrow>
     \<exists>st'. visit by_name nss nm st = Inr st'"
  "acyclic (depends by_name nss) \<Longrightarrow> snd ` depends by_name nss \<subseteq> dom (map_of by_name) \<Longrightarrow>
     visited_ok (depends by_name nss) st \<Longrightarrow> set deps \<subseteq> dom (map_of by_name) \<Longrightarrow>
     \<forall>v \<in> visiting st. \<forall>nm \<in> set deps. (v, nm) \<in> (depends by_name nss)\<^sup>+ \<Longrightarrow>
     \<exists>st'. visit_deps by_name nss deps st = Inr st'"
proof (induction by_name nss nm st and by_name nss deps st rule: visit_visit_deps.induct)
  case (1 by_name nss nm marks order)
  let ?E = "depends by_name nss"
  show ?case
  proof (cases "marks nm")
    case None
    obtain r where r: "map_of by_name nm = Some r" using "1.prems"(4) by blast
    then have E: "(nm, d) \<in> ?E" if "d \<in> set (sorted_deps nss r)" for d
      using that by (auto simp: depends_def)
    have "visited_ok ?E (marks(nm \<mapsto> Visiting), order)"
      using visited_ok_enter "1.prems"(3) None by blast
    moreover have "set (sorted_deps nss r) \<subseteq> dom (map_of by_name)"
    proof
      fix d
      assume "d \<in> set (sorted_deps nss r)"
      from imageI [OF E [OF this], of snd] "1.prems"(2) show "d \<in> dom (map_of by_name)" by auto
    qed
    moreover have "\<forall>v \<in> visiting (marks(nm \<mapsto> Visiting), order). \<forall>d \<in> set (sorted_deps nss r). (v, d) \<in> ?E\<^sup>+"
      unfolding visiting_simps(1) [of _ _ _ order]
      using "1.prems"(5) E by (blast intro: trancl_into_trancl)
    ultimately obtain s where
      "visit_deps by_name nss (sorted_deps nss r) (marks(nm \<mapsto> Visiting), order) = Inr s"
      using 1(1) [OF None r "1.prems"(1,2)] by blast
    then show ?thesis using None r by (cases s) (simp add: visit.simps)
  next
    case (Some k)
    with "1.prems"(1,5) show ?thesis by (cases k) (auto simp: visit.simps visiting_def acyclic_def)
  qed
next
  case (2 by_name nss st)
  then show ?case by simp
next
  case (3 by_name nss dep deps st)
  let ?E = "depends by_name nss"
  from 3(1) [OF "3.prems"(1,2,3)] "3.prems"(4,5)
  obtain s where s: "visit by_name nss dep st = Inr s" by auto
  from visit_extends(1) [OF s "3.prems"(3)]
  have ok: "visited_ok ?E s" "visiting s = visiting st" by auto
  then have "\<exists>st'. visit_deps by_name nss deps s = Inr st'"
    using "3.prems"(4,5) by (intro 3(2) [OF s "3.prems"(1,2)]) auto
  with s show ?case by simp
qed

section \<open>Rule sets\<close>

lemma fold_visit: "fold_result (\<lambda>r. visit bn nss (rule_name r)) rules st = visit_deps bn nss (map rule_name rules) st"
proof (induction rules arbitrary: st)
  case Nil
  then show ?case by simp
next
  case (Cons r rules)
  then show ?case by (cases "visit bn nss (rule_name r) st") simp_all
qed

lemma unique_loop_iff:
  "unique_loop seen rules = Inr () \<longleftrightarrow>
     distinct (map rule_name rules) \<and> set (map rule_name rules) \<inter> seen = {}"
  by (induction rules arbitrary: seen) auto

lemma check_deps_iff: "check_deps names nm deps = Inr () \<longleftrightarrow> set deps \<subseteq> names"
  by (induction deps) auto

lemma fold_result_unit_iff:
  "fold_result (\<lambda>x _. f x) xs () = Inr () \<longleftrightarrow> (\<forall>x \<in> set xs. f x = Inr ())"
  by (induction xs) (auto simp: rbind_Inr_iff)

lemma dependencies_met_iff:
  "ensure_rule_dependencies_are_met rules nss = Inr () \<longleftrightarrow>
     (\<forall>r \<in> set rules. get_dependencies nss (body r) \<subseteq> rule_name ` set rules)"
  by (simp add: ensure_rule_dependencies_are_met_def fold_result_unit_iff check_deps_iff)

lemma map_of_rules_by_name:
  "distinct (map rule_name rules) \<Longrightarrow> r \<in> set rules \<Longrightarrow>
   map_of (rules_by_name rules) (rule_name r) = Some r"
  by (auto simp: rules_by_name_def rev_map [symmetric] distinct_map o_def intro!: map_of_is_SomeI)

lemma dom_rules_by_name: "dom (map_of (rules_by_name rules)) = rule_name ` set rules"
  by (auto simp: rules_by_name_def dom_map_of_conv_image_fst image_image)

lemma map_of_rules_by_name_Some:
  "map_of (rules_by_name rules) a = Some r \<Longrightarrow> r \<in> set rules \<and> rule_name r = a"
  by (auto simp: rules_by_name_def dest!: map_of_SomeD)

text \<open>The dependency relation of a rule set.\<close>

definition dependency :: "rule list \<Rightarrow> string rel" where
  "dependency rules =
     {(rule_name r, b) | r b. r \<in> set rules \<and> b \<in> get_dependencies (index_rules_by_namespace rules) (body r)}"

lemma depends_dependency:
  "distinct (map rule_name rules) \<Longrightarrow>
   depends (rules_by_name rules) (index_rules_by_namespace rules) = dependency rules"
  by (auto simp: depends_def dependency_def map_of_rules_by_name dest!: map_of_rules_by_name_Some)

lemma length_takeWhile_less: "x \<in> set xs \<Longrightarrow> \<not> P x \<Longrightarrow> length (takeWhile P xs) < length xs"
  by (induction xs) auto

lemma dependency_first_acyclic:
  assumes "dependency_first E order" "fst ` E \<subseteq> set order"
  shows "acyclic E"
proof -
  define pos where "pos x = length (takeWhile (\<lambda>y. y \<noteq> x) order)" for x
  have "pos b < pos a" if ab: "(a, b) \<in> E" for a b
  proof -
    from ab assms(2) have "a \<in> set order" by force
    then obtain xs ys where o: "order = xs @ a # ys" "a \<notin> set xs" by (blast dest: split_list_first)
    then have "b \<in> set xs" using assms(1) ab unfolding dependency_first_def by blast
    then have "pos b < length xs"
      unfolding pos_def o(1) by (simp add: takeWhile_append1 [of b] length_takeWhile_less)
    moreover have "pos a = length xs"
      unfolding pos_def o(1) using o(2) by (subst takeWhile_append2) auto
    ultimately show ?thesis by simp
  qed
  then have "E\<inverse> \<subseteq> measure pos" by auto
  then have "acyclic (E\<inverse>)" by (meson acyclic_subset wf_acyclic wf_measure)
  then show ?thesis by simp
qed

lemma visit_known:
  "visit by_name nss nm st = Inr st' \<Longrightarrow> set (snd st') \<subseteq> set (snd st) \<union> dom (map_of by_name)"
  "visit_deps by_name nss deps st = Inr st' \<Longrightarrow> set (snd st') \<subseteq> set (snd st) \<union> dom (map_of by_name)"
proof (induction by_name nss nm st and by_name nss deps st arbitrary: st' and st'
    rule: visit_visit_deps.induct)
  case (1 by_name nss nm marks order)
  show ?case
  proof (cases "marks nm")
    case None
    then obtain r m ord where r: "map_of by_name nm = Some r"
      and rec: "visit_deps by_name nss (sorted_deps nss r) (marks(nm \<mapsto> Visiting), order) = Inr (m, ord)"
      and st': "st' = (m(nm \<mapsto> Done), ord @ [nm])"
      using "1.prems"(1) by (auto simp: visit.simps rbind_Inr_iff split: option.splits)
    from 1(1) [OF None r rec] r st' show ?thesis by auto
  next
    case (Some k)
    with "1.prems" show ?thesis by (cases k) (auto simp: visit.simps)
  qed
next
  case (2 by_name nss st)
  then show ?case by simp
next
  case (3 by_name nss dep deps st)
  from "3.prems"(1) obtain s
    where s: "visit by_name nss dep st = Inr s" "visit_deps by_name nss deps s = Inr st'"
    unfolding visit_deps.simps rbind_Inr_iff by blast
  from 3(1) [OF s(1)] 3(2) [OF s] show ?case by blast
qed

lemma visited_ok_init: "visited_ok E (Map.empty, [])" "visiting (Map.empty, []) = {}"
  by (simp_all add: visited_ok_def visiting_def)

lemma order_of_visit:
  assumes "distinct (map rule_name rules)"
    and "topologically_order_rules rules (index_rules_by_namespace rules) = Inr order"
  shows "distinct order" "set order = rule_name ` set rules" "dependency_first (dependency rules) order"
proof -
  let ?bn = "rules_by_name rules" and ?nss = "index_rules_by_namespace rules"
  from assms(2) obtain st where st: "visit_deps ?bn ?nss (map rule_name rules) (Map.empty, []) = Inr st"
    and order: "order = snd st"
    by (auto simp: topologically_order_rules_def fold_visit map_ok_Inr_iff)
  note ok = visit_extends(2) [OF st visited_ok_init(1)]
  from ok show "distinct order" "dependency_first (dependency rules) order"
    unfolding order depends_dependency [OF assms(1)] visited_ok_def by simp_all
  have "set order \<subseteq> rule_name ` set rules"
    using visit_known(2) [OF st] by (simp add: order dom_rules_by_name)
  moreover have "rule_name ` set rules \<subseteq> set order" using ok by (simp add: order)
  ultimately show "set order = rule_name ` set rules" by (rule equalityI)
qed

lemma order_exists:
  assumes "distinct (map rule_name rules)" "snd ` dependency rules \<subseteq> rule_name ` set rules"
    and "acyclic (dependency rules)"
  shows "\<exists>order. topologically_order_rules rules (index_rules_by_namespace rules) = Inr order"
proof -
  have "\<exists>st. visit_deps (rules_by_name rules) (index_rules_by_namespace rules)
      (map rule_name rules) (Map.empty, []) = Inr st"
    using assms by (intro visit_total(2))
      (simp_all add: depends_dependency visited_ok_init dom_rules_by_name)
  then show ?thesis by (auto simp: topologically_order_rules_def fold_visit)
qed

lemma dependencies_met_dependency:
  "ensure_rule_dependencies_are_met rules (index_rules_by_namespace rules) = Inr () \<longleftrightarrow>
     snd ` dependency rules \<subseteq> rule_name ` set rules"
  unfolding dependencies_met_iff dependency_def by force

lemma RuleSet_new_Inr_iff:
  "RuleSet_new rules = Inr rs \<longleftrightarrow>
     rules \<noteq> [] \<and> distinct (map rule_name rules) \<and> snd ` dependency rules \<subseteq> rule_name ` set rules
     \<and> (\<exists>order. topologically_order_rules rules (index_rules_by_namespace rules) = Inr order
          \<and> rs = rule_set.make (rules_by_name rules) (index_rules_by_namespace rules) order)"
  by (auto simp: RuleSet_new_def ensure_rules_are_unique_def unique_loop_iff Let_def
      dependencies_met_dependency rbind_Inr_iff split: if_splits)

lemma fst_dependency: "fst ` dependency rules \<subseteq> rule_name ` set rules"
  by (auto simp: dependency_def)

text \<open>
  C3: a list of rules is accepted as a rule set exactly when it is not empty, no two
  rules have the same name, every name a rule depends on (directly or through a
  namespace) is the name of a rule, and no rule depends on itself through any chain of
  references.
\<close>

theorem RuleSet_new_accepts:
  "(\<exists>rs. RuleSet_new rules = Inr rs) \<longleftrightarrow>
     rules \<noteq> [] \<and> distinct (map rule_name rules)
     \<and> snd ` dependency rules \<subseteq> rule_name ` set rules \<and> acyclic (dependency rules)"
proof -
  have "acyclic (dependency rules)"
    if "distinct (map rule_name rules)"
      and "topologically_order_rules rules (index_rules_by_namespace rules) = Inr order" for order
    using order_of_visit [OF that] fst_dependency [of rules] by (simp add: dependency_first_acyclic)
  then have "(\<exists>order. topologically_order_rules rules (index_rules_by_namespace rules) = Inr order)
      \<longleftrightarrow> acyclic (dependency rules)"
    if "distinct (map rule_name rules)" "snd ` dependency rules \<subseteq> rule_name ` set rules"
    using that order_exists [OF that] by auto
  then show ?thesis unfolding RuleSet_new_Inr_iff by auto
qed

text \<open>
  C12: the evaluation order of an accepted rule set lists every rule exactly once, after
  everything it depends on, and the rule set maps every name to its rule.
\<close>

theorem eval_order_correct:
  assumes "RuleSet_new rules = Inr rs"
  shows "mset (eval_order rs) = mset (map rule_name rules)
    \<and> dependency_first (dependency rules) (eval_order rs)
    \<and> map_of (rs_rules rs) = map_of (map (\<lambda>r. (rule_name r, r)) rules)"
proof -
  from assms obtain order where d: "distinct (map rule_name rules)"
    and o: "topologically_order_rules rules (index_rules_by_namespace rules) = Inr order"
    and rs: "rs = rule_set.make (rules_by_name rules) (index_rules_by_namespace rules) order"
    unfolding RuleSet_new_Inr_iff by blast
  note ov = order_of_visit [OF d o]
  have "mset order = mset (map rule_name rules)"
    using ov d by (intro set_eq_iff_mset_eq_distinct [THEN iffD1]) auto
  moreover have "map_of (rules_by_name rules) = map_of (map (\<lambda>r. (rule_name r, r)) rules)"
    unfolding rules_by_name_def using d
    by (subst map_of_inject_set) (simp_all add: o_def rev_map [symmetric])
  ultimately show ?thesis using ov(3) by (simp add: rs rule_set.defs)
qed

theorem eval_order_correct_witness:
  "let scs = scopes.make (Some FunctionScope) None;
       rules = [basic_rule ''a'' None scs (Node (Leaf (MatchedRule ''b'')) None),
                basic_rule ''b'' None scs (Node (Leaf (Api ''x'')) None)]
   in \<exists>rs. RuleSet_new rules = Inr rs \<and> mset (eval_order rs) = {#''a'', ''b''#}
        \<and> dependency_first (dependency rules) (eval_order rs)"
proof -
  let ?scs = "scopes.make (Some FunctionScope) None"
  let ?a = "basic_rule ''a'' None ?scs (Node (Leaf (MatchedRule ''b'')) None)"
    and ?b = "basic_rule ''b'' None ?scs (Node (Leaf (Api ''x'')) None)"
  have nss: "index_rules_by_namespace [?a, ?b] = []"
    by (simp add: index_rules_by_namespace_def index_rule_by_namespace_def)
  have deps: "get_dependencies [] (body ?a) = {''b''}" "get_dependencies [] (body ?b) = {}"
    by (simp_all add: get_dependencies_def register_feature_def register_def)
  have "\<exists>rs. RuleSet_new [?a, ?b] = Inr rs"
    using deps by (simp add: RuleSet_new_def nss Let_def ensure_rules_are_unique_def
        ensure_rule_dependencies_are_met_def topologically_order_rules_def rules_by_name_def
        sorted_deps_def visit.simps)
  then obtain rs where "RuleSet_new [?a, ?b] = Inr rs" ..
  with eval_order_correct [OF this] show ?thesis unfolding Let_def by (intro exI [of _ rs]) simp
qed

end
