(* ===== verification/Extract.thy ===== *)
theory Extract
  imports Com Rule_Graph_Props
begin

text \<open>
  \<^verbatim>\<open>capa-x/src/capabilities/ruleset.rs\<close>, the preparation of the rules: COM expansion,
  the extraction of nested scopes into synthetic rules, and the ordering of children by
  cost.

  The source walks statements and rebuilds nodes around them; here a walk takes and
  returns a node and keeps its description. The extraction threads its counter and the
  list of extracted bodies as a state.
\<close>

section \<open>COM expansion\<close>

fun expand_com_node :: "com_db \<Rightarrow> node \<Rightarrow> rule_error + node" where
  "expand_com_node db (Node (Leaf f) d) =
     (case f of
        Com kind nm \<Rightarrow> map_ok (\<lambda>s. Node s d) (translate_com_feature db nm kind)
      | _ \<Rightarrow> Inr (Node (Leaf f) d))"
| "expand_com_node db (Node (And cs) d) =
     map_ok (\<lambda>cs. Node (And cs) d) (traverse (expand_com_node db) cs)"
| "expand_com_node db (Node (Or cs) d) =
     map_ok (\<lambda>cs. Node (Or cs) d) (traverse (expand_com_node db) cs)"
| "expand_com_node db (Node (SomeOf n cs) d) =
     map_ok (\<lambda>cs. Node (SomeOf n cs) d) (traverse (expand_com_node db) cs)"
| "expand_com_node db (Node (Not c) d) = map_ok (\<lambda>c. Node (Not c) d) (expand_com_node db c)"
| "expand_com_node db (Node (Subscope sc b) d) =
     map_ok (\<lambda>b. Node (Subscope sc b) d) (expand_com_node db b)"
| "expand_com_node db (Node (Range f lo hi) d) = Inr (Node (Range f lo hi) d)"

section \<open>Subscope extraction\<close>

type_synonym extraction = "u64 \<times> (string \<times> scope \<times> node) list"

definition synthetic_name :: "string \<Rightarrow> u64 \<Rightarrow> string" where
  "synthetic_name nm counter = nm @ ''/'' @ show_nat (unat counter)"

function extract_children :: "string \<Rightarrow> node \<Rightarrow> extraction \<Rightarrow> node \<times> extraction"
  and extract_child_list :: "string \<Rightarrow> node list \<Rightarrow> extraction \<Rightarrow> node list \<times> extraction"
  and extract_single_child :: "string \<Rightarrow> node \<Rightarrow> extraction \<Rightarrow> node \<times> extraction" where
  "extract_children nm (Node (And cs) d) st =
     (case extract_child_list nm cs st of (cs, st) \<Rightarrow> (Node (And cs) d, st))"
| "extract_children nm (Node (Or cs) d) st =
     (case extract_child_list nm cs st of (cs, st) \<Rightarrow> (Node (Or cs) d, st))"
| "extract_children nm (Node (SomeOf n cs) d) st =
     (case extract_child_list nm cs st of (cs, st) \<Rightarrow> (Node (SomeOf n cs) d, st))"
| "extract_children nm (Node (Not c) d) st =
     (case extract_single_child nm c st of (c, st) \<Rightarrow> (Node (Not c) d, st))"
| "extract_children nm (Node (Subscope sc b) d) st =
     (case extract_single_child nm b st of (b, st) \<Rightarrow> (Node (Subscope sc b) d, st))"
| "extract_children nm (Node (Range f lo hi) d) st = (Node (Range f lo hi) d, st)"
| "extract_children nm (Node (Leaf f) d) st = (Node (Leaf f) d, st)"
| "extract_child_list nm [] st = ([], st)"
| "extract_child_list nm (c # cs) st =
     (case extract_single_child nm c st of
        (c, st) \<Rightarrow> (case extract_child_list nm cs st of (cs, st) \<Rightarrow> (c # cs, st)))"
| "extract_single_child nm c st =
     (case c of
        Node (Subscope sc b) d \<Rightarrow>
          (case st of
             (counter, extracted) \<Rightarrow>
               let counter = counter + 1;
                   name = synthetic_name nm counter
               in (Node (Leaf (MatchedRule name)) None, counter, extracted @ [(name, sc, b)]))
      | _ \<Rightarrow> extract_children nm c st)"
  by pat_completeness auto
termination
  by (relation "measure (\<lambda>x. case x of
        Inl (nm, n, st) \<Rightarrow> 2 * size n
      | Inr (Inl (nm, cs, st)) \<Rightarrow> 2 * size_list size cs + 1
      | Inr (Inr (nm, c, st)) \<Rightarrow> 2 * size c + 1)") auto

definition subscope_rule :: "string \<Rightarrow> scope \<Rightarrow> node \<Rightarrow> string \<Rightarrow> rule" where
  "subscope_rule name sc b parent =
     (let scs = (if sc \<in> {ProcessScope, ThreadScope, SpanOfCallsScope, CallScope}
                 then scopes.make None (Some sc) else scopes.make (Some sc) None);
          entries = mapping_insert (YString ''capa/parent'') (YString parent)
            (mapping_insert (YString ''capa/subscope-rule'') (YBool True)
            (mapping_insert (YString ''lib'') (YBool True)
            (mapping_insert (YString ''name'') (YString name) [])))
      in rule.make name None (rule_meta.make name None [] [] True [] [] [] [] entries) scs b True [])"

section \<open>What an extraction returns\<close>

text \<open>
  The topmost subscopes at or below a child position, in traversal order; the root of a
  rule body is not in a child position.
\<close>

fun lifted :: "node \<Rightarrow> (scope \<times> node) list" where
  "lifted (Node (And cs) d) = concat (map lifted cs)"
| "lifted (Node (Or cs) d) = concat (map lifted cs)"
| "lifted (Node (SomeOf n cs) d) = concat (map lifted cs)"
| "lifted (Node (Not c) d) = lifted c"
| "lifted (Node (Subscope sc b) d) = [(sc, b)]"
| "lifted (Node (Range f lo hi) d) = []"
| "lifted (Node (Leaf f) d) = []"

definition root_subscope :: "node \<Rightarrow> bool" where
  "root_subscope n = (case n of Node (Subscope sc b) d \<Rightarrow> True | _ \<Rightarrow> False)"

definition lifted_below :: "node \<Rightarrow> (scope \<times> node) list" where
  "lifted_below n = (case n of Node (Subscope sc b) d \<Rightarrow> lifted b | _ \<Rightarrow> lifted n)"

fun entries :: "string \<Rightarrow> u64 \<Rightarrow> (scope \<times> node) list \<Rightarrow> (string \<times> scope \<times> node) list" where
  "entries nm k [] = []"
| "entries nm k (x # xs) = (synthetic_name nm (k + 1), x) # entries nm (k + 1) xs"

lemma entries_append:
  "entries nm k (xs @ ys) = entries nm k xs @ entries nm (k + of_nat (length xs)) ys"
  by (induction xs arbitrary: k) (simp_all add: algebra_simps)

lemma map_snd_entries [simp]: "map snd (entries nm k xs) = xs"
  by (induction xs arbitrary: k) simp_all

text \<open>The same tree without its nested scopes has none, and no COM leaf unless it had one.\<close>

fun subscopes :: "node \<Rightarrow> nat" where
  "subscopes (Node (And cs) d) = sum_list (map subscopes cs)"
| "subscopes (Node (Or cs) d) = sum_list (map subscopes cs)"
| "subscopes (Node (SomeOf n cs) d) = sum_list (map subscopes cs)"
| "subscopes (Node (Not c) d) = subscopes c"
| "subscopes (Node (Subscope sc b) d) = Suc (subscopes b)"
| "subscopes (Node (Range f lo hi) d) = 0"
| "subscopes (Node (Leaf f) d) = 0"

fun com_free :: "node \<Rightarrow> bool" where
  "com_free (Node (And cs) d) = (\<forall>c \<in> set cs. com_free c)"
| "com_free (Node (Or cs) d) = (\<forall>c \<in> set cs. com_free c)"
| "com_free (Node (SomeOf n cs) d) = (\<forall>c \<in> set cs. com_free c)"
| "com_free (Node (Not c) d) = com_free c"
| "com_free (Node (Subscope sc b) d) = com_free b"
| "com_free (Node (Range f lo hi) d) = True"
| "com_free (Node (Leaf f) d) = (case f of Com _ _ \<Rightarrow> False | _ \<Rightarrow> True)"

lemma evaluable_iff: "evaluable n \<longleftrightarrow> com_free n \<and> subscopes n = 0"
  by (induction n rule: node_induct) auto

lemma subscopes_lifted: "subscopes n = sum_list (map (\<lambda>(sc, b). Suc (subscopes b)) (lifted n))"
proof -
  have *: "sum_list (map subscopes cs) =
      sum_list (map (\<lambda>(sc, b). Suc (subscopes b)) (concat (map lifted cs)))"
    if "\<And>c. c \<in> set cs \<Longrightarrow> subscopes c = sum_list (map (\<lambda>(sc, b). Suc (subscopes b)) (lifted c))" for cs
    using that by (induction cs) simp_all
  show ?thesis
    by (induction n rule: node_induct) (simp_all add: *)
qed

declare extract_single_child.simps [simp del]

lemma extract_single_Subscope:
  "extract_single_child nm (Node (Subscope sc b) d) (k, ex) =
     (Node (Leaf (MatchedRule (synthetic_name nm (k + 1)))) None, k + 1,
      ex @ [(synthetic_name nm (k + 1), sc, b)])"
  by (simp add: extract_single_child.simps Let_def)

lemma extract_single_other:
  "\<not> root_subscope c \<Longrightarrow> extract_single_child nm c st = extract_children nm c st"
  unfolding extract_single_child.simps [of nm c st] root_subscope_def
  by (cases c rule: node.exhaust; cases "stmt c") simp_all

lemma root_subscopeE:
  assumes "root_subscope c"
  obtains sc b d where "c = Node (Subscope sc b) d"
  using assms by (auto simp: root_subscope_def split: node.splits statement.splits)

lemma lifted_below_other: "\<not> root_subscope c \<Longrightarrow> lifted_below c = lifted c"
  by (auto simp: lifted_below_def root_subscope_def split: node.splits statement.splits)

lemma subscopes_lifted_below:
  "sum_list (map (\<lambda>(sc, b). Suc (subscopes b)) (lifted_below n)) \<le> subscopes n"
proof (cases "root_subscope n")
  case True
  then obtain sc b d where "n = Node (Subscope sc b) d" by (rule root_subscopeE)
  then show ?thesis using subscopes_lifted [of b] by (simp add: lifted_below_def)
next
  case False
  then show ?thesis using subscopes_lifted [of n] by (simp add: lifted_below_other)
qed

text \<open>The state an extraction ends in.\<close>

lemma extract_state:
  "snd (extract_children nm n (k, ex)) =
     (k + of_nat (length (lifted_below n)), ex @ entries nm k (lifted_below n))"
  "snd (extract_child_list nm cs (k, ex)) =
     (k + of_nat (length (concat (map lifted cs))), ex @ entries nm k (concat (map lifted cs)))"
  "snd (extract_single_child nm c (k, ex)) =
     (k + of_nat (length (lifted c)), ex @ entries nm k (lifted c))"
proof (induction nm n "(k, ex)" and nm cs "(k, ex)" and nm c "(k, ex)" arbitrary: k ex and k ex and k ex
    rule: extract_children_extract_child_list_extract_single_child.induct)
  case (9 nm c cs)
  obtain c' k1 ex1 where c: "extract_single_child nm c (k, ex) = (c', k1, ex1)"
    using prod_cases3 by blast
  from 9(1) c have "k1 = k + of_nat (length (lifted c))" "ex1 = ex @ entries nm k (lifted c)" by auto
  with 9(2) [OF c [symmetric]] c show ?case
    by (simp add: case_prod_beta entries_append algebra_simps)
next
  case (10 nm c)
  show ?case
  proof (cases "root_subscope c")
    case True
    then show ?thesis by (auto elim!: root_subscopeE simp: extract_single_Subscope)
  next
    case False
    with 10 show ?thesis
      by (auto simp: extract_single_other lifted_below_other root_subscope_def split: node.splits statement.splits)
  qed
qed (simp_all add: case_prod_beta lifted_below_def)

text \<open>The tree an extraction returns.\<close>

definition keeps_tree :: "node \<Rightarrow> node \<Rightarrow> bool" where
  "keeps_tree n n' \<longleftrightarrow> (com_free n \<longrightarrow> com_free n') \<and> (counted_ok n \<longrightarrow> counted_ok n')"

lemma keeps_tree_list:
  "list_all2 (\<lambda>c c'. subscopes c' = 0 \<and> keeps_tree c c') cs cs' \<Longrightarrow>
   sum_list (map subscopes cs') = 0
   \<and> ((\<forall>c \<in> set cs. com_free c) \<longrightarrow> (\<forall>c \<in> set cs'. com_free c))
   \<and> ((\<forall>c \<in> set cs. counted_ok c) \<longrightarrow> (\<forall>c \<in> set cs'. counted_ok c))
   \<and> length cs' = length cs"
  by (induction rule: list_all2_induct) (auto simp: keeps_tree_def)

lemma extract_tree:
  "root_subscope (fst (extract_children nm n st)) = root_subscope n
   \<and> (\<not> root_subscope n \<longrightarrow> subscopes (fst (extract_children nm n st)) = 0)
   \<and> keeps_tree n (fst (extract_children nm n st))"
  "list_all2 (\<lambda>c c'. subscopes c' = 0 \<and> keeps_tree c c') cs (fst (extract_child_list nm cs st))"
  "subscopes (fst (extract_single_child nm c st)) = 0 \<and> keeps_tree c (fst (extract_single_child nm c st))"
proof (induction nm n st and nm cs st and nm c st
    rule: extract_children_extract_child_list_extract_single_child.induct)
  case (1 nm cs d st)
  from keeps_tree_list [OF this] show ?case
    by (auto simp: case_prod_beta root_subscope_def keeps_tree_def)
next
  case (2 nm cs d st)
  from keeps_tree_list [OF this] show ?case
    by (auto simp: case_prod_beta root_subscope_def keeps_tree_def)
next
  case (3 nm n cs d st)
  from keeps_tree_list [OF this] show ?case
    by (auto simp: case_prod_beta root_subscope_def keeps_tree_def)
next
  case (9 nm c cs st)
  have "list_all2 (\<lambda>c c'. subscopes c' = 0 \<and> keeps_tree c c') cs
      (fst (extract_child_list nm cs (snd (extract_single_child nm c st))))"
    by (rule 9(2) [OF prod.collapse])
  with 9(1) show ?case by (simp add: case_prod_beta)
next
  case (10 nm c st)
  show ?case
  proof (cases "root_subscope c")
    case True
    then obtain sc b d where "c = Node (Subscope sc b) d" by (rule root_subscopeE)
    then show ?thesis by (cases st) (simp add: extract_single_Subscope keeps_tree_def)
  next
    case False
    with 10 have "subscopes (fst (extract_children nm c st)) = 0 \<and> keeps_tree c (fst (extract_children nm c st))"
      unfolding root_subscope_def by (cases c rule: node.exhaust; cases "stmt c") simp_all
    with False show ?thesis by (simp add: extract_single_other)
  qed
qed (simp_all add: case_prod_beta root_subscope_def keeps_tree_def)

lemma traverse_tree:
  assumes "traverse f cs = Inr cs'"
    and "\<And>c c'. c \<in> set cs \<Longrightarrow> f c = Inr c' \<Longrightarrow>
      com_free c' \<and> subscopes c' = subscopes c \<and> (counted_ok c \<longrightarrow> counted_ok c')"
  shows "(\<forall>c \<in> set cs'. com_free c) \<and> sum_list (map subscopes cs') = sum_list (map subscopes cs)
   \<and> ((\<forall>c \<in> set cs. counted_ok c) \<longrightarrow> (\<forall>c \<in> set cs'. counted_ok c)) \<and> length cs' = length cs"
  using assms
proof (induction cs arbitrary: cs')
  case Nil
  then show ?case by simp
next
  case (Cons c cs)
  from Cons.prems(1) obtain c' cs'' where c: "f c = Inr c'" "traverse f cs = Inr cs''" "cs' = c' # cs''"
    by (auto simp: rbind_Inr_iff)
  have "com_free c' \<and> subscopes c' = subscopes c \<and> (counted_ok c \<longrightarrow> counted_ok c')"
    by (rule Cons.prems(2) [OF _ c(1)]) simp
  moreover note Cons.IH [OF c(2) Cons.prems(2)]
  ultimately show ?case unfolding c(3) by simp
qed

lemma expand_com_tree:
  "expand_com_node db n = Inr n' \<Longrightarrow>
     com_free n' \<and> subscopes n' = subscopes n \<and> root_subscope n' = root_subscope n
     \<and> (counted_ok n \<longrightarrow> counted_ok n')"
proof (induction n arbitrary: n' rule: node_induct)
  case (Leaf f d)
  show ?case
  proof (cases "\<exists>kind nm. f = Com kind nm")
    case True
    then obtain kind nm s where "translate_com_feature db nm kind = Inr s" "n' = Node s d"
      using Leaf by (auto simp: map_ok_Inr_iff)
    moreover from this have "root_subscope n' = False"
      by (auto simp: translate_com_feature_Inr root_subscope_def)
    ultimately show ?thesis
      using translate_com_evaluable [of db nm kind s d] by (simp add: evaluable_iff root_subscope_def)
  next
    case False
    with Leaf show ?thesis by (cases f) (auto simp: root_subscope_def)
  qed
next
  case (And cs d)
  then obtain cs' where cs': "traverse (expand_com_node db) cs = Inr cs'" "n' = Node (And cs') d"
    by (auto simp: map_ok_Inr_iff)
  from traverse_tree [OF cs'(1)] And.IH cs'(2) show ?case by (auto simp: root_subscope_def)
next
  case (Or cs d)
  then obtain cs' where cs': "traverse (expand_com_node db) cs = Inr cs'" "n' = Node (Or cs') d"
    by (auto simp: map_ok_Inr_iff)
  from traverse_tree [OF cs'(1)] Or.IH cs'(2) show ?case by (auto simp: root_subscope_def)
next
  case (SomeOf k cs d)
  then obtain cs' where cs': "traverse (expand_com_node db) cs = Inr cs'" "n' = Node (SomeOf k cs') d"
    by (auto simp: map_ok_Inr_iff)
  from traverse_tree [OF cs'(1)] SomeOf.IH cs'(2) show ?case by (auto simp: root_subscope_def)
next
  case (Not c d)
  then show ?case by (auto simp: result_simps root_subscope_def)
next
  case (Subscope sc b d)
  then show ?case by (auto simp: result_simps root_subscope_def)
qed (auto simp: root_subscope_def)

section \<open>The work list\<close>

text \<open>The work list is a stack whose top is the head of the list.\<close>

definition extract_rule :: "rule \<Rightarrow> node \<Rightarrow> rule \<times> rule list" where
  "extract_rule r b =
     (case extract_children (rule_name r) b (0, []) of
        (b', _, extracted) \<Rightarrow>
          (r\<lparr>body := b'\<rparr>, map (\<lambda>(name, sc, b). subscope_rule name sc b (rule_name r)) extracted))"

definition pending :: "rule list \<Rightarrow> nat" where
  "pending stack = sum_list (map (\<lambda>r. Suc (subscopes (body r))) stack)"

lemma pending_simps [simp]:
  "pending [] = 0" "pending (r # rs) = Suc (subscopes (body r)) + pending rs"
  "pending (rs @ ss) = pending rs + pending ss" "pending (rev rs) = pending rs"
  by (simp_all add: pending_def flip: rev_map)

lemma body_subscope_rule [simp]: "body (subscope_rule nm sc b p) = b"
  by (simp add: subscope_rule_def Let_def rule.defs)

lemma extract_rule_eq:
  "extract_rule r b =
     (r\<lparr>body := fst (extract_children (rule_name r) b (0, []))\<rparr>,
      map (\<lambda>(name, sc, b). subscope_rule name sc b (rule_name r)) (entries (rule_name r) 0 (lifted_below b)))"
  using extract_state(1) [of "rule_name r" b 0 "[]"] by (simp add: extract_rule_def case_prod_beta)

lemma pending_extract_rule: "pending (snd (extract_rule r b)) \<le> subscopes b"
proof -
  have "pending (snd (extract_rule r b)) = sum_list (map (\<lambda>(sc, b). Suc (subscopes b)) (map snd (entries (rule_name r) 0 (lifted_below b))))"
    by (simp add: extract_rule_eq pending_def case_prod_beta o_def del: map_snd_entries)
  then show ?thesis using subscopes_lifted_below [of b] by simp
qed

function extract_loop :: "com_db \<Rightarrow> rule list \<Rightarrow> rule list \<Rightarrow> rule_error + rule list" where
  "extract_loop db [] done = Inr done"
| "extract_loop db (r # stack) done =
     rbind (expand_com_node db (body r)) (\<lambda>b.
       case extract_rule r b of
         (r', extracted) \<Rightarrow> extract_loop db (rev extracted @ stack) (done @ [r']))"
  by pat_completeness auto
termination
proof (relation "measure (\<lambda>(db, stack, done). pending stack)")
  fix db and r :: rule and stack "done" :: "rule list" and b r' extracted
  assume b: "expand_com_node db (body r) = Inr b" and "(r', extracted) = extract_rule r b"
  then have "pending extracted \<le> subscopes b"
    using pending_extract_rule [of r b] by (metis snd_conv)
  then show "((db, rev extracted @ stack, done @ [r']), (db, r # stack, done))
      \<in> measure (\<lambda>(db, stack, done). pending stack)"
    using expand_com_tree [OF b] by simp
qed simp

section \<open>Ordering by cost\<close>

definition feature_cost :: "feature \<Rightarrow> u32" where
  "feature_cost f =
     (case f of
        Os _ \<Rightarrow> 0 | Arch _ \<Rightarrow> 0 | Format _ \<Rightarrow> 0
      | Str (Substring _) \<Rightarrow> 2 | Str (Regex _) \<Rightarrow> 2 | Bytes _ \<Rightarrow> 2
      | _ \<Rightarrow> 1)"

fun node_cost :: "node \<Rightarrow> u32" where
  "node_cost (Node (Leaf f) d) = feature_cost f"
| "node_cost (Node (Not c) d) = 1 + node_cost c"
| "node_cost (Node (Range f lo hi) d) = 1 + feature_cost f"
| "node_cost (Node (And cs) d) = 1 + sum_list (map node_cost cs)"
| "node_cost (Node (Or cs) d) = 1 + sum_list (map node_cost cs)"
| "node_cost (Node (SomeOf n cs) d) = 1 + sum_list (map node_cost cs)"
| "node_cost (Node (Subscope sc b) d) = 1 + node_cost b"

text \<open>\<^const>\<open>linorder_class.sort_key\<close> is stable, as \<^verbatim>\<open>sort_by_key\<close> is.\<close>

fun optimize_node :: "node \<Rightarrow> node" where
  "optimize_node (Node (And cs) d) = Node (And (map optimize_node (linorder_class.sort_key node_cost cs))) d"
| "optimize_node (Node (Or cs) d) = Node (Or (map optimize_node (linorder_class.sort_key node_cost cs))) d"
| "optimize_node (Node (SomeOf n cs) d) = Node (SomeOf n (map optimize_node (linorder_class.sort_key node_cost cs))) d"
| "optimize_node (Node (Not c) d) = Node (Not (optimize_node c)) d"
| "optimize_node (Node (Subscope sc b) d) = Node (Subscope sc (optimize_node b)) d"
| "optimize_node (Node (Range f lo hi) d) = Node (Range f lo hi) d"
| "optimize_node (Node (Leaf f) d) = Node (Leaf f) d"

definition expand_and_extract :: "com_db \<Rightarrow> rule list \<Rightarrow> rule_error + rule list" where
  "expand_and_extract db rules =
     map_ok (map (\<lambda>r. r\<lparr>body := optimize_node (body r)\<rparr>)) (extract_loop db (rev rules) [])"

end
