(* ===== verification/Extract_Props.thy ===== *)
theory Extract_Props
  imports Extract
begin

text \<open>
  Properties of the preparation of the rules (\<^verbatim>\<open>capabilities/ruleset.rs\<close>): ordering
  children by cost does not change what a tree means, and extraction leaves trees the
  evaluator accepts.
\<close>

section \<open>Ordering by cost\<close>

lemma sort_key_Nil_iff [simp]: "linorder_class.sort_key f xs = [] \<longleftrightarrow> xs = []"
  by (metis set_empty set_sort)

lemma length_filter_sort_key [simp]:
  "length (filter P (linorder_class.sort_key f xs)) = length (filter P xs)"
  by (metis mset_filter mset_sort size_mset)

lemma sum_list_map_sort_key [simp]:
  "sum_list (map (g :: 'a \<Rightarrow> 'b :: comm_monoid_add) (linorder_class.sort_key f xs)) = sum_list (map g xs)"
  by (metis mset_map mset_sort sum_mset_sum_list)

lemma node_cost_optimize [simp]: "node_cost (optimize_node n) = node_cost n"
proof -
  have *: "sum_list (map (node_cost \<circ> optimize_node) (linorder_class.sort_key node_cost cs)) = sum_list (map node_cost cs)"
    if "\<And>c. c \<in> set cs \<Longrightarrow> node_cost (optimize_node c) = node_cost c" for cs
    unfolding sum_list_map_sort_key using that by (intro arg_cong [where f = sum_list]) simp
  show ?thesis by (induction n rule: node_induct) (simp_all add: * del: sum_list_map_sort_key)
qed

lemma optimize_tree [simp]:
  "evaluable (optimize_node n) = evaluable n" "com_free (optimize_node n) = com_free n"
  "counted_ok (optimize_node n) = counted_ok n" "match_refs (optimize_node n) = match_refs n"
  "root_subscope (optimize_node n) = root_subscope n"
proof -
  show "evaluable (optimize_node n) = evaluable n" by (induction n rule: node_induct) simp_all
  show "com_free (optimize_node n) = com_free n" by (induction n rule: node_induct) simp_all
  show "counted_ok (optimize_node n) = counted_ok n"
    by (induction n rule: node_induct) simp_all
  show "match_refs (optimize_node n) = match_refs n" by (induction n rule: node_induct) simp_all
  show "root_subscope (optimize_node n) = root_subscope n"
    by (cases n rule: node.exhaust; cases "stmt n") (simp_all add: root_subscope_def)
qed

lemma holds_optimize [simp]: "holds rx fs (optimize_node n) = holds rx fs n"
proof (induction n rule: node_induct)
  case (SomeOf k cs d)
  have "filter (holds rx fs \<circ> optimize_node) cs = filter (holds rx fs) cs"
    using SomeOf by (intro filter_cong) simp_all
  then show ?case by (simp add: filter_map)
qed simp_all

text \<open>In a tree ordered by cost every list of children is sorted by cost.\<close>

fun cost_sorted :: "node \<Rightarrow> bool" where
  "cost_sorted (Node (And cs) d) = (sorted (map node_cost cs) \<and> (\<forall>c \<in> set cs. cost_sorted c))"
| "cost_sorted (Node (Or cs) d) = (sorted (map node_cost cs) \<and> (\<forall>c \<in> set cs. cost_sorted c))"
| "cost_sorted (Node (SomeOf n cs) d) = (sorted (map node_cost cs) \<and> (\<forall>c \<in> set cs. cost_sorted c))"
| "cost_sorted (Node (Not c) d) = cost_sorted c"
| "cost_sorted (Node (Subscope sc b) d) = cost_sorted b"
| "cost_sorted (Node (Range f lo hi) d) = True"
| "cost_sorted (Node (Leaf f) d) = True"

lemma cost_sorted_optimize: "cost_sorted (optimize_node n)"
  by (induction n rule: node_induct) (simp_all add: o_def)

text \<open>
  C36: ordering a tree by cost sorts the children of every statement by cost and changes
  neither the verdict of the tree nor, on the trees the evaluator accepts, what the
  boolean pass returns.
\<close>

theorem optimize_preserves_verdict:
  "cost_sorted (optimize_node n) \<and> holds rx fs (optimize_node n) = holds rx fs n
   \<and> (evaluable n \<and> counted_ok n \<longrightarrow>
        evaluate_boolean rx fs (optimize_node n) = evaluate_boolean rx fs n)"
  using cost_sorted_optimize evaluate_boolean_holds [of n rx fs]
    evaluate_boolean_holds [of "optimize_node n" rx fs] by simp

theorem optimize_preserves_verdict_witness:
  "\<forall>rx. let n = Node (And [Node (Leaf (Str (Substring ''x''))) None, Node (Leaf (Os ''linux'')) None]) None
    in optimize_node n = Node (And [Node (Leaf (Os ''linux'')) None, Node (Leaf (Str (Substring ''x''))) None]) None
       \<and> evaluate_boolean rx [] (optimize_node n) = evaluate_boolean rx [] n"
proof -
  let ?n = "Node (And [Node (Leaf (Str (Substring ''x''))) None, Node (Leaf (Os ''linux'')) None]) None"
  have "optimize_node ?n =
      Node (And [Node (Leaf (Os ''linux'')) None, Node (Leaf (Str (Substring ''x''))) None]) None"
    by (simp add: feature_cost_def)
  moreover have "evaluate_boolean rx [] (optimize_node ?n) = evaluate_boolean rx [] ?n" for rx
    using optimize_preserves_verdict [of ?n rx "[]"] by simp
  ultimately show ?thesis by (simp add: Let_def)
qed

section \<open>Extraction\<close>

definition prepared :: "node \<Rightarrow> bool" where
  "prepared n \<longleftrightarrow> com_free n \<and> (root_subscope n \<or> evaluable n)"

lemma prepared_optimize [simp]: "prepared (optimize_node n) = prepared n"
  by (simp add: prepared_def)

lemma prepared_extract_rule:
  assumes "expand_com_node db (body r) = Inr b"
  shows "prepared (body (fst (extract_rule r b)))"
  using expand_com_tree [OF assms] extract_tree(1) [of "rule_name r" b "(0, [])"]
  by (auto simp: prepared_def extract_rule_eq keeps_tree_def evaluable_iff)

text \<open>Induction over a run of the work list that ends without an error.\<close>

lemma extract_loop_run [consumes 1, case_names Nil Cons]:
  assumes "extract_loop db stack acc = Inr rs"
    and "P [] rs"
    and "\<And>r stack acc b. expand_com_node db (body r) = Inr b \<Longrightarrow>
      extract_loop db (rev (snd (extract_rule r b)) @ stack) (acc @ [fst (extract_rule r b)]) = Inr rs \<Longrightarrow>
      P (rev (snd (extract_rule r b)) @ stack) (acc @ [fst (extract_rule r b)]) \<Longrightarrow> P (r # stack) acc"
  shows "P stack acc"
  using assms
proof (induction db stack acc rule: extract_loop.induct)
  case (1 db acc)
  then show ?case by simp
next
  case (2 db r stack acc)
  from "2.prems"(1) obtain b where b: "expand_com_node db (body r) = Inr b"
    and rec: "extract_loop db (rev (snd (extract_rule r b)) @ stack) (acc @ [fst (extract_rule r b)]) = Inr rs"
    by (auto simp: rbind_Inr_iff case_prod_beta)
  from 2(1) [OF b prod.collapse rec "2.prems"(2,3)] show ?case by (rule "2.prems"(3) [OF b rec])
qed

text \<open>What a rule and its prepared form have in common.\<close>

definition same_rule :: "rule \<Rightarrow> rule \<Rightarrow> bool" where
  "same_rule r r' \<longleftrightarrow> (\<exists>b. r' = r\<lparr>body := b\<rparr>)"

lemma extract_loop_keeps: "extract_loop db stack acc = Inr rs \<Longrightarrow> set acc \<subseteq> set rs"
  by (induction rule: extract_loop_run) simp_all

lemma extract_loop_prepared:
  assumes "extract_loop db stack acc = Inr rs"
  shows "(\<forall>r \<in> set acc. prepared (body r)) \<longrightarrow> (\<forall>r \<in> set rs. prepared (body r))"
  using assms
proof (induction rule: extract_loop_run)
  case Nil
  then show ?case by simp
next
  case (Cons r stack acc b)
  have "(\<forall>q \<in> set acc. prepared (body q)) \<Longrightarrow>
      \<forall>q \<in> set (acc @ [fst (extract_rule r b)]). prepared (body q)"
    using prepared_extract_rule [OF Cons(1)] by simp
  with Cons(3) show ?case by blast
qed

lemma extract_loop_covers:
  assumes "extract_loop db stack acc = Inr rs"
  shows "\<forall>r \<in> set stack. \<exists>r' \<in> set rs. same_rule r r'"
  using assms
proof (induction rule: extract_loop_run)
  case Nil
  then show ?case by simp
next
  case (Cons r stack acc b)
  have "fst (extract_rule r b) \<in> set rs" using extract_loop_keeps [OF Cons(2)] by simp
  moreover have "same_rule r (fst (extract_rule r b))" by (auto simp: same_rule_def extract_rule_eq)
  ultimately show ?case using Cons(3) by auto
qed

lemma expand_and_extract_evaluable:
  assumes "expand_and_extract db rules = Inr rs" "r \<in> set rs"
  shows "com_free (body r) \<and> (root_subscope (body r) \<or> evaluable (body r))"
proof -
  from assms(1) obtain qs where qs: "extract_loop db (rev rules) [] = Inr qs"
    and rs: "rs = map (\<lambda>r. r\<lparr>body := optimize_node (body r)\<rparr>) qs"
    by (auto simp: expand_and_extract_def map_ok_Inr_iff)
  have "\<forall>r \<in> set qs. prepared (body r)" using extract_loop_prepared [OF qs] by simp
  with assms(2) show ?thesis by (auto simp: rs prepared_def)
qed

lemma expand_and_extract_covers:
  assumes "expand_and_extract db rules = Inr rs" "r \<in> set rules"
  shows "\<exists>r' \<in> set rs. same_rule r r'"
proof -
  from assms(1) obtain qs where qs: "extract_loop db (rev rules) [] = Inr qs"
    and rs: "rs = map (\<lambda>r. r\<lparr>body := optimize_node (body r)\<rparr>) qs"
    by (auto simp: expand_and_extract_def map_ok_Inr_iff)
  from extract_loop_covers [OF qs] assms(2) obtain r' b where "r' \<in> set qs" "r' = r\<lparr>body := b\<rparr>"
    by (auto simp: same_rule_def)
  then show ?thesis unfolding rs same_rule_def by (auto intro!: bexI [of _ r'])
qed

text \<open>
  The preparation of the rules leaves only trees without COM names, which the
  evaluator accepts unless the tree as a whole is a nested scope, and it keeps every rule
  with everything but its tree.
\<close>

lemma expand_and_extract_prepared:
  assumes "expand_and_extract db rules = Inr rs"
  shows "(\<forall>r \<in> set rs. com_free (body r) \<and> (root_subscope (body r) \<or> evaluable (body r)))
    \<and> (\<forall>r \<in> set rules. \<exists>r' \<in> set rs. same_rule r r')"
  using expand_and_extract_evaluable [OF assms] expand_and_extract_covers [OF assms] by blast

lemma expand_and_extract_prepared_witness:
  "let scs = scopes.make (Some FunctionScope) None;
       r = basic_rule ''a'' None scs (Node (And [Node (Subscope BasicBlockScope (Node (Leaf (Api ''x'')) None)) None]) None)
   in \<exists>rs. expand_and_extract (\<lambda>_ _. None) [r] = Inr rs \<and> length rs = 2 \<and> (\<forall>q \<in> set rs. evaluable (body q))"
proof -
  let ?r = "basic_rule ''a'' None (scopes.make (Some FunctionScope) None)
    (Node (And [Node (Subscope BasicBlockScope (Node (Leaf (Api ''x'')) None)) None]) None)"
  let ?db = "\<lambda>_ _. None"
  let ?b = "Node (And [Node (Leaf (MatchedRule (synthetic_name ''a'' 1))) None]) None"
  let ?q = "subscope_rule (synthetic_name ''a'' 1) BasicBlockScope (Node (Leaf (Api ''x'')) None) ''a''"
  have run: "expand_and_extract ?db [?r] = Inr [?r\<lparr>body := ?b\<rparr>, ?q\<lparr>body := Node (Leaf (Api ''x'')) None\<rparr>]"
    by (simp add: expand_and_extract_def extract_rule_def extract_single_Subscope)
  with expand_and_extract_prepared [OF run] show ?thesis by (simp add: root_subscope_def)
qed

end
