(* ===== verification/Ruleset.thy ===== *)
theory Ruleset
  imports Extract_Props
begin

text \<open>
  \<^verbatim>\<open>capa-x/src/capabilities/ruleset.rs\<close>, the matching rule set: which rules are matched at
  a scope and in which order, the feature index that selects the rules worth evaluating,
  and the loop that matches a scope.

  A hash set of features is a list without two equal features (equality of features is not
  reflexive, so a set would be wrong); its order is never observed. The ordered set of
  candidate positions is a list read through its minimum.
\<close>

section \<open>Rules of a scope\<close>

function (sequential) transitive_closure ::
    "rule_map \<Rightarrow> namespaces \<Rightarrow> string \<Rightarrow> string set \<Rightarrow> string set"
  and closure_deps :: "rule_map \<Rightarrow> namespaces \<Rightarrow> string list \<Rightarrow> string set \<Rightarrow> string set" where
  "transitive_closure by_name nss start out =
     (if start \<in> out then out
      else
        (case map_of by_name start of
           None \<Rightarrow> insert start out
         | Some r \<Rightarrow> closure_deps by_name nss (sorted_deps nss r) (insert start out)))"
| "closure_deps by_name nss [] out = out"
| "closure_deps by_name nss (dep # deps) out =
     closure_deps by_name nss deps (transitive_closure by_name nss dep out)"
  by pat_completeness auto

definition unseen :: "rule_map \<Rightarrow> string set \<Rightarrow> nat" where
  "unseen by_name seen = card (dom (map_of by_name) - seen)"

lemma unseen_mono: "s \<subseteq> s' \<Longrightarrow> unseen by_name s' \<le> unseen by_name s"
  unfolding unseen_def by (intro card_mono) (auto simp: finite_dom_map_of)

lemma unseen_insert:
  "nm \<notin> s \<Longrightarrow> map_of by_name nm = Some r \<Longrightarrow> unseen by_name (insert nm s) < unseen by_name s"
  unfolding unseen_def by (intro psubset_card_mono) (auto simp: finite_dom_map_of)

lemma transitive_closure_mono:
  "transitive_closure_closure_deps_dom (Inl (by_name, nss, nm, out)) \<Longrightarrow>
     out \<subseteq> transitive_closure by_name nss nm out"
  "transitive_closure_closure_deps_dom (Inr (by_name, nss, deps, out)) \<Longrightarrow>
     out \<subseteq> closure_deps by_name nss deps out"
proof (induction by_name nss nm out and by_name nss deps out
    rule: transitive_closure_closure_deps.pinduct)
  case (1 by_name nss nm out)
  then show ?case by (auto simp: transitive_closure.psimps split: option.splits)
next
  case (2 by_name nss out)
  then show ?case by (simp add: closure_deps.psimps)
next
  case (3 by_name nss dep deps out)
  then show ?case by (auto simp: closure_deps.psimps)
qed

termination transitive_closure
proof (relation "measures
    [\<lambda>x. case x of Inl (bn, nss, nm, s) \<Rightarrow> unseen bn s | Inr (bn, nss, ds, s) \<Rightarrow> unseen bn s,
     \<lambda>x. case x of Inl _ \<Rightarrow> 0 | Inr (bn, nss, ds, _) \<Rightarrow> Suc (length ds)]")
  fix by_name :: rule_map and nss dep deps and out :: "string set"
  assume "transitive_closure_closure_deps_dom (Inl (by_name, nss, dep, out))"
  then have "unseen by_name (transitive_closure by_name nss dep out) \<le> unseen by_name out"
    by (intro unseen_mono transitive_closure_mono(1))
  then show "(Inr (by_name, nss, deps, transitive_closure by_name nss dep out),
      Inr (by_name, nss, dep # deps, out)) \<in> measures
    [\<lambda>x. case x of Inl (bn, nss, nm, s) \<Rightarrow> unseen bn s | Inr (bn, nss, ds, s) \<Rightarrow> unseen bn s,
     \<lambda>x. case x of Inl _ \<Rightarrow> 0 | Inr (bn, nss, ds, _) \<Rightarrow> Suc (length ds)]"
    by auto
qed (auto simp: unseen_insert)

text \<open>\<^verbatim>\<open>topo_sort_subset\<close> and its local \<^verbatim>\<open>visit\<close>.\<close>

type_synonym topo_state = "string set \<times> string list"

function (sequential) topo_visit ::
    "rule_map \<Rightarrow> namespaces \<Rightarrow> string \<Rightarrow> topo_state \<Rightarrow> topo_state"
  and topo_visit_deps :: "rule_map \<Rightarrow> namespaces \<Rightarrow> string list \<Rightarrow> topo_state \<Rightarrow> topo_state" where
  "topo_visit by_name nss nm (seen, order) =
     (if nm \<in> seen then (seen, order)
      else
        (case map_of by_name nm of
           None \<Rightarrow> (insert nm seen, order @ [nm])
         | Some r \<Rightarrow>
             (case topo_visit_deps by_name nss (sorted_deps nss r) (insert nm seen, order) of
                (seen, order) \<Rightarrow> (seen, order @ [nm]))))"
| "topo_visit_deps by_name nss [] st = st"
| "topo_visit_deps by_name nss (dep # deps) st =
     topo_visit_deps by_name nss deps (topo_visit by_name nss dep st)"
  by pat_completeness auto

lemma topo_visit_mono:
  "topo_visit_topo_visit_deps_dom (Inl (by_name, nss, nm, st)) \<Longrightarrow>
     fst st \<subseteq> fst (topo_visit by_name nss nm st)"
  "topo_visit_topo_visit_deps_dom (Inr (by_name, nss, deps, st)) \<Longrightarrow>
     fst st \<subseteq> fst (topo_visit_deps by_name nss deps st)"
proof (induction by_name nss nm st and by_name nss deps st
    rule: topo_visit_topo_visit_deps.pinduct)
  case (1 by_name nss nm seen order)
  then show ?case by (auto simp: topo_visit.psimps case_prod_beta split: option.splits)
next
  case (2 by_name nss st)
  then show ?case by (simp add: topo_visit_deps.psimps)
next
  case (3 by_name nss dep deps st)
  then show ?case by (auto simp: topo_visit_deps.psimps)
qed

termination topo_visit
proof (relation "measures
    [\<lambda>x. case x of Inl (bn, nss, nm, s, _) \<Rightarrow> unseen bn s | Inr (bn, nss, ds, s, _) \<Rightarrow> unseen bn s,
     \<lambda>x. case x of Inl _ \<Rightarrow> 0 | Inr (bn, nss, ds, _) \<Rightarrow> Suc (length ds)]")
  fix by_name :: rule_map and nss dep deps and st :: topo_state
  assume "topo_visit_topo_visit_deps_dom (Inl (by_name, nss, dep, st))"
  then have "unseen by_name (fst (topo_visit by_name nss dep st)) \<le> unseen by_name (fst st)"
    by (intro unseen_mono topo_visit_mono(1))
  then show "(Inr (by_name, nss, deps, topo_visit by_name nss dep st),
      Inr (by_name, nss, dep # deps, st)) \<in> measures
    [\<lambda>x. case x of Inl (bn, nss, nm, s, _) \<Rightarrow> unseen bn s | Inr (bn, nss, ds, s, _) \<Rightarrow> unseen bn s,
     \<lambda>x. case x of Inl _ \<Rightarrow> 0 | Inr (bn, nss, ds, _) \<Rightarrow> Suc (length ds)]"
    by (cases st; cases "topo_visit by_name nss dep st") auto
qed (auto simp: unseen_insert)

definition topo_sort_subset :: "string set \<Rightarrow> rule_map \<Rightarrow> namespaces \<Rightarrow> string list" where
  "topo_sort_subset names by_name nss =
     snd (topo_visit_deps by_name nss (sorted_list_of_set names) ({}, []))"

definition rules_for_scope :: "yaml_lib \<Rightarrow> rule list \<Rightarrow> rule_map \<Rightarrow> namespaces \<Rightarrow> scope \<Rightarrow> string list" where
  "rules_for_scope yl rules by_name nss sc =
     (let names = fold (\<lambda>r out. if is_subscope_rule yl r then out
                                else transitive_closure by_name nss (rule_name r) out) rules {}
      in filter (\<lambda>nm. case map_of by_name nm of None \<Rightarrow> False | Some r \<Rightarrow> scopes_contains (rule_scopes r) sc)
           (topo_sort_subset names by_name nss))"

section \<open>The feature index\<close>

definition number_score :: "number_value \<Rightarrow> u8" where
  "number_score v =
     (case v of
        NInt i \<Rightarrow>
          if (- 0x8000 \<le> i \<and> i \<le> 0x8000) \<or> (0xffffff00 \<le> i \<and> i \<le> 0xffffffff)
            \<or> (0xffffffffffffff00 \<le> i \<and> i \<le> 0xffffffffffffffff)
          then 3 else 7
      | _ \<Rightarrow> 7)"

definition index_score :: "feature \<Rightarrow> u8" where
  "index_score f =
     (case f of
        MatchedRule _ \<Rightarrow> 9
      | Str (Plain _) \<Rightarrow> 9
      | Api _ \<Rightarrow> 8
      | Export _ \<Rightarrow> 7
      | Number v \<Rightarrow> number_score v
      | OperandNumber _ v \<Rightarrow> number_score v
      | Class _ \<Rightarrow> 5 | Namespace _ \<Rightarrow> 5 | Property _ _ \<Rightarrow> 5 | Import _ \<Rightarrow> 5 | Section _ \<Rightarrow> 5
      | FunctionName _ \<Rightarrow> 5
      | Characteristic _ \<Rightarrow> 4 | Offset _ \<Rightarrow> 4 | OperandOffset _ _ \<Rightarrow> 4
      | Mnemonic _ \<Rightarrow> 2
      | BasicBlock \<Rightarrow> 1
      | _ \<Rightarrow> 0)"

type_synonym anchor = "u8 \<times> feature list"

definition hs_insert :: "feature \<Rightarrow> feature list \<Rightarrow> feature list" where
  "hs_insert f alts = (if \<exists>g \<in> set alts. feature_eq f g then alts else alts @ [f])"

text \<open>\<^verbatim>\<open>max_by_key\<close> with the key \<^verbatim>\<open>(score, Reverse(len))\<close>: of equal maxima the last one.\<close>

fun anchor_le :: "anchor \<Rightarrow> anchor \<Rightarrow> bool" where
  "anchor_le (s, alts) (s', alts') = (s < s' \<or> s = s' \<and> length alts' \<le> length alts)"

fun max_anchor :: "anchor list \<Rightarrow> anchor option" where
  "max_anchor [] = None"
| "max_anchor (x # xs) = Some (fold (\<lambda>y best. if anchor_le best y then y else best) xs x)"

fun merge_anchors :: "anchor option list \<Rightarrow> u8 \<Rightarrow> feature list \<Rightarrow> anchor option" where
  "merge_anchors [] score alts = Some (score, alts)"
| "merge_anchors (None # os) score alts = None"
| "merge_anchors (Some (s, fs) # os) score alts =
     merge_anchors os (min score s) (fold hs_insert fs alts)"

fun required_features :: "node \<Rightarrow> anchor option" where
  "required_features (Node (Not c) d) = None"
| "required_features (Node (Subscope sc c) d) = None"
| "required_features (Node (Leaf f) d) = Some (index_score f, [f])"
| "required_features (Node (Range f lo hi) d) =
     (if lo = 0 then None else Some (index_score f, [f]))"
| "required_features (Node (And cs) d) =
     max_anchor (List.map_filter id (map required_features cs))"
| "required_features (Node (Or cs) d) = merge_anchors (map required_features cs) 255 []"
| "required_features (Node (SomeOf n cs) d) =
     (if n = 0 then None else merge_anchors (map required_features cs) 255 [])"

record rule_index =
  exact :: "(feature, nat list) index_map"
  idx_strings :: "nat list"
  idx_bytes :: "nat list"
  idx_os :: "nat list"
  always :: "nat list"

definition push_position :: "nat \<Rightarrow> nat list \<Rightarrow> nat list" where
  "push_position p bucket = (if bucket \<noteq> [] \<and> last bucket = p then bucket else bucket @ [p])"

definition index_feature :: "nat \<Rightarrow> feature \<Rightarrow> rule_index \<Rightarrow> rule_index" where
  "index_feature p f idx =
     (case f of
        Str (Substring _) \<Rightarrow> idx\<lparr>idx_strings := push_position p (idx_strings idx)\<rparr>
      | Str (Regex _) \<Rightarrow> idx\<lparr>idx_strings := push_position p (idx_strings idx)\<rparr>
      | Bytes _ \<Rightarrow> idx\<lparr>idx_bytes := push_position p (idx_bytes idx)\<rparr>
      | Os _ \<Rightarrow> idx\<lparr>idx_os := push_position p (idx_os idx)\<rparr>
      | _ \<Rightarrow> idx\<lparr>exact := im_entry feature_eq f [] (push_position p) (exact idx)\<rparr>)"

definition index_body :: "nat \<Rightarrow> node \<Rightarrow> rule_index \<Rightarrow> rule_index" where
  "index_body p b idx =
     (case required_features b of
        None \<Rightarrow> idx\<lparr>always := always idx @ [p]\<rparr>
      | Some (_, alts) \<Rightarrow> fold (index_feature p) alts idx)"

definition RuleFeatureIndex_new :: "rule list \<Rightarrow> rule_index" where
  "RuleFeatureIndex_new rules =
     fold (\<lambda>(p, r). index_body p (body r)) (enumerate 0 rules) (rule_index.make [] [] [] [] [])"

definition exact_positions :: "rule_index \<Rightarrow> feature \<Rightarrow> nat list" where
  "exact_positions idx f = (case im_get feature_eq (exact idx) f of None \<Rightarrow> [] | Some ps \<Rightarrow> ps)"

fun is_str :: "feature \<Rightarrow> bool" where
  "is_str (Str _) = True" | "is_str _ = False"

fun is_bytes :: "feature \<Rightarrow> bool" where
  "is_bytes (Bytes _) = True" | "is_bytes _ = False"

fun is_os :: "feature \<Rightarrow> bool" where
  "is_os (Os _) = True" | "is_os _ = False"

definition candidates :: "rule_index \<Rightarrow> feature_set \<Rightarrow> nat list" where
  "candidates idx fs =
     (let keys = im_keys fs
      in always idx @ concat (map (exact_positions idx) keys)
         @ (if list_ex is_str keys then idx_strings idx else [])
         @ (if list_ex is_bytes keys then idx_bytes idx else [])
         @ (if list_ex is_os keys then idx_os idx else []))"

section \<open>The matching rule set\<close>

type_synonym match_results = "(string, (address \<times> match_result) list) index_map"

record matching_rule_set =
  mrs_rules :: rule_map
  rules_by_scope :: "scope \<rightharpoonup> string list"
  indexes :: "scope \<rightharpoonup> rule_index"
  mrs_namespaces :: namespaces

definition ALL_SCOPES :: "scope list" where
  "ALL_SCOPES = [CallScope, SpanOfCallsScope, ThreadScope, ProcessScope, InstructionScope,
     BasicBlockScope, FunctionScope, FileScope]"

definition MatchingRuleSet_new :: "yaml_lib \<Rightarrow> com_db \<Rightarrow> rule list \<Rightarrow> rule_error + matching_rule_set" where
  "MatchingRuleSet_new yl db rules =
     rbind (RuleSet_new rules) (\<lambda>_.
     rbind (expand_and_extract db rules) (\<lambda>expanded.
       let nss = index_rules_by_namespace expanded;
           by_name = rules_by_name expanded;
           scoped = map_of (map (\<lambda>sc. (sc, rules_for_scope yl expanded by_name nss sc)) ALL_SCOPES);
           idxs = (\<lambda>sc. map_option
                    (\<lambda>names. RuleFeatureIndex_new (List.map_filter (map_of by_name) names)) (scoped sc))
       in Inr (matching_rule_set.make (rules_by_name expanded) scoped idxs nss)))"

definition mrs_get :: "matching_rule_set \<Rightarrow> string \<Rightarrow> rule option" where
  "mrs_get mrs nm = map_of (mrs_rules mrs) nm"

definition mrs_rules_for_scope :: "matching_rule_set \<Rightarrow> scope \<Rightarrow> rule list" where
  "mrs_rules_for_scope mrs sc =
     (case rules_by_scope mrs sc of
        None \<Rightarrow> []
      | Some names \<Rightarrow> List.map_filter (map_of (mrs_rules mrs)) names)"

definition rule_at :: "matching_rule_set \<Rightarrow> scope \<Rightarrow> nat \<Rightarrow> rule option" where
  "rule_at mrs sc p =
     (case rules_by_scope mrs sc of
        None \<Rightarrow> None
      | Some names \<Rightarrow> if p < length names then map_of (mrs_rules mrs) (names ! p) else None)"

definition add_result :: "string \<Rightarrow> address \<Rightarrow> match_result \<Rightarrow> match_results \<Rightarrow> match_results" where
  "add_result nm addr res = im_entry (=) nm [] (\<lambda>l. l @ [(addr, res)])"

text \<open>
  One rule: the boolean pass, and on success the complete pass and the publication of the
  match. The third component holds the feature keys the publication added.
\<close>

definition match_rule ::
  "regex_lib \<Rightarrow> rule \<Rightarrow> address \<Rightarrow> feature_set \<times> match_results
   \<Rightarrow> engine_error + (feature_set \<times> match_results) \<times> feature list" where
  "match_rule rx r addr st =
     (case st of
        (fs, results) \<Rightarrow>
          rbind (evaluate_boolean rx fs (body r)) (\<lambda>hit.
            if \<not> hit then Inr ((fs, results), [])
            else
              rbind (evaluate rx fs False (body r)) (\<lambda>full.
                let fs' = index_rule_matches r {addr} fs
                in Inr ((fs', add_result (rule_name r) addr full results),
                        drop (length fs) (im_keys fs')))))"

definition position_bound :: "rule_index \<Rightarrow> nat list \<Rightarrow> nat" where
  "position_bound idx cands = Max (insert 0 (set cands \<union> (\<Union>(f, ps) \<in> set (exact idx). set ps)))"

lemma exact_positions_bound: "set (exact_positions idx f) \<subseteq> (\<Union>(f, ps) \<in> set (exact idx). set ps)"
proof (cases "im_get feature_eq (exact idx) f")
  case None
  then show ?thesis by (simp add: exact_positions_def)
next
  case (Some ps)
  then obtain k where "(k, ps) \<in> set (exact idx)" using im_get_Some_key by fast
  with Some show ?thesis by (force simp: exact_positions_def)
qed

lemma finite_exact_positions [simp]: "finite (\<Union>(f, ps) \<in> set (exact idx). set ps)"
  by auto

function match_loop ::
  "regex_lib \<Rightarrow> matching_rule_set \<Rightarrow> scope \<Rightarrow> rule_index \<Rightarrow> address \<Rightarrow> nat list
   \<Rightarrow> feature_set \<times> match_results \<Rightarrow> engine_error + feature_set \<times> match_results" where
  "match_loop rx mrs sc idx addr cands st =
     (if cands = [] then Inr st
      else
        let position = Min (set cands);
            cands = removeAll position cands
        in case rule_at mrs sc position of
             None \<Rightarrow> match_loop rx mrs sc idx addr cands st
           | Some r \<Rightarrow>
               rbind (match_rule rx r addr st) (\<lambda>(st', fresh).
                 let woken = filter (\<lambda>i. position < i) (concat (map (exact_positions idx) fresh))
                 in match_loop rx mrs sc idx addr (cands @ woken) st'))"
  by pat_completeness auto

text \<open>Each round only leaves positions above the one it took, and below a fixed bound.\<close>

definition remaining :: "rule_index \<Rightarrow> nat list \<Rightarrow> nat" where
  "remaining idx cands = (if cands = [] then 0 else Suc (position_bound idx cands) - Min (set cands))"

lemma remaining_less:
  assumes "cands \<noteq> []" "set cands' \<subseteq> set cands \<union> (\<Union>(f, ps) \<in> set (exact idx). set ps)"
    and "\<forall>i \<in> set cands'. Min (set cands) < i"
  shows "remaining idx cands' < remaining idx cands"
proof -
  have b: "Min (set cands) \<le> position_bound idx cands"
    unfolding position_bound_def using assms(1) by (intro Max_ge) auto
  show ?thesis
  proof (cases "cands' = []")
    case True
    with b assms(1) show ?thesis by (simp add: remaining_def)
  next
    case False
    have "position_bound idx cands' \<le> position_bound idx cands"
      unfolding position_bound_def by (intro Max_mono) (use assms(2) in auto)
    moreover have "Min (set cands) < Min (set cands')"
      using False assms(3) by (subst Min_gr_iff) auto
    ultimately show ?thesis
      unfolding remaining_def if_not_P [OF False] if_not_P [OF assms(1)] using b by linarith
  qed
qed

termination match_loop
proof (relation "measure (\<lambda>(rx, mrs, sc, idx, addr, cands, st). remaining idx cands)", goal_cases)
  case 1
  then show ?case by simp
next
  case (2 rx mrs sc idx addr cands st position cands')
  then have "remaining idx cands' < remaining idx cands"
    by (intro remaining_less) (auto intro!: le_neq_trans)
  then show ?case by simp
next
  case (3 rx mrs sc idx addr cands st position cands' r res st' fresh woken)
  have "set woken \<subseteq> (\<Union>(f, ps) \<in> set (exact idx). set ps)"
    using exact_positions_bound [of idx] 3 by auto
  with 3 have "remaining idx (cands' @ woken) < remaining idx cands"
    by (intro remaining_less) (auto intro!: le_neq_trans)
  then show ?case by simp
qed

declare match_loop.simps [simp del]

definition match_scope_borrowed ::
  "regex_lib \<Rightarrow> matching_rule_set \<Rightarrow> scope \<Rightarrow> feature_set \<Rightarrow> address
   \<Rightarrow> engine_error + feature_set \<times> match_results" where
  "match_scope_borrowed rx mrs sc fs addr =
     (case indexes mrs sc of
        None \<Rightarrow> Inr (fs, [])
      | Some idx \<Rightarrow> match_loop rx mrs sc idx addr (candidates idx fs) (fs, []))"

definition match_scope ::
  "regex_lib \<Rightarrow> matching_rule_set \<Rightarrow> scope \<Rightarrow> feature_set \<Rightarrow> address
   \<Rightarrow> engine_error + feature_set \<times> match_results" where
  "match_scope rx mrs sc fs addr = match_scope_borrowed rx mrs sc fs addr"

definition match_scope_results ::
  "regex_lib \<Rightarrow> matching_rule_set \<Rightarrow> scope \<Rightarrow> feature_set \<Rightarrow> address \<Rightarrow> engine_error + match_results" where
  "match_scope_results rx mrs sc fs addr = map_ok snd (match_scope_borrowed rx mrs sc fs addr)"

end
