(* ===== verification/Ruleset_Props.thy ===== *)
theory Ruleset_Props
  imports Ruleset
begin

text \<open>
  Properties of the matching rule set (\<^verbatim>\<open>capabilities/ruleset.rs\<close>): matching a scope
  through the feature index gives what evaluating every rule of the scope in order gives.

  The locale \<open>sound_index\<close> is the contract between the index and the matching loop; the
  loop is proved correct once inside it, and the index the code builds is an instance.
\<close>

section \<open>Presence of an indexed feature\<close>

text \<open>A scanning leaf is represented in the index by the mere presence of its type.\<close>

definition scan_type :: "feature \<Rightarrow> (feature \<Rightarrow> bool) option" where
  "scan_type f =
     (case f of
        Str (Substring _) \<Rightarrow> Some is_str
      | Str (Regex _) \<Rightarrow> Some is_str
      | Bytes _ \<Rightarrow> Some is_bytes
      | Os _ \<Rightarrow> Some is_os
      | _ \<Rightarrow> None)"

definition present :: "feature \<Rightarrow> feature_set \<Rightarrow> bool" where
  "present f fs =
     (case scan_type f of Some p \<Rightarrow> list_ex p (im_keys fs) | None \<Rightarrow> fs_contains fs f)"

lemma string_feature_eq_scan:
  "string_feature_eq s s' \<Longrightarrow> scan_type (Str s) = scan_type (Str s')"
  by (cases s; cases s') (simp_all add: scan_type_def)

lemma feature_eq_scan_type: "feature_eq f g \<Longrightarrow> scan_type f = scan_type g"
  by (cases f; cases g) (simp_all add: string_feature_eq_scan, simp_all add: scan_type_def)

lemma scan_type_self: "scan_type f = Some p \<Longrightarrow> p f"
  by (auto simp: scan_type_def split: feature.splits string_feature.splits)

lemma contains_present:
  assumes "fs_contains fs f"
  shows "present f fs"
proof (cases "scan_type f")
  case None
  with assms show ?thesis by (simp add: present_def)
next
  case (Some p)
  from assms obtain k where k: "k \<in> set (im_keys fs)" "feature_eq f k" by (auto simp: im_contains_def)
  then have "p k" using Some feature_eq_scan_type [OF k(2)] by (simp add: scan_type_self)
  with k(1) Some show ?thesis by (auto simp: present_def list_ex_iff)
qed

lemma present_cong: "feature_eq f g \<Longrightarrow> present f fs = present g fs"
  by (simp add: present_def feature_eq_scan_type fmap.contains_cong cong: option.case_cong)

lemma string_value_is_str: "string_value f = Some v \<Longrightarrow> is_str f"
  by (cases f) simp_all

lemma map_filter_string_value:
  "v \<in> set (List.map_filter string_value ks) \<Longrightarrow> list_ex is_str ks"
  by (induction ks) (auto simp: List.map_filter_simps string_value_is_str split: option.splits)

lemma boolean_leaf_present: "boolean_leaf rx fs f = Inr True \<Longrightarrow> present f fs"
proof (cases f)
  case (Str s)
  assume "boolean_leaf rx fs f = Inr True"
  then show ?thesis using Str
    by (cases s) (auto simp: boolean_leaf_def present_def scan_type_def dest!: map_filter_string_value)
next
  case (Bytes bs)
  assume "boolean_leaf rx fs f = Inr True"
  moreover have "bytes_hit bs k \<Longrightarrow> is_bytes k" for k by (cases k) simp_all
  ultimately show ?thesis using Bytes by (auto simp: boolean_leaf_def present_def scan_type_def list_ex_iff)
next
  case (Os q)
  assume "boolean_leaf rx fs f = Inr True"
  moreover have "os_hit q k \<Longrightarrow> is_os k" for k by (cases k) simp_all
  ultimately show ?thesis using Os by (auto simp: boolean_leaf_def present_def scan_type_def list_ex_iff)
qed (simp_all add: boolean_leaf_def present_def scan_type_def)

section \<open>Required features are required\<close>

lemma all_loop_True: "all_loop bs = Inr True \<Longrightarrow> b \<in> set bs \<Longrightarrow> b = Inr True"
  by (induction bs) (auto simp: rbind_Inr_iff split: if_splits)

lemma any_loop_True: "any_loop bs = Inr True \<Longrightarrow> Inr True \<in> set bs"
  by (induction bs) (auto simp: rbind_Inr_iff split: if_splits)

lemma count_loop_True: "count_loop cnt sat bs = Inr True \<Longrightarrow> sat < cnt \<Longrightarrow> Inr True \<in> set bs"
proof (induction bs arbitrary: sat)
  case Nil
  then show ?case by simp
next
  case (Cons b bs)
  then show ?case by (cases "b = Inr True") (auto simp: rbind_Inr_iff Let_def split: if_splits)
qed

lemma max_anchor_mem: "max_anchor xs = Some a \<Longrightarrow> a \<in> set xs"
proof (cases xs)
  case (Cons x ys)
  have "fold (\<lambda>y best. if anchor_le best y then y else best) ys x \<in> insert x (set ys)"
    by (induction ys arbitrary: x) auto
  moreover assume "max_anchor xs = Some a"
  ultimately show ?thesis using Cons by simp
qed simp

lemma hs_insert_present:
  "(\<exists>g \<in> set (hs_insert f alts). present g fs) \<longleftrightarrow> present f fs \<or> (\<exists>g \<in> set alts. present g fs)"
  by (auto simp: hs_insert_def present_cong)

lemma fold_hs_insert_present:
  "(\<exists>g \<in> set (fold hs_insert new alts). present g fs) \<longleftrightarrow>
     (\<exists>g \<in> set new. present g fs) \<or> (\<exists>g \<in> set alts. present g fs)"
  by (induction new arbitrary: alts) (auto simp: hs_insert_present)

lemma merge_anchors_present:
  "merge_anchors os score alts = Some (s, alts') \<Longrightarrow>
   (\<exists>g \<in> set alts'. present g fs) \<longleftrightarrow>
     (\<exists>g \<in> set alts. present g fs) \<or> (\<exists>(t, new) \<in> set (map the os). \<exists>g \<in> set new. present g fs)"
  by (induction os score alts rule: merge_anchors.induct) (auto simp: fold_hs_insert_present)

lemma merge_anchors_Some: "merge_anchors os score alts = Some a \<Longrightarrow> None \<notin> set os"
  by (induction os score alts rule: merge_anchors.induct) auto

lemma required_children:
  assumes IH: "\<And>c s alts. c \<in> set cs \<Longrightarrow> required_features c = Some (s, alts) \<Longrightarrow>
      evaluate_boolean rx fs c = Inr True \<Longrightarrow> \<exists>f \<in> set alts. present f fs"
    and m: "merge_anchors (map required_features cs) 255 [] = Some (s, alts)"
    and hit: "Inr True \<in> set (map (evaluate_boolean rx fs) cs)"
  shows "\<exists>f \<in> set alts. present f fs"
proof -
  from hit obtain c where c: "c \<in> set cs" "evaluate_boolean rx fs c = Inr True" by auto
  with merge_anchors_Some [OF m] obtain t new where r: "required_features c = Some (t, new)"
    by (cases "required_features c") (auto simp: image_iff)
  have "(t, new) \<in> set (map the (map required_features cs))" using c(1) r by (force simp: image_iff)
  with merge_anchors_present [OF m, of fs] IH [OF c(1) r c(2)] show ?thesis by blast
qed

lemma required_features_sound:
  "required_features n = Some (s, alts) \<Longrightarrow> evaluate_boolean rx fs n = Inr True \<Longrightarrow>
   \<exists>f \<in> set alts. present f fs"
proof (induction n arbitrary: s alts rule: node_induct)
  case (And cs d)
  from And.prems(1) have "(s, alts) \<in> set (List.map_filter id (map required_features cs))"
    by (simp add: max_anchor_mem)
  then obtain c where c: "c \<in> set cs" "required_features c = Some (s, alts)"
    by (auto simp: List.map_filter_def)
  moreover from And.prems(2) c(1) have "evaluate_boolean rx fs c = Inr True"
    using all_loop_True [of "map (evaluate_boolean rx fs) cs"] by simp
  ultimately show ?case using And.IH by blast
next
  case (Or cs d)
  from Or.prems(2) have "Inr True \<in> set (map (evaluate_boolean rx fs) cs)"
    by (intro any_loop_True) simp
  with Or.prems(1) show ?case by (intro required_children [OF Or.IH]) simp_all
next
  case (SomeOf k cs d)
  then have "k \<noteq> 0" by auto
  then have "0 < k" by (simp add: word_neq_0_conv)
  with SomeOf.prems(2) have "Inr True \<in> set (map (evaluate_boolean rx fs) cs)"
    by (intro count_loop_True) simp_all
  with SomeOf.prems(1) \<open>k \<noteq> 0\<close> show ?case by (intro required_children [OF SomeOf.IH]) simp_all
next
  case (Range f lo hi d)
  then have "fs_get fs f \<noteq> None" by (cases "fs_get fs f") (auto simp: Let_def split: if_splits)
  then have "fs_contains fs f" by (simp add: im_contains_get)
  with Range show ?case by (auto simp: contains_present split: if_splits)
next
  case (Leaf f d)
  then show ?case using boolean_leaf_present by auto
qed simp_all

section \<open>Trees without unextracted parts always evaluate\<close>

lemma loops_return:
  "\<forall>b \<in> set bs. \<exists>x. b = Inr x \<Longrightarrow> \<exists>x. all_loop bs = Inr x"
  "\<forall>b \<in> set bs. \<exists>x. b = Inr x \<Longrightarrow> \<exists>x. any_loop bs = Inr x"
  "\<forall>b \<in> set bs. \<exists>x. b = Inr x \<Longrightarrow> \<exists>x. count_loop cnt sat bs = Inr x"
  by (induction bs arbitrary: sat) (auto simp: Let_def)

lemma evaluable_returns: "evaluable n \<Longrightarrow> \<exists>b. evaluate_boolean rx fs n = Inr b"
proof (induction n rule: node_induct)
  case (And cs d)
  then show ?case using loops_return(1) [of "map (evaluate_boolean rx fs) cs"] by simp
next
  case (Or cs d)
  then show ?case using loops_return(2) [of "map (evaluate_boolean rx fs) cs"] by simp
next
  case (SomeOf k cs d)
  then show ?case using loops_return(3) [of "map (evaluate_boolean rx fs) cs" k 0] by simp
next
  case (Not c d)
  then show ?case by (auto simp: map_ok_Inr_iff)
next
  case (Leaf f d)
  then show ?case using boolean_leaf_evaluable by auto
qed (simp_all add: Let_def)

section \<open>The index contract\<close>

text \<open>The reference: every rule of the scope, in order.\<close>

fun match_linear ::
  "regex_lib \<Rightarrow> rule list \<Rightarrow> address \<Rightarrow> feature_set \<times> match_results
   \<Rightarrow> engine_error + feature_set \<times> match_results" where
  "match_linear rx [] addr st = Inr st"
| "match_linear rx (r # rs) addr st = rbind (match_rule rx r addr st) (\<lambda>(st', _). match_linear rx rs addr st')"

lemma match_loop_step:
  "cands \<noteq> [] \<Longrightarrow> match_loop rx mrs sc idx addr cands st =
     (case rule_at mrs sc (Min (set cands)) of
        None \<Rightarrow> match_loop rx mrs sc idx addr (removeAll (Min (set cands)) cands) st
      | Some r \<Rightarrow> rbind (match_rule rx r addr st) (\<lambda>(st', fresh).
          match_loop rx mrs sc idx addr
            (removeAll (Min (set cands)) cands
             @ filter (\<lambda>i. Min (set cands) < i) (concat (map (exact_positions idx) fresh))) st'))"
  by (subst match_loop.simps) (simp add: Let_def split: option.split)

lemma concat_positions_bound:
  "set (concat (map (exact_positions idx) fresh)) \<subseteq> (\<Union>(f, ps) \<in> set (exact idx). set ps)"
  using exact_positions_bound [of idx] by auto

text \<open>
  \<open>live i fs\<close> stands for: the index cannot rule out that rule \<open>i\<close> matches \<open>fs\<close>. The laws
  say that no match is ruled out, that a live rule is a candidate, and that a rule a
  published match makes live is registered under one of the new features.
\<close>

locale sound_index =
  fixes rx :: regex_lib
    and rules :: "rule list"
    and idx :: rule_index
    and live :: "nat \<Rightarrow> feature_set \<Rightarrow> bool"
  assumes match_live: "i < length rules \<Longrightarrow> evaluate_boolean rx fs (body (rules ! i)) = Inr True \<Longrightarrow> live i fs"
    and root_live: "i < length rules \<Longrightarrow> root_subscope (body (rules ! i)) \<Longrightarrow> live i fs"
    and live_candidate: "i < length rules \<Longrightarrow> live i fs \<Longrightarrow> i \<in> set (candidates idx fs)"
    and live_woken: "i < length rules \<Longrightarrow> live i (index_rule_matches r ls fs) \<Longrightarrow>
      live i fs \<or> (\<exists>f \<in> set (drop (length fs) (im_keys (index_rule_matches r ls fs))). i \<in> set (exact_positions idx f))"
begin

lemma dead_rule_skipped:
  assumes "i < length rules" "\<not> live i fs" "evaluable (body (rules ! i)) \<or> root_subscope (body (rules ! i))"
  shows "match_rule rx (rules ! i) addr (fs, res) = Inr ((fs, res), [])"
proof -
  from assms have "evaluable (body (rules ! i))" using root_live by blast
  then obtain b where b: "evaluate_boolean rx fs (body (rules ! i)) = Inr b"
    using evaluable_returns by blast
  with assms match_live [of i fs] have "b = False" by auto
  with b show ?thesis by (simp add: match_rule_def)
qed

lemma linear_skip:
  assumes "\<forall>r \<in> set rules. evaluable (body r) \<or> root_subscope (body r)"
    and "p \<le> q" "q \<le> length rules" "\<forall>i. p \<le> i \<and> i < q \<longrightarrow> \<not> live i fs"
  shows "match_linear rx (drop p rules) addr (fs, res) = match_linear rx (drop q rules) addr (fs, res)"
  using assms(2-4)
proof (induction "q - p" arbitrary: p)
  case 0
  then show ?case by simp
next
  case (Suc k)
  then have p: "p < length rules" by simp
  then have "match_rule rx (rules ! p) addr (fs, res) = Inr ((fs, res), [])"
    using Suc assms(1) by (intro dead_rule_skipped) auto
  moreover have "match_linear rx (drop (Suc p) rules) addr (fs, res) = match_linear rx (drop q rules) addr (fs, res)"
    using Suc by (intro Suc.hyps(1)) auto
  ultimately show ?case using p by (simp add: Cons_nth_drop_Suc [symmetric])
qed

lemma match_rule_wakes:
  assumes "match_rule rx r addr (fs, res) = Inr ((fs', res'), fresh)" "i < length rules" "live i fs'"
  shows "live i fs \<or> (\<exists>f \<in> set fresh. i \<in> set (exact_positions idx f))"
  using assms live_woken [of i r "{addr}" fs]
  by (auto simp: match_rule_def rbind_Inr_iff Let_def split: if_splits)

lemma linear_dead:
  assumes "\<forall>r \<in> set rules. evaluable (body r) \<or> root_subscope (body r)"
    and "\<forall>i. p \<le> i \<and> i < length rules \<longrightarrow> \<not> live i fs"
  shows "match_linear rx (drop p rules) addr (fs, res) = Inr (fs, res)"
proof (cases "p \<le> length rules")
  case True
  from linear_skip [OF assms(1) True le_refl assms(2)] show ?thesis by simp
qed simp

text \<open>
  The loop from the candidates at or after position \<open>p\<close> does what the remaining rules do
  one by one, as long as every live rule among them is a candidate.
\<close>

lemma match_loop_linear:
  assumes prep: "\<forall>r \<in> set rules. evaluable (body r) \<or> root_subscope (body r)"
    and at: "\<And>i. rule_at mrs sc i = (if i < length rules then Some (rules ! i) else None)"
    and "\<forall>i \<in> set cands. p \<le> i" "\<forall>i. p \<le> i \<and> i < length rules \<and> live i (fst st) \<longrightarrow> i \<in> set cands"
  shows "match_loop rx mrs sc idx addr cands st = match_linear rx (drop p rules) addr st"
  using assms(3,4)
proof (induction "remaining idx cands" arbitrary: cands st p rule: less_induct)
  case less
  obtain fs res where st: "st = (fs, res)" by (cases st)
  show ?case
  proof (cases "cands = []")
    case True
    then have "match_linear rx (drop p rules) addr st = Inr st"
      using less.prems(2) unfolding st by (intro linear_dead [OF prep]) auto
    with True show ?thesis by (simp add: match_loop.simps)
  next
    case False
    define q where "q = Min (set cands)"
    have q: "q \<in> set cands" "\<And>i. i \<in> set cands \<Longrightarrow> q \<le> i" using False by (simp_all add: q_def)
    have dead: "\<not> live i fs" if "p \<le> i" "i < q" "i < length rules" for i
      using less.prems(2) that q(2) [of i] by (auto simp: st)
    note step = match_loop_step [OF False, folded q_def]
    have IH: "match_loop rx mrs sc idx addr (removeAll q cands @ filter (\<lambda>i. q < i) new) st'
        = match_linear rx (drop (Suc q) rules) addr st'"
      if "set new \<subseteq> (\<Union>(f, ps) \<in> set (exact idx). set ps)"
        and "\<And>i. q < i \<Longrightarrow> i < length rules \<Longrightarrow> live i (fst st') \<Longrightarrow> i \<in> set cands \<or> i \<in> set new" for new st'
    proof (rule less.hyps)
      have "\<forall>i \<in> set (removeAll q cands @ filter (\<lambda>i. q < i) new). q < i"
        using q(2) by (auto intro: le_neq_trans)
      moreover have "set (removeAll q cands @ filter (\<lambda>i. q < i) new)
          \<subseteq> set cands \<union> (\<Union>(f, ps) \<in> set (exact idx). set ps)"
        using that(1) unfolding set_append set_removeAll set_filter by blast
      ultimately show "remaining idx (removeAll q cands @ filter (\<lambda>i. q < i) new) < remaining idx cands"
        using remaining_less [OF False] unfolding q_def by blast
    qed (use q(2) that(2) in \<open>auto simp: Suc_le_eq intro: le_neq_trans\<close>)
    show ?thesis
    proof (cases "q < length rules")
      case True
      have "match_linear rx (drop p rules) addr st = match_linear rx (drop q rules) addr st"
        unfolding st using True q(1) less.prems(1) dead by (intro linear_skip [OF prep]) auto
      moreover have "rbind (match_rule rx (rules ! q) addr st) (\<lambda>(st', fresh). match_loop rx mrs sc idx addr
             (removeAll q cands @ filter (\<lambda>i. q < i) (concat (map (exact_positions idx) fresh))) st')
          = match_linear rx (drop q rules) addr st"
      proof (cases "match_rule rx (rules ! q) addr st")
        case (Inl e)
        with True show ?thesis by (simp add: Cons_nth_drop_Suc [symmetric])
      next
        case (Inr a)
        obtain st' fresh where a: "a = (st', fresh)" by (cases a)
        have "i \<in> set cands \<or> i \<in> set (concat (map (exact_positions idx) fresh))"
          if "q < i" "i < length rules" "live i (fst st')" for i
          using match_rule_wakes [of "rules ! q" addr fs res "fst st'" "snd st'" fresh i] that
            less.prems q(1) Inr a by (auto simp: st)
        with concat_positions_bound have "match_loop rx mrs sc idx addr
             (removeAll q cands @ filter (\<lambda>i. q < i) (concat (map (exact_positions idx) fresh))) st'
            = match_linear rx (drop (Suc q) rules) addr st'" by (rule IH)
        with True Inr a show ?thesis by (simp add: Cons_nth_drop_Suc [symmetric])
      qed
      ultimately show ?thesis using True at step by simp
    next
      case beyond: False
      have "match_loop rx mrs sc idx addr (removeAll q cands) st = match_linear rx (drop (Suc q) rules) addr st"
        using IH [of "[]" st] beyond by simp
      moreover have "match_linear rx (drop p rules) addr st = Inr st"
        unfolding st by (rule linear_dead [OF prep]) (use dead beyond in auto)
      ultimately show ?thesis using beyond at step by simp
    qed
  qed
qed

text \<open>Matching through the index is matching every rule in order.\<close>

lemma candidates_linear:
  assumes "\<forall>r \<in> set rules. evaluable (body r) \<or> root_subscope (body r)"
    and "\<And>i. rule_at mrs sc i = (if i < length rules then Some (rules ! i) else None)"
  shows "match_loop rx mrs sc idx addr (candidates idx fs) (fs, res) = match_linear rx rules addr (fs, res)"
  using match_loop_linear [OF assms, of "candidates idx fs" 0 "(fs, res)"] live_candidate by simp

end

section \<open>The index of the code meets the contract\<close>

definition index_live :: "rule list \<Rightarrow> nat \<Rightarrow> feature_set \<Rightarrow> bool" where
  "index_live rules i fs =
     (case required_features (body (rules ! i)) of
        None \<Rightarrow> True
      | Some (_, alts) \<Rightarrow> \<exists>f \<in> set alts. present f fs)"

definition scan_bucket :: "rule_index \<Rightarrow> feature \<Rightarrow> nat list" where
  "scan_bucket idx f = (if is_str f then idx_strings idx else if is_bytes f then idx_bytes idx else idx_os idx)"

text \<open>Position \<open>p\<close> is registered under feature \<open>f\<close>.\<close>

definition indexed :: "rule_index \<Rightarrow> nat \<Rightarrow> feature \<Rightarrow> bool" where
  "indexed idx p f =
     (case scan_type f of
        None \<Rightarrow> \<forall>k. feature_eq f k \<longrightarrow> p \<in> set (exact_positions idx k)
      | Some _ \<Rightarrow> p \<in> set (scan_bucket idx f))"

definition covers :: "rule_index \<Rightarrow> nat \<Rightarrow> node \<Rightarrow> bool" where
  "covers idx p b =
     (case required_features b of
        None \<Rightarrow> p \<in> set (always idx)
      | Some (_, alts) \<Rightarrow> \<forall>f \<in> set alts. indexed idx p f)"

lemma set_push_position [simp]: "set (push_position p l) = insert p (set l)"
  by (auto simp: push_position_def)

lemma index_feature_exact:
  "scan_type f = None \<Longrightarrow>
   index_feature q f idx = idx\<lparr>exact := im_entry feature_eq f [] (push_position q) (exact idx)\<rparr>"
  by (auto simp: scan_type_def index_feature_def split: feature.splits string_feature.splits)

lemma index_feature_scan:
  "scan_type f = Some u \<Longrightarrow>
   exact (index_feature q f idx) = exact idx
   \<and> set (scan_bucket idx g) \<subseteq> set (scan_bucket (index_feature q f idx) g)
   \<and> q \<in> set (scan_bucket (index_feature q f idx) f)"
  by (auto simp: scan_type_def index_feature_def scan_bucket_def
      split: feature.splits string_feature.splits)

lemma exact_positions_cong: "feature_eq f k \<Longrightarrow> exact_positions idx f = exact_positions idx k"
  by (simp add: exact_positions_def fmap.get_cong)

lemma exact_positions_entry:
  "exact_positions (idx\<lparr>exact := im_entry feature_eq f [] (push_position q) (exact idx)\<rparr>) k =
     (if feature_eq f k then push_position q (exact_positions idx k) else exact_positions idx k)"
  using exact_positions_cong [of f k idx]
  by (auto simp: exact_positions_def fmap.get_entry split: option.splits)

lemma indexed_index_feature:
  assumes "indexed idx p g \<or> p = q \<and> f = g"
  shows "indexed (index_feature q f idx) p g"
proof (cases "scan_type f")
  case None
  with assms show ?thesis
    by (auto simp: indexed_def index_feature_exact exact_positions_entry scan_bucket_def
        split: option.splits)
next
  case (Some u)
  with assms index_feature_scan [OF Some, of q idx g] show ?thesis
    by (auto simp: indexed_def exact_positions_def split: option.splits)
qed

lemma always_index_feature [simp]: "always (index_feature q f idx) = always idx"
  by (simp add: index_feature_def split: feature.split string_feature.split)

lemma indexed_fold:
  "indexed idx p g \<or> p = q \<and> g \<in> set alts \<Longrightarrow> indexed (fold (index_feature q) alts idx) p g"
  by (induction alts arbitrary: idx) (auto intro: indexed_index_feature)

lemma always_fold [simp]: "always (fold (index_feature q) alts idx) = always idx"
  by (induction alts arbitrary: idx) simp_all

lemma indexed_always [simp]: "indexed (idx\<lparr>always := l\<rparr>) p g = indexed idx p g"
  by (simp add: indexed_def exact_positions_def scan_bucket_def split: option.split)

lemma covers_index_body: "covers idx p b \<or> p = q \<and> b = c \<Longrightarrow> covers (index_body q c idx) p b"
  by (auto simp: covers_def index_body_def intro!: indexed_fold split: option.splits)

lemma covers_fold:
  "covers idx p b \<or> (\<exists>r. (p, r) \<in> set prs \<and> body r = b) \<Longrightarrow>
   covers (fold (\<lambda>(p, r). index_body p (body r)) prs idx) p b"
  by (induction prs arbitrary: idx) (auto intro: covers_index_body)

lemma covers_new: "i < length rules \<Longrightarrow> covers (RuleFeatureIndex_new rules) i (body (rules ! i))"
  unfolding RuleFeatureIndex_new_def by (intro covers_fold) (auto simp: in_set_enumerate_eq)

lemma indexed_candidate:
  assumes "indexed idx p f" "present f fs"
  shows "p \<in> set (candidates idx fs)"
proof (cases "scan_type f")
  case None
  with assms obtain k where "k \<in> set (im_keys fs)" "feature_eq f k" "p \<in> set (exact_positions idx k)"
    by (auto simp: present_def indexed_def im_contains_def)
  then show ?thesis by (auto simp: candidates_def Let_def)
next
  case (Some u)
  then have "u \<in> {is_str, is_bytes, is_os}" "u f"
    by (auto simp: scan_type_def split: feature.splits string_feature.splits)
  with assms Some show ?thesis
    by (cases f) (auto simp: present_def indexed_def candidates_def scan_bucket_def scan_type_def Let_def
        split: string_feature.splits)
qed

lemma index_rule_matches_keys:
  obtains new where "im_keys (index_rule_matches r ls fs) = im_keys fs @ new"
    "\<forall>k \<in> set new. \<exists>v. k = MatchedRule v"
proof -
  have one: "\<exists>new. im_keys (fs_insert_many (MatchedRule v) ls fs) = im_keys fs @ new
      \<and> (\<forall>k \<in> set new. \<exists>v. k = MatchedRule v)" for v fs
    by (simp add: fs_insert_many_def im_keys_entry)
  have many: "\<exists>new. im_keys (fold (\<lambda>p. fs_insert_many (MatchedRule p) ls) ps fs) = im_keys fs @ new
      \<and> (\<forall>k \<in> set new. \<exists>v. k = MatchedRule v)" for ps fs
  proof (induction ps arbitrary: fs)
    case (Cons p ps)
    show ?case using Cons [of "fs_insert_many (MatchedRule p) ls fs"] one [of p fs] by auto
  qed simp
  have "\<exists>new. im_keys (index_rule_matches r ls fs) = im_keys fs @ new \<and> (\<forall>k \<in> set new. \<exists>v. k = MatchedRule v)"
  proof (cases "namespace r")
    case None
    with one [of "rule_name r" fs] show ?thesis by (simp add: index_rule_matches_def)
  next
    case (Some ns)
    with one [of "rule_name r" fs] many [of "rule_namespaces ns" "fs_insert_many (MatchedRule (rule_name r)) ls fs"]
    show ?thesis by (auto simp: index_rule_matches_def Let_def)
  qed
  with that show thesis by blast
qed

lemma present_published:
  assumes "present f (index_rule_matches r ls fs)"
  shows "present f fs \<or>
    scan_type f = None \<and> (\<exists>k \<in> set (drop (length fs) (im_keys (index_rule_matches r ls fs))). feature_eq f k)"
proof -
  obtain new where new: "im_keys (index_rule_matches r ls fs) = im_keys fs @ new"
    "\<forall>k \<in> set new. \<exists>v. k = MatchedRule v" by (rule index_rule_matches_keys)
  have len: "length fs = length (im_keys fs)" by (simp add: im_keys_def)
  show ?thesis
  proof (cases "scan_type f")
    case None
    with assms new(1) len show ?thesis by (auto simp: present_def im_contains_def)
  next
    case (Some u)
    then have "u \<in> {is_str, is_bytes, is_os}"
      by (auto simp: scan_type_def split: feature.splits string_feature.splits)
    with new(2) have "\<not> list_ex u new" by (auto simp: list_ex_iff)
    with assms new(1) Some show ?thesis by (simp add: present_def)
  qed
qed

lemma live_covered_candidate:
  assumes "index_live rules i fs" "covers idx i (body (rules ! i))"
  shows "i \<in> set (candidates idx fs)"
proof (cases "required_features (body (rules ! i))")
  case None
  with assms(2) show ?thesis by (simp add: covers_def candidates_def Let_def)
next
  case (Some a)
  with assms obtain f where "f \<in> set (snd a)" "present f fs" "indexed idx i f"
    by (auto simp: covers_def index_live_def case_prod_beta)
  then show ?thesis by (intro indexed_candidate)
qed

interpretation code_index: sound_index rx rules "RuleFeatureIndex_new rules" "index_live rules"
  for rx rules
proof
  fix i fs
  assume i: "i < length rules"
  show "index_live rules i fs" if "evaluate_boolean rx fs (body (rules ! i)) = Inr True"
    using that required_features_sound by (auto simp: index_live_def split: option.split)
  show "index_live rules i fs" if "root_subscope (body (rules ! i))"
    using that by (auto simp: index_live_def elim!: root_subscopeE)
  show "i \<in> set (candidates (RuleFeatureIndex_new rules) fs)" if "index_live rules i fs"
    using that covers_new [OF i] by (rule live_covered_candidate)
  fix r ls
  show "index_live rules i fs \<or> (\<exists>f \<in> set (drop (length fs) (im_keys (index_rule_matches r ls fs))).
      i \<in> set (exact_positions (RuleFeatureIndex_new rules) f))"
    if "index_live rules i (index_rule_matches r ls fs)"
  proof (cases "required_features (body (rules ! i))")
    case None
    then show ?thesis by (simp add: index_live_def)
  next
    case (Some a)
    with that obtain f where f: "f \<in> set (snd a)" "present f (index_rule_matches r ls fs)"
      by (auto simp: index_live_def case_prod_beta)
    from f(1) Some have reg: "indexed (RuleFeatureIndex_new rules) i f"
      using covers_new [OF i] by (auto simp: covers_def)
    show ?thesis
    proof (cases "present f fs")
      case True
      with f(1) Some show ?thesis by (auto simp: index_live_def case_prod_beta)
    next
      case False
      with present_published [OF f(2)] reg show ?thesis unfolding indexed_def by auto
    qed
  qed
qed

section \<open>Matching a scope\<close>

lemma rules_for_scope_known:
  "nm \<in> set (rules_for_scope yl rules by_name nss sc) \<Longrightarrow> \<exists>r. map_of by_name nm = Some r"
  by (auto simp: rules_for_scope_def Let_def split: option.splits)

lemma map_filter_total:
  "\<forall>x \<in> set xs. \<exists>y. f x = Some y \<Longrightarrow> List.map_filter f xs = map (\<lambda>x. the (f x)) xs"
  by (induction xs) (auto simp: List.map_filter_simps)

lemma MatchingRuleSet_new_Inr:
  assumes "MatchingRuleSet_new yl db rules = Inr mrs"
  obtains expanded where "expand_and_extract db rules = Inr expanded"
    "mrs_rules mrs = rules_by_name expanded"
    "rules_by_scope mrs = map_of (map (\<lambda>sc. (sc, rules_for_scope yl expanded (rules_by_name expanded)
        (index_rules_by_namespace expanded) sc)) ALL_SCOPES)"
    "\<And>sc. indexes mrs sc = map_option
        (\<lambda>_. RuleFeatureIndex_new (mrs_rules_for_scope mrs sc)) (rules_by_scope mrs sc)"
proof -
  from assms obtain expanded where "expand_and_extract db rules = Inr expanded"
    and "mrs = (let nss = index_rules_by_namespace expanded; by_name = rules_by_name expanded;
           scoped = map_of (map (\<lambda>sc. (sc, rules_for_scope yl expanded by_name nss sc)) ALL_SCOPES);
           idxs = (\<lambda>sc. map_option
                    (\<lambda>names. RuleFeatureIndex_new (List.map_filter (map_of by_name) names)) (scoped sc))
       in matching_rule_set.make (rules_by_name expanded) scoped idxs nss)"
    by (auto simp: MatchingRuleSet_new_def rbind_Inr_iff Let_def)
  with that show thesis
    by (auto simp: Let_def matching_rule_set.defs mrs_rules_for_scope_def split: option.split)
qed

lemma scope_names_known:
  assumes "MatchingRuleSet_new yl db rules = Inr mrs" "rules_by_scope mrs sc = Some names" "nm \<in> set names"
  shows "\<exists>r. map_of (mrs_rules mrs) nm = Some r"
  using assms(1)
proof (rule MatchingRuleSet_new_Inr)
  fix expanded
  assume "mrs_rules mrs = rules_by_name expanded"
    and "rules_by_scope mrs = map_of (map (\<lambda>sc. (sc, rules_for_scope yl expanded (rules_by_name expanded)
        (index_rules_by_namespace expanded) sc)) ALL_SCOPES)"
  with assms(2,3) show ?thesis by (auto simp: rules_for_scope_known dest!: map_of_SomeD)
qed

lemma rule_at_scope:
  assumes "MatchingRuleSet_new yl db rules = Inr mrs"
  shows "rule_at mrs sc i =
    (if i < length (mrs_rules_for_scope mrs sc) then Some (mrs_rules_for_scope mrs sc ! i) else None)"
proof (cases "rules_by_scope mrs sc")
  case None
  then show ?thesis by (simp add: rule_at_def mrs_rules_for_scope_def)
next
  case (Some names)
  then have known: "\<forall>nm \<in> set names. \<exists>r. map_of (mrs_rules mrs) nm = Some r"
    using scope_names_known [OF assms] by blast
  moreover from this have "i < length names \<Longrightarrow> \<exists>r. map_of (mrs_rules mrs) (names ! i) = Some r" by simp
  ultimately show ?thesis
    using Some by (auto simp: rule_at_def mrs_rules_for_scope_def map_filter_total)
qed

lemma scope_rules_prepared:
  assumes "MatchingRuleSet_new yl db rules = Inr mrs"
  shows "\<forall>r \<in> set (mrs_rules_for_scope mrs sc). evaluable (body r) \<or> root_subscope (body r)"
  using assms
proof (rule MatchingRuleSet_new_Inr)
  fix expanded
  assume e: "expand_and_extract db rules = Inr expanded" "mrs_rules mrs = rules_by_name expanded"
  have "r \<in> set expanded" if "r \<in> set (mrs_rules_for_scope mrs sc)" for r
    using that e(2) map_of_rules_by_name_Some
    by (auto simp: mrs_rules_for_scope_def mem_map_filter split: option.splits)
  with expand_and_extract_evaluable [OF e(1)] show ?thesis by blast
qed

text \<open>A rule set of one rule that depends on no other is accepted.\<close>

lemma lone_rule_accepted:
  assumes "r = basic_rule nm None (scopes.make (Some FunctionScope) None) (Node (Leaf (Api x)) None)"
  shows "\<exists>mrs. MatchingRuleSet_new yl (\<lambda>_ _. None) [r] = Inr mrs"
proof -
  have deps: "get_dependencies nss (body r) = {}" for nss
    by (simp add: assms get_dependencies_def register_feature_def)
  have "\<exists>rs. RuleSet_new [r] = Inr rs"
    using deps by (simp add: RuleSet_new_def Let_def ensure_rules_are_unique_def
        ensure_rule_dependencies_are_met_def topologically_order_rules_def rules_by_name_def
        sorted_deps_def visit.simps)
  moreover have "\<exists>rs. expand_and_extract (\<lambda>_ _. None) [r] = Inr rs"
    by (simp add: assms expand_and_extract_def extract_rule_def)
  ultimately show ?thesis by (auto simp: MatchingRuleSet_new_def Let_def)
qed

text \<open>The laws of the index, at the rules of a scope.\<close>

lemma match_scope_linear:
  assumes "MatchingRuleSet_new yl db rules = Inr mrs"
  shows "match_scope rx mrs sc fs addr = match_linear rx (mrs_rules_for_scope mrs sc) addr (fs, [])"
  using assms
proof (rule MatchingRuleSet_new_Inr)
  fix expanded
  assume idx: "\<And>sc. indexes mrs sc = map_option
        (\<lambda>_. RuleFeatureIndex_new (mrs_rules_for_scope mrs sc)) (rules_by_scope mrs sc)"
  show ?thesis
  proof (cases "rules_by_scope mrs sc")
    case None
    then show ?thesis
      by (simp add: match_scope_def match_scope_borrowed_def idx mrs_rules_for_scope_def)
  next
    case (Some names)
    then show ?thesis
      using code_index.candidates_linear [OF scope_rules_prepared [OF assms] rule_at_scope [OF assms]]
      by (simp add: match_scope_def match_scope_borrowed_def idx)
  qed
qed

text \<open>
  C1: for every rule set the constructor accepts, matching a scope through the feature
  index returns exactly what evaluating every rule of the scope in its order returns: the
  same features, the same matches with the same evidence, and the same error if some rule
  cannot be evaluated.
\<close>

theorem indexed_matching_correct:
  assumes "MatchingRuleSet_new yl db rules = Inr mrs"
  shows "match_scope rx mrs sc fs addr = match_linear rx (mrs_rules_for_scope mrs sc) addr (fs, [])"
  using assms by (rule match_scope_linear)

theorem indexed_matching_correct_witness:
  "let r = basic_rule ''a'' None (scopes.make (Some FunctionScope) None) (Node (Leaf (Api ''x'')) None)
   in \<forall>yl rx. \<exists>mrs. MatchingRuleSet_new yl (\<lambda>_ _. None) [r] = Inr mrs
        \<and> match_scope rx mrs FunctionScope [(Api ''x'', {})] (Absolute 1)
            = match_linear rx (mrs_rules_for_scope mrs FunctionScope) (Absolute 1) ([(Api ''x'', {})], [])"
proof (unfold Let_def, intro allI)
  fix yl rx
  let ?r = "basic_rule ''a'' None (scopes.make (Some FunctionScope) None) (Node (Leaf (Api ''x'')) None)"
  from lone_rule_accepted [OF refl] obtain mrs
    where mrs: "MatchingRuleSet_new yl (\<lambda>_ _. None) [?r] = Inr mrs" by blast
  show "\<exists>mrs. MatchingRuleSet_new yl (\<lambda>_ _. None) [?r] = Inr mrs
      \<and> match_scope rx mrs FunctionScope [(Api ''x'', {})] (Absolute 1)
          = match_linear rx (mrs_rules_for_scope mrs FunctionScope) (Absolute 1) ([(Api ''x'', {})], [])"
    by (intro exI [of _ mrs] conjI mrs indexed_matching_correct [OF mrs])
qed

end
