(* ===== verification/Scope_Order.thy ===== *)
theory Scope_Order
  imports Ruleset_Props
begin

text \<open>
  Properties of the per-scope rule order (\<^verbatim>\<open>rules_for_scope\<close>, \<^verbatim>\<open>transitive_closure\<close> and
  \<^verbatim>\<open>topo_sort_subset\<close> of \<^verbatim>\<open>capabilities/ruleset.rs\<close>). The two walks are simulated by the
  cycle-detecting walk of \<^verbatim>\<open>rules/graph.rs\<close>, so they inherit what is proved of it.
\<close>

section \<open>Simulation\<close>

declare transitive_closure.simps [simp del] topo_visit.simps [simp del]

lemma closure_extends:
  "out \<subseteq> transitive_closure by_name nss nm out"
  "out \<subseteq> closure_deps by_name nss deps out"
proof (induction by_name nss nm out and by_name nss deps out
    rule: transitive_closure_closure_deps.induct)
  case (1 by_name nss nm out)
  then show ?case by (auto simp: transitive_closure.simps split: option.split)
qed auto

lemma dom_marked: "dom (m(a \<mapsto> b)) = insert a (dom m)"
  by auto

lemma visit_simulates:
  "visit by_name nss nm st = Inr st' \<Longrightarrow>
     topo_visit by_name nss nm (dom (fst st), snd st) = (dom (fst st'), snd st')
     \<and> transitive_closure by_name nss nm (dom (fst st)) = dom (fst st')"
  "visit_deps by_name nss deps st = Inr st' \<Longrightarrow>
     topo_visit_deps by_name nss deps (dom (fst st), snd st) = (dom (fst st'), snd st')
     \<and> closure_deps by_name nss deps (dom (fst st)) = dom (fst st')"
proof (induction by_name nss nm st and by_name nss deps st arbitrary: st' and st'
    rule: visit_visit_deps.induct)
  case (1 by_name nss nm marks order)
  show ?case
  proof (cases "marks nm")
    case None
    then obtain r m ord where r: "map_of by_name nm = Some r"
      and rec: "visit_deps by_name nss (sorted_deps nss r) (marks(nm \<mapsto> Visiting), order) = Inr (m, ord)"
      and st': "st' = (m(nm \<mapsto> Done), ord @ [nm])"
      using "1.prems"(1) by (auto simp: visit.simps rbind_Inr_iff split: option.splits)
    note IH = 1(1) [OF None r rec, unfolded fst_conv snd_conv dom_marked]
    then have "nm \<in> dom m"
      using closure_extends(2) [of "insert nm (dom marks)" by_name nss "sorted_deps nss r"] by blast
    then have "dom (fst st') = dom m" "snd st' = ord @ [nm]" unfolding st' fst_conv snd_conv dom_marked
      by (simp_all add: insert_absorb)
    with IH None r show ?thesis
      by (simp add: topo_visit.simps transitive_closure.simps domIff)
  next
    case (Some k)
    with "1.prems" show ?thesis
      by (cases k) (auto simp: visit.simps topo_visit.simps transitive_closure.simps)
  qed
next
  case (2 by_name nss st)
  then show ?case by simp
next
  case (3 by_name nss dep deps st)
  from "3.prems"(1) obtain s
    where s: "visit by_name nss dep st = Inr s" "visit_deps by_name nss deps s = Inr st'"
    unfolding visit_deps.simps rbind_Inr_iff by blast
  from 3(1) [OF s(1)] 3(2) [OF s] show ?case by simp
qed

lemma visit_reachable:
  "visit by_name nss nm st = Inr st' \<Longrightarrow>
     set (snd st') \<subseteq> set (snd st) \<union> (depends by_name nss)\<^sup>* `` {nm}"
  "visit_deps by_name nss deps st = Inr st' \<Longrightarrow>
     set (snd st') \<subseteq> set (snd st) \<union> (depends by_name nss)\<^sup>* `` set deps"
proof (induction by_name nss nm st and by_name nss deps st arbitrary: st' and st'
    rule: visit_visit_deps.induct)
  case (1 by_name nss nm marks order)
  show ?case
  proof (cases "marks nm")
    case None
    then obtain r m ord where r: "map_of by_name nm = Some r"
      and rec: "visit_deps by_name nss (sorted_deps nss r) (marks(nm \<mapsto> Visiting), order) = Inr (m, ord)"
      and st': "st' = (m(nm \<mapsto> Done), ord @ [nm])"
      using "1.prems"(1) by (auto simp: visit.simps rbind_Inr_iff split: option.splits)
    have "(depends by_name nss)\<^sup>* `` set (sorted_deps nss r) \<subseteq> (depends by_name nss)\<^sup>* `` {nm}"
      using r by (auto simp: depends_def intro: converse_rtrancl_into_rtrancl)
    with 1(1) [OF None r rec] show ?thesis unfolding st' by auto
  next
    case (Some k)
    with "1.prems" show ?thesis by (cases k) (auto simp: visit.simps)
  qed
next
  case (2 by_name nss st)
  then show ?case by simp
next
  case (3 by_name nss dep deps st)
  from "3.prems"(1) obtain s
    where s: "visit by_name nss dep st = Inr s" "visit_deps by_name nss deps s = Inr st'"
    unfolding visit_deps.simps rbind_Inr_iff by blast
  from 3(1) [OF s(1)] 3(2) [OF s] show ?case by auto
qed

lemma dependency_first_closed:
  assumes "dependency_first E order" "x \<in> set order" "(x, y) \<in> E\<^sup>*"
  shows "y \<in> set order"
  using assms(3,2)
proof (induction rule: converse_rtrancl_induct)
  case base
  then show ?case .
next
  case (step u v)
  from step.prems obtain xs ys where "order = xs @ u # ys" by (blast dest: split_list)
  with assms(1) step(1) have "v \<in> set order" unfolding dependency_first_def by fastforce
  then show ?case by (rule step.IH)
qed

section \<open>The walks from the start\<close>

text \<open>A run over the names of a list from the empty state, in a graph without dangling names or cycles.\<close>

lemma walk_from_start:
  assumes "distinct (map rule_name rules)" "snd ` dependency rules \<subseteq> rule_name ` set rules"
    and "acyclic (dependency rules)" "set starts \<subseteq> rule_name ` set rules"
  defines "bn \<equiv> rules_by_name rules" and "nss \<equiv> index_rules_by_namespace rules"
  obtains order where "topo_visit_deps bn nss starts ({}, []) = (set order, order)"
    "closure_deps bn nss starts {} = set order" "distinct order"
    "dependency_first (dependency rules) order" "set order = (dependency rules)\<^sup>* `` set starts"
proof -
  note dep = depends_dependency [OF assms(1), folded bn_def nss_def]
  have "\<exists>st. visit_deps bn nss starts (Map.empty, []) = Inr st"
    using assms(2-4) by (intro visit_total(2))
      (simp_all add: dep visited_ok_init dom_rules_by_name bn_def [symmetric] nss_def [symmetric],
       simp_all add: bn_def dom_rules_by_name)
  then obtain st where st: "visit_deps bn nss starts (Map.empty, []) = Inr st" ..
  note ok = visit_extends(2) [OF st visited_ok_init(1), unfolded dep]
  have marks: "dom (fst st) = set (snd st)"
  proof -
    have "visiting st = {}" using ok visited_ok_init(2) by auto
    then have "fst st n \<noteq> Some Visiting" for n by (auto simp: visiting_def)
    then have "dom (fst st) = {n. fst st n = Some Done}" by (auto simp: dom_def) (metis mark.exhaust)
    then show ?thesis using ok by (simp add: visited_ok_def)
  qed
  have df: "dependency_first (dependency rules) (snd st)" using ok by (simp add: visited_ok_def)
  have "(dependency rules)\<^sup>* `` set starts \<subseteq> set (snd st)"
    using ok dependency_first_closed [OF df] by blast
  moreover have "set (snd st) \<subseteq> (dependency rules)\<^sup>* `` set starts"
    using visit_reachable(2) [OF st] by (simp add: dep)
  ultimately have "set (snd st) = (dependency rules)\<^sup>* `` set starts" by blast
  moreover note visit_simulates(2) [OF st]
  ultimately show thesis using that [of "snd st"] ok df marks by (simp add: visited_ok_def)
qed

section \<open>The rules of a scope\<close>

lemma fold_closure:
  "fold (\<lambda>r out. if skip r then out else transitive_closure bn nss (rule_name r) out) rules out =
     closure_deps bn nss (map rule_name (filter (\<lambda>r. \<not> skip r) rules)) out"
  by (induction rules arbitrary: out) simp_all

lemma filter_split:
  "filter P order = xs @ x # ys \<Longrightarrow> \<exists>us vs. order = us @ x # vs \<and> filter P us = xs"
proof (induction order arbitrary: xs)
  case Nil
  then show ?case by simp
next
  case (Cons a order)
  show ?case
  proof (cases "P a \<and> xs = []")
    case True
    with Cons.prems show ?thesis by (intro exI [of _ "[]"] exI [of _ order]) simp
  next
    case False
    with Cons.prems have "filter P order = (if P a then tl xs else xs) @ x # ys"
      by (cases xs) (auto split: if_splits)
    from Cons.IH [OF this] obtain us vs where "order = us @ x # vs" "filter P us = (if P a then tl xs else xs)"
      by blast
    with False Cons.prems show ?thesis
      by (intro exI [of _ "a # us"] exI [of _ vs]) (cases xs; auto split: if_splits)
  qed
qed

lemma rtrancl_closed: "(a, b) \<in> E\<^sup>* \<Longrightarrow> a \<in> N \<Longrightarrow> snd ` E \<subseteq> N \<Longrightarrow> b \<in> N"
  by (induction rule: rtrancl_induct) force+

lemma dependency_first_filter_before:
  assumes "dependency_first E order" "filter P order = xs @ x # ys" "(x, y) \<in> E" "P y"
  shows "y \<in> set xs"
proof -
  from filter_split [OF assms(2)] obtain us vs where o: "order = us @ x # vs" "filter P us = xs" by blast
  with assms(1,3) have "y \<in> set us" unfolding dependency_first_def by blast
  with o(2) assms(4) show ?thesis by auto
qed

lemma dependency_Union:
  "dependency rules =
     (\<Union>r \<in> set rules. Pair (rule_name r) ` get_dependencies (index_rules_by_namespace rules) (body r))"
  by (auto simp: dependency_def)



end
