(* ===== verification/Freeze.thy ===== *)
theory Freeze
  imports Address Features
begin

text \<open>
  The extracted features of a sample, \<^verbatim>\<open>capa-x/src/freeze.rs\<close> (the data types): what the
  extractors hand to the matching drivers. A \<^verbatim>\<open>BTreeMap\<close> keyed by addresses is the list of
  its entries in address order.
\<close>

type_synonym located = "(address \<times> feature) list"

record sample_hashes =
  md5 :: string
  sha1 :: string
  sha256 :: string

record instruction_features =
  insn_features :: located

record basic_block_features =
  bb_features :: located
  instructions :: "(address \<times> instruction_features) list"

record function_features =
  fn_features :: located
  basic_blocks :: "(address \<times> basic_block_features) list"

record static_features =
  st_base_address :: address
  st_sample_hashes :: sample_hashes
  st_global_features :: "feature list"
  st_file_features :: located
  st_functions :: "(address \<times> function_features) list"

record call_features =
  call_name :: string
  cl_features :: located

record thread_features =
  th_features :: located
  calls :: "(address \<times> call_features) list"

record process_features =
  process_name :: string
  pr_features :: located
  threads :: "(address \<times> thread_features) list"

record dynamic_features =
  dy_base_address :: address
  dy_sample_hashes :: sample_hashes
  dy_global_features :: "feature list"
  dy_file_features :: located
  processes :: "(address \<times> process_features) list"

end
