(* ===== verification/Parallel.thy ===== *)
theory Parallel
  imports Prelude "HOL-Library.Multiset"
begin

text \<open>
  \<^verbatim>\<open>capa-x/src/parallel.rs\<close>: the deterministic parallel map. The worker threads are a
  step relation: the shared state is the cursor and the failure flag, and one step is one
  atomic action of one worker (read the flag, claim an index, run the function on the
  claimed item and record its outcome). The accesses are relaxed, so a worker may read the
  flag as unset after another worker set it; it never reads it as set before that. The
  cursor does not wrap around: it never exceeds the number of items and workers.
\<close>

definition Jobs_new :: "nat \<Rightarrow> unit + nat" where
  "Jobs_new n = (if n = 0 then Inl () else Inr n)"

definition is_serial :: "nat \<Rightarrow> bool" where
  "is_serial jobs \<longleftrightarrow> jobs = 1"

datatype worker_status = Idle | Claiming | Running nat | Stopped

record ('r, 'e) worker =
  status :: worker_status
  produced :: "(nat \<times> 'r) list"
  worker_error :: "(nat \<times> 'e) option"

record ('r, 'e) pool =
  cursor :: nat
  failed :: bool
  pool_workers :: "('r, 'e) worker list"

definition idle_worker :: "('r, 'e) worker" where
  "idle_worker = \<lparr>status = Idle, produced = [], worker_error = None\<rparr>"

definition start_pool :: "nat \<Rightarrow> ('r, 'e) pool" where
  "start_pool n = \<lparr>cursor = 0, failed = False, pool_workers = replicate n idle_worker\<rparr>"

text \<open>One action of a worker: what it makes of the shared cursor and flag and of itself.\<close>

inductive act ::
  "('a \<Rightarrow> 'e + 'r) \<Rightarrow> 'a list \<Rightarrow> nat \<times> bool \<times> ('r, 'e) worker \<Rightarrow> nat \<times> bool \<times> ('r, 'e) worker \<Rightarrow> bool"
  for f :: "'a \<Rightarrow> 'e + 'r" and items :: "'a list" where
  see_failed: "status w = Idle \<Longrightarrow> act f items (c, True, w) (c, True, w\<lparr>status := Stopped\<rparr>)"
| go_on: "status w = Idle \<Longrightarrow> act f items (c, b, w) (c, b, w\<lparr>status := Claiming\<rparr>)"
| claim: "status w = Claiming \<Longrightarrow> c < length items \<Longrightarrow>
    act f items (c, b, w) (Suc c, b, w\<lparr>status := Running c\<rparr>)"
| exhausted: "status w = Claiming \<Longrightarrow> length items \<le> c \<Longrightarrow>
    act f items (c, b, w) (Suc c, b, w\<lparr>status := Stopped\<rparr>)"
| run_ok: "status w = Running i \<Longrightarrow> f (items ! i) = Inr v \<Longrightarrow>
    act f items (c, b, w) (c, b, w\<lparr>status := Idle, produced := produced w @ [(i, v)]\<rparr>)"
| run_err: "status w = Running i \<Longrightarrow> f (items ! i) = Inl e \<Longrightarrow>
    act f items (c, b, w) (c, True, w\<lparr>status := Stopped, worker_error := Some (i, e)\<rparr>)"

inductive step :: "('a \<Rightarrow> 'e + 'r) \<Rightarrow> 'a list \<Rightarrow> ('r, 'e) pool \<Rightarrow> ('r, 'e) pool \<Rightarrow> bool"
  for f :: "'a \<Rightarrow> 'e + 'r" and items :: "'a list" where
  worker_step: "k < length (pool_workers s) \<Longrightarrow>
    act f items (cursor s, failed s, pool_workers s ! k) (c, b, w) \<Longrightarrow>
    step f items s \<lparr>cursor = c, failed = b, pool_workers = (pool_workers s)[k := w]\<rparr>"

definition finished :: "('r, 'e) pool \<Rightarrow> bool" where
  "finished s = list_all (\<lambda>w. status w = Stopped) (pool_workers s)"

text \<open>The merge after every worker has been joined, in the order of the workers.\<close>

definition first_error :: "(nat \<times> 'e) option \<Rightarrow> (nat \<times> 'e) option \<Rightarrow> (nat \<times> 'e) option" where
  "first_error acc err =
     (case err of
        None \<Rightarrow> acc
      | Some (i, e) \<Rightarrow>
          (case acc of
             None \<Rightarrow> Some (i, e)
           | Some (earlier, _) \<Rightarrow> if i < earlier then Some (i, e) else acc))"

definition join_pool :: "('r, 'e) pool \<Rightarrow> 'e + 'r list" where
  "join_pool s =
     (let all = concat (map produced (pool_workers s));
          err = fold (\<lambda>w acc. first_error acc (worker_error w)) (pool_workers s) None
      in case err of
           Some (_, e) \<Rightarrow> Inl e
         | None \<Rightarrow> Inr (map snd (sort_key fst all)))"

inductive try_map :: "nat \<Rightarrow> 'a list \<Rightarrow> ('a \<Rightarrow> 'e + 'r) \<Rightarrow> 'e + 'r list \<Rightarrow> bool" where
  serial: "is_serial jobs \<or> length items < 2 \<Longrightarrow> try_map jobs items f (traverse f items)"
| parallel: "\<not> (is_serial jobs \<or> length items < 2) \<Longrightarrow>
    (step f items)\<^sup>*\<^sup>* (start_pool (min jobs (length items))) s \<Longrightarrow> finished s \<Longrightarrow>
    try_map jobs items f (join_pool s)"

inductive_cases actE: "act f items (c, b, w) (c', b', w')"
inductive_cases stepE: "step f items s s'"
inductive_simps try_map_simps: "try_map jobs items f res"

section \<open>Invariant\<close>

text \<open>The indices a worker has taken and what became of them.\<close>

definition claims :: "('r, 'e) worker \<Rightarrow> nat multiset" where
  "claims w = mset (map fst (produced w))
     + (case worker_error w of None \<Rightarrow> {#} | Some (i, _) \<Rightarrow> {#i#})
     + (case status w of Running i \<Rightarrow> {#i#} | _ \<Rightarrow> {#})"

definition worker_ok :: "('a \<Rightarrow> 'e + 'r) \<Rightarrow> 'a list \<Rightarrow> ('r, 'e) worker \<Rightarrow> bool" where
  "worker_ok f items w \<longleftrightarrow>
     (\<forall>(i, v) \<in> set (produced w). f (items ! i) = Inr v)
     \<and> (\<forall>i e. worker_error w = Some (i, e) \<longrightarrow> f (items ! i) = Inl e \<and> status w = Stopped)"

text \<open>Indices are handed out in order, each to one worker; a worker only stops for a reason.\<close>

definition pool_inv :: "('a \<Rightarrow> 'e + 'r) \<Rightarrow> 'a list \<Rightarrow> ('r, 'e) pool \<Rightarrow> bool" where
  "pool_inv f items s \<longleftrightarrow>
     sum_list (map claims (pool_workers s)) = mset_set {0..<min (cursor s) (length items)}
     \<and> (\<forall>w \<in> set (pool_workers s). worker_ok f items w)
     \<and> (failed s \<longleftrightarrow> (\<exists>w \<in> set (pool_workers s). worker_error w \<noteq> None))
     \<and> (\<forall>w \<in> set (pool_workers s). status w = Stopped \<longrightarrow> failed s \<or> length items \<le> cursor s)"

lemma act_claims:
  "act f items (c, b, w) (c', b', w') \<Longrightarrow> worker_ok f items w \<Longrightarrow>
   claims w' + mset_set {0..<min c (length items)} = claims w + mset_set {0..<min c' (length items)}"
  by (erule actE) (auto simp: claims_def worker_ok_def min_def atLeast0_lessThan_Suc split: option.splits)

lemma act_ok: "act f items (c, b, w) (c', b', w') \<Longrightarrow> worker_ok f items w \<Longrightarrow> worker_ok f items w'"
  by (erule actE) (auto simp: worker_ok_def)

lemma act_flag:
  "act f items (c, b, w) (c', b', w') \<Longrightarrow> worker_ok f items w \<Longrightarrow>
   (worker_error w \<noteq> None \<longrightarrow> worker_error w' = worker_error w) \<and> c \<le> c' \<and> (b \<longrightarrow> b')
   \<and> (b' \<longleftrightarrow> b \<or> worker_error w' \<noteq> None \<and> worker_error w = None)
   \<and> (status w' = Stopped \<longrightarrow> b' \<or> length items \<le> c')"
  by (erule actE) (auto simp: worker_ok_def)

lemma sum_list_map_update:
  fixes g :: "'w \<Rightarrow> 'm :: comm_monoid_add"
  shows "k < length ws \<Longrightarrow> sum_list (map g (ws[k := w])) + g (ws ! k) = sum_list (map g ws) + g w"
proof (induction ws arbitrary: k)
  case (Cons v ws)
  then show ?case by (cases k) (simp_all add: ac_simps)
qed simp

lemma pool_inv_start: "pool_inv f items (start_pool n)"
proof -
  have "sum_list (map claims (replicate n idle_worker)) = {#}"
    by (induction n) (simp_all add: idle_worker_def claims_def)
  then show ?thesis
    by (auto simp: pool_inv_def start_pool_def) (simp_all add: idle_worker_def worker_ok_def)
qed

lemma bex_set_update:
  assumes "k < length ws"
  shows "(\<exists>v \<in> set (ws[k := w]). P v) \<longleftrightarrow> P w \<or> (\<exists>i < length ws. i \<noteq> k \<and> P (ws ! i))"
    and "(\<exists>v \<in> set ws. P v) \<longleftrightarrow> P (ws ! k) \<or> (\<exists>i < length ws. i \<noteq> k \<and> P (ws ! i))"
proof -
  have "(\<exists>v \<in> set (ws[k := w]). P v) \<longleftrightarrow> (\<exists>i < length ws. P (if i = k then w else ws ! i))"
    by (auto simp: Bex_def in_set_conv_nth nth_list_update)
  then show "(\<exists>v \<in> set (ws[k := w]). P v) \<longleftrightarrow> P w \<or> (\<exists>i < length ws. i \<noteq> k \<and> P (ws ! i))"
    using assms by auto
  show "(\<exists>v \<in> set ws. P v) \<longleftrightarrow> P (ws ! k) \<or> (\<exists>i < length ws. i \<noteq> k \<and> P (ws ! i))"
    using assms by (auto simp: Bex_def in_set_conv_nth)
qed

lemma pool_inv_step:
  assumes "step f items s s'" "pool_inv f items s"
  shows "pool_inv f items s'"
proof -
  let ?ws = "pool_workers s"
  from assms(1) obtain k c b w where k: "k < length ?ws"
    and a: "act f items (cursor s, failed s, ?ws ! k) (c, b, w)"
    and s': "s' = \<lparr>cursor = c, failed = b, pool_workers = ?ws[k := w]\<rparr>"
    by (rule stepE)
  note inv = assms(2) [unfolded pool_inv_def]
  have ok: "worker_ok f items (?ws ! k)" using inv k by simp
  note flag = act_flag [OF a ok]
  have "sum_list (map claims (?ws[k := w])) + claims (?ws ! k) = mset_set {0..<min c (length items)} + claims (?ws ! k)"
    using sum_list_map_update [OF k, of claims w] act_claims [OF a ok] inv by (simp add: ac_simps)
  then have "sum_list (map claims (?ws[k := w])) = mset_set {0..<min c (length items)}" by simp
  moreover have "\<forall>v \<in> set (?ws[k := w]). worker_ok f items v"
    using inv act_ok [OF a ok] set_update_subset_insert [of ?ws k w] by blast
  moreover have "b \<longleftrightarrow> (\<exists>v \<in> set (?ws[k := w]). worker_error v \<noteq> None)"
    using flag inv bex_set_update(1) [OF k, of w "\<lambda>v. worker_error v \<noteq> None"]
      bex_set_update(2) [OF k, of "\<lambda>v. worker_error v \<noteq> None"] by metis
  moreover have "\<forall>v \<in> set (?ws[k := w]). status v = Stopped \<longrightarrow> b \<or> length items \<le> c"
  proof (intro ballI impI)
    fix v
    assume "v \<in> set (?ws[k := w])" and st: "status v = Stopped"
    then have "v = w \<or> v \<in> set ?ws" using set_update_subset_insert [of ?ws k w] by blast
    then show "b \<or> length items \<le> c"
    proof
      assume "v \<in> set ?ws"
      with st inv have "failed s \<or> length items \<le> cursor s" by blast
      with flag show ?thesis by auto
    qed (use st flag in blast)
  qed
  ultimately show ?thesis unfolding s' pool_inv_def by simp
qed

lemma pool_inv_reachable: "(step f items)\<^sup>*\<^sup>* (start_pool n) s \<Longrightarrow> pool_inv f items s"
  by (induction rule: rtranclp_induct) (auto intro: pool_inv_start pool_inv_step)

lemma pool_size_reachable: "(step f items)\<^sup>*\<^sup>* (start_pool n) s \<Longrightarrow> length (pool_workers s) = n"
  by (induction rule: rtranclp_induct) (auto simp: start_pool_def elim!: stepE)

section \<open>The merge\<close>

lemma traverse_first_error:
  "i < length xs \<Longrightarrow> f (xs ! i) = Inl e \<Longrightarrow> \<forall>j < i. \<exists>v. f (xs ! j) = Inr v \<Longrightarrow> traverse f xs = Inl e"
proof (induction xs arbitrary: i)
  case Nil
  then show ?case by simp
next
  case (Cons x xs)
  show ?case
  proof (cases i)
    case 0
    with Cons.prems show ?thesis by simp
  next
    case (Suc k)
    then obtain v where "f x = Inr v" using Cons.prems(3) by auto
    moreover have "traverse f xs = Inl e"
      using Cons.prems Suc by (intro Cons.IH [of k]) auto
    ultimately show ?thesis by simp
  qed
qed

definition pool_errors :: "('r, 'e) worker list \<Rightarrow> (nat \<times> 'e) set" where
  "pool_errors ws = {p. \<exists>w \<in> set ws. worker_error w = Some p}"

lemma fold_first_error:
  "case fold (\<lambda>w acc. first_error acc (worker_error w)) ws acc of
     None \<Rightarrow> acc = None \<and> pool_errors ws = {}
   | Some (i, e) \<Rightarrow> (i, e) \<in> set_option acc \<union> pool_errors ws
       \<and> (\<forall>(j, d) \<in> set_option acc \<union> pool_errors ws. i \<le> j)"
proof (induction ws arbitrary: acc)
  case Nil
  then show ?case by (auto simp: pool_errors_def split: option.split)
next
  case (Cons w ws)
  have P: "pool_errors (w # ws) = set_option (worker_error w) \<union> pool_errors ws"
    by (auto simp: pool_errors_def)
  show ?case
    using Cons [of "first_error acc (worker_error w)"] unfolding P
    by (cases acc; cases "worker_error w")
      (fastforce simp: first_error_def split: option.splits prod.splits if_splits)+
qed

lemma claims_stopped:
  "status w = Stopped \<Longrightarrow>
   i \<in># claims w \<longleftrightarrow> (\<exists>v. (i, v) \<in> set (produced w)) \<or> (\<exists>e. worker_error w = Some (i, e))"
  by (cases "worker_error w") (force simp: claims_def image_iff)+

lemma mem_sum_claims: "(\<exists>w \<in> set ws. i \<in># claims w) \<longleftrightarrow> i \<in># sum_list (map claims ws)"
  by (induction ws) auto

lemma claimed_iff:
  assumes "pool_inv f items s"
  shows "(\<exists>w \<in> set (pool_workers s). i \<in># claims w) \<longleftrightarrow> i < min (cursor s) (length items)"
  unfolding mem_sum_claims using assms by (simp add: pool_inv_def)

lemma join_error:
  assumes "pool_inv f items s" "finished s" "failed s"
  shows "join_pool s = traverse f items"
proof -
  let ?ws = "pool_workers s"
  note inv = assms(1) [unfolded pool_inv_def]
  let ?err = "fold (\<lambda>w acc. first_error acc (worker_error w)) ?ws None"
  from assms(3) inv have "pool_errors ?ws \<noteq> {}" by (auto simp: pool_errors_def)
  with fold_first_error [where ws = ?ws and acc = None] obtain i e where err: "?err = Some (i, e)"
    and mem: "(i, e) \<in> pool_errors ?ws" and least: "\<forall>(j, d) \<in> pool_errors ?ws. i \<le> j"
    by (cases ?err) auto
  have stopped: "status w = Stopped" if "w \<in> set ?ws" for w
    using assms(2) that by (simp add: finished_def list_all_iff)
  from mem obtain w where w: "w \<in> set ?ws" "worker_error w = Some (i, e)" by (auto simp: pool_errors_def)
  then have "i \<in># claims w" using claims_stopped [OF stopped] by blast
  then have i: "i < min (cursor s) (length items)" using claimed_iff [OF assms(1)] w(1) by blast
  have "f (items ! i) = Inl e" using inv w by (auto simp: worker_ok_def)
  moreover have "\<exists>v. f (items ! j) = Inr v" if "j < i" for j
  proof -
    have "j < min (cursor s) (length items)" using i that by simp
    then obtain u where u: "u \<in> set ?ws" "j \<in># claims u" using claimed_iff [OF assms(1)] by blast
    then show ?thesis
      using claims_stopped [OF stopped [OF u(1)]] least that inv
      by (fastforce simp: pool_errors_def worker_ok_def)
  qed
  ultimately have "traverse f items = Inl e" using i by (intro traverse_first_error) auto
  with err show ?thesis by (simp add: join_pool_def Let_def)
qed

lemma mset_produced:
  "\<forall>w \<in> set ws. status w = Stopped \<and> worker_error w = None \<Longrightarrow>
   mset (map fst (concat (map produced ws))) = sum_list (map claims ws)"
  by (induction ws) (simp_all add: claims_def)

lemma sorted_indices:
  assumes "mset (map fst ps) = mset_set {0..<n :: nat}"
  shows "map fst (sort_key fst ps) = [0..<n]"
proof -
  have "mset (map fst (sort_key fst ps)) = mset [0..<n]" using assms by simp
  then have "sort [0..<n] = map fst (sort_key fst ps)" by (rule properties_for_sort) simp
  then show ?thesis by (simp add: sorted_sort_id)
qed

lemma join_success:
  assumes "pool_inv f items s" "finished s" "\<not> failed s" "pool_workers s \<noteq> []"
  shows "join_pool s = traverse f items"
proof -
  let ?ws = "pool_workers s"
  note inv = assms(1) [unfolded pool_inv_def]
  let ?all = "sort_key fst (concat (map produced ?ws))"
  have quiet: "\<forall>w \<in> set ?ws. status w = Stopped \<and> worker_error w = None"
  proof -
    have "\<forall>w \<in> set ?ws. worker_error w = None" using assms(3) inv by blast
    with assms(2) show ?thesis by (simp add: finished_def list_all_iff)
  qed
  then have "length items \<le> cursor s" using assms(3,4) inv by (cases ?ws) auto
  then have "mset (map fst (concat (map produced ?ws))) = mset_set {0..<length items}"
    using mset_produced [OF quiet] inv by (simp add: min_def)
  then have idx: "map fst ?all = [0..<length items]" by (rule sorted_indices)
  then have len: "length ?all = length items" by (metis length_map length_upt diff_zero)
  have "f (items ! j) = Inr (map snd ?all ! j)" if "j < length items" for j
  proof -
    have "fst (?all ! j) = j" using idx that len by (metis add_0 nth_map nth_upt)
    moreover have "?all ! j \<in> set (concat (map produced ?ws))" using that len by (metis nth_mem set_sort)
    ultimately show ?thesis using inv that len by (fastforce simp: worker_ok_def)
  qed
  then have "traverse f items = Inr (map snd ?all)"
    unfolding traverse_Inr_iff list_all2_conv_all_nth using len by simp
  moreover have "pool_errors ?ws = {}" using quiet by (auto simp: pool_errors_def)
  then have "fold (\<lambda>w acc. first_error acc (worker_error w)) ?ws None = None"
    using fold_first_error [where ws = ?ws and acc = None] by (auto split: option.splits)
  ultimately show ?thesis by (simp add: join_pool_def Let_def)
qed

section \<open>Every schedule ends\<close>

definition status_weight :: "worker_status \<Rightarrow> nat" where
  "status_weight st = (case st of Idle \<Rightarrow> 3 | Claiming \<Rightarrow> 2 | Running _ \<Rightarrow> 4 | Stopped \<Rightarrow> 0)"

definition pool_weight :: "'a list \<Rightarrow> ('r, 'e) pool \<Rightarrow> nat" where
  "pool_weight items s =
     4 * (length items - cursor s) + sum_list (map (\<lambda>w. status_weight (status w)) (pool_workers s))"

lemma act_weight:
  "act f items (c, b, w) (c', b', w') \<Longrightarrow>
   4 * (length items - c') + status_weight (status w') < 4 * (length items - c) + status_weight (status w)"
  by (erule actE) (auto simp: status_weight_def)

lemma step_weight: "step f items s s' \<Longrightarrow> pool_weight items s' < pool_weight items s"
proof (erule stepE)
  fix k c b w
  let ?ws = "pool_workers s" and ?g = "\<lambda>w. status_weight (status w)"
  assume k: "k < length ?ws" and a: "act f items (cursor s, failed s, ?ws ! k) (c, b, w)"
    and s': "s' = \<lparr>cursor = c, failed = b, pool_workers = ?ws[k := w]\<rparr>"
  have "sum_list (map ?g (?ws[k := w])) + ?g (?ws ! k) = sum_list (map ?g ?ws) + ?g w"
    using k by (rule sum_list_map_update)
  with act_weight [OF a] show ?thesis by (simp add: s' pool_weight_def)
qed

lemma step_progress: "\<not> finished s \<Longrightarrow> \<exists>s'. step f items s s'"
proof -
  assume "\<not> finished s"
  then obtain k where k: "k < length (pool_workers s)" "status (pool_workers s ! k) \<noteq> Stopped"
    by (auto simp: finished_def list_all_iff in_set_conv_nth)
  have "\<exists>c b w. act f items (cursor s, failed s, pool_workers s ! k) (c, b, w)"
  proof (cases "status (pool_workers s ! k)")
    case Claiming
    then show ?thesis by (cases "cursor s < length items") (auto intro: claim exhausted simp: not_less)
  next
    case (Running i)
    then show ?thesis by (cases "f (items ! i)") (auto intro: run_ok run_err)
  qed (use k in \<open>auto intro: go_on\<close>)
  with k show ?thesis by (blast intro: worker_step)
qed

lemma schedule_ends: "\<exists>s'. (step f items)\<^sup>*\<^sup>* s s' \<and> finished s'"
proof (induction "pool_weight items s" arbitrary: s rule: less_induct)
  case less
  show ?case
  proof (cases "finished s")
    case False
    then obtain s1 where "step f items s s1" using step_progress by blast
    moreover from less [OF step_weight [OF this]] obtain s' where "(step f items)\<^sup>*\<^sup>* s1 s'" "finished s'" by blast
    ultimately show ?thesis by (meson converse_rtranclp_into_rtranclp)
  qed blast
qed

text \<open>
  C8: the parallel map returns, for every job count and every interleaving of the workers,
  exactly what the sequential map returns: the results in input order, or the error of the
  first failing item; some interleaving always completes, and none runs forever.
\<close>

theorem try_map_deterministic:
  assumes "1 \<le> jobs"
  shows "(try_map jobs items f res \<longleftrightarrow> res = traverse f items)
    \<and> wf {(s', s). step f items s s'}"
proof -
  have join: "join_pool s = traverse f items"
    if "(step f items)\<^sup>*\<^sup>* (start_pool (min jobs (length items))) s" "finished s"
      "\<not> (is_serial jobs \<or> length items < 2)" for s
  proof -
    have inv: "pool_inv f items s" using that(1) by (rule pool_inv_reachable)
    have "length (pool_workers s) = min jobs (length items)" using that(1) by (rule pool_size_reachable)
    then have "pool_workers s \<noteq> []" using assms that(3) by auto
    with inv that(2) show ?thesis by (cases "failed s") (simp_all add: join_error join_success)
  qed
  have "try_map jobs items f (traverse f items)"
  proof (cases "is_serial jobs \<or> length items < 2")
    case True
    then show ?thesis by (rule serial)
  next
    case False
    obtain s where s: "(step f items)\<^sup>*\<^sup>* (start_pool (min jobs (length items))) s" "finished s"
      using schedule_ends by blast
    from parallel [OF False s] join [OF s False] show ?thesis by simp
  qed
  moreover have "res = traverse f items" if "try_map jobs items f res"
    using that join unfolding try_map_simps by blast
  moreover have "wf {(s', s). step f items s s'}"
    by (rule wf_subset [OF wf_measure [of "pool_weight items"]]) (auto dest: step_weight)
  ultimately show ?thesis by blast
qed

theorem try_map_deterministic_witness:
  "try_map 4 [1, 2, 3 :: nat] (\<lambda>n. if n = 2 then Inl n else Inr (n + 1)) (Inl 2)"
  using try_map_deterministic [of 4 "[1, 2, 3 :: nat]" "\<lambda>n. if n = 2 then Inl n else Inr (n + 1)" "Inl 2"]
  by simp

end
