(* ===== verification/Static_Analysis.thy ===== *)
theory Static_Analysis
  imports Ruleset_Props Freeze Parallel
begin

text \<open>
  \<^verbatim>\<open>capa-x/src/capabilities/static_analysis.rs\<close>: the bottom-up matching of a static
  sample, instruction, basic block, function, file.

  The order in which a hash map of matches is iterated is not specified; it is a parameter
  \<open>it\<close> of the definitions that iterate, a function that lists the entries of a map in some
  order. The per-function map is the sequential one: the parallel map returns the same for
  every job count and schedule (\<^verbatim>\<open>parallel.rs\<close>).
\<close>

type_synonym hash_order = "match_results \<Rightarrow> match_results"

datatype capability_error = FunctionError address engine_error | FileError engine_error

definition seed :: "feature_set \<Rightarrow> located \<Rightarrow> feature list \<Rightarrow> feature_set" where
  "seed fs feats globals =
     fold (\<lambda>f fs. fs_insert f NoAddress fs) globals (fold (\<lambda>(a, f) fs. fs_insert f a fs) feats fs)"

definition extend_matches :: "hash_order \<Rightarrow> match_results \<Rightarrow> match_results \<Rightarrow> match_results" where
  "extend_matches it into from = fold (\<lambda>(nm, res). im_entry (=) nm [] (\<lambda>l. l @ res)) (it from) into"

definition promote_matches :: "hash_order \<Rightarrow> matching_rule_set \<Rightarrow> feature_set \<Rightarrow> match_results \<Rightarrow> feature_set" where
  "promote_matches it mrs fs matches =
     fold (\<lambda>(nm, res) fs.
         case mrs_get mrs nm of
           None \<Rightarrow> fs
         | Some r \<Rightarrow> fold (\<lambda>(a, _) fs. index_rule_matches r {a} fs) res fs)
       (it matches) fs"

definition find_instruction_capabilities ::
  "regex_lib \<Rightarrow> hash_order \<Rightarrow> matching_rule_set \<Rightarrow> address \<Rightarrow> located \<Rightarrow> feature list
   \<Rightarrow> engine_error + feature_set \<times> match_results" where
  "find_instruction_capabilities rx it mrs insn_addr feats globals =
     (let fs = seed [] feats globals
      in rbind (match_scope_results rx mrs InstructionScope fs insn_addr) (\<lambda>matches.
           Inr (promote_matches it mrs fs matches, matches)))"

definition find_basic_block_capabilities ::
  "regex_lib \<Rightarrow> hash_order \<Rightarrow> matching_rule_set \<Rightarrow> address \<Rightarrow> basic_block_features \<Rightarrow> feature list
   \<Rightarrow> engine_error + feature_set \<times> match_results \<times> match_results" where
  "find_basic_block_capabilities rx it mrs bb_addr bb globals =
     rbind (fold_result (\<lambda>(insn_addr, insn) (fs, insn_matches).
              rbind (find_instruction_capabilities rx it mrs insn_addr (insn_features insn) globals)
                (\<lambda>(insn_fs, matches).
                  Inr (merge_owned fs insn_fs, extend_matches it insn_matches matches)))
            (instructions bb) ([], []))
       (\<lambda>(fs, insn_matches).
         let fs = seed fs (bb_features bb) globals
         in rbind (match_scope_results rx mrs BasicBlockScope fs bb_addr) (\<lambda>bb_matches.
              Inr (promote_matches it mrs fs bb_matches, bb_matches, insn_matches)))"

definition find_code_capabilities ::
  "regex_lib \<Rightarrow> hash_order \<Rightarrow> matching_rule_set \<Rightarrow> address \<Rightarrow> function_features \<Rightarrow> feature list
   \<Rightarrow> engine_error + match_results \<times> match_results \<times> match_results \<times> nat" where
  "find_code_capabilities rx it mrs fn_addr func globals =
     rbind (fold_result (\<lambda>(bb_addr, bb) (fs, bb_matches, insn_matches).
              rbind (find_basic_block_capabilities rx it mrs bb_addr bb globals)
                (\<lambda>(bb_fs, this_bb, this_insn).
                  Inr (merge_owned fs bb_fs, extend_matches it bb_matches this_bb,
                       extend_matches it insn_matches this_insn)))
            (basic_blocks func) ([], [], []))
       (\<lambda>(fs, bb_matches, insn_matches).
         let fs = seed fs (fn_features func) globals;
             feature_count = length fs
         in rbind (match_scope_results rx mrs FunctionScope fs fn_addr) (\<lambda>function_matches.
              Inr (function_matches, bb_matches, insn_matches, feature_count)))"

definition guarded_insert :: "feature \<Rightarrow> address \<Rightarrow> feature_set \<Rightarrow> feature_set" where
  "guarded_insert f addr fs =
     (if addr \<noteq> NoAddress then fs_insert f addr fs else im_entry feature_eq f {} (\<lambda>l. l) fs)"

definition file_features_of :: "located \<Rightarrow> feature list \<Rightarrow> feature_set \<Rightarrow> feature_set" where
  "file_features_of feats globals lower =
     fs_merge (fold (\<lambda>f. guarded_insert f NoAddress) globals
                 (fold (\<lambda>(a, f). guarded_insert f a) feats []))
       lower"

definition find_file_capabilities ::
  "regex_lib \<Rightarrow> matching_rule_set \<Rightarrow> located \<Rightarrow> feature list \<Rightarrow> feature_set \<Rightarrow> engine_error + match_results \<times> nat" where
  "find_file_capabilities rx mrs feats globals lower =
     (let fs = file_features_of feats globals lower;
          feature_count = length fs
      in rbind (match_scope_results rx mrs FileScope fs NoAddress) (\<lambda>matches.
           Inr (matches, feature_count)))"

record static_capabilities =
  sc_matches :: match_results
  sc_file_feature_count :: nat
  function_feature_counts :: "(address \<times> nat) list"

text \<open>The match features of every match of the lower scopes, for the file scope.\<close>

definition lower_features :: "matching_rule_set \<Rightarrow> match_results \<Rightarrow> feature_set" where
  "lower_features mrs ms =
     fold (\<lambda>(nm, res) fs.
         case mrs_get mrs nm of
           None \<Rightarrow> fs
         | Some r \<Rightarrow> index_rule_matches r (fst ` set res) fs) ms []"

definition find_static_capabilities ::
  "regex_lib \<Rightarrow> hash_order \<Rightarrow> matching_rule_set \<Rightarrow> static_features
   \<Rightarrow> capability_error + static_capabilities" where
  "find_static_capabilities rx it mrs fz =
     rbind (traverse (\<lambda>(fn_addr, func).
              map_err (FunctionError fn_addr)
                (find_code_capabilities rx it mrs fn_addr func (st_global_features fz)))
            (st_functions fz))
       (\<lambda>per_function.
         let (counts, fns, bbs, insns) =
               fold (\<lambda>((fn_addr, _), (function_matches, bb_matches, insn_matches, feature_count))
                      (counts, fns, bbs, insns).
                   (counts @ [(fn_addr, feature_count)], extend_matches it fns function_matches,
                    extend_matches it bbs bb_matches, extend_matches it insns insn_matches))
                 (zip (st_functions fz) per_function) ([], [], [], []);
             lower = lower_features mrs (it insns @ it bbs @ it fns)
         in rbind (map_err FileError
                     (find_file_capabilities rx mrs (st_file_features fz) (st_global_features fz) lower))
              (\<lambda>(file_matches, file_feature_count).
                let matches = extend_matches it [] insns;
                    matches = extend_matches it matches bbs;
                    matches = extend_matches it matches fns;
                    matches = extend_matches it matches file_matches
                in Inr (static_capabilities.make matches file_feature_count counts)))"

end
