(* ===== verification/Dynamic_Analysis.thy ===== *)
theory Dynamic_Analysis
  imports Static_Analysis
begin

text \<open>
  \<^verbatim>\<open>capa-x/src/capabilities/dynamic_analysis.rs\<close>: the bottom-up matching of an execution
  trace, call, span of calls, thread, process, file. Its \<^verbatim>\<open>seed\<close>, \<^verbatim>\<open>extend_matches\<close>,
  \<^verbatim>\<open>promote_matches\<close>, \<^verbatim>\<open>guarded_insert\<close> and \<^verbatim>\<open>find_file_capabilities\<close> are the same text as
  in the static driver, so the definitions are shared. The order of hash map iteration is
  the parameter \<open>it\<close>, as there.
\<close>

definition SPAN_SIZE :: nat where
  "SPAN_SIZE = 20"

definition find_call_capabilities ::
  "regex_lib \<Rightarrow> hash_order \<Rightarrow> matching_rule_set \<Rightarrow> address \<Rightarrow> located \<Rightarrow> feature list
   \<Rightarrow> engine_error + feature_set \<times> match_results" where
  "find_call_capabilities rx it mrs call_addr feats globals =
     (let fs = seed [] feats globals
      in rbind (match_scope_results rx mrs CallScope fs call_addr) (\<lambda>matches.
           Inr (promote_matches it mrs fs matches, matches)))"

section \<open>Spans of calls\<close>

record span_matcher =
  sp_matches :: match_results
  current_feature_sets :: "feature_set list"
  current_features :: feature_set
  last_span_matches :: "string set"

definition span_new :: span_matcher where
  "span_new = span_matcher.make [] [] [] {}"

text \<open>One entry of the call that leaves the window.\<close>

definition evict_feature :: "feature \<times> address set \<Rightarrow> feature_set \<Rightarrow> feature_set" where
  "evict_feature e cur =
     (case e of
        (f, locs) \<Rightarrow>
          if card locs = 1 \<and> NoAddress \<in> locs then cur
          else
            (case fs_get cur f of
               None \<Rightarrow> cur
             | Some c \<Rightarrow>
                 if c - locs = {} then im_remove feature_eq f cur
                 else im_entry feature_eq f {} (\<lambda>l. l - locs) cur))"

definition span_slide :: "feature_set \<Rightarrow> span_matcher \<Rightarrow> span_matcher" where
  "span_slide call_fs sm =
     (let sm = (if length (current_feature_sets sm) = SPAN_SIZE
                then sm\<lparr>current_feature_sets := tl (current_feature_sets sm),
                        current_features :=
                          fold evict_feature (hd (current_feature_sets sm)) (current_features sm)\<rparr>
                else sm)
      in sm\<lparr>current_feature_sets := current_feature_sets sm @ [call_fs],
            current_features := fs_merge (current_features sm) call_fs\<rparr>)"

definition suppressed :: "matching_rule_set \<Rightarrow> string set \<Rightarrow> match_results \<Rightarrow> string set" where
  "suppressed mrs prev matches =
     (let newly = filter (\<lambda>nm. nm \<notin> prev) (im_keys matches)
      in fold (\<lambda>nm acc. case mrs_get mrs nm of
                         None \<Rightarrow> acc
                       | Some r \<Rightarrow> acc - get_dependencies (mrs_namespaces mrs) (body r)) newly prev)"

definition span_record :: "hash_order \<Rightarrow> matching_rule_set \<Rightarrow> match_results \<Rightarrow> span_matcher \<Rightarrow> span_matcher" where
  "span_record it mrs matches sm =
     (let hidden = suppressed mrs (last_span_matches sm) matches
      in sm\<lparr>sp_matches :=
              fold (\<lambda>(nm, res) ms. if nm \<in> hidden then ms else im_entry (=) nm [] (\<lambda>l. l @ res) ms)
                (it matches) (sp_matches sm),
            last_span_matches := set (im_keys matches)\<rparr>)"

definition span_next ::
  "regex_lib \<Rightarrow> hash_order \<Rightarrow> matching_rule_set \<Rightarrow> address \<Rightarrow> feature_set \<Rightarrow> span_matcher
   \<Rightarrow> engine_error + span_matcher" where
  "span_next rx it mrs call_addr call_fs sm =
     (let sm = span_slide call_fs sm
      in rbind (match_scope_results rx mrs SpanOfCallsScope (current_features sm) call_addr) (\<lambda>matches.
           Inr (span_record it mrs matches sm)))"

section \<open>Threads, processes, the trace\<close>

definition find_thread_capabilities ::
  "regex_lib \<Rightarrow> hash_order \<Rightarrow> matching_rule_set \<Rightarrow> address \<Rightarrow> thread_features \<Rightarrow> feature list
   \<Rightarrow> engine_error + feature_set \<times> match_results \<times> match_results \<times> match_results" where
  "find_thread_capabilities rx it mrs thread_addr th globals =
     rbind (fold_result (\<lambda>(call_addr, call) (fs, call_matches, sm).
              rbind (find_call_capabilities rx it mrs call_addr (cl_features call) globals)
                (\<lambda>(call_fs, this_call).
                  rbind (span_next rx it mrs call_addr call_fs sm) (\<lambda>sm.
                    Inr (fs_merge fs call_fs, extend_matches it call_matches this_call, sm))))
            (calls th) ([], [], span_new))
       (\<lambda>(fs, call_matches, sm).
         let fs = seed fs (th_features th) globals
         in rbind (match_scope_results rx mrs ThreadScope fs thread_addr) (\<lambda>thread_matches.
              Inr (promote_matches it mrs fs thread_matches, thread_matches, sp_matches sm, call_matches)))"

definition find_process_capabilities ::
  "regex_lib \<Rightarrow> hash_order \<Rightarrow> matching_rule_set \<Rightarrow> address \<Rightarrow> process_features \<Rightarrow> feature list
   \<Rightarrow> engine_error + match_results \<times> match_results \<times> match_results \<times> match_results \<times> nat" where
  "find_process_capabilities rx it mrs process_addr pr globals =
     rbind (fold_result (\<lambda>(thread_addr, th) (fs, thread_matches, span_matches, call_matches).
              rbind (find_thread_capabilities rx it mrs thread_addr th globals)
                (\<lambda>(thread_fs, this_thread, this_span, this_call).
                  Inr (merge_owned fs thread_fs, extend_matches it thread_matches this_thread,
                       extend_matches it span_matches this_span, extend_matches it call_matches this_call)))
            (threads pr) ([], [], [], []))
       (\<lambda>(fs, thread_matches, span_matches, call_matches).
         let fs = seed fs (pr_features pr) globals;
             feature_count = length fs
         in rbind (match_scope_results rx mrs ProcessScope fs process_addr) (\<lambda>process_matches.
              Inr (process_matches, thread_matches, span_matches, call_matches, feature_count)))"

record dynamic_capabilities =
  dc_matches :: match_results
  dc_file_feature_count :: nat
  process_feature_counts :: "(address \<times> nat) list"

definition find_dynamic_capabilities ::
  "regex_lib \<Rightarrow> hash_order \<Rightarrow> matching_rule_set \<Rightarrow> dynamic_features
   \<Rightarrow> engine_error + dynamic_capabilities" where
  "find_dynamic_capabilities rx it mrs fz =
     rbind (fold_result (\<lambda>(process_addr, pr) (counts, prs, ths, spans, cls).
              rbind (find_process_capabilities rx it mrs process_addr pr (dy_global_features fz))
                (\<lambda>(process_matches, thread_matches, span_matches, call_matches, feature_count).
                  Inr (counts @ [(process_addr, feature_count)], extend_matches it prs process_matches,
                       extend_matches it ths thread_matches, extend_matches it spans span_matches,
                       extend_matches it cls call_matches)))
            (processes fz) ([], [], [], [], []))
       (\<lambda>(counts, prs, ths, spans, cls).
         let lower = lower_features mrs (it cls @ it spans @ it ths @ it prs)
         in rbind (find_file_capabilities rx mrs (dy_file_features fz) (dy_global_features fz) lower)
              (\<lambda>(file_matches, file_feature_count).
                let matches = extend_matches it [] cls;
                    matches = extend_matches it matches spans;
                    matches = extend_matches it matches ths;
                    matches = extend_matches it matches prs;
                    matches = extend_matches it matches file_matches
                in Inr (dynamic_capabilities.make matches file_feature_count counts)))"

end
