(* ===== verification/Bare_Scopes.thy ===== *)
theory Bare_Scopes
  imports Ruleset_Props
begin

text \<open>
  Which rules can be matched without an engine error. A nested scope is extracted from
  wherever it is a child, so only a scope that is the whole tree of a rule, or the whole
  body of another nested scope, stays behind and makes the engine fail. Rule sets without
  such scopes never fail to match.
\<close>

text \<open>No nested scope is the whole body of a nested scope.\<close>

fun bare_free :: "node \<Rightarrow> bool" where
  "bare_free (Node (And cs) d) = (\<forall>c \<in> set cs. bare_free c)"
| "bare_free (Node (Or cs) d) = (\<forall>c \<in> set cs. bare_free c)"
| "bare_free (Node (SomeOf n cs) d) = (\<forall>c \<in> set cs. bare_free c)"
| "bare_free (Node (Not c) d) = bare_free c"
| "bare_free (Node (Subscope sc b) d) = (\<not> root_subscope b \<and> bare_free b)"
| "bare_free (Node (Range f lo hi) d) = True"
| "bare_free (Node (Leaf f) d) = True"

definition well_nested :: "node \<Rightarrow> bool" where
  "well_nested n \<longleftrightarrow> \<not> root_subscope n \<and> bare_free n"

lemma bare_free_translate: "translate_com_feature db nm kind = Inr s \<Longrightarrow> bare_free (Node s d)"
  by (auto simp: translate_com_feature_Inr guid_children_Inr)

lemma bare_free_expand: "expand_com_node db n = Inr n' \<Longrightarrow> bare_free n \<Longrightarrow> bare_free n'"
proof (induction n arbitrary: n' rule: node_induct)
  case (Leaf f d)
  then show ?case by (cases f) (auto simp: map_ok_Inr_iff bare_free_translate)
next
  case (Subscope sc c d)
  then show ?case by (auto simp: map_ok_Inr_iff dest: expand_com_tree)
next
  case (Not c d)
  then show ?case by (auto simp: map_ok_Inr_iff)
qed (fastforce simp: map_ok_Inr_iff dest: traverse_Inr_set)+

lemma lifted_well_nested: "bare_free n \<Longrightarrow> (sc, b) \<in> set (lifted n) \<Longrightarrow> well_nested b"
  by (induction n rule: node_induct) (auto simp: well_nested_def)

lemma extract_rule_well_nested:
  assumes "expand_com_node db (body r) = Inr b" "well_nested (body r)"
  shows "\<not> root_subscope (body (fst (extract_rule r b)))"
    and "q \<in> set (snd (extract_rule r b)) \<Longrightarrow> well_nested (body q)"
proof -
  have b: "\<not> root_subscope b" "bare_free b"
    using assms expand_com_tree [OF assms(1)] bare_free_expand by (auto simp: well_nested_def)
  then show "\<not> root_subscope (body (fst (extract_rule r b)))"
    using extract_tree(1) [of "rule_name r" b "(0, [])"] by (simp add: extract_rule_eq)
  assume "q \<in> set (snd (extract_rule r b))"
  then obtain e where e: "e \<in> set (entries (rule_name r) 0 (lifted b))" "body q = snd (snd e)"
    using b(1) by (auto simp: extract_rule_eq lifted_below_other)
  then have "snd e \<in> set (lifted b)" by (metis image_eqI list.set_map map_snd_entries)
  with e(2) lifted_well_nested [OF b(2), of "fst (snd e)" "snd (snd e)"] show "well_nested (body q)" by simp
qed

lemma extract_loop_well_nested:
  assumes "extract_loop db stack acc = Inr rs"
  shows "(\<forall>r \<in> set stack. well_nested (body r)) \<longrightarrow> (\<forall>r \<in> set acc. \<not> root_subscope (body r)) \<longrightarrow>
    (\<forall>r \<in> set rs. \<not> root_subscope (body r))"
  using assms
proof (induction rule: extract_loop_run)
  case Nil
  then show ?case by simp
next
  case (Cons r stack acc b)
  show ?case
  proof (intro impI)
    assume st: "\<forall>r \<in> set (r # stack). well_nested (body r)" and acc: "\<forall>r \<in> set acc. \<not> root_subscope (body r)"
    then have r: "well_nested (body r)" by simp
    have "\<forall>q \<in> set (rev (snd (extract_rule r b)) @ stack). well_nested (body q)"
      using st extract_rule_well_nested(2) [OF Cons(1) r] by auto
    moreover have "\<forall>q \<in> set (acc @ [fst (extract_rule r b)]). \<not> root_subscope (body q)"
      using acc extract_rule_well_nested(1) [OF Cons(1) r] by auto
    ultimately show "\<forall>r \<in> set rs. \<not> root_subscope (body r)" using Cons(3) by blast
  qed
qed

lemma expand_and_extract_well_nested:
  assumes "expand_and_extract db rules = Inr rs" "\<forall>r \<in> set rules. well_nested (body r)" "r \<in> set rs"
  shows "evaluable (body r)"
proof -
  from assms(1) obtain qs where qs: "extract_loop db (rev rules) [] = Inr qs"
    and rs: "rs = map (\<lambda>r. r\<lparr>body := optimize_node (body r)\<rparr>) qs"
    by (auto simp: expand_and_extract_def map_ok_Inr_iff)
  have "\<forall>r \<in> set qs. \<not> root_subscope (body r)" using extract_loop_well_nested [OF qs] assms(2) by simp
  then have "\<not> root_subscope (body r)" using assms(3) by (auto simp: rs)
  with expand_and_extract_evaluable [OF assms(1,3)] show ?thesis by simp
qed

section \<open>Matching does not fail\<close>

definition all_evaluable :: "matching_rule_set \<Rightarrow> bool" where
  "all_evaluable mrs \<longleftrightarrow> (\<forall>nm r. map_of (mrs_rules mrs) nm = Some r \<longrightarrow> evaluable (body r))"

lemma all_evaluable_new:
  assumes "MatchingRuleSet_new yl db rules = Inr mrs" "\<forall>r \<in> set rules. well_nested (body r)"
  shows "all_evaluable mrs"
  using assms(1)
proof (rule MatchingRuleSet_new_Inr)
  fix expanded
  assume e: "expand_and_extract db rules = Inr expanded" "mrs_rules mrs = rules_by_name expanded"
  show ?thesis
    unfolding all_evaluable_def e(2)
    using map_of_rules_by_name_Some expand_and_extract_well_nested [OF e(1) assms(2)] by blast
qed

lemma match_rule_total:
  assumes "evaluable (body r)"
  shows "\<exists>out. match_rule rx r addr st = Inr out"
proof -
  obtain fs res where st: "st = (fs, res)" by (cases st)
  obtain b where "evaluate_boolean rx fs (body r) = Inr b" using evaluable_returns [OF assms] by blast
  moreover obtain m where "evaluate rx fs False (body r) = Inr m"
    using evaluate_full_total_iff [of rx fs "body r"] assms by blast
  ultimately show ?thesis by (simp add: match_rule_def st Let_def)
qed

lemma match_loop_Nil [simp]: "match_loop rx mrs sc idx addr [] st = Inr st"
  by (simp add: match_loop.simps)

text \<open>Induction along the candidate loop, one round at a time.\<close>

lemma match_loop_rounds:
  assumes done_: "\<And>st. P [] st"
    and skip: "\<And>cands st. cands \<noteq> [] \<Longrightarrow> rule_at mrs sc (Min (set cands)) = None \<Longrightarrow>
      P (removeAll (Min (set cands)) cands) st \<Longrightarrow> P cands st"
    and step: "\<And>cands st r. cands \<noteq> [] \<Longrightarrow> rule_at mrs sc (Min (set cands)) = Some r \<Longrightarrow>
      (\<And>st' fresh. match_rule rx r addr st = Inr (st', fresh) \<Longrightarrow>
         P (removeAll (Min (set cands)) cands
            @ filter (\<lambda>i. Min (set cands) < i) (concat (map (exact_positions idx) fresh))) st') \<Longrightarrow>
      P cands st"
  shows "P cands st"
proof (induction "remaining idx cands" arbitrary: cands st rule: less_induct)
  case less
  show ?case
  proof (cases "cands = []")
    case True
    then show ?thesis using done_ by simp
  next
    case False
    have smaller: "remaining idx (removeAll (Min (set cands)) cands @ filter (\<lambda>i. Min (set cands) < i) new)
        < remaining idx cands" if "set new \<subseteq> (\<Union>(f, ps) \<in> set (exact idx). set ps)" for new
      using False that by (intro remaining_less) (auto simp: order_less_le)
    show ?thesis
    proof (cases "rule_at mrs sc (Min (set cands))")
      case None
      then show ?thesis using skip [OF False None] less [OF smaller [of "[]"]] by simp
    next
      case (Some r)
      then show ?thesis by (rule step [OF False]) (rule less [OF smaller [OF concat_positions_bound]])
    qed
  qed
qed

lemma match_loop_total:
  assumes "all_evaluable mrs"
  shows "\<exists>st'. match_loop rx mrs sc idx addr cands st = Inr st'"
proof (induction cands st rule: match_loop_rounds [where rx = rx and mrs = mrs and sc = sc and addr = addr and idx = idx])
  case (1 st)
  then show ?case by simp
next
  case (2 cands st)
  then show ?case by (simp add: match_loop_step)
next
  case (3 cands st r)
  then have "evaluable (body r)"
    using assms by (auto simp: rule_at_def all_evaluable_def split: option.splits if_splits)
  then obtain st' fresh where "match_rule rx r addr st = Inr (st', fresh)"
    using match_rule_total [of r rx addr st] by auto
  with 3 show ?case by (simp add: match_loop_step)
qed

text \<open>What every matching rule preserves, the loop preserves.\<close>

lemma match_loop_invariant:
  assumes "match_loop rx mrs sc idx addr cands st = Inr out" "I st"
    and step: "\<And>r st st' fresh. match_rule rx r addr st = Inr (st', fresh) \<Longrightarrow> I st \<Longrightarrow> I st'"
  shows "I out"
  using assms(1,2)
proof (induction cands st rule: match_loop_rounds [where rx = rx and mrs = mrs and sc = sc and addr = addr and idx = idx])
  case (3 cands st r)
  then show ?case using step [of r st] by (auto simp: match_loop_step rbind_Inr_iff)
qed (simp_all add: match_loop_step)

lemma match_scope_results_total:
  assumes "all_evaluable mrs"
  shows "\<exists>res. match_scope_results rx mrs sc fs addr = Inr res"
proof (cases "indexes mrs sc")
  case None
  then show ?thesis by (simp add: match_scope_results_def match_scope_borrowed_def)
next
  case (Some idx)
  obtain st where "match_loop rx mrs sc idx addr (candidates idx fs) (fs, []) = Inr st"
    using match_loop_total [OF assms] by blast
  with Some show ?thesis by (simp add: match_scope_results_def match_scope_borrowed_def)
qed

text \<open>Matches are recorded at the address they were looked for, each rule once.\<close>

definition recorded_at :: "address \<Rightarrow> match_results \<Rightarrow> bool" where
  "recorded_at addr ms \<longleftrightarrow> im_wf (=) ms \<and> (\<forall>e \<in> set ms. snd e \<noteq> [] \<and> (\<forall>m \<in> set (snd e). fst m = addr))"

lemma recorded_at_Nil [simp]: "recorded_at addr []"
  by (simp add: recorded_at_def)

lemma recorded_at_add: "recorded_at addr ms \<Longrightarrow> recorded_at addr (add_result nm addr x ms)"
  unfolding recorded_at_def add_result_def
  by (intro conjI hol.wf_entry im_entry_values [where P = "\<lambda>l. l \<noteq> [] \<and> (\<forall>m \<in> set l. fst m = addr)"]) auto

lemma match_rule_results:
  "match_rule rx r addr st = Inr (st', fresh) \<Longrightarrow>
   snd st' = snd st \<or> (\<exists>x. snd st' = add_result (rule_name r) addr x (snd st))"
  by (auto simp: match_rule_def rbind_Inr_iff Let_def split: prod.splits if_splits)

lemma match_scope_results_recorded:
  assumes "match_scope_results rx mrs sc fs addr = Inr ms"
  shows "recorded_at addr ms"
proof (cases "indexes mrs sc")
  case None
  with assms show ?thesis by (simp add: match_scope_results_def match_scope_borrowed_def)
next
  case (Some idx)
  with assms obtain fs' where "match_loop rx mrs sc idx addr (candidates idx fs) (fs, []) = Inr (fs', ms)"
    by (auto simp: match_scope_results_def match_scope_borrowed_def map_ok_Inr_iff)
  then have "recorded_at addr (snd (fs', ms))"
    by (rule match_loop_invariant) (auto dest!: match_rule_results intro: recorded_at_add)
  then show ?thesis by simp
qed

end
