(* ===== verification/Driver_Props.thy ===== *)
theory Driver_Props
  imports Dynamic_Analysis Bare_Scopes
begin

text \<open>
  Properties of the two matching drivers (\<^verbatim>\<open>capabilities/static_analysis.rs\<close> and
  \<^verbatim>\<open>capabilities/dynamic_analysis.rs\<close>): what promotion publishes whatever the iteration
  order, that lower scopes are visible in the scopes around them, that an analysis cannot
  fail on well-nested rules, and what the sliding span of calls holds.
\<close>

section \<open>Promotion\<close>

text \<open>The locations at which the matches publish a feature.\<close>

definition promoted :: "matching_rule_set \<Rightarrow> match_results \<Rightarrow> feature \<Rightarrow> address set" where
  "promoted mrs ms g =
     (\<Union>(nm, res) \<in> set ms. case mrs_get mrs nm of
        None \<Rightarrow> {}
      | Some r \<Rightarrow> if g \<in> published r then fst ` set res else {})"

abbreviation locs_of :: "feature_set \<Rightarrow> feature \<Rightarrow> address set" where
  "locs_of fs g \<equiv> (case fs_get fs g of None \<Rightarrow> {} | Some l \<Rightarrow> l)"

lemma get_promote_one:
  "fs_get (fold (\<lambda>(a, _) fs. index_rule_matches r {a} fs) res fs) g =
     (if g \<in> published r \<and> res \<noteq> [] then Some (locs_of fs g \<union> fst ` set res) else fs_get fs g)"
  by (induction res arbitrary: fs) (auto simp: get_index_rule_matches)

lemma get_promote_fold:
  "fs_get (fold (\<lambda>(nm, res) fs. case mrs_get mrs nm of None \<Rightarrow> fs
       | Some r \<Rightarrow> fold (\<lambda>(a, _) fs. index_rule_matches r {a} fs) res fs) ms fs) g =
     (if promoted mrs ms g = {} then fs_get fs g else Some (locs_of fs g \<union> promoted mrs ms g))"
proof (induction ms arbitrary: fs)
  case Nil
  then show ?case by (simp add: promoted_def)
next
  case (Cons e ms)
  obtain nm res where e: "e = (nm, res)" by (cases e)
  show ?case
  proof (cases "mrs_get mrs nm")
    case None
    then have "promoted mrs (e # ms) g = promoted mrs ms g" by (simp add: promoted_def e)
    with Cons [of fs] None e show ?thesis by simp
  next
    case (Some r)
    let ?fs = "fold (\<lambda>(a, _) fs. index_rule_matches r {a} fs) res fs"
    have p: "promoted mrs (e # ms) g =
        (if g \<in> published r then fst ` set res else {}) \<union> promoted mrs ms g"
      using Some by (simp add: promoted_def e)
    have "fs_get ?fs g = (if g \<in> published r \<and> res \<noteq> [] then Some (locs_of fs g \<union> fst ` set res) else fs_get fs g)"
      by (rule get_promote_one)
    with Cons [of ?fs] Some e p show ?thesis by (auto simp: Un_assoc)
  qed
qed

lemma promoted_cong: "set ms = set ms' \<Longrightarrow> promoted mrs ms g = promoted mrs ms' g"
  by (simp add: promoted_def)

lemma get_promote_matches:
  assumes "set (it ms) = set ms"
  shows "fs_get (promote_matches it mrs fs ms) g =
    (if promoted mrs ms g = {} then fs_get fs g else Some (locs_of fs g \<union> promoted mrs ms g))"
  unfolding promote_matches_def get_promote_fold promoted_cong [OF assms] by (rule refl)

text \<open>
  Promoting the matches of a scope adds to the feature set, for every matched rule,
  the features its match publishes at the match's addresses, and changes nothing else; in
  particular what is looked up does not depend on the order in which the hash map of the
  matches is iterated.
\<close>

lemma promote_matches_publishes:
  assumes "set (it ms) = set ms"
  shows "fs_get (promote_matches it mrs fs ms) g =
    (if promoted mrs ms g = {} then fs_get fs g else Some (locs_of fs g \<union> promoted mrs ms g))"
  using assms by (rule get_promote_matches)

lemma promote_matches_publishes_witness:
  "let r = basic_rule ''a'' (Some ''n/m'') (scopes.make (Some FunctionScope) None) (Node (Leaf (Api ''x'')) None);
       mrs = matching_rule_set.make [(''a'', r)] Map.empty Map.empty []
   in \<forall>res. fs_get (promote_matches rev mrs [] [(''a'', [(Absolute 1, res)])]) (MatchedRule ''n'') = Some {Absolute 1}"
proof -
  let ?r = "basic_rule ''a'' (Some ''n/m'') (scopes.make (Some FunctionScope) None) (Node (Leaf (Api ''x'')) None)"
  let ?mrs = "matching_rule_set.make [(''a'', ?r)] Map.empty Map.empty []"
  have "MatchedRule ''n'' \<in> published ?r" by (auto simp: published_def rule_namespaces_iff)
  then have "promoted ?mrs [(''a'', [(Absolute 1, res)])] (MatchedRule ''n'') = {Absolute 1}" for res
    by (simp add: promoted_def mrs_get_def matching_rule_set.defs)
  with promote_matches_publishes [of rev "[(''a'', [(Absolute 1, _)])]" ?mrs "[]" "MatchedRule ''n''"]
  show ?thesis unfolding Let_def by simp
qed

section \<open>Lower scopes are visible\<close>

text \<open>Every feature of the first set is in the second, at all its locations.\<close>

definition fs_le :: "feature_set \<Rightarrow> feature_set \<Rightarrow> bool" where
  "fs_le a b \<longleftrightarrow> (\<forall>g ls. fs_get a g = Some ls \<longrightarrow> (\<exists>ls'. fs_get b g = Some ls' \<and> ls \<subseteq> ls'))"

lemma fs_le_refl [simp]: "fs_le a a"
  by (auto simp: fs_le_def)

lemma fs_le_trans: "fs_le a b \<Longrightarrow> fs_le b c \<Longrightarrow> fs_le a c"
  unfolding fs_le_def by (meson order_trans)

lemma fs_le_insert: "fs_le fs (fs_insert f a fs)"
  by (auto simp: fs_le_def get_fs_insert fmap.get_cong split: option.splits)

lemma fs_le_merge_left: "im_wf feature_eq other \<Longrightarrow> fs_le fs (fs_merge fs other)"
  by (auto simp: fs_le_def get_fs_merge split: option.splits)

lemma fs_le_merge_right: "im_wf feature_eq other \<Longrightarrow> fs_le other (fs_merge fs other)"
  by (auto simp: fs_le_def get_fs_merge split: option.splits)

lemma fs_le_seed: "fs_le fs (seed fs feats globals)"
proof -
  have a: "fs_le fs (fold (\<lambda>(a, f) fs. fs_insert f a fs) feats fs)" for feats fs
    by (induction feats arbitrary: fs) (auto intro: fs_le_trans fs_le_insert)
  have "fs_le fs (fold (\<lambda>f fs. fs_insert f NoAddress fs) globals fs)" for globals fs
    by (induction globals arbitrary: fs) (auto intro: fs_le_trans fs_le_insert)
  with a show ?thesis unfolding seed_def by (blast intro: fs_le_trans)
qed

lemma fs_le_promote: "fs_le fs (promote_matches it mrs fs ms)"
  by (auto simp: fs_le_def promote_matches_def get_promote_fold)

lemma wf_fold:
  "(\<And>x fs. im_wf feature_eq fs \<Longrightarrow> im_wf feature_eq (h x fs)) \<Longrightarrow> im_wf feature_eq fs \<Longrightarrow>
   im_wf feature_eq (fold h xs fs)"
  by (induction xs arbitrary: fs) simp_all

lemma wf_seed: "im_wf feature_eq fs \<Longrightarrow> im_wf feature_eq (seed fs feats globals)"
  unfolding seed_def by (intro wf_fold) (auto simp: case_prod_beta)

lemma wf_index_rule_matches: "im_wf feature_eq fs \<Longrightarrow> im_wf feature_eq (index_rule_matches r ls fs)"
  by (auto simp: index_rule_matches_def Let_def intro!: wf_fold split: option.split)

lemma wf_promote: "im_wf feature_eq fs \<Longrightarrow> im_wf feature_eq (promote_matches it mrs fs ms)"
  unfolding promote_matches_def
  by (intro wf_fold) (auto simp: case_prod_beta intro!: wf_fold wf_index_rule_matches split: option.split)

lemmas fs_wf = wf_seed wf_promote wf_index_rule_matches

lemma instruction_features_wf:
  "find_instruction_capabilities rx it mrs a feats globals = Inr (fs, ms) \<Longrightarrow> im_wf feature_eq fs"
  by (auto simp: find_instruction_capabilities_def Let_def rbind_Inr_iff intro!: fs_wf)

text \<open>A run of the instruction loop: what went in is visible in what comes out.\<close>

lemma instruction_loop:
  assumes "fold_result (\<lambda>(insn_addr, insn) (fs, insn_matches).
              rbind (find_instruction_capabilities rx it mrs insn_addr (insn_features insn) globals)
                (\<lambda>(insn_fs, matches).
                  Inr (merge_owned fs insn_fs, extend_matches it insn_matches matches)))
            insns (fs0, ms0) = Inr (fs, ms)"
  shows "fs_le fs0 fs \<and> (im_wf feature_eq fs0 \<longrightarrow> im_wf feature_eq fs) \<and> (\<forall>(a, insn) \<in> set insns. \<exists>ifs ims.
    find_instruction_capabilities rx it mrs a (insn_features insn) globals = Inr (ifs, ims) \<and> fs_le ifs fs)"
  using assms
proof (induction insns arbitrary: fs0 ms0)
  case Nil
  then show ?case by simp
next
  case (Cons x insns)
  obtain a insn where x: "x = (a, insn)" by (cases x)
  from Cons.prems obtain ifs ims
    where i: "find_instruction_capabilities rx it mrs a (insn_features insn) globals = Inr (ifs, ims)"
      and rec: "fold_result (\<lambda>(insn_addr, insn) (fs, insn_matches).
              rbind (find_instruction_capabilities rx it mrs insn_addr (insn_features insn) globals)
                (\<lambda>(insn_fs, matches).
                  Inr (merge_owned fs insn_fs, extend_matches it insn_matches matches)))
            insns (merge_owned fs0 ifs, extend_matches it ms0 ims) = Inr (fs, ms)"
    by (auto simp: x rbind_Inr_iff)
  note IH = Cons.IH [OF rec]
  have wf: "im_wf feature_eq ifs" by (rule instruction_features_wf [OF i])
  have "fs_le fs0 (merge_owned fs0 ifs)" "fs_le ifs (merge_owned fs0 ifs)"
    using wf by (simp_all add: merge_owned_eq_merge fs_le_merge_left fs_le_merge_right)
  with IH have "fs_le fs0 fs" "fs_le ifs fs" using fs_le_trans by blast+
  with IH i x show ?case by (auto simp: merge_owned_eq_merge)
qed

text \<open>
  Whatever is found in an instruction is visible in its basic block: every feature of
  the instruction at all its locations, and every rule that matched the instruction as a
  match feature at the instruction's match addresses.
\<close>

lemma basic_block_sees_instructions:
  assumes "find_basic_block_capabilities rx it mrs bb_addr bb globals = Inr (fs, bb_matches, insn_matches)"
    and "(a, insn) \<in> set (instructions bb)" and "\<And>ms. set (it ms) = set ms"
  shows "\<exists>ifs ims. find_instruction_capabilities rx it mrs a (insn_features insn) globals = Inr (ifs, ims)
    \<and> fs_le ifs fs
    \<and> (\<forall>nm res r. (nm, res) \<in> set ims \<and> res \<noteq> [] \<and> mrs_get mrs nm = Some r \<longrightarrow>
         (\<exists>ls. fs_get fs (MatchedRule (rule_name r)) = Some ls \<and> fst ` set res \<subseteq> ls))"
proof -
  from assms(1) obtain fs0 where
    loop: "fold_result (\<lambda>(insn_addr, insn) (fs, insn_matches).
              rbind (find_instruction_capabilities rx it mrs insn_addr (insn_features insn) globals)
                (\<lambda>(insn_fs, matches).
                  Inr (merge_owned fs insn_fs, extend_matches it insn_matches matches)))
            (instructions bb) ([], []) = Inr (fs0, insn_matches)"
    and fs: "fs = promote_matches it mrs (seed fs0 (bb_features bb) globals) bb_matches"
    by (auto simp: find_basic_block_capabilities_def rbind_Inr_iff Let_def)
  have up: "fs_le fs0 fs" unfolding fs by (rule fs_le_trans [OF fs_le_seed fs_le_promote])
  from instruction_loop [OF loop] assms(2) obtain ifs ims
    where i: "find_instruction_capabilities rx it mrs a (insn_features insn) globals = Inr (ifs, ims)"
      and le: "fs_le ifs fs0" by auto
  have le': "fs_le ifs fs" by (rule fs_le_trans [OF le up])
  have "\<exists>ls. fs_get fs (MatchedRule (rule_name r)) = Some ls \<and> fst ` set res \<subseteq> ls"
    if m: "(nm, res) \<in> set ims" "res \<noteq> []" "mrs_get mrs nm = Some r" for nm res r
  proof -
    let ?g = "MatchedRule (rule_name r)"
    from i obtain gs where ifs: "ifs = promote_matches it mrs gs ims"
      by (auto simp: find_instruction_capabilities_def Let_def rbind_Inr_iff)
    have sub: "fst ` set res \<subseteq> promoted mrs ims ?g"
      using m by (force simp: promoted_def published_def)
    then have "promoted mrs ims ?g \<noteq> {}" using m(2) by (cases res) auto
    then have "fs_get ifs ?g = Some (locs_of gs ?g \<union> promoted mrs ims ?g)"
      unfolding ifs by (simp add: get_promote_matches [where it = it, OF assms(3)])
    with le' sub show ?thesis unfolding fs_le_def by (meson Un_upper2 order_trans)
  qed
  with i le' show ?thesis by blast
qed

section \<open>An analysis of well-nested rules does not fail\<close>

lemma rbind_total: "\<exists>x. r = Inr x \<Longrightarrow> (\<And>x. \<exists>y. h x = Inr y) \<Longrightarrow> \<exists>y. rbind r h = Inr y"
  by (auto simp: rbind_Inr_iff)

lemma fold_result_total: "(\<And>x s. \<exists>t. h x s = Inr t) \<Longrightarrow> \<exists>t. fold_result h xs s = Inr t"
  by (induction xs arbitrary: s) (auto intro: rbind_total)

lemma case_prod_total:
  "(\<And>a b. p = (a, b) \<Longrightarrow> \<exists>y. h a b = Inr y) \<Longrightarrow> \<exists>y. (case p of (a, b) \<Rightarrow> h a b) = Inr y"
  by (cases p) simp

lemma case_prod_app_total:
  "(\<And>a b. p = (a, b) \<Longrightarrow> \<exists>y. h a b s = Inr y) \<Longrightarrow> \<exists>y. (case p of (a, b) \<Rightarrow> h a b) s = Inr y"
  by (cases p) simp

lemma Inr_total: "\<exists>y. Inr x = Inr y"
  by simp

lemmas total_intros = rbind_total fold_result_total case_prod_total case_prod_app_total Inr_total

named_theorems driver_total \<open>driver functions that always return\<close>

lemma find_instruction_total [driver_total]:
  "all_evaluable mrs \<Longrightarrow> \<exists>y. find_instruction_capabilities rx it mrs a feats globals = Inr y"
  unfolding find_instruction_capabilities_def Let_def
  by (intro total_intros match_scope_results_total; assumption)

lemma find_basic_block_total [driver_total]:
  "all_evaluable mrs \<Longrightarrow> \<exists>y. find_basic_block_capabilities rx it mrs a bb globals = Inr y"
  unfolding find_basic_block_capabilities_def Let_def
  by (intro total_intros driver_total match_scope_results_total; assumption)

lemma find_code_total [driver_total]:
  "all_evaluable mrs \<Longrightarrow> \<exists>y. find_code_capabilities rx it mrs a fn globals = Inr y"
  unfolding find_code_capabilities_def Let_def
  by (intro total_intros driver_total match_scope_results_total; assumption)

lemma find_file_total [driver_total]:
  "all_evaluable mrs \<Longrightarrow> \<exists>y. find_file_capabilities rx mrs feats globals lower = Inr y"
  unfolding find_file_capabilities_def Let_def
  by (intro total_intros match_scope_results_total; assumption)

lemma find_call_total [driver_total]:
  "all_evaluable mrs \<Longrightarrow> \<exists>y. find_call_capabilities rx it mrs a feats globals = Inr y"
  unfolding find_call_capabilities_def Let_def
  by (intro total_intros match_scope_results_total; assumption)

lemma span_next_total [driver_total]:
  "all_evaluable mrs \<Longrightarrow> \<exists>y. span_next rx it mrs a fs sm = Inr y"
  unfolding span_next_def Let_def by (intro total_intros match_scope_results_total; assumption)

lemma find_thread_total [driver_total]:
  "all_evaluable mrs \<Longrightarrow> \<exists>y. find_thread_capabilities rx it mrs a th globals = Inr y"
  unfolding find_thread_capabilities_def Let_def
  by (intro total_intros driver_total match_scope_results_total; assumption)

lemma find_process_total [driver_total]:
  "all_evaluable mrs \<Longrightarrow> \<exists>y. find_process_capabilities rx it mrs a pr globals = Inr y"
  unfolding find_process_capabilities_def Let_def
  by (intro total_intros driver_total match_scope_results_total; assumption)

lemma find_dynamic_total:
  "all_evaluable mrs \<Longrightarrow> \<exists>y. find_dynamic_capabilities rx it mrs fz = Inr y"
  unfolding find_dynamic_capabilities_def Let_def
  by (intro total_intros driver_total; assumption)

lemma traverse_total: "(\<And>x. \<exists>y. h x = Inr y) \<Longrightarrow> \<exists>ys. traverse h xs = Inr ys"
  unfolding traverse_def collect_total_iff by blast

lemma map_err_total: "\<exists>y. r = Inr y \<Longrightarrow> \<exists>y. map_err h r = Inr y"
  by (cases r) auto

lemma find_static_total:
  "all_evaluable mrs \<Longrightarrow> \<exists>y. find_static_capabilities rx it mrs fz = Inr y"
  unfolding find_static_capabilities_def Let_def
  by (intro total_intros traverse_total map_err_total driver_total; assumption)

text \<open>
  C4: no analysis of a static or a dynamic sample fails, whatever its features, when no
  rule and no nested scope of a rule consists of a nested scope alone.
\<close>

theorem analysis_never_fails:
  assumes "MatchingRuleSet_new yl db rules = Inr mrs" "\<forall>r \<in> set rules. well_nested (body r)"
  shows "(\<exists>caps. find_static_capabilities rx it mrs sfz = Inr caps)
    \<and> (\<exists>caps. find_dynamic_capabilities rx it mrs dfz = Inr caps)"
  using find_static_total find_dynamic_total all_evaluable_new [OF assms] by blast

text \<open>A concrete rule set for the witnesses below: one rule on an API name.\<close>

lemma sample_rules:
  fixes yl :: yaml_lib
  obtains mrs where
    "MatchingRuleSet_new yl (\<lambda>_ _. None)
       [basic_rule ''a'' None (scopes.make (Some FunctionScope) None) (Node (Leaf (Api ''x'')) None)] = Inr mrs"
    "all_evaluable mrs"
proof -
  let ?r = "basic_rule ''a'' None (scopes.make (Some FunctionScope) None) (Node (Leaf (Api ''x'')) None)"
  from lone_rule_accepted [OF refl] obtain mrs where mrs: "MatchingRuleSet_new yl (\<lambda>_ _. None) [?r] = Inr mrs" by blast
  moreover have "all_evaluable mrs"
    by (rule all_evaluable_new [OF mrs]) (simp add: well_nested_def root_subscope_def)
  ultimately show thesis by (rule that)
qed

theorem analysis_never_fails_witness:
  "\<forall>(yl :: yaml_lib) rx. \<exists>mrs. MatchingRuleSet_new yl (\<lambda>_ _. None)
       [basic_rule ''a'' None (scopes.make (Some FunctionScope) None) (Node (Leaf (Api ''x'')) None)] = Inr mrs
     \<and> (\<exists>caps. find_static_capabilities rx rev mrs (static_features.make NoAddress (sample_hashes.make [] [] []) [] []
            [(Absolute 1, function_features.make [(Absolute 2, Api ''x'')] [])]) = Inr caps)"
proof (intro allI)
  fix yl :: yaml_lib and rx
  let ?r = "basic_rule ''a'' None (scopes.make (Some FunctionScope) None) (Node (Leaf (Api ''x'')) None)"
  obtain mrs where mrs: "MatchingRuleSet_new yl (\<lambda>_ _. None) [?r] = Inr mrs" by (rule sample_rules)
  have "\<forall>r \<in> set [?r]. well_nested (body r)" by (simp add: well_nested_def root_subscope_def)
  from analysis_never_fails [OF mrs this] mrs
  show "\<exists>mrs. MatchingRuleSet_new yl (\<lambda>_ _. None) [?r] = Inr mrs
     \<and> (\<exists>caps. find_static_capabilities rx rev mrs (static_features.make NoAddress (sample_hashes.make [] [] []) [] []
            [(Absolute 1, function_features.make [(Absolute 2, Api ''x'')] [])]) = Inr caps)"
    by blast
qed

lemma basic_block_sees_instructions_witness:
  "\<forall>(yl :: yaml_lib) rx. \<exists>mrs fs bbm im ifs ims. MatchingRuleSet_new yl (\<lambda>_ _. None)
       [basic_rule ''a'' None (scopes.make (Some FunctionScope) None) (Node (Leaf (Api ''x'')) None)] = Inr mrs
     \<and> find_basic_block_capabilities rx rev mrs (Absolute 1)
          (basic_block_features.make [] [(Absolute 2, instruction_features.make [(Absolute 2, Mnemonic ''nop'')])]) []
        = Inr (fs, bbm, im)
     \<and> find_instruction_capabilities rx rev mrs (Absolute 2) [(Absolute 2, Mnemonic ''nop'')] [] = Inr (ifs, ims)
     \<and> fs_le ifs fs"
proof (intro allI)
  fix yl :: yaml_lib and rx
  let ?r = "basic_rule ''a'' None (scopes.make (Some FunctionScope) None) (Node (Leaf (Api ''x'')) None)"
  let ?insn = "instruction_features.make [(Absolute 2, Mnemonic ''nop'')]"
  let ?bb = "basic_block_features.make [] [(Absolute 2, ?insn)]"
  obtain mrs where mrs: "MatchingRuleSet_new yl (\<lambda>_ _. None) [?r] = Inr mrs" "all_evaluable mrs"
    by (rule sample_rules)
  obtain fs bbm im where bb: "find_basic_block_capabilities rx rev mrs (Absolute 1) ?bb [] = Inr (fs, bbm, im)"
    using find_basic_block_total [OF mrs(2), of rx rev "Absolute 1" ?bb "[]"] by auto
  have "(Absolute 2, ?insn) \<in> set (instructions ?bb)" by (simp add: basic_block_features.defs)
  from basic_block_sees_instructions [OF bb this] mrs(1) bb
  show "\<exists>mrs fs bbm im ifs ims. MatchingRuleSet_new yl (\<lambda>_ _. None) [?r] = Inr mrs
     \<and> find_basic_block_capabilities rx rev mrs (Absolute 1) ?bb [] = Inr (fs, bbm, im)
     \<and> find_instruction_capabilities rx rev mrs (Absolute 2) [(Absolute 2, Mnemonic ''nop'')] [] = Inr (ifs, ims)
     \<and> fs_le ifs fs"
    by (simp add: instruction_features.defs) blast
qed

end
