(* ===== verification/Span_Props.thy ===== *)
theory Span_Props
  imports Driver_Props
begin

text \<open>
  Properties of the sliding span of calls (\<^verbatim>\<open>SpanOfCallsMatcher\<close> of
  \<^verbatim>\<open>capabilities/dynamic_analysis.rs\<close>): the incrementally maintained features are those of
  the last calls, and a rule that keeps matching is recorded once.
\<close>

section \<open>The window\<close>

text \<open>The lookups in the union of the feature sets of a window.\<close>

definition window_get :: "feature_set list \<Rightarrow> feature \<Rightarrow> address set option" where
  "window_get w g =
     (if \<exists>fs \<in> set w. fs_get fs g \<noteq> None then Some (\<Union>fs \<in> set w. locs_of fs g) else None)"

text \<open>
  The calls of a thread as a trace reports them: a feature is either global, without an
  address in every call, or it has an address wherever it occurs; and no two calls report
  it at the same address.
\<close>

definition separate_at :: "feature_set list \<Rightarrow> feature \<Rightarrow> bool" where
  "separate_at css g \<longleftrightarrow>
     ((\<forall>fs \<in> set css. NoAddress \<in> locs_of fs g)
      \<or> (\<forall>fs \<in> set css. \<forall>ls. fs_get fs g = Some ls \<longrightarrow> ls \<noteq> {} \<and> NoAddress \<notin> ls))
     \<and> sorted_wrt (\<lambda>a b. locs_of a g \<inter> locs_of b g \<subseteq> {NoAddress}) css"

definition separate :: "feature_set list \<Rightarrow> bool" where
  "separate css \<longleftrightarrow> (\<forall>fs \<in> set css. im_wf feature_eq fs) \<and> (\<forall>g. separate_at css g)"

lemma separate_at_append: "separate_at (a @ b) g \<Longrightarrow> separate_at a g \<and> separate_at b g"
  unfolding separate_at_def sorted_wrt_append by (simp add: ball_Un) blast

lemma separate_append: "separate (a @ b) \<Longrightarrow> separate a \<and> separate b"
  using separate_at_append unfolding separate_def by (simp add: ball_Un) blast

section \<open>Eviction\<close>

lemma wf_evict: "im_wf feature_eq cur \<Longrightarrow> im_wf feature_eq (evict_feature e cur)"
  by (cases e) (simp add: evict_feature_def fmap.wf_remove fmap.wf_entry split: option.split)

definition evicted :: "address set option \<Rightarrow> address set option \<Rightarrow> address set option" where
  "evicted old cur =
     (case (old, cur) of
        (Some ls, Some c) \<Rightarrow>
          if card ls = 1 \<and> NoAddress \<in> ls then Some c else if c - ls = {} then None else Some (c - ls)
      | _ \<Rightarrow> cur)"

lemma evicted_None [simp]: "evicted None cur = cur" "evicted old None = None"
  by (auto simp: evicted_def split: option.split)

lemma get_evict_feature:
  assumes "im_wf feature_eq cur"
  shows "fs_get (evict_feature (f, ls) cur) g =
    (if feature_eq f g then evicted (Some ls) (fs_get cur g) else fs_get cur g)"
  using assms fmap.get_cong [of f g cur]
  by (auto simp: evict_feature_def evicted_def fmap.get_remove fmap.get_entry split: option.split)

lemma get_fold_evict:
  "im_wf feature_eq old \<Longrightarrow> im_wf feature_eq cur \<Longrightarrow>
   fs_get (fold evict_feature old cur) g = evicted (fs_get old g) (fs_get cur g)"
proof (induction old arbitrary: cur)
  case Nil
  then show ?case by simp
next
  case (Cons e old)
  obtain f ls where e: "e = (f, ls)" by (cases e)
  have "fs_get (fold evict_feature old (evict_feature e cur)) g =
      evicted (fs_get old g) (fs_get (evict_feature e cur) g)"
    using Cons wf_evict e by simp
  moreover have "feature_eq f g \<Longrightarrow> fs_get old g = None"
    using Cons.prems(1) e by (auto intro: fmap.get_Cons_wf)
  ultimately show ?case
    using get_evict_feature [OF Cons.prems(2), of f ls g] e feature_eq_sym by auto
qed

lemma wf_fold_evict: "im_wf feature_eq cur \<Longrightarrow> im_wf feature_eq (fold evict_feature old cur)"
  by (rule wf_fold [OF wf_evict])

section \<open>Sliding\<close>

text \<open>The oldest call leaves and a new one enters: the lookups remain those of the window.\<close>

lemma window_get_slide:
  assumes "separate_at (old # w @ [c]) g"
  shows "(case fs_get c g of
            None \<Rightarrow> evicted (fs_get old g) (window_get (old # w) g)
          | Some lc \<Rightarrow> Some ((case evicted (fs_get old g) (window_get (old # w) g) of
                               None \<Rightarrow> {} | Some l \<Rightarrow> l) \<union> lc))
    = window_get (w @ [c]) g"
proof (cases "fs_get old g")
  case None
  then show ?thesis by (auto simp: window_get_def split: option.splits)
next
  case (Some ls)
  let ?U = "\<Union>fs \<in> set w. locs_of fs g"
  have cur: "window_get (old # w) g = Some (ls \<union> ?U)" using Some by (simp add: window_get_def)
  have dis: "ls \<inter> locs_of c g \<subseteq> {NoAddress}" "ls \<inter> ?U \<subseteq> {NoAddress}"
    using assms Some unfolding separate_at_def by auto
  have lone: "ls = {NoAddress}" if "card ls = 1" "NoAddress \<in> ls"
    using that by (metis card_1_singletonE singletonD)
  from assms consider
    (all) "\<forall>fs \<in> set (old # w @ [c]). NoAddress \<in> locs_of fs g"
  | (no) "\<forall>fs \<in> set (old # w @ [c]). \<forall>ls. fs_get fs g = Some ls \<longrightarrow> ls \<noteq> {} \<and> NoAddress \<notin> ls"
    unfolding separate_at_def by blast
  then show ?thesis
  proof cases
    case all
    then obtain lc where c: "fs_get c g = Some lc" "NoAddress \<in> lc"
      by (auto split: option.splits)
    then have new: "window_get (w @ [c]) g = Some (?U \<union> lc)" by (auto simp: window_get_def)
    show ?thesis using dis(2) c(2) lone by (auto simp: c(1) Some cur new evicted_def)
  next
    case no
    then have ls: "ls \<noteq> {}" "NoAddress \<notin> ls" using Some by auto
    with dis have U: "(ls \<union> ?U) - ls = ?U" by auto
    have ne: "(\<exists>fs \<in> set w. fs_get fs g \<noteq> None) \<longleftrightarrow> ?U \<noteq> {}"
      using no by (auto split: option.splits)
    show ?thesis unfolding Some cur evicted_def using U ls(2) ne
      by (auto simp: window_get_def split: option.splits)
  qed
qed

lemma window_get_enter:
  "(case fs_get c g of
      None \<Rightarrow> window_get w g
    | Some lc \<Rightarrow> Some ((case window_get w g of None \<Rightarrow> {} | Some l \<Rightarrow> l) \<union> lc))
   = window_get (w @ [c]) g"
  by (auto simp: window_get_def split: option.splits)

definition span_inv :: "feature_set list \<Rightarrow> span_matcher \<Rightarrow> bool" where
  "span_inv css sm \<longleftrightarrow>
     current_feature_sets sm = drop (length css - SPAN_SIZE) css
     \<and> im_wf feature_eq (current_features sm)
     \<and> (\<forall>g. fs_get (current_features sm) g = window_get (current_feature_sets sm) g)"

lemma span_inv_new: "span_inv [] span_new"
  by (simp add: span_inv_def span_new_def span_matcher.defs window_get_def)

lemma span_inv_record [simp]: "span_inv css (span_record it mrs ms sm) = span_inv css sm"
  by (simp add: span_inv_def span_record_def Let_def)

lemma span_inv_slide:
  assumes inv: "span_inv css sm" and sep: "separate (css @ [c])"
  shows "span_inv (css @ [c]) (span_slide c sm)"
proof (cases "length css < SPAN_SIZE")
  case True
  with inv have sets: "current_feature_sets sm = css" and cur: "\<And>g. window_get css g = fs_get (current_features sm) g"
    by (simp_all add: span_inv_def)
  have "fs_get (fs_merge (current_features sm) c) g = window_get (css @ [c]) g" for g
    using sep window_get_enter [where c = c and g = g and w = css] unfolding cur by (simp add: get_fs_merge separate_def)
  with True inv sets show ?thesis by (simp add: span_inv_def span_slide_def Let_def)
next
  case False
  let ?w = "drop (length css - SPAN_SIZE) css"
  have len: "length ?w = SPAN_SIZE" using False by simp
  moreover have "SPAN_SIZE > 0" by (simp add: SPAN_SIZE_def)
  ultimately obtain old w where w: "?w = old # w" by (cases ?w) auto
  have sets: "current_feature_sets sm = old # w" using inv w by (simp add: span_inv_def)
  have "separate (take (length css - SPAN_SIZE) css @ (old # w @ [c]))"
    using sep w by (metis append.assoc append_Cons append_take_drop_id)
  then have sep': "separate (old # w @ [c])" using separate_append by blast
  have get: "fs_get (fold evict_feature old (current_features sm)) g =
      evicted (fs_get old g) (window_get (old # w) g)" for g
    using inv sep' sets by (simp add: get_fold_evict span_inv_def separate_def)
  have "drop (length (css @ [c]) - SPAN_SIZE) (css @ [c]) = drop 1 (drop (length css - SPAN_SIZE) (css @ [c]))"
    using False unfolding drop_drop by (simp add: Suc_diff_le)
  then have win: "drop (length (css @ [c]) - SPAN_SIZE) (css @ [c]) = w @ [c]" using w by simp
  have len': "length (old # w) = SPAN_SIZE" using len w by simp
  have "fs_get (fs_merge (fold evict_feature old (current_features sm)) c) g = window_get (w @ [c]) g" for g
    using sep' window_get_slide [of old w c g, folded get] by (simp add: get_fs_merge separate_def)
  moreover have "im_wf feature_eq (current_features sm)" using inv by (simp add: span_inv_def)
  ultimately show ?thesis
    using win len' by (simp add: span_inv_def span_slide_def Let_def sets wf_fold_evict)
qed

lemma span_inv_run:
  assumes "fold_result (\<lambda>(a, fs). span_next rx it mrs a fs) cs sm0 = Inr sm"
    and "span_inv css sm0" "separate (css @ map snd cs)"
  shows "span_inv (css @ map snd cs) sm"
  using assms
proof (induction cs arbitrary: css sm0)
  case Nil
  then show ?case by simp
next
  case (Cons e cs)
  obtain a fs where e: "e = (a, fs)" by (cases e)
  from Cons.prems(1) e obtain sm1 where next1: "span_next rx it mrs a fs sm0 = Inr sm1"
    and run: "fold_result (\<lambda>(a, fs). span_next rx it mrs a fs) cs sm1 = Inr sm"
    by (auto simp: rbind_Inr_iff)
  have "separate (css @ [fs])" using Cons.prems(3) e separate_append [of "css @ [fs]"] by simp
  with Cons.prems(2) next1 have "span_inv (css @ [fs]) sm1"
    by (auto simp: span_next_def Let_def rbind_Inr_iff span_inv_slide)
  with Cons.IH [OF run, of "css @ [fs]"] Cons.prems(3) e show ?case by simp
qed

section \<open>The calls of a trace\<close>

text \<open>Where the features of a list put a feature.\<close>

abbreviation located_at :: "located \<Rightarrow> feature \<Rightarrow> address set" where
  "located_at feats g \<equiv> {a. \<exists>f. (a, f) \<in> set feats \<and> feature_eq f g}"

lemma get_seed_located:
  "fs_get (fold (\<lambda>(a, f) fs. fs_insert f a fs) feats fs) g =
     (if located_at feats g = {} then fs_get fs g else Some (locs_of fs g \<union> located_at feats g))"
proof (induction feats arbitrary: fs)
  case Nil
  then show ?case by simp
next
  case (Cons e feats)
  obtain a f where e: "e = (a, f)" by (cases e)
  have "located_at (e # feats) g = (if feature_eq f g then {a} else {}) \<union> located_at feats g"
    by (auto simp: e)
  with Cons [of "fs_insert f a fs"] show ?case
    by (auto simp: e get_fs_insert fmap.get_cong [of f g] split: if_splits)
qed

lemma seed_globals:
  "fold (\<lambda>f fs. fs_insert f NoAddress fs) globals fs =
     fold (\<lambda>(a, f) fs. fs_insert f a fs) (map (Pair NoAddress) globals) fs"
  by (induction globals arbitrary: fs) simp_all

text \<open>A call's features are at its own address, and the global ones without an address.\<close>

lemma call_locations:
  assumes "find_call_capabilities rx it mrs a feats globals = Inr (fs, ms)"
    and own: "\<forall>(l, f) \<in> set feats. l = a" and it: "\<And>ms. set (it ms) = set ms"
    and g: "fs_get fs g = Some ls"
  shows "ls \<noteq> {} \<and> ls \<subseteq> {a, NoAddress} \<and> (a \<noteq> NoAddress \<longrightarrow> NoAddress \<in> ls \<longrightarrow> (\<exists>f \<in> set globals. feature_eq f g))"
proof -
  from assms(1) have run: "match_scope_results rx mrs CallScope (seed [] feats globals) a = Inr ms"
    and fs: "fs = promote_matches it mrs (seed [] feats globals) ms"
    by (auto simp: find_call_capabilities_def Let_def rbind_Inr_iff)
  have "promoted mrs ms g \<subseteq> {a}"
    using match_scope_results_recorded [OF run]
    by (fastforce simp: recorded_at_def promoted_def split: option.splits if_splits)
  moreover have "located_at feats g \<subseteq> {a}" using own by auto
  moreover have "located_at (map (Pair NoAddress) globals) g
      = (if \<exists>f \<in> set globals. feature_eq f g then {NoAddress} else {})" by (auto simp: image_iff)
  ultimately show ?thesis
    using g unfolding fs get_promote_matches [where it = it, OF it] seed_def seed_globals get_seed_located
    by (simp split: if_splits) blast+
qed

lemma call_global:
  assumes "find_call_capabilities rx it mrs a feats globals = Inr (fs, ms)"
    and it: "\<And>ms. set (it ms) = set ms" and "f \<in> set globals" "feature_eq f g"
  shows "NoAddress \<in> locs_of fs g"
proof -
  from assms(1) have fs: "fs = promote_matches it mrs (seed [] feats globals) ms"
    by (auto simp: find_call_capabilities_def Let_def rbind_Inr_iff)
  have "NoAddress \<in> located_at (map (Pair NoAddress) globals) g" using assms(3,4) by auto
  then show ?thesis
    unfolding fs get_promote_matches [where it = it, OF it] seed_def seed_globals get_seed_located
    by (simp split: if_splits) blast+
qed

lemma call_features_wf:
  "find_call_capabilities rx it mrs a feats globals = Inr (fs, ms) \<Longrightarrow> im_wf feature_eq fs"
  by (auto simp: find_call_capabilities_def Let_def rbind_Inr_iff intro!: fs_wf)

text \<open>The feature sets of the calls of a thread, as the driver computes them.\<close>

definition call_feature_sets ::
  "regex_lib \<Rightarrow> hash_order \<Rightarrow> matching_rule_set \<Rightarrow> feature list \<Rightarrow> (address \<times> call_features) list
   \<Rightarrow> (address \<times> feature_set) list \<Rightarrow> bool" where
  "call_feature_sets rx it mrs globals trace cs \<longleftrightarrow>
     list_all2 (\<lambda>(a, call) (a', fs). a' = a \<and>
        (\<exists>ms. find_call_capabilities rx it mrs a (cl_features call) globals = Inr (fs, ms))) trace cs"

text \<open>A trace whose calls have distinct addresses and report their features there.\<close>

definition own_addresses :: "(address \<times> call_features) list \<Rightarrow> bool" where
  "own_addresses trace \<longleftrightarrow> distinct (map fst trace) \<and> NoAddress \<notin> set (map fst trace)
     \<and> (\<forall>(a, call) \<in> set trace. \<forall>(l, f) \<in> set (cl_features call). l = a)"

lemma calls_separate:
  assumes calls: "call_feature_sets rx it mrs globals trace cs" and own: "own_addresses trace"
    and it: "\<And>ms. set (it ms) = set ms"
  shows "separate (map snd cs)"
proof -
  have len: "length trace = length cs" using calls by (auto simp: call_feature_sets_def dest: list_all2_lengthD)
  have call: "\<exists>ms. find_call_capabilities rx it mrs (fst (trace ! i)) (cl_features (snd (trace ! i))) globals
      = Inr (snd (cs ! i), ms)" if "i < length cs" for i
    using list_all2_nthD2 [OF calls [unfolded call_feature_sets_def] that] by (simp add: case_prod_beta)
  have at: "fst (trace ! i) \<noteq> NoAddress" "\<forall>(l, f) \<in> set (cl_features (snd (trace ! i))). l = fst (trace ! i)"
    if "i < length cs" for i
  proof -
    have mem: "trace ! i \<in> set trace" using len that by simp
    then have "fst (trace ! i) \<in> set (map fst trace)" by simp
    then show "fst (trace ! i) \<noteq> NoAddress" using own unfolding own_addresses_def by metis
    show "\<forall>(l, f) \<in> set (cl_features (snd (trace ! i))). l = fst (trace ! i)"
      using own mem unfolding own_addresses_def by (auto simp: case_prod_beta)
  qed
  have loc: "ls \<noteq> {} \<and> ls \<subseteq> {fst (trace ! i), NoAddress} \<and> (NoAddress \<in> ls \<longrightarrow> (\<exists>f \<in> set globals. feature_eq f g))"
    if "i < length cs" "fs_get (snd (cs ! i)) g = Some ls" for i g ls
    using call [OF that(1)] at [OF that(1)] call_locations [OF _ _ it that(2)] by blast
  have "separate_at (map snd cs) g" for g
  proof -
    have "locs_of (snd (cs ! i)) g \<inter> locs_of (snd (cs ! j)) g \<subseteq> {NoAddress}" if "i < j" "j < length cs" for i j
    proof -
      have "fst (trace ! i) \<noteq> fst (trace ! j)"
        using own len that nth_eq_iff_index_eq [of "map fst trace" i j] by (auto simp: own_addresses_def)
      moreover have "\<And>k. k < length cs \<Longrightarrow> locs_of (snd (cs ! k)) g \<subseteq> {fst (trace ! k), NoAddress}"
        using loc [of _ g] by (auto split: option.splits)
      note sub = this [of i] this [of j]
      with calculation that show ?thesis by auto
    qed
    moreover have "(\<forall>fs \<in> set (map snd cs). NoAddress \<in> locs_of fs g)
        \<or> (\<forall>fs \<in> set (map snd cs). \<forall>ls. fs_get fs g = Some ls \<longrightarrow> ls \<noteq> {} \<and> NoAddress \<notin> ls)"
    proof (cases "\<exists>f \<in> set globals. feature_eq f g")
      case True
      then obtain f where f: "f \<in> set globals" "feature_eq f g" by blast
      have "NoAddress \<in> locs_of (snd (cs ! i)) g" if "i < length cs" for i
        using call [OF that] call_global [OF _ it f] by blast
      then show ?thesis unfolding all_set_conv_all_nth by simp
    next
      case False
      then have "ls \<noteq> {} \<and> NoAddress \<notin> ls" if "i < length cs" "fs_get (snd (cs ! i)) g = Some ls" for i ls
        using loc [OF that] by blast
      then show ?thesis unfolding all_set_conv_all_nth by simp
    qed
    ultimately show ?thesis by (simp add: separate_at_def sorted_wrt_iff_nth_less)
  qed
  moreover have "\<forall>fs \<in> set (map snd cs). im_wf feature_eq fs"
    using call call_features_wf by (metis (no_types, lifting) in_set_conv_nth length_map nth_map)
  ultimately show ?thesis by (simp add: separate_def)
qed

text \<open>
  C6: the features a span rule is matched against, although they are maintained by adding
  the call that enters and subtracting the call that leaves, are at every call exactly the
  union of the features of the last twenty calls, for a trace whose calls have distinct
  addresses and report their features there.
\<close>

theorem span_window_correct:
  assumes "call_feature_sets rx it mrs globals trace cs" "own_addresses trace" "\<And>ms. set (it ms) = set ms"
    and "fold_result (\<lambda>(a, fs). span_next rx it mrs a fs) cs span_new = Inr sm"
  shows "current_feature_sets sm = drop (length cs - 20) (map snd cs)
    \<and> (\<forall>g. fs_get (current_features sm) g = window_get (drop (length cs - 20) (map snd cs)) g)"
  using span_inv_run [OF assms(4) span_inv_new] calls_separate [OF assms(1,2,3)]
  by (auto simp: span_inv_def SPAN_SIZE_def)

section \<open>Recording span matches\<close>

lemma fold_Diff: "fold (\<lambda>x acc. acc - A x) xs s = s - (\<Union>x \<in> set xs. A x)"
  by (induction xs arbitrary: s) auto

lemma suppressed_iff:
  "nm \<in> suppressed mrs prev ms \<longleftrightarrow> nm \<in> prev \<and>
     \<not> (\<exists>new r. new \<in> set (im_keys ms) \<and> new \<notin> prev \<and> mrs_get mrs new = Some r
          \<and> nm \<in> get_dependencies (mrs_namespaces mrs) (body r))"
proof -
  have "suppressed mrs prev ms = fold (\<lambda>new acc. acc - (case mrs_get mrs new of None \<Rightarrow> {}
      | Some r \<Rightarrow> get_dependencies (mrs_namespaces mrs) (body r))) (filter (\<lambda>nm. nm \<notin> prev) (im_keys ms)) prev"
    unfolding suppressed_def Let_def by (rule fold_cong) (auto split: option.split)
  then show ?thesis unfolding fold_Diff by (auto split: option.splits)
qed

lemma get_record_fold:
  assumes "distinct (map fst ms)"
  shows "im_get (=) (fold (\<lambda>(nm, res) acc. if nm \<in> hidden then acc else im_entry (=) nm [] (\<lambda>l. l @ res) acc) ms acc) nm =
    (case map_of ms nm of
       None \<Rightarrow> im_get (=) acc nm
     | Some res \<Rightarrow> if nm \<in> hidden then im_get (=) acc nm
                   else Some ((case im_get (=) acc nm of None \<Rightarrow> [] | Some l \<Rightarrow> l) @ res))"
  using assms
proof (induction ms arbitrary: acc)
  case Nil
  then show ?case by simp
next
  case (Cons e ms)
  obtain k v where e: "e = (k, v)" by (cases e)
  with Cons.prems have "map_of ms k = None" by (simp add: map_of_eq_None_iff)
  with Cons e show ?case by (auto simp: hol.get_entry split: option.split)
qed

text \<open>
  C11: a span match is recorded at a call unless the rule already matched at the previous
  call and no rule that matches for the first time depends on it; a rule that matches at
  consecutive calls is thus recorded once. Nothing recorded earlier is lost, and the order
  in which the hash map of matches is iterated does not matter.
\<close>

theorem span_matches_recorded_once:
  assumes "distinct (im_keys ms)" "mset (it ms) = mset ms"
  shows "im_get (=) (sp_matches (span_record it mrs ms sm)) nm =
    (case map_of ms nm of
       None \<Rightarrow> im_get (=) (sp_matches sm) nm
     | Some res \<Rightarrow>
         if nm \<in> last_span_matches sm
            \<and> \<not> (\<exists>new r. new \<in> set (im_keys ms) \<and> new \<notin> last_span_matches sm \<and> mrs_get mrs new = Some r
                  \<and> nm \<in> get_dependencies (mrs_namespaces mrs) (body r))
         then im_get (=) (sp_matches sm) nm
         else Some ((case im_get (=) (sp_matches sm) nm of None \<Rightarrow> [] | Some l \<Rightarrow> l) @ res))
    \<and> last_span_matches (span_record it mrs ms sm) = set (im_keys ms)"
proof -
  have d: "distinct (map fst (it ms))"
    using assms by (metis im_keys_def mset_eq_imp_distinct_iff mset_map)
  have "map_of (it ms) = map_of ms"
    using assms d by (metis im_keys_def map_of_inject_set mset_eq_setD)
  then show ?thesis
    unfolding suppressed_iff [symmetric] by (simp add: span_record_def Let_def get_record_fold [OF d])
qed


theorem span_window_correct_witness:
  "\<forall>(yl :: yaml_lib) rx. \<exists>mrs f0 f1 sm. MatchingRuleSet_new yl (\<lambda>_ _. None)
       [basic_rule ''a'' None (scopes.make (Some FunctionScope) None) (Node (Leaf (Api ''x'')) None)] = Inr mrs
     \<and> call_feature_sets rx rev mrs [Os ''windows'']
          [(Absolute 1, call_features.make ''f'' [(Absolute 1, Api ''x'')]), (Absolute 2, call_features.make ''g'' [])]
          [(Absolute 1, f0), (Absolute 2, f1)]
     \<and> fold_result (\<lambda>(a, fs). span_next rx rev mrs a fs) [(Absolute 1, f0), (Absolute 2, f1)] span_new = Inr sm
     \<and> fs_get (current_features sm) (Api ''x'') = window_get [f0, f1] (Api ''x'')"
proof (intro allI)
  fix yl :: yaml_lib and rx
  let ?r = "basic_rule ''a'' None (scopes.make (Some FunctionScope) None) (Node (Leaf (Api ''x'')) None)"
  let ?trace = "[(Absolute 1, call_features.make ''f'' [(Absolute 1, Api ''x'')]), (Absolute 2, call_features.make ''g'' [])]"
  obtain mrs where mrs: "MatchingRuleSet_new yl (\<lambda>_ _. None) [?r] = Inr mrs" "all_evaluable mrs"
    by (rule sample_rules)
  note call = find_call_total [OF mrs(2), where rx = rx and it = rev]
  obtain f0 f1 m0 m1 where
    "find_call_capabilities rx rev mrs (Absolute 1) [(Absolute 1, Api ''x'')] [Os ''windows''] = Inr (f0, m0)"
    "find_call_capabilities rx rev mrs (Absolute 2) [] [Os ''windows''] = Inr (f1, m1)"
    using call [of "Absolute 1" "[(Absolute 1, Api ''x'')]" "[Os ''windows'']"] call [of "Absolute 2" "[]" "[Os ''windows'']"]
    by auto
  then have calls: "call_feature_sets rx rev mrs [Os ''windows''] ?trace [(Absolute 1, f0), (Absolute 2, f1)]"
    by (simp add: call_feature_sets_def call_features.defs)
  have own: "own_addresses ?trace" by (simp add: own_addresses_def call_features.defs)
  obtain sm where sm: "fold_result (\<lambda>(a, fs). span_next rx rev mrs a fs) [(Absolute 1, f0), (Absolute 2, f1)] span_new = Inr sm"
    using fold_result_total [of "\<lambda>(a, fs). span_next rx rev mrs a fs", OF case_prod_app_total, OF span_next_total [OF mrs(2)]]
    by blast
  have "fs_get (current_features sm) (Api ''x'') = window_get [f0, f1] (Api ''x'')"
    using span_window_correct [OF calls own _ sm] by simp
  then show "\<exists>mrs f0 f1 sm. MatchingRuleSet_new yl (\<lambda>_ _. None) [?r] = Inr mrs
     \<and> call_feature_sets rx rev mrs [Os ''windows''] ?trace [(Absolute 1, f0), (Absolute 2, f1)]
     \<and> fold_result (\<lambda>(a, fs). span_next rx rev mrs a fs) [(Absolute 1, f0), (Absolute 2, f1)] span_new = Inr sm
     \<and> fs_get (current_features sm) (Api ''x'') = window_get [f0, f1] (Api ''x'')"
    by (intro exI [of _ mrs] exI [of _ f0] exI [of _ f1] exI [of _ sm] conjI mrs(1) calls sm)
qed

theorem span_matches_recorded_once_witness:
  "im_get (=) (sp_matches (span_record rev (matching_rule_set.make [] Map.empty Map.empty [])
       [(''a'', []), (''b'', [])] (span_new\<lparr>last_span_matches := {''a''}\<rparr>))) ''a'' = None"
  using span_matches_recorded_once [of "[(''a'', []), (''b'', [])]" rev
      "matching_rule_set.make [] Map.empty Map.empty []" "span_new\<lparr>last_span_matches := {''a''}\<rparr>" "''a''"]
  by (simp add: span_new_def span_matcher.defs mrs_get_def matching_rule_set.defs)

end
