(* ===== verification/Grammar.thy ===== *)
theory Grammar
  imports Rules
begin

text \<open>
  \<^verbatim>\<open>capa-x/src/rules/grammar.rs\<close>: the grammar of rule bodies, from YAML values to logic
  trees. The YAML accessor \<^verbatim>\<open>as_str\<close> and the regular expression engines are the parameters
  \<open>yl\<close> and \<open>rx\<close>. The helpers that build the children of a statement take the recursive
  call as their first argument; the recursion is on the size of the mapping.
\<close>

definition DESCRIPTION_SEPARATOR :: string where
  "DESCRIPTION_SEPARATOR = '' = ''"

definition VALID_ARCH :: "string list" where
  "VALID_ARCH = [''i386'', ''amd64'', ''aarch64'', ''any'']"

definition VALID_FORMAT :: "string list" where
  "VALID_FORMAT = [''pe'', ''elf'', ''dotnet'', ''macho'']"

definition VALID_OS :: "string list" where
  "VALID_OS =
     [''hpux'', ''netbsd'', ''linux'', ''hurd'', ''86open'', ''solaris'', ''aix'', ''irix'',
      ''freebsd'', ''tru64'', ''modesto'', ''openbsd'', ''openvms'', ''nsk'', ''aros'', ''fenixos'',
      ''cloud'', ''syllable'', ''nacl'', ''android'', ''dragonfly BSD'', ''illumos'', ''z/os'',
      ''unix'', ''windows'', ''macos'', ''any'']"

datatype raw_scalar = RStr string | RInt int | RBytes "u8 list"

section \<open>Integers, ranges and byte strings\<close>

definition parse_int :: "string \<Rightarrow> rule_error + int" where
  "parse_int s0 =
     (let s = trim s0
      in case strip_prefix ''-0x'' s of
           Some hex \<Rightarrow>
             ok_or (invalid ''invalid hex integer: {s} ({e})'' [s])
               (i128_from_str_radix 16 (CHR ''-'' # hex))
         | None \<Rightarrow>
             (case strip_prefix ''0x'' s of
                Some hex \<Rightarrow>
                  ok_or (invalid ''invalid hex integer: {s} ({e})'' [s]) (i128_from_str_radix 16 hex)
              | None \<Rightarrow>
                  ok_or (invalid ''invalid integer: {s} ({e})'' [s]) (i128_from_str_radix 10 s)))"

text \<open>\<^verbatim>\<open>u32::try_from\<close> and \<^verbatim>\<open>i64::try_from\<close> of an \<^verbatim>\<open>i128\<close>.\<close>

definition u32_try_from :: "int \<Rightarrow> u32 option" where
  "u32_try_from v = (if 0 \<le> v \<and> v < 2 ^ 32 then Some (of_int v) else None)"

definition i64_try_from :: "int \<Rightarrow> int option" where
  "i64_try_from v = (if - (2 ^ 63) \<le> v \<and> v < 2 ^ 63 then Some v else None)"

definition parse_u32 :: "string \<Rightarrow> rule_error + u32" where
  "parse_u32 s =
     rbind (parse_int s) (\<lambda>v. ok_or (invalid ''value out of range: {v}'' [show_int v]) (u32_try_from v))"

definition range_bound :: "string \<Rightarrow> string \<Rightarrow> string \<Rightarrow> rule_error + u32 option" where
  "range_bound negative_msg large_msg spec =
     (if spec = [] then Inr None
      else
        rbind (parse_int spec) (\<lambda>v.
          if v < 0 then Inl (invalid negative_msg [])
          else map_ok Some (ok_or (invalid large_msg [show_int v]) (u32_try_from v))))"

definition parse_range :: "string \<Rightarrow> rule_error + u32 option \<times> u32 option" where
  "parse_range s =
     (if \<not> starts_with s ''('' \<or> \<not> ends_with s '')'' then Inl (invalid ''invalid range: {s}'' [s])
      else
        let inner = take (length s - 2) (drop 1 s);
            (min_spec, max_spec) =
              (case split_once (CHR '','') inner of
                 Some (a, b) \<Rightarrow> (trim a, trim b)
               | None \<Rightarrow> (trim inner, []))
        in rbind (range_bound ''range min less than zero'' ''range min out of range: {v}'' min_spec) (\<lambda>mn.
           rbind (range_bound ''range max less than zero'' ''range max out of range: {v}'' max_spec) (\<lambda>mx.
             case (mn, mx) of
               (Some lo, Some hi) \<Rightarrow>
                 if hi < lo then Inl (invalid ''range max less than min'' []) else Inr (mn, mx)
             | _ \<Rightarrow> Inr (mn, mx))))"

definition parse_count_spec :: "yaml \<Rightarrow> rule_error + u32 option \<times> u32 option" where
  "parse_count_spec value =
     (case value of
        YNumber n \<Rightarrow>
          let count =
            (case num_as_u64 n of
               Some c \<Rightarrow> Some c
             | None \<Rightarrow> (case num_as_i64 n of Some i \<Rightarrow> if 0 \<le> i then Some (nat i) else None | None \<Rightarrow> None))
          in rbind (ok_or (invalid ''unexpected range: {n}'' [num_to_string n]) count) (\<lambda>c.
             rbind (ok_or (invalid ''count out of range: {count}'' [show_nat c]) (u32_try_from (int c))) (\<lambda>w.
               Inr (Some w, Some w)))
      | YString s \<Rightarrow>
          (case strip_suffix '' or more'' s of
             Some pre \<Rightarrow> rbind (parse_u32 (trim pre)) (\<lambda>w. Inr (Some w, None))
           | None \<Rightarrow>
               (case strip_suffix '' or fewer'' s of
                  Some pre \<Rightarrow> rbind (parse_u32 (trim pre)) (\<lambda>w. Inr (None, Some w))
                | None \<Rightarrow>
                    if starts_with s ''('' then parse_range s
                    else Inl (invalid ''unexpected range: {s}'' [s])))
      | _ \<Rightarrow> Inl (invalid ''unexpected range: {other:?}'' []))"

definition parse_bytes :: "string \<Rightarrow> rule_error + u8 list" where
  "parse_bytes s =
     rbind (map_err
              (\<lambda>_. invalid ''unexpected bytes value: must be a valid hex sequence: {s}'' [s])
              (hex_decode (filter (\<lambda>c. c \<noteq> CHR '' '') s))) (\<lambda>bytes.
       if MAX_BYTES_FEATURE_SIZE < length bytes
       then Inl (invalid ''unexpected bytes value: byte sequences must be no larger than {} bytes''
                   [show_nat MAX_BYTES_FEATURE_SIZE])
       else Inr bytes)"

section \<open>Scalars and descriptions\<close>

definition trim_dll_part :: "string \<Rightarrow> string" where
  "trim_dll_part api =
     (if contains_str api ''.#'' then api
      else if count_list api (CHR ''.'') = 1 \<and> \<not> contains_str api ''::''
      then (case split_once (CHR ''.'') api of Some (_, rest) \<Rightarrow> rest | None \<Rightarrow> api)
      else api)"

definition string_factory :: "regex_lib \<Rightarrow> string \<Rightarrow> rule_error + feature" where
  "string_factory rx value =
     (if starts_with value ''/'' \<and> (ends_with value ''/'' \<or> ends_with value ''/i'') \<and> 1 < length value
      then rbind (map_err (\<lambda>m. invalid m []) (regex_compile rx value)) (\<lambda>re. Inr (Str (Regex re)))
      else Inr (Str (Plain value)))"

definition is_description_entry :: "yaml \<Rightarrow> bool" where
  "is_description_entry c =
     (case c of YMapping m \<Rightarrow> length m = 1 \<and> mapping_contains m ''description'' | _ \<Rightarrow> False)"

definition pop_statement_description_entry :: "yaml list \<Rightarrow> rule_error + yaml list \<times> string option" where
  "pop_statement_description_entry cs =
     (if 1 < length (filter is_description_entry cs)
      then Inl (invalid ''statements can only have one description'' [])
      else
        case dropWhile (\<lambda>c. \<not> is_description_entry c) cs of
          [] \<Rightarrow> Inr (cs, None)
        | removed # rest \<Rightarrow>
            let cs' = takeWhile (\<lambda>c. \<not> is_description_entry c) cs @ rest
            in case removed of
                 YMapping m \<Rightarrow>
                   (case mapping_get m ''description'' of
                      Some (YString s) \<Rightarrow> Inr (cs', Some s)
                    | Some _ \<Rightarrow> Inl (invalid ''description must be a string, got: {other:?}'' [])
                    | None \<Rightarrow> Inr (cs', None))
               | _ \<Rightarrow> Inr (cs', None))"

definition sibling_description :: "mapping \<Rightarrow> rule_error + string option" where
  "sibling_description d =
     (case mapping_get d ''description'' of
        None \<Rightarrow> Inr None
      | Some (YString s) \<Rightarrow> Inr (Some s)
      | Some _ \<Rightarrow> Inl (invalid ''description must be a string, got: {other:?}'' []))"

definition as_feature_mapping :: "yaml \<Rightarrow> rule_error + mapping" where
  "as_feature_mapping v =
     (case v of
        YMapping m \<Rightarrow> Inr m
      | _ \<Rightarrow> Inl (invalid ''expected a feature/statement mapping, got: {other:?}'' []))"

definition value_as_plain_str :: "yaml \<Rightarrow> string option" where
  "value_as_plain_str v = (case v of YString s \<Rightarrow> Some s | _ \<Rightarrow> None)"

definition value_to_scalar :: "yaml \<Rightarrow> rule_error + raw_scalar" where
  "value_to_scalar v =
     (case v of
        YString s \<Rightarrow> Inr (RStr s)
      | YNumber n \<Rightarrow>
          (case num_as_i64 n of
             Some i \<Rightarrow> Inr (RInt i)
           | None \<Rightarrow>
               (case num_as_u64 n of
                  Some u \<Rightarrow> Inr (RInt (int u))
                | None \<Rightarrow> Inl (invalid ''unsupported numeric value: {n}'' [num_to_string n])))
      | _ \<Rightarrow> Inl (invalid ''unexpected value type: {other:?}'' []))"

definition is_numeric_value_type :: "string \<Rightarrow> bool" where
  "is_numeric_value_type t =
     (t = ''number'' \<or> t = ''offset'' \<or> starts_with t ''number/'' \<or> starts_with t ''offset/''
      \<or> starts_with t ''operand['' \<and> (ends_with t ''].number'' \<or> ends_with t ''].offset''))"

text \<open>The value and the description of a scalar with an inline description.\<close>

definition split_description :: "string \<Rightarrow> string option \<Rightarrow> rule_error + string \<times> string option" where
  "split_description s sibling =
     (case find_str DESCRIPTION_SEPARATOR s of
        Some idx \<Rightarrow>
          if sibling \<noteq> None then
            Inl (invalid ''unexpected value: {s}, only one description allowed (inline description with {})''
                   [s, DESCRIPTION_SEPARATOR])
          else if drop (idx + length DESCRIPTION_SEPARATOR) s = [] then
            Inl (invalid ''unexpected value: {s}, description cannot be empty'' [s])
          else Inr (take idx s, Some (drop (idx + length DESCRIPTION_SEPARATOR) s))
      | None \<Rightarrow> Inr (s, sibling))"

definition parse_description ::
  "yaml \<Rightarrow> string \<Rightarrow> string option \<Rightarrow> rule_error + raw_scalar \<times> string option" where
  "parse_description r value_type sibling =
     (if value_type = ''string'' then
        (case r of
           YString s \<Rightarrow> Inr (RStr s, sibling)
         | _ \<Rightarrow> Inl (invalid ''ambiguous string value {other:?}, must be defined as explicit string'' []))
      else
        case r of
          YString s \<Rightarrow>
            rbind (split_description s sibling) (\<lambda>(value_str, description).
              if value_type = ''bytes'' then
                rbind (parse_bytes value_str) (\<lambda>bs. Inr (RBytes bs, description))
              else if is_numeric_value_type value_type then
                rbind (map_err
                         (\<lambda>_. invalid ''unexpected value: {value_str}, must begin with numerical value'' [value_str])
                         (parse_int (trim value_str))) (\<lambda>n.
                  Inr (RInt n, description))
              else Inr (RStr value_str, description))
        | _ \<Rightarrow> rbind (value_to_scalar r) (\<lambda>v. Inr (v, sibling)))"

definition expect_string :: "raw_scalar \<Rightarrow> string \<Rightarrow> rule_error + string" where
  "expect_string v field =
     (case v of
        RStr s \<Rightarrow> Inr s
      | _ \<Rightarrow> Inl (invalid ''expected a string value for {field}, got: {other:?}'' [field]))"

definition expect_int :: "raw_scalar \<Rightarrow> string \<Rightarrow> rule_error + int" where
  "expect_int v field =
     (case v of
        RInt n \<Rightarrow> Inr n
      | _ \<Rightarrow> Inl (invalid ''expected a numeric value for {field}, got: {other:?}'' [field]))"

definition expect_bytes :: "raw_scalar \<Rightarrow> string \<Rightarrow> rule_error + u8 list" where
  "expect_bytes v field =
     (case v of
        RBytes b \<Rightarrow> Inr b
      | _ \<Rightarrow> Inl (invalid ''expected a bytes value for {field}, got: {other:?}'' [field]))"

section \<open>Leaf features\<close>

definition parse_operand_index :: "string \<Rightarrow> string \<Rightarrow> rule_error + u8" where
  "parse_operand_index key suf =
     rbind (ok_or (invalid ''invalid operand feature: {key}'' [key])
              (Option.bind (strip_prefix ''operand['' key) (strip_suffix suf))) (\<lambda>index_str.
     rbind (ok_or (invalid ''operand index must be a nonnegative integer'' []) (u8_parse index_str)) (\<lambda>index.
       if MAX_OPERAND_INDEX < index
       then Inl (invalid ''operand index must be between 0 and {}'' [show_nat (unat MAX_OPERAND_INDEX)])
       else Inr index))"

definition feature_from_named_value :: "string \<Rightarrow> raw_scalar \<Rightarrow> rule_error + feature" where
  "feature_from_named_value key value =
     (if key = ''api'' then map_ok Api (expect_string value key)
      else if key = ''substring'' then map_ok (\<lambda>s. Str (Substring s)) (expect_string value key)
      else if key = ''bytes'' then map_ok Bytes (expect_bytes value key)
      else if key = ''number'' then map_ok (\<lambda>n. Number (NInt n)) (expect_int value key)
      else if key = ''offset'' then
        rbind (expect_int value key) (\<lambda>n.
          map_ok Offset (ok_or (invalid ''offset value out of range: {n}'' [show_int n]) (i64_try_from n)))
      else if starts_with key ''operand['' \<and> ends_with key ''].number'' then
        rbind (parse_operand_index key ''].number'') (\<lambda>i.
          map_ok (\<lambda>n. OperandNumber i (NInt n)) (expect_int value key))
      else if starts_with key ''operand['' \<and> ends_with key ''].offset'' then
        rbind (expect_int value key) (\<lambda>n.
        rbind (parse_operand_index key ''].offset'') (\<lambda>i.
          map_ok (OperandOffset i)
            (ok_or (invalid ''operand offset value out of range: {n}'' [show_int n]) (i64_try_from n))))
      else if key = ''mnemonic'' then map_ok Mnemonic (expect_string value key)
      else if key = ''characteristic'' then map_ok Characteristic (expect_string value key)
      else if key = ''export'' then map_ok Export (expect_string value key)
      else if key = ''import'' then map_ok Import (expect_string value key)
      else if key = ''section'' then map_ok Section (expect_string value key)
      else if key = ''match'' then map_ok MatchedRule (expect_string value key)
      else if key = ''function-name'' then map_ok FunctionName (expect_string value key)
      else if key = ''os'' then map_ok Os (expect_string value key)
      else if key = ''format'' then map_ok Format (expect_string value key)
      else if key = ''arch'' then map_ok Arch (expect_string value key)
      else if key = ''class'' then map_ok Class (expect_string value key)
      else if key = ''namespace'' then map_ok Namespace (expect_string value key)
      else if key = ''property'' then map_ok (\<lambda>nm. Property nm None) (expect_string value key)
      else Inl (invalid ''unexpected statement: {other}'' [key]))"

text \<open>The end of every leaf: the feature is checked against the scopes it stands in.\<close>

definition checked_leaf :: "scopes \<Rightarrow> feature \<Rightarrow> string option \<Rightarrow> rule_error + node" where
  "checked_leaf scs f description =
     rbind (ensure_feature_valid_for_scopes scs f) (\<lambda>_. Inr (Node (Leaf f) description))"

definition build_operand ::
  "string \<Rightarrow> string \<Rightarrow> mapping \<Rightarrow> scopes \<Rightarrow> (u8 \<Rightarrow> int \<Rightarrow> rule_error + feature) \<Rightarrow> rule_error + node" where
  "build_operand key suf d scs ctor =
     rbind (parse_operand_index key suf) (\<lambda>index.
     rbind (ok_or (invalid ''missing value for {key}'' [key]) (mapping_get d key)) (\<lambda>raw_value.
     rbind (sibling_description d) (\<lambda>sibling.
     rbind (parse_description raw_value key sibling) (\<lambda>(value, description).
     rbind (expect_int value key) (\<lambda>n.
     rbind (ctor index n) (\<lambda>f.
       checked_leaf scs f description))))))"

definition build_default_leaf ::
  "regex_lib \<Rightarrow> string \<Rightarrow> mapping \<Rightarrow> scopes \<Rightarrow> rule_error + node" where
  "build_default_leaf rx key d scs =
     rbind (ok_or (invalid ''missing value for {key}'' [key]) (mapping_get d key)) (\<lambda>raw_value.
     rbind (sibling_description d) (\<lambda>sibling.
     rbind (parse_description raw_value key sibling) (\<lambda>(value, description).
     rbind (if key = ''api'' then map_ok (\<lambda>s. Api (trim_dll_part s)) (expect_string value key)
            else if key = ''string'' then rbind (expect_string value key) (string_factory rx)
            else feature_from_named_value key value) (\<lambda>f.
       checked_leaf scs f description))))"

section \<open>Counted features\<close>

definition count_term :: "string \<Rightarrow> rule_error + string \<times> string option" where
  "count_term key =
     rbind (ok_or (invalid ''unexpected statement: {key}'' [key])
              (Option.bind (strip_prefix ''count('' key) (strip_suffix '')''))) (\<lambda>inner.
       case find_str ''('' inner of
         Some idx \<Rightarrow>
           rbind (ok_or (invalid ''unexpected statement: {key}'' [key])
                    (strip_suffix '')'' (drop (idx + 1) inner))) (\<lambda>arg.
             Inr (take idx inner, Some arg))
       | None \<Rightarrow> Inr (inner, None))"

definition count_feature ::
  "regex_lib \<Rightarrow> string \<Rightarrow> string option \<Rightarrow> rule_error + feature \<times> string option" where
  "count_feature rx t arg =
     (case arg of
        None \<Rightarrow>
          if t = ''basic blocks'' then Inr (BasicBlock, None)
          else Inl (invalid ''count({term}) requires an argument'' [t])
      | Some raw_arg \<Rightarrow>
          if t = ''string'' then map_ok (\<lambda>f. (f, None)) (string_factory rx raw_arg)
          else
            rbind (parse_description (YString raw_arg) t None) (\<lambda>(value, description).
              let value = (if t = ''api''
                           then (case value of RStr s \<Rightarrow> RStr (trim_dll_part s) | _ \<Rightarrow> value)
                           else value)
              in map_ok (\<lambda>f. (f, description)) (feature_from_named_value t value)))"

definition build_count ::
  "regex_lib \<Rightarrow> string \<Rightarrow> yaml \<Rightarrow> scopes \<Rightarrow> string option \<Rightarrow> rule_error + node" where
  "build_count rx key count_value scs range_description =
     rbind (count_term key) (\<lambda>(t, arg).
     rbind (count_feature rx t arg) (\<lambda>(f, description).
     rbind (ensure_feature_valid_for_scopes scs f) (\<lambda>_.
     rbind (parse_count_spec count_value) (\<lambda>(mn, mx).
       Inr (Node (Range f (case mn of Some w \<Rightarrow> w | None \<Rightarrow> 0) mx)
              (case range_description of Some x \<Rightarrow> Some x | None \<Rightarrow> description))))))"

section \<open>Statements\<close>

fun unique_from :: "feature list \<Rightarrow> node list \<Rightarrow> node list" where
  "unique_from seen [] = []"
| "unique_from seen (n # ns) =
     (case stmt n of
        Leaf f \<Rightarrow>
          if \<exists>sf \<in> set seen. feature_eq sf f then unique_from seen ns
          else n # unique_from (seen @ [f]) ns
      | _ \<Rightarrow> n # unique_from seen ns)"

definition unique_nodes :: "node list \<Rightarrow> node list" where
  "unique_nodes ns = unique_from [] ns"

definition require_seq :: "yaml list option \<Rightarrow> string \<Rightarrow> rule_error + yaml list" where
  "require_seq cs key = ok_or (invalid ''{key} must be a list of child statements'' [key]) cs"

text \<open>The builders of children, for a given builder of one mapping at given scopes.\<close>

definition build_child ::
  "(mapping \<Rightarrow> scopes \<Rightarrow> rule_error + node) \<Rightarrow> scopes \<Rightarrow> yaml \<Rightarrow> rule_error + node" where
  "build_child build scs c = rbind (as_feature_mapping c) (\<lambda>m. build m scs)"

definition build_children ::
  "(mapping \<Rightarrow> scopes \<Rightarrow> rule_error + node) \<Rightarrow> yaml list \<Rightarrow> scopes \<Rightarrow> rule_error + node list" where
  "build_children build cs scs = map_ok unique_nodes (traverse (build_child build scs) cs)"

definition is_dynamic_subscope :: "scope \<Rightarrow> bool" where
  "is_dynamic_subscope sc = (sc \<in> {ProcessScope, ThreadScope, SpanOfCallsScope, CallScope})"

definition sub_scopes :: "scope \<Rightarrow> scopes" where
  "sub_scopes sc =
     (if is_dynamic_subscope sc then \<lparr>sc_static = None, sc_dynamic = Some sc\<rparr>
      else \<lparr>sc_static = Some sc, sc_dynamic = None\<rparr>)"

definition build_subscope ::
  "(mapping \<Rightarrow> scopes \<Rightarrow> rule_error + node) \<Rightarrow> string \<Rightarrow> scope \<Rightarrow> yaml list option \<Rightarrow> scope option
   \<Rightarrow> string \<Rightarrow> string option \<Rightarrow> rule_error + node" where
  "build_subscope build key sc seq_children check_against incompatible_msg description =
     (if \<not> is_subscope_compatible check_against sc then Inl (invalid incompatible_msg [])
      else
        rbind (require_seq seq_children key) (\<lambda>cs.
          case cs of
            [c] \<Rightarrow> map_ok (\<lambda>b. Node (Subscope sc b) description) (build_child build (sub_scopes sc) c)
          | _ \<Rightarrow> Inl (invalid ''subscope must have exactly one child statement'' [])))"

definition build_instruction_subscope ::
  "(mapping \<Rightarrow> scopes \<Rightarrow> rule_error + node) \<Rightarrow> yaml list option \<Rightarrow> scopes \<Rightarrow> string option
   \<Rightarrow> rule_error + node" where
  "build_instruction_subscope build seq_children outer_scopes description =
     (if \<not> is_subscope_compatible (sc_static outer_scopes) InstructionScope
      then Inl (invalid ''`instruction` subscope supported only for `function` and `basic block` scope'' [])
      else
        rbind (require_seq seq_children ''instruction'') (\<lambda>cs.
          let new_scopes = \<lparr>sc_static = Some InstructionScope, sc_dynamic = None\<rparr>
          in map_ok (\<lambda>b. Node (Subscope InstructionScope b) description)
               (case cs of
                  [c] \<Rightarrow> build_child build new_scopes c
                | _ \<Rightarrow> map_ok (\<lambda>built. Node (And built) None) (build_children build cs new_scopes))))"

text \<open>The arms of the key dispatch that build a leaf and have no counted or nested part.\<close>

definition build_property :: "string \<Rightarrow> yaml \<Rightarrow> mapping \<Rightarrow> scopes \<Rightarrow> rule_error + node" where
  "build_property key raw_value d scs =
     (let access_str = drop (length ''property/'') key
      in rbind (ok_or (invalid ''unexpected {key} access {access_str}'' [key, access_str])
                  (access_parse access_str)) (\<lambda>acc.
         rbind (sibling_description d) (\<lambda>sibling.
         rbind (parse_description raw_value key sibling) (\<lambda>(value, description).
         rbind (expect_string value key) (\<lambda>nm.
           checked_leaf scs (Property nm (Some acc)) description)))))"

definition build_com :: "string \<Rightarrow> yaml \<Rightarrow> mapping \<Rightarrow> rule_error + node" where
  "build_com key raw_value d =
     (let com_type_name = drop (length ''com/'') key
      in rbind (ok_or (invalid ''unexpected COM type: {com_type_name}'' [com_type_name])
                  (com_kind_parse com_type_name)) (\<lambda>kind.
         rbind (sibling_description d) (\<lambda>sibling.
         rbind (parse_description raw_value key sibling) (\<lambda>(value, description).
         rbind (expect_string value key) (\<lambda>nm.
           Inr (Node (Leaf (Com kind nm)) description))))))"

definition build_leaf ::
  "regex_lib \<Rightarrow> string \<Rightarrow> yaml \<Rightarrow> mapping \<Rightarrow> scopes \<Rightarrow> rule_error + node" where
  "build_leaf rx key raw_value d scs =
     (let invalid_value = (\<lambda>valid. case value_as_plain_str raw_value of
                                   Some s \<Rightarrow> s \<notin> set valid | None \<Rightarrow> True)
      in if starts_with key ''operand['' \<and> ends_with key ''].number'' then
           build_operand key ''].number'' d scs (\<lambda>i v. Inr (OperandNumber i (NInt v)))
         else if starts_with key ''operand['' \<and> ends_with key ''].offset'' then
           build_operand key ''].offset'' d scs (\<lambda>i v.
             map_ok (OperandOffset i)
               (ok_or (invalid ''operand offset value out of range: {v}'' [show_int v]) (i64_try_from v)))
         else if key = ''os'' \<and> invalid_value VALID_OS then
           Inl (invalid ''unexpected os value {raw_value:?}'' [])
         else if key = ''format'' \<and> invalid_value VALID_FORMAT then
           Inl (invalid ''unexpected format value {raw_value:?}'' [])
         else if key = ''arch'' \<and> invalid_value VALID_ARCH then
           Inl (invalid ''unexpected arch value {raw_value:?}'' [])
         else if starts_with key ''property/'' then build_property key raw_value d scs
         else if starts_with key ''com/'' then build_com key raw_value d
         else build_default_leaf rx key d scs)"

definition process_msg :: string where
  "process_msg = ''`process` subscope supported only for `file` scope''"

definition thread_msg :: string where
  "thread_msg = ''`thread` subscope supported only for the `process` scope''"

definition span_msg :: string where
  "span_msg = ''`span of calls` subscope supported only for the `process` and `thread` scopes''"

definition call_msg :: string where
  "call_msg = ''`call` subscope supported only for the `process`, `thread`, and `call` scopes''"

definition function_msg :: string where
  "function_msg = ''`function` subscope supported only for `file` scope''"

definition basic_block_msg :: string where
  "basic_block_msg = ''`basic block` subscope supported only for `function` scope''"

text \<open>One statement, given the builder of the statements below it.\<close>

definition build_statement ::
  "regex_lib \<Rightarrow> (mapping \<Rightarrow> scopes \<Rightarrow> rule_error + node) \<Rightarrow> string \<Rightarrow> yaml \<Rightarrow> yaml list option
   \<Rightarrow> string option \<Rightarrow> mapping \<Rightarrow> scopes \<Rightarrow> rule_error + node" where
  "build_statement rx build key raw_value cs popped d scs =
     (let compound = (\<lambda>mk. rbind (require_seq cs key) (\<lambda>cs.
                          map_ok (\<lambda>built. Node (mk built) popped) (build_children build cs scs)))
      in if key = ''and'' then compound And
         else if key = ''or'' then compound Or
         else if key = ''not'' then
           rbind (require_seq cs key) (\<lambda>cs.
             case cs of
               [c] \<Rightarrow> map_ok (\<lambda>n. Node (Not n) popped) (build_child build scs c)
             | _ \<Rightarrow> Inl (invalid ''not statement must have exactly one child statement'' []))
         else if key = ''optional'' then compound (SomeOf 0)
         else if key = ''process'' then
           build_subscope build key ProcessScope cs (sc_dynamic scs) process_msg popped
         else if key = ''thread'' then
           build_subscope build key ThreadScope cs (sc_dynamic scs) thread_msg popped
         else if key = ''span of calls'' then
           build_subscope build key SpanOfCallsScope cs (sc_dynamic scs) span_msg popped
         else if key = ''call'' then
           build_subscope build key CallScope cs (sc_dynamic scs) call_msg popped
         else if key = ''function'' then
           build_subscope build key FunctionScope cs (sc_static scs) function_msg popped
         else if key = ''basic block'' then
           build_subscope build key BasicBlockScope cs (sc_static scs) basic_block_msg popped
         else if key = ''instruction'' then build_instruction_subscope build cs scs popped
         else if key = ''string'' then
           (case raw_value of
              YString _ \<Rightarrow> build_default_leaf rx key d scs
            | _ \<Rightarrow> Inl (invalid ''ambiguous string value {other:?}, must be defined as explicit string'' []))
         else if starts_with key ''count('' \<and> ends_with key '')'' then
           rbind (sibling_description d) (build_count rx key raw_value scs)
         else if ends_with key '' or more'' then
           rbind (parse_u32 (trim (take (length key - length '' or more'') key))) (\<lambda>n. compound (SomeOf n))
         else build_leaf rx key raw_value d scs)"

section \<open>The recursion\<close>

text \<open>The mappings directly below a value, which the recursion descends into.\<close>

definition below :: "yaml list option \<Rightarrow> mapping set" where
  "below cs = (case cs of None \<Rightarrow> {} | Some ys \<Rightarrow> {m. YMapping m \<in> set ys})"

lemma as_feature_mapping_Inr: "as_feature_mapping c = Inr m \<longleftrightarrow> c = YMapping m"
  by (auto simp: as_feature_mapping_def split: yaml.splits)

lemma build_child_cong:
  "(\<And>m. c = YMapping m \<Longrightarrow> f m scs = g m scs) \<Longrightarrow> build_child f scs c = build_child g scs c"
  by (auto simp: build_child_def as_feature_mapping_def split: yaml.splits)

lemma build_children_cong:
  "(\<And>m. YMapping m \<in> set cs \<Longrightarrow> f m scs = g m scs) \<Longrightarrow> build_children f cs scs = build_children g cs scs"
  unfolding build_children_def by (intro arg_cong [where f = "map_ok _"] traverse_cong refl build_child_cong) auto

lemma build_statement_cong [fundef_cong]:
  assumes "rx = rx'" "key = key'" "raw_value = raw_value'" "cs = cs'" "popped = popped'" "d = d'" "scs = scs'"
    and eq: "\<And>m ss. m \<in> below cs' \<Longrightarrow> f m ss = g m ss"
  shows "build_statement rx f key raw_value cs popped d scs
    = build_statement rx' g key' raw_value' cs' popped' d' scs'"
proof -
  have child: "build_child f ss c = build_child g ss c" if "cs' = Some ys" "c \<in> set ys" for ss c ys
    by (rule build_child_cong) (use that eq in \<open>auto simp: below_def\<close>)
  have kids: "build_children f ys ss = build_children g ys ss" if "cs' = Some ys" for ss ys
    by (rule build_children_cong) (use that eq in \<open>auto simp: below_def\<close>)
  have sub: "build_subscope f k sc cs' a msg p = build_subscope g k sc cs' a msg p" for k sc a msg p
    by (cases cs') (auto simp: build_subscope_def require_seq_def child split: list.splits)
  have ins: "build_instruction_subscope f cs' ss p = build_instruction_subscope g cs' ss p" for ss p
    by (cases cs') (auto simp: build_instruction_subscope_def Let_def require_seq_def child kids split: list.splits)
  have compound: "rbind (require_seq cs' k) (\<lambda>cs. map_ok (\<lambda>b. Node (mk b) p) (build_children f cs ss))
      = rbind (require_seq cs' k) (\<lambda>cs. map_ok (\<lambda>b. Node (mk b) p) (build_children g cs ss))" for k mk p ss
    by (cases cs') (simp_all add: require_seq_def kids)
  have neg: "rbind (require_seq cs' k) (\<lambda>cs. case cs of [c] \<Rightarrow> map_ok (\<lambda>n. Node (Not n) p) (build_child f ss c) | _ \<Rightarrow> Inl e)
      = rbind (require_seq cs' k) (\<lambda>cs. case cs of [c] \<Rightarrow> map_ok (\<lambda>n. Node (Not n) p) (build_child g ss c) | _ \<Rightarrow> Inl e)"
    for k p ss e
    by (cases cs') (auto simp: require_seq_def child split: list.splits)
  show ?thesis unfolding assms(1-7) build_statement_def Let_def compound neg sub ins by (rule refl)
qed

definition seq_children :: "yaml \<Rightarrow> yaml list option" where
  "seq_children v = (case v of YSequence s \<Rightarrow> Some s | _ \<Rightarrow> None)"

text \<open>The popped description and the remaining children; nothing to pop without children.\<close>

definition pop_description :: "yaml list option \<Rightarrow> rule_error + yaml list option \<times> string option" where
  "pop_description cs =
     (case cs of
        None \<Rightarrow> Inr (None, None)
      | Some ys \<Rightarrow> map_ok (\<lambda>(ys', p). (Some ys', p)) (pop_statement_description_entry ys))"

lemma pop_subset: "pop_statement_description_entry cs = Inr (cs', p) \<Longrightarrow> set cs' \<subseteq> set cs"
proof -
  assume pop: "pop_statement_description_entry cs = Inr (cs', p)"
  have parts: "set (takeWhile (\<lambda>c. \<not> is_description_entry c) cs) \<subseteq> set cs"
    "set (dropWhile (\<lambda>c. \<not> is_description_entry c) cs) \<subseteq> set cs"
    by (auto dest: set_takeWhileD set_dropWhileD)
  from pop have "cs' = cs \<or> (\<exists>c rest. dropWhile (\<lambda>c. \<not> is_description_entry c) cs = c # rest
      \<and> cs' = takeWhile (\<lambda>c. \<not> is_description_entry c) cs @ rest)"
    unfolding pop_statement_description_entry_def Let_def
    by (simp split: if_splits list.splits yaml.splits option.splits)
  then show ?thesis using parts by auto
qed

abbreviation mapping_size :: "mapping \<Rightarrow> nat" where
  "mapping_size m \<equiv> size (YMapping m)"

lemma below_smaller:
  assumes "d = (k, v) # rest" "pop_description (seq_children v) = Inr (cs, p)" "m \<in> below cs"
  shows "mapping_size m < mapping_size d"
proof -
  obtain ys where "v = YSequence ys" "YMapping m \<in> set ys"
    using assms(2,3) by (auto simp: below_def seq_children_def pop_description_def map_ok_Inr_iff
        dest!: pop_subset split: option.splits yaml.splits)
  then have "mapping_size m < size v" using size_list_estimation' [of "YMapping m" ys "mapping_size m" size] by simp
  also have "size v < mapping_size d" by (simp add: assms(1))
  finally show ?thesis .
qed

function build_statements :: "yaml_lib \<Rightarrow> regex_lib \<Rightarrow> mapping \<Rightarrow> scopes \<Rightarrow> rule_error + node" where
  "build_statements yl rx d scs =
     (if 2 < length d then Inl (invalid ''too many statements'' [])
      else
        case d of
          [] \<Rightarrow> Inl (invalid ''empty statement'' [])
        | (key_value, raw_value) # _ \<Rightarrow>
            rbind (ok_or (invalid ''statement key must be a string'' []) (y_as_str yl key_value)) (\<lambda>key.
            rbind (pop_description (seq_children raw_value)) (\<lambda>(cs, popped).
              build_statement rx (build_statements yl rx) key raw_value cs popped d scs)))"
  by pat_completeness auto
termination
  by (relation "measure (\<lambda>(yl, rx, d, scs). mapping_size d)") (use below_smaller [OF refl] in auto)

declare build_statements.simps [simp del]

end
