(* ===== verification/Meta.thy ===== *)
theory Meta
  imports Grammar
begin

text \<open>
  \<^verbatim>\<open>capa-x/src/rules/meta.rs\<close>: a rule from its YAML text. The YAML reader is the parameter
  \<open>yl\<close>, the regular expression engines are \<open>rx\<close>.
\<close>

definition string_field :: "mapping \<Rightarrow> string \<Rightarrow> rule_error + string option" where
  "string_field m key =
     (case mapping_get m key of
        None \<Rightarrow> Inr None
      | Some (YString s) \<Rightarrow> Inr (Some s)
      | Some _ \<Rightarrow> Inl (invalid ''rule.meta.{key} must be a string, got: {other:?}'' [key]))"

definition list_of_strings_or_empty :: "mapping \<Rightarrow> string \<Rightarrow> string \<Rightarrow> rule_error + string list" where
  "list_of_strings_or_empty m key type_error_msg =
     (case mapping_get m key of
        None \<Rightarrow> Inr []
      | Some (YSequence items) \<Rightarrow>
          traverse (\<lambda>v. case v of
                         YString s \<Rightarrow> Inr s
                       | YNumber n \<Rightarrow> Inr (num_to_string n)
                       | _ \<Rightarrow> Inl (invalid ''rule.meta.{key} entries must be strings, got: {other:?}'' [key]))
            items
      | Some _ \<Rightarrow> Inl (invalid type_error_msg []))"

definition mapping_at :: "yaml option \<Rightarrow> string \<Rightarrow> rule_error + mapping" where
  "mapping_at v msg = (case v of Some (YMapping m) \<Rightarrow> Inr m | _ \<Rightarrow> Inl (invalid msg []))"

definition sequence_at :: "yaml option \<Rightarrow> string \<Rightarrow> rule_error + yaml list" where
  "sequence_at v msg = (case v of Some (YSequence s) \<Rightarrow> Inr s | _ \<Rightarrow> Inl (invalid msg []))"

definition parse_scopes :: "yaml_lib \<Rightarrow> string \<Rightarrow> mapping \<Rightarrow> rule_error + scopes" where
  "parse_scopes yl nm meta_map =
     (if mapping_contains meta_map ''scope'' then
        Inl (invalid ''legacy rule detected (rule.meta.scope), please update to the new syntax: {name}'' [nm])
      else
        case mapping_get meta_map ''scopes'' of
          None \<Rightarrow> Inl (invalid ''please specify at least one of this rule's (static/dynamic) scopes'' [])
        | Some (YMapping scopes_map) \<Rightarrow> scopes_from_dict yl scopes_map
        | Some _ \<Rightarrow> Inl (invalid ''the scopes field must contain a dictionary specifying the scopes'' []))"

definition parse_meta :: "yaml_lib \<Rightarrow> string \<Rightarrow> mapping \<Rightarrow> rule_error + rule_meta" where
  "parse_meta yl nm m =
     rbind (list_of_strings_or_empty m ''att&ck'' ''ATT&CK mapping must be a list'') (\<lambda>att.
     rbind (list_of_strings_or_empty m ''mbc'' ''MBC mapping must be a list'') (\<lambda>mb.
     rbind (list_of_strings_or_empty m ''authors'' ''authors must be a list'') (\<lambda>au.
     rbind (list_of_strings_or_empty m ''references'' ''references must be a list'') (\<lambda>refs.
     rbind (list_of_strings_or_empty m ''examples'' ''examples must be a list'') (\<lambda>exs.
     rbind (string_field m ''namespace'') (\<lambda>ns.
     rbind (string_field m ''description'') (\<lambda>descr.
       Inr \<lparr>meta_name = nm, meta_namespace = ns, authors = au,
            meta_description = (case descr of Some s \<Rightarrow> s | None \<Rightarrow> []),
            lib = (case Option.bind (mapping_get m ''lib'') (y_as_bool yl) of Some b \<Rightarrow> b | None \<Rightarrow> False),
            attack = att, mbc = mb, references = refs, examples = exs, meta_raw = m\<rparr>)))))))"

definition rule_from_yaml :: "yaml_lib \<Rightarrow> regex_lib \<Rightarrow> string \<Rightarrow> rule_error + rule" where
  "rule_from_yaml yl rx s =
     rbind (map_err (\<lambda>e. YamlError (Msg e [])) (y_from_str yl s)) (\<lambda>doc.
     rbind (mapping_at (Some doc) ''empty or invalid YAML document'') (\<lambda>doc_map.
     rbind (mapping_at (mapping_get doc_map ''rule'') ''empty or invalid YAML document'') (\<lambda>rule_map.
     rbind (mapping_at (mapping_get rule_map ''meta'') ''rule.meta is required and must be a mapping'') (\<lambda>meta_map.
     rbind (sequence_at (mapping_get rule_map ''features'') ''rule.features is required and must be a list'')
       (\<lambda>features.
     rbind (rbind (string_field meta_map ''name'') (ok_or (invalid ''rule.meta.name is required'' []))) (\<lambda>nm.
     rbind (parse_scopes yl nm meta_map) (\<lambda>scs.
       case features of
         [top_value] \<Rightarrow>
           rbind (mapping_at (Some top_value) ''rule's top level statement must be a mapping'') (\<lambda>top_stmt.
           rbind (parse_meta yl nm meta_map) (\<lambda>mt.
           rbind (build_statements yl rx top_stmt scs) (\<lambda>b.
             Inr \<lparr>rule_name = nm, namespace = meta_namespace mt, meta = mt, rule_scopes = scs,
                  body = b, is_lib = lib mt, source = s\<rparr>)))
       | _ \<Rightarrow> Inl (invalid ''rule must begin with a single top level statement'' []))))))))"

end
