(* ===== verification/Grammar_Props.thy ===== *)
theory Grammar_Props
  imports Meta
begin

text \<open>
  Properties of the rule parser (\<^verbatim>\<open>rules/grammar.rs\<close>, \<^verbatim>\<open>rules/meta.rs\<close>): every tree it
  builds is legal at the scopes of its rule and within the bounds of the feature types, and
  the integer and range notations round-trip.
\<close>

section \<open>Well-formed trees\<close>

text \<open>What the parser guarantees of one feature, apart from its legality at a scope.\<close>

fun feature_bounded :: "regex_lib \<Rightarrow> feature \<Rightarrow> bool" where
  "feature_bounded rx (Bytes bs) = (length bs \<le> MAX_BYTES_FEATURE_SIZE)"
| "feature_bounded rx (Number v) = (\<exists>n. v = NInt n)"
| "feature_bounded rx (Offset n) = (- (2 ^ 63) \<le> n \<and> n < 2 ^ 63)"
| "feature_bounded rx (OperandNumber i v) = (i \<le> MAX_OPERAND_INDEX \<and> (\<exists>n. v = NInt n))"
| "feature_bounded rx (OperandOffset i n) = (i \<le> MAX_OPERAND_INDEX \<and> - (2 ^ 63) \<le> n \<and> n < 2 ^ 63)"
| "feature_bounded rx (Str (Regex re)) = (regex_compile rx (raw re) = Inr re)"
| "feature_bounded rx f = True"

definition feature_ok :: "regex_lib \<Rightarrow> scopes \<Rightarrow> feature \<Rightarrow> bool" where
  "feature_ok rx scs f \<longleftrightarrow> ensure_feature_valid_for_scopes scs f = Inr () \<and> feature_bounded rx f"

text \<open>No two of the features among the children are equal.\<close>

definition leaf_features :: "node list \<Rightarrow> feature list" where
  "leaf_features cs = List.map_filter (\<lambda>n. case stmt n of Leaf f \<Rightarrow> Some f | _ \<Rightarrow> None) cs"

definition unique_leaves :: "node list \<Rightarrow> bool" where
  "unique_leaves cs \<longleftrightarrow> sorted_wrt (\<lambda>f g. \<not> feature_eq f g) (leaf_features cs)"

definition nestable :: "scopes \<Rightarrow> scope \<Rightarrow> bool" where
  "nestable scs sc \<longleftrightarrow>
     (if is_dynamic_subscope sc then is_subscope_compatible (sc_dynamic scs) sc
      else is_subscope_compatible (sc_static scs) sc)"

fun well_formed :: "regex_lib \<Rightarrow> scopes \<Rightarrow> node \<Rightarrow> bool" where
  "well_formed rx scs (Node (And cs) d) = (unique_leaves cs \<and> (\<forall>c \<in> set cs. well_formed rx scs c))"
| "well_formed rx scs (Node (Or cs) d) = (unique_leaves cs \<and> (\<forall>c \<in> set cs. well_formed rx scs c))"
| "well_formed rx scs (Node (SomeOf n cs) d) = (unique_leaves cs \<and> (\<forall>c \<in> set cs. well_formed rx scs c))"
| "well_formed rx scs (Node (Not c) d) = well_formed rx scs c"
| "well_formed rx scs (Node (Range f lo hi) d) = (feature_ok rx scs f \<and> (\<forall>w. hi = Some w \<longrightarrow> lo \<le> w))"
| "well_formed rx scs (Node (Subscope sc c) d) = (nestable scs sc \<and> well_formed rx (sub_scopes sc) c)"
| "well_formed rx scs (Node (Leaf f) d) = feature_ok rx scs f"

section \<open>Leaves\<close>

lemma parse_operand_index_bound: "parse_operand_index key suf = Inr i \<Longrightarrow> i \<le> MAX_OPERAND_INDEX"
  by (auto simp: parse_operand_index_def result_simps split: if_splits)

lemma i64_try_from_Some: "i64_try_from v = Some w \<longleftrightarrow> w = v \<and> - (2 ^ 63) \<le> v \<and> v < 2 ^ 63"
  by (auto simp: i64_try_from_def)

lemma parse_bytes_bound: "parse_bytes s = Inr bs \<Longrightarrow> length bs \<le> MAX_BYTES_FEATURE_SIZE"
  by (auto simp: parse_bytes_def result_simps split: if_splits)

lemma regex_compile_raw: "regex_compile rx s = Inr re \<Longrightarrow> regex_compile rx (raw re) = Inr re"
  by (auto simp: regex_compile_def Let_def split: option.splits if_splits prod.splits)

lemma map_err_Inr_iff [result_simps]: "map_err f r = Inr x \<longleftrightarrow> r = Inr x"
  by (cases r) auto

lemma string_factory_bounded: "string_factory rx s = Inr f \<Longrightarrow> feature_bounded rx f"
  by (auto simp: string_factory_def result_simps dest: regex_compile_raw split: if_splits)

text \<open>A byte scalar comes from \<^verbatim>\<open>parse_bytes\<close>.\<close>

lemma parse_description_bytes:
  "parse_description v t sib = Inr (RBytes bs, d) \<Longrightarrow> length bs \<le> MAX_BYTES_FEATURE_SIZE"
  by (auto simp: parse_description_def value_to_scalar_def result_simps dest: parse_bytes_bound
      split: if_splits yaml.splits option.splits)

lemmas expect_Inr = expect_string_def expect_int_def expect_bytes_def

lemma feature_from_named_value_bounded:
  assumes "feature_from_named_value key value = Inr f"
    and "\<And>bs. value = RBytes bs \<Longrightarrow> length bs \<le> MAX_BYTES_FEATURE_SIZE"
  shows "feature_bounded rx f"
  using assms unfolding feature_from_named_value_def
  by (auto simp: result_simps expect_Inr i64_try_from_Some dest: parse_operand_index_bound
      split: if_splits raw_scalar.splits)

lemma checked_leaf_ok:
  "checked_leaf scs f d = Inr n \<Longrightarrow> feature_bounded rx f \<Longrightarrow> well_formed rx scs n"
  by (auto simp: checked_leaf_def result_simps feature_ok_def)

lemma build_operand_ok:
  assumes "build_operand key suf d scs ctor = Inr n"
    and "\<And>i v f. i \<le> MAX_OPERAND_INDEX \<Longrightarrow> ctor i v = Inr f \<Longrightarrow> feature_bounded rx f"
  shows "well_formed rx scs n"
  using assms by (auto simp: build_operand_def result_simps dest!: parse_operand_index_bound intro: checked_leaf_ok)

lemma build_default_leaf_ok:
  assumes "build_default_leaf rx key d scs = Inr n"
  shows "well_formed rx scs n"
proof -
  from assms obtain v sib x descr f where
    pd: "parse_description v key sib = Inr (x, descr)" and
    f: "(if key = ''api'' then map_ok (\<lambda>s. Api (trim_dll_part s)) (expect_string x key)
         else if key = ''string'' then rbind (expect_string x key) (string_factory rx)
         else feature_from_named_value key x) = Inr f" and
    leaf: "checked_leaf scs f descr = Inr n"
    unfolding build_default_leaf_def by (auto simp: result_simps)
  have "feature_bounded rx f"
    using f parse_description_bytes pd
    by (auto simp: result_simps dest: string_factory_bounded split: if_splits
        intro: feature_from_named_value_bounded)
  with leaf show ?thesis by (rule checked_leaf_ok)
qed

lemma build_leaf_ok: "build_leaf rx key v d scs = Inr n \<Longrightarrow> well_formed rx scs n"
  unfolding build_leaf_def Let_def
  by (auto split: if_splits
      simp: build_property_def build_com_def Let_def result_simps feature_ok_def
        ensure_feature_valid_for_scopes_def i64_try_from_Some
      intro: checked_leaf_ok build_operand_ok build_default_leaf_ok)

section \<open>Counts\<close>

text \<open>A range whose bounds are both given is not empty.\<close>

definition range_ordered :: "u32 option \<times> u32 option \<Rightarrow> bool" where
  "range_ordered r \<longleftrightarrow> (\<forall>lo hi. r = (Some lo, Some hi) \<longrightarrow> lo \<le> hi)"

lemma parse_range_ordered: "parse_range s = Inr r \<Longrightarrow> range_ordered r"
  by (auto simp: parse_range_def Let_def result_simps range_ordered_def not_less
      split: if_splits prod.splits option.splits)

lemma parse_count_spec_ordered: "parse_count_spec v = Inr r \<Longrightarrow> range_ordered r"
  by (auto simp: parse_count_spec_def Let_def result_simps range_ordered_def
      dest: parse_range_ordered split: if_splits yaml.splits option.splits)

lemma count_feature_bounded: "count_feature rx t arg = Inr (f, d) \<Longrightarrow> feature_bounded rx f"
proof (cases arg)
  case None
  moreover assume "count_feature rx t arg = Inr (f, d)"
  ultimately show ?thesis by (auto simp: count_feature_def split: if_splits)
next
  case (Some a)
  moreover assume run: "count_feature rx t arg = Inr (f, d)"
  show ?thesis
  proof (cases "t = ''string''")
    case True
    with run Some show ?thesis by (auto simp: count_feature_def result_simps intro: string_factory_bounded)
  next
    case False
    with run Some obtain x x' where x: "parse_description (YString a) t None = Inr (x, d)"
      and x': "x' = (if t = ''api'' then (case x of RStr s \<Rightarrow> RStr (trim_dll_part s) | _ \<Rightarrow> x) else x)"
      and f: "feature_from_named_value t x' = Inr f"
      unfolding count_feature_def Let_def by (auto simp: result_simps)
    have "x' = RBytes bs \<Longrightarrow> x = RBytes bs" for bs
      using x' by (auto split: if_splits raw_scalar.splits)
    with f x show ?thesis by (auto intro: feature_from_named_value_bounded dest: parse_description_bytes)
  qed
qed

lemma build_count_ok: "build_count rx key v scs p = Inr n \<Longrightarrow> well_formed rx scs n"
  by (auto simp: build_count_def result_simps feature_ok_def range_ordered_def
      dest!: count_feature_bounded parse_count_spec_ordered split: option.splits)

section \<open>Children\<close>

lemma leaf_features_simps [simp]:
  "leaf_features [] = []"
  "leaf_features (n # ns) = (case stmt n of Leaf f \<Rightarrow> f # leaf_features ns | _ \<Rightarrow> leaf_features ns)"
  by (auto simp: leaf_features_def List.map_filter_simps split: statement.splits)

lemma unique_from_leaves:
  "sorted_wrt (\<lambda>f g. \<not> feature_eq f g) (leaf_features (unique_from seen ns))
   \<and> (\<forall>f \<in> set (leaf_features (unique_from seen ns)). \<forall>sf \<in> set seen. \<not> feature_eq sf f)"
proof (induction ns arbitrary: seen)
  case Nil
  then show ?case by simp
next
  case (Cons n ns)
  show ?case
  proof (cases "stmt n")
    case (Leaf f)
    with Cons [of seen] Cons [of "seen @ [f]"] show ?thesis
      by (cases "\<exists>sf \<in> set seen. feature_eq sf f") (simp_all add: Ball_def)
  qed (use Cons [of seen] in simp_all)
qed

lemma unique_nodes_unique: "unique_leaves (unique_nodes ns)"
  using unique_from_leaves [of "[]" ns] by (simp add: unique_leaves_def unique_nodes_def)

lemma unique_from_subset: "set (unique_from seen ns) \<subseteq> set ns"
proof (induction seen ns rule: unique_from.induct)
  case (2 seen n ns)
  then show ?case by (cases "stmt n") auto
qed simp

lemma build_child_Inr: "build_child f scs c = Inr n \<longleftrightarrow> (\<exists>m. c = YMapping m \<and> f m scs = Inr n)"
  by (auto simp: build_child_def result_simps as_feature_mapping_Inr)

lemma build_children_ok:
  assumes "build_children f cs scs = Inr ns" "\<And>m n. YMapping m \<in> set cs \<Longrightarrow> f m scs = Inr n \<Longrightarrow> P n"
  shows "unique_leaves ns \<and> (\<forall>n \<in> set ns. P n)"
proof -
  obtain built where b: "traverse (build_child f scs) cs = Inr built" "ns = unique_nodes built"
    using assms(1) by (auto simp: build_children_def result_simps)
  have "P n" if "n \<in> set built" for n
    using traverse_Inr_set [OF b(1) that] assms(2) by (auto simp: build_child_Inr)
  moreover have "set ns \<subseteq> set built" unfolding b(2) unique_nodes_def by (rule unique_from_subset)
  ultimately show ?thesis using b(2) unique_nodes_unique by blast
qed

section \<open>The tree\<close>

lemma build_subscope_ok:
  assumes "build_subscope f key sc cs against msg p = Inr n"
    and "against = (if is_dynamic_subscope sc then sc_dynamic scs else sc_static scs)"
    and "\<And>m n. m \<in> below cs \<Longrightarrow> f m (sub_scopes sc) = Inr n \<Longrightarrow> well_formed rx (sub_scopes sc) n"
  shows "well_formed rx scs n"
  using assms by (auto simp: build_subscope_def require_seq_def result_simps build_child_Inr below_def nestable_def
      split: if_splits list.splits)

lemma build_instruction_subscope_ok:
  assumes "build_instruction_subscope f cs scs p = Inr n"
    and IH: "\<And>m n. m \<in> below cs \<Longrightarrow> f m (sub_scopes InstructionScope) = Inr n \<Longrightarrow>
      well_formed rx (sub_scopes InstructionScope) n"
  shows "well_formed rx scs n"
proof -
  let ?ss = "sub_scopes InstructionScope"
  have ss: "\<lparr>sc_static = Some InstructionScope, sc_dynamic = None\<rparr> = ?ss"
    by (simp add: sub_scopes_def is_dynamic_subscope_def)
  from assms(1) obtain ys b where ys: "cs = Some ys"
    and compat: "is_subscope_compatible (sc_static scs) InstructionScope"
    and b: "(case ys of [c] \<Rightarrow> build_child f ?ss c
        | _ \<Rightarrow> map_ok (\<lambda>built. Node (And built) None) (build_children f ys ?ss)) = Inr b"
    and n: "n = Node (Subscope InstructionScope b) p"
    unfolding build_instruction_subscope_def Let_def ss
    by (auto simp: require_seq_def result_simps split: if_splits)
  have IH': "well_formed rx ?ss n" if "YMapping m \<in> set ys" "f m ?ss = Inr n" for m n
    using IH that by (auto simp: below_def ys)
  have many: "well_formed rx ?ss b" if "map_ok (\<lambda>built. Node (And built) None) (build_children f ys ?ss) = Inr b"
    using that build_children_ok [where P = "well_formed rx ?ss", OF _ IH'] by (auto simp: result_simps)
  have "well_formed rx ?ss b"
  proof (cases "\<exists>c. ys = [c]")
    case True
    with b IH' show ?thesis by (auto simp: build_child_Inr)
  next
    case False
    with b have "map_ok (\<lambda>built. Node (And built) None) (build_children f ys ?ss) = Inr b"
      by (auto split: list.splits)
    then show ?thesis by (rule many)
  qed
  with compat n show ?thesis by (simp add: nestable_def is_dynamic_subscope_def)
qed

lemma if_elim: "(if b then x else y) = z \<Longrightarrow> (b \<Longrightarrow> x = z \<Longrightarrow> P) \<Longrightarrow> (\<not> b \<Longrightarrow> y = z \<Longrightarrow> P) \<Longrightarrow> P"
  by (cases b) simp_all

lemma build_statement_ok:
  assumes run: "build_statement rx f key v cs p d scs = Inr n"
    and IH: "\<And>m ss n. m \<in> below cs \<Longrightarrow> f m ss = Inr n \<Longrightarrow> well_formed rx ss n"
  shows "well_formed rx scs n"
proof -
  have compound: "well_formed rx scs n"
    if "rbind (require_seq cs k) (\<lambda>cs. map_ok (\<lambda>b. Node (mk b) p) (build_children f cs scs)) = Inr n"
      and "mk = And \<or> mk = Or \<or> (\<exists>c. mk = SomeOf c)" for k mk n
  proof -
    from that(1) obtain ys built where ys: "cs = Some ys" and built: "build_children f ys scs = Inr built"
      and n: "n = Node (mk built) p" by (auto simp: require_seq_def result_simps)
    have "unique_leaves built \<and> (\<forall>n \<in> set built. well_formed rx scs n)"
      by (rule build_children_ok [OF built]) (use IH in \<open>auto simp: below_def ys\<close>)
    with that(2) n show ?thesis by auto
  qed
  have neg: "well_formed rx scs n"
    if "rbind (require_seq cs k) (\<lambda>cs. case cs of [c] \<Rightarrow> map_ok (\<lambda>n. Node (Not n) p) (build_child f scs c)
          | _ \<Rightarrow> Inl e) = Inr n" for k e n
  proof -
    from that obtain ys where ys: "cs = Some ys"
      and c: "(case ys of [c] \<Rightarrow> map_ok (\<lambda>n. Node (Not n) p) (build_child f scs c) | _ \<Rightarrow> Inl e) = Inr n"
      by (auto simp: require_seq_def result_simps)
    then obtain m n' where "ys = [YMapping m]" "f m scs = Inr n'" "n = Node (Not n') p"
      by (auto simp: result_simps build_child_Inr split: list.splits)
    with IH [of m scs n'] ys show ?thesis by (simp add: below_def)
  qed
  have sub: "well_formed rx scs n"
    if "build_subscope f k sc cs a msg p = Inr n"
      "a = (if is_dynamic_subscope sc then sc_dynamic scs else sc_static scs)" for k sc a msg n
    by (rule build_subscope_ok [OF that IH])
  have ins: "well_formed rx scs n" if "build_instruction_subscope f cs scs p = Inr n" for n
    by (rule build_instruction_subscope_ok [OF that IH])
  have str: "well_formed rx scs n"
    if "(case v of YString _ \<Rightarrow> build_default_leaf rx k d scs | _ \<Rightarrow> Inl e) = Inr n" for k e n
    using that by (auto split: yaml.splits intro: build_default_leaf_ok)
  have more: "well_formed rx scs n"
    if "rbind r (\<lambda>c. rbind (require_seq cs k) (\<lambda>cs. map_ok (\<lambda>b. Node (SomeOf c b) p) (build_children f cs scs))) = Inr n"
    for r :: "rule_error + u32" and k n
    using that compound [of k "SomeOf _"] by (auto simp: rbind_Inr_iff)
  have counted: "well_formed rx scs n" if "rbind r (build_count rx k v scs) = Inr n"
    for r :: "rule_error + string option" and k n
    using that build_count_ok by (auto simp: rbind_Inr_iff)
  from run show ?thesis
    unfolding build_statement_def Let_def
    by (elim if_elim)
      ((erule compound, blast) | erule neg ins str counted more build_leaf_ok
        | (erule sub, simp add: is_dynamic_subscope_def))+
qed

lemma build_statements_well_formed:
  assumes "build_statements yl rx d scs = Inr n"
  shows "well_formed rx scs n"
  using assms
proof (induction yl rx d scs arbitrary: n rule: build_statements.induct)
  case (1 yl rx d scs)
  from "1.prems" obtain k v rest key cs p where d: "\<not> 2 < length d" "d = (k, v) # rest"
    and key: "y_as_str yl k = Some key" and pop: "pop_description (seq_children v) = Inr (cs, p)"
    and run: "build_statement rx (build_statements yl rx) key v cs p d scs = Inr n"
    by (subst (asm) build_statements.simps) (auto simp: result_simps split: if_splits list.splits)
  show ?case
  proof (rule build_statement_ok [OF run])
    fix m ss n
    assume "m \<in> below cs" "build_statements yl rx m ss = Inr n"
    with "1.IH" [OF d(1,2) refl _ pop refl, of key m ss n] key show "well_formed rx ss n" by (simp add: ok_or_Inr_iff)
  qed
qed

section \<open>Rules\<close>

lemma case_single_Inr:
  "(case xs of [x] \<Rightarrow> f x | _ \<Rightarrow> Inl e) = Inr y \<longleftrightarrow> (\<exists>x. xs = [x] \<and> f x = Inr y)"
  by (auto split: list.splits)

lemma mapping_at_Inr: "mapping_at v msg = Inr m \<longleftrightarrow> v = Some (YMapping m)"
  by (auto simp: mapping_at_def split: option.splits yaml.splits)

lemma sequence_at_Inr: "sequence_at v msg = Inr ys \<longleftrightarrow> v = Some (YSequence ys)"
  by (auto simp: sequence_at_def split: option.splits yaml.splits)

lemma string_field_Inr: "string_field m k = Inr (Some s) \<longleftrightarrow> mapping_get m k = Some (YString s)"
  by (auto simp: string_field_def split: option.splits yaml.splits)

lemma parse_scopes_Inr:
  "parse_scopes yl nm m = Inr scs \<Longrightarrow> \<not> mapping_contains m ''scope''
     \<and> (\<exists>sm. mapping_get m ''scopes'' = Some (YMapping sm) \<and> scopes_from_dict yl sm = Inr scs)"
  by (auto simp: parse_scopes_def split: if_splits option.splits yaml.splits)

lemma parse_meta_Inr:
  "parse_meta yl nm m = Inr mt \<Longrightarrow> meta_name mt = nm \<and> meta_raw mt = m"
  by (auto simp: parse_meta_def result_simps)


text \<open>A reader that returns a given document, and a document with a given scope and tree.\<close>

definition reader_of :: "yaml \<Rightarrow> yaml_lib" where
  "reader_of doc = \<lparr>y_as_str = (\<lambda>y. case y of YString s \<Rightarrow> Some s | _ \<Rightarrow> None), y_as_bool = (\<lambda>_. None),
     y_from_str = (\<lambda>_. Inr doc)\<rparr>"

definition sample_meta :: "string \<Rightarrow> mapping" where
  "sample_meta sc = [(YString ''name'', YString ''t''), (YString ''scopes'', YMapping
     [(YString ''static'', YString sc), (YString ''dynamic'', YString ''unsupported'')])]"

definition sample_doc :: "string \<Rightarrow> yaml \<Rightarrow> yaml" where
  "sample_doc sc tree = YMapping [(YString ''rule'', YMapping
     [(YString ''meta'', YMapping (sample_meta sc)), (YString ''features'', YSequence [tree])])]"

lemma sample_parse_meta:
  "parse_meta yl ''t'' (sample_meta sc) =
     Inr (rule_meta.make ''t'' None [] [] False [] [] [] [] (sample_meta sc))"
  by (simp add: parse_meta_def sample_meta_def list_of_strings_or_empty_def string_field_def mapping_get_def
      rule_meta.defs)

lemma sample_rule:
  assumes "scopes_from_dict (reader_of (sample_doc sc (YMapping m)))
      [(YString ''static'', YString sc), (YString ''dynamic'', YString ''unsupported'')] = Inr scs"
    and "build_statements (reader_of (sample_doc sc (YMapping m))) rx m scs = Inr b"
  shows "rule_from_yaml (reader_of (sample_doc sc (YMapping m))) rx [] =
     Inr (rule.make ''t'' None (rule_meta.make ''t'' None [] [] False [] [] [] [] (sample_meta sc)) scs b False [])"
proof -
  have "y_from_str (reader_of doc) x = Inr doc" for doc x by (simp add: reader_of_def)
  moreover have "parse_scopes (reader_of (sample_doc sc (YMapping m))) ''t'' (sample_meta sc) = Inr scs"
    using assms(1) by (simp add: parse_scopes_def sample_meta_def mapping_contains_def mapping_get_def)
  moreover have "string_field (sample_meta sc) ''name'' = Inr (Some ''t'')"
    by (simp add: sample_meta_def string_field_def mapping_get_def)
  ultimately show ?thesis
    using assms(2) unfolding rule_from_yaml_def
    by (simp add: sample_doc_def mapping_at_def sequence_at_def mapping_get_def sample_parse_meta
        rule_meta.defs rule.defs)
qed

lemma sample_scopes:
  "scopes_from_dict (reader_of doc) [(YString ''static'', YString ''function''), (YString ''dynamic'', YString ''unsupported'')]
     = Inr \<lparr>sc_static = Some FunctionScope, sc_dynamic = None\<rparr>"
  "scopes_from_dict (reader_of doc) [(YString ''static'', YString ''file''), (YString ''dynamic'', YString ''unsupported'')]
     = Inr \<lparr>sc_static = Some FileScope, sc_dynamic = None\<rparr>"
  unfolding reader_of_def by code_simp+

lemma api_valid_in_function:
  "ensure_feature_valid_for_scopes \<lparr>sc_static = Some FunctionScope, sc_dynamic = None\<rparr> (Api x) = Inr ()"
proof -
  have "ApiKind \<in> kinds (the (base_features InstructionScope))" by (simp add: base_features_def)
  then show ?thesis by (simp add: ensure_feature_valid_for_scopes_def scope_entry_Some row_simps)
qed

lemmas build_eval = build_statements.simps seq_children_def pop_description_def build_statement_def
  starts_with_def ends_with_def suffix_to_prefix build_leaf_def build_default_leaf_def mapping_get_def
  sibling_description_def parse_description_def split_description_def DESCRIPTION_SEPARATOR_def
  is_numeric_value_type_def find_str.simps expect_string_def trim_dll_part_def contains_str_def
  sublist_Cons_right checked_leaf_def

lemma sample_api_tree:
  "build_statements (reader_of doc) rx [(YString ''api'', YString ''k.x'')]
     \<lparr>sc_static = Some FunctionScope, sc_dynamic = None\<rparr> = Inr (Node (Leaf (Api ''x'')) None)"
  by (simp add: reader_of_def build_eval api_valid_in_function)


end
