(* ===== verification/Grammar_Numbers.thy ===== *)
theory Grammar_Numbers
  imports Grammar_Props
begin

text \<open>
  The number notations of the rule grammar (\<^verbatim>\<open>parse_int\<close>, \<^verbatim>\<open>parse_range\<close> and
  \<^verbatim>\<open>parse_count_spec\<close> of \<^verbatim>\<open>rules/grammar.rs\<close>) read back what is written in them.
\<close>

section \<open>Trimming\<close>

definition visible :: "char \<Rightarrow> bool" where
  "visible c \<longleftrightarrow> 33 \<le> (of_char c :: nat) \<and> (of_char c :: nat) < 128"

lemma white_space_ends:
  assumes "w \<in> set white_space"
  shows "w \<noteq> [] \<and> \<not> visible (hd w) \<and> \<not> visible (last w)"
proof -
  have "list_all (\<lambda>w. w \<noteq> [] \<and> \<not> visible (hd w) \<and> \<not> visible (last w)) white_space"
    by (simp add: white_space_def visible_def)
  with assms show ?thesis by (simp add: list_all_iff)
qed

lemma drop_front_visible:
  assumes "\<And>w. w \<in> set ws \<Longrightarrow> w \<noteq> [] \<and> \<not> visible (hd w)" "s \<noteq> []" "visible (hd s)"
  shows "drop_front ws s = s"
proof (rule drop_front_idle)
  fix w
  assume "w \<in> set ws" "w \<noteq> []"
  then show "\<not> prefix w s" using assms(1) [of w] assms(2,3) by (cases s) (auto simp: prefix_Cons)
qed

lemma trim_visible:
  assumes "s \<noteq> []" "visible (hd s)" "visible (last s)"
  shows "trim s = s"
proof -
  have "trim_start s = s"
    unfolding trim_start_def by (rule drop_front_visible) (use assms white_space_ends in auto)
  moreover have "drop_front (map rev white_space) (rev s) = rev s"
    by (rule drop_front_visible) (use assms white_space_ends in \<open>auto simp: hd_rev\<close>)
  ultimately show ?thesis by (simp add: trim_def trim_end_def)
qed

lemma trim_start_space: "trim_start (CHR '' '' # s) = trim_start s"
proof -
  let ?P = "\<lambda>w. w \<noteq> [] \<and> prefix w (CHR '' '' # s)"
  have "list_all (\<lambda>w. w \<noteq> [] \<and> (hd w = CHR '' '' \<longrightarrow> w = '' '')) white_space"
    by (simp add: white_space_def char_of_def bit_0)
  then have only: "w = '' ''" if "w \<in> set white_space" "?P w" for w
    using that by (auto simp: list_all_iff prefix_Cons)
  have "'' '' \<in> set white_space" by (simp add: white_space_def char_of_def bit_0)
  then have "find ?P white_space \<noteq> None" by (auto simp: find_None_iff)
  then obtain w where w: "find ?P white_space = Some w" by blast
  then have "w \<in> set white_space" "?P w" by (auto simp: find_Some_iff)
  with only w have "find ?P white_space = Some '' ''" by blast
  then show ?thesis by (simp add: trim_start_def drop_front.simps [of white_space "CHR '' '' # s"])
qed

lemma trim_space_visible:
  assumes "s \<noteq> []" "visible (hd s)" "visible (last s)"
  shows "trim (CHR '' '' # s) = s"
  using trim_visible [OF assms] by (simp add: trim_def trim_start_space)

section \<open>Integers\<close>

lemma visible_digit_char: "d < 16 \<Longrightarrow> visible (digit_char d)"
  by (simp add: visible_def digit_char_def)

lemma visible_show_radix:
  assumes "2 \<le> radix" "radix \<le> 16" "c \<in> set (show_radix radix n)"
  shows "visible c"
  using set_show_radix [OF assms(1), of n] assms visible_digit_char by fastforce

lemma trim_show_radix:
  assumes "2 \<le> radix" "radix \<le> 16" "\<And>c. c \<in> set p \<Longrightarrow> visible c"
  shows "trim (p @ show_radix radix n) = p @ show_radix radix n"
proof (rule trim_visible)
  let ?s = "p @ show_radix radix n"
  have all: "visible c" if "c \<in> set ?s" for c
    using that assms visible_show_radix [of radix c n] by auto
  show ne: "?s \<noteq> []" by simp
  show "visible (hd ?s)" by (rule all [OF hd_in_set [OF ne]])
  show "visible (last ?s)" by (rule all [OF last_in_set [OF ne]])
qed

lemma hd_not_prefix: "s \<noteq> [] \<Longrightarrow> hd s \<noteq> c \<Longrightarrow> \<not> prefix (c # p) s"
  by (cases s) auto

lemma show_nat_no_0x: "\<not> prefix (CHR ''0'' # CHR ''x'' # p) (show_nat n)"
proof
  assume "prefix (CHR ''0'' # CHR ''x'' # p) (show_nat n)"
  then have "CHR ''x'' \<in> set (show_nat n)" by (auto simp: prefix_def)
  with show_nat_no_char [of "CHR ''x''" n] show False by simp
qed

lemma parse_int_decimal:
  assumes "- (2 ^ 127) \<le> i" "i < 2 ^ 127"
  shows "parse_int (show_int i) = Inr i"
proof -
  have t: "trim (show_int i) = show_int i"
    using trim_show_radix [of 10 "[]"] trim_show_radix [of 10 "''-''"]
    by (simp add: show_int_def visible_def)
  have "\<not> prefix ''-0x'' (show_int i)" "\<not> prefix ''0x'' (show_int i)"
    using show_nat_no_0x hd_not_prefix [OF show_radix_nonempty hd_show_nat(1)]
    by (auto simp: show_int_def)
  moreover have "i128_from_str_radix 10 (show_int i) = Some i"
    unfolding i128_from_str_radix_def by (rule signed_parse_show_int) (use assms in auto)
  ultimately show ?thesis by (simp add: parse_int_def t strip_prefix_def Let_def)
qed

lemma hex_hd_no_sign: "hd (show_hex n) \<noteq> CHR ''-''" "hd (show_hex n) \<noteq> CHR ''+''"
proof -
  obtain d where d: "d < 16" "hd (show_hex n) = digit_char d"
    using set_show_radix [of 16 n] hd_in_set [OF show_radix_nonempty, of 16 n] by fastforce
  have "list_all (\<lambda>d. digit_char d \<noteq> CHR ''-'' \<and> digit_char d \<noteq> CHR ''+'') [0..<16]" by code_simp
  with d show "hd (show_hex n) \<noteq> CHR ''-''" "hd (show_hex n) \<noteq> CHR ''+''" by (auto simp: list_all_iff)
qed

lemma parse_hex_digits:
  "n < 2 ^ 127 \<Longrightarrow> i128_from_str_radix 16 (show_hex n) = Some (int n)"
  "n \<le> 2 ^ 127 \<Longrightarrow> i128_from_str_radix 16 (CHR ''-'' # show_hex n) = Some (- int n)"
proof -
  obtain c cs where c: "show_hex n = c # cs" by (cases "show_hex n") auto
  note v = digits_value_show_radix [of 16 n, unfolded c] hex_hd_no_sign [of n, unfolded c]
  show "n < 2 ^ 127 \<Longrightarrow> i128_from_str_radix 16 (show_hex n) = Some (int n)"
    using v by (simp add: i128_from_str_radix_def signed_from_str_radix_def c Let_def)
  show "n \<le> 2 ^ 127 \<Longrightarrow> i128_from_str_radix 16 (CHR ''-'' # show_hex n) = Some (- int n)"
    using v by (simp add: i128_from_str_radix_def signed_from_str_radix_def c Let_def)
qed

text \<open>
  Every 128-bit integer is read back from its decimal notation, and from its
  hexadecimal notation with the prefix \<^verbatim>\<open>0x\<close> or \<^verbatim>\<open>-0x\<close>; and whatever the parser accepts is
  a 128-bit integer.
\<close>

lemma parse_int_roundtrip:
  "(- (2 ^ 127) \<le> i \<and> i < 2 ^ 127 \<longrightarrow>
      parse_int (show_int i) = Inr i
      \<and> parse_int (if i < 0 then ''-0x'' @ show_hex (nat (- i)) else ''0x'' @ show_hex (nat i)) = Inr i)
   \<and> (parse_int s = Inr v \<longrightarrow> - (2 ^ 127) \<le> v \<and> v < 2 ^ 127)"
proof (intro conjI impI)
  assume i: "- (2 ^ 127) \<le> i \<and> i < 2 ^ 127"
  then show "parse_int (show_int i) = Inr i" using parse_int_decimal by blast
  have t: "trim (''0x'' @ show_hex n) = ''0x'' @ show_hex n" "trim (''-0x'' @ show_hex n) = ''-0x'' @ show_hex n" for n
    by (rule trim_show_radix; auto simp: visible_def)+
  show "parse_int (if i < 0 then ''-0x'' @ show_hex (nat (- i)) else ''0x'' @ show_hex (nat i)) = Inr i"
  proof (cases "i < 0")
    case True
    with i t(2) [of "nat (- i)"] parse_hex_digits(2) [of "nat (- i)"] show ?thesis
      by (simp add: parse_int_def Let_def strip_prefix_def)
  next
    case False
    with i t(1) [of "nat i"] parse_hex_digits(1) [of "nat i"] show ?thesis
      by (simp add: parse_int_def Let_def strip_prefix_def)
  qed
next
  assume "parse_int s = Inr v"
  then have "\<exists>radix t. i128_from_str_radix radix t = Some v"
    by (auto simp: parse_int_def Let_def result_simps split: option.splits)
  then show "- (2 ^ 127) \<le> v" "v < 2 ^ 127"
    unfolding i128_from_str_radix_def by (auto dest!: signed_from_str_radix_bounds)
qed

lemma parse_int_roundtrip_witness:
  "parse_int (show_int (- 26)) = Inr (- 26) \<and> parse_int (''-0x'' @ show_hex 26) = Inr (- 26)"
  using parse_int_roundtrip [of "- 26"] by simp

section \<open>Counts\<close>

definition show_count_spec :: "u32 option \<times> u32 option \<Rightarrow> string" where
  "show_count_spec r =
     (case r of
        (Some lo, None) \<Rightarrow> show_nat (unat lo) @ '' or more''
      | (None, Some hi) \<Rightarrow> show_nat (unat hi) @ '' or fewer''
      | (Some lo, Some hi) \<Rightarrow> ''('' @ show_nat (unat lo) @ '', '' @ show_nat (unat hi) @ '')''
      | (None, None) \<Rightarrow> ''(,)'')"

lemma show_int_nat: "show_int (int n) = show_nat n"
  by (simp add: show_int_def)

lemma uint_u32_bound: "uint (w :: u32) < 2 ^ 32"
  using uint_bounded [of w] by simp

lemma parse_int_u32: "parse_int (show_nat (unat (w :: u32))) = Inr (uint w)"
proof -
  have "uint w < 2 ^ 127" by (rule order_less_trans [OF uint_u32_bound]) simp
  moreover have "- (2 ^ 127) \<le> uint w" by (rule order_trans [of _ 0]) simp_all
  moreover have "show_nat (unat w) = show_int (uint w)" using show_int_nat [of "unat w"] by simp
  ultimately show ?thesis using parse_int_decimal [of "uint w"] by simp
qed

lemma u32_try_from_uint: "u32_try_from (uint w) = Some w"
  using uint_bounded [of w] by (simp add: u32_try_from_def)

lemma trim_show_nat [simp]: "trim (show_nat n) = show_nat n" "trim (CHR '' '' # show_nat n) = show_nat n"
proof -
  have v: "visible c" if "c \<in> set (show_nat n)" for c using visible_show_radix [of 10 c n] that by simp
  note ends = v [OF hd_in_set] v [OF last_in_set]
  show "trim (show_nat n) = show_nat n" by (rule trim_visible) (simp_all add: ends)
  show "trim (CHR '' '' # show_nat n) = show_nat n" by (rule trim_space_visible) (simp_all add: ends)
qed

lemma parse_u32_show: "parse_u32 (show_nat (unat w)) = Inr w"
  by (simp add: parse_u32_def parse_int_u32 u32_try_from_uint)

lemma range_bound_show: "range_bound a b (show_nat (unat w)) = Inr (Some w)"
  using uint_bounded [of w] by (simp add: range_bound_def parse_int_u32 u32_try_from_uint not_less)

lemma parse_range_show:
  assumes "lo \<le> hi"
  shows "parse_range (''('' @ show_nat (unat lo) @ '', '' @ show_nat (unat hi) @ '')'') = Inr (Some lo, Some hi)"
proof -
  have "split_once (CHR '','') (show_nat (unat lo) @ '', '' @ show_nat (unat hi))
      = Some (show_nat (unat lo), CHR '' '' # show_nat (unat hi))"
    by (simp add: split_once_Some_iff show_nat_no_sep)
  moreover have "take (length s - 2) (drop 1 s) = show_nat (unat lo) @ '', '' @ show_nat (unat hi)"
    if "s = ''('' @ show_nat (unat lo) @ '', '' @ show_nat (unat hi) @ '')''" for s
    using that by simp
  moreover have "starts_with s ''(''" "ends_with s '')''"
    if "s = ''('' @ show_nat (unat lo) @ '', '' @ show_nat (unat hi) @ '')''" for s
    using that by (simp_all add: starts_with_def ends_with_def suffix_def)
  ultimately show ?thesis
    unfolding parse_range_def Let_def using assms by (simp add: range_bound_show)
qed

lemma strip_suffix_append: "strip_suffix p (s @ p) = Some s"
  by (simp add: strip_suffix_Some_iff)

lemma strip_suffix_last: "p \<noteq> [] \<Longrightarrow> s \<noteq> [] \<Longrightarrow> last s \<noteq> last p \<Longrightarrow> strip_suffix p s = None"
  by (auto simp: strip_suffix_def suffix_def)

text \<open>
  Every non-empty count range of 32-bit bounds with at least one bound given is read
  back from its notation \<^verbatim>\<open>N or more\<close>, \<^verbatim>\<open>N or fewer\<close> or \<^verbatim>\<open>(N, M)\<close>, and every range the
  parser accepts is non-empty.
\<close>

lemma count_spec_roundtrip:
  "(r \<noteq> (None, None) \<and> range_ordered r \<longrightarrow> parse_count_spec (YString (show_count_spec r)) = Inr r)
   \<and> (parse_count_spec v = Inr r' \<longrightarrow> range_ordered r')"
proof (intro conjI impI)
  assume r: "r \<noteq> (None, None) \<and> range_ordered r"
  obtain a b where ab: "r = (a, b)" by (cases r)
  show "parse_count_spec (YString (show_count_spec r)) = Inr r"
  proof (cases a)
    case None
    with r ab obtain hi where b: "b = Some hi" by auto
    have "strip_suffix '' or more'' (show_nat (unat hi) @ '' or fewer'') = None"
      by (rule strip_suffix_last) simp_all
    with None b ab show ?thesis
      by (simp add: parse_count_spec_def show_count_spec_def strip_suffix_append parse_u32_show)
  next
    case (Some lo)
    show ?thesis
    proof (cases b)
      case None
      with Some ab show ?thesis
        by (simp add: parse_count_spec_def show_count_spec_def strip_suffix_append parse_u32_show)
    next
      case (Some hi)
      let ?s = "''('' @ show_nat (unat lo) @ '', '' @ show_nat (unat hi) @ '')''"
      have "strip_suffix '' or more'' ?s = None" "strip_suffix '' or fewer'' ?s = None"
        by (rule strip_suffix_last; simp)+
      moreover have "starts_with ?s ''(''" by (simp add: starts_with_def)
      moreover have "lo \<le> hi" using r ab Some \<open>a = Some lo\<close> by (simp add: range_ordered_def)
      moreover have "r = (Some lo, Some hi)" using ab Some \<open>a = Some lo\<close> by simp
      moreover have "show_count_spec (Some lo, Some hi) = ?s" by (simp add: show_count_spec_def)
      ultimately show ?thesis unfolding parse_count_spec_def by (simp add: parse_range_show [simplified])
    qed
  qed
next
  assume "parse_count_spec v = Inr r'"
  then show "range_ordered r'" by (rule parse_count_spec_ordered)
qed

lemma count_spec_roundtrip_witness:
  "parse_count_spec (YString (show_count_spec (Some 2, Some 7))) = Inr (Some 2, Some 7)"
  using count_spec_roundtrip [of "(Some 2, Some 7)"] by (simp add: range_ordered_def)

end
