(* ===== verification/Strings.thy ===== *)
theory Strings
  imports Prelude
begin

text \<open>
  \<^verbatim>\<open>capa-x/src/extract/features/strings.rs\<close>: the scanners for ASCII and UTF-16LE strings.
  A buffer is its list of bytes; a Rust string is its list of UTF-8 bytes, as in the rest
  of the development. The scanning loops run over byte indices as in the source.
\<close>

definition byte_char :: "u8 \<Rightarrow> char" where
  "byte_char b = char_of (unat b)"

definition REPEATS :: "u8 list" where
  "REPEATS = [0x41, 0x00, 0xFE, 0xFF]"

record extracted_string =
  es_s :: string
  es_offset :: nat

definition is_ascii_byte :: "u8 \<Rightarrow> bool" where
  "is_ascii_byte b = (b = 0x09 \<or> (0x20 \<le> b \<and> b \<le> 0x7e))"

definition buf_filled_with :: "u8 list \<Rightarrow> u8 \<Rightarrow> bool" where
  "buf_filled_with buf c = (if buf = [] then False else list_all (\<lambda>b. b = c) buf)"

text \<open>The early returns both scanners share.\<close>

definition skip_buffer :: "u8 list \<Rightarrow> nat \<Rightarrow> bool" where
  "skip_buffer buf n =
     (buf = [] \<or> n < 1 \<or> hd buf \<in> set REPEATS \<and> buf_filled_with buf (hd buf))"

section \<open>ASCII\<close>

function ascii_run :: "u8 list \<Rightarrow> nat \<Rightarrow> nat" where
  "ascii_run buf i = (if i < length buf \<and> is_ascii_byte (buf ! i) then ascii_run buf (i + 1) else i)"
  by pat_completeness auto
termination
  by (relation "measure (\<lambda>(buf, i). length buf - i)") auto

declare ascii_run.simps [simp del]

lemma ascii_run_mono: "i \<le> ascii_run buf i"
  by (induction buf i rule: ascii_run.induct) (subst ascii_run.simps, force)

lemma ascii_run_progress: "i < length buf \<Longrightarrow> is_ascii_byte (buf ! i) \<Longrightarrow> i < ascii_run buf i"
  using ascii_run_mono [of "Suc i" buf] by (subst ascii_run.simps) simp

function ascii_scan :: "u8 list \<Rightarrow> nat \<Rightarrow> nat \<Rightarrow> extracted_string list \<Rightarrow> extracted_string list" where
  "ascii_scan buf n i out =
     (if i < length buf then
        if is_ascii_byte (buf ! i) then
          let start = i;
              i = ascii_run buf start
          in ascii_scan buf n i
               (if n \<le> i - start
                then out @ [\<lparr>es_s = map byte_char (drop start (take i buf)), es_offset = start\<rparr>]
                else out)
        else ascii_scan buf n (i + 1) out
      else out)"
  by pat_completeness auto
termination
  by (relation "measure (\<lambda>(buf, n, i, out). length buf - i)") (auto intro: diff_less_mono2 ascii_run_progress)

declare ascii_scan.simps [simp del]

definition extract_ascii_strings :: "u8 list \<Rightarrow> nat \<Rightarrow> extracted_string list" where
  "extract_ascii_strings buf n = (if skip_buffer buf n then [] else ascii_scan buf n 0 [])"

section \<open>UTF-16LE\<close>

definition is_pair_at :: "u8 list \<Rightarrow> nat \<Rightarrow> bool" where
  "is_pair_at buf j = (j + 1 < length buf \<and> is_ascii_byte (buf ! j) \<and> buf ! (j + 1) = 0)"

function pair_run :: "u8 list \<Rightarrow> nat \<Rightarrow> nat \<Rightarrow> nat \<times> nat" where
  "pair_run buf j pairs = (if is_pair_at buf j then pair_run buf (j + 2) (pairs + 1) else (j, pairs))"
  by pat_completeness auto
termination
  by (relation "measure (\<lambda>(buf, j, pairs). length buf - j)") (auto simp: is_pair_at_def)

declare pair_run.simps [simp del]

text \<open>\<^verbatim>\<open>chunks_exact(2)\<close>.\<close>

fun chunks2 :: "'a list \<Rightarrow> ('a \<times> 'a) list" where
  "chunks2 (a # b # xs) = (a, b) # chunks2 xs"
| "chunks2 _ = []"

text \<open>The number of pairs from an index on, and the index after them.\<close>

function pair_count :: "u8 list \<Rightarrow> nat \<Rightarrow> nat" where
  "pair_count buf j = (if is_pair_at buf j then Suc (pair_count buf (j + 2)) else 0)"
  by pat_completeness auto
termination
  by (relation "measure (\<lambda>(buf, j). length buf - j)") (auto simp: is_pair_at_def)

declare pair_count.simps [simp del]

lemma pair_run_eq: "pair_run buf j p = (j + 2 * pair_count buf j, p + pair_count buf j)"
proof (induction buf j p rule: pair_run.induct)
  case (1 buf j p)
  then show ?case
    by (cases "is_pair_at buf j") (simp_all add: pair_run.simps [of buf j p] pair_count.simps [of buf j])
qed

text \<open>The scanner is only entered with \<open>1 \<le> n\<close>, without which it would not advance.\<close>

function unicode_scan :: "u8 list \<Rightarrow> nat \<Rightarrow> nat \<Rightarrow> extracted_string list \<Rightarrow> extracted_string list" where
  "unicode_scan buf n i out =
     (if i + 1 < length buf \<and> 1 \<le> n then
        let (j, pairs) = pair_run buf i 0
        in if n \<le> pairs then
             unicode_scan buf n j
               (out @ [\<lparr>es_s = map (\<lambda>(a, _). byte_char a) (chunks2 (drop i (take j buf))), es_offset = i\<rparr>])
           else unicode_scan buf n (i + 1) out
      else out)"
  by pat_completeness auto
termination
  by (relation "measure (\<lambda>(buf, n, i, out). length buf - i)") (auto simp: pair_run_eq)

declare unicode_scan.simps [simp del]

definition extract_unicode_strings :: "u8 list \<Rightarrow> nat \<Rightarrow> extracted_string list" where
  "extract_unicode_strings buf n = (if skip_buffer buf n then [] else unicode_scan buf n 0 [])"

section \<open>Strings at an address\<close>

definition MIN_STRING_LEN :: nat where
  "MIN_STRING_LEN = 4"

definition MIN_UNICODE_BYTES :: nat where
  "MIN_UNICODE_BYTES = 9"

definition is_viv_printable_byte :: "u8 \<Rightarrow> bool" where
  "is_viv_printable_byte b = (is_ascii_byte b \<or> b \<in> {0x0a, 0x0b, 0x0c, 0x0d})"

definition detect_string :: "u8 list \<Rightarrow> string option" where
  "detect_string buf =
     (let len = length (takeWhile is_viv_printable_byte buf)
      in if len < MIN_STRING_LEN \<or> \<not> (len < length buf \<and> buf ! len = 0) then None
         else Some (map byte_char (take len buf)))"

text \<open>
  \<^verbatim>\<open>char::from_u32\<close> of a 16-bit value, as the UTF-8 bytes of the character; the surrogates
  are no characters.
\<close>

definition char_from_u16 :: "nat \<Rightarrow> string option" where
  "char_from_u16 n =
     (if 0xD800 \<le> n \<and> n \<le> 0xDFFF then None
      else if n < 0x80 then Some [char_of n]
      else if n < 0x800 then Some [char_of (0xC0 + n div 64), char_of (0x80 + n mod 64)]
      else Some [char_of (0xE0 + n div 4096), char_of (0x80 + n div 64 mod 64), char_of (0x80 + n mod 64)])"

definition u16_from_le :: "u8 \<Rightarrow> u8 \<Rightarrow> nat" where
  "u16_from_le low high = unat low + 256 * unat high"

text \<open>Collecting options: the concatenated characters, or nothing if one is missing.\<close>

fun collect_chars :: "string option list \<Rightarrow> string option" where
  "collect_chars [] = Some []"
| "collect_chars (c # cs) =
     (case c of None \<Rightarrow> None | Some s \<Rightarrow> map_option (\<lambda>rest. s @ rest) (collect_chars cs))"

function unicode_loop :: "u8 list \<Rightarrow> u8 \<Rightarrow> nat \<Rightarrow> string option" where
  "unicode_loop buf charset cnt =
     (if \<not> cnt + 1 < length buf then None
      else if buf ! cnt = 0 then
        if cnt < MIN_UNICODE_BYTES then None
        else collect_chars (map (\<lambda>(a, b). char_from_u16 (u16_from_le a b)) (take (cnt div 2) (chunks2 buf)))
      else if \<not> is_viv_printable_byte (buf ! cnt) \<or> buf ! (cnt + 1) \<noteq> charset then None
      else unicode_loop buf charset (cnt + 2))"
  by pat_completeness auto
termination
  by (relation "measure (\<lambda>(buf, charset, cnt). length buf - cnt)") auto

declare unicode_loop.simps [simp del]

definition detect_unicode :: "u8 list \<Rightarrow> string option" where
  "detect_unicode buf = (if length buf < 2 then None else unicode_loop buf (buf ! 1) 0)"

definition string_at :: "u8 list \<Rightarrow> string option" where
  "string_at buf = (case detect_string buf of Some s \<Rightarrow> Some s | None \<Rightarrow> detect_unicode buf)"

definition is_probably_string :: "u8 list \<Rightarrow> bool" where
  "is_probably_string buf = (string_at buf \<noteq> None)"

section \<open>Maximal runs\<close>

text \<open>A run of qualifying bytes from \<open>i\<close> to \<open>j\<close> that cannot be extended at either end.\<close>

definition maximal_run :: "u8 list \<Rightarrow> nat \<Rightarrow> nat \<Rightarrow> bool" where
  "maximal_run buf i j \<longleftrightarrow>
     i < j \<and> j \<le> length buf \<and> (\<forall>k. i \<le> k \<and> k < j \<longrightarrow> is_ascii_byte (buf ! k))
     \<and> (i = 0 \<or> \<not> is_ascii_byte (buf ! (i - 1))) \<and> (j = length buf \<or> \<not> is_ascii_byte (buf ! j))"

abbreviation run_string :: "u8 list \<Rightarrow> nat \<Rightarrow> nat \<Rightarrow> extracted_string" where
  "run_string buf i j \<equiv> \<lparr>es_s = map byte_char (drop i (take j buf)), es_offset = i\<rparr>"

lemma ascii_run_spec:
  assumes "i \<le> length buf"
  shows "ascii_run buf i \<le> length buf \<and> (\<forall>k. i \<le> k \<and> k < ascii_run buf i \<longrightarrow> is_ascii_byte (buf ! k))
    \<and> (ascii_run buf i = length buf \<or> \<not> is_ascii_byte (buf ! ascii_run buf i))"
  using assms
proof (induction buf i rule: ascii_run.induct)
  case (1 buf i)
  show ?case
  proof (cases "i < length buf \<and> is_ascii_byte (buf ! i)")
    case True
    with 1 have IH: "ascii_run buf (i + 1) \<le> length buf
      \<and> (\<forall>k. i + 1 \<le> k \<and> k < ascii_run buf (i + 1) \<longrightarrow> is_ascii_byte (buf ! k))
      \<and> (ascii_run buf (i + 1) = length buf \<or> \<not> is_ascii_byte (buf ! ascii_run buf (i + 1)))" by simp
    have "ascii_run buf i = ascii_run buf (i + 1)" by (subst ascii_run.simps) (simp add: True)
    with IH True show ?thesis by (metis Suc_eq_plus1 le_antisym not_less_eq_eq)
  next
    case False
    then have "ascii_run buf i = i" by (subst ascii_run.simps) auto
    with False 1 show ?thesis by auto
  qed
qed

lemma maximal_run_le:
  assumes "maximal_run buf i j" "maximal_run buf i k"
  shows "k \<le> j"
proof (rule ccontr)
  assume "\<not> k \<le> j"
  with assms have "i \<le> j \<and> j < k" "j \<noteq> length buf" by (simp_all add: maximal_run_def)
  then have "is_ascii_byte (buf ! j)" "\<not> is_ascii_byte (buf ! j)"
    using assms unfolding maximal_run_def by blast+
  then show False by contradiction
qed

lemma maximal_run_unique: "maximal_run buf i j \<Longrightarrow> maximal_run buf i k \<Longrightarrow> j = k"
  by (simp add: maximal_run_le order_antisym)

lemma maximal_run_from:
  assumes "i < length buf" "is_ascii_byte (buf ! i)" "i = 0 \<or> \<not> is_ascii_byte (buf ! (i - 1))"
  shows "maximal_run buf i (ascii_run buf i)"
  using assms ascii_run_spec [of i buf] ascii_run_progress [of i buf] by (auto simp: maximal_run_def)

lemma maximal_run_after:
  assumes "maximal_run buf i j" "maximal_run buf a b" "i \<le> a"
  shows "(a = i \<and> b = j) \<or> j \<le> a"
proof (cases "a = i")
  case True
  with assms maximal_run_unique show ?thesis by blast
next
  case False
  with assms(3) have "i \<le> a - 1" "a - 1 < j \<or> j \<le> a" by auto
  moreover have "\<not> is_ascii_byte (buf ! (a - 1))" using assms(2,3) False by (auto simp: maximal_run_def)
  ultimately show ?thesis using assms(1) by (auto simp: maximal_run_def)
qed

definition runs_from :: "u8 list \<Rightarrow> nat \<Rightarrow> nat \<Rightarrow> extracted_string set" where
  "runs_from buf n i = {run_string buf a b | a b. maximal_run buf a b \<and> i \<le> a \<and> n \<le> b - a}"

lemma runs_from_skip:
  assumes "\<not> is_ascii_byte (buf ! i)"
  shows "runs_from buf n i = runs_from buf n (Suc i)"
proof -
  have "a \<noteq> i" if "maximal_run buf a b" for a b
  proof
    assume "a = i"
    with that have "is_ascii_byte (buf ! i)" by (simp add: maximal_run_def)
    with assms show False by contradiction
  qed
  then have "i \<le> a \<longleftrightarrow> Suc i \<le> a" if "maximal_run buf a b" for a b
    using that by (metis Suc_leD Suc_leI le_neq_implies_less)
  then have eq: "(maximal_run buf a b \<and> i \<le> a \<and> n \<le> b - a) = (maximal_run buf a b \<and> Suc i \<le> a \<and> n \<le> b - a)" for a b
    by (cases "maximal_run buf a b") simp_all
  show ?thesis unfolding runs_from_def eq by (rule refl)
qed

lemma runs_from_step:
  assumes "maximal_run buf i j"
  shows "runs_from buf n i = (if n \<le> j - i then {run_string buf i j} else {}) \<union> runs_from buf n j"
proof -
  have "i < j" using assms by (simp add: maximal_run_def)
  have "(maximal_run buf a b \<and> i \<le> a) \<longleftrightarrow> (a = i \<and> b = j) \<or> (maximal_run buf a b \<and> j \<le> a)" for a b
    using maximal_run_after [OF assms, of a b] assms \<open>i < j\<close> by auto
  then have eq: "(maximal_run buf a b \<and> i \<le> a \<and> n \<le> b - a) =
      (((a = i \<and> b = j) \<or> (maximal_run buf a b \<and> j \<le> a)) \<and> n \<le> b - a)" for a b
    by (simp add: conj_assoc [symmetric])
  have "runs_from buf n i = {run_string buf a b | a b. ((a = i \<and> b = j) \<or> (maximal_run buf a b \<and> j \<le> a)) \<and> n \<le> b - a}"
    unfolding runs_from_def eq by (rule refl)
  also have "\<dots> = (if n \<le> j - i then {run_string buf i j} else {}) \<union> runs_from buf n j"
    unfolding runs_from_def by auto
  finally show ?thesis .
qed

lemma ascii_scan_runs:
  assumes "i \<le> length buf" "i < length buf \<Longrightarrow> is_ascii_byte (buf ! i) \<Longrightarrow> i = 0 \<or> \<not> is_ascii_byte (buf ! (i - 1))"
  shows "\<exists>R. ascii_scan buf n i out = out @ R \<and> set R = runs_from buf n i
    \<and> sorted_wrt (<) (map es_offset R) \<and> (\<forall>e \<in> set R. i \<le> es_offset e)"
  using assms
proof (induction buf n i out rule: ascii_scan.induct)
  case (1 buf n i out)
  show ?case
  proof (cases "i < length buf")
    case False
    then have "ascii_scan buf n i out = out" by (subst ascii_scan.simps) simp
    moreover have "runs_from buf n i = {}" using False by (auto simp: runs_from_def maximal_run_def)
    ultimately show ?thesis by (intro exI [of _ "[]"]) simp
  next
    case in_range: True
    show ?thesis
    proof (cases "is_ascii_byte (buf ! i)")
      case False
      from "1.IH"(2) [OF in_range False] in_range False obtain R where
        R: "ascii_scan buf n (i + 1) out = out @ R" "set R = runs_from buf n (i + 1)"
          "sorted_wrt (<) (map es_offset R)" "\<forall>e \<in> set R. i + 1 \<le> es_offset e" by auto
      have "ascii_scan buf n i out = ascii_scan buf n (i + 1) out"
        by (subst ascii_scan.simps) (simp add: in_range False)
      with R runs_from_skip [OF False, of n] show ?thesis by (intro exI [of _ R]) auto
    next
      case True
      let ?j = "ascii_run buf i"
      let ?new = "if n \<le> ?j - i then [run_string buf i ?j] else []"
      have mr: "maximal_run buf i ?j" by (rule maximal_run_from [OF in_range True "1.prems"(2) [OF in_range True]])
      have "\<exists>R. ascii_scan buf n ?j (if n \<le> ?j - i then out @ [run_string buf i ?j] else out)
            = (if n \<le> ?j - i then out @ [run_string buf i ?j] else out) @ R
          \<and> set R = runs_from buf n ?j \<and> sorted_wrt (<) (map es_offset R) \<and> (\<forall>e \<in> set R. ?j \<le> es_offset e)"
        using mr by (intro "1.IH"(1) [OF in_range True refl refl]) (auto simp: maximal_run_def)
      then obtain R where R: "ascii_scan buf n ?j (if n \<le> ?j - i then out @ [run_string buf i ?j] else out)
            = (if n \<le> ?j - i then out @ [run_string buf i ?j] else out) @ R"
          "set R = runs_from buf n ?j" "sorted_wrt (<) (map es_offset R)" "\<forall>e \<in> set R. ?j \<le> es_offset e"
        by blast
      have "ascii_scan buf n i out = out @ (?new @ R)"
        using R(1) by (subst ascii_scan.simps) (simp add: in_range True Let_def)
      moreover have "set (?new @ R) = runs_from buf n i"
        using R(2) runs_from_step [OF mr, of n] by simp
      moreover have "i < ?j" using mr by (simp add: maximal_run_def)
      then have "sorted_wrt (<) (map es_offset (?new @ R))" "\<forall>e \<in> set (?new @ R). i \<le> es_offset e"
        using R(3,4) by auto
      ultimately show ?thesis by blast
    qed
  qed
qed

text \<open>
  The ASCII scanner reports exactly the maximal runs of printable bytes and tabs of at
  least the minimum length, each once with its text and offset and in the order of their
  offsets; a buffer filled with one of the padding bytes has no strings.
\<close>

lemma ascii_strings_correct:
  "sorted_wrt (<) (map es_offset (extract_ascii_strings buf n))
   \<and> set (extract_ascii_strings buf n) =
      (if skip_buffer buf n then {}
       else {\<lparr>es_s = map byte_char (drop i (take j buf)), es_offset = i\<rparr> | i j. maximal_run buf i j \<and> n \<le> j - i})"
proof (cases "skip_buffer buf n")
  case True
  then show ?thesis by (simp add: extract_ascii_strings_def)
next
  case False
  obtain R where "ascii_scan buf n 0 [] = [] @ R" "set R = runs_from buf n 0" "sorted_wrt (<) (map es_offset R)"
    using ascii_scan_runs [of 0 buf n "[]"] by auto
  with False show ?thesis by (simp add: extract_ascii_strings_def runs_from_def)
qed

section \<open>Wide runs\<close>

text \<open>\<open>m\<close> printable bytes, each followed by a zero byte.\<close>

definition wide_at :: "u8 list \<Rightarrow> nat \<Rightarrow> nat \<Rightarrow> bool" where
  "wide_at buf p m \<longleftrightarrow> (\<forall>k < m. is_pair_at buf (p + 2 * k))"

definition wide_string :: "u8 list \<Rightarrow> nat \<Rightarrow> nat \<Rightarrow> extracted_string" where
  "wide_string buf p m = \<lparr>es_s = map (\<lambda>k. byte_char (buf ! (p + 2 * k))) [0..<m], es_offset = p\<rparr>"

lemma wide_at_0 [simp]: "wide_at buf p 0"
  by (simp add: wide_at_def)

lemma wide_at_Suc: "wide_at buf p (Suc m) \<longleftrightarrow> is_pair_at buf p \<and> wide_at buf (p + 2) m"
proof
  assume w: "wide_at buf p (Suc m)"
  have "is_pair_at buf (p + 2 + 2 * k)" if "k < m" for k
    using w that unfolding wide_at_def by (auto dest: spec [of _ "Suc k"])
  with w show "is_pair_at buf p \<and> wide_at buf (p + 2) m" by (auto simp: wide_at_def)
next
  assume w: "is_pair_at buf p \<and> wide_at buf (p + 2) m"
  show "wide_at buf p (Suc m)"
    unfolding wide_at_def
  proof (intro allI impI)
    fix k
    assume "k < Suc m"
    with w show "is_pair_at buf (p + 2 * k)" by (cases k) (auto simp: wide_at_def)
  qed
qed

lemma pair_count_ge_iff: "m \<le> pair_count buf p \<longleftrightarrow> wide_at buf p m"
proof (induction m arbitrary: p)
  case 0
  then show ?case by simp
next
  case (Suc m)
  then show ?case by (subst pair_count.simps) (simp add: wide_at_Suc)
qed

lemma wide_at_pair_count: "wide_at buf p (pair_count buf p)" "\<not> is_pair_at buf (p + 2 * pair_count buf p)"
proof -
  show w: "wide_at buf p (pair_count buf p)" using pair_count_ge_iff by blast
  show "\<not> is_pair_at buf (p + 2 * pair_count buf p)"
  proof
    assume "is_pair_at buf (p + 2 * pair_count buf p)"
    with w have "wide_at buf p (Suc (pair_count buf p))" by (auto simp: wide_at_def less_Suc_eq)
    then show False using pair_count_ge_iff [of "Suc (pair_count buf p)" buf p] by simp
  qed
qed

lemma wide_at_bound: "wide_at buf p m \<Longrightarrow> 0 < m \<Longrightarrow> p + 2 * m \<le> length buf"
  by (cases m) (auto simp: wide_at_def is_pair_at_def dest: spec [of _ "m - 1"])

lemma chunks2_slice:
  "p + 2 * m \<le> length buf \<Longrightarrow>
   map (\<lambda>(a, _). byte_char a) (chunks2 (drop p (take (p + 2 * m) buf))) = map (\<lambda>k. byte_char (buf ! (p + 2 * k))) [0..<m]"
proof (induction m arbitrary: p)
  case 0
  then show ?case by simp
next
  case (Suc m)
  let ?t = "take (p + 2 * Suc m) buf"
  have t: "length ?t = p + 2 * Suc m" using Suc.prems by simp
  have "drop p ?t = ?t ! p # drop (Suc p) ?t" "drop (Suc p) ?t = ?t ! Suc p # drop (Suc (Suc p)) ?t"
    by (rule Cons_nth_drop_Suc [symmetric]; simp only: t; simp)+
  then have "drop p ?t = ?t ! p # ?t ! Suc p # drop (Suc (Suc p)) ?t" by (simp only:)
  also have "\<dots> = buf ! p # buf ! Suc p # drop (p + 2) (take ((p + 2) + 2 * m) buf)" by simp
  finally have d: "drop p ?t = buf ! p # buf ! Suc p # drop (p + 2) (take ((p + 2) + 2 * m) buf)" .
  have "map (\<lambda>k. byte_char (buf ! (p + 2 * k))) [0..<Suc m]
      = byte_char (buf ! p) # map (\<lambda>k. byte_char (buf ! (p + 2 + 2 * k))) [0..<m]"
    by (simp add: upt_conv_Cons map_Suc_upt [symmetric] del: upt_Suc)
  with Suc.IH [of "p + 2"] Suc.prems d show ?case by simp
qed

text \<open>What the scanner reports from an index on.\<close>

definition wide_ok :: "u8 list \<Rightarrow> nat \<Rightarrow> extracted_string \<Rightarrow> bool" where
  "wide_ok buf n e \<longleftrightarrow> (\<exists>m. e = wide_string buf (es_offset e) m \<and> n \<le> m \<and> wide_at buf (es_offset e) m
     \<and> \<not> is_pair_at buf (es_offset e + 2 * m))"

definition wide_runs :: "u8 list \<Rightarrow> nat \<Rightarrow> nat \<Rightarrow> extracted_string list \<Rightarrow> bool" where
  "wide_runs buf n i R \<longleftrightarrow>
     (\<forall>e \<in> set R. wide_ok buf n e \<and> i \<le> es_offset e)
     \<and> sorted_wrt (\<lambda>e f. es_offset e + 2 * length (es_s e) \<le> es_offset f) R
     \<and> (\<forall>p. i \<le> p \<and> wide_at buf p n \<longrightarrow>
          (\<exists>e \<in> set R. es_offset e \<le> p \<and> p < es_offset e + 2 * length (es_s e)))"

lemma length_wide_string [simp]:
  "length (es_s (wide_string buf p m)) = m" "es_offset (wide_string buf p m) = p"
  by (simp_all add: wide_string_def)

lemma wide_runs_Cons:
  assumes "wide_runs buf n (i + 2 * m) R" "n \<le> m" "wide_at buf i m" "\<not> is_pair_at buf (i + 2 * m)"
  shows "wide_runs buf n i (wide_string buf i m # R)"
proof -
  have "\<exists>e \<in> set (wide_string buf i m # R). es_offset e \<le> p \<and> p < es_offset e + 2 * length (es_s e)"
    if "i \<le> p" "wide_at buf p n" for p
    using assms(1) that unfolding wide_runs_def
    by (cases "p < i + 2 * m") (auto simp: not_less)
  moreover have "\<forall>e \<in> set R. wide_ok buf n e \<and> i + 2 * m \<le> es_offset e"
    and "sorted_wrt (\<lambda>e f. es_offset e + 2 * length (es_s e) \<le> es_offset f) R"
    using assms(1) unfolding wide_runs_def by blast+
  moreover have "wide_ok buf n (wide_string buf i m)" using assms(2-4) unfolding wide_ok_def by force
  ultimately show ?thesis unfolding wide_runs_def by fastforce
qed

lemma wide_runs_skip:
  assumes "wide_runs buf n (i + 1) R" "\<not> wide_at buf i n"
  shows "wide_runs buf n i R"
proof -
  have "i + 1 \<le> p" if "i \<le> p" "wide_at buf p n" for p
    using that assms(2) by (cases "p = i") auto
  with assms(1) show ?thesis unfolding wide_runs_def by fastforce
qed

lemma unicode_scan_runs:
  assumes "1 \<le> n"
  shows "\<exists>R. unicode_scan buf n i out = out @ R \<and> wide_runs buf n i R"
  using assms
proof (induction buf n i out rule: unicode_scan.induct)
  case (1 buf n i out)
  let ?m = "pair_count buf i"
  have run: "pair_run buf i 0 = (i + 2 * ?m, ?m)" by (simp add: pair_run_eq)
  show ?case
  proof (cases "i + 1 < length buf")
    case False
    then have "unicode_scan buf n i out = out" by (subst unicode_scan.simps) simp
    moreover have "\<not> wide_at buf p n" if "i \<le> p" for p
      using wide_at_bound [of buf p n] that False "1.prems" by auto
    ultimately show ?thesis by (intro exI [of _ "[]"]) (simp add: wide_runs_def)
  next
    case in_range: True
    show ?thesis
    proof (cases "n \<le> ?m")
      case True
      let ?e = "wide_string buf i ?m"
      have "i + 2 * ?m \<le> length buf" using wide_at_bound [OF wide_at_pair_count(1)] True "1.prems" by simp
      then have e: "\<lparr>es_s = map (\<lambda>(a, _). byte_char a) (chunks2 (drop i (take (i + 2 * ?m) buf))), es_offset = i\<rparr> = ?e"
        by (simp add: wide_string_def chunks2_slice)
      have step: "unicode_scan buf n i out = unicode_scan buf n (i + 2 * ?m) (out @ [?e])"
        using in_range "1.prems" True by (subst unicode_scan.simps) (simp add: pair_run_eq e)
      have "\<exists>R. unicode_scan buf n (i + 2 * ?m) (out @ [?e]) = (out @ [?e]) @ R \<and> wide_runs buf n (i + 2 * ?m) R"
        by (rule "1.IH"(1) [OF conjI [OF in_range "1.prems"] refl run [symmetric] True "1.prems", unfolded e])
      then obtain R where
        "unicode_scan buf n (i + 2 * ?m) (out @ [?e]) = (out @ [?e]) @ R" "wide_runs buf n (i + 2 * ?m) R"
        by blast
      with step wide_runs_Cons [OF _ True wide_at_pair_count] show ?thesis
        by (intro exI [of _ "?e # R"]) simp
    next
      case False
      have step: "unicode_scan buf n i out = unicode_scan buf n (i + 1) out"
        using in_range "1.prems" False by (subst unicode_scan.simps) (simp add: pair_run_eq)
      have "\<exists>R. unicode_scan buf n (i + 1) out = out @ R \<and> wide_runs buf n (i + 1) R"
        by (rule "1.IH"(2) [OF conjI [OF in_range "1.prems"] refl run [symmetric] False "1.prems"])
      then obtain R where "unicode_scan buf n (i + 1) out = out @ R" "wide_runs buf n (i + 1) R" by blast
      with step wide_runs_skip False pair_count_ge_iff show ?thesis by auto
    qed
  qed
qed

text \<open>
  The UTF-16LE scanner reports runs of at least the minimum number of printable bytes
  each followed by a zero, with their text, extended as far to the right as possible, in
  the order of their offsets and without overlap; and every place where such a run of the
  minimum length starts, at an even or an odd offset, lies within a reported string.
\<close>

lemma unicode_strings_correct:
  "\<not> skip_buffer buf n \<longrightarrow>
     (\<forall>e \<in> set (extract_unicode_strings buf n). wide_ok buf n e)
     \<and> sorted_wrt (\<lambda>e f. es_offset e + 2 * length (es_s e) \<le> es_offset f) (extract_unicode_strings buf n)
     \<and> (\<forall>p. wide_at buf p n \<longrightarrow> (\<exists>e \<in> set (extract_unicode_strings buf n).
          es_offset e \<le> p \<and> p < es_offset e + 2 * length (es_s e)))"
proof (rule impI)
  assume ns: "\<not> skip_buffer buf n"
  then have "1 \<le> n" by (auto simp: skip_buffer_def)
  from unicode_scan_runs [OF this, of buf 0 "[]"] have "wide_runs buf n 0 (unicode_scan buf n 0 [])" by auto
  with ns show "(\<forall>e \<in> set (extract_unicode_strings buf n). wide_ok buf n e)
     \<and> sorted_wrt (\<lambda>e f. es_offset e + 2 * length (es_s e) \<le> es_offset f) (extract_unicode_strings buf n)
     \<and> (\<forall>p. wide_at buf p n \<longrightarrow> (\<exists>e \<in> set (extract_unicode_strings buf n).
          es_offset e \<le> p \<and> p < es_offset e + 2 * length (es_s e)))"
    unfolding wide_runs_def extract_unicode_strings_def by auto
qed

lemma unicode_strings_correct_witness:
  "\<exists>e \<in> set (extract_unicode_strings [0x41, 0x62, 0, 0x63, 0, 0] 2). es_offset e \<le> 1 \<and> 1 < es_offset e + 2 * length (es_s e)"
proof -
  have "\<not> skip_buffer [0x41, 0x62, 0, 0x63, 0, 0] 2" by code_simp
  moreover have "wide_at [0x41, 0x62, 0, 0x63, 0, 0] 1 2"
  proof -
    have "is_pair_at [0x41, 0x62, 0, 0x63, 0, 0] 1" "is_pair_at [0x41, 0x62, 0, 0x63, 0, 0] (1 + 2)" by code_simp+
    then have "wide_at [0x41, 0x62, 0, 0x63, 0, 0] 1 (Suc (Suc 0))" by (simp only: wide_at_Suc wide_at_0 simp_thms)
    then show ?thesis by (simp only: numeral_2_eq_2)
  qed
  ultimately show ?thesis using unicode_strings_correct [of "[0x41, 0x62, 0, 0x63, 0, 0]" 2] by blast
qed

section \<open>Strings at an address\<close>

lemma detect_string_Some:
  "detect_string buf = Some s \<longleftrightarrow>
     (\<exists>k. 4 \<le> k \<and> k < length buf \<and> buf ! k = 0 \<and> (\<forall>i < k. is_viv_printable_byte (buf ! i)) \<and> s = map byte_char (take k buf))"
proof -
  let ?n = "length (takeWhile is_viv_printable_byte buf)"
  have zero: "\<not> is_viv_printable_byte 0" by (simp add: is_viv_printable_byte_def is_ascii_byte_def)
  have "k = ?n" if "k < length buf" "buf ! k = 0" "\<forall>i < k. is_viv_printable_byte (buf ! i)" for k
  proof -
    have "takeWhile is_viv_printable_byte buf = take k buf"
      by (rule takeWhile_eq_take_P_nth) (use that zero in simp_all)
    with that(1) show ?thesis by simp
  qed
  moreover have "\<forall>i < ?n. is_viv_printable_byte (buf ! i)"
    by (metis nth_mem set_takeWhileD takeWhile_nth)
  moreover have "detect_string buf = Some s \<longleftrightarrow>
      4 \<le> ?n \<and> ?n < length buf \<and> buf ! ?n = 0 \<and> s = map byte_char (take ?n buf)"
    by (auto simp: detect_string_def Let_def MIN_STRING_LEN_def)
  ultimately show ?thesis by metis
qed

lemma take_chunks2: "2 * m \<le> length buf \<Longrightarrow> take m (chunks2 buf) = map (\<lambda>i. (buf ! (2 * i), buf ! (2 * i + 1))) [0..<m]"
proof (induction m arbitrary: buf)
  case 0
  then show ?case by simp
next
  case (Suc m)
  then obtain a b xs where buf: "buf = a # b # xs" by (metis Suc_length_conv Suc_le_length_iff mult_Suc_right add_2_eq_Suc)
  have "map (\<lambda>i. (buf ! (2 * i), buf ! (2 * i + 1))) [0..<Suc m] = (a, b) # map (\<lambda>i. (xs ! (2 * i), xs ! (2 * i + 1))) [0..<m]"
    by (simp add: buf upt_conv_Cons map_Suc_upt [symmetric] del: upt_Suc)
  with Suc buf show ?case by simp
qed

lemma collect_chars_total: "collect_chars cs \<noteq> None \<longleftrightarrow> (\<forall>c \<in> set cs. c \<noteq> None)"
  by (induction cs) (auto split: option.splits)

lemma surrogate_iff: "char_from_u16 (u16_from_le low high) = None \<longleftrightarrow> 0xD8 \<le> high \<and> high \<le> 0xDF"
proof -
  have "unat low < 256" using unsigned_less [of low] by simp
  then have "0xD800 \<le> u16_from_le low high \<and> u16_from_le low high \<le> 0xDFFF \<longleftrightarrow> 0xD8 \<le> unat high \<and> unat high \<le> 0xDF"
    by (auto simp: u16_from_le_def)
  moreover have "0xD8 \<le> unat high \<longleftrightarrow> 0xD8 \<le> high" "unat high \<le> 0xDF \<longleftrightarrow> high \<le> 0xDF"
    by (simp_all add: word_le_nat_alt)
  ultimately show ?thesis by (simp add: char_from_u16_def)
qed

text \<open>\<open>m\<close> code units with printable low bytes and one high byte, then a zero low byte.\<close>

definition wide_terminated :: "u8 list \<Rightarrow> u8 \<Rightarrow> nat \<Rightarrow> nat \<Rightarrow> bool" where
  "wide_terminated buf charset c m \<longleftrightarrow> c \<le> m \<and> 2 * m + 1 < length buf \<and> buf ! (2 * m) = 0
     \<and> (\<forall>i. c \<le> i \<and> i < m \<longrightarrow> is_viv_printable_byte (buf ! (2 * i)) \<and> buf ! (2 * i + 1) = charset)"

lemma unicode_loop_total:
  "unicode_loop buf charset (2 * c) \<noteq> None \<longleftrightarrow>
     (\<exists>m. wide_terminated buf charset c m \<and> 5 \<le> m \<and> (\<forall>i < m. char_from_u16 (u16_from_le (buf ! (2 * i)) (buf ! (2 * i + 1))) \<noteq> None))"
proof (induction "length buf - 2 * c" arbitrary: c rule: less_induct)
  case less
  have zero: "\<not> is_viv_printable_byte 0" by (simp add: is_viv_printable_byte_def is_ascii_byte_def)
  show ?case
  proof (cases "2 * c + 1 < length buf")
    case False
    then have "\<not> wide_terminated buf charset c m" for m by (auto simp: wide_terminated_def)
    with False show ?thesis by (subst unicode_loop.simps) simp
  next
    case in_range: True
    show ?thesis
    proof (cases "buf ! (2 * c) = 0")
      case True
      have w: "wide_terminated buf charset c m \<longleftrightarrow> m = c" for m
        using True in_range zero unfolding wide_terminated_def by (metis le_neq_implies_less le_refl not_less)
      have "2 * c \<le> length buf" using in_range by simp
      note t = take_chunks2 [OF this]
      have "unicode_loop buf charset (2 * c) = (if 2 * c < 9 then None
          else collect_chars (map (\<lambda>(a, b). char_from_u16 (u16_from_le a b)) (map (\<lambda>i. (buf ! (2 * i), buf ! (2 * i + 1))) [0..<c])))"
        using in_range True by (subst unicode_loop.simps) (simp add: MIN_UNICODE_BYTES_def t)
      moreover have "2 * c < 9 \<longleftrightarrow> \<not> 5 \<le> c" by auto
      ultimately show ?thesis unfolding w by (auto simp: collect_chars_total simp del: not_None_eq)
    next
      case False
      show ?thesis
      proof (cases "is_viv_printable_byte (buf ! (2 * c)) \<and> buf ! (2 * c + 1) = charset")
        case True
        have "unicode_loop buf charset (2 * c) = unicode_loop buf charset (2 * Suc c)"
          using in_range False True by (subst unicode_loop.simps) simp
        moreover have "wide_terminated buf charset (Suc c) m \<longleftrightarrow> wide_terminated buf charset c m" for m
          using True False unfolding wide_terminated_def by (metis Suc_leD Suc_leI le_neq_implies_less order_le_less)
        moreover have "length buf - 2 * Suc c < length buf - 2 * c" using in_range by simp
        ultimately show ?thesis using less [of "Suc c"] by simp
      next
        case bad: False
        have "\<not> wide_terminated buf charset c m" for m
          using bad False unfolding wide_terminated_def by (metis le_neq_implies_less le_refl)
        with bad False in_range show ?thesis by (subst unicode_loop.simps) simp
      qed
    qed
  qed
qed

text \<open>
  A string starts at the beginning of a buffer exactly when the buffer begins with at
  least four printable bytes and a zero, or with at least five UTF-16LE code units of
  printable low bytes and one common high byte that is not a surrogate's, followed by a
  code unit with a zero low byte.
\<close>

lemma is_probably_string_iff:
  "is_probably_string buf \<longleftrightarrow>
     (\<exists>k. 4 \<le> k \<and> k < length buf \<and> buf ! k = 0 \<and> (\<forall>i < k. is_viv_printable_byte (buf ! i)))
     \<or> (\<exists>m. 5 \<le> m \<and> 2 * m + 1 < length buf \<and> buf ! (2 * m) = 0
          \<and> (\<forall>i < m. is_viv_printable_byte (buf ! (2 * i)) \<and> buf ! (2 * i + 1) = buf ! 1)
          \<and> \<not> (0xD8 \<le> buf ! 1 \<and> buf ! 1 \<le> 0xDF))"
proof -
  have a: "detect_string buf \<noteq> None \<longleftrightarrow>
      (\<exists>k. 4 \<le> k \<and> k < length buf \<and> buf ! k = 0 \<and> (\<forall>i < k. is_viv_printable_byte (buf ! i)))"
    using detect_string_Some [of buf] by blast
  have "(wide_terminated buf (buf ! 1) 0 m \<and> 5 \<le> m \<and> (\<forall>i < m. char_from_u16 (u16_from_le (buf ! (2 * i)) (buf ! (2 * i + 1))) \<noteq> None))
      \<longleftrightarrow> 5 \<le> m \<and> 2 * m + 1 < length buf \<and> buf ! (2 * m) = 0
          \<and> (\<forall>i < m. is_viv_printable_byte (buf ! (2 * i)) \<and> buf ! (2 * i + 1) = buf ! 1)
          \<and> \<not> (0xD8 \<le> buf ! 1 \<and> buf ! 1 \<le> 0xDF)" for m
    unfolding surrogate_iff wide_terminated_def by (cases "5 \<le> m") (auto dest: spec [of _ 0])
  then have b: "detect_unicode buf \<noteq> None \<longleftrightarrow> (\<exists>m. 5 \<le> m \<and> 2 * m + 1 < length buf \<and> buf ! (2 * m) = 0
          \<and> (\<forall>i < m. is_viv_printable_byte (buf ! (2 * i)) \<and> buf ! (2 * i + 1) = buf ! 1)
          \<and> \<not> (0xD8 \<le> buf ! 1 \<and> buf ! 1 \<le> 0xDF))"
    using unicode_loop_total [of buf "buf ! 1" 0] by (auto simp: detect_unicode_def)
  have "is_probably_string buf \<longleftrightarrow> detect_string buf \<noteq> None \<or> detect_unicode buf \<noteq> None"
    by (auto simp: is_probably_string_def string_at_def split: option.split)
  then show ?thesis unfolding a b .
qed

lemma is_probably_string_iff_witness:
  "is_probably_string [0x61, 0x62, 0x63, 0x64, 0] \<and> \<not> is_probably_string [0x61, 0x62, 0x63, 0x64]"
proof
  have four: "i = 0 \<or> i = 1 \<or> i = 2 \<or> i = 3" if "i < 4" for i :: nat using that by linarith
  then have "\<forall>i < 4. is_viv_printable_byte ([0x61, 0x62, 0x63, 0x64, 0] ! i)"
    by (auto simp: is_viv_printable_byte_def is_ascii_byte_def dest!: four)
  then have "4 \<le> (4::nat) \<and> 4 < length [0x61, 0x62, 0x63, 0x64, 0 :: u8] \<and> [0x61, 0x62, 0x63, 0x64, 0 :: u8] ! 4 = 0
      \<and> (\<forall>i < 4. is_viv_printable_byte ([0x61, 0x62, 0x63, 0x64, 0] ! i))" by simp
  then show "is_probably_string [0x61, 0x62, 0x63, 0x64, 0]"
    using is_probably_string_iff [of "[0x61, 0x62, 0x63, 0x64, 0]"] by blast
  have "[0x61, 0x62, 0x63, 0x64 :: u8] ! k \<noteq> 0" if "k < 4" for k
    using four [OF that] by auto
  then show "\<not> is_probably_string [0x61, 0x62, 0x63, 0x64]"
    using is_probably_string_iff [of "[0x61, 0x62, 0x63, 0x64]"] by auto
qed

end
