(* ===== verification/Carve.thy ===== *)
theory Carve
  imports Rust_Str
begin

unbundle bit_operations_syntax

text \<open>
  \<^verbatim>\<open>capa-x/src/extract/helpers.rs\<close>: the tests on symbol names and the scan for embedded,
  possibly XOR-encoded executables. The additions of offsets, checked in the source, cannot
  overflow, since an offset is below the length of a buffer; they are additions of natural
  numbers. The lowercasing of a library name is the parameter \<open>lower\<close>.
\<close>

definition is_aw_function :: "string \<Rightarrow> bool" where
  "is_aw_function symbol =
     (if length symbol < 2 then False else last symbol \<in> {CHR ''A'', CHR ''W''})"

definition is_ordinal :: "string \<Rightarrow> bool" where
  "is_ordinal symbol = starts_with symbol ''#''"

text \<open>
  \<open>lower\<close> is \<^verbatim>\<open>str::to_lowercase\<close>, whose Unicode tables are a parameter.
\<close>

definition strip_or_keep :: "string \<Rightarrow> string \<Rightarrow> string" where
  "strip_or_keep ext s = (case strip_suffix ext s of None \<Rightarrow> s | Some t \<Rightarrow> t)"

definition generate_symbols :: "(string \<Rightarrow> string) \<Rightarrow> string \<Rightarrow> string \<Rightarrow> bool \<Rightarrow> string list" where
  "generate_symbols lower dll symbol include_dll =
     (let dll = strip_or_keep ''.so'' (strip_or_keep ''.drv'' (strip_or_keep ''.dll'' (lower dll)));
          ordinal = is_ordinal symbol
      in (if include_dll \<or> ordinal then [dll @ ''.'' @ symbol] else [])
         @ (if \<not> ordinal then
              symbol #
              (if is_aw_function symbol then
                 (let trimmed = take (length symbol - 1) symbol
                  in (if include_dll then [dll @ ''.'' @ trimmed] else []) @ [trimmed])
               else [])
            else []))"

definition reformat_forwarded_export_name :: "(string \<Rightarrow> string) \<Rightarrow> string \<Rightarrow> string" where
  "reformat_forwarded_export_name lower forwarded_name =
     (let (dll, symbol) = (case rfind_char CHR ''.'' forwarded_name of
                             Some idx \<Rightarrow> (take idx forwarded_name, drop (idx + 1) forwarded_name)
                           | None \<Rightarrow> ([], forwarded_name))
      in lower dll @ ''.'' @ symbol)"

definition all_zeros :: "u8 list \<Rightarrow> bool" where
  "all_zeros bytes = list_all (\<lambda>b. b = 0) bytes"

definition MAX_OFFSET_PE_AFTER_MZ :: nat where
  "MAX_OFFSET_PE_AFTER_MZ = 0x200"

text \<open>\<^verbatim>\<open>buf.get(i..).and_then(|tail| tail.get(..n))\<close>.\<close>

definition get_slice :: "u8 list \<Rightarrow> nat \<Rightarrow> nat \<Rightarrow> u8 list option" where
  "get_slice buf i n = (if i \<le> length buf \<and> n \<le> length (drop i buf) then Some (take n (drop i buf)) else None)"

text \<open>\<^verbatim>\<open>u32::from_le_bytes\<close>.\<close>

definition u32_from_le :: "u8 \<Rightarrow> u8 \<Rightarrow> u8 \<Rightarrow> u8 \<Rightarrow> nat" where
  "u32_from_le a b c d = unat a + 256 * unat b + 65536 * unat c + 16777216 * unat d"

text \<open>The candidate at one position, whose first byte determines the key.\<close>

definition carve_at :: "u8 list \<Rightarrow> nat \<Rightarrow> u8 \<Rightarrow> u8 \<Rightarrow> (nat \<times> u8) option" where
  "carve_at buf off first second =
     (let key = first XOR 0x4D
      in if second XOR key \<noteq> 0x5A then None
         else
           (case get_slice buf (off + 0x3c) 4 of
              Some [a, b, c, d] \<Rightarrow>
                let newoff = u32_from_le (a XOR key) (b XOR key) (c XOR key) (d XOR key)
                in if MAX_OFFSET_PE_AFTER_MZ < newoff then None
                   else if get_slice buf (off + newoff) 2 = Some [0x50 XOR key, 0x45 XOR key]
                   then Some (off, key) else None
            | _ \<Rightarrow> None))"

definition carve_pe :: "u8 list \<Rightarrow> nat \<Rightarrow> (nat \<times> u8) list" where
  "carve_pe buf offset =
     (if length buf < offset then []
      else
        let tail = drop offset buf;
            out = List.map_filter (\<lambda>(relative, first, second). carve_at buf (offset + relative) first second)
                    (zip [0..<length tail] (zip tail (tl tail)))
        in sort_key (\<lambda>(off, key). (- uint key, off)) out)"

section \<open>The reference: one scan per key\<close>

text \<open>An executable at an offset of a decoded buffer.\<close>

definition lfanew :: "u8 list \<Rightarrow> nat \<Rightarrow> nat" where
  "lfanew buf e = u32_from_le (buf ! e) (buf ! (e + 1)) (buf ! (e + 2)) (buf ! (e + 3))"

definition pe_at :: "u8 list \<Rightarrow> nat \<Rightarrow> bool" where
  "pe_at buf off \<longleftrightarrow>
     off + 1 < length buf \<and> buf ! off = 0x4D \<and> buf ! (off + 1) = 0x5A \<and> off + 0x3c + 4 \<le> length buf
     \<and> (let n = lfanew buf (off + 0x3c)
        in n \<le> 0x200 \<and> off + n + 2 \<le> length buf \<and> buf ! (off + n) = 0x50 \<and> buf ! (off + n + 1) = 0x45)"

abbreviation xor_all :: "u8 \<Rightarrow> u8 list \<Rightarrow> u8 list" where
  "xor_all key buf \<equiv> map (\<lambda>b. b XOR key) buf"

lemma xor_eq_iff: "(x :: u8) XOR k = m \<longleftrightarrow> k = x XOR m"
  by (metis xor.assoc xor.left_neutral xor_self_eq)

lemma get_slice_2:
  "get_slice buf i 2 = Some [x, y] \<longleftrightarrow> i + 2 \<le> length buf \<and> buf ! i = x \<and> buf ! (i + 1) = y"
proof (cases "i + 2 \<le> length buf")
  case True
  then have "drop i buf = buf ! i # drop (Suc i) buf" "drop (Suc i) buf = buf ! Suc i # drop (Suc (Suc i)) buf"
    by (simp_all add: Cons_nth_drop_Suc)
  with True show ?thesis by (auto simp: get_slice_def numeral_2_eq_2)
next
  case False
  then show ?thesis by (auto simp: get_slice_def)
qed

lemma get_slice_4:
  "get_slice buf i 4 =
     (if i + 4 \<le> length buf then Some [buf ! i, buf ! (i + 1), buf ! (i + 2), buf ! (i + 3)] else None)"
proof (cases "i + 4 \<le> length buf")
  case True
  then have "drop i buf = buf ! i # buf ! (i + 1) # buf ! (i + 2) # buf ! (i + 3) # drop (i + 4) buf"
    by (simp add: Cons_nth_drop_Suc eval_nat_numeral)
  with True show ?thesis by (simp add: get_slice_def eval_nat_numeral)
next
  case False
  then show ?thesis by (auto simp: get_slice_def)
qed

lemma xor_move: "(x :: u8) XOR k = m \<longleftrightarrow> x = m XOR k"
  by (metis xor.assoc xor.right_neutral xor_self_eq)

text \<open>Only one key can decode the first two bytes at an offset.\<close>

lemma pe_at_xor:
  assumes "off + 1 < length buf"
  shows "pe_at (xor_all key buf) off \<longleftrightarrow>
    key = buf ! off XOR 0x4D \<and> buf ! (off + 1) XOR key = 0x5A \<and> off + 0x3c + 4 \<le> length buf
    \<and> (let n = lfanew (xor_all key buf) (off + 0x3c)
       in n \<le> 0x200 \<and> off + n + 2 \<le> length buf
          \<and> buf ! (off + n) = 0x50 XOR key \<and> buf ! (off + n + 1) = 0x45 XOR key)"
proof -
  define n where "n = lfanew (xor_all key buf) (off + 0x3c)"
  have nth: "xor_all key buf ! i = buf ! i XOR key" if "i < length buf" for i using that by simp
  have "off < length buf" using assms by simp
  then have "pe_at (xor_all key buf) off \<longleftrightarrow> buf ! off XOR key = 0x4D \<and> buf ! (off + 1) XOR key = 0x5A
      \<and> off + 0x3c + 4 \<le> length buf \<and> n \<le> 0x200 \<and> off + n + 2 \<le> length buf
      \<and> xor_all key buf ! (off + n) = 0x50 \<and> xor_all key buf ! (off + n + 1) = 0x45"
    unfolding pe_at_def n_def [symmetric] Let_def length_map using assms by (simp only: nth simp_thms)
  also have "\<dots> \<longleftrightarrow> key = buf ! off XOR 0x4D \<and> buf ! (off + 1) XOR key = 0x5A
      \<and> off + 0x3c + 4 \<le> length buf \<and> n \<le> 0x200 \<and> off + n + 2 \<le> length buf
      \<and> buf ! (off + n) = 0x50 XOR key \<and> buf ! (off + n + 1) = 0x45 XOR key"
  proof (cases "off + n + 2 \<le> length buf")
    case True
    then have "off + n < length buf" "off + n + 1 < length buf" by simp_all
    then show ?thesis by (simp only: nth xor_move [of _ key "0x50"] xor_move [of _ key "0x45"] xor_eq_iff [of "buf ! off"])
  qed simp
  finally show ?thesis unfolding n_def Let_def .
qed

lemma carve_at_iff:
  assumes "off + 1 < length buf"
  shows "carve_at buf off (buf ! off) (buf ! (off + 1)) = Some r \<longleftrightarrow>
    (\<exists>key. r = (off, key) \<and> pe_at (xor_all key buf) off)"
proof -
  define key where "key = buf ! off XOR 0x4D"
  define n where "n = lfanew (xor_all key buf) (off + 0x3c)"
  have slice: "get_slice buf (off + 0x3c) 4 = (if off + 0x3c + 4 \<le> length buf
      then Some [buf ! (off + 0x3c), buf ! (off + 0x3c + 1), buf ! (off + 0x3c + 2), buf ! (off + 0x3c + 3)] else None)"
    by (rule get_slice_4)
  have n: "n = u32_from_le (buf ! (off + 0x3c) XOR key) (buf ! (off + 0x3c + 1) XOR key)
      (buf ! (off + 0x3c + 2) XOR key) (buf ! (off + 0x3c + 3) XOR key)" if "off + 0x3c + 4 \<le> length buf"
    using that by (simp add: n_def lfanew_def)
  have eq: "carve_at buf off (buf ! off) (buf ! (off + 1)) =
      (if buf ! (off + 1) XOR key = 0x5A \<and> off + 0x3c + 4 \<le> length buf \<and> n \<le> 0x200
          \<and> get_slice buf (off + n) 2 = Some [0x50 XOR key, 0x45 XOR key] then Some (off, key) else None)"
  proof (cases "off + 0x3c + 4 \<le> length buf")
    case True
    have "carve_at buf off (buf ! off) (buf ! (off + 1)) =
      (if buf ! (off + 1) XOR key \<noteq> 0x5A then None
       else if 0x200 < n then None
       else if get_slice buf (off + n) 2 = Some [0x50 XOR key, 0x45 XOR key] then Some (off, key) else None)"
      unfolding carve_at_def Let_def key_def [symmetric] slice MAX_OFFSET_PE_AFTER_MZ_def
      by (simp only: True if_True option.case list.case n [OF True])
    with True show ?thesis by simp
  next
    case False
    then have "get_slice buf (off + 0x3c) 4 = None" unfolding slice by simp
    then have "carve_at buf off (buf ! off) (buf ! (off + 1)) = None"
      unfolding carve_at_def Let_def by (simp only: option.case if_cancel)
    with False show ?thesis by simp
  qed
  have "pe_at (xor_all key buf) off \<longleftrightarrow> buf ! (off + 1) XOR key = 0x5A \<and> off + 0x3c + 4 \<le> length buf
      \<and> n \<le> 0x200 \<and> get_slice buf (off + n) 2 = Some [0x50 XOR key, 0x45 XOR key]"
    unfolding pe_at_xor [OF assms] n_def [symmetric] key_def [symmetric] Let_def get_slice_2 by (simp only: simp_thms)
  with eq have "carve_at buf off (buf ! off) (buf ! (off + 1)) = Some r \<longleftrightarrow> r = (off, key) \<and> pe_at (xor_all key buf) off"
    by auto
  then show ?thesis using pe_at_xor [OF assms] key_def by metis
qed

lemma carve_at_fst: "carve_at buf off x y = Some r \<Longrightarrow> fst r = off"
  by (auto simp: carve_at_def Let_def split: if_splits option.splits list.splits)

lemma key_less: "(- uint k, i) < (- uint (k' :: u8), j :: nat) \<longleftrightarrow> k' < k \<or> k = k' \<and> i < j"
  by (auto simp: less_prod_simp word_less_def order_le_less intro: word_uint_eqI)

lemma bex_triple:
  "(\<exists>t \<in> set W. (case t of (i, a, b) \<Rightarrow> g i a b) = Some r) \<longleftrightarrow> (\<exists>i a b. (i, a, b) \<in> set W \<and> g i a b = Some r)"
  by (simp add: Bex_def split_paired_Ex)

lemma windows_mem:
  "(i, x, y) \<in> set (zip [0..<length xs] (zip xs (tl xs))) \<longleftrightarrow> i + 1 < length xs \<and> x = xs ! i \<and> y = xs ! (i + 1)"
proof
  assume "i + 1 < length xs \<and> x = xs ! i \<and> y = xs ! (i + 1)"
  then show "(i, x, y) \<in> set (zip [0..<length xs] (zip xs (tl xs)))"
    unfolding in_set_zip by (intro exI [of _ i]) (auto simp: nth_tl)
qed (auto simp: in_set_zip nth_tl)

text \<open>
  C31: the single pass over a buffer finds exactly what a scan of the decoded buffer for
  each of the 256 keys finds: the offsets, from the given one on, at which the buffer XORed
  with the key has an executable header, each once, ordered by descending key and then by
  ascending offset.
\<close>

theorem carve_pe_correct:
  "set (carve_pe buf offset) = {(off, key). offset \<le> off \<and> pe_at (map (\<lambda>b. b XOR key) buf) off}
   \<and> sorted_wrt (\<lambda>(off, key) (off', key'). key' < key \<or> key = key' \<and> off < off') (carve_pe buf offset)"
proof (cases "length buf < offset")
  case True
  then show ?thesis by (auto simp: carve_pe_def pe_at_def)
next
  case False
  let ?tail = "drop offset buf"
  let ?w = "zip [0..<length ?tail] (zip ?tail (tl ?tail))"
  define out where "out = List.map_filter (\<lambda>(relative, first, second). carve_at buf (offset + relative) first second) ?w"
  let ?k = "\<lambda>(off, key). (- uint (key :: u8), off :: nat)"
  have carve: "carve_pe buf offset = sort_key ?k out"
    using False unfolding carve_pe_def out_def Let_def by (simp only: if_False)
  have win: "(i, x, y) \<in> set ?w \<longleftrightarrow> offset + i + 1 < length buf \<and> x = buf ! (offset + i) \<and> y = buf ! (offset + i + 1)" for i x y
    unfolding windows_mem using False by auto
  have mem: "r \<in> set out \<longleftrightarrow> (\<exists>i. offset + i + 1 < length buf
      \<and> carve_at buf (offset + i) (buf ! (offset + i)) (buf ! (offset + i + 1)) = Some r)" for r
    unfolding out_def mem_map_filter bex_triple win by blast
  have "r \<in> set out \<longleftrightarrow> (\<exists>i key. offset + i + 1 < length buf \<and> r = (offset + i, key) \<and> pe_at (xor_all key buf) (offset + i))" for r
    unfolding mem using carve_at_iff by blast
  then have "(off, key) \<in> set out \<longleftrightarrow> offset \<le> off \<and> pe_at (xor_all key buf) off" for off key
    by (auto simp: le_iff_add pe_at_def)
  then have set: "set (carve_pe buf offset) = {(off, key). offset \<le> off \<and> pe_at (map (\<lambda>b. b XOR key) buf) off}"
    unfolding carve by auto
  have "sorted_wrt (\<lambda>x y. fst x < fst y) ?w"
    by (simp add: sorted_wrt_iff_nth_less)
  then have "sorted_wrt (\<lambda>a b. fst a < fst b) out"
    unfolding out_def
    by (intro sorted_wrt_map_filter) (auto elim!: sorted_wrt_mono_rel [rotated] dest!: carve_at_fst)
  then have "distinct (map fst out)" using strict_sorted_iff [of "map fst out"] by (simp add: sorted_wrt_map)
  moreover have "map snd (map ?k out) = map fst out" by (simp add: case_prod_beta)
  ultimately have "distinct (map ?k out)" by (metis distinct_map)
  then have "distinct (map ?k (carve_pe buf offset))" unfolding carve distinct_map by simp
  moreover have "sorted (map ?k (carve_pe buf offset))" unfolding carve by simp
  ultimately have "sorted_wrt (<) (map ?k (carve_pe buf offset))" by (simp add: strict_sorted_iff)
  then have "sorted_wrt (\<lambda>(off, key) (off', key'). key' < key \<or> key = key' \<and> off < off') (carve_pe buf offset)"
    unfolding sorted_wrt_map by (rule sorted_wrt_mono_rel [rotated]) (auto simp only: case_prod_conv key_less)
  with set show ?thesis by blast
qed

end
