(* ===== verification/Elf_Bytes.thy ===== *)
theory Elf_Bytes
  imports Rust_Str Strings Index_Map
begin

text \<open>
  The reading primitives of \<^verbatim>\<open>capa-x/src/extract/loader/elf_os.rs\<close> and the vocabulary for
  code that may panic. A \<^verbatim>\<open>usize\<close> has 64 bits. An addition the source does not check panics
  when it overflows, so that the absence of panics also says that no such addition wraps in a
  build without overflow checks.
\<close>

section \<open>Panics and early returns\<close>

datatype panic = Arithmetic_Overflow | Capacity_Overflow | Slice_Out_Of_Range

text \<open>
  A function with return type \<^verbatim>\<open>Option<T>\<close> that may panic has values in \<open>panic + 'a option\<close>.
  \<open>try_some r f\<close> is \<^verbatim>\<open>let x = r?; f(x)\<close> for such a call, \<open>some r f\<close> the same for a call that
  does not panic.
\<close>

definition try_some :: "panic + 'a option \<Rightarrow> ('a \<Rightarrow> panic + 'b option) \<Rightarrow> panic + 'b option" where
  "try_some r f = rbind r (\<lambda>x. case x of None \<Rightarrow> Inr None | Some y \<Rightarrow> f y)"

definition some :: "'a option \<Rightarrow> ('a \<Rightarrow> panic + 'b option) \<Rightarrow> panic + 'b option" where
  "some r f = (case r of None \<Rightarrow> Inr None | Some y \<Rightarrow> f y)"

text \<open>\<^verbatim>\<open>r.or_else(|| r')\<close> of two guesses.\<close>

definition or_else :: "panic + 'a option \<Rightarrow> panic + 'a option \<Rightarrow> panic + 'a option" where
  "or_else r r' = rbind r (\<lambda>x. case x of None \<Rightarrow> r' | Some y \<Rightarrow> Inr (Some y))"

text \<open>\<^verbatim>\<open>iter.filter_map(f).collect()\<close>.\<close>

fun filter_map :: "('a \<Rightarrow> panic + 'b option) \<Rightarrow> 'a list \<Rightarrow> panic + 'b list" where
  "filter_map f [] = Inr []"
| "filter_map f (x # xs) = rbind (f x) (\<lambda>y. map_ok (\<lambda>ys. case y of None \<Rightarrow> ys | Some y \<Rightarrow> y # ys) (filter_map f xs))"

text \<open>A loop whose body either returns a value from the function or goes on.\<close>

fun first_some :: "('a \<Rightarrow> 'b option) \<Rightarrow> 'a list \<Rightarrow> 'b option" where
  "first_some f [] = None"
| "first_some f (x # xs) = (case f x of None \<Rightarrow> first_some f xs | Some y \<Rightarrow> Some y)"

definition USIZE :: nat where
  "USIZE = 2 ^ 64"

definition ISIZE_MAX :: nat where
  "ISIZE_MAX = 2 ^ 63 - 1"

definition checked_add :: "nat \<Rightarrow> nat \<Rightarrow> nat option" where
  "checked_add a b = (if a + b < USIZE then Some (a + b) else None)"

lemma checked_add_Some [simp]: "checked_add a b = Some c \<longleftrightarrow> c = a + b \<and> a + b < USIZE"
  by (auto simp: checked_add_def)

definition checked_mul :: "nat \<Rightarrow> nat \<Rightarrow> nat option" where
  "checked_mul a b = (if a * b < USIZE then Some (a * b) else None)"

text \<open>The unchecked \<^verbatim>\<open>a + b\<close>.\<close>

definition add_usize :: "nat \<Rightarrow> nat \<Rightarrow> panic + nat" where
  "add_usize a b = (if a + b < USIZE then Inr (a + b) else Inl Arithmetic_Overflow)"

section \<open>Reading bytes\<close>

text \<open>\<^verbatim>\<open>buf.get(a..b)\<close>.\<close>

definition get_range :: "u8 list \<Rightarrow> nat \<Rightarrow> nat \<Rightarrow> u8 list option" where
  "get_range buf a b = (if a \<le> b \<and> b \<le> length buf then Some (take (b - a) (drop a buf)) else None)"

text \<open>\<^verbatim>\<open>&buf[a..b]\<close>.\<close>

definition slice :: "u8 list \<Rightarrow> nat \<Rightarrow> nat \<Rightarrow> panic + u8 list" where
  "slice buf a b = (case get_range buf a b of None \<Rightarrow> Inl Slice_Out_Of_Range | Some bs \<Rightarrow> Inr bs)"

definition get_byte :: "u8 list \<Rightarrow> nat \<Rightarrow> u8 option" where
  "get_byte buf i = (if i < length buf then Some (buf ! i) else None)"

fun le_value :: "u8 list \<Rightarrow> nat" where
  "le_value [] = 0"
| "le_value (b # bs) = unat b + 256 * le_value bs"

definition be_value :: "u8 list \<Rightarrow> nat" where
  "be_value bs = le_value (rev bs)"

definition get_uint :: "nat \<Rightarrow> u8 list \<Rightarrow> nat \<Rightarrow> bool \<Rightarrow> nat option" where
  "get_uint w buf off be =
     Option.bind (checked_add off w) (\<lambda>e.
     Option.bind (get_range buf off e) (\<lambda>b. Some (if be then be_value b else le_value b)))"

definition get_u16 :: "u8 list \<Rightarrow> nat \<Rightarrow> bool \<Rightarrow> nat option" where
  "get_u16 = get_uint 2"

definition get_u32 :: "u8 list \<Rightarrow> nat \<Rightarrow> bool \<Rightarrow> nat option" where
  "get_u32 = get_uint 4"

definition get_u64 :: "u8 list \<Rightarrow> nat \<Rightarrow> bool \<Rightarrow> nat option" where
  "get_u64 = get_uint 8"

definition get_word :: "u8 list \<Rightarrow> nat \<Rightarrow> bool \<Rightarrow> nat \<Rightarrow> nat option" where
  "get_word buf off be bitness = (if bitness = 32 then get_u32 buf off be else get_u64 buf off be)"

text \<open>\<^verbatim>\<open>let x = get(buf, off + k, be)?\<close> with its unchecked addition.\<close>

definition field ::
  "(u8 list \<Rightarrow> nat \<Rightarrow> bool \<Rightarrow> nat option) \<Rightarrow> u8 list \<Rightarrow> nat \<Rightarrow> nat \<Rightarrow> bool \<Rightarrow> (nat \<Rightarrow> panic + 'b option)
    \<Rightarrow> panic + 'b option" where
  "field get buf off k be f = rbind (add_usize off k) (\<lambda>o'. some (get buf o' be) f)"

definition align :: "nat \<Rightarrow> nat \<Rightarrow> panic + nat" where
  "align v alignment =
     (let remainder = v mod alignment
      in if remainder = 0 then Inr v else add_usize v (alignment - remainder))"

section \<open>Text\<close>

text \<open>
  The well-formed byte sequences that \<^verbatim>\<open>std::str::from_utf8\<close> accepts, by the table of the
  Unicode standard.
\<close>

definition cont_byte :: "u8 \<Rightarrow> bool" where
  "cont_byte b = (0x80 \<le> b \<and> b \<le> 0xBF)"

fun utf8_valid :: "u8 list \<Rightarrow> bool" where
  "utf8_valid [] = True"
| "utf8_valid (a # rest) =
     (if a \<le> 0x7F then utf8_valid rest
      else
        case rest of
          b # rest2 \<Rightarrow>
            if 0xC2 \<le> a \<and> a \<le> 0xDF then cont_byte b \<and> utf8_valid rest2
            else
              (case rest2 of
                 c # rest3 \<Rightarrow>
                   if a = 0xE0 then 0xA0 \<le> b \<and> b \<le> 0xBF \<and> cont_byte c \<and> utf8_valid rest3
                   else if a = 0xED then 0x80 \<le> b \<and> b \<le> 0x9F \<and> cont_byte c \<and> utf8_valid rest3
                   else if 0xE1 \<le> a \<and> a \<le> 0xEF then cont_byte b \<and> cont_byte c \<and> utf8_valid rest3
                   else
                     (case rest3 of
                        d # rest4 \<Rightarrow>
                          (if a = 0xF0 then 0x90 \<le> b \<and> b \<le> 0xBF
                           else if a = 0xF4 then 0x80 \<le> b \<and> b \<le> 0x8F
                           else 0xF1 \<le> a \<and> a \<le> 0xF3 \<and> cont_byte b)
                          \<and> cont_byte c \<and> cont_byte d \<and> utf8_valid rest4
                      | [] \<Rightarrow> False)
               | [] \<Rightarrow> False)
        | [] \<Rightarrow> False)"

definition from_utf8 :: "u8 list \<Rightarrow> string option" where
  "from_utf8 bs = (if utf8_valid bs then Some (map byte_char bs) else None)"

definition until_nul :: "u8 list \<Rightarrow> u8 list" where
  "until_nul bs = takeWhile (\<lambda>b. b \<noteq> 0) bs"

definition read_cstr :: "u8 list \<Rightarrow> nat \<Rightarrow> string option" where
  "read_cstr buf offset = (if offset \<le> length buf then from_utf8 (until_nul (drop offset buf)) else None)"

definition str_bytes :: "string \<Rightarrow> u8 list" where
  "str_bytes s = map of_char s"

fun position :: "u8 list \<Rightarrow> u8 list \<Rightarrow> nat option" where
  "position needle haystack =
     (if length haystack < length needle then None
      else if take (length needle) haystack = needle then Some 0
      else (case haystack of [] \<Rightarrow> None | _ # rest \<Rightarrow> map_option Suc (position needle rest)))"

declare position.simps [simp del]

definition find_subslice :: "u8 list \<Rightarrow> u8 list \<Rightarrow> nat option" where
  "find_subslice haystack needle =
     (if needle = [] \<or> length haystack < length needle then None else position needle haystack)"

end
