(* ===== verification/Image.thy ===== *)
theory Image
  imports Elf_Bytes
begin

text \<open>
  \<^verbatim>\<open>capa-x/src/extract/loader/image.rs\<close>: the loaded image all recovery code reads. Its
  sections with their mapped bytes, the translation between addresses and file offsets, the
  construction of mapped regions and of the image of raw code, and the checked reads behind
  the delay import tables. The container parsers that fill an image belong to a library and
  are not modelled.
\<close>

section \<open>Addresses\<close>

definition checked_add_u64 :: "u64 \<Rightarrow> u64 \<Rightarrow> u64 option" where
  "checked_add_u64 a b = (if unat a + unat b < 2 ^ 64 then Some (a + b) else None)"

lemma checked_add_u64_Some: "checked_add_u64 a b = Some c \<longleftrightarrow> c = a + b \<and> unat a + unat b < 2 ^ 64"
  by (auto simp: checked_add_u64_def)

definition checked_sub_u64 :: "u64 \<Rightarrow> u64 \<Rightarrow> u64 option" where
  "checked_sub_u64 a b = (if b \<le> a then Some (a - b) else None)"

definition saturating_sub :: "nat \<Rightarrow> nat \<Rightarrow> nat" where
  "saturating_sub a b = a - b"

section \<open>Images\<close>

datatype image_format = Pe | Elf | Sc | Macho

datatype architecture = X86 | X64 | AArch64

fun arch_bitness :: "architecture \<Rightarrow> nat" where
  "arch_bitness X86 = 32"
| "arch_bitness X64 = 64"
| "arch_bitness AArch64 = 64"

definition pointer_width :: "architecture \<Rightarrow> nat" where
  "pointer_width arch = arch_bitness arch div 8"

record permissions =
  perm_read :: bool
  perm_write :: bool
  perm_execute :: bool

record mapped_section =
  sec_name :: string
  sec_address :: u64
  virtual_size :: u64
  file_offset :: u64
  file_size :: u64
  sec_permissions :: permissions

definition end_address :: "mapped_section \<Rightarrow> u64 option" where
  "end_address s = checked_add_u64 (sec_address s) (virtual_size s)"

definition contains_va :: "mapped_section \<Rightarrow> u64 \<Rightarrow> bool" where
  "contains_va s address =
     (case checked_sub_u64 address (sec_address s) of None \<Rightarrow> False | Some offset \<Rightarrow> offset < virtual_size s)"

definition contains_file_offset :: "mapped_section \<Rightarrow> u64 \<Rightarrow> bool" where
  "contains_file_offset s offset =
     (case checked_sub_u64 offset (file_offset s) of None \<Rightarrow> False | Some relative \<Rightarrow> relative < file_size s)"

datatype image_error =
    UnsupportedFormat
  | UnsupportedArchitecture image_format nat
  | Pe_Error string
  | Elf_Error string
  | Mapping image_format string
  | AddressOverflow image_format string
  | AddressNotMapped u64
  | AddressNotExecutable u64
  | InvalidInstruction u64 string
  | DelayImport u64 string
  | Macho_Error string
  | NoCompatibleMachoSlice string "string list"

record loaded_image =
  format :: image_format
  arch :: architecture
  image_base :: u64
  load_bias :: u64
  entry_point :: "u64 option"
  sections :: "mapped_section list"
  external_bindings :: "u64 \<rightharpoonup> string list"
  import_locations :: "u64 \<rightharpoonup> string"
  load_diagnostics :: "string list"
  relocation_locations :: "u64 list"
  elf_plt_ranges :: "(u64 \<times> u64) list"
  dead_data :: "(u64 \<times> u64) list"
  uninitialized :: "(u64 \<times> u64) list"
  primary_code :: "(u64 \<times> u64) list"
  mapped_bytes :: "u8 list list"

definition section_containing :: "loaded_image \<Rightarrow> u64 \<Rightarrow> mapped_section option" where
  "section_containing img address = List.find (\<lambda>s. contains_va s address) (sections img)"

definition is_dead_data :: "loaded_image \<Rightarrow> u64 \<Rightarrow> bool" where
  "is_dead_data img address = list_ex (\<lambda>(start, end'). start \<le> address \<and> address \<le> end') (dead_data img)"

definition is_uninitialized :: "loaded_image \<Rightarrow> u64 \<Rightarrow> bool" where
  "is_uninitialized img address = list_ex (\<lambda>(start, end'). start \<le> address \<and> address < end') (uninitialized img)"

definition is_primary_code_address :: "loaded_image \<Rightarrow> u64 \<Rightarrow> bool" where
  "is_primary_code_address img address = list_ex (\<lambda>(start, end'). start \<le> address \<and> address < end') (primary_code img)"

text \<open>At most \<open>max_len\<close> bytes from an address on, within its section.\<close>

definition bytes_at :: "loaded_image \<Rightarrow> u64 \<Rightarrow> nat \<Rightarrow> u8 list option" where
  "bytes_at img address max_len =
     Option.bind (List.find (\<lambda>(i, s). contains_va s address) (enumerate 0 (sections img))) (\<lambda>(index, s).
     Option.bind (checked_sub_u64 address (sec_address s)) (\<lambda>relative.
       if length (mapped_bytes img) \<le> index then None
       else
         let data = mapped_bytes img ! index;
             start = unat relative
         in if length data < start then None
            else Option.bind (checked_add start (min max_len (length data - start))) (get_range data start)))"

definition is_executable_address :: "loaded_image \<Rightarrow> u64 \<Rightarrow> bool" where
  "is_executable_address img address =
     ((case section_containing img address of None \<Rightarrow> False | Some s \<Rightarrow> perm_execute (sec_permissions s))
      \<and> \<not> is_uninitialized img address
      \<and> bytes_at img address 1 \<noteq> None)"

definition va_to_file_offset :: "loaded_image \<Rightarrow> u64 \<Rightarrow> u64 option" where
  "va_to_file_offset img address =
     first_some (\<lambda>s.
       Option.bind (checked_sub_u64 address (sec_address s)) (\<lambda>relative.
         if relative < file_size s then checked_add_u64 (file_offset s) relative else None)) (sections img)"

definition file_offset_to_va :: "loaded_image \<Rightarrow> u64 \<Rightarrow> u64 option" where
  "file_offset_to_va img offset =
     first_some (\<lambda>s.
       Option.bind (checked_sub_u64 offset (file_offset s)) (\<lambda>relative.
         if relative < file_size s then checked_add_u64 (sec_address s) relative else None)) (sections img)"

definition SHELLCODE_BASE :: u64 where
  "SHELLCODE_BASE = 0x00690000"

definition saturating_add_u64 :: "u64 \<Rightarrow> u64 \<Rightarrow> u64" where
  "saturating_add_u64 a b = (case checked_add_u64 a b of None \<Rightarrow> - 1 | Some c \<Rightarrow> c)"

definition from_shellcode :: "u8 list \<Rightarrow> architecture \<Rightarrow> loaded_image" where
  "from_shellcode bytes architecture =
     (let base = SHELLCODE_BASE;
          size' = of_nat (length bytes)
      in \<lparr>format = Sc, arch = architecture, image_base = base, load_bias = 0, entry_point = Some base,
          sections = [\<lparr>sec_name = ''shellcode_0x'' @ show_hex (unat base), sec_address = base, virtual_size = size',
                       file_offset = 0, file_size = size',
                       sec_permissions = \<lparr>perm_read = True, perm_write = True, perm_execute = True\<rparr>\<rparr>],
          external_bindings = Map.empty, import_locations = Map.empty, load_diagnostics = [],
          relocation_locations = [], elf_plt_ranges = [], dead_data = [], uninitialized = [],
          primary_code = [(SHELLCODE_BASE, saturating_add_u64 SHELLCODE_BASE size')],
          mapped_bytes = [bytes]\<rparr>)"

definition add_external_binding :: "loaded_image \<Rightarrow> u64 \<Rightarrow> string list \<Rightarrow> loaded_image" where
  "add_external_binding img address names =
     (let bindings = (case external_bindings img address of None \<Rightarrow> [] | Some bs \<Rightarrow> bs);
          bindings = fold (\<lambda>name bs. if name \<notin> set bs then bs @ [name] else bs) names bindings
      in img\<lparr>external_bindings := (external_bindings img)(address \<mapsto> bindings)\<rparr>)"

section \<open>Mapping\<close>

definition MAX_MAPPED_IMAGE_BYTES :: nat where
  "MAX_MAPPED_IMAGE_BYTES = 256 * 1024 * 1024"

definition align_up :: "u64 \<Rightarrow> u64 \<Rightarrow> u64 option" where
  "align_up v alignment =
     (if alignment = 0 then Some v
      else
        Option.bind (checked_sub_u64 alignment 1) (\<lambda>a.
          map_option (\<lambda>sum. sum div alignment * alignment) (checked_add_u64 v a)))"

definition hex_text :: "nat \<Rightarrow> string" where
  "hex_text n = ''0x'' @ show_hex n"

definition saturating_add :: "nat \<Rightarrow> nat \<Rightarrow> nat" where
  "saturating_add a b = min (a + b) (USIZE - 1)"

definition mapped_region ::
  "u8 list \<Rightarrow> u64 \<Rightarrow> u64 \<Rightarrow> u64 \<Rightarrow> image_format \<Rightarrow> image_error + u8 list" where
  "mapped_region bytes off fsize msize fmt =
     (let mapped_len = unat msize
      in if MAX_MAPPED_IMAGE_BYTES < mapped_len then
           Inl (Mapping fmt (''region size '' @ hex_text mapped_len @ '' exceeds limit '' @ hex_text MAX_MAPPED_IMAGE_BYTES))
         else
           let start = unat off;
               requested = unat fsize;
               available = saturating_sub (length bytes) start;
               copy_len = min (min requested available) mapped_len;
               mapped = replicate mapped_len 0
           in if copy_len = 0 then Inr mapped
              else
                (case get_range bytes start (saturating_add start copy_len) of
                   Some source \<Rightarrow>
                     if copy_len \<le> length mapped then Inr (source @ drop copy_len mapped) else Inr mapped
                 | None \<Rightarrow> Inr mapped))"

definition account_mapping :: "nat \<Rightarrow> nat \<Rightarrow> image_error + nat" where
  "account_mapping so_far size' =
     (case checked_add so_far size' of
        None \<Rightarrow> Inl (Pe_Error ''mapped image size overflow'')
      | Some n \<Rightarrow>
          if MAX_MAPPED_IMAGE_BYTES < n then
            Inl (Pe_Error (''mapped image size '' @ hex_text n @ '' exceeds limit '' @ hex_text MAX_MAPPED_IMAGE_BYTES))
          else Inr n)"

section \<open>Reads behind the delay import tables\<close>

definition delay_field_to_rva :: "loaded_image \<Rightarrow> u64 \<Rightarrow> bool \<Rightarrow> image_error + u64" where
  "delay_field_to_rva img v uses_rvas =
     (if uses_rvas then Inr v
      else ok_or (DelayImport v ''VA lies below the image base'') (checked_sub_u64 v (image_base img)))"

definition read_array_at_rva :: "nat \<Rightarrow> loaded_image \<Rightarrow> u64 \<Rightarrow> image_error + u8 list" where
  "read_array_at_rva n img rva =
     rbind (ok_or (AddressOverflow Pe ''RVA read'') (checked_add_u64 (image_base img) rva)) (\<lambda>address.
     rbind (ok_or (DelayImport rva (''cannot read '' @ show_nat n @ '' mapped bytes'')) (bytes_at img address n)) (\<lambda>bytes.
       if length bytes = n then Inr bytes
       else Inl (DelayImport rva (''expected '' @ show_nat n @ '' bytes, found '' @ show_nat (length bytes)))))"

definition read_pointer_at_rva :: "loaded_image \<Rightarrow> u64 \<Rightarrow> image_error + u64" where
  "read_pointer_at_rva img rva =
     map_ok (\<lambda>bs. of_nat (le_value bs)) (read_array_at_rva (if arch img = X64 then 8 else 4) img rva)"

definition is_ascii :: "string \<Rightarrow> bool" where
  "is_ascii s = list_all (\<lambda>c. of_char c < (128 :: nat)) s"

text \<open>
  The text of the error of a failed UTF-8 conversion is a parameter: it is formatted by the
  standard library.
\<close>

definition read_ascii_cstr_at_rva :: "(u8 list \<Rightarrow> string) \<Rightarrow> loaded_image \<Rightarrow> u64 \<Rightarrow> image_error + string" where
  "read_ascii_cstr_at_rva utf8_error img rva =
     rbind (ok_or (AddressOverflow Pe ''string RVA'') (checked_add_u64 (image_base img) rva)) (\<lambda>address.
     rbind (ok_or (DelayImport rva ''string is outside mapped sections'') (section_containing img address)) (\<lambda>s.
     rbind (ok_or (AddressOverflow Pe ''string section offset'') (checked_sub_u64 address (sec_address s))) (\<lambda>relative.
     let remaining = saturating_sub (unat (file_size s)) (unat relative)
     in rbind (ok_or (DelayImport rva ''string is not file-backed'') (bytes_at img address remaining)) (\<lambda>bytes.
        if 0 \<notin> set bytes then Inl (DelayImport rva ''unterminated string'')
        else
          let text = until_nul bytes
          in rbind (ok_or (DelayImport rva (''non-UTF-8 string: '' @ utf8_error text)) (from_utf8 text)) (\<lambda>v.
             if is_ascii v then Inr v else Inl (DelayImport rva ''non-ASCII string''))))))"

definition read_u32_field :: "u8 list \<Rightarrow> nat \<Rightarrow> u64 \<Rightarrow> image_error + u64" where
  "read_u32_field raw' offset rva =
     rbind (ok_or (DelayImport rva ''descriptor field offset overflow'') (checked_add offset 4)) (\<lambda>end'.
     rbind (ok_or (DelayImport rva ''descriptor field is truncated'') (get_range raw' offset end')) (\<lambda>bytes.
       if length bytes = 4 then Inr (of_nat (le_value bytes))
       else Inl (DelayImport rva ''descriptor field has the wrong width'')))"

end
