(* ===== verification/Decoder.thy ===== *)
theory Decoder
  imports Image
begin

text \<open>
  \<^verbatim>\<open>capa-x/src/extract/x86/decoder.rs\<close>: the boundary between the instruction decoders and the
  recovery of control flow. An instruction carries its address, bytes, successor, flow and
  targets; what is specific to an architecture is the type parameter \<open>'d\<close>, so that the
  accessors that would panic on an instruction of the other architecture are typed away.
  The two decoders are libraries: an x86 instruction is the record of the library's
  accessors that the sources read, and the table of 64-bit ARM opcodes is the parameter
  \<open>a64_decode\<close>.
\<close>

unbundle bit_operations_syntax

section \<open>Instructions\<close>

datatype flow =
    Next | Call | IndirectCall | ConditionalBranch | UnconditionalBranch | IndirectBranch
  | Return | Terminal

record 'd decoded_instruction =
  insn_address :: u64
  insn_bytes :: "u8 list"
  next_address :: u64
  insn_flow :: flow
  direct_target :: "u64 option"
  memory_target :: "u64 option"
  mnemonic_override :: "string option"
  arch_detail :: 'd

section \<open>x86\<close>

text \<open>The accessors of the library's instruction. Registers the sources never name are numbered.\<close>

datatype x86_register =
    No_Register | RAX | RCX | RDX | RDI | EDI | ESP | EBP | RSP | RBP | R8 | R9 | R10 | R11 | R12D | R12 | FS | GS
  | Other_Register nat

datatype op_kind =
    Register_Op | Memory_Op | NearBranch16 | NearBranch32 | NearBranch64
  | Immediate8 | Immediate8_2nd | Immediate16 | Immediate32 | Immediate64
  | Immediate8to16 | Immediate8to32 | Immediate8to64 | Immediate32to64 | Other_Op

datatype flow_control =
    FC_Next | FC_UnconditionalBranch | FC_IndirectBranch | FC_ConditionalBranch | FC_Return | FC_Call
  | FC_IndirectCall | FC_Interrupt | FC_XbeginXabortXend | FC_Exception

record x86_instruction =
  x86_mnemonic :: string
  formatted_mnemonic :: string
  op_count :: nat
  op_kind_of :: "nat \<Rightarrow> op_kind"
  op_register :: "nat \<Rightarrow> x86_register"
  op_immediate :: "nat \<Rightarrow> u64"
  near_branch_target :: u64
  is_ip_rel_memory_operand :: bool
  ip_rel_memory_address :: u64
  memory_base :: x86_register
  memory_index :: x86_register
  memory_index_scale :: nat
  memory_displacement64 :: u64
  memory_displ_size :: nat
  memory_size_bytes :: nat
  segment_prefix :: x86_register
  is_code64 :: bool
  flow_control_of :: flow_control
  next_ip :: u64

type_synonym x86_insn = "x86_instruction decoded_instruction"

definition is_privileged_barrier :: "x86_insn \<Rightarrow> bool" where
  "is_privileged_barrier insn \<longleftrightarrow>
     x86_mnemonic (arch_detail insn) \<in>
       {''Cli'', ''Hlt'', ''Insb'', ''Insd'', ''Insw'', ''Outsb'', ''Outsd'', ''Outsw'', ''Sti''}"

definition is_near_branch_kind :: "op_kind \<Rightarrow> bool" where
  "is_near_branch_kind k \<longleftrightarrow> k \<in> {NearBranch16, NearBranch32, NearBranch64}"

definition x86_direct_target :: "x86_instruction \<Rightarrow> u64 option" where
  "x86_direct_target i = (if is_near_branch_kind (op_kind_of i 0) then Some (near_branch_target i) else None)"

definition x86_memory_target :: "x86_instruction \<Rightarrow> u64 option" where
  "x86_memory_target i =
     (if \<not> list_ex (\<lambda>k. op_kind_of i k = Memory_Op) [0..<op_count i] then None
      else if is_ip_rel_memory_operand i then Some (ip_rel_memory_address i)
      else if memory_base i = No_Register then Some (memory_displacement64 i)
      else None)"

fun flow_of_control :: "flow_control \<Rightarrow> flow" where
  "flow_of_control FC_Next = Next"
| "flow_of_control FC_Call = Call"
| "flow_of_control FC_IndirectCall = IndirectCall"
| "flow_of_control FC_ConditionalBranch = ConditionalBranch"
| "flow_of_control FC_XbeginXabortXend = ConditionalBranch"
| "flow_of_control FC_UnconditionalBranch = UnconditionalBranch"
| "flow_of_control FC_IndirectBranch = IndirectBranch"
| "flow_of_control FC_Return = Return"
| "flow_of_control FC_Interrupt = Terminal"
| "flow_of_control FC_Exception = Terminal"

definition x86_flow :: "x86_instruction \<Rightarrow> flow" where
  "x86_flow i = (if x86_mnemonic i = ''Hlt'' then Terminal else flow_of_control (flow_control_of i))"

definition from_x86 :: "u64 \<Rightarrow> u8 list \<Rightarrow> x86_instruction \<Rightarrow> string option \<Rightarrow> x86_insn" where
  "from_x86 address bytes instruction override =
     \<lparr>insn_address = address, insn_bytes = bytes, next_address = next_ip instruction,
      insn_flow = x86_flow instruction, direct_target = x86_direct_target instruction,
      memory_target = x86_memory_target instruction, mnemonic_override = override, arch_detail = instruction\<rparr>"

section \<open>64-bit ARM\<close>

datatype insn_class =
    BRANCH_IMM | CONDBRANCH | COMPBRANCH | TESTBRANCH | BRANCH_REG
  | PCRELADDR | ADDSUB_IMM | LOG_IMM | LOG_SHIFT | LDST_POS | LDST_IMM9 | LOADLIT | LDSTPAIR_OFF
  | LDSTPAIR_INDEXED | MOVEWIDE | Other_Class nat

text \<open>An opcode of the library, with the text it displays as at a given address.\<close>


record a64_opcode =
  a64_mnemonic :: string
  a64_class :: insn_class
  a64_bits :: u32
  a64_display :: "u64 \<Rightarrow> string"

type_synonym a64_insn = "a64_opcode option decoded_instruction"

definition aarch64_mnemonic :: "a64_insn \<Rightarrow> string" where
  "aarch64_mnemonic insn = (case arch_detail insn of None \<Rightarrow> ''(unknown)'' | Some opcode \<Rightarrow> a64_mnemonic opcode)"

text \<open>\<^verbatim>\<open>i64::from((value << shift) as i32 >> shift)\<close> with \<^verbatim>\<open>shift = 32 - bits\<close>.\<close>

definition sign_extend :: "u32 \<Rightarrow> nat \<Rightarrow> int" where
  "sign_extend v bits = sint (signed_drop_bit (32 - bits) (push_bit (32 - bits) v))"

text \<open>\<^verbatim>\<open>wrapping_add_signed\<close>.\<close>

definition wrapping_add_signed :: "u64 \<Rightarrow> int \<Rightarrow> u64" where
  "wrapping_add_signed a d = a + of_int d"

definition aarch64_direct_target :: "u64 \<Rightarrow> a64_opcode \<Rightarrow> u64 option" where
  "aarch64_direct_target address opcode =
     (let bits = a64_bits opcode;
          offset = (case a64_class opcode of
              BRANCH_IMM \<Rightarrow> Some (sign_extend (bits AND 0x03ffffff) 26 * 4)
            | CONDBRANCH \<Rightarrow> Some (sign_extend (drop_bit 5 bits AND 0x7ffff) 19 * 4)
            | COMPBRANCH \<Rightarrow>
                if a64_mnemonic opcode \<in> {''cbz'', ''cbnz''} then Some (sign_extend (drop_bit 5 bits AND 0x7ffff) 19 * 4)
                else None
            | TESTBRANCH \<Rightarrow> Some (sign_extend (drop_bit 5 bits AND 0x3fff) 14 * 4)
            | _ \<Rightarrow> None)
      in map_option (wrapping_add_signed address) offset)"

definition aarch64_flow :: "a64_opcode \<Rightarrow> flow" where
  "aarch64_flow opcode =
     (let m = a64_mnemonic opcode
      in case a64_class opcode of
           BRANCH_IMM \<Rightarrow> if m = ''bl'' then Call else UnconditionalBranch
         | CONDBRANCH \<Rightarrow> ConditionalBranch
         | COMPBRANCH \<Rightarrow> ConditionalBranch
         | TESTBRANCH \<Rightarrow> ConditionalBranch
         | BRANCH_REG \<Rightarrow>
             if prefix ''blr'' m then IndirectCall
             else if prefix ''br'' m then IndirectBranch
             else if prefix ''ret'' m then Return
             else Terminal
         | _ \<Rightarrow> Next)"

definition from_aarch64 :: "(u32 \<Rightarrow> a64_opcode option) \<Rightarrow> u64 \<Rightarrow> u8 list \<Rightarrow> u32 \<Rightarrow> a64_insn" where
  "from_aarch64 a64_decode address bytes word =
     (let opcode = a64_decode word
      in \<lparr>insn_address = address, insn_bytes = bytes, next_address = address + 4,
          insn_flow = (case opcode of None \<Rightarrow> Next | Some op \<Rightarrow> aarch64_flow op),
          direct_target = Option.bind opcode (aarch64_direct_target address),
          memory_target = None, mnemonic_override = None, arch_detail = opcode\<rparr>)"

definition decode_at_aarch64 ::
  "(u32 \<Rightarrow> a64_opcode option) \<Rightarrow> loaded_image \<Rightarrow> u64 \<Rightarrow> image_error + a64_insn" where
  "decode_at_aarch64 a64_decode img address =
     rbind (ok_or (AddressNotMapped address) (bytes_at img address 4)) (\<lambda>bytes.
     rbind (ok_or (InvalidInstruction address ''fewer than 4 bytes mapped for an AArch64 instruction'')
              (get_range bytes 0 4)) (\<lambda>raw'.
       Inr (from_aarch64 a64_decode address raw' (of_nat (le_value raw')))))"

text \<open>\<^verbatim>\<open>decode_with_policy\<close> on a 64-bit ARM image: the address must be mapped and executable.\<close>

definition decode_at_aarch64_checked ::
  "(u32 \<Rightarrow> a64_opcode option) \<Rightarrow> loaded_image \<Rightarrow> u64 \<Rightarrow> image_error + a64_insn" where
  "decode_at_aarch64_checked a64_decode img address =
     rbind (ok_or (AddressNotMapped address) (section_containing img address)) (\<lambda>s.
       if \<not> perm_execute (sec_permissions s) then Inl (AddressNotExecutable address)
       else decode_at_aarch64 a64_decode img address)"

text \<open>The slot a pair of \<^verbatim>\<open>adrp\<close> and \<^verbatim>\<open>ldr\<close> computes.\<close>

definition aarch64_plt_got_target :: "a64_insn \<Rightarrow> a64_insn \<Rightarrow> u64 option" where
  "aarch64_plt_got_target fst_insn snd_insn =
     Option.bind (arch_detail fst_insn) (\<lambda>adrp.
     Option.bind (arch_detail snd_insn) (\<lambda>ldr.
       if a64_mnemonic adrp \<noteq> ''adrp'' \<or> a64_mnemonic ldr \<noteq> ''ldr'' then None
       else
         let adrp_word = a64_bits adrp;
             ldr_word = a64_bits ldr
         in if drop_bit 30 ldr_word AND 3 \<noteq> 3 then None
            else if adrp_word AND 0x1f \<noteq> drop_bit 5 ldr_word AND 0x1f then None
            else
              let immlo = drop_bit 29 adrp_word AND 3;
                  immhi = drop_bit 5 adrp_word AND 0x7ffff;
                  page_offset = sign_extend (push_bit 2 immhi OR immlo) 21 * 2 ^ 12;
                  page = wrapping_add_signed (insn_address fst_insn AND NOT 0xfff) page_offset;
                  imm12 = drop_bit 10 ldr_word AND 0xfff
              in Some (page + ucast imm12 * 8)))"

end
