(* ===== verification/Btree.thy ===== *)
theory Btree
  imports Prelude
begin

text \<open>
  Ordered maps: the \<^verbatim>\<open>BTreeMap\<close> of the recovery code. A map is the list of its entries by
  increasing key, which is the order in which the sources iterate over it. The locale
  \<open>ordered_map\<close> states the laws the clients use.
\<close>

type_synonym ('k, 'v) btree = "('k \<times> 'v) list"

abbreviation bt_get :: "('k, 'v) btree \<Rightarrow> 'k \<Rightarrow> 'v option" where
  "bt_get \<equiv> map_of"

abbreviation bt_contains :: "('k, 'v) btree \<Rightarrow> 'k \<Rightarrow> bool" where
  "bt_contains m k \<equiv> map_of m k \<noteq> None"

definition bt_wf :: "('k :: linorder, 'v) btree \<Rightarrow> bool" where
  "bt_wf m \<longleftrightarrow> sorted_wrt (<) (map fst m)"

fun bt_insert :: "'k :: linorder \<Rightarrow> 'v \<Rightarrow> ('k, 'v) btree \<Rightarrow> ('k, 'v) btree" where
  "bt_insert k v [] = [(k, v)]"
| "bt_insert k v ((q, w) # m) =
     (if k < q then (k, v) # (q, w) # m else if k = q then (k, v) # m else (q, w) # bt_insert k v m)"

definition bt_remove :: "'k \<Rightarrow> ('k, 'v) btree \<Rightarrow> ('k, 'v) btree" where
  "bt_remove k m = filter (\<lambda>e. fst e \<noteq> k) m"

text \<open>\<open>bt_entry k d f m\<close> is \<^verbatim>\<open>f(m.entry(k).or_insert(d))\<close>, \<open>bt_adjust\<close> an update through \<^verbatim>\<open>get_mut\<close>.\<close>

definition bt_entry :: "'k :: linorder \<Rightarrow> 'v \<Rightarrow> ('v \<Rightarrow> 'v) \<Rightarrow> ('k, 'v) btree \<Rightarrow> ('k, 'v) btree" where
  "bt_entry k d f m = bt_insert k (f (case bt_get m k of None \<Rightarrow> d | Some v \<Rightarrow> v)) m"

definition bt_adjust :: "'k \<Rightarrow> ('v \<Rightarrow> 'v) \<Rightarrow> ('k, 'v) btree \<Rightarrow> ('k, 'v) btree" where
  "bt_adjust k f m = map (\<lambda>(q, v). (q, if q = k then f v else v)) m"

lemma bt_wf_simps [simp]:
  "bt_wf []" "bt_wf ((k, v) # m) \<longleftrightarrow> (\<forall>q \<in> fst ` set m. k < q) \<and> bt_wf m"
  by (auto simp: bt_wf_def)

lemma bt_wf_distinct: "bt_wf m \<Longrightarrow> distinct (map fst m)"
  by (simp add: bt_wf_def strict_sorted_iff)

lemma bt_get_Some_iff: "bt_wf m \<Longrightarrow> bt_get m k = Some v \<longleftrightarrow> (k, v) \<in> set m"
  by (simp add: bt_wf_distinct)

lemma fst_set_insert: "fst ` set (bt_insert k v m) = insert k (fst ` set m)"
  by (induction k v m rule: bt_insert.induct) auto

lemma bt_wf_insert [simp]: "bt_wf m \<Longrightarrow> bt_wf (bt_insert k v m)"
  by (induction k v m rule: bt_insert.induct) (auto simp: fst_set_insert)

lemma bt_get_insert: "bt_get (bt_insert k v m) = (bt_get m)(k \<mapsto> v)"
  by (induction k v m rule: bt_insert.induct) (auto simp: fun_eq_iff)

lemma bt_wf_filter: "bt_wf m \<Longrightarrow> bt_wf (filter P m)"
  by (induction m) auto

lemma bt_wf_remove [simp]: "bt_wf m \<Longrightarrow> bt_wf (bt_remove k m)"
  by (simp add: bt_remove_def bt_wf_filter)

lemma bt_get_remove: "bt_get (bt_remove k m) = (bt_get m)(k := None)"
  by (induction m) (auto simp: bt_remove_def fun_eq_iff)

lemma bt_wf_entry [simp]: "bt_wf m \<Longrightarrow> bt_wf (bt_entry k d f m)"
  by (simp add: bt_entry_def)

lemma bt_wf_adjust [simp]: "bt_wf m \<Longrightarrow> bt_wf (bt_adjust k f m)"
  by (simp add: bt_wf_def bt_adjust_def comp_def case_prod_beta)

lemma bt_get_adjust: "bt_get (bt_adjust k f m) q = (if q = k then map_option f (bt_get m k) else bt_get m q)"
  by (induction m) (auto simp: bt_adjust_def)

section \<open>The contract\<close>

locale ordered_map =
  fixes get :: "'m \<Rightarrow> 'k :: linorder \<Rightarrow> 'v option"
    and ins :: "'k \<Rightarrow> 'v \<Rightarrow> 'm \<Rightarrow> 'm"
    and del :: "'k \<Rightarrow> 'm \<Rightarrow> 'm"
    and entries :: "'m \<Rightarrow> ('k \<times> 'v) list"
    and inv :: "'m \<Rightarrow> bool"
  assumes inv_ins: "inv m \<Longrightarrow> inv (ins k v m)"
    and inv_del: "inv m \<Longrightarrow> inv (del k m)"
    and get_ins: "inv m \<Longrightarrow> get (ins k v m) = (get m)(k \<mapsto> v)"
    and get_del: "inv m \<Longrightarrow> get (del k m) = (get m)(k := None)"
    and entries_get: "inv m \<Longrightarrow> (k, v) \<in> set (entries m) \<longleftrightarrow> get m k = Some v"
    and entries_sorted: "inv m \<Longrightarrow> sorted_wrt (<) (map fst (entries m))"
begin

lemma inv_fold: "inv m \<Longrightarrow> inv (fold (\<lambda>x. ins (key x) (val x)) xs m)"
  by (induction xs arbitrary: m) (auto intro: inv_ins)

text \<open>Inserting a list of entries leaves the last one of each key.\<close>

lemma get_fold:
  assumes "inv m"
  shows "get (fold (\<lambda>x. ins (key x) (val x)) xs m) = get m ++ map_of (rev (map (\<lambda>x. (key x, val x)) xs))"
  using assms
proof (induction xs arbitrary: m)
  case (Cons x xs)
  have "get (fold (\<lambda>x. ins (key x) (val x)) xs (ins (key x) (val x) m))
      = get (ins (key x) (val x) m) ++ map_of (rev (map (\<lambda>x. (key x, val x)) xs))"
    using Cons.prems by (intro Cons.IH inv_ins)
  then show ?case using Cons.prems by (simp add: get_ins map_add_assoc [symmetric])
qed simp

text \<open>Two maps with the same lookups are iterated in the same way.\<close>

lemma entries_eq: "inv m \<Longrightarrow> entries m = map (\<lambda>k. (k, the (get m k))) (map fst (entries m))"
  by (auto simp: entries_get intro!: nth_equalityI) (metis entries_get nth_mem option.sel prod.collapse)

lemma entries_cong:
  assumes "inv m" "inv n" "get m = get n"
  shows "entries m = entries n"
proof -
  have "fst ` set (entries m) = dom (get m)" if "inv m" for m
    using entries_get [OF that] by (auto simp: dom_def image_iff Bex_def)
  then have "set (map fst (entries m)) = set (map fst (entries n))" using assms by simp
  then have "map fst (entries m) = map fst (entries n)"
    using entries_sorted [OF assms(1)] entries_sorted [OF assms(2)] by (intro strict_sorted_equal) simp_all
  then show ?thesis using entries_eq [OF assms(1)] entries_eq [OF assms(2)] assms(3) by simp
qed

end

interpretation btree: ordered_map map_of bt_insert bt_remove "\<lambda>m. m" bt_wf
  by unfold_locales (auto simp: bt_get_insert bt_get_remove bt_get_Some_iff bt_wf_def [symmetric])

lemma bt_get_entry: "bt_get (bt_entry k d f m) =
    (bt_get m)(k \<mapsto> f (case bt_get m k of None \<Rightarrow> d | Some v \<Rightarrow> v))"
  by (simp add: bt_entry_def bt_get_insert)

end
