(* ===== verification/Recovered.thy ===== *)
theory Recovered
  imports Decoder Btree
begin

text \<open>
  \<^verbatim>\<open>capa-x/src/extract/recovery/recovery.rs\<close>: the recovered code and the queries on it that
  all analyses share: references, pointers and jump tables, the instruction that covers an
  address, and the index of calls. The discovery that fills the tables is not modelled.
\<close>

section \<open>Data\<close>

datatype seed_kind =
    EntryPoint | Export | TlsCallback | SafeSeh | Unwind | Symbol | Init | Fini | InitArray | FiniArray
  | Relocation | PointerTarget | Emulated | ApiCallback | FlirtLocal | LibcMain | GoRuntimeMain
  | FunctionSignature | MsvcCookieBlock | Prologue | SweepCallTarget | CallTarget | MachoFunctionStarts

datatype edge_kind = Fallthrough | Branch | TailCall | JumpTable

record edge =
  edge_target :: u64
  edge_kind :: edge_kind

record 'd basic_block =
  block_addr :: u64
  insns :: "'d decoded_instruction list"
  succs :: "edge list"

record 'd recovered_function =
  func_addr :: u64
  blocks :: "'d basic_block list"

record recovery_diagnostic =
  diag_address :: u64
  diag_message :: string

record 'd analysis =
  an_image :: loaded_image
  seeds :: "(u64, seed_kind set) btree"
  an_functions :: "(u64, 'd recovered_function) btree"
  function_order :: "(u64, nat) btree"
  function_analysis_counts :: "(u64, nat) btree"
  function_flirt_counts :: "(u64, nat) btree"
  function_location_counts :: "(u64, nat) btree"
  instruction_order :: "(u64, nat) btree"
  an_instructions :: "(u64, 'd decoded_instruction) btree"
  code_xrefs :: "(u64, u64 list) btree"
  data_xrefs :: "(u64, u64 list) btree"
  callers :: "(u64, u64 set) btree"
  callees :: "(u64, u64 set) btree"
  an_diagnostics :: "recovery_diagnostic list"
  elf_function_symbols :: "(u64, string list) btree"
  noreturn :: "u64 set"
  noreturn_calls :: "u64 set"

definition is_noreturn_va :: "'d analysis \<Rightarrow> u64 \<Rightarrow> bool" where
  "is_noreturn_va an address \<longleftrightarrow> address \<in> noreturn an \<or> address \<in> noreturn_calls an"

definition is_block_terminator :: "flow \<Rightarrow> bool" where
  "is_block_terminator f \<longleftrightarrow> f \<notin> {Next, Call, IndirectCall}"

definition is_authoritative_seed :: "seed_kind \<Rightarrow> bool" where
  "is_authoritative_seed kind \<longleftrightarrow>
     kind \<in> {EntryPoint, Export, TlsCallback, SafeSeh, Unwind, Symbol, Init, Fini, InitArray, FiniArray,
             LibcMain, GoRuntimeMain, MsvcCookieBlock, MachoFunctionStarts}"

section \<open>References\<close>

definition push_xref :: "(u64, u64 list) btree \<Rightarrow> u64 \<Rightarrow> u64 \<Rightarrow> (u64, u64 list) btree" where
  "push_xref index target src =
     bt_entry target [] (\<lambda>sources. if src \<in> set sources then sources else sources @ [src]) index"

definition remove_code_reference :: "'d analysis \<Rightarrow> u64 \<Rightarrow> u64 \<Rightarrow> 'd analysis" where
  "remove_code_reference an src target =
     (case bt_get (code_xrefs an) target of
        None \<Rightarrow> an
      | Some sources \<Rightarrow>
          let kept = filter (\<lambda>address. address \<noteq> src) sources;
              xrefs = bt_adjust target (\<lambda>_. kept) (code_xrefs an)
          in an\<lparr>code_xrefs := if kept = [] then bt_remove target xrefs else xrefs\<rparr>)"

section \<open>Locations\<close>

text \<open>\<^verbatim>\<open>max_by_key\<close> returns the last of the greatest elements.\<close>

definition max_by_key :: "('a \<Rightarrow> 'b :: linorder) \<Rightarrow> 'a list \<Rightarrow> 'a option" where
  "max_by_key f xs =
     (case xs of [] \<Rightarrow> None | x # xs \<Rightarrow> Some (fold (\<lambda>y best. if f best \<le> f y then y else best) xs x))"

definition saturating_sub_u64 :: "u64 \<Rightarrow> u64 \<Rightarrow> u64" where
  "saturating_sub_u64 a b = (if b \<le> a then a - b else 0)"

definition instruction_location :: "'d analysis \<Rightarrow> u64 \<Rightarrow> 'd decoded_instruction option" where
  "instruction_location an address =
     map_option snd (max_by_key (\<lambda>(start, _). case bt_get (instruction_order an) start of None \<Rightarrow> 0 | Some n \<Rightarrow> n)
       (filter (\<lambda>(start, insn). saturating_sub_u64 address 14 \<le> start \<and> start \<le> address
                                 \<and> address < next_address insn) (an_instructions an)))"

section \<open>Pointers and jump tables\<close>

definition is_executable :: "loaded_image \<Rightarrow> u64 \<Rightarrow> bool" where
  "is_executable img address = is_executable_address img address"

text \<open>A pointer of the image's width from the bytes at an address, if enough are there.\<close>

definition pointer_of :: "nat \<Rightarrow> u8 list \<Rightarrow> u64 option" where
  "pointer_of width data = map_option (\<lambda>b. of_nat (le_value b)) (get_range data 0 (if width = 8 then 8 else 4))"

definition read_pointer :: "loaded_image \<Rightarrow> u64 \<Rightarrow> u64 option" where
  "read_pointer img address =
     Option.bind (bytes_at img address (pointer_width (arch img))) (pointer_of (pointer_width (arch img)))"

definition is_pointer_jump :: "loaded_image \<Rightarrow> x86_insn \<Rightarrow> bool" where
  "is_pointer_jump img insn \<longleftrightarrow>
     arch img \<noteq> AArch64 \<and> memory_target insn \<noteq> None \<and> memory_index (arch_detail insn) = No_Register"

fun scan_entries ::
  "loaded_image \<Rightarrow> u64 \<Rightarrow> nat \<Rightarrow> (u64 \<Rightarrow> u64 \<Rightarrow> bool) \<Rightarrow> nat list \<Rightarrow> u64 list \<Rightarrow> u64 list" where
  "scan_entries img base width accept [] targets = targets"
| "scan_entries img base width accept (index # rest) targets =
     (case checked_add_u64 base (of_nat (min (index * width) (USIZE - 1))) of
        None \<Rightarrow> targets
      | Some slot \<Rightarrow>
          (case Option.bind (bytes_at img slot width) (pointer_of width) of
             None \<Rightarrow> targets
           | Some target \<Rightarrow>
               if \<not> is_executable img target \<or> \<not> accept slot target then targets
               else scan_entries img base width accept rest (targets @ [target])))"

definition scan_jump_table :: "loaded_image \<Rightarrow> x86_insn \<Rightarrow> (u64 \<Rightarrow> u64 \<Rightarrow> bool) \<Rightarrow> u64 list" where
  "scan_jump_table img insn accept =
     (case memory_target insn of
        None \<Rightarrow> []
      | Some base \<Rightarrow>
          if arch img \<noteq> AArch64 \<and> memory_index (arch_detail insn) \<noteq> No_Register
             \<and> memory_index_scale (arch_detail insn) \<noteq> 4
          then []
          else
            let width = pointer_width (arch img);
                entries = (if is_pointer_jump img insn then 1
                           else case bytes_at img base (USIZE - 1) of
                                  None \<Rightarrow> 0
                                | Some bytes \<Rightarrow> length bytes div width)
            in scan_entries img base width accept [0..<entries] [])"

definition jump_table_targets :: "loaded_image \<Rightarrow> x86_insn \<Rightarrow> u64 list" where
  "jump_table_targets img insn = remdups (sort (scan_jump_table img insn (\<lambda>_ _. True)))"

section \<open>Calls\<close>

text \<open>The calls of a function in the order of its blocks, one per address.\<close>

fun first_calls :: "'d decoded_instruction list \<Rightarrow> u64 set \<Rightarrow> u64 list" where
  "first_calls [] seen = []"
| "first_calls (insn # rest) seen =
     (if insn_address insn \<in> seen then first_calls rest seen
      else
        (if insn_flow insn = Call then (case direct_target insn of None \<Rightarrow> [] | Some t \<Rightarrow> [t]) else [])
        @ first_calls rest (insert (insn_address insn) seen))"

definition index_call :: "u64 \<Rightarrow> u64 \<Rightarrow> (u64, u64 set) btree \<times> (u64, u64 set) btree
    \<Rightarrow> (u64, u64 set) btree \<times> (u64, u64 set) btree" where
  "index_call function_address target st =
     (bt_entry target {} (insert function_address) (fst st), bt_entry function_address {} (insert target) (snd st))"

definition rebuild_call_indexes :: "'d analysis \<Rightarrow> 'd analysis" where
  "rebuild_call_indexes an =
     (let (callers', callees') =
            fold (\<lambda>(function_address, f). fold (index_call function_address)
                    (first_calls (concat (map insns (blocks f))) {}))
              (an_functions an) ([], [])
      in an\<lparr>callers := callers', callees := callees'\<rparr>)"

end
