(* ===== verification/Loops.thy ===== *)
theory Loops
  imports Freeze Index_Map Recovered
begin

text \<open>
  \<^verbatim>\<open>capa-x/src/extract/features/function_features.rs\<close>: the features of a recovered function.
  The strongly connected components
  are computed by the two iterative depth-first passes of the source; a stack is a list with
  its top first, and the maps from a node to its neighbours are insertion-ordered maps,
  whose order is never observed.
\<close>

section \<open>The two passes\<close>

type_synonym adjacency = "(u64, u64 list) index_map"

abbreviation neighbours :: "adjacency \<Rightarrow> u64 \<Rightarrow> u64 list" where
  "neighbours adj n \<equiv> (case im_get (=) adj n of None \<Rightarrow> [] | Some ns \<Rightarrow> ns)"

definition forward_edges :: "(u64 \<times> u64) list \<Rightarrow> adjacency" where
  "forward_edges edges = fold (\<lambda>(src, dst). im_entry (=) src [] (\<lambda>l. l @ [dst])) edges []"

definition backward_edges :: "(u64 \<times> u64) list \<Rightarrow> adjacency" where
  "backward_edges edges = fold (\<lambda>(src, dst). im_entry (=) dst [] (\<lambda>l. l @ [src])) edges []"

definition edge_nodes :: "(u64 \<times> u64) list \<Rightarrow> u64 set" where
  "edge_nodes edges = fold (\<lambda>(src, dst) nodes. insert dst (insert src nodes)) edges {}"

lemma finite_adjacency [simp]: "finite (set (im_keys (adj :: adjacency)))"
  by simp

text \<open>Entries of the first stack carry the flag that tells a finished node from a new one.\<close>

function finish_dfs ::
  "adjacency \<Rightarrow> (u64 \<times> bool) list \<Rightarrow> u64 set \<Rightarrow> u64 list \<Rightarrow> u64 set \<times> u64 list" where
  "finish_dfs fwd [] visited finish_order = (visited, finish_order)"
| "finish_dfs fwd ((node, processed) # stack) visited finish_order =
     (if processed then finish_dfs fwd stack visited (finish_order @ [node])
      else if node \<in> visited then finish_dfs fwd stack visited finish_order
      else
        let visited = insert node visited;
            stack = fold (\<lambda>nx st. if nx \<notin> visited then (nx, False) # st else st)
                      (neighbours fwd node) ((node, True) # stack)
        in finish_dfs fwd stack visited finish_order)"
  by pat_completeness auto

definition entry_weight :: "u64 \<times> bool \<Rightarrow> nat" where
  "entry_weight e = (if snd e then 1 else 2)"

termination finish_dfs
proof (relation "measures
    [\<lambda>(fwd, stack, visited, order). card (set (im_keys fwd) - visited),
     \<lambda>(fwd, stack, visited, order). sum_list (map entry_weight stack)]")
  fix fwd :: adjacency and node processed stack visited order and visited' :: "u64 set" and stack'
  assume new: "\<not> processed" "node \<notin> visited" "visited' = insert node visited"
    and st: "stack' = fold (\<lambda>nx st. if nx \<notin> visited' then (nx, False) # st else st)
               (neighbours fwd node) ((node, True) # stack)"
  show "((fwd, stack', visited', order), fwd, (node, processed) # stack, visited, order) \<in> measures
    [\<lambda>(fwd, stack, visited, order). card (set (im_keys fwd) - visited),
     \<lambda>(fwd, stack, visited, order). sum_list (map entry_weight stack)]"
  proof (cases "node \<in> set (im_keys fwd)")
    case True
    with new have "set (im_keys fwd) - visited' \<subset> set (im_keys fwd) - visited" by auto
    then show ?thesis by (simp add: psubset_card_mono)
  next
    case False
    then have "im_get (=) fwd node = None" by (simp add: im_get_None_iff im_contains_def)
    then have "stack' = (node, True) # stack" using st by simp
    moreover have "set (im_keys fwd) - visited' = set (im_keys fwd) - visited" using new False by auto
    ultimately show ?thesis using new by (simp add: entry_weight_def)
  qed
qed (auto simp: entry_weight_def)

fun finish_all :: "adjacency \<Rightarrow> u64 list \<Rightarrow> u64 set \<times> u64 list \<Rightarrow> u64 set \<times> u64 list" where
  "finish_all fwd [] st = st"
| "finish_all fwd (start # nodes) (visited, finish_order) =
     (if start \<in> visited then finish_all fwd nodes (visited, finish_order)
      else finish_all fwd nodes (finish_dfs fwd [(start, False)] visited finish_order))"

function assign_dfs :: "adjacency \<Rightarrow> u64 list \<Rightarrow> u64 set \<Rightarrow> nat \<Rightarrow> u64 set \<times> nat" where
  "assign_dfs bwd [] assigned component_size = (assigned, component_size)"
| "assign_dfs bwd (node # stack) assigned component_size =
     (if node \<in> assigned then assign_dfs bwd stack assigned component_size
      else
        let assigned = insert node assigned;
            stack = fold (\<lambda>prev st. if prev \<notin> assigned then prev # st else st) (neighbours bwd node) stack
        in assign_dfs bwd stack assigned (component_size + 1))"
  by pat_completeness auto
termination
proof (relation "measures
    [\<lambda>(bwd, stack, assigned, n). card (set (im_keys bwd) - assigned),
     \<lambda>(bwd, stack, assigned, n). length stack]")
  fix bwd :: adjacency and node stack assigned and n :: nat and assigned' :: "u64 set" and stack'
  assume new: "node \<notin> assigned" "assigned' = insert node assigned"
    and st: "stack' = fold (\<lambda>prev st. if prev \<notin> assigned' then prev # st else st) (neighbours bwd node) stack"
  show "((bwd, stack', assigned', n + 1), bwd, node # stack, assigned, n) \<in> measures
    [\<lambda>(bwd, stack, assigned, n). card (set (im_keys bwd) - assigned),
     \<lambda>(bwd, stack, assigned, n). length stack]"
  proof (cases "node \<in> set (im_keys bwd)")
    case True
    with new have "set (im_keys bwd) - assigned' \<subset> set (im_keys bwd) - assigned" by auto
    then show ?thesis by (simp add: psubset_card_mono)
  next
    case False
    then have "im_get (=) bwd node = None" by (simp add: im_get_None_iff im_contains_def)
    then have "stack' = stack" using st by simp
    moreover have "set (im_keys bwd) - assigned' = set (im_keys bwd) - assigned" using new False by auto
    ultimately show ?thesis by simp
  qed
qed auto

fun any_component :: "adjacency \<Rightarrow> u64 list \<Rightarrow> u64 set \<Rightarrow> bool" where
  "any_component bwd [] assigned = False"
| "any_component bwd (start # order) assigned =
     (if start \<in> assigned then any_component bwd order assigned
      else
        (case assign_dfs bwd [start] assigned 0 of
           (assigned, component_size) \<Rightarrow>
             if 2 \<le> component_size then True else any_component bwd order assigned))"

definition has_loop :: "(u64 \<times> u64) list \<Rightarrow> bool" where
  "has_loop edges =
     (if edges = [] then False
      else
        let (_, finish_order) =
              finish_all (forward_edges edges) (sorted_list_of_set (edge_nodes edges)) ({}, [])
        in any_component (backward_edges edges) (rev finish_order) {})"

section \<open>Function features\<close>

definition block_edges :: "architecture \<Rightarrow> 'd basic_block \<Rightarrow> (u64 \<times> u64) list" where
  "block_edges ar b =
     (if ar = AArch64 then
        map (\<lambda>e. (block_addr b, edge_target e)) (filter (\<lambda>e. edge_kind e \<noteq> TailCall) (succs b))
      else if insns b = [] then []
      else
        let insn = last (insns b)
        in (if insn_flow insn \<in> {Next, Call, IndirectCall, ConditionalBranch}
            then [(block_addr b, next_address insn)] else [])
           @ (if insn_flow insn \<in> {ConditionalBranch, UnconditionalBranch}
              then (case direct_target insn of Some t \<Rightarrow> [(block_addr b, t)] | None \<Rightarrow> [])
              else if insn_flow insn = IndirectBranch
              then (case memory_target insn of Some t \<Rightarrow> [(block_addr b, t)] | None \<Rightarrow> [])
              else []))"

definition extract_function_loop :: "'d recovered_function \<Rightarrow> architecture \<Rightarrow> located" where
  "extract_function_loop f ar =
     (let edges = concat (map (block_edges ar) (blocks f))
      in if edges \<noteq> [] \<and> has_loop edges then [(Absolute (func_addr f), Characteristic ''loop'')] else [])"

definition extract_function_calls_to :: "'d analysis \<Rightarrow> 'd recovered_function \<Rightarrow> located" where
  "extract_function_calls_to an f =
     (case bt_get (code_xrefs an) (func_addr f) of
        None \<Rightarrow> []
      | Some sources \<Rightarrow> map (\<lambda>s. (Absolute s, Characteristic ''calls to'')) sources)"

definition extract_function_symtab_names :: "'d analysis \<Rightarrow> 'd recovered_function \<Rightarrow> located" where
  "extract_function_symtab_names an f =
     (if format (an_image an) \<notin> {Elf, Macho} then []
      else
        case bt_get (elf_function_symbols an) (func_addr f) of
          None \<Rightarrow> []
        | Some names \<Rightarrow> map (\<lambda>nm. (Absolute (func_addr f), FunctionName nm)) names)"

definition function_extract_features :: "'d analysis \<Rightarrow> 'd recovered_function \<Rightarrow> located" where
  "function_extract_features an f =
     extract_function_symtab_names an f @ extract_function_calls_to an f
     @ extract_function_loop f (arch (an_image an))"

end
