(* ===== verification/Loops_Props.thy ===== *)
theory Loops_Props
  imports Loops
begin

text \<open>
  The two depth-first passes of \<^verbatim>\<open>has_loop\<close> decide whether two distinct nodes reach each
  other. The first pass is described by an invariant of its stack, visited set and finish
  order; its outcome is that a node finished earlier which reaches a later one through
  earlier ones is reached back. The second pass collects the nodes that reach its start.
\<close>

section \<open>Adjacency\<close>

definition adjacent :: "adjacency \<Rightarrow> (u64 \<times> u64) set" where
  "adjacent adj = {(u, v). v \<in> set (neighbours adj u)}"

lemma neighbours_adjacent: "set (neighbours adj u) = adjacent adj `` {u}"
  by (auto simp: adjacent_def)

lemma neighbours_entry:
  "neighbours (im_entry (=) k [] (\<lambda>l. l @ [x]) adj) n = (if n = k then neighbours adj k @ [x] else neighbours adj n)"
  by (simp add: hol.get_entry split: option.split)

lemma neighbours_fold:
  "set (neighbours (fold (\<lambda>e. im_entry (=) (key e) [] (\<lambda>l. l @ [target e])) es adj) n)
     = set (neighbours adj n) \<union> {target e | e. e \<in> set es \<and> key e = n}"
proof (induction es arbitrary: adj)
  case (Cons e es)
  show ?case unfolding fold_simps o_apply Cons.IH neighbours_entry by auto
qed simp

lemma adjacent_forward: "adjacent (forward_edges edges) = set edges"
  unfolding adjacent_def forward_edges_def case_prod_beta neighbours_fold by auto

lemma adjacent_backward: "adjacent (backward_edges edges) = (set edges)\<inverse>"
  unfolding adjacent_def backward_edges_def case_prod_beta neighbours_fold by auto

lemma edge_nodes_set: "edge_nodes edges = Field (set edges)"
proof -
  have "fold (\<lambda>(src, dst) nodes. insert dst (insert src nodes)) edges ns = ns \<union> Field (set edges)" for ns
    by (induction edges arbitrary: ns) (auto simp: Field_insert)
  then show ?thesis by (simp add: edge_nodes_def)
qed

section \<open>The first pass\<close>

abbreviation from_set :: "(u64 \<times> u64) set \<Rightarrow> u64 set \<Rightarrow> (u64 \<times> u64) set" where
  "from_set E A \<equiv> E \<inter> (A \<times> UNIV)"

text \<open>A node that reaches a later one through earlier nodes only is reached back from it.\<close>

definition post_order :: "(u64 \<times> u64) set \<Rightarrow> u64 list \<Rightarrow> bool" where
  "post_order E order \<longleftrightarrow> (\<forall>A s B y. order = A @ s # B \<longrightarrow> (y, s) \<in> (from_set E (set A))\<^sup>+ \<longrightarrow> (s, y) \<in> E\<^sup>*)"

definition open_nodes :: "(u64 \<times> bool) list \<Rightarrow> u64 list" where
  "open_nodes stack = map fst (filter snd stack)"

definition finish_inv :: "(u64 \<times> u64) set \<Rightarrow> (u64 \<times> bool) list \<Rightarrow> u64 set \<Rightarrow> u64 list \<Rightarrow> bool" where
  "finish_inv E stack visited order \<longleftrightarrow>
     visited = set order \<union> set (open_nodes stack) \<and> distinct (order @ open_nodes stack)
     \<and> (\<forall>upper g lower e. stack = upper @ (g, True) # lower \<and> e \<in> set upper \<longrightarrow> (g, fst e) \<in> E\<^sup>*)
     \<and> (\<forall>x \<in> set order. E `` {x} \<subseteq> visited)
     \<and> (\<forall>upper g lower. stack = upper @ (g, True) # lower \<longrightarrow> E `` {g} \<subseteq> visited \<union> {z. (z, False) \<in> set upper})
     \<and> (\<forall>g \<in> set (open_nodes stack). \<forall>x. (x, g) \<in> (from_set E (set order))\<^sup>+ \<longrightarrow> (g, x) \<in> E\<^sup>*)
     \<and> post_order E order"

lemma open_nodes_simps [simp]:
  "open_nodes [] = []"
  "open_nodes ((n, b) # st) = (if b then n # open_nodes st else open_nodes st)"
  "open_nodes (st @ st') = open_nodes st @ open_nodes st'"
  by (simp_all add: open_nodes_def)

lemma open_nodes_split: "g \<in> set (open_nodes st) \<Longrightarrow> \<exists>upper lower. st = upper @ (g, True) # lower"
  by (auto simp: open_nodes_def intro: split_list)

text \<open>Allowing one more source adds only paths through it.\<close>

lemma from_set_insert:
  assumes "(x, g) \<in> (from_set E (insert n A))\<^sup>+"
  shows "(x, g) \<in> (from_set E A)\<^sup>+ \<or> x = n \<or> (x, n) \<in> (from_set E A)\<^sup>+"
  using assms
proof (induction rule: converse_trancl_induct)
  case (base y)
  then show ?case by auto
next
  case (step y z)
  then show ?case by (auto intro: trancl_into_trancl2)
qed

lemma from_set_target:
  assumes "(x, g) \<in> (from_set E A)\<^sup>+"
  shows "\<exists>w \<in> A. g \<in> E `` {w}"
  using assms by (cases rule: trancl.cases) auto

lemma post_order_snoc:
  assumes "post_order E order" "\<And>y. (y, n) \<in> (from_set E (set order))\<^sup>+ \<Longrightarrow> (n, y) \<in> E\<^sup>*"
  shows "post_order E (order @ [n])"
  unfolding post_order_def
proof (intro allI impI)
  fix A s B y
  assume eq: "order @ [n] = A @ s # B" and path: "(y, s) \<in> (from_set E (set A))\<^sup>+"
  show "(s, y) \<in> E\<^sup>*"
  proof (cases B rule: rev_cases)
    case Nil
    with eq have "A = order" "s = n" by auto
    with path assms(2) show ?thesis by blast
  next
    case (snoc B' z)
    with eq have "order = A @ s # B'" by auto
    with path assms(1) show ?thesis unfolding post_order_def by blast
  qed
qed

lemma finish_invI:
  assumes "visited = set order \<union> set (open_nodes stack)" "distinct (order @ open_nodes stack)"
    and "\<And>upper g lower e. stack = upper @ (g, True) # lower \<Longrightarrow> e \<in> set upper \<Longrightarrow> (g, fst e) \<in> E\<^sup>*"
    and "\<And>x. x \<in> set order \<Longrightarrow> E `` {x} \<subseteq> visited"
    and "\<And>upper g lower. stack = upper @ (g, True) # lower \<Longrightarrow> E `` {g} \<subseteq> visited \<union> {z. (z, False) \<in> set upper}"
    and "\<And>g x. g \<in> set (open_nodes stack) \<Longrightarrow> (x, g) \<in> (from_set E (set order))\<^sup>+ \<Longrightarrow> (g, x) \<in> E\<^sup>*"
    and "post_order E order"
  shows "finish_inv E stack visited order"
  unfolding finish_inv_def by (intro conjI allI ballI impI; (elim conjE)?) (rule assms; assumption)+

lemma finish_invD:
  assumes "finish_inv E stack visited order"
  shows "visited = set order \<union> set (open_nodes stack)" "distinct (order @ open_nodes stack)"
    and "stack = upper @ (g, True) # lower \<Longrightarrow> e \<in> set upper \<Longrightarrow> (g, fst e) \<in> E\<^sup>*"
    and "x \<in> set order \<Longrightarrow> E `` {x} \<subseteq> visited"
    and "stack = upper @ (g, True) # lower \<Longrightarrow> E `` {g} \<subseteq> visited \<union> {z. (z, False) \<in> set upper}"
    and "h \<in> set (open_nodes stack) \<Longrightarrow> (y, h) \<in> (from_set E (set order))\<^sup>+ \<Longrightarrow> (h, y) \<in> E\<^sup>*"
    and "post_order E order"
  using assms unfolding finish_inv_def by blast+

lemma finish_inv_pop:
  assumes inv: "finish_inv E ((n, True) # stack) visited order"
  shows "finish_inv E stack visited (order @ [n])"
proof (rule finish_invI)
  note I = finish_invD [OF inv]
  show "visited = set (order @ [n]) \<union> set (open_nodes stack)" "distinct ((order @ [n]) @ open_nodes stack)"
    using I(1,2) by auto
  have reach: "(g, fst e) \<in> E\<^sup>*" if "stack = upper @ (g, True) # lower" "e \<in> set ((n, True) # upper)" for upper g lower e
    using I(3) [of "(n, True) # upper" g lower e] that by simp
  show "(g, fst e) \<in> E\<^sup>*" if "stack = upper @ (g, True) # lower" "e \<in> set upper" for upper g lower e
    using reach [OF that(1), of e] that(2) by simp
  show "E `` {x} \<subseteq> visited" if "x \<in> set (order @ [n])" for x
    using I(4) [of x] I(5) [of "[]" n stack] that by auto
  show "E `` {g} \<subseteq> visited \<union> {z. (z, False) \<in> set upper}" if "stack = upper @ (g, True) # lower" for upper g lower
    using I(5) [of "(n, True) # upper" g lower] that by simp
  have returns: "(n, y) \<in> E\<^sup>*" if "(y, n) \<in> (from_set E (set order))\<^sup>+" for y using I(6) [of n y] that by simp
  then show "post_order E (order @ [n])" by (rule post_order_snoc [OF I(7)])
  show "(g, x) \<in> E\<^sup>*" if g: "g \<in> set (open_nodes stack)" and p: "(x, g) \<in> (from_set E (set (order @ [n])))\<^sup>+" for g x
  proof -
    obtain upper lower where "stack = upper @ (g, True) # lower" using open_nodes_split [OF g] by blast
    from reach [OF this, of "(n, True)"] have gn: "(g, n) \<in> E\<^sup>*" by simp
    have "(x, g) \<in> (from_set E (insert n (set order)))\<^sup>+" using p by simp
    from from_set_insert [OF this] gn returns [of x] I(6) [of g x] g show ?thesis
      by (auto intro: rtrancl_trans)
  qed
qed

lemma finish_inv_skip:
  assumes inv: "finish_inv E ((n, False) # stack) visited order" and "n \<in> visited"
  shows "finish_inv E stack visited order"
proof (rule finish_invI)
  note I = finish_invD [OF inv]
  show "visited = set order \<union> set (open_nodes stack)" "distinct (order @ open_nodes stack)"
    using I(1,2) by auto
  show "(g, fst e) \<in> E\<^sup>*" if "stack = upper @ (g, True) # lower" "e \<in> set upper" for upper g lower e
    using I(3) [of "(n, False) # upper" g lower e] that by simp
  show "E `` {x} \<subseteq> visited" if "x \<in> set order" for x using I(4) [OF that] .
  show "E `` {g} \<subseteq> visited \<union> {z. (z, False) \<in> set upper}" if "stack = upper @ (g, True) # lower" for upper g lower
    using I(5) [of "(n, False) # upper" g lower] that assms(2) by auto
  show "(g, x) \<in> E\<^sup>*" if "g \<in> set (open_nodes stack)" "(x, g) \<in> (from_set E (set order))\<^sup>+" for g x
    using I(6) [of g x] that by simp
  show "post_order E order" by (rule I(7))
qed

text \<open>Expanding a new node pushes the node as open and above it its unvisited successors.\<close>

lemma finish_inv_expand:
  assumes inv: "finish_inv E ((n, False) # stack) visited order" and new: "n \<notin> visited"
    and pushed: "set pushed = {(z, False) | z. (n, z) \<in> E \<and> z \<notin> insert n visited}"
  shows "finish_inv E (pushed @ (n, True) # stack) (insert n visited) order"
proof (rule finish_invI)
  note I = finish_invD [OF inv]
  have closed_pushed: "open_nodes pushed = []" using pushed by (auto simp: open_nodes_def filter_empty_conv)
  show "insert n visited = set order \<union> set (open_nodes (pushed @ (n, True) # stack))"
    "distinct (order @ open_nodes (pushed @ (n, True) # stack))"
    using I(1,2) new closed_pushed by auto
  have split: "upper = pushed \<and> g = n \<and> lower = stack
      \<or> (\<exists>upper'. upper = pushed @ (n, True) # upper' \<and> (n, False) # stack = ((n, False) # upper') @ (g, True) # lower)"
    if eq: "pushed @ (n, True) # stack = upper @ (g, True) # lower" for upper g lower
  proof -
    have "(g, True) \<notin> set pushed" using pushed by auto
    with eq show ?thesis by (auto simp: append_eq_append_conv2 append_eq_Cons_conv Cons_eq_append_conv)
  qed
  show "(g, fst e) \<in> E\<^sup>*" if eq: "pushed @ (n, True) # stack = upper @ (g, True) # lower" and e: "e \<in> set upper" for upper g lower e
    using split [OF eq]
  proof (elim disjE exE conjE)
    assume "upper = pushed" "g = n"
    with e pushed show ?thesis by auto
  next
    fix upper' assume upper: "upper = pushed @ (n, True) # upper'"
      and st: "(n, False) # stack = ((n, False) # upper') @ (g, True) # lower"
    have gn: "(g, n) \<in> E\<^sup>*" using I(3) [OF st, of "(n, False)"] by simp
    from e upper consider "e \<in> set pushed" | "fst e = n" | "e \<in> set upper'" by auto
    then show ?thesis
      using gn pushed I(3) [OF st, of e] by cases (auto intro: rtrancl_into_rtrancl)
  qed
  show "E `` {x} \<subseteq> insert n visited" if "x \<in> set order" for x using I(4) [OF that] by blast
  show "E `` {g} \<subseteq> insert n visited \<union> {z. (z, False) \<in> set upper}"
    if eq: "pushed @ (n, True) # stack = upper @ (g, True) # lower" for upper g lower
    using split [OF eq]
  proof (elim disjE exE conjE)
    assume "upper = pushed" "g = n"
    with pushed show ?thesis by auto
  next
    fix upper' assume upper: "upper = pushed @ (n, True) # upper'"
      and st: "(n, False) # stack = ((n, False) # upper') @ (g, True) # lower"
    show ?thesis using I(5) [OF st] unfolding upper by auto
  qed
  show "(g, x) \<in> E\<^sup>*" if g: "g \<in> set (open_nodes (pushed @ (n, True) # stack))"
    and p: "(x, g) \<in> (from_set E (set order))\<^sup>+" for g x
  proof (cases "g = n")
    case True
    from from_set_target [OF p] I(4) have "g \<in> visited" by blast
    with True new show ?thesis by simp
  next
    case False
    with g closed_pushed I(6) [OF _ p] show ?thesis by simp
  qed
  show "post_order E order" by (rule I(7))
qed

lemma pushed_new: "fold (\<lambda>x st. if P x then f x # st else st) xs st = rev (map f (filter P xs)) @ st"
  by (induction xs arbitrary: st) auto

lemma finish_dfs_inv:
  assumes "finish_inv (adjacent fwd) stack visited order" "finish_dfs fwd stack visited order = (visited', order')"
  shows "finish_inv (adjacent fwd) [] visited' order' \<and> visited \<subseteq> visited' \<and> fst ` set stack \<subseteq> visited'"
  using assms
proof (induction fwd stack visited order rule: finish_dfs.induct)
  case (1 fwd visited order)
  then show ?case by simp
next
  case (2 fwd n processed stack visited order)
  consider (pop) processed | (skip) "\<not> processed" "n \<in> visited" | (expand) "\<not> processed" "n \<notin> visited" by blast
  then show ?case
  proof cases
    case pop
    with 2(4) have "finish_inv (adjacent fwd) ((n, True) # stack) visited order" by simp
    moreover from this have "n \<in> visited" using finish_invD(1) by fastforce
    ultimately show ?thesis
      using 2(1) [OF pop finish_inv_pop] 2(5) pop by auto
  next
    case skip
    with 2(4) have "finish_inv (adjacent fwd) ((n, False) # stack) visited order" by simp
    from finish_inv_skip [OF this skip(2)] show ?thesis
      using 2(2) [OF skip] 2(5) skip by auto
  next
    case expand
    let ?push = "rev (map (\<lambda>z. (z, False)) (filter (\<lambda>z. z \<notin> insert n visited) (neighbours fwd n)))"
    from expand 2(4) have "finish_inv (adjacent fwd) ((n, False) # stack) visited order" by simp
    from finish_inv_expand [OF this expand(2), of ?push]
    have inv: "finish_inv (adjacent fwd) (?push @ (n, True) # stack) (insert n visited) order"
      by (auto simp: neighbours_adjacent)
    show ?thesis
      using 2(3) [OF expand refl refl] inv 2(5) expand by (simp only: pushed_new) (simp add: pushed_new Let_def image_Un)
  qed
qed

text \<open>All nodes are finished at the end of the first pass.\<close>

lemma finish_inv_start:
  assumes "finish_inv E [] visited order"
  shows "finish_inv E [(start, False)] visited order"
proof (rule finish_invI)
  note I = finish_invD [OF assms]
  show "E `` {x} \<subseteq> visited" if "x \<in> set order" for x by (rule I(4) [OF that])
qed (use finish_invD(1,2,7) [OF assms] in \<open>simp_all add: Cons_eq_append_conv\<close>)

lemma finish_all_inv:
  assumes "finish_inv (adjacent fwd) [] visited order" "finish_all fwd nodes (visited, order) = (visited', order')"
  shows "finish_inv (adjacent fwd) [] visited' order' \<and> visited \<union> set nodes \<subseteq> visited'"
  using assms
proof (induction nodes arbitrary: visited order)
  case Nil
  then show ?case by simp
next
  case (Cons start nodes)
  show ?case
  proof (cases "start \<in> visited")
    case True
    with Cons show ?thesis by auto
  next
    case False
    obtain v o' where run: "finish_dfs fwd [(start, False)] visited order = (v, o')"
      by (cases "finish_dfs fwd [(start, False)] visited order")
    from finish_dfs_inv [OF finish_inv_start [OF Cons.prems(1)] run]
    have inv: "finish_inv (adjacent fwd) [] v o'" and sub: "insert start visited \<subseteq> v" by auto
    from Cons.IH [OF inv] Cons.prems(2) False run sub show ?thesis by auto
  qed
qed

lemma finish_order_complete:
  assumes "finish_all (forward_edges edges) (sorted_list_of_set (edge_nodes edges)) ({}, []) = (visited, order)"
  shows "post_order (set edges) order" "Field (set edges) \<subseteq> set order"
proof -
  have "finish_inv (adjacent (forward_edges edges)) [] {} []"
    by (rule finish_invI) (auto simp: post_order_def)
  from finish_all_inv [OF this assms]
  have inv: "finish_inv (set edges) [] visited order" and sub: "set (sorted_list_of_set (edge_nodes edges)) \<subseteq> visited"
    unfolding adjacent_forward by auto
  show "post_order (set edges) order" by (rule finish_invD(7) [OF inv])
  have "finite (edge_nodes edges)" unfolding edge_nodes_set by (simp add: finite_Field)
  with sub finish_invD(1) [OF inv] show "Field (set edges) \<subseteq> set order"
    by (simp add: edge_nodes_set)
qed

section \<open>The second pass\<close>

definition ancestors_closed :: "(u64 \<times> u64) set \<Rightarrow> u64 set \<Rightarrow> bool" where
  "ancestors_closed E A \<longleftrightarrow> (\<forall>(y, z) \<in> E. z \<in> A \<longrightarrow> y \<in> A)"

lemma ancestors_closedD:
  assumes "(y, z) \<in> E\<^sup>*" "ancestors_closed E A" "z \<in> A"
  shows "y \<in> A"
  using assms by (induction rule: converse_rtrancl_induct) (auto simp: ancestors_closed_def)

lemma assign_dfs_collects:
  assumes "assign_dfs bwd stack assigned k = (assigned', k')" "finite assigned"
    and "\<And>y z. (z, y) \<in> adjacent bwd \<Longrightarrow> z \<in> assigned \<Longrightarrow> y \<in> assigned \<union> set stack"
  shows "finite assigned' \<and> assigned \<union> set stack \<subseteq> assigned' \<and> ancestors_closed ((adjacent bwd)\<inverse>) assigned'
     \<and> assigned' \<subseteq> assigned \<union> {y. \<exists>s \<in> set stack. (s, y) \<in> (adjacent bwd)\<^sup>*}
     \<and> k' = k + card (assigned' - assigned)"
  using assms
proof (induction bwd stack assigned k rule: assign_dfs.induct)
  case (1 bwd assigned k)
  then show ?case by (auto simp: ancestors_closed_def)
next
  case (2 bwd n stack assigned k)
  show ?case
  proof (cases "n \<in> assigned")
    case True
    with 2(3,4,5) 2(1) [OF True] show ?thesis by auto
  next
    case False
    let ?push = "rev (map (\<lambda>z. z) (filter (\<lambda>z. z \<notin> insert n assigned) (neighbours bwd n)))"
    have run: "assign_dfs bwd (?push @ stack) (insert n assigned) (k + 1) = (assigned', k')"
      using 2(3) False by (simp add: pushed_new [where f = "\<lambda>z. z", simplified] Let_def)
    have inv: "y \<in> insert n assigned \<union> set (?push @ stack)"
      if "(z, y) \<in> adjacent bwd" "z \<in> insert n assigned" for y z
      using that 2(5) [of z y] by (auto simp: neighbours_adjacent)
    have IH: "finite assigned' \<and> insert n assigned \<union> set (?push @ stack) \<subseteq> assigned' \<and> ancestors_closed ((adjacent bwd)\<inverse>) assigned'
     \<and> assigned' \<subseteq> insert n assigned \<union> {y. \<exists>s \<in> set (?push @ stack). (s, y) \<in> (adjacent bwd)\<^sup>*}
     \<and> k' = k + 1 + card (assigned' - insert n assigned)"
      using 2(2) [OF False refl refl] run inv 2(4) by (simp only: pushed_new [where f = "\<lambda>z. z"]) simp
    have "assigned' - assigned = insert n (assigned' - insert n assigned)" using IH False by auto
    then have "card (assigned' - assigned) = 1 + card (assigned' - insert n assigned)"
      using IH by (simp add: card_insert_disjoint)
    moreover have "\<exists>s \<in> set (n # stack). (s, y) \<in> (adjacent bwd)\<^sup>*" if "y \<in> assigned'" "y \<notin> assigned" for y
    proof -
      from IH that consider "y = n" | s where "s \<in> set ?push" "(s, y) \<in> (adjacent bwd)\<^sup>*"
        | s where "s \<in> set stack" "(s, y) \<in> (adjacent bwd)\<^sup>*" unfolding set_append by blast
      then show ?thesis
      proof cases
        case 2
        then have "(n, s) \<in> adjacent bwd" by (simp add: neighbours_adjacent)
        from converse_rtrancl_into_rtrancl [OF this 2(2)] show ?thesis by auto
      qed auto
    qed
    ultimately show ?thesis using IH by auto
  qed
qed

lemma component_from:
  assumes run: "assign_dfs (backward_edges edges) [s] assigned 0 = (assigned', k)"
    and "finite assigned" "ancestors_closed (set edges) assigned"
  shows "finite assigned'" "ancestors_closed (set edges) assigned'"
    "assigned' = assigned \<union> {y. (y, s) \<in> (set edges)\<^sup>*}" "k = card (assigned' - assigned)"
proof -
  have "y \<in> assigned \<union> set [s]" if "(z, y) \<in> adjacent (backward_edges edges)" "z \<in> assigned" for y z
    using that assms(3) unfolding adjacent_backward ancestors_closed_def by auto
  from assign_dfs_collects [OF run assms(2) this, unfolded adjacent_backward rtrancl_converse]
  have C: "finite assigned' \<and> assigned \<union> {s} \<subseteq> assigned' \<and> ancestors_closed (set edges) assigned'
     \<and> assigned' \<subseteq> assigned \<union> {y. (y, s) \<in> (set edges)\<^sup>*} \<and> k = card (assigned' - assigned)" by simp
  then show "finite assigned'" "ancestors_closed (set edges) assigned'" "k = card (assigned' - assigned)"
    by auto
  show "assigned' = assigned \<union> {y. (y, s) \<in> (set edges)\<^sup>*}"
    using C ancestors_closedD [of _ s "set edges" assigned'] by auto
qed

lemma any_component_step:
  assumes "assign_dfs bwd [s] assigned 0 = (assigned', k)"
  shows "any_component bwd (s # order) assigned =
    (if s \<in> assigned then any_component bwd order assigned else 2 \<le> k \<or> any_component bwd order assigned')"
  using assms by (simp del: assign_dfs.simps)

definition mutual :: "(u64 \<times> u64) set \<Rightarrow> u64 \<Rightarrow> u64 \<Rightarrow> bool" where
  "mutual E u v \<longleftrightarrow> u \<noteq> v \<and> (u, v) \<in> E\<^sup>* \<and> (v, u) \<in> E\<^sup>*"

lemma two_members: "finite A \<Longrightarrow> 2 \<le> card A \<longleftrightarrow> (\<exists>x \<in> A. \<exists>y \<in> A. x \<noteq> y)"
  using card_le_Suc0_iff_eq [of A] by fastforce

text \<open>A path whose sources are earlier nodes, up to its first arrival at the end.\<close>

lemma path_through:
  assumes "(y, s) \<in> E\<^sup>*" "y \<noteq> s" "\<And>w. (y, w) \<in> E\<^sup>* \<Longrightarrow> (w, s) \<in> E\<^sup>* \<Longrightarrow> w \<noteq> s \<Longrightarrow> w \<in> A"
  shows "(y, s) \<in> (from_set E A)\<^sup>+"
  using assms
proof (induction rule: converse_rtrancl_induct)
  case base
  then show ?case by simp
next
  case (step y z)
  have "y \<in> A" using step.prems(2) [of y] step.hyps step.prems(1) by (simp add: converse_rtrancl_into_rtrancl)
  with step.hyps(1) have y: "(y, z) \<in> from_set E A" by simp
  show ?case
  proof (cases "z = s")
    case True
    with y show ?thesis by auto
  next
    case False
    have "(z, s) \<in> (from_set E A)\<^sup>+"
      using step.IH [OF False] step.prems(2) step.hyps(1) by (meson converse_rtrancl_into_rtrancl)
    with y show ?thesis by (rule trancl_into_trancl2)
  qed
qed

lemma any_component_sound:
  assumes "any_component (backward_edges edges) (rev A) assigned"
    and "post_order (set edges) (A @ B)" "Field (set edges) \<subseteq> set (A @ B)"
    and "finite assigned" "ancestors_closed (set edges) assigned" "set B \<subseteq> assigned"
  shows "\<exists>u v. mutual (set edges) u v"
  using assms
proof (induction A arbitrary: assigned B rule: rev_induct)
  case Nil
  then show ?case by simp
next
  case (snoc s A)
  let ?E = "set edges"
  obtain assigned' k where run: "assign_dfs (backward_edges edges) [s] assigned 0 = (assigned', k)" by force
  note C = component_from [OF run snoc.prems(4,5)]
  have step: "any_component (backward_edges edges) (rev (A @ [s])) assigned = (if s \<in> assigned
      then any_component (backward_edges edges) (rev A) assigned
      else 2 \<le> k \<or> any_component (backward_edges edges) (rev A) assigned')"
    using any_component_step [OF run, of "rev A"] by simp
  consider (old) "s \<in> assigned" | (big) "s \<notin> assigned" "2 \<le> k" | (small) "s \<notin> assigned" "\<not> 2 \<le> k" by blast
  then show ?case
  proof cases
    case old
    then show ?thesis using snoc.IH [of assigned "s # B"] snoc.prems step by simp
  next
    case small
    moreover have "set (s # B) \<subseteq> assigned'" using snoc.prems(6) C(3) by auto
    ultimately show ?thesis using snoc.IH [of assigned' "s # B"] snoc.prems(1-3) C(1,2) step by simp
  next
    case big
    have "finite (assigned' - assigned)" using C(1) by simp
    with big(2) C(4) obtain a b where "a \<noteq> b" "a \<in> assigned' - assigned" "b \<in> assigned' - assigned"
      using two_members by blast
    moreover have "x \<notin> assigned \<and> (x, s) \<in> ?E\<^sup>*" if "x \<in> assigned' - assigned" for x using C(3) that by auto
    ultimately obtain y where y: "y \<noteq> s" "y \<notin> assigned" "(y, s) \<in> ?E\<^sup>*" by metis
    have "w \<in> set A" if "(y, w) \<in> ?E\<^sup>*" "(w, s) \<in> ?E\<^sup>*" "w \<noteq> s" for w
    proof -
      have "w \<notin> assigned" using ancestors_closedD [OF that(1) snoc.prems(5)] y(2) by blast
      moreover have "w \<in> Field ?E" using that(2,3) by (meson FieldI1 converse_rtranclE)
      ultimately show ?thesis using snoc.prems(3,6) that(3) by auto
    qed
    from path_through [OF y(3,1) this] have "(s, y) \<in> ?E\<^sup>*"
      using snoc.prems(2) unfolding post_order_def by auto
    with y show ?thesis unfolding mutual_def by blast
  qed
qed

lemma any_component_complete:
  assumes "mutual (set edges) u v" "u \<notin> assigned" "s \<in> set order" "(u, s) \<in> (set edges)\<^sup>*"
    and "finite assigned" "ancestors_closed (set edges) assigned"
  shows "any_component (backward_edges edges) order assigned"
  using assms(2-)
proof (induction order arbitrary: assigned)
  case Nil
  then show ?case by simp
next
  case (Cons t order)
  let ?E = "set edges"
  obtain assigned' k where run: "assign_dfs (backward_edges edges) [t] assigned 0 = (assigned', k)" by force
  note C = component_from [OF run Cons.prems(4,5)]
  show ?case
  proof (cases "u \<in> assigned'")
    case True
    with Cons.prems(1) C(3) have ut: "(u, t) \<in> ?E\<^sup>*" by blast
    then have t: "t \<notin> assigned" using ancestors_closedD [OF ut Cons.prems(5)] Cons.prems(1) by blast
    have "v \<notin> assigned" using ancestors_closedD [of u v ?E assigned] assms(1) Cons.prems(1,5) by (auto simp: mutual_def)
    moreover have "(v, t) \<in> ?E\<^sup>*" using assms(1) ut by (auto simp: mutual_def)
    ultimately have "2 \<le> k"
      unfolding C(4) using True Cons.prems(1) C(1,3) assms(1) by (subst two_members) (auto simp: mutual_def)
    then show ?thesis using t any_component_step [OF run] by simp
  next
    case False
    then have "s \<noteq> t" using C(3) Cons.prems(3) by blast
    with Cons.prems(2) have "s \<in> set order" by simp
    then show ?thesis
      using Cons.IH [OF False] Cons.IH [OF Cons.prems(1)] Cons.prems(3-) C(1,2) any_component_step [OF run, of order] by simp
  qed
qed

lemma has_loop_iff:
  "has_loop edges \<longleftrightarrow> (\<exists>u v. u \<noteq> v \<and> (u, v) \<in> (set edges)\<^sup>* \<and> (v, u) \<in> (set edges)\<^sup>*)"
proof -
  let ?E = "set edges"
  obtain visited order where run:
    "finish_all (forward_edges edges) (sorted_list_of_set (edge_nodes edges)) ({}, []) = (visited, order)" by force
  note F = finish_order_complete [OF run]
  have closed: "ancestors_closed ?E {}" by (auto simp: ancestors_closed_def)
  have "any_component (backward_edges edges) (rev order) {} \<longleftrightarrow> (\<exists>u v. mutual ?E u v)"
  proof
    assume "any_component (backward_edges edges) (rev order) {}"
    from any_component_sound [OF this, of "[]"] F closed show "\<exists>u v. mutual ?E u v" by simp
  next
    assume "\<exists>u v. mutual ?E u v"
    then obtain u v where m: "mutual ?E u v" by blast
    then have "u \<in> Field ?E" unfolding mutual_def by (meson FieldI1 converse_rtranclE)
    with F(2) have "u \<in> set (rev order)" by auto
    from any_component_complete [OF m _ this] closed show "any_component (backward_edges edges) (rev order) {}" by simp
  qed
  moreover have "edges = [] \<Longrightarrow> \<not> mutual ?E u v" for u v by (auto simp: mutual_def)
  ultimately show ?thesis unfolding has_loop_def run mutual_def by auto
qed

text \<open>
  C30: a function is reported to have a loop exactly when two distinct addresses reach each
  other along the control flow edges of its blocks, and the report is located at the
  function. The two depth-first passes always end.
\<close>

theorem loop_feature_correct:
  "(a, Characteristic ''loop'') \<in> set (function_extract_features an f) \<longleftrightarrow>
     a = Absolute (func_addr f)
     \<and> (\<exists>u v. u \<noteq> v
          \<and> (u, v) \<in> (set (concat (map (block_edges (arch (an_image an))) (blocks f))))\<^sup>*
          \<and> (v, u) \<in> (set (concat (map (block_edges (arch (an_image an))) (blocks f))))\<^sup>*)"
proof -
  let ?es = "concat (map (block_edges (arch (an_image an))) (blocks f))"
  have "(a, Characteristic ''loop'') \<in> set (function_extract_features an f) \<longleftrightarrow>
      (a, Characteristic ''loop'') \<in> set (extract_function_loop f (arch (an_image an)))"
    by (auto simp: function_extract_features_def extract_function_symtab_names_def extract_function_calls_to_def
        split: option.splits if_splits)
  also have "\<dots> \<longleftrightarrow> a = Absolute (func_addr f) \<and> has_loop ?es"
    unfolding extract_function_loop_def Let_def by (auto simp: has_loop_def)
  finally show ?thesis unfolding has_loop_iff .
qed

end
