(* ===== verification/Elf_Os.thy ===== *)
theory Elf_Os
  imports Elf_Bytes
begin

text \<open>
  \<^verbatim>\<open>capa-x/src/extract/loader/elf_os.rs\<close>: headers of an ELF file, the guesses of its operating
  system, and the import names of its dynamic symbol table. Field values are natural numbers
  of the width they are read with. A product of two 16 or 32 bit fields in 64 bits cannot
  overflow and is a plain product. Conversions between \<^verbatim>\<open>u64\<close> and \<^verbatim>\<open>usize\<close> are the identity.
\<close>

unbundle bit_operations_syntax

section \<open>Tables\<close>

definition gnu_abi_tag :: "nat \<Rightarrow> string option" where
  "gnu_abi_tag v =
     map_of [(0, ''linux''), (1, ''hurd''), (2, ''solaris''), (3, ''freebsd''), (4, ''netbsd''),
             (5, ''syllable''), (6, ''nacl'')] v"

definition osabi_to_os :: "u8 \<Rightarrow> string option" where
  "osabi_to_os v =
     map_of [(1, ''hpux''), (2, ''netbsd''), (3, ''linux''), (4, ''hurd''), (5, ''86open''),
             (6, ''solaris''), (7, ''aix''), (8, ''irix''), (9, ''freebsd''), (10, ''tru64''),
             (11, ''modesto''), (12, ''openbsd''), (13, ''openvms''), (14, ''nsk''), (15, ''aros''),
             (16, ''fenixos''), (17, ''cloud'')] v"

definition e_machine_name :: "nat \<Rightarrow> string option" where
  "e_machine_name v = map_of [(3, ''i386''), (62, ''amd64''), (40, ''ARM''), (183, ''aarch64'')] v"

section \<open>Headers\<close>

record phdr =
  p_type :: nat
  p_vaddr :: nat
  p_memsz :: nat
  p_flags :: nat
  p_buf :: "u8 list"

record shdr =
  sh_name :: nat
  sh_type :: nat
  sh_addr :: nat
  sh_link :: nat
  sh_buf :: "u8 list"

record elf =
  elf_buf :: "u8 list"
  bitness :: nat
  big_endian :: bool
  e_phoff :: nat
  e_phentsize :: nat
  e_phnum :: nat
  e_shoff :: nat
  e_shentsize :: nat
  e_shnum :: nat
  e_shstrndx :: nat

definition name_at :: "shdr \<Rightarrow> nat \<Rightarrow> string option" where
  "name_at s offset = read_cstr (sh_buf s) offset"

definition elf_fields :: "u8 list \<Rightarrow> nat \<Rightarrow> bool \<Rightarrow> elf option" where
  "elf_fields buf bits be =
     (let (word, phoff, shoff, base) =
            (if bits = 32 then (get_u32, 0x1c, 0x20, 0x2a) else (get_u64, 0x20, 0x28, 0x36))
      in Option.bind (word buf phoff be) (\<lambda>e_phoff.
         Option.bind (word buf shoff be) (\<lambda>e_shoff.
         Option.bind (get_u16 buf base be) (\<lambda>e_phentsize.
         Option.bind (get_u16 buf (base + 2) be) (\<lambda>e_phnum.
         Option.bind (get_u16 buf (base + 4) be) (\<lambda>e_shentsize.
         Option.bind (get_u16 buf (base + 6) be) (\<lambda>e_shnum.
         Option.bind (get_u16 buf (base + 8) be) (\<lambda>e_shstrndx.
           Some \<lparr>elf_buf = buf, bitness = bits, big_endian = be, e_phoff = e_phoff, e_phentsize = e_phentsize,
                 e_phnum = e_phnum, e_shoff = e_shoff, e_shentsize = e_shentsize, e_shnum = e_shnum,
                 e_shstrndx = e_shstrndx\<rparr>))))))))"

definition elf_parse :: "u8 list \<Rightarrow> elf option" where
  "elf_parse buf =
     (if \<not> prefix [0x7f, 0x45, 0x4c, 0x46] buf then None
      else
        Option.bind (get_byte buf 4) (\<lambda>ei_class.
        Option.bind (get_byte buf 5) (\<lambda>ei_data.
        Option.bind (if ei_class = 1 then Some 32 else if ei_class = 2 then Some 64 else None) (\<lambda>bits.
        Option.bind (if ei_data = 1 then Some False else if ei_data = 2 then Some True else None) (\<lambda>be.
          elf_fields buf bits be)))))"

definition ei_osabi :: "elf \<Rightarrow> string option" where
  "ei_osabi elf = Option.bind (get_byte (elf_buf elf) 7) osabi_to_os"

definition e_machine :: "elf \<Rightarrow> string option" where
  "e_machine elf = Option.bind (get_u16 (elf_buf elf) 0x12 (big_endian elf)) e_machine_name"

definition parse_program_header :: "elf \<Rightarrow> nat \<Rightarrow> panic + phdr option" where
  "parse_program_header elf i =
     some (checked_add (e_phoff elf) (i * e_phentsize elf)) (\<lambda>off.
       let buf = elf_buf elf;
           be = big_endian elf;
           finish = (\<lambda>p_type p_offset p_vaddr p_filesz p_flags p_memsz.
             some (checked_add p_offset p_filesz) (\<lambda>end'.
             some (get_range buf p_offset end') (\<lambda>contents.
               Inr (Some \<lparr>p_type = p_type, p_vaddr = p_vaddr, p_memsz = p_memsz, p_flags = p_flags,
                          p_buf = contents\<rparr>))))
       in if bitness elf = 32 then
            some (get_u32 buf off be) (\<lambda>p_type.
            field get_u32 buf off 0x4 be (\<lambda>p_offset.
            field get_u32 buf off 0x8 be (\<lambda>p_vaddr.
            field get_u32 buf off 0x10 be (\<lambda>p_filesz.
            field get_u32 buf off 0x14 be (\<lambda>p_memsz.
            field get_u32 buf off 0x18 be (\<lambda>p_flags.
              finish p_type p_offset p_vaddr p_filesz p_flags p_memsz))))))
          else
            some (get_u32 buf off be) (\<lambda>p_type.
            field get_u32 buf off 0x4 be (\<lambda>p_flags.
            field get_u64 buf off 0x8 be (\<lambda>p_offset.
            field get_u64 buf off 0x10 be (\<lambda>p_vaddr.
            field get_u64 buf off 0x20 be (\<lambda>p_filesz.
            field get_u64 buf off 0x28 be (\<lambda>p_memsz.
              finish p_type p_offset p_vaddr p_filesz p_flags p_memsz)))))))"

definition program_headers :: "elf \<Rightarrow> panic + phdr list" where
  "program_headers elf = filter_map (parse_program_header elf) [0..<e_phnum elf]"

definition SHT_NOBITS :: nat where
  "SHT_NOBITS = 0x8"

definition parse_section_header :: "elf \<Rightarrow> nat \<Rightarrow> panic + shdr option" where
  "parse_section_header elf i =
     some (checked_add (e_shoff elf) (i * e_shentsize elf)) (\<lambda>off.
       let buf = elf_buf elf;
           be = big_endian elf;
           word = (\<lambda>buf o' be. get_word buf o' be (bitness elf));
           (addr_at, offset_at, size_at, link_at) =
             (if bitness elf = 32 then (0xc, 0x10, 0x14, 0x18) else (0x10, 0x18, 0x20, 0x28))
       in some (get_u32 buf off be) (\<lambda>sh_name.
          field get_u32 buf off 0x4 be (\<lambda>sh_type.
          field word buf off addr_at be (\<lambda>sh_addr.
          field word buf off offset_at be (\<lambda>sh_offset.
          field word buf off size_at be (\<lambda>sh_size.
          field get_u32 buf off link_at be (\<lambda>sh_link.
          some (if sh_type = SHT_NOBITS then Some []
                else Option.bind (checked_add sh_offset sh_size) (get_range buf sh_offset)) (\<lambda>contents.
            Inr (Some \<lparr>sh_name = sh_name, sh_type = sh_type, sh_addr = sh_addr, sh_link = sh_link,
                       sh_buf = contents\<rparr>)))))))))"

definition section_headers :: "elf \<Rightarrow> panic + shdr list" where
  "section_headers elf = filter_map (parse_section_header elf) [0..<e_shnum elf]"

definition shstrtab :: "elf \<Rightarrow> panic + shdr option" where
  "shstrtab elf = parse_section_header elf (e_shstrndx elf)"

definition get_name :: "elf \<Rightarrow> shdr \<Rightarrow> panic + string option" where
  "get_name elf s = try_some (shstrtab elf) (\<lambda>names. Inr (name_at names (sh_name s)))"

definition linker :: "elf \<Rightarrow> panic + string option" where
  "linker elf =
     map_ok (\<lambda>phs. case List.find (\<lambda>ph. p_type ph = 0x3) phs of
                None \<Rightarrow> None
              | Some ph \<Rightarrow> read_cstr (p_buf ph) 0) (program_headers elf)"

section \<open>Symbol versions\<close>

text \<open>The table from a library to the versions required of it, whose order is never observed.\<close>

type_synonym versions = "(string, string set) index_map"

text \<open>A link is the index of a section, \<^verbatim>\<open>as u16\<close>.\<close>

definition linked_section :: "elf \<Rightarrow> shdr \<Rightarrow> panic + shdr option" where
  "linked_section elf s = parse_section_header elf (sh_link s mod 2 ^ 16)"

fun vernaux_loop ::
  "u8 list \<Rightarrow> bool \<Rightarrow> u8 list \<Rightarrow> string \<Rightarrow> nat \<Rightarrow> nat \<Rightarrow> versions \<Rightarrow> panic + versions" where
  "vernaux_loop buf be names so_name 0 vna_offset out = Inr out"
| "vernaux_loop buf be names so_name (Suc vn_cnt) vna_offset out =
     rbind (add_usize vna_offset 8) (\<lambda>o8.
       case get_u32 buf o8 be of
         None \<Rightarrow> Inr out
       | Some vna_name \<Rightarrow>
           rbind (add_usize vna_offset 12) (\<lambda>o12.
             case get_u32 buf o12 be of
               None \<Rightarrow> Inr out
             | Some vna_next \<Rightarrow>
                 let out = (case read_cstr names vna_name of
                              None \<Rightarrow> out
                            | Some abi \<Rightarrow> im_entry (=) so_name {} (insert abi) out)
                 in if vna_next = 0 then Inr out
                    else
                      (case checked_add vna_offset vna_next of
                         None \<Rightarrow> Inr out
                       | Some next_offset \<Rightarrow> vernaux_loop buf be names so_name vn_cnt next_offset out)))"

text \<open>The fields of the entry at an offset, up to the first that cannot be read.\<close>

definition verneed_at :: "u8 list \<Rightarrow> bool \<Rightarrow> nat \<Rightarrow> panic + (nat \<times> nat \<times> nat \<times> nat \<times> nat) option" where
  "verneed_at buf be vn_offset =
     some (get_u16 buf vn_offset be) (\<lambda>vn_version.
     field get_u16 buf vn_offset 2 be (\<lambda>vn_cnt.
     field get_u32 buf vn_offset 4 be (\<lambda>vn_file.
     field get_u32 buf vn_offset 8 be (\<lambda>vn_aux.
     field get_u32 buf vn_offset 12 be (\<lambda>vn_next.
       Inr (Some (vn_version, vn_cnt, vn_file, vn_aux, vn_next)))))))"

lemma get_uint_bound: "get_uint w buf off be = Some x \<Longrightarrow> off + w \<le> length buf"
  by (auto simp: get_uint_def checked_add_def get_range_def split: if_splits bind_splits)

lemma verneed_at_bound: "verneed_at buf be o' = Inr (Some v) \<Longrightarrow> o' < length buf"
  unfolding verneed_at_def some_def get_u16_def
  by (auto dest!: get_uint_bound split: option.splits)

function verneed_loop :: "u8 list \<Rightarrow> bool \<Rightarrow> u8 list \<Rightarrow> nat \<Rightarrow> versions \<Rightarrow> panic + versions" where
  "verneed_loop buf be names vn_offset out =
     rbind (verneed_at buf be vn_offset) (\<lambda>entry.
       case entry of
         None \<Rightarrow> Inr out
       | Some (vn_version, vn_cnt, vn_file, vn_aux, vn_next) \<Rightarrow>
           if vn_version \<noteq> 1 then Inr out
           else
             (case read_cstr names vn_file of
                None \<Rightarrow> Inr out
              | Some so_name \<Rightarrow>
                  (case checked_add vn_offset vn_aux of
                     None \<Rightarrow> Inr out
                   | Some vna_offset \<Rightarrow>
                       rbind (vernaux_loop buf be names so_name vn_cnt vna_offset out) (\<lambda>out.
                         if vn_next = 0 then Inr out
                         else
                           (case checked_add vn_offset vn_next of
                              None \<Rightarrow> Inr out
                            | Some next_offset \<Rightarrow> verneed_loop buf be names next_offset out)))))"
  by pat_completeness auto
termination
  by (relation "measure (\<lambda>(buf, be, names, vn_offset, out). length buf - vn_offset)")
     (auto dest!: verneed_at_bound)

declare verneed_loop.simps [simp del]

definition versions_needed :: "elf \<Rightarrow> panic + versions" where
  "versions_needed elf =
     rbind (section_headers elf) (\<lambda>shs.
       fold_result (\<lambda>s out.
         if sh_type s \<noteq> 0x6ffffffe then Inr out
         else
           rbind (linked_section elf s) (\<lambda>linked.
             case linked of
               None \<Rightarrow> Inr out
             | Some l \<Rightarrow> verneed_loop (sh_buf s) (big_endian elf) (sh_buf l) 0 out)) shs [])"

section \<open>The dynamic segment\<close>

definition dynamic_entry :: "elf \<Rightarrow> u8 list \<Rightarrow> nat \<Rightarrow> panic + (nat \<times> nat) option" where
  "dynamic_entry elf buf offset =
     (let (get, step) = (if bitness elf = 32 then (get_u32, 4) else (get_u64, 8))
      in rbind (add_usize offset step) (\<lambda>o'.
           Inr (case (get buf offset (big_endian elf), get buf o' (big_endian elf)) of
                  (Some t, Some v) \<Rightarrow> Some (t, v)
                | _ \<Rightarrow> None)))"

lemma dynamic_entry_bound: "dynamic_entry elf buf o' = Inr (Some tv) \<Longrightarrow> o' < length buf"
  unfolding dynamic_entry_def
  by (auto simp: get_u32_def get_u64_def add_usize_def dest!: get_uint_bound split: option.splits if_splits)

function dynamic_loop :: "elf \<Rightarrow> u8 list \<Rightarrow> nat \<Rightarrow> (nat \<times> nat) list \<Rightarrow> panic + (nat \<times> nat) list" where
  "dynamic_loop elf buf offset out =
     rbind (dynamic_entry elf buf offset) (\<lambda>entry.
       case entry of
         None \<Rightarrow> Inr out
       | Some (d_tag, d_val) \<Rightarrow>
           rbind (add_usize offset (if bitness elf = 32 then 8 else 16)) (\<lambda>offset.
             if d_tag = 0 then Inr out else dynamic_loop elf buf offset (out @ [(d_tag, d_val)])))"
  by pat_completeness auto
termination
  by (relation "measure (\<lambda>(elf, buf, offset, out). length buf - offset)")
     (auto simp: add_usize_def dest!: dynamic_entry_bound split: if_splits)

declare dynamic_loop.simps [simp del]

definition dynamic_entries :: "elf \<Rightarrow> panic + (nat \<times> nat) list" where
  "dynamic_entries elf =
     rbind (program_headers elf) (\<lambda>phs.
       fold_result (\<lambda>ph out. if p_type ph \<noteq> 0x2 then Inr out else dynamic_loop elf (p_buf ph) 0 out) phs [])"

definition find_tag :: "nat \<Rightarrow> (nat \<times> nat) list \<Rightarrow> nat option" where
  "find_tag tag entries = map_option snd (List.find (\<lambda>(t, v). t = tag) entries)"

text \<open>The first section that covers the address; an address range that overflows ends the search.\<close>

fun covering_section :: "nat \<Rightarrow> shdr list \<Rightarrow> shdr option" where
  "covering_section addr [] = None"
| "covering_section addr (s # shs) =
     (if sh_addr s \<noteq> 0 \<and> sh_addr s \<le> addr then
        (case checked_add (sh_addr s) (length (sh_buf s)) of
           None \<Rightarrow> None
         | Some e \<Rightarrow> if addr < e then Some s else covering_section addr shs)
      else covering_section addr shs)"

definition strtab :: "elf \<Rightarrow> panic + u8 list option" where
  "strtab elf =
     rbind (dynamic_entries elf) (\<lambda>entries.
     some (find_tag 0x5 entries) (\<lambda>strtab_addr.
     some (find_tag 0xa entries) (\<lambda>strtab_size.
     rbind (section_headers elf) (\<lambda>shs.
     some (covering_section strtab_addr shs) (\<lambda>s.
     let rel = strtab_addr - sh_addr s
     in some (checked_add rel strtab_size) (\<lambda>e. Inr (get_range (sh_buf s) rel e)))))))"

definition needed :: "elf \<Rightarrow> panic + string list" where
  "needed elf =
     rbind (strtab elf) (\<lambda>names.
       case names of
         None \<Rightarrow> Inr []
       | Some names \<Rightarrow>
           map_ok (\<lambda>entries. List.map_filter (\<lambda>(t, v). read_cstr names v) (filter (\<lambda>(t, v). t = 0x1) entries))
             (dynamic_entries elf))"

definition symtab :: "elf \<Rightarrow> panic + (shdr \<times> shdr) option" where
  "symtab elf =
     rbind (section_headers elf) (\<lambda>shs.
     some (List.find (\<lambda>s. sh_type s = 0x2) shs) (\<lambda>s.
     try_some (linked_section elf s) (\<lambda>names. Inr (Some (s, names)))))"

section \<open>Notes\<close>

record note_header =
  note_type :: nat
  note_name :: string
  desc_offset :: nat
  descsz :: nat

definition parse_note :: "u8 list \<Rightarrow> bool \<Rightarrow> panic + note_header option" where
  "parse_note buf be =
     some (get_u32 buf 0x0 be) (\<lambda>namesz.
     some (get_u32 buf 0x4 be) (\<lambda>descsz.
     some (get_u32 buf 0x8 be) (\<lambda>ty.
     rbind (align namesz 0x4) (\<lambda>aligned.
     some (checked_add 0xc aligned) (\<lambda>desc_offset.
     some (checked_add 0xc namesz) (\<lambda>name_end.
     some (get_range buf 0xc name_end) (\<lambda>name_bytes.
     some (from_utf8 (until_nul name_bytes)) (\<lambda>name.
       Inr (Some \<lparr>note_type = ty, note_name = name, desc_offset = desc_offset, descsz = descsz\<rparr>)))))))))"

definition note_abi_tag :: "note_header \<Rightarrow> u8 list \<Rightarrow> bool \<Rightarrow> string option" where
  "note_abi_tag note buf be =
     (if note_name note \<noteq> ''GNU'' \<or> descsz note < 16 then None
      else
        Option.bind (checked_add (desc_offset note) (descsz note)) (\<lambda>desc_end.
        Option.bind (get_range buf (desc_offset note) desc_end) (\<lambda>desc.
        Option.bind (get_u32 desc 0x0 be) gnu_abi_tag)))"

definition ph_note_os :: "bool \<Rightarrow> phdr \<Rightarrow> panic + string option" where
  "ph_note_os be ph =
     (if p_type ph \<noteq> 0x4 then Inr None
      else
        try_some (parse_note (p_buf ph) be) (\<lambda>note.
          if note_type note \<noteq> 1 then Inr None
          else if note_name note = ''Linux'' then Inr (Some ''linux'')
          else if note_name note = ''OpenBSD'' then Inr (Some ''openbsd'')
          else if note_name note = ''NetBSD'' then Inr (Some ''netbsd'')
          else if note_name note = ''FreeBSD'' then Inr (Some ''freebsd'')
          else if note_name note = ''Android'' then Inr (Some ''android'')
          else if note_name note = ''GNU'' then Inr (note_abi_tag note (p_buf ph) be)
          else Inr None))"

definition sh_note_os :: "bool \<Rightarrow> shdr \<Rightarrow> panic + string option" where
  "sh_note_os be s =
     (if sh_type s \<noteq> 0x7 then Inr None
      else
        try_some (parse_note (sh_buf s) be) (\<lambda>note.
          if note_name note = ''Linux'' then Inr (Some ''linux'')
          else if note_name note = ''OpenBSD'' then Inr (Some ''openbsd'')
          else if note_name note = ''NetBSD'' then Inr (Some ''netbsd'')
          else if note_name note = ''FreeBSD'' then Inr (Some ''freebsd'')
          else if note_name note = ''GNU'' then Inr (note_abi_tag note (sh_buf s) be)
          else Inr None))"

text \<open>A loop over headers that returns the first answer of its body.\<close>

fun first_answer :: "('a \<Rightarrow> panic + 'b option) \<Rightarrow> 'a list \<Rightarrow> panic + 'b option" where
  "first_answer f [] = Inr None"
| "first_answer f (x # xs) = or_else (f x) (first_answer f xs)"

section \<open>Guesses\<close>

definition guess_os_from_osabi :: "elf \<Rightarrow> string option" where
  "guess_os_from_osabi elf = ei_osabi elf"

definition guess_os_from_ph_notes :: "elf \<Rightarrow> panic + string option" where
  "guess_os_from_ph_notes elf = rbind (program_headers elf) (first_answer (ph_note_os (big_endian elf)))"

definition guess_os_from_sh_notes :: "elf \<Rightarrow> panic + string option" where
  "guess_os_from_sh_notes elf = rbind (section_headers elf) (first_answer (sh_note_os (big_endian elf)))"

definition comment_os :: "string \<Rightarrow> string option" where
  "comment_os comment =
     (if \<not> contains_str comment ''GCC:'' then None
      else if contains_str comment ''Debian'' \<or> contains_str comment ''Ubuntu''
        \<or> contains_str comment ''Red Hat'' \<or> contains_str comment ''Alpine'' then Some ''linux''
      else if contains_str comment ''Android'' then Some ''android''
      else None)"

definition guess_os_from_ident_directive :: "elf \<Rightarrow> panic + string option" where
  "guess_os_from_ident_directive elf =
     rbind (section_headers elf) (first_answer (\<lambda>s.
       if sh_type s \<noteq> 0x1 then Inr None
       else
         rbind (get_name elf s) (\<lambda>name.
           if name \<noteq> Some ''.comment'' then Inr None
           else Inr (Option.bind (from_utf8 (sh_buf s)) comment_os))))"

definition guess_os_from_linker :: "elf \<Rightarrow> panic + string option" where
  "guess_os_from_linker elf =
     try_some (linker elf) (\<lambda>linker. Inr (if contains_str linker ''ld-linux'' then Some ''linux'' else None))"

definition guess_os_from_abi_versions_needed :: "elf \<Rightarrow> panic + string option" where
  "guess_os_from_abi_versions_needed elf =
     rbind (versions_needed elf) (\<lambda>versions.
       if \<not> (\<exists>(so_name, abis) \<in> set versions. \<exists>abi \<in> abis. starts_with abi ''GLIBC'') then Inr None
       else if e_machine elf \<noteq> Some ''i386'' then Inr (Some ''linux'')
       else
         map_ok (\<lambda>linker.
           case linker of
             Some l \<Rightarrow> if contains_str l ''ld-linux'' then Some ''linux''
                       else if contains_str l ''/ld.so'' then Some ''hurd''
                       else Some ''linux''
           | None \<Rightarrow> Some ''linux'') (linker elf))"

definition needed_os :: "string \<Rightarrow> string option" where
  "needed_os lib =
     (if starts_with lib ''libmachuser.so'' \<or> starts_with lib ''libhurduser.so'' then Some ''hurd''
      else if starts_with lib ''libandroid.so'' \<or> starts_with lib ''liblog.so'' then Some ''android''
      else None)"

definition guess_os_from_needed_dependencies :: "elf \<Rightarrow> panic + string option" where
  "guess_os_from_needed_dependencies elf = map_ok (first_some needed_os) (needed elf)"

text \<open>\<^verbatim>\<open>parse_symtab\<close>: the name offsets of the symbols of a table.\<close>

function symtab_loop :: "u8 list \<Rightarrow> nat \<Rightarrow> bool \<Rightarrow> nat \<Rightarrow> nat list \<Rightarrow> panic + nat list" where
  "symtab_loop buf entsize be off out =
     rbind (add_usize off entsize) (\<lambda>e.
       if entsize = 0 \<or> length buf < e then Inr out
       else symtab_loop buf entsize be e (out @ (case get_u32 buf off be of None \<Rightarrow> [] | Some n \<Rightarrow> [n])))"
  by pat_completeness auto
termination
  by (relation "measure (\<lambda>(buf, entsize, be, off, out). length buf - off)")
     (auto simp: add_usize_def split: if_splits)

declare symtab_loop.simps [simp del]

definition parse_symtab :: "u8 list \<Rightarrow> nat \<Rightarrow> bool \<Rightarrow> panic + nat list" where
  "parse_symtab buf bits be = symtab_loop buf (if bits = 32 then 16 else 24) be 0 []"

definition guess_os_from_symtab :: "elf \<Rightarrow> panic + string option" where
  "guess_os_from_symtab elf =
     try_some (symtab elf) (\<lambda>(symtab_shdr, strtab_shdr).
       map_ok (first_some (\<lambda>name_offset.
           case name_at strtab_shdr name_offset of
             None \<Rightarrow> None
           | Some name \<Rightarrow> if contains_str name ''linux'' \<or> contains_str name ''/linux/'' then Some ''linux'' else None))
         (parse_symtab (sh_buf symtab_shdr) (bitness elf) (big_endian elf)))"

section \<open>Go binaries\<close>

definition is_go_binary :: "elf \<Rightarrow> panic + bool" where
  "is_go_binary elf =
     rbind (section_headers elf) (\<lambda>shs.
       map_ok (\<lambda>r. r \<noteq> None) (first_answer (\<lambda>s.
         map_ok (\<lambda>name. if name = Some ''.note.go.buildid'' \<or> name = Some ''.go.buildinfo'' then Some () else None)
           (get_name elf s)) shs))"

definition get_go_buildinfo_data :: "elf \<Rightarrow> panic + u8 list option" where
  "get_go_buildinfo_data elf =
     or_else
       (rbind (section_headers elf) (first_answer (\<lambda>s.
          map_ok (\<lambda>name. if name = Some ''.go.buildinfo'' then Some (sh_buf s) else None) (get_name elf s))))
       (map_ok (first_some (\<lambda>ph.
          if p_type ph \<noteq> 0x1 then None else if p_flags ph mod 4 = 2 then Some (p_buf ph) else None))
          (program_headers elf))"

text \<open>
  The first segment that covers the address is padded with zeros to its size in memory. A
  vector longer than \<^verbatim>\<open>isize::MAX\<close> bytes is a panic.
\<close>

definition covers :: "nat \<Rightarrow> phdr \<Rightarrow> bool" where
  "covers rva ph \<longleftrightarrow> p_vaddr ph + p_memsz ph < USIZE \<and> p_vaddr ph \<le> rva \<and> rva < p_vaddr ph + p_memsz ph"

definition read_data :: "elf \<Rightarrow> nat \<Rightarrow> nat \<Rightarrow> panic + u8 list option" where
  "read_data elf rva len =
     rbind (program_headers elf) (\<lambda>phs.
     some (List.find (covers rva) phs) (\<lambda>ph.
       if length (p_buf ph) < p_memsz ph \<and> ISIZE_MAX < p_memsz ph then Inl Capacity_Overflow
       else
         let segment_data = p_buf ph @ replicate (p_memsz ph - length (p_buf ph)) 0;
             segment_offset = rva - p_vaddr ph
         in some (checked_add segment_offset len) (\<lambda>end'. Inr (get_range segment_data segment_offset end'))))"

definition read_go_slice :: "elf \<Rightarrow> nat \<Rightarrow> panic + u8 list option" where
  "read_go_slice elf rva =
     (let (get, word) = (if bitness elf = 32 then (get_u32, 4) else (get_u64, 8));
          be = big_endian elf
      in try_some (read_data elf rva (2 * word)) (\<lambda>struct_buf.
         some (get struct_buf 0 be) (\<lambda>addr.
         some (get struct_buf word be) (\<lambda>len.
           read_data elf addr len))))"

definition BUILDINFO_MAGIC :: "u8 list" where
  "BUILDINFO_MAGIC = 0xff # str_bytes '' Go buildinf:''"

definition GOOS_TO_OS :: "(string \<times> string option) list" where
  "GOOS_TO_OS =
     [(''aix'', Some ''aix''), (''android'', Some ''android''), (''dragonfly'', Some ''dragonfly BSD''),
      (''freebsd'', Some ''freebsd''), (''hurd'', Some ''hurd''), (''illumos'', Some ''illumos''),
      (''linux'', Some ''linux''), (''netbsd'', Some ''netbsd''), (''openbsd'', Some ''openbsd''),
      (''solaris'', Some ''solaris''), (''zos'', Some ''z/os''), (''windows'', None), (''plan9'', None),
      (''ios'', None), (''darwin'', None), (''nacl'', None), (''js'', None)]"

definition goos_in :: "u8 list \<Rightarrow> string option" where
  "goos_in buf =
     (case List.find (\<lambda>(key, os). find_subslice buf (str_bytes ''GOOS='' @ str_bytes key) \<noteq> None) GOOS_TO_OS of
        None \<Rightarrow> None
      | Some (key, os) \<Rightarrow> os)"

text \<open>The module information is framed by two markers of sixteen bytes.\<close>

definition trim_modinfo :: "u8 list \<Rightarrow> panic + u8 list" where
  "trim_modinfo modinfo =
     (let n = length modinfo
      in if 0x11 \<le> n \<and> modinfo ! (n - 0x11) = 0x0a
         then (let end' = n - 0x10 in if 0x10 \<le> n \<and> 0x10 \<le> end' then slice modinfo 0x10 end' else Inr modinfo)
         else Inr modinfo)"

definition guess_os_from_go_buildinfo :: "elf \<Rightarrow> panic + string option" where
  "guess_os_from_go_buildinfo elf =
     try_some (get_go_buildinfo_data elf) (\<lambda>buf.
     some (find_subslice buf BUILDINFO_MAGIC) (\<lambda>index.
     rbind (add_usize index (length BUILDINFO_MAGIC)) (\<lambda>a.
     rbind (add_usize a 2) (\<lambda>b.
     some (get_range buf a b) (\<lambda>hdr.
       let psize = hdr ! 0;
           flags = hdr ! 1;
           be = bit flags 0
       in if psize \<noteq> 4 \<and> psize \<noteq> 8 then Inr None
          else if bit flags 1 then Inr (goos_in buf)
          else
            let (get, modinfo_at) = (if psize = 4 then (get_u32, 0x14) else (get_u64, 0x18))
            in field get buf index 0x10 be (\<lambda>build_version_address.
               field get buf index modinfo_at be (\<lambda>modinfo_address.
               rbind (read_go_slice elf build_version_address) (\<lambda>_.
               try_some (read_go_slice elf modinfo_address) (\<lambda>modinfo.
                 if modinfo = [] then Inr None
                 else map_ok goos_in (trim_modinfo modinfo))))))))))"

definition OS_FILENAME_TO_OS :: "(string \<times> string) list" where
  "OS_FILENAME_TO_OS =
     [(''aix'', ''aix''), (''android'', ''android''), (''dragonfly'', ''dragonfly BSD''), (''freebsd'', ''freebsd''),
      (''freebsd2'', ''freebsd''), (''freebsd_'', ''freebsd''), (''illumos'', ''illumos''), (''linux'', ''linux''),
      (''netbsd'', ''netbsd''), (''only_solaris'', ''solaris''), (''openbsd'', ''openbsd''), (''solaris'', ''solaris''),
      (''unix_nonlinux'', ''unix'')]"

definition RT0_FILENAME_TO_OS :: "(string \<times> string) list" where
  "RT0_FILENAME_TO_OS =
     [(''aix'', ''aix''), (''android'', ''android''), (''dragonfly'', ''dragonfly BSD''), (''freebsd'', ''freebsd''),
      (''illumos'', ''illumos''), (''linux'', ''linux''), (''netbsd'', ''netbsd''), (''openbsd'', ''openbsd''),
      (''solaris'', ''solaris'')]"

text \<open>The name of a runtime source file in a segment, for one of the two path prefixes.\<close>

definition source_os :: "u8 list \<Rightarrow> u8 list \<Rightarrow> (string \<times> string) list \<Rightarrow> phdr \<Rightarrow> panic + string option" where
  "source_os needle extension table ph =
     some (find_subslice (p_buf ph) needle) (\<lambda>index.
     rbind (add_usize index (length needle)) (\<lambda>start.
     rbind (add_usize start 32) (\<lambda>limit.
     rbind (slice (p_buf ph) start (min limit (length (p_buf ph)))) (\<lambda>rest.
       let end' = (case find_subslice rest extension of None \<Rightarrow> length rest | Some e \<Rightarrow> e)
       in rbind (slice rest 0 end') (\<lambda>name.
          some (from_utf8 name) (\<lambda>filename.
            Inr (map_option snd (List.find (\<lambda>(pre, os). starts_with filename pre) table))))))))"

definition guess_os_from_go_source :: "elf \<Rightarrow> panic + string option" where
  "guess_os_from_go_source elf =
     rbind (is_go_binary elf) (\<lambda>go.
       if \<not> go then Inr None
       else
         or_else
           (rbind (program_headers elf)
              (first_answer (source_os (str_bytes ''/src/runtime/os_'') (str_bytes ''.go'') OS_FILENAME_TO_OS)))
           (rbind (program_headers elf)
              (first_answer (source_os (str_bytes ''/src/runtime/rt0_'') (str_bytes ''.s'') RT0_FILENAME_TO_OS))))"

definition VDSO_PAIRS :: "(string \<times> string) list" where
  "VDSO_PAIRS =
     [(''__vdso_gettimeofday'', ''LINUX_2.6''), (''__vdso_clock_gettime'', ''LINUX_2.6''),
      (''__kernel_rt_sigreturn'', ''LINUX_2.6.39''), (''__kernel_gettimeofday'', ''LINUX_2.6.39''),
      (''__kernel_clock_gettime'', ''LINUX_2.6.39''), (''__kernel_clock_getres'', ''LINUX_2.6.39''),
      (''__kernel_sigtramp'', ''LINUX_2.5''), (''__kernel_syscall_via_break'', ''LINUX_2.5''),
      (''__kernel_syscall_via_epc'', ''LINUX_2.5''), (''__kernel_clock_getres'', ''LINUX_2.6.15''),
      (''__kernel_clock_gettime'', ''LINUX_2.6.15''), (''__kernel_clock_gettime64'', ''LINUX_5.11''),
      (''__kernel_datapage_offset'', ''LINUX_2.6.15''), (''__kernel_get_syscall_map'', ''LINUX_2.6.15''),
      (''__kernel_get_tbfreq'', ''LINUX_2.6.15''), (''__kernel_getcpu'', ''LINUX_2.6.15''),
      (''__kernel_gettimeofday'', ''LINUX_2.6.15''), (''__kernel_sigtramp_rt32'', ''LINUX_2.6.15''),
      (''__kernel_sigtramp32'', ''LINUX_2.6.15''), (''__kernel_sync_dicache'', ''LINUX_2.6.15''),
      (''__kernel_sync_dicache_p5'', ''LINUX_2.6.15''), (''__kernel_sigtramp_rt64'', ''LINUX_2.6.15''),
      (''__vdso_rt_sigreturn'', ''LINUX_4.15''), (''__vdso_getcpu'', ''LINUX_4.15''),
      (''__vdso_flush_icache'', ''LINUX_4.15''), (''__kernel_sigreturn'', ''LINUX_2.6.29''),
      (''__kernel_vsyscall'', ''LINUX_2.6''), (''__vdso_time'', ''LINUX_2.6'')]"

definition guess_os_from_vdso_strings :: "elf \<Rightarrow> panic + string option" where
  "guess_os_from_vdso_strings elf =
     map_ok (first_some (\<lambda>ph.
         if list_ex (\<lambda>(symbol, version). find_subslice (p_buf ph) (str_bytes symbol) \<noteq> None
                        \<and> find_subslice (p_buf ph) (str_bytes version) \<noteq> None) VDSO_PAIRS
         then Some ''linux'' else None)) (program_headers elf)"

definition guess_os :: "elf \<Rightarrow> panic + string option" where
  "guess_os elf =
     or_else (Inr (guess_os_from_osabi elf))
     (or_else (guess_os_from_ph_notes elf)
     (or_else (guess_os_from_sh_notes elf)
     (or_else (guess_os_from_linker elf)
     (or_else (guess_os_from_abi_versions_needed elf)
     (or_else (guess_os_from_needed_dependencies elf)
     (or_else (guess_os_from_symtab elf)
     (or_else (guess_os_from_go_buildinfo elf)
     (or_else (guess_os_from_go_source elf)
     (or_else (guess_os_from_ident_directive elf)
              (guess_os_from_vdso_strings elf))))))))))"

definition detect_elf_os :: "u8 list \<Rightarrow> panic + string" where
  "detect_elf_os buf =
     (case elf_parse buf of
        None \<Rightarrow> Inr ''unknown''
      | Some elf \<Rightarrow> map_ok (\<lambda>os. case os of None \<Rightarrow> ''unknown'' | Some os \<Rightarrow> os) (guess_os elf))"

section \<open>Imports of the dynamic symbol table\<close>

record full_sym =
  st_name :: nat
  st_value :: nat
  st_shndx :: nat
  st_info :: u8

definition parse_full_sym :: "u8 list \<Rightarrow> nat \<Rightarrow> nat \<Rightarrow> bool \<Rightarrow> panic + full_sym option" where
  "parse_full_sym buf off bits be =
     (if bits = 32 then
        some (get_u32 buf off be) (\<lambda>st_name.
        field get_u32 buf off 4 be (\<lambda>st_value.
        rbind (add_usize off 12) (\<lambda>o12. some (get_byte buf o12) (\<lambda>st_info.
        field get_u16 buf off 14 be (\<lambda>st_shndx.
          Inr (Some \<lparr>st_name = st_name, st_value = st_value, st_shndx = st_shndx, st_info = st_info\<rparr>))))))
      else
        some (get_u32 buf off be) (\<lambda>st_name.
        rbind (add_usize off 4) (\<lambda>o4. some (get_byte buf o4) (\<lambda>st_info.
        field get_u16 buf off 6 be (\<lambda>st_shndx.
        field get_u64 buf off 8 be (\<lambda>st_value.
          Inr (Some \<lparr>st_name = st_name, st_value = st_value, st_shndx = st_shndx, st_info = st_info\<rparr>)))))))"

text \<open>The greatest entry of the buckets; an unreadable entry ends the function.\<close>

fun bucket_max :: "u8 list \<Rightarrow> bool \<Rightarrow> nat list \<Rightarrow> nat option \<Rightarrow> nat option option" where
  "bucket_max bytes be [] max_idx = Some max_idx"
| "bucket_max bytes be (i # is) max_idx =
     (case get_u32 bytes (i * 4) be of
        None \<Rightarrow> None
      | Some v \<Rightarrow> bucket_max bytes be is (Some (case max_idx of None \<Rightarrow> v | Some m \<Rightarrow> max m v)))"

text \<open>The walk along a chain to its last symbol, with the bound of the source on its length.\<close>

fun gnu_chain :: "elf \<Rightarrow> nat \<Rightarrow> nat \<Rightarrow> nat \<Rightarrow> nat \<Rightarrow> panic + nat option" where
  "gnu_chain elf chain_pos symoffset 0 max_idx = Inr None"
| "gnu_chain elf chain_pos symoffset (Suc n) max_idx =
     (if max_idx < symoffset then Inl Arithmetic_Overflow
      else
        some (checked_add chain_pos ((max_idx - symoffset) * 4)) (\<lambda>word_vaddr.
        try_some (read_data elf word_vaddr 4) (\<lambda>word.
        some (get_u32 word 0 (big_endian elf)) (\<lambda>cur_hash.
          if odd cur_hash then Inr (Some (max_idx + 1))
          else if max_idx + 1 < 2 ^ 32 then gnu_chain elf chain_pos symoffset n (max_idx + 1)
          else Inr None))))"

definition gnu_hash_num_symbols :: "elf \<Rightarrow> nat \<Rightarrow> panic + nat option" where
  "gnu_hash_num_symbols elf vaddr =
     (let be = big_endian elf;
          xwordsize = (if bitness elf = 32 then 4 else 8)
      in try_some (read_data elf vaddr 16) (\<lambda>header.
         some (get_u32 header 0 be) (\<lambda>nbuckets.
         some (get_u32 header 4 be) (\<lambda>symoffset.
         some (get_u32 header 8 be) (\<lambda>bloom_size.
         some (checked_add vaddr 16) (\<lambda>v16.
         some (checked_mul bloom_size xwordsize) (\<lambda>bloom.
         some (checked_add v16 bloom) (\<lambda>buckets_vaddr.
         some (checked_mul nbuckets 4) (\<lambda>buckets_len.
         try_some (read_data elf buckets_vaddr buckets_len) (\<lambda>buckets_bytes.
         some (bucket_max buckets_bytes be [0..<nbuckets] None) (\<lambda>max_idx.
         some max_idx (\<lambda>max_idx.
           if max_idx < symoffset then Inr (Some symoffset)
           else
             some (checked_add buckets_vaddr (nbuckets * 4)) (\<lambda>chain_pos.
               gnu_chain elf chain_pos symoffset 10000000 max_idx)))))))))))))"

definition elf_hash_num_symbols :: "elf \<Rightarrow> nat \<Rightarrow> panic + nat option" where
  "elf_hash_num_symbols elf vaddr =
     try_some (read_data elf vaddr 8) (\<lambda>header. Inr (get_u32 header 4 (big_endian elf)))"

definition nearest_above :: "nat \<Rightarrow> (nat \<times> nat) list \<Rightarrow> nat option" where
  "nearest_above symtab_vaddr entries =
     fold (\<lambda>(tag, val) nearest.
       if symtab_vaddr < val \<and> (case nearest of None \<Rightarrow> True | Some n \<Rightarrow> val < n) then Some val else nearest) entries None"

text \<open>The end of the last loadable segment that contains the address.\<close>

fun end_of_segment :: "nat \<Rightarrow> phdr list \<Rightarrow> nat option \<Rightarrow> nat option option" where
  "end_of_segment symtab_vaddr [] last_end = Some last_end"
| "end_of_segment symtab_vaddr (ph # phs) last_end =
     (if p_type ph \<noteq> 0x1 then end_of_segment symtab_vaddr phs last_end
      else
        (case checked_add (p_vaddr ph) (length (p_buf ph)) of
           None \<Rightarrow> None
         | Some e \<Rightarrow>
             end_of_segment symtab_vaddr phs
               (if p_vaddr ph \<le> symtab_vaddr \<and> symtab_vaddr \<le> e then Some e else last_end)))"

definition nearest_ptr_num_symbols :: "elf \<Rightarrow> (nat \<times> nat) list \<Rightarrow> nat \<Rightarrow> nat \<Rightarrow> panic + nat option" where
  "nearest_ptr_num_symbols elf entries symtab_vaddr entsize =
     (case nearest_above symtab_vaddr entries of
        Some n \<Rightarrow> Inr (Some ((n - symtab_vaddr) div entsize))
      | None \<Rightarrow>
          rbind (program_headers elf) (\<lambda>phs.
          some (end_of_segment symtab_vaddr phs None) (\<lambda>last_end.
            Inr (map_option (\<lambda>e. (e - symtab_vaddr) div entsize) last_end))))"

definition import_name :: "elf \<Rightarrow> u8 list \<Rightarrow> u8 list \<Rightarrow> nat \<Rightarrow> panic + string option" where
  "import_name elf symtab_bytes strtab_bytes off =
     try_some (parse_full_sym symtab_bytes off (bitness elf) (big_endian elf)) (\<lambda>sym.
       if st_name sym = 0 \<or> st_info sym AND 0xf \<notin> {2, 1, 10} \<or> st_value sym \<noteq> 0 \<or> st_shndx sym \<noteq> 0 then Inr None
       else
         (case read_cstr strtab_bytes (st_name sym) of
            None \<Rightarrow> Inr None
          | Some name \<Rightarrow> if name = [] then Inr None else Inr (Some name)))"

text \<open>The loop over the symbol indices, which a product that overflows ends.\<close>

fun import_loop ::
  "elf \<Rightarrow> u8 list \<Rightarrow> u8 list \<Rightarrow> nat \<Rightarrow> nat list \<Rightarrow> (nat \<rightharpoonup> string) \<Rightarrow> panic + (nat \<rightharpoonup> string)" where
  "import_loop elf symtab_bytes strtab_bytes entsize [] out = Inr out"
| "import_loop elf symtab_bytes strtab_bytes entsize (i # is) out =
     (case checked_mul i entsize of
        None \<Rightarrow> Inr out
      | Some off \<Rightarrow>
          rbind (import_name elf symtab_bytes strtab_bytes off) (\<lambda>name.
            import_loop elf symtab_bytes strtab_bytes entsize is
              (case name of None \<Rightarrow> out | Some name \<Rightarrow> out(i \<mapsto> name))))"

definition num_symbols :: "elf \<Rightarrow> (nat \<times> nat) list \<Rightarrow> nat \<Rightarrow> nat \<Rightarrow> panic + nat option" where
  "num_symbols elf entries symtab_vaddr entsize =
     (case find_tag 0x6ffffef5 entries of
        Some v \<Rightarrow> gnu_hash_num_symbols elf v
      | None \<Rightarrow>
          (case find_tag 0x4 entries of
             Some v \<Rightarrow> elf_hash_num_symbols elf v
           | None \<Rightarrow> nearest_ptr_num_symbols elf entries symtab_vaddr entsize))"

definition dynamic_import_symbol_names :: "u8 list \<Rightarrow> panic + (nat \<rightharpoonup> string)" where
  "dynamic_import_symbol_names buf =
     (case elf_parse buf of
        None \<Rightarrow> Inr Map.empty
      | Some elf \<Rightarrow>
          map_ok (\<lambda>out. case out of None \<Rightarrow> Map.empty | Some out \<Rightarrow> out)
            (rbind (dynamic_entries elf) (\<lambda>entries.
             some (find_tag 0x6 entries) (\<lambda>symtab_vaddr.
               let entsize = (if bitness elf = 32 then 16 else 24)
               in try_some (num_symbols elf entries symtab_vaddr entsize) (\<lambda>num_syms.
                  some (checked_mul num_syms entsize) (\<lambda>symtab_len.
                  try_some (read_data elf symtab_vaddr symtab_len) (\<lambda>symtab_bytes.
                  try_some (strtab elf) (\<lambda>strtab_bytes.
                    map_ok Some (import_loop elf symtab_bytes strtab_bytes entsize [0..<num_syms] Map.empty)))))))))"

end
