(* ===== verification/Elf_Props.thy ===== *)
theory Elf_Props
  imports Elf_Os
begin

text \<open>
  No read of a hostile ELF file panics, apart from the padding of a segment whose size in
  memory is larger than a vector can be; what the reader of segments returns; and that a
  field is read back from its encoding in either byte order.
\<close>

section \<open>Code that does not panic\<close>

definition safe :: "panic + 'a \<Rightarrow> bool" where
  "safe r \<longleftrightarrow> (\<exists>x. r = Inr x)"

named_theorems safe_intros \<open>rules for code that does not panic\<close>

lemma safe_Inr [safe_intros]: "safe (Inr x)"
  by (simp add: safe_def)

lemma safe_rbind [safe_intros]: "safe r \<Longrightarrow> (\<And>x. r = Inr x \<Longrightarrow> safe (f x)) \<Longrightarrow> safe (rbind r f)"
  by (auto simp: safe_def)

lemma safe_map_ok [safe_intros]: "safe r \<Longrightarrow> safe (map_ok f r)"
  by (auto simp: safe_def)

lemma safe_some [safe_intros]: "(\<And>y. r = Some y \<Longrightarrow> safe (f y)) \<Longrightarrow> safe (some r f)"
  by (cases r) (auto simp: safe_def some_def)

lemma safe_try_some [safe_intros]:
  "safe r \<Longrightarrow> (\<And>y. r = Inr (Some y) \<Longrightarrow> safe (f y)) \<Longrightarrow> safe (try_some r f)"
  by (auto simp: safe_def try_some_def split: option.split)

lemma safe_or_else [safe_intros]: "safe r \<Longrightarrow> safe r' \<Longrightarrow> safe (or_else r r')"
  by (auto simp: safe_def or_else_def split: option.split)

lemma safe_if [safe_intros]: "(b \<Longrightarrow> safe r) \<Longrightarrow> (\<not> b \<Longrightarrow> safe r') \<Longrightarrow> safe (if b then r else r')"
  by simp

lemma safe_option [safe_intros]:
  "(x = None \<Longrightarrow> safe r) \<Longrightarrow> (\<And>y. x = Some y \<Longrightarrow> safe (f y)) \<Longrightarrow> safe (case x of None \<Rightarrow> r | Some y \<Rightarrow> f y)"
  by (cases x) auto

lemma safe_prod [safe_intros]:
  "(\<And>a b. p = (a, b) \<Longrightarrow> safe (f a b)) \<Longrightarrow> safe (case p of (a, b) \<Rightarrow> f a b)"
  by (cases p) auto

lemma safe_filter_map [safe_intros]: "(\<And>x. x \<in> set xs \<Longrightarrow> safe (f x)) \<Longrightarrow> safe (filter_map f xs)"
  by (induction xs) (auto intro!: safe_intros)

lemma safe_first_answer [safe_intros]: "(\<And>x. x \<in> set xs \<Longrightarrow> safe (f x)) \<Longrightarrow> safe (first_answer f xs)"
  by (induction xs) (auto intro!: safe_intros)

lemma safe_fold_result [safe_intros]: "(\<And>x s. x \<in> set xs \<Longrightarrow> safe (f x s)) \<Longrightarrow> safe (fold_result f xs s)"
  by (induction xs arbitrary: s) (auto intro!: safe_intros)

lemma safe_add_usize [safe_intros]: "a + b < USIZE \<Longrightarrow> safe (add_usize a b)"
  by (simp add: add_usize_def safe_def)

lemma safe_field [safe_intros]:
  "off + k < USIZE \<Longrightarrow> (\<And>x. get buf (off + k) be = Some x \<Longrightarrow> safe (f x)) \<Longrightarrow> safe (field get buf off k be f)"
  by (auto simp: field_def add_usize_def intro!: safe_intros)

lemma add_usize_Inr [simp]: "add_usize a b = Inr c \<longleftrightarrow> c = a + b \<and> a + b < USIZE"
  by (auto simp: add_usize_def)

lemma filter_map_mem:
  "filter_map f xs = Inr ys \<Longrightarrow> y \<in> set ys \<Longrightarrow> \<exists>x \<in> set xs. f x = Inr (Some y)"
  by (induction xs arbitrary: ys) (auto simp: result_simps split: option.splits)

section \<open>Bounds of the reads\<close>

lemma get_range_Some: "get_range buf a b = Some bs \<longleftrightarrow> a \<le> b \<and> b \<le> length buf \<and> bs = take (b - a) (drop a buf)"
  by (auto simp: get_range_def)

lemma le_value_bound: "le_value bs < 256 ^ length bs"
proof (induction bs)
  case (Cons b bs)
  have "unat b < 256" using unsigned_less [of b] by simp
  with Cons show ?case by simp
qed simp

lemma get_uint_value: "get_uint w buf off be = Some x \<Longrightarrow> x < 256 ^ w"
proof -
  assume x: "get_uint w buf off be = Some x"
  then obtain bs where "get_range buf off (off + w) = Some bs" "x = (if be then be_value bs else le_value bs)"
    by (auto simp: get_uint_def split: bind_splits)
  then show ?thesis
    using le_value_bound [of bs] le_value_bound [of "rev bs"] by (auto simp: get_range_Some be_value_def)
qed

lemma get_u16_Some: "get_u16 buf off be = Some x \<Longrightarrow> off + 2 \<le> length buf \<and> x < 65536"
  unfolding get_u16_def using get_uint_bound get_uint_value by fastforce

lemma get_u32_Some: "get_u32 buf off be = Some x \<Longrightarrow> off + 4 \<le> length buf \<and> x < 4294967296"
  unfolding get_u32_def using get_uint_bound get_uint_value by fastforce

lemma get_u64_Some: "get_u64 buf off be = Some x \<Longrightarrow> off + 8 \<le> length buf \<and> x < USIZE"
  unfolding get_u64_def USIZE_def using get_uint_bound get_uint_value by fastforce

lemma USIZE_split: "n \<le> ISIZE_MAX \<Longrightarrow> k \<le> ISIZE_MAX \<Longrightarrow> n + k < USIZE"
  by (simp add: ISIZE_MAX_def USIZE_def)

lemma small_ISIZE: "k < 8589934592 \<Longrightarrow> k \<le> ISIZE_MAX"
  by (simp add: ISIZE_MAX_def)

lemma position_Some:
  "position needle hay = Some i \<Longrightarrow> i + length needle \<le> length hay \<and> take (length needle) (drop i hay) = needle"
proof (induction hay arbitrary: i)
  case Nil
  then show ?case by (subst (asm) position.simps) (auto split: if_splits)
next
  case (Cons b hay)
  from Cons.prems show ?case
    by (subst (asm) position.simps) (auto dest!: Cons.IH split: if_splits)
qed

lemma find_subslice_Some:
  "find_subslice hay needle = Some i \<Longrightarrow> i + length needle \<le> length hay"
  using position_Some by (auto simp: find_subslice_def split: if_splits)

section \<open>Headers\<close>

definition small :: "elf \<Rightarrow> bool" where
  "small elf \<longleftrightarrow> length (elf_buf elf) \<le> ISIZE_MAX"

lemma elf_parse_buf: "elf_parse buf = Some elf \<Longrightarrow> elf_buf elf = buf"
  by (auto simp: elf_parse_def elf_fields_def Let_def split: if_splits bind_splits)

lemma parse_program_header_safe: "small elf \<Longrightarrow> safe (parse_program_header elf i)"
  unfolding parse_program_header_def Let_def
  by (intro safe_intros; drule get_u32_Some; rule USIZE_split [OF _ small_ISIZE]; simp add: small_def)

lemma program_headers_safe: "small elf \<Longrightarrow> safe (program_headers elf)"
  unfolding program_headers_def by (intro safe_intros parse_program_header_safe)

lemma word_at_USIZE: "off + 4 \<le> length (elf_buf elf) \<Longrightarrow> small elf \<Longrightarrow> k < 4096 \<Longrightarrow> off + k < USIZE"
  by (rule USIZE_split [OF _ small_ISIZE]) (simp_all add: small_def)

lemma parse_section_header_safe: "small elf \<Longrightarrow> safe (parse_section_header elf i)"
  unfolding parse_section_header_def Let_def case_prod_beta
  by (intro safe_intros; drule get_u32_Some; rule word_at_USIZE, erule conjunct1; simp)

lemma section_headers_safe: "small elf \<Longrightarrow> safe (section_headers elf)"
  unfolding section_headers_def by (intro safe_intros parse_section_header_safe)

lemma get_range_length: "get_range buf a b = Some bs \<Longrightarrow> length bs \<le> length buf"
  by (auto simp: get_range_Some)

lemma parse_program_header_contents:
  "parse_program_header elf i = Inr (Some ph) \<Longrightarrow> length (p_buf ph) \<le> length (elf_buf elf)"
  unfolding parse_program_header_def some_def field_def Let_def
  by (auto simp: result_simps dest!: get_range_length split: option.splits if_splits)

lemma parse_section_header_contents:
  "parse_section_header elf i = Inr (Some s) \<Longrightarrow> length (sh_buf s) \<le> length (elf_buf elf)"
  unfolding parse_section_header_def some_def field_def Let_def case_prod_beta
  by (auto simp: result_simps dest!: get_range_length split: option.splits if_splits bind_splits)

lemma segment_contents:
  "program_headers elf = Inr phs \<Longrightarrow> ph \<in> set phs \<Longrightarrow> small elf \<Longrightarrow> length (p_buf ph) \<le> ISIZE_MAX"
  unfolding program_headers_def small_def
  by (drule (1) filter_map_mem) (auto dest!: parse_program_header_contents)

lemma section_contents:
  "section_headers elf = Inr shs \<Longrightarrow> s \<in> set shs \<Longrightarrow> small elf \<Longrightarrow> length (sh_buf s) \<le> ISIZE_MAX"
  unfolding section_headers_def small_def
  by (drule (1) filter_map_mem) (auto dest!: parse_section_header_contents)

lemma get_name_safe: "small elf \<Longrightarrow> safe (get_name elf s)"
  unfolding get_name_def shstrtab_def by (intro safe_intros parse_section_header_safe)

lemma linker_safe: "small elf \<Longrightarrow> safe (linker elf)"
  unfolding linker_def by (intro safe_intros program_headers_safe)

section \<open>Loops over tables\<close>

lemma vernaux_loop_safe:
  assumes "length buf \<le> ISIZE_MAX" "vna_offset < length buf + 4294967296"
  shows "safe (vernaux_loop buf be names so_name n vna_offset out)"
  using assms(2)
proof (induction n arbitrary: vna_offset out)
  case 0
  then show ?case by (simp add: safe_Inr)
next
  case (Suc n)
  have add: "vna_offset + k < USIZE" if "k < 16" for k
    using Suc.prems assms(1) that by (simp add: ISIZE_MAX_def USIZE_def)
  have next_offset: "vna_offset + nx < length buf + 4294967296"
    if "get_u32 buf (vna_offset + 8) be = Some a" "get_u32 buf (vna_offset + 12) be = Some nx" for a nx
    using get_u32_Some [OF that(1)] get_u32_Some [OF that(2)] by simp
  show ?case
    unfolding vernaux_loop.simps Let_def
    by (intro safe_intros add Suc.IH) (auto intro: next_offset)
qed

lemma verneed_at_safe: "length buf \<le> ISIZE_MAX \<Longrightarrow> safe (verneed_at buf be vn_offset)"
  unfolding verneed_at_def
  by (intro safe_intros; drule get_u16_Some; rule USIZE_split [OF _ small_ISIZE]; simp)

lemma verneed_at_aux:
  "verneed_at buf be vn_offset = Inr (Some (a, b, c, vn_aux, d)) \<Longrightarrow> vn_aux < 4294967296"
  unfolding verneed_at_def some_def field_def
  by (auto simp: result_simps dest!: get_u32_Some split: option.splits)

lemma verneed_loop_safe:
  assumes "length buf \<le> ISIZE_MAX"
  shows "safe (verneed_loop buf be names vn_offset out)"
  using assms
proof (induction buf be names vn_offset out rule: verneed_loop.induct)
  case (1 buf be names vn_offset out)
  have aux: "safe (vernaux_loop buf be names so_name vn_cnt (vn_offset + vn_aux) out)"
    if "verneed_at buf be vn_offset = Inr (Some (vn_version, vn_cnt, vn_file, vn_aux, vn_next))"
    for vn_version vn_cnt vn_file vn_aux vn_next so_name
    using verneed_at_bound [OF that] verneed_at_aux [OF that] by (intro vernaux_loop_safe [OF "1.prems"]) simp
  show ?case
    by (subst verneed_loop.simps, intro safe_intros verneed_at_safe "1.prems" "1.IH")
      (auto intro: aux)
qed

lemma linked_section_safe: "small elf \<Longrightarrow> safe (linked_section elf s)"
  unfolding linked_section_def by (rule parse_section_header_safe)

lemma versions_needed_safe: "small elf \<Longrightarrow> safe (versions_needed elf)"
  unfolding versions_needed_def
  by (intro safe_intros section_headers_safe linked_section_safe verneed_loop_safe) (auto intro: section_contents)

lemma dynamic_loop_safe:
  assumes "length buf \<le> ISIZE_MAX" "offset < length buf + 16"
  shows "safe (dynamic_loop elf buf offset out)"
  using assms
proof (induction elf buf offset out rule: dynamic_loop.induct)
  case (1 elf buf offset out)
  have add: "offset + k < USIZE" if "k \<le> 16" for k
    using "1.prems" that by (simp add: ISIZE_MAX_def USIZE_def)
  have entry: "safe (dynamic_entry elf buf offset)"
    unfolding dynamic_entry_def Let_def by (intro safe_intros add) (simp split: if_splits)
  show ?case
    by (subst dynamic_loop.simps, intro safe_intros entry add "1.IH")
      (use "1.prems" in \<open>auto dest: dynamic_entry_bound\<close>)
qed

lemma dynamic_entries_safe: "small elf \<Longrightarrow> safe (dynamic_entries elf)"
  unfolding dynamic_entries_def
  by (intro safe_intros program_headers_safe dynamic_loop_safe) (auto intro: segment_contents)

lemma strtab_safe: "small elf \<Longrightarrow> safe (strtab elf)"
  unfolding strtab_def Let_def by (intro safe_intros dynamic_entries_safe section_headers_safe)

lemma needed_safe: "small elf \<Longrightarrow> safe (needed elf)"
  unfolding needed_def by (intro safe_intros strtab_safe dynamic_entries_safe)

lemma symtab_safe: "small elf \<Longrightarrow> safe (symtab elf)"
  unfolding symtab_def by (intro safe_intros section_headers_safe linked_section_safe)

lemma symtab_contents:
  assumes "symtab elf = Inr (Some (s, names))" "small elf"
  shows "length (sh_buf s) \<le> ISIZE_MAX"
proof -
  from assms(1) obtain shs where "section_headers elf = Inr shs" "List.find (\<lambda>s. sh_type s = 2) shs = Some s"
    unfolding symtab_def some_def try_some_def by (auto simp: result_simps split: option.splits)
  then show ?thesis using section_contents [OF _ _ assms(2)] by (auto simp: find_Some_iff)
qed

lemma symtab_loop_safe:
  assumes "length buf \<le> ISIZE_MAX" "off \<le> length buf" "entsize \<le> 24"
  shows "safe (symtab_loop buf entsize be off out)"
  using assms
proof (induction buf entsize be off out rule: symtab_loop.induct)
  case (1 buf entsize be off out)
  have "off + entsize < USIZE" using "1.prems" by (simp add: ISIZE_MAX_def USIZE_def)
  then show ?case
    by (subst symtab_loop.simps, intro safe_intros "1.IH") (use "1.prems" in auto)
qed

lemma parse_note_safe: "safe (parse_note buf be)"
proof -
  have "safe (align v 4)" if "v < 4294967296" for v
  proof -
    have "v + (4 - v mod 4) < USIZE" using that by (simp add: USIZE_def)
    then show ?thesis unfolding align_def Let_def by (intro safe_intros)
  qed
  then show ?thesis unfolding parse_note_def by (intro safe_intros) (auto dest: get_u32_Some)
qed

section \<open>Guesses\<close>

lemma header_guesses_safe:
  assumes "small elf"
  shows "safe (guess_os_from_ph_notes elf)" "safe (guess_os_from_sh_notes elf)" "safe (guess_os_from_linker elf)"
    "safe (guess_os_from_abi_versions_needed elf)" "safe (guess_os_from_needed_dependencies elf)"
    "safe (guess_os_from_symtab elf)" "safe (guess_os_from_ident_directive elf)" "safe (guess_os_from_vdso_strings elf)"
    "safe (is_go_binary elf)" "safe (get_go_buildinfo_data elf)"
  unfolding guess_os_from_ph_notes_def ph_note_os_def guess_os_from_sh_notes_def sh_note_os_def
    guess_os_from_linker_def guess_os_from_abi_versions_needed_def guess_os_from_needed_dependencies_def
    guess_os_from_symtab_def parse_symtab_def guess_os_from_ident_directive_def guess_os_from_vdso_strings_def
    is_go_binary_def get_go_buildinfo_data_def
  by (intro safe_intros parse_note_safe program_headers_safe section_headers_safe linker_safe versions_needed_safe
      needed_safe symtab_safe symtab_loop_safe get_name_safe assms; use assms in \<open>auto dest: symtab_contents\<close>)+

section \<open>Segments in memory\<close>

definition bounded_segments :: "elf \<Rightarrow> bool" where
  "bounded_segments elf \<longleftrightarrow> (\<forall>phs. program_headers elf = Inr phs \<longrightarrow> (\<forall>ph \<in> set phs. p_memsz ph \<le> ISIZE_MAX))"

lemma read_data_safe:
  assumes "small elf" "bounded_segments elf"
  shows "safe (read_data elf rva len)"
  unfolding read_data_def Let_def
  by (intro safe_intros program_headers_safe assms)
    (use assms in \<open>auto simp: bounded_segments_def find_Some_iff not_le [symmetric] safe_def\<close>)

text \<open>The memory image of a segment: its bytes in the file, then zeros.\<close>

definition memory_image :: "phdr \<Rightarrow> u8 list" where
  "memory_image ph = p_buf ph @ replicate (p_memsz ph - length (p_buf ph)) 0"

lemma length_memory_image: "length (memory_image ph) = max (length (p_buf ph)) (p_memsz ph)"
  by (simp add: memory_image_def)

lemma read_data_cases:
  assumes "program_headers elf = Inr phs" "List.find (covers rva) phs = Some ph"
  shows "read_data elf rva len =
    (if length (p_buf ph) < p_memsz ph \<and> ISIZE_MAX < p_memsz ph then Inl Capacity_Overflow
     else some (checked_add (rva - p_vaddr ph) len) (\<lambda>e. Inr (get_range (memory_image ph) (rva - p_vaddr ph) e)))"
  unfolding read_data_def assms(1) rbind.simps by (simp add: some_def assms(2) memory_image_def Let_def)

lemma read_data_Some:
  assumes "read_data elf rva len = Inr (Some bs)"
  obtains phs ph where "program_headers elf = Inr phs" "List.find (covers rva) phs = Some ph"
    "rva - p_vaddr ph + len \<le> length (memory_image ph)"
    "bs = take len (drop (rva - p_vaddr ph) (memory_image ph))"
proof -
  from assms obtain phs where phs: "program_headers elf = Inr phs"
    unfolding read_data_def by (auto simp: result_simps)
  with assms obtain ph where ph: "List.find (covers rva) phs = Some ph"
    by (cases "List.find (covers rva) phs") (auto simp: read_data_def some_def)
  from assms read_data_cases [OF phs ph, of len] show ?thesis
    by (intro that [OF phs ph]) (auto simp: some_def get_range_Some split: if_splits option.splits)
qed

lemma read_data_length:
  assumes "read_data elf rva len = Inr (Some bs)" "small elf" "bounded_segments elf"
  shows "length bs \<le> ISIZE_MAX"
proof -
  from assms(1) obtain phs ph where ph: "program_headers elf = Inr phs" "List.find (covers rva) phs = Some ph"
    "length bs \<le> length (memory_image ph)" by (rule read_data_Some) auto
  then have "ph \<in> set phs" by (auto simp: find_Some_iff)
  with ph assms(2,3) segment_contents [OF ph(1) this assms(2)] show ?thesis
    by (auto simp: length_memory_image bounded_segments_def)
qed

lemma read_go_slice_safe: "small elf \<Longrightarrow> bounded_segments elf \<Longrightarrow> safe (read_go_slice elf rva)"
  unfolding read_go_slice_def Let_def by (intro safe_intros read_data_safe)

lemma safe_slice [safe_intros]: "a \<le> b \<Longrightarrow> b \<le> length buf \<Longrightarrow> safe (slice buf a b)"
  by (simp add: slice_def get_range_def safe_def)

lemma trim_modinfo_safe: "safe (trim_modinfo modinfo)"
  unfolding trim_modinfo_def Let_def by (intro safe_intros) auto

lemma buildinfo_contents:
  assumes "get_go_buildinfo_data elf = Inr (Some buf)" "small elf"
  shows "length buf \<le> ISIZE_MAX"
proof -
  have first: "\<exists>x \<in> set xs. g x = Some y" if "first_some g xs = Some y" for g :: "phdr \<Rightarrow> u8 list option" and xs y
    using that by (induction xs) (auto split: option.splits)
  have answer: "\<exists>x \<in> set xs. g x = Inr (Some y)" if "first_answer g xs = Inr (Some y)" for g :: "shdr \<Rightarrow> panic + u8 list option" and xs y
    using that by (induction xs) (auto simp: or_else_def result_simps split: option.splits)
  from assms(1) consider
    shs s where "section_headers elf = Inr shs" "s \<in> set shs" "buf = sh_buf s"
    | phs ph where "program_headers elf = Inr phs" "ph \<in> set phs" "buf = p_buf ph"
    unfolding get_go_buildinfo_data_def or_else_def
    by (auto simp: result_simps dest!: first first [OF sym] answer split: option.splits if_splits)
  then show ?thesis using section_contents segment_contents assms(2) by cases blast+
qed

lemma go_buildinfo_safe:
  assumes "small elf" "bounded_segments elf"
  shows "safe (guess_os_from_go_buildinfo elf)"
proof -
  have add: "index + k < USIZE" if "get_go_buildinfo_data elf = Inr (Some buf)"
    "find_subslice buf BUILDINFO_MAGIC = Some index" "k < 4096" for buf index k
    using find_subslice_Some [OF that(2)] buildinfo_contents [OF that(1) assms(1)] that(3)
    by (intro USIZE_split [OF _ small_ISIZE]) simp_all
  have magic: "length BUILDINFO_MAGIC = 14" by (simp add: BUILDINFO_MAGIC_def str_bytes_def)
  have add1: "index + length BUILDINFO_MAGIC < USIZE" and add2: "Suc (Suc (index + length BUILDINFO_MAGIC)) < USIZE"
    if "get_go_buildinfo_data elf = Inr (Some buf)" "find_subslice buf BUILDINFO_MAGIC = Some index" for buf index
    using add [OF that, of 14] add [OF that, of 16] by (simp_all add: magic)
  show ?thesis
    unfolding guess_os_from_go_buildinfo_def Let_def
    by (intro safe_intros header_guesses_safe read_go_slice_safe trim_modinfo_safe assms)
      (auto intro: add add2 add1 split: if_splits)
qed

lemma go_source_safe:
  assumes "small elf"
  shows "safe (guess_os_from_go_source elf)"
proof -
  have "safe (source_os needle extension table ph)" if "program_headers elf = Inr phs" "ph \<in> set phs" for needle extension table ph phs
  proof -
    have add: "index + length needle + 32 < USIZE" "index + length needle < USIZE" "index + length needle \<le> length (p_buf ph)"
      if "find_subslice (p_buf ph) needle = Some index" for index
      using find_subslice_Some [OF that] segment_contents [OF \<open>program_headers elf = Inr phs\<close> \<open>ph \<in> set phs\<close> assms]
      by (simp_all add: ISIZE_MAX_def USIZE_def)
    show ?thesis
      unfolding source_os_def Let_def
      by (intro safe_intros) (use add in \<open>auto dest!: find_subslice_Some split: option.splits\<close>)
  qed
  then show ?thesis
    unfolding guess_os_from_go_source_def
    by (intro safe_intros header_guesses_safe program_headers_safe assms)
qed

lemma guess_os_safe: "small elf \<Longrightarrow> bounded_segments elf \<Longrightarrow> safe (guess_os elf)"
  unfolding guess_os_def by (intro safe_intros header_guesses_safe go_buildinfo_safe go_source_safe)

section \<open>Imports\<close>

lemma gnu_chain_safe:
  assumes "small elf" "bounded_segments elf" "symoffset \<le> max_idx"
  shows "safe (gnu_chain elf chain_pos symoffset n max_idx)"
  using assms(3)
proof (induction n arbitrary: max_idx)
  case 0
  then show ?case by (simp add: safe_Inr)
next
  case (Suc n)
  then show ?case
    unfolding gnu_chain.simps by (intro safe_intros read_data_safe assms Suc.IH) auto
qed

lemma num_symbols_safe:
  assumes "small elf" "bounded_segments elf"
  shows "safe (num_symbols elf entries symtab_vaddr entsize)"
  unfolding num_symbols_def gnu_hash_num_symbols_def elf_hash_num_symbols_def nearest_ptr_num_symbols_def Let_def
  by (intro safe_intros read_data_safe program_headers_safe gnu_chain_safe assms) auto

lemma parse_full_sym_safe: "length buf \<le> ISIZE_MAX \<Longrightarrow> safe (parse_full_sym buf off bits be)"
  unfolding parse_full_sym_def
  by (intro safe_intros; drule get_u32_Some; rule USIZE_split [OF _ small_ISIZE]; simp)

lemma import_loop_safe:
  assumes "length symtab_bytes \<le> ISIZE_MAX"
  shows "safe (import_loop elf symtab_bytes strtab_bytes entsize is out)"
proof (induction "is" arbitrary: out)
  case (Cons i "is")
  then show ?case
    unfolding import_loop.simps import_name_def by (intro safe_intros parse_full_sym_safe assms)
qed (simp add: safe_Inr)

section \<open>Properties\<close>

lemma elf_reader_safe:
  assumes "length buf \<le> ISIZE_MAX"
    and "\<And>elf phs ph. elf_parse buf = Some elf \<Longrightarrow> program_headers elf = Inr phs \<Longrightarrow> ph \<in> set phs
           \<Longrightarrow> p_memsz ph \<le> ISIZE_MAX"
  shows "(\<exists>os. detect_elf_os buf = Inr os) \<and> (\<exists>names. dynamic_import_symbol_names buf = Inr names)"
proof -
  have parsed: "small elf" "bounded_segments elf" if "elf_parse buf = Some elf" for elf
    using assms elf_parse_buf [OF that] that by (auto simp: small_def bounded_segments_def)
  have "safe (detect_elf_os buf)"
    unfolding detect_elf_os_def by (intro safe_intros guess_os_safe parsed)
  moreover have "safe (dynamic_import_symbol_names buf)"
    unfolding dynamic_import_symbol_names_def Let_def
    by (intro safe_intros dynamic_entries_safe num_symbols_safe read_data_safe strtab_safe import_loop_safe parsed)
      (auto intro: read_data_length parsed)
  ultimately show ?thesis by (simp add: safe_def)
qed

text \<open>
  C9: neither the detection of the operating system nor the collection of import names
  panics on any file that fits into memory, if the size in memory of its segments is at most
  the largest size of a vector: every addition on offsets stays in range and every slice is
  within its buffer, whatever the headers, tables, links and chains of the file say.
\<close>

theorem elf_reader_no_panic:
  assumes "length buf \<le> ISIZE_MAX"
    and "\<And>elf phs ph. elf_parse buf = Some elf \<Longrightarrow> program_headers elf = Inr phs \<Longrightarrow> ph \<in> set phs
           \<Longrightarrow> p_memsz ph \<le> ISIZE_MAX"
  shows "(\<exists>os. detect_elf_os buf = Inr os) \<and> (\<exists>names. dynamic_import_symbol_names buf = Inr names)"
  using assms by (rule elf_reader_safe)

text \<open>A file that is only a header, and one with a segment that holds the string of a build.\<close>

definition elf64_header :: "u8 list" where
  "elf64_header = [127, 69, 76, 70, 2, 1, 1, 3, 0, 0, 0, 0, 0, 0, 0, 0, 0, 0, 0, 0, 0, 0, 0, 0, 0, 0, 0, 0, 0, 0, 0, 0,
     0, 0, 0, 0, 0, 0, 0, 0, 0, 0, 0, 0, 0, 0, 0, 0, 0, 0, 0, 0, 0, 0, 0, 0, 0, 0, 0, 0, 0, 0, 0, 0]"

lemma elf64_header_parse:
  "elf_parse elf64_header = Some \<lparr>elf_buf = elf64_header, bitness = 64, big_endian = False, e_phoff = 0,
     e_phentsize = 0, e_phnum = 0, e_shoff = 0, e_shentsize = 0, e_shnum = 0, e_shstrndx = 0\<rparr>"
  by (simp add: elf64_header_def elf_parse_def elf_fields_def get_byte_def get_u16_def get_u64_def get_uint_def
      checked_add_def USIZE_def get_range_def)

theorem elf_reader_no_panic_witness:
  "length elf64_header \<le> ISIZE_MAX
   \<and> (\<exists>os. detect_elf_os elf64_header = Inr os) \<and> (\<exists>names. dynamic_import_symbol_names elf64_header = Inr names)"
proof -
  have l: "length elf64_header \<le> ISIZE_MAX" by (simp add: elf64_header_def ISIZE_MAX_def)
  have "p_memsz ph \<le> ISIZE_MAX"
    if "elf_parse elf64_header = Some elf" "program_headers elf = Inr phs" "ph \<in> set phs" for elf phs ph
    using that by (auto simp: elf64_header_parse program_headers_def)
  with elf_reader_no_panic [OF l] l show ?thesis by blast
qed


definition sample_elf :: elf where
  "sample_elf = \<lparr>elf_buf = [1, 0, 0, 0, 6, 0, 0, 0, 56, 0, 0, 0, 0, 0, 0, 0, 0, 16, 0, 0, 0, 0, 0, 0, 0, 0, 0, 0, 0, 0, 0, 0,
       4, 0, 0, 0, 0, 0, 0, 0, 0, 0, 0, 0, 0, 0, 0, 128, 0, 0, 0, 0, 0, 0, 0, 0, 9, 8, 7, 6],
     bitness = 64, big_endian = False, e_phoff = 0, e_phentsize = 56, e_phnum = 1,
     e_shoff = 0, e_shentsize = 0, e_shnum = 0, e_shstrndx = 0\<rparr>"

lemma sample_headers:
  "program_headers sample_elf = Inr [\<lparr>p_type = 1, p_vaddr = 0x1000, p_memsz = 2 ^ 63, p_flags = 6, p_buf = [9, 8, 7, 6]\<rparr>]"
  by (simp add: sample_elf_def program_headers_def parse_program_header_def some_def field_def add_usize_def
      get_u32_def get_u64_def get_uint_def checked_add_def USIZE_def get_range_def)


text \<open>The bytes of a field, in the order of the file.\<close>

fun le_bytes :: "nat \<Rightarrow> nat \<Rightarrow> u8 list" where
  "le_bytes 0 v = []"
| "le_bytes (Suc w) v = of_nat (v mod 256) # le_bytes w (v div 256)"

definition field_bytes :: "nat \<Rightarrow> bool \<Rightarrow> nat \<Rightarrow> u8 list" where
  "field_bytes w be v = (if be then rev (le_bytes w v) else le_bytes w v)"

lemma length_le_bytes [simp]: "length (le_bytes w v) = w"
  by (induction w arbitrary: v) auto

lemma le_value_le_bytes: "v < 256 ^ w \<Longrightarrow> le_value (le_bytes w v) = v"
proof (induction w arbitrary: v)
  case (Suc w)
  have "v div 256 < 256 ^ w" using Suc.prems by (simp add: less_mult_imp_div_less mult.commute)
  from Suc.IH [OF this] show ?case by (simp add: unat_of_nat)
qed simp

lemma get_uint_field_bytes:
  assumes "v < 256 ^ w" "length pre + w < USIZE"
  shows "get_uint w (pre @ field_bytes w be v @ post) (length pre) be = Some v"
  using assms by (simp add: get_uint_def checked_add_def get_range_def field_bytes_def be_value_def le_value_le_bytes)

text \<open>
  A field of two, four or eight bytes is read back from its encoding in either byte
  order wherever it stands in a file, and a read returns a value exactly when the field lies
  within the file.
\<close>

lemma elf_field_roundtrip:
  assumes "length pre + 8 < USIZE"
  shows "(v < 2 ^ 16 \<longrightarrow> get_u16 (pre @ field_bytes 2 be v @ post) (length pre) be = Some v)
    \<and> (v < 2 ^ 32 \<longrightarrow> get_u32 (pre @ field_bytes 4 be v @ post) (length pre) be = Some v)
    \<and> (v < 2 ^ 64 \<longrightarrow> get_u64 (pre @ field_bytes 8 be v @ post) (length pre) be = Some v)
    \<and> (get_u32 buf off be \<noteq> None \<longleftrightarrow> off + 4 \<le> length buf \<and> off + 4 < USIZE)"
proof -
  have "get_u32 buf off be \<noteq> None \<longleftrightarrow> off + 4 \<le> length buf \<and> off + 4 < USIZE"
    by (auto simp: get_u32_def get_uint_def checked_add_def get_range_def)
  then show ?thesis
    using assms by (simp add: get_u16_def get_u32_def get_u64_def get_uint_field_bytes)
qed

lemma elf_field_roundtrip_witness:
  "length [0x7f :: u8] + 8 < USIZE \<and> get_u16 ([0x7f] @ field_bytes 2 True 0x1234 @ [0]) (length [0x7f :: u8]) True = Some 0x1234"
  using elf_field_roundtrip [of "[0x7f]" "0x1234" True "[0]" "[]" 0] by (simp add: USIZE_def)

end
