(* ===== verification/Imports.thy ===== *)
theory Imports
  imports Image Ordinals Carve
begin

text \<open>
  \<^verbatim>\<open>capa-x/src/extract/loader/image.rs\<close>: the names of imports and the delay import tables
  of a Windows executable. The directory entry comes from the container parser, as do the
  Unicode lowercasing and the texts of UTF-8 errors from the standard library: they are
  parameters.
\<close>

unbundle bit_operations_syntax

definition basename :: "string \<Rightarrow> string" where
  "basename path = (case rfind_char CHR ''/'' path of None \<Rightarrow> path | Some i \<Rightarrow> drop (i + 1) path)"

definition is_ascii_alphanumeric :: "char \<Rightarrow> bool" where
  "is_ascii_alphanumeric c =
     (CHR ''0'' \<le> c \<and> c \<le> CHR ''9'' \<or> CHR ''A'' \<le> c \<and> c \<le> CHR ''Z'' \<or> CHR ''a'' \<le> c \<and> c \<le> CHR ''z'')"

text \<open>
  \<^verbatim>\<open>chars().map(...)\<close> replaces every other character by one underscore: a leading UTF-8 byte
  of a longer character becomes the underscore and its continuation bytes disappear.
\<close>

definition underscore_others :: "string \<Rightarrow> string" where
  "underscore_others s =
     map (\<lambda>c. if is_ascii_alphanumeric c then c else CHR ''_'')
       (filter (\<lambda>c. \<not> (0x80 \<le> (of_char c :: nat) \<and> of_char c \<le> (0xBF :: nat))) s)"

definition norm_file_name :: "(string \<Rightarrow> string) \<Rightarrow> string \<Rightarrow> string" where
  "norm_file_name lower filename =
     (let base = lower (basename filename);
          stem = (case rfind_char CHR ''.'' base of
                    Some index \<Rightarrow> map (\<lambda>c. if c = CHR ''.'' then CHR ''_'' else c) (take index base)
                  | None \<Rightarrow> base)
      in underscore_others stem)"

definition import_location_name :: "(string \<Rightarrow> string) \<Rightarrow> string \<Rightarrow> string \<Rightarrow> string" where
  "import_location_name lower dll symbol = norm_file_name lower dll @ ''.'' @ symbol"

definition DELAY_DESCRIPTOR_SIZE :: nat where
  "DELAY_DESCRIPTOR_SIZE = 32"

definition MAX_DELAY_DESCRIPTORS :: nat where
  "MAX_DELAY_DESCRIPTORS = 4096"

definition MAX_DELAY_IMPORTS :: nat where
  "MAX_DELAY_IMPORTS = 65536"

definition delay_overflow :: "string \<Rightarrow> image_error" where
  "delay_overflow context' = AddressOverflow Pe context'"

definition delay_pointer_size :: "loaded_image \<Rightarrow> u64" where
  "delay_pointer_size img = (if arch img = X64 then 8 else 4)"

definition delay_symbol ::
  "(u8 list \<Rightarrow> string) \<Rightarrow> loaded_image \<Rightarrow> string \<Rightarrow> bool \<Rightarrow> u64 \<Rightarrow> image_error + string" where
  "delay_symbol utf8_error img dll uses_rvas v =
     (let ordinal_mask = (if delay_pointer_size img = 8 then push_bit 63 1 else push_bit 31 1)
      in if v AND ordinal_mask \<noteq> 0 then
           (let ordinal = unat (v AND 0xffff)
            in Inr (case resolve_pe_ordinal dll ordinal of None \<Rightarrow> ''#'' @ show_nat ordinal | Some s \<Rightarrow> s))
         else
           rbind (delay_field_to_rva img v uses_rvas) (\<lambda>hint_name_rva.
           rbind (ok_or (delay_overflow ''delay import hint/name'') (checked_add_u64 hint_name_rva 2)) (\<lambda>name_rva.
             read_ascii_cstr_at_rva utf8_error img name_rva)))"

text \<open>
  The loop over the thunks of one library, \<open>n\<close> more at most. The flag tells whether the
  terminating zero was found.
\<close>

fun delay_thunks ::
  "(u8 list \<Rightarrow> string) \<Rightarrow> (string \<Rightarrow> string) \<Rightarrow> string \<Rightarrow> bool \<Rightarrow> u64 \<Rightarrow> u64 \<Rightarrow> nat \<Rightarrow> nat \<Rightarrow> loaded_image
    \<Rightarrow> image_error + loaded_image \<times> bool" where
  "delay_thunks utf8_error lower dll uses_rvas int_rva iat_rva import_index 0 img = Inr (img, False)"
| "delay_thunks utf8_error lower dll uses_rvas int_rva iat_rva import_index (Suc n) img =
     rbind (ok_or (delay_overflow ''delay import thunk'')
              (if import_index * unat (delay_pointer_size img) < 2 ^ 64
               then Some (of_nat (import_index * unat (delay_pointer_size img))) else None)) (\<lambda>relative.
     rbind (ok_or (delay_overflow ''delay import thunk'') (checked_add_u64 int_rva relative)) (\<lambda>thunk_rva.
     rbind (read_pointer_at_rva img thunk_rva) (\<lambda>v.
       if v = 0 then Inr (img, True)
       else
         rbind (delay_symbol utf8_error img dll uses_rvas v) (\<lambda>symbol.
         rbind (ok_or (delay_overflow ''delay IAT binding'') (checked_add_u64 iat_rva relative)) (\<lambda>binding_rva.
         rbind (ok_or (delay_overflow ''delay IAT binding'') (checked_add_u64 (image_base img) binding_rva)) (\<lambda>address.
           let img = add_external_binding img address (generate_symbols lower dll symbol False);
               img = img\<lparr>import_locations := (import_locations img)(address \<mapsto> import_location_name lower dll symbol)\<rparr>
           in delay_thunks utf8_error lower dll uses_rvas int_rva iat_rva (import_index + 1) n img))))))"

text \<open>The loop over the descriptors; an empty one ends it.\<close>

fun delay_descriptors ::
  "(u8 list \<Rightarrow> string) \<Rightarrow> (string \<Rightarrow> string) \<Rightarrow> u64 \<Rightarrow> nat list \<Rightarrow> loaded_image \<Rightarrow> image_error + loaded_image" where
  "delay_descriptors utf8_error lower dir_rva [] img = Inr img"
| "delay_descriptors utf8_error lower dir_rva (index # is) img =
     rbind (ok_or (delay_overflow ''delay import descriptor'')
              (if index * DELAY_DESCRIPTOR_SIZE < 2 ^ 64 then Some (of_nat (index * DELAY_DESCRIPTOR_SIZE)) else None)) (\<lambda>relative.
     rbind (ok_or (delay_overflow ''delay import descriptor'') (checked_add_u64 dir_rva relative)) (\<lambda>descriptor_rva.
     rbind (read_array_at_rva 32 img descriptor_rva) (\<lambda>raw'.
       if list_all (\<lambda>b. b = 0) raw' then Inr img
       else
         rbind (read_u32_field raw' 0 descriptor_rva) (\<lambda>attrs.
         let uses_rvas = (attrs AND 1 \<noteq> 0)
         in rbind (read_u32_field raw' 4 descriptor_rva) (\<lambda>f4.
            rbind (delay_field_to_rva img f4 uses_rvas) (\<lambda>name_rva.
            rbind (read_u32_field raw' 12 descriptor_rva) (\<lambda>f12.
            rbind (delay_field_to_rva img f12 uses_rvas) (\<lambda>iat_rva.
            rbind (read_u32_field raw' 16 descriptor_rva) (\<lambda>f16.
            rbind (delay_field_to_rva img f16 uses_rvas) (\<lambda>int_rva.
              if name_rva = 0 \<or> iat_rva = 0 \<or> int_rva = 0 then
                Inl (DelayImport descriptor_rva ''descriptor has a zero name, IAT, or INT address'')
              else
                rbind (read_ascii_cstr_at_rva utf8_error img name_rva) (\<lambda>dll.
                rbind (delay_thunks utf8_error lower dll uses_rvas int_rva iat_rva 0 MAX_DELAY_IMPORTS img)
                  (\<lambda>(img, terminated).
                    if \<not> terminated then
                      Inl (DelayImport int_rva (''import thunk count exceeds limit '' @ show_nat MAX_DELAY_IMPORTS
                             @ '' without a terminator''))
                    else delay_descriptors utf8_error lower dir_rva is img))))))))))))"

definition load_pe_delay_imports ::
  "(u8 list \<Rightarrow> string) \<Rightarrow> (string \<Rightarrow> string) \<Rightarrow> (u32 \<times> u32) option \<Rightarrow> loaded_image \<Rightarrow> image_error + loaded_image" where
  "load_pe_delay_imports utf8_error lower directory img =
     (case directory of
        None \<Rightarrow> Inr img
      | Some (virtual_address, size') \<Rightarrow>
          if virtual_address = 0 \<or> size' = 0 then Inr img
          else
            let descriptor_count = unat size' div DELAY_DESCRIPTOR_SIZE;
                img = (if unat size' mod DELAY_DESCRIPTOR_SIZE \<noteq> 0 then
                         img\<lparr>load_diagnostics := load_diagnostics img @
                           [''delay import directory at RVA '' @ hex_text (unat virtual_address) @ '' has size ''
                            @ show_nat (unat size') @ '', which is not a multiple of '' @ show_nat DELAY_DESCRIPTOR_SIZE
                            @ ''; ignoring trailing bytes'']\<rparr>
                       else img)
            in if MAX_DELAY_DESCRIPTORS < descriptor_count then
                 Inl (DelayImport (ucast virtual_address)
                   (''descriptor count '' @ show_nat descriptor_count @ '' exceeds limit '' @ show_nat MAX_DELAY_DESCRIPTORS))
               else delay_descriptors utf8_error lower (ucast virtual_address) [0..<descriptor_count] img)"

end
