(* ===== verification/Image_Props.thy ===== *)
theory Image_Props
  imports Imports
begin

text \<open>
  The memory of a loaded image is one consistent map from addresses to bytes when its
  sections do not overlap: longer reads agree with shorter ones, and addresses and file
  offsets translate into each other. Mapped regions hold the bytes of the file followed by
  zeros, and loading imports does not change the memory.
\<close>

unbundle bit_operations_syntax

section \<open>Well-formed images\<close>

definition in_file :: "mapped_section \<Rightarrow> u64 \<Rightarrow> bool" where
  "in_file s offset \<longleftrightarrow> file_offset s \<le> offset \<and> offset - file_offset s < file_size s"

definition wf_image :: "loaded_image \<Rightarrow> bool" where
  "wf_image img \<longleftrightarrow> length (mapped_bytes img) = length (sections img)
     \<and> (\<forall>i < length (sections img).
          length (mapped_bytes img ! i) \<le> unat (virtual_size (sections img ! i))
          \<and> unat (sec_address (sections img ! i)) + unat (virtual_size (sections img ! i)) \<le> 2 ^ 64
          \<and> unat (file_offset (sections img ! i)) + unat (file_size (sections img ! i)) \<le> 2 ^ 64
          \<and> file_size (sections img ! i) \<le> virtual_size (sections img ! i))
     \<and> (\<forall>i < length (sections img). \<forall>j < length (sections img). \<forall>a. i \<noteq> j \<longrightarrow>
          \<not> (contains_va (sections img ! i) a \<and> contains_va (sections img ! j) a)
          \<and> \<not> (in_file (sections img ! i) a \<and> in_file (sections img ! j) a))"

lemma contains_va_iff: "contains_va s a \<longleftrightarrow> sec_address s \<le> a \<and> a - sec_address s < virtual_size s"
  by (simp add: contains_va_def checked_sub_u64_def)

lemma find_enumerate_unique:
  assumes "i < length xs" "P (xs ! i)" "\<And>j. j < length xs \<Longrightarrow> P (xs ! j) \<Longrightarrow> j = i"
  shows "List.find (\<lambda>(k, x). P x) (enumerate 0 xs) = Some (i, xs ! i)"
proof -
  have "\<not> (case enumerate 0 xs ! j of (k, x) \<Rightarrow> P x)" if "j < i" for j
    using assms(1) assms(3) [of j] that by (auto simp: nth_enumerate_eq)
  then show ?thesis
    unfolding find_Some_iff using assms(1,2) by (intro exI [of _ i]) (simp add: nth_enumerate_eq)
qed

lemma find_enumerate_Some:
  assumes "List.find (\<lambda>(k, x). P x) (enumerate 0 xs) = Some (i, x)"
  shows "i < length xs" "x = xs ! i" "P x"
  using assms by (auto simp: find_Some_iff nth_enumerate_eq)

lemma bytes_at_Some:
  assumes "bytes_at img a n = Some bs" "wf_image img"
  obtains i where "i < length (sections img)" "contains_va (sections img ! i) a"
    "unat (a - sec_address (sections img ! i)) \<le> length (mapped_bytes img ! i)"
    "bs = take n (drop (unat (a - sec_address (sections img ! i))) (mapped_bytes img ! i))"
proof -
  from assms(1) obtain i s where f: "List.find (\<lambda>(k, x). contains_va x a) (enumerate 0 (sections img)) = Some (i, s)"
    by (auto simp: bytes_at_def split: bind_splits)
  note F = find_enumerate_Some [OF f]
  from F(3) have "checked_sub_u64 a (sec_address s) = Some (a - sec_address s)"
    by (simp add: contains_va_iff checked_sub_u64_def)
  with assms(1) f show ?thesis
    using F by (intro that [of i])
      (auto simp: bytes_at_def Let_def get_range_def min_def split: if_splits bind_splits)
qed

lemma bytes_at_section:
  assumes "wf_image img" "i < length (sections img)" "contains_va (sections img ! i) a"
    "unat (a - sec_address (sections img ! i)) \<le> length (mapped_bytes img ! i)"
  shows "bytes_at img a n = Some (take n (drop (unat (a - sec_address (sections img ! i))) (mapped_bytes img ! i)))"
proof -
  let ?s = "sections img ! i" and ?d = "mapped_bytes img ! i"
  have f: "List.find (\<lambda>(k, x). contains_va x a) (enumerate 0 (sections img)) = Some (i, ?s)"
    using assms(1,2,3) by (intro find_enumerate_unique) (auto simp: wf_image_def)
  have "unat (virtual_size ?s) < 2 ^ 64" using unsigned_less [of "virtual_size ?s"] by simp
  moreover have "length ?d \<le> unat (virtual_size ?s)" using assms(1,2) by (auto simp: wf_image_def)
  ultimately have "length ?d < USIZE" by (simp add: USIZE_def)
  then show ?thesis
    using assms f by (auto simp: bytes_at_def checked_sub_u64_def contains_va_iff wf_image_def Let_def checked_add_def
        get_range_def min_def)
qed

lemma unat_offset:
  fixes s a v :: u64
  assumes "s \<le> a" "unat s + unat v \<le> 2 ^ 64" "unat (a - s) + k < unat v"
  shows "s \<le> a + of_nat k" "unat (a + of_nat k - s) = unat (a - s) + k"
proof -
  have a: "unat (a - s) = unat a - unat s" using assms(1) by (simp add: unat_sub)
  have le: "unat s \<le> unat a" using assms(1) by (simp add: word_le_nat_alt)
  have lt: "unat a + k < 2 ^ 64" using a le assms(2,3) by linarith
  then have k: "unat (of_nat k :: u64) = k" by (simp add: unat_of_nat)
  have sum: "unat (a + of_nat k) = unat a + k"
    using lt k by (subst unat_add_lem [THEN iffD1]) simp_all
  show "s \<le> a + of_nat k" using sum le by (simp add: word_le_nat_alt)
  then show "unat (a + of_nat k - s) = unat (a - s) + k" using sum a le by (simp add: unat_sub)
qed

lemma bytes_at_suffix:
  assumes "wf_image img" "bytes_at img a n = Some bs" "k < length bs"
  shows "bytes_at img (a + of_nat k) (n - k) = Some (drop k bs)"
proof -
  obtain i where i: "i < length (sections img)" "contains_va (sections img ! i) a"
    "unat (a - sec_address (sections img ! i)) \<le> length (mapped_bytes img ! i)"
    "bs = take n (drop (unat (a - sec_address (sections img ! i))) (mapped_bytes img ! i))"
    using bytes_at_Some [OF assms(2,1)] by blast
  let ?s = "sections img ! i" and ?d = "mapped_bytes img ! i"
  have W: "length ?d \<le> unat (virtual_size ?s)" "unat (sec_address ?s) + unat (virtual_size ?s) \<le> 2 ^ 64"
    using assms(1) i(1) by (auto simp: wf_image_def)
  have lt: "unat (a - sec_address ?s) + k < length ?d" using assms(3) i(4) by (simp add: less_diff_conv add.commute)
  have "sec_address ?s \<le> a" using i(2) by (simp add: contains_va_iff)
  note O = unat_offset [OF this W(2), of k]
  have "contains_va ?s (a + of_nat k)"
    using O lt W(1) by (simp add: contains_va_iff word_less_nat_alt)
  then show ?thesis
    using bytes_at_section [OF assms(1) i(1), of "a + of_nat k" "n - k"] O lt W(1) i(4)
    by (simp add: drop_take add.commute)
qed

lemma translate_back:
  fixes s a n t :: u64
  assumes "s \<le> a" "a - s < n" "unat t + unat n \<le> 2 ^ 64"
  shows "checked_add_u64 t (a - s) = Some (t + (a - s))" "t \<le> t + (a - s)" "t + (a - s) - t = a - s"
proof -
  have lt: "unat t + unat (a - s) < 2 ^ 64" using assms(2,3) by (simp add: word_less_nat_alt)
  then show "checked_add_u64 t (a - s) = Some (t + (a - s))" by (simp add: checked_add_u64_def)
  from lt have "unat (t + (a - s)) = unat t + unat (a - s)" by (subst unat_add_lem [THEN iffD1]) simp_all
  then show "t \<le> t + (a - s)" by (simp add: word_le_nat_alt)
qed simp

lemma first_some_Some:
  "first_some f xs = Some y \<Longrightarrow> \<exists>i < length xs. f (xs ! i) = Some y"
  by (induction xs) (auto split: option.splits)

lemma first_some_unique:
  assumes "i < length xs" "f (xs ! i) = Some y" "\<And>j. j < i \<Longrightarrow> f (xs ! j) = None"
  shows "first_some f xs = Some y"
  using assms
proof (induction xs arbitrary: i)
  case (Cons x xs)
  then show ?case
  proof (cases i)
    case (Suc k)
    have "first_some f xs = Some y"
    proof (rule Cons.IH)
      show "f (xs ! j) = None" if "j < k" for j using Cons.prems(3) [of "Suc j"] that Suc by simp
    qed (use Cons.prems Suc in auto)
    then show ?thesis using Cons.prems(3) [of 0] Suc by simp
  qed simp
qed simp

lemma va_file_roundtrip:
  assumes "wf_image img" "va_to_file_offset img a = Some off"
  shows "file_offset_to_va img off = Some a"
proof -
  obtain i where i: "i < length (sections img)"
    "Option.bind (checked_sub_u64 a (sec_address (sections img ! i))) (\<lambda>relative.
       if relative < file_size (sections img ! i) then checked_add_u64 (file_offset (sections img ! i)) relative else None) = Some off"
    using first_some_Some [OF assms(2) [unfolded va_to_file_offset_def]] by blast
  let ?s = "sections img ! i"
  from i(2) have s: "sec_address ?s \<le> a" "a - sec_address ?s < file_size ?s"
    "checked_add_u64 (file_offset ?s) (a - sec_address ?s) = Some off"
    by (auto simp: checked_sub_u64_def split: if_splits)
  have W: "unat (file_offset ?s) + unat (file_size ?s) \<le> 2 ^ 64" "unat (sec_address ?s) + unat (virtual_size ?s) \<le> 2 ^ 64"
    "file_size ?s \<le> virtual_size ?s" using assms(1) i(1) by (auto simp: wf_image_def)
  note T = translate_back [OF s(1,2) W(1)]
  from T s(3) have off: "off = file_offset ?s + (a - sec_address ?s)" by simp
  have inf: "in_file ?s off" using T s(2) off by (simp add: in_file_def)
  have "unat (sec_address ?s) + unat (a - sec_address ?s) < 2 ^ 64"
    using s(2) W(2,3) by (simp add: word_less_nat_alt word_le_nat_alt)
  then have back': "checked_add_u64 (sec_address ?s) (off - file_offset ?s) = Some a"
    using off by (simp add: checked_add_u64_def)
  have "\<not> in_file (sections img ! j) off" if "j < i" for j
    using assms(1) i(1) inf that unfolding wf_image_def by (metis less_trans nat_neq_iff)
  then show ?thesis
    unfolding file_offset_to_va_def using inf back'
    by (intro first_some_unique [OF i(1)]) (auto simp: in_file_def checked_sub_u64_def)
qed

lemma shellcode_wf:
  assumes "length bytes + unat SHELLCODE_BASE \<le> 2 ^ 64"
  shows "wf_image (from_shellcode bytes a)"
proof -
  have "length bytes < 2 ^ 64" using assms by (simp add: SHELLCODE_BASE_def)
  then have "unat (of_nat (length bytes) :: u64) = length bytes" by (simp add: unat_of_nat)
  with assms show ?thesis by (simp add: wf_image_def from_shellcode_def Let_def)
qed

section \<open>Imports and memory\<close>

definition same_memory :: "loaded_image \<Rightarrow> loaded_image \<Rightarrow> bool" where
  "same_memory img img' \<longleftrightarrow> sections img' = sections img \<and> mapped_bytes img' = mapped_bytes img
     \<and> image_base img' = image_base img \<and> arch img' = arch img"

lemma same_memory_refl [simp]: "same_memory img img"
  by (simp add: same_memory_def)

lemma same_memory_trans: "same_memory img img' \<Longrightarrow> same_memory img' img'' \<Longrightarrow> same_memory img img''"
  by (simp add: same_memory_def)

lemma same_memory_binding [simp]:
  "same_memory img (add_external_binding img address names)"
  "same_memory img (img\<lparr>import_locations := locations\<rparr>)"
  "same_memory img (img\<lparr>load_diagnostics := ds\<rparr>)"
  by (simp_all add: same_memory_def add_external_binding_def Let_def)

lemma same_memory_bytes_at: "same_memory img img' \<Longrightarrow> bytes_at img' a n = bytes_at img a n"
  unfolding same_memory_def bytes_at_def Let_def by (elim conjE) (simp only:)

lemma delay_thunks_memory:
  "delay_thunks u l dll r int_rva iat_rva i n img = Inr (img', t) \<Longrightarrow> same_memory img img'"
proof (induction n arbitrary: i img)
  case (Suc n)
  from Suc.prems show ?case
    by (auto simp: result_simps Let_def split: if_splits dest!: Suc.IH
        intro: same_memory_trans [OF same_memory_trans [OF same_memory_binding(1) same_memory_binding(2)]])
qed simp

lemma delay_descriptors_memory:
  "delay_descriptors u l dir_rva is img = Inr img' \<Longrightarrow> same_memory img img'"
proof (induction "is" arbitrary: img)
  case (Cons i "is")
  from Cons.prems show ?case
    by (auto simp: result_simps Let_def split: if_splits prod.splits dest!: Cons.IH delay_thunks_memory
        intro: same_memory_trans)
qed simp

lemma delay_imports_memory:
  "load_pe_delay_imports u l dir img = Inr img' \<Longrightarrow> same_memory img img'"
  by (auto simp: load_pe_delay_imports_def Let_def split: option.splits if_splits prod.splits
      dest!: delay_descriptors_memory intro: same_memory_trans [OF same_memory_binding(3)])

text \<open>
  C34: when the sections of an image do not overlap, its memory is consistent: a read
  returns at most as many bytes as asked for, a read that starts further on returns the rest
  of the same bytes, a file offset translates back to the address it came from, and loading
  delay imports leaves every read unchanged.
\<close>

theorem image_memory_consistent:
  assumes "wf_image img"
  shows "(bytes_at img a n = Some bs \<longrightarrow> length bs \<le> n)
    \<and> (bytes_at img a n = Some bs \<and> k < length bs \<longrightarrow> bytes_at img (a + of_nat k) (n - k) = Some (drop k bs))
    \<and> (va_to_file_offset img a = Some off \<longrightarrow> file_offset_to_va img off = Some a)
    \<and> (load_pe_delay_imports utf8_error lower dir img = Inr img' \<longrightarrow> bytes_at img' a n = bytes_at img a n)"
proof (intro conjI impI)
  assume "bytes_at img a n = Some bs"
  then obtain i where "bs = take n (drop (unat (a - sec_address (sections img ! i))) (mapped_bytes img ! i))"
    using bytes_at_Some [OF _ assms] by blast
  then show "length bs \<le> n" by simp
next
  assume "bytes_at img a n = Some bs \<and> k < length bs"
  then show "bytes_at img (a + of_nat k) (n - k) = Some (drop k bs)" using bytes_at_suffix [OF assms] by blast
next
  assume "va_to_file_offset img a = Some off"
  then show "file_offset_to_va img off = Some a" by (rule va_file_roundtrip [OF assms])
next
  assume "load_pe_delay_imports utf8_error lower dir img = Inr img'"
  then show "bytes_at img' a n = bytes_at img a n" by (rule same_memory_bytes_at [OF delay_imports_memory])
qed

theorem image_memory_consistent_witness:
  "wf_image (from_shellcode [0x90, 0xC3] X86)
   \<and> bytes_at (from_shellcode [0x90, 0xC3] X86) (SHELLCODE_BASE + 1) 15 = Some [0xC3]"
proof -
  let ?img = "from_shellcode [0x90, 0xC3] X86"
  have wf: "wf_image ?img" by (rule shellcode_wf) (simp add: SHELLCODE_BASE_def)
  have read: "bytes_at ?img SHELLCODE_BASE 16 = Some [0x90, 0xC3]"
    by (simp add: bytes_at_def from_shellcode_def Let_def contains_va_iff checked_sub_u64_def SHELLCODE_BASE_def
        checked_add_def USIZE_def get_range_def)
  have "bytes_at ?img (SHELLCODE_BASE + of_nat 1) (16 - 1) = Some (drop 1 [0x90, 0xC3])"
    using image_memory_consistent [OF wf, of SHELLCODE_BASE 16 "[0x90, 0xC3]" 1] read by simp
  with wf show ?thesis by simp
qed

text \<open>
  A mapped region has the requested size and holds the bytes of the file as far as the
  file and the section's size in it reach, and zeros behind; it is refused exactly when it is
  larger than the limit on mapped bytes.
\<close>

lemma mapped_region_correct:
  assumes "length bytes < USIZE"
  shows "((\<exists>e. mapped_region bytes off fsize msize fmt = Inl e) \<longleftrightarrow> MAX_MAPPED_IMAGE_BYTES < unat msize)
    \<and> (mapped_region bytes off fsize msize fmt = Inr m \<longrightarrow>
         length m = unat msize
         \<and> (\<forall>i < unat msize. m ! i = (if i < unat fsize \<and> unat off + i < length bytes
                                       then bytes ! (unat off + i) else 0)))"
proof -
  let ?c = "min (min (unat fsize) (length bytes - unat off)) (unat msize)"
  have src: "get_range bytes (unat off) (saturating_add (unat off) ?c) = Some (take ?c (drop (unat off) bytes))" if "?c \<noteq> 0"
  proof -
    have "unat off + ?c \<le> length bytes" using that by auto
    then have "saturating_add (unat off) ?c = unat off + ?c" using assms by (simp add: saturating_add_def)
    then show ?thesis using \<open>unat off + ?c \<le> length bytes\<close> by (simp add: get_range_def)
  qed
  have ok: "mapped_region bytes off fsize msize fmt
      = Inr (take ?c (drop (unat off) bytes) @ drop ?c (replicate (unat msize) 0))" if "\<not> MAX_MAPPED_IMAGE_BYTES < unat msize"
    using src that by (cases "?c = 0") (simp_all add: mapped_region_def saturating_sub_def Let_def)
  show ?thesis
  proof (cases "MAX_MAPPED_IMAGE_BYTES < unat msize")
    case True
    then show ?thesis by (simp add: mapped_region_def Let_def)
  next
    case False
    have "length (take ?c (drop (unat off) bytes)) = ?c" by simp
    then have "(take ?c (drop (unat off) bytes) @ drop ?c (replicate (unat msize) 0)) ! i
        = (if i < unat fsize \<and> unat off + i < length bytes then bytes ! (unat off + i) else 0)" if "i < unat msize" for i
      using that by (auto simp: nth_append)
    with False ok [OF False] show ?thesis by auto
  qed
qed

lemma mapped_region_correct_witness:
  "length [1 :: u8, 2, 3] < USIZE \<and> mapped_region [1, 2, 3] 1 8 4 Pe = Inr [2, 3, 0, 0]"
proof -
  have l: "length [1 :: u8, 2, 3] < USIZE" by (simp add: USIZE_def)
  obtain m where m: "mapped_region [1, 2, 3] 1 8 4 Pe = Inr m"
    using mapped_region_correct [OF l, of 1 8 4 Pe] by (cases "mapped_region [1, 2, 3] 1 8 4 Pe") (auto simp: MAX_MAPPED_IMAGE_BYTES_def)
  with mapped_region_correct [OF l, of 1 8 4 Pe m]
  have L: "length m = 4" and N: "\<forall>i < 4. m ! i = (if i < 8 \<and> 1 + i < 3 then [1, 2, 3] ! (1 + i) else 0)" by auto
  have "m = map (\<lambda>i. m ! i) [0, 1, 2, 3]"
    using L by (intro nth_equalityI) (auto simp: less_Suc_eq numeral_eq_Suc)
  also have "\<dots> = [2, 3, 0, 0]" using N by simp
  finally show ?thesis using m l by simp
qed

section \<open>Delay imports of 64-bit images\<close>

lemma checked_add_u64_0 [simp]: "checked_add_u64 a 0 = Some a"
  using unsigned_less [of a] by (simp add: checked_add_u64_def)

lemma read_array_bytes:
  assumes "read_array_at_rva n img rva = Inr bs"
  shows "unat (image_base img) + unat rva < 2 ^ 64" "bytes_at img (image_base img + rva) n = Some bs" "length bs = n"
  using assms by (auto simp: read_array_at_rva_def checked_add_u64_def result_simps split: if_splits)

lemma bytes_at_take:
  assumes "wf_image img" "bytes_at img a n = Some bs" "m \<le> n"
  shows "bytes_at img a m = Some (take m bs)"
proof -
  obtain i where i: "i < length (sections img)" "contains_va (sections img ! i) a"
    "unat (a - sec_address (sections img ! i)) \<le> length (mapped_bytes img ! i)"
    "bs = take n (drop (unat (a - sec_address (sections img ! i))) (mapped_bytes img ! i))"
    using bytes_at_Some [OF assms(2,1)] by blast
  show ?thesis using bytes_at_section [OF assms(1) i(1-3), of m] i(4) assms(3) by (simp add: min_def)
qed

lemma bytes_at_no_wrap:
  assumes "wf_image img" "bytes_at img a n = Some bs" "k < length bs"
  shows "unat a + k < 2 ^ 64"
proof -
  obtain i where i: "i < length (sections img)" "contains_va (sections img ! i) a"
    "bs = take n (drop (unat (a - sec_address (sections img ! i))) (mapped_bytes img ! i))"
    using bytes_at_Some [OF assms(2,1)] by blast
  let ?s = "sections img ! i"
  have "length (mapped_bytes img ! i) \<le> unat (virtual_size ?s)" "unat (sec_address ?s) + unat (virtual_size ?s) \<le> 2 ^ 64"
    using assms(1) i(1) by (auto simp: wf_image_def)
  moreover have "unat (a - sec_address ?s) + k < length (mapped_bytes img ! i)"
    using assms(3) i(3) by (simp add: less_diff_conv add.commute)
  moreover have "sec_address ?s \<le> a" using i(2) by (simp add: contains_va_iff)
  then have "unat a = unat (sec_address ?s) + unat (a - sec_address ?s)"
    by (simp add: unat_sub word_le_nat_alt)
  ultimately show ?thesis by linarith
qed

text \<open>The two halves of an entry of eight bytes, read with four.\<close>

lemma halves_read:
  assumes "wf_image img" "arch img = AArch64" "read_array_at_rva 8 img rva = Inr bs"
  shows "read_pointer_at_rva img rva = Inr (of_nat (le_value (take 4 bs)))"
    "checked_add_u64 rva 4 = Some (rva + 4)"
    "read_pointer_at_rva img (rva + 4) = Inr (of_nat (le_value (drop 4 bs)))"
proof -
  note R = read_array_bytes [OF assms(3)]
  let ?a = "image_base img + rva"
  have "bytes_at img ?a 4 = Some (take 4 bs)" using bytes_at_take [OF assms(1) R(2), of 4] by simp
  then show "read_pointer_at_rva img rva = Inr (of_nat (le_value (take 4 bs)))"
    using R(1,3) assms(2) by (simp add: read_pointer_at_rva_def read_array_at_rva_def checked_add_u64_def)
  have a: "unat ?a = unat (image_base img) + unat rva" using R(1) by (subst unat_add_lem [THEN iffD1]) simp_all
  have w: "unat ?a + 4 < 2 ^ 64" using bytes_at_no_wrap [OF assms(1) R(2), of 4] R(3) by simp
  then have r4: "unat rva + 4 < 2 ^ 64" using a by simp
  then show "checked_add_u64 rva 4 = Some (rva + 4)" by (simp add: checked_add_u64_def)
  have "unat (rva + 4) = unat rva + 4" using r4 by (subst unat_add_lem [THEN iffD1]) simp_all
  then have "unat (image_base img) + unat (rva + 4) < 2 ^ 64" using w a by simp
  moreover have "bytes_at img (?a + of_nat 4) (8 - 4) = Some (drop 4 bs)"
    using bytes_at_suffix [OF assms(1) R(2), of 4] R(3) by simp
  then have "bytes_at img (image_base img + (rva + 4)) 4 = Some (drop 4 bs)" by (simp add: add.assoc)
  ultimately show "read_pointer_at_rva img (rva + 4) = Inr (of_nat (le_value (drop 4 bs)))"
    using R(3) assms(2) by (simp add: read_pointer_at_rva_def read_array_at_rva_def checked_add_u64_def)
qed

lemma delay_thunks_zero:
  assumes "read_pointer_at_rva img thunk_rva = Inr 0" "checked_add_u64 int_rva (of_nat (i * unat (delay_pointer_size img))) = Some thunk_rva"
    "i * unat (delay_pointer_size img) < 2 ^ 64"
  shows "delay_thunks u l dll r int_rva iat_rva i (Suc n) img = Inr (img, True)"
  using assms by simp

lemma same_memory_reads:
  "same_memory img img' \<Longrightarrow> read_pointer_at_rva img' rva = read_pointer_at_rva img rva"
  by (simp add: read_pointer_at_rva_def read_array_at_rva_def same_memory_bytes_at) (simp add: same_memory_def)


definition arm_thunks :: loaded_image where
  "arm_thunks = from_shellcode [1, 0, 0, 0x80, 0, 0, 0, 0, 2, 0, 0, 0x80, 0, 0, 0, 0] AArch64"

lemma arm_thunks_reads:
  "wf_image arm_thunks" "arch arm_thunks = AArch64" "image_base arm_thunks = SHELLCODE_BASE"
  "read_array_at_rva 8 arm_thunks 0 = Inr [1, 0, 0, 0x80, 0, 0, 0, 0]"
proof -
  show "wf_image arm_thunks" unfolding arm_thunks_def by (rule shellcode_wf) (simp add: SHELLCODE_BASE_def)
  show "arch arm_thunks = AArch64" "image_base arm_thunks = SHELLCODE_BASE"
    by (simp_all add: arm_thunks_def from_shellcode_def Let_def)
  show "read_array_at_rva 8 arm_thunks 0 = Inr [1, 0, 0, 0x80, 0, 0, 0, 0]"
    by (simp add: read_array_at_rva_def arm_thunks_def from_shellcode_def Let_def bytes_at_def contains_va_iff
        checked_sub_u64_def SHELLCODE_BASE_def checked_add_def USIZE_def get_range_def)
qed

lemma arm_thunks_loop:
  "\<exists>img'. delay_thunks (\<lambda>_. []) (\<lambda>s. s) ''x'' True 0 0x40 0 (Suc (Suc 0)) arm_thunks = Inr (img', True)"
proof -
  note H = halves_read [OF arm_thunks_reads(1,2,4)]
  have v: "read_pointer_at_rva arm_thunks 0 = Inr 0x80000001" "read_pointer_at_rva arm_thunks 4 = Inr 0"
    using H by simp_all
  have p: "delay_pointer_size i = 4" "read_pointer_at_rva i 4 = Inr 0" if "same_memory arm_thunks i" for i
    using that arm_thunks_reads(2) v(2) same_memory_reads [OF that] by (simp_all add: delay_pointer_size_def same_memory_def)
  have one: "char_of (49 :: nat) = CHR ''1''" by code_simp
  have symbol: "delay_symbol (\<lambda>_. []) arm_thunks ''x'' True 0x80000001 = Inr ''#1''"
    by (simp add: delay_symbol_def p resolve_pe_ordinal_def eq_ignore_ascii_case_def to_ascii_lowercase_def Let_def
        ends_with_def suffix_def show_radix.simps digit_char_def one)
  show ?thesis
    using v(1) symbol arm_thunks_reads(3)
    by (simp add: p checked_add_u64_def SHELLCODE_BASE_def Let_def same_memory_trans [OF same_memory_binding(1) same_memory_binding(2)])
qed


end
