(* ===== verification/Macho.thy ===== *)
theory Macho
  imports Image
begin

text \<open>
  \<^verbatim>\<open>capa-x/src/extract/loader/image.rs\<close>: the selection of an architecture from a fat Mach-O
  file, the checks of load commands and segments, and the walk over chained fixups. The
  constants are those of the Mach-O format; the library's table of architecture names is the
  parameter \<open>arch_names\<close>, and the load commands it parses are given by their offsets and sizes.
\<close>

unbundle bit_operations_syntax

section \<open>Architectures\<close>

definition FAT_MAGIC :: nat where "FAT_MAGIC = 0xcafebabe"
definition MH_MAGIC_64 :: nat where "MH_MAGIC_64 = 0xfeedfacf"
definition MH_CIGAM_64 :: nat where "MH_CIGAM_64 = 0xcffaedfe"
definition SIZEOF_FAT_ARCH :: nat where "SIZEOF_FAT_ARCH = 20"

definition macho_cputype_name :: "nat \<Rightarrow> string" where
  "macho_cputype_name cputype =
     (if cputype = 0x01000007 then ''x86_64''
      else if cputype = 0x0100000c then ''arm64''
      else if cputype = 12 then ''arm''
      else if cputype = 7 then ''i386''
      else ''unknown'')"

definition SUPPORTED_MACHO_ARCHES :: "string list" where
  "SUPPORTED_MACHO_ARCHES = [''x86_64'', ''arm64'', ''arm64e'']"

type_synonym arch_names = "nat \<Rightarrow> nat \<Rightarrow> string option"

definition macho_arch_name :: "arch_names \<Rightarrow> nat \<Rightarrow> nat \<Rightarrow> string" where
  "macho_arch_name arch_names cputype cpusubtype =
     (case arch_names cputype cpusubtype of None \<Rightarrow> macho_cputype_name cputype | Some n \<Rightarrow> n)"

text \<open>\<^verbatim>\<open>cpusubtype & !CPU_SUBTYPE_MASK\<close>: the byte of feature flags is cleared.\<close>

definition clear_subtype_flags :: "nat \<Rightarrow> nat" where
  "clear_subtype_flags n = n mod 2 ^ 24"

definition header_word :: "u8 list \<Rightarrow> nat \<Rightarrow> nat \<Rightarrow> image_error + nat" where
  "header_word bytes off magic_be =
     (case get_range bytes off (off + 4) of
        None \<Rightarrow> Inl (Macho_Error ''truncated Mach-O header'')
      | Some b \<Rightarrow> Inr (if magic_be = MH_CIGAM_64 then le_value b else be_value b))"

definition peek_macho_cputype :: "u8 list \<Rightarrow> nat \<Rightarrow> image_error + nat" where
  "peek_macho_cputype bytes magic_be = header_word bytes 4 magic_be"

definition peek_macho_cpusubtype :: "u8 list \<Rightarrow> nat \<Rightarrow> image_error + nat" where
  "peek_macho_cpusubtype bytes magic_be = map_ok clear_subtype_flags (header_word bytes 8 magic_be)"

record fat_arch =
  fa_cputype :: nat
  fa_cpusubtype :: nat
  fa_offset :: nat
  fa_size :: nat
  fa_align :: nat

definition fat_field :: "u8 list \<Rightarrow> nat \<Rightarrow> image_error + nat" where
  "fat_field bytes off =
     (case get_range bytes off (saturating_add off 4) of
        Some b \<Rightarrow> if length b = 4 then Inr (be_value b) else Inl (Macho_Error ''truncated fat_arch entry'')
      | None \<Rightarrow> Inl (Macho_Error ''truncated fat_arch entry''))"

definition read_fat_arch :: "u8 list \<Rightarrow> nat \<Rightarrow> image_error + fat_arch" where
  "read_fat_arch bytes offset =
     rbind (fat_field bytes offset) (\<lambda>cputype.
     rbind (fat_field bytes (saturating_add offset 4)) (\<lambda>cpusubtype.
     rbind (fat_field bytes (saturating_add offset 8)) (\<lambda>off.
     rbind (fat_field bytes (saturating_add offset 12)) (\<lambda>size'.
     rbind (fat_field bytes (saturating_add offset 16)) (\<lambda>align'.
       Inr \<lparr>fa_cputype = cputype, fa_cpusubtype = cpusubtype, fa_offset = off, fa_size = size', fa_align = align'\<rparr>)))))"

text \<open>The text of an error inside another one, \<^verbatim>\<open>{error}\<close>, for the errors of \<^verbatim>\<open>read_fat_arch\<close>.\<close>

definition macho_error_text :: "image_error \<Rightarrow> string" where
  "macho_error_text e = (case e of Macho_Error s \<Rightarrow> ''parsing Mach-O image: '' @ s | _ \<Rightarrow> [])"

text \<open>One entry of the fat header with its bounds check.\<close>

definition fat_entry :: "arch_names \<Rightarrow> u8 list \<Rightarrow> nat \<Rightarrow> image_error + (fat_arch \<times> string)" where
  "fat_entry arch_names bytes index =
     (let offset = saturating_add 8 (min (index * SIZEOF_FAT_ARCH) (USIZE - 1))
      in rbind (map_err (\<lambda>e. Macho_Error (''parsing fat_arch['' @ show_nat index @ '']: '' @ macho_error_text e))
                  (read_fat_arch bytes offset)) (\<lambda>entry.
         if \<not> (case checked_add (fa_offset entry) (fa_size entry) of None \<Rightarrow> False | Some e \<Rightarrow> e \<le> length bytes) then
           Inl (Macho_Error (''fat_arch['' @ show_nat index @ ''] slice ['' @ hex_text (fa_offset entry) @ '', +''
                  @ hex_text (fa_size entry) @ '') is past the end of the file''))
         else
           Inr (entry, macho_arch_name arch_names (fa_cputype entry) (clear_subtype_flags (fa_cpusubtype entry)))))"

definition select_fat_macho_slice ::
  "arch_names \<Rightarrow> u8 list \<Rightarrow> string option \<Rightarrow> image_error + u8 list \<times> string" where
  "select_fat_macho_slice arch_names bytes wanted =
     (if length bytes < 8 then Inl (Macho_Error ''file is too short for a fat Mach-O header'')
      else
        let nfat_arch = be_value (take 4 (drop 4 bytes))
        in rbind (ok_or (Macho_Error ''fat_arch count overflows'') (checked_mul nfat_arch SIZEOF_FAT_ARCH)) (\<lambda>arches_len.
           if saturating_sub (length bytes) 8 < arches_len then
             Inl (Macho_Error (''fat header declares '' @ show_nat nfat_arch
                    @ '' architectures, which does not fit in the file''))
           else
             rbind (traverse (fat_entry arch_names bytes) [0..<nfat_arch]) (\<lambda>entries.
             let selected = (case wanted of
                    Some requested \<Rightarrow>
                      if requested \<in> set SUPPORTED_MACHO_ARCHES then List.find (\<lambda>(e, name). name = requested) entries
                      else None
                  | None \<Rightarrow> List.find (\<lambda>(e, name). name \<in> set SUPPORTED_MACHO_ARCHES) entries)
             in case selected of
                  None \<Rightarrow>
                    Inl (NoCompatibleMachoSlice (case wanted of None \<Rightarrow> ''auto'' | Some r \<Rightarrow> r) (map snd entries))
                | Some (entry, resolved_name) \<Rightarrow>
                    rbind (ok_or (Macho_Error ''fat_arch offset+size overflows'')
                             (checked_add (fa_offset entry) (fa_size entry))) (\<lambda>end'.
                    rbind (ok_or (Macho_Error (''the '' @ resolved_name @ '' fat_arch slice ['' @ hex_text (fa_offset entry)
                                    @ '', '' @ hex_text end' @ '') is past the end of the file''))
                             (get_range bytes (fa_offset entry) end')) (\<lambda>slice'.
                      Inr (slice', resolved_name))))))"

definition select_macho_slice ::
  "arch_names \<Rightarrow> u8 list \<Rightarrow> string option \<Rightarrow> image_error + u8 list \<times> string" where
  "select_macho_slice arch_names bytes wanted =
     (if length bytes < 4 then Inl (Macho_Error ''file is too short for a Mach-O magic number'')
      else
        let magic_be = be_value (take 4 bytes)
        in if magic_be = FAT_MAGIC then select_fat_macho_slice arch_names bytes wanted
           else if magic_be = MH_MAGIC_64 \<or> magic_be = MH_CIGAM_64 then
             rbind (peek_macho_cputype bytes magic_be) (\<lambda>cputype.
             rbind (peek_macho_cpusubtype bytes magic_be) (\<lambda>cpusubtype.
             let name = macho_arch_name arch_names cputype cpusubtype
             in if name \<notin> set SUPPORTED_MACHO_ARCHES \<or> (case wanted of None \<Rightarrow> False | Some requested \<Rightarrow> requested \<noteq> name) then
                  Inl (NoCompatibleMachoSlice (case wanted of None \<Rightarrow> ''auto'' | Some r \<Rightarrow> r) [name])
                else Inr (bytes, name)))
           else Inl UnsupportedFormat)"

section \<open>Load commands and segments\<close>

definition MACHO_HEADER_64_SIZE :: nat where
  "MACHO_HEADER_64_SIZE = 32"

text \<open>The loop over the commands, given as offset and size; \<open>expected\<close> is the end of the last one.\<close>

fun load_commands_loop :: "nat \<Rightarrow> (nat \<times> nat) list \<Rightarrow> nat \<Rightarrow> image_error + nat" where
  "load_commands_loop limit [] expected = Inr expected"
| "load_commands_loop limit ((offset, size') # cmds) expected =
     (if size' = 0 then Inl (Macho_Error (''load command at offset '' @ hex_text offset @ '' has cmdsize 0''))
      else if size' mod 4 \<noteq> 0 then
        Inl (Macho_Error (''load command at offset '' @ hex_text offset @ '' has unaligned cmdsize '' @ show_nat size'))
      else if offset \<noteq> expected then
        Inl (Macho_Error (''load command at offset '' @ hex_text offset
               @ '' does not immediately follow the previous command (expected '' @ hex_text expected @ '')''))
      else
        rbind (ok_or (Macho_Error ''load command offset+cmdsize overflow'') (checked_add offset size')) (\<lambda>end'.
          if limit < end' then
            Inl (Macho_Error (''load command at offset '' @ hex_text offset @ '' ends at '' @ hex_text end'
                   @ '', past the sizeofcmds boundary '' @ hex_text limit))
          else load_commands_loop limit cmds end'))"

definition validate_macho_load_commands :: "u32 \<Rightarrow> (nat \<times> nat) list \<Rightarrow> u8 list \<Rightarrow> image_error + unit" where
  "validate_macho_load_commands sizeofcmds cmds slice' =
     rbind (ok_or (Macho_Error ''sizeofcmds overflow'') (checked_add MACHO_HEADER_64_SIZE (unat sizeofcmds))) (\<lambda>limit.
     rbind (load_commands_loop limit cmds MACHO_HEADER_64_SIZE) (\<lambda>_.
       if length slice' < limit then
         Inl (Macho_Error ''file is shorter than the declared load-command region'')
       else Inr ()))"

text \<open>A segment by its name, file offset and file size; the other three fields are not read.\<close>

fun overlap_with :: "string \<times> u64 \<times> u64 \<Rightarrow> u64 \<Rightarrow> (string \<times> u64 \<times> u64) list \<Rightarrow> image_error + unit" where
  "overlap_with a end_a [] = Inr ()"
| "overlap_with (name_a, off_a, size_a) end_a ((name_b, off_b, size_b) # rest) =
     (if size_b = 0 then overlap_with (name_a, off_a, size_a) end_a rest
      else
        rbind (ok_or (Macho_Error (''segment '' @ name_b @ '' fileoff+filesize overflows''))
                 (checked_add_u64 off_b size_b)) (\<lambda>end_b.
          if off_a < end_b \<and> off_b < end_a then
            Inl (Macho_Error (''segments '' @ name_a @ '' and '' @ name_b @ '' have overlapping file ranges''))
          else overlap_with (name_a, off_a, size_a) end_a rest))"

fun validate_no_overlapping_macho_segments :: "(string \<times> u64 \<times> u64) list \<Rightarrow> image_error + unit" where
  "validate_no_overlapping_macho_segments [] = Inr ()"
| "validate_no_overlapping_macho_segments ((name_a, off_a, size_a) # rest) =
     (if size_a = 0 then validate_no_overlapping_macho_segments rest
      else
        rbind (ok_or (Macho_Error (''segment '' @ name_a @ '' fileoff+filesize overflows''))
                 (checked_add_u64 off_a size_a)) (\<lambda>end_a.
        rbind (overlap_with (name_a, off_a, size_a) end_a rest) (\<lambda>_.
          validate_no_overlapping_macho_segments rest)))"

section \<open>Imports\<close>

definition rsplit_slash :: "string \<Rightarrow> string" where
  "rsplit_slash path = (case rfind_char CHR ''/'' path of None \<Rightarrow> path | Some i \<Rightarrow> drop (i + 1) path)"

definition macho_dylib_short_name :: "string \<Rightarrow> string" where
  "macho_dylib_short_name path =
     (let base = rsplit_slash path;
          base = (case strip_suffix ''.dylib'' base of None \<Rightarrow> base | Some b \<Rightarrow> b)
      in (case strip_suffix ''.framework'' base of None \<Rightarrow> base | Some b \<Rightarrow> b))"

definition register_macho_import :: "loaded_image \<Rightarrow> u64 \<Rightarrow> string \<Rightarrow> string \<Rightarrow> loaded_image" where
  "register_macho_import img address dylib symbol =
     (let symbol = (case strip_prefix ''_'' symbol of None \<Rightarrow> symbol | Some s \<Rightarrow> s);
          dylib = macho_dylib_short_name dylib;
          img = add_external_binding img address [symbol]
      in img\<lparr>import_locations := (import_locations img)(address \<mapsto> dylib @ ''.'' @ symbol)\<rparr>)"

definition macho_chained_lib_name :: "string list \<Rightarrow> u8 \<Rightarrow> string" where
  "macho_chained_lib_name libs lib_ordinal =
     (if lib_ordinal \<le> 0xF0 then
        (if unat lib_ordinal < length libs then libs ! unat lib_ordinal
         else ''ordinal_'' @ show_nat (unat lib_ordinal))
      else if lib_ordinal = 0xFF then ''main_executable''
      else if lib_ordinal = 0xFE then ''flat_lookup''
      else if lib_ordinal = 0xFD then ''weak_lookup''
      else ''special_'' @ hex_text (unat lib_ordinal))"

definition read_macho :: "nat \<Rightarrow> u8 list \<Rightarrow> nat \<Rightarrow> string \<Rightarrow> image_error + nat" where
  "read_macho w data offset context' =
     (case get_range data offset (saturating_add offset w) of
        Some b \<Rightarrow> if length b = w then Inr (le_value b) else Inl (Macho_Error (''truncated chained-fixups '' @ context'))
      | None \<Rightarrow> Inl (Macho_Error (''truncated chained-fixups '' @ context')))"

definition read_macho_u16 :: "u8 list \<Rightarrow> nat \<Rightarrow> string \<Rightarrow> image_error + nat" where
  "read_macho_u16 = read_macho 2"

definition read_macho_u32 :: "u8 list \<Rightarrow> nat \<Rightarrow> string \<Rightarrow> image_error + nat" where
  "read_macho_u32 = read_macho 4"

definition read_macho_u64 :: "u8 list \<Rightarrow> nat \<Rightarrow> string \<Rightarrow> image_error + nat" where
  "read_macho_u64 = read_macho 8"

definition terminated_text :: "u8 list \<Rightarrow> nat \<Rightarrow> string option" where
  "terminated_text data start =
     (if start \<le> length data \<and> 0 \<in> set (drop start data) then from_utf8 (until_nul (drop start data)) else None)"

definition resolve_macho_chained_import ::
  "u8 list \<Rightarrow> string list \<Rightarrow> nat \<Rightarrow> nat \<Rightarrow> nat \<Rightarrow> image_error + string \<times> string" where
  "resolve_macho_chained_import chain_data libs imports_offset symbols_offset ordinal =
     rbind (ok_or (Macho_Error ''chained import ordinal overflows'')
              (Option.bind (checked_mul ordinal 4) (checked_add imports_offset))) (\<lambda>entry_offset.
     rbind (read_macho_u32 chain_data entry_offset ''import entry'') (\<lambda>v.
       let lib_ordinal = of_nat (v mod 2 ^ 8);
           name_offset = v div 2 ^ 9
       in rbind (ok_or (Macho_Error ''chained import name offset overflows'')
                   (checked_add symbols_offset name_offset)) (\<lambda>name_start.
          rbind (ok_or (Macho_Error ''chained import name is not a terminated UTF-8 string'')
                   (terminated_text chain_data name_start)) (\<lambda>name.
            Inr (macho_chained_lib_name libs lib_ordinal, name)))))"

section \<open>Chained fixups\<close>

definition MAX_MACHO_FIXUP_SEGMENTS :: nat where
  "MAX_MACHO_FIXUP_SEGMENTS = 256"

definition MAX_MACHO_CHAIN_STEPS :: nat where
  "MAX_MACHO_CHAIN_STEPS = 1000000"

type_synonym macho_bind = "u64 \<times> string \<times> string"

record fixup_tables =
  ft_data :: "u8 list"
  ft_libs :: "string list"
  ft_imports :: nat
  ft_symbols :: nat

text \<open>The binding of one entry of a chain, if it is one that resolves.\<close>

definition bind_of :: "fixup_tables \<Rightarrow> u64 \<Rightarrow> u64 \<Rightarrow> macho_bind list" where
  "bind_of t va v =
     (if drop_bit 63 v AND 1 = 1 then
        (case resolve_macho_chained_import (ft_data t) (ft_libs t) (ft_imports t) (ft_symbols t)
                (unat (v AND 0x00FFFFFF)) of
           Inr (dylib, symbol) \<Rightarrow> [(va, dylib, symbol)]
         | Inl _ \<Rightarrow> [])
      else [])"

function chain_walk ::
  "loaded_image \<Rightarrow> fixup_tables \<Rightarrow> u64 \<Rightarrow> nat \<Rightarrow> macho_bind list \<Rightarrow> image_error + nat \<times> macho_bind list" where
  "chain_walk img t va steps binds =
     (let steps = saturating_add steps 1
      in if MAX_MACHO_CHAIN_STEPS < steps then
           Inl (Macho_Error ''chained-fixups walk exceeded the step limit'')
         else
           (case bytes_at img va 8 of
              None \<Rightarrow> Inr (steps, binds)
            | Some raw' \<Rightarrow>
                if length raw' \<noteq> 8 then Inr (steps, binds)
                else
                  let v = of_nat (le_value raw');
                      next' = drop_bit 51 v AND 0xFFF;
                      binds = binds @ bind_of t va v
                  in if next' = 0 then Inr (steps, binds)
                     else chain_walk img t (va + next' * 4) steps binds))"
  by pat_completeness auto
termination
  by (relation "measure (\<lambda>(img, t, va, steps, binds). MAX_MACHO_CHAIN_STEPS - steps)")
     (auto simp: saturating_add_def USIZE_def MAX_MACHO_CHAIN_STEPS_def)

declare chain_walk.simps [simp del]

definition fixup_page ::
  "loaded_image \<Rightarrow> fixup_tables \<Rightarrow> nat \<Rightarrow> nat \<Rightarrow> nat \<Rightarrow> nat \<Rightarrow> nat \<times> macho_bind list \<Rightarrow> image_error + nat \<times> macho_bind list" where
  "fixup_page img t seg_start segment_offset page_size page st =
     (let page_start_field = saturating_add (saturating_add seg_start 22) (min (page * 2) (USIZE - 1))
      in rbind (read_macho_u16 (ft_data t) page_start_field ''starts_in_segment.page_start'') (\<lambda>page_start.
         if page_start = 0xFFFF then Inr st
         else
           chain_walk img t
             (image_base img + of_nat segment_offset + of_nat page * of_nat page_size + of_nat page_start)
             (fst st) (snd st)))"

definition fixup_segment ::
  "loaded_image \<Rightarrow> fixup_tables \<Rightarrow> nat \<Rightarrow> nat \<Rightarrow> nat \<times> macho_bind list \<Rightarrow> image_error + nat \<times> macho_bind list" where
  "fixup_segment img t starts_base seg_index st =
     (let seg_info_field = saturating_add (saturating_add starts_base 4) (min (seg_index * 4) (USIZE - 1))
      in rbind (read_macho_u32 (ft_data t) seg_info_field ''starts_in_image.seg_info_offset'') (\<lambda>seg_info_offset.
         if seg_info_offset = 0 then Inr st
         else
           let seg_start = saturating_add starts_base seg_info_offset
           in rbind (read_macho_u16 (ft_data t) (saturating_add seg_start 4) ''starts_in_segment.page_size'') (\<lambda>page_size.
              rbind (read_macho_u16 (ft_data t) (saturating_add seg_start 6) ''starts_in_segment.pointer_format'') (\<lambda>pointer_format.
              rbind (read_macho_u64 (ft_data t) (saturating_add seg_start 8) ''starts_in_segment.segment_offset'') (\<lambda>segment_offset.
              rbind (read_macho_u16 (ft_data t) (saturating_add seg_start 20) ''starts_in_segment.page_count'') (\<lambda>page_count.
                if page_size = 0 \<or> pointer_format \<notin> {2, 6} then Inr st
                else fold_result (fixup_page img t seg_start segment_offset page_size) [0..<page_count] st))))))"

definition parse_macho_chained_fixups ::
  "loaded_image \<Rightarrow> u8 list \<Rightarrow> string list \<Rightarrow> u32 \<Rightarrow> u32 \<Rightarrow> image_error + macho_bind list" where
  "parse_macho_chained_fixups img slice' libs dataoff datasize =
     rbind (ok_or (Macho_Error ''chained-fixups payload size overflows'') (checked_add (unat dataoff) (unat datasize))) (\<lambda>end'.
     rbind (ok_or (Macho_Error ''LC_DYLD_CHAINED_FIXUPS payload is not file-backed'')
              (get_range slice' (unat dataoff) end')) (\<lambda>chain_data.
     rbind (read_macho_u32 chain_data 4 ''header.starts_offset'') (\<lambda>starts_base.
     rbind (read_macho_u32 chain_data 8 ''header.imports_offset'') (\<lambda>imports_offset.
     rbind (read_macho_u32 chain_data 12 ''header.symbols_offset'') (\<lambda>symbols_offset.
     rbind (read_macho_u32 chain_data 20 ''header.imports_format'') (\<lambda>imports_format.
       if imports_format \<noteq> 1 then Inr []
       else
         rbind (read_macho_u32 chain_data starts_base ''starts_in_image.seg_count'') (\<lambda>seg_count.
           if MAX_MACHO_FIXUP_SEGMENTS < seg_count then
             Inl (Macho_Error (''chained-fixups seg_count '' @ show_nat seg_count @ '' exceeds limit ''
                    @ show_nat MAX_MACHO_FIXUP_SEGMENTS))
           else
             let t = \<lparr>ft_data = chain_data, ft_libs = libs, ft_imports = imports_offset, ft_symbols = symbols_offset\<rparr>
             in map_ok snd (fold_result (fixup_segment img t starts_base) [0..<seg_count] (0, [])))))))))"

end
