(* ===== verification/Macho_Props.thy ===== *)
theory Macho_Props
  imports Macho
begin

text \<open>
  The architecture slice of a Mach-O file is the first acceptable one of the header and lies
  within the file; the two structural checks accept exactly the well-formed inputs; and the
  walk over chained fixups ends within its step limit and binds only mapped pointers.
\<close>

section \<open>Slices\<close>

text \<open>An entry is acceptable if it is supported and is the requested one, if one is requested.\<close>

definition acceptable :: "string option \<Rightarrow> string \<Rightarrow> bool" where
  "acceptable wanted name \<longleftrightarrow> name \<in> set SUPPORTED_MACHO_ARCHES \<and> (\<forall>r. wanted = Some r \<longrightarrow> name = r)"

lemma fat_selection:
  "(case wanted of
      Some requested \<Rightarrow>
        if requested \<in> set SUPPORTED_MACHO_ARCHES then List.find (\<lambda>(e, name). name = requested) entries else None
    | None \<Rightarrow> List.find (\<lambda>(e, name). name \<in> set SUPPORTED_MACHO_ARCHES) entries)
   = List.find (\<lambda>(e, name). acceptable wanted name) entries"
proof (cases wanted)
  case None
  then show ?thesis by (simp add: acceptable_def)
next
  case (Some r)
  have "acceptable (Some r) name \<longleftrightarrow> r \<in> set SUPPORTED_MACHO_ARCHES \<and> name = r" for name
    by (auto simp: acceptable_def)
  then have "List.find (\<lambda>(e, name). acceptable wanted name) entries
      = List.find (\<lambda>(e, name). r \<in> set SUPPORTED_MACHO_ARCHES \<and> name = r) entries"
    using Some by (intro find_cong) auto
  moreover have "List.find (\<lambda>(e, name). False) entries = None" by (simp add: find_None_iff)
  ultimately show ?thesis using Some by (cases "r \<in> set SUPPORTED_MACHO_ARCHES") simp_all
qed

lemma fat_slice_cases:
  assumes "select_fat_macho_slice names bytes wanted = Inr (sl, name)"
  obtains n entries entry where "traverse (fat_entry names bytes) [0..<n] = Inr entries"
    "n = be_value (take 4 (drop 4 bytes))"
    "List.find (\<lambda>(e, name). acceptable wanted name) entries = Some (entry, name)"
    "fa_offset entry + fa_size entry \<le> length bytes"
    "sl = take (fa_size entry) (drop (fa_offset entry) bytes)"
  using assms unfolding select_fat_macho_slice_def fat_selection Let_def
  by (auto simp: result_simps get_range_def split: if_splits option.splits)

text \<open>
  The selected part of a Mach-O file lies within it, its architecture is one of the
  supported ones and the requested one if there is a request; in a fat file it is the first
  acceptable entry of the header, which depends on nothing but the file and the request.
\<close>

lemma macho_slice_selected:
  assumes "select_macho_slice names bytes wanted = Inr (sl, name)"
  shows "acceptable wanted name \<and> sublist sl bytes
    \<and> (be_value (take 4 bytes) = FAT_MAGIC \<longrightarrow>
        (\<exists>entries k. traverse (fat_entry names bytes) [0..<be_value (take 4 (drop 4 bytes))] = Inr entries
           \<and> k < length entries \<and> snd (entries ! k) = name
           \<and> sl = take (fa_size (fst (entries ! k))) (drop (fa_offset (fst (entries ! k))) bytes)
           \<and> (\<forall>j < k. \<not> acceptable wanted (snd (entries ! j)))))"
proof (cases "be_value (take 4 bytes) = FAT_MAGIC")
  case True
  then have "select_fat_macho_slice names bytes wanted = Inr (sl, name)"
    using assms by (simp add: select_macho_slice_def split: if_splits)
  then obtain n entries entry where E: "traverse (fat_entry names bytes) [0..<n] = Inr entries"
    "n = be_value (take 4 (drop 4 bytes))"
    "List.find (\<lambda>(e, name). acceptable wanted name) entries = Some (entry, name)"
    "sl = take (fa_size entry) (drop (fa_offset entry) bytes)" by (rule fat_slice_cases)
  from E(3) obtain k where k: "k < length entries" "acceptable wanted name" "entries ! k = (entry, name)"
    "\<forall>j < k. \<not> acceptable wanted (snd (entries ! j))"
    by (auto simp: find_Some_iff case_prod_beta) (metis prod.sel)
  have "sublist sl bytes" unfolding E(4) by (metis sublist_drop sublist_take sublist_order.order_trans)
  with E k show ?thesis by auto
next
  case False
  then have "sl = bytes" "acceptable wanted name"
    using assms by (auto simp: select_macho_slice_def acceptable_def Let_def result_simps split: if_splits option.splits)
  with False show ?thesis by simp
qed

lemma macho_slice_selected_witness:
  "select_macho_slice (\<lambda>_ _. None)
      [0xca, 0xfe, 0xba, 0xbe, 0, 0, 0, 1, 1, 0, 0, 7, 0, 0, 0, 3, 0, 0, 0, 28, 0, 0, 0, 2, 0, 0, 0, 0, 0xcf, 0xfa] None
     = Inr ([0xcf, 0xfa], ''x86_64'')
   \<and> acceptable None ''x86_64''"
proof -
  let ?file = "[0xca, 0xfe, 0xba, 0xbe, 0, 0, 0, 1, 1, 0, 0, 7, 0, 0, 0, 3, 0, 0, 0, 28, 0, 0, 0, 2, 0, 0, 0, 0, 0xcf, 0xfa] :: u8 list"
  have "select_macho_slice (\<lambda>_ _. None) ?file None = Inr ([0xcf, 0xfa], ''x86_64'')"
    by (simp add: select_macho_slice_def select_fat_macho_slice_def fat_entry_def read_fat_arch_def fat_field_def
        macho_arch_name_def macho_cputype_name_def clear_subtype_flags_def SUPPORTED_MACHO_ARCHES_def FAT_MAGIC_def
        SIZEOF_FAT_ARCH_def checked_mul_def checked_add_def saturating_add_def saturating_sub_def USIZE_def get_range_def
        be_value_def result_simps)
  with macho_slice_selected [OF this] show ?thesis by simp
qed

section \<open>Structural checks\<close>

definition disjoint_in_file :: "string \<times> u64 \<times> u64 \<Rightarrow> string \<times> u64 \<times> u64 \<Rightarrow> bool" where
  "disjoint_in_file a b \<longleftrightarrow>
     (\<forall>x. \<not> (unat (fst (snd a)) \<le> x \<and> x < unat (fst (snd a)) + unat (snd (snd a))
            \<and> unat (fst (snd b)) \<le> x \<and> x < unat (fst (snd b)) + unat (snd (snd b))))"

definition no_overflow :: "string \<times> u64 \<times> u64 \<Rightarrow> bool" where
  "no_overflow a \<longleftrightarrow> snd (snd a) = 0 \<or> unat (fst (snd a)) + unat (snd (snd a)) < 2 ^ 64"

lemma range_overlap:
  fixes oa sa ob sb :: nat
  assumes "0 < sa" "0 < sb"
  shows "(\<forall>x. \<not> (oa \<le> x \<and> x < oa + sa \<and> ob \<le> x \<and> x < ob + sb)) \<longleftrightarrow> \<not> (oa < ob + sb \<and> ob < oa + sa)"
proof -
  have "\<exists>x. oa \<le> x \<and> x < oa + sa \<and> ob \<le> x \<and> x < ob + sb" if "oa < ob + sb" "ob < oa + sa"
    using assms that by (intro exI [of _ "max oa ob"]) auto
  then show ?thesis by fastforce
qed

lemma unat_sum: "unat (a :: u64) + unat b < 2 ^ 64 \<Longrightarrow> unat (a + b) = unat a + unat b"
  by (subst unat_add_lem [THEN iffD1]) simp_all

lemma disjoint_in_file_iff:
  assumes "unat oa + unat sa < 2 ^ 64" "unat ob + unat sb < 2 ^ 64" "sa \<noteq> 0" "sb \<noteq> 0"
  shows "disjoint_in_file (na, oa, sa) (nb, ob, sb) \<longleftrightarrow> \<not> (oa < ob + sb \<and> ob < oa + sa)"
proof -
  have "0 < unat sa" "0 < unat sb" using assms(3,4) by (simp_all add: unat_gt_0)
  from range_overlap [OF this, of "unat oa" "unat ob"] show ?thesis
    by (simp add: disjoint_in_file_def word_less_nat_alt unat_sum [OF assms(1)] unat_sum [OF assms(2)])
qed

lemma disjoint_empty: "snd (snd a) = 0 \<or> snd (snd b) = 0 \<Longrightarrow> disjoint_in_file a b"
  by (auto simp: disjoint_in_file_def)

lemma overlap_with_ok:
  assumes "unat oa + unat sa < 2 ^ 64" "sa \<noteq> 0"
  shows "overlap_with (na, oa, sa) (oa + sa) rest = Inr () \<longleftrightarrow>
    (\<forall>b \<in> set rest. no_overflow b \<and> disjoint_in_file (na, oa, sa) b)"
proof (induction rest)
  case (Cons b rest)
  obtain nb ob sb where b: "b = (nb, ob, sb)" by (cases b)
  show ?case
  proof (cases "sb = 0")
    case True
    then show ?thesis using Cons b by (simp add: no_overflow_def disjoint_empty)
  next
    case False
    then show ?thesis
      using Cons b assms disjoint_in_file_iff [OF assms(1) _ assms(2), of ob sb na nb]
      by (auto simp: result_simps checked_add_u64_Some no_overflow_def split: if_splits)
  qed
qed simp

lemma validate_segments_ok:
  "validate_no_overlapping_macho_segments segs = Inr () \<longleftrightarrow>
     (\<forall>a \<in> set segs. no_overflow a) \<and> sorted_wrt disjoint_in_file segs"
proof (induction segs)
  case (Cons a segs)
  obtain na oa sa where a: "a = (na, oa, sa)" by (cases a)
  show ?case
  proof (cases "sa = 0")
    case True
    then show ?thesis using Cons a by (auto simp: no_overflow_def disjoint_empty)
  next
    case False
    then show ?thesis
      using Cons a overlap_with_ok [OF _ False, of oa na segs]
      by (auto simp: result_simps checked_add_u64_Some no_overflow_def)
  qed
qed simp

text \<open>Commands that follow each other without a gap from an offset to an end.\<close>

fun tiles :: "nat \<Rightarrow> (nat \<times> nat) list \<Rightarrow> nat \<Rightarrow> bool" where
  "tiles start [] end' \<longleftrightarrow> start = end'"
| "tiles start ((offset, size') # cmds) end' \<longleftrightarrow>
     offset = start \<and> 0 < size' \<and> size' mod 4 = 0 \<and> tiles (start + size') cmds end'"

lemma tiles_le: "tiles start cmds e \<Longrightarrow> start \<le> e"
  by (induction start cmds e rule: tiles.induct) auto

lemma load_commands_loop_ok:
  assumes "limit < USIZE" "expected \<le> limit"
  shows "load_commands_loop limit cmds expected = Inr e \<longleftrightarrow> tiles expected cmds e \<and> e \<le> limit"
  using assms(2)
proof (induction cmds arbitrary: expected)
  case Nil
  then show ?case by auto
next
  case (Cons c cmds)
  obtain offset size' where c: "c = (offset, size')" by (cases c)
  show ?case
  proof (cases "expected + size' \<le> limit")
    case True
    then show ?thesis
      using Cons.IH [OF True] assms(1) c by (auto simp: result_simps)
  next
    case False
    then have "\<not> (tiles (expected + size') cmds e \<and> e \<le> limit)" using tiles_le [of "expected + size'" cmds e] by auto
    with False show ?thesis using c by (auto simp: result_simps split: if_splits)
  qed
qed

text \<open>
  The check of the load commands accepts exactly the lists of non-empty aligned commands
  that follow each other without a gap from the header on and end within the declared
  region, which lies in the file; the check of the segments accepts exactly the lists whose
  file ranges do not overflow and are pairwise disjoint.
\<close>

lemma macho_checks_exact:
  "(validate_macho_load_commands sizeofcmds cmds sl = Inr () \<longleftrightarrow>
      (\<exists>e. tiles 32 cmds e \<and> e \<le> 32 + unat sizeofcmds) \<and> 32 + unat sizeofcmds \<le> length sl)
   \<and> (validate_no_overlapping_macho_segments segs = Inr () \<longleftrightarrow>
      list_all no_overflow segs \<and> sorted_wrt disjoint_in_file segs)"
proof -
  have "unat sizeofcmds < 2 ^ LENGTH(32)" by (rule unsigned_less)
  then have small: "32 + unat sizeofcmds < USIZE" by (simp add: USIZE_def)
  have "validate_macho_load_commands sizeofcmds cmds sl = Inr () \<longleftrightarrow>
      (\<exists>e. load_commands_loop (32 + unat sizeofcmds) cmds 32 = Inr e) \<and> 32 + unat sizeofcmds \<le> length sl"
    using small by (auto simp: validate_macho_load_commands_def MACHO_HEADER_64_SIZE_def result_simps checked_add_def)
  then show ?thesis
    using load_commands_loop_ok [OF small, of 32] validate_segments_ok [of segs] by (simp add: list_all_iff)
qed

section \<open>Chained fixups\<close>

unbundle bit_operations_syntax

text \<open>A bound pointer is mapped, and its topmost bit marks it as a binding.\<close>

definition bound_at :: "loaded_image \<Rightarrow> macho_bind \<Rightarrow> bool" where
  "bound_at img b \<longleftrightarrow> (\<exists>bs. bytes_at img (fst b) 8 = Some bs \<and> length bs = 8
     \<and> drop_bit 63 (of_nat (le_value bs) :: u64) AND 1 = 1)"

text \<open>What the walk maintains: at most one binding per step, all of them at marked pointers.\<close>

definition walk_inv :: "loaded_image \<Rightarrow> nat \<times> macho_bind list \<Rightarrow> bool" where
  "walk_inv img st \<longleftrightarrow> length (snd st) \<le> fst st \<and> fst st \<le> MAX_MACHO_CHAIN_STEPS
     \<and> list_all (bound_at img) (snd st)"

lemma bind_of_bound:
  "bytes_at img va 8 = Some bs \<Longrightarrow> length bs = 8 \<Longrightarrow>
     length (bind_of t va (of_nat (le_value bs))) \<le> 1 \<and> list_all (bound_at img) (bind_of t va (of_nat (le_value bs)))"
  by (auto simp: bind_of_def bound_at_def split: sum.split)

lemma steps_Suc: "steps \<le> MAX_MACHO_CHAIN_STEPS \<Longrightarrow> saturating_add steps 1 = Suc steps"
  by (simp add: saturating_add_def MAX_MACHO_CHAIN_STEPS_def USIZE_def)

lemma chain_walk_inv:
  assumes "walk_inv img (steps, binds)" "chain_walk img t va steps binds = Inr st"
  shows "walk_inv img st"
  using assms
proof (induction img t va steps binds rule: chain_walk.induct)
  case (1 img t va steps binds)
  have s: "saturating_add steps 1 = Suc steps" using "1.prems"(1) by (intro steps_Suc) (simp add: walk_inv_def)
  have lim: "Suc steps \<le> MAX_MACHO_CHAIN_STEPS"
    using "1.prems"(2) s by (subst (asm) chain_walk.simps) (auto split: if_splits)
  show ?case
  proof (cases "\<exists>bs. bytes_at img va 8 = Some bs \<and> length bs = 8")
    case False
    then have "st = (Suc steps, binds)"
      using "1.prems"(2) s lim by (subst (asm) chain_walk.simps) (auto split: option.splits)
    then show ?thesis using "1.prems"(1) lim by (simp add: walk_inv_def)
  next
    case True
    then obtain bs where bs: "bytes_at img va 8 = Some bs" "length bs = 8" by blast
    let ?v = "of_nat (le_value bs) :: u64"
    let ?next = "drop_bit 51 ?v AND 0xFFF"
    have inv: "walk_inv img (Suc steps, binds @ bind_of t va ?v)"
      using "1.prems"(1) bind_of_bound [OF bs, of t] lim by (simp add: walk_inv_def)
    have walk: "chain_walk img t va steps binds = (if ?next = 0 then Inr (Suc steps, binds @ bind_of t va ?v)
        else chain_walk img t (va + ?next * 4) (Suc steps) (binds @ bind_of t va ?v))"
      using s lim bs by (subst chain_walk.simps) (simp add: Let_def)
    show ?thesis
    proof (cases "?next = 0")
      case True
      with walk inv "1.prems"(2) show ?thesis by auto
    next
      case False
      have "chain_walk img t (va + ?next * 4) (Suc steps) (binds @ bind_of t va ?v) = Inr st"
        using walk False "1.prems"(2) by simp
      from "1.IH" [OF s [symmetric] _ bs(1) _ refl refl refl False] this inv lim bs(2) show ?thesis by simp
    qed
  qed
qed

lemma fixup_page_inv:
  "walk_inv img st \<Longrightarrow> fixup_page img t ss so ps page st = Inr st' \<Longrightarrow> walk_inv img st'"
  by (cases st) (auto simp: fixup_page_def result_simps Let_def dest: chain_walk_inv split: if_splits)

lemma fixup_segment_inv:
  assumes "walk_inv img st" "fixup_segment img t sb i st = Inr st'"
  shows "walk_inv img st'"
proof -
  from assms(2) consider "st' = st"
    | ss so ps pc where "fold_result (fixup_page img t ss so ps) [0..<pc] st = Inr st'"
    unfolding fixup_segment_def Let_def by (auto simp: result_simps split: if_splits)
  then show ?thesis
  proof cases
    case 2
    from this assms(1) show ?thesis by (rule fold_result_invariant) (rule fixup_page_inv)
  qed (use assms(1) in simp)
qed

text \<open>
  C35: the walk over chained fixups always ends, whatever the file says; it yields at most as
  many bindings as the step limit, and every one is at a mapped pointer of eight bytes that
  is marked as a binding.
\<close>

theorem chained_fixups_bounded:
  assumes "parse_macho_chained_fixups img sl libs dataoff datasize = Inr binds"
  shows "length binds \<le> MAX_MACHO_CHAIN_STEPS \<and> list_all (bound_at img) binds"
proof -
  from assms consider "binds = []"
    | t sb n steps where "fold_result (fixup_segment img t sb) [0..<n] (0, []) = Inr (steps, binds)"
    unfolding parse_macho_chained_fixups_def Let_def by (auto simp: result_simps split: if_splits)
  then show ?thesis
  proof cases
    case 2
    moreover have "walk_inv img (0, [])" by (simp add: walk_inv_def)
    ultimately have "walk_inv img (steps, binds)" by (rule fold_result_invariant) (rule fixup_segment_inv)
    then show ?thesis by (simp add: walk_inv_def)
  qed simp
qed

theorem chained_fixups_bounded_witness:
  "parse_macho_chained_fixups (from_shellcode [0, 0, 0, 0, 0, 0, 0, 0x80] X64)
     [0, 0, 0, 0, 28, 0, 0, 0, 60, 0, 0, 0, 64, 0, 0, 0, 1, 0, 0, 0, 1, 0, 0, 0, 0, 0, 0, 0,
      1, 0, 0, 0, 8, 0, 0, 0, 0, 0, 0, 0, 0, 16, 2, 0, 0, 0, 0, 0, 0, 0, 0, 0, 0, 0, 0, 0, 1, 0, 0, 0,
      0, 0, 0, 0, 102, 0] [''libc''] 0 66 = Inr [(SHELLCODE_BASE, ''libc'', ''f'')]
   \<and> bound_at (from_shellcode [0, 0, 0, 0, 0, 0, 0, 0x80] X64) (SHELLCODE_BASE, ''libc'', ''f'')"
proof -
  let ?img = "from_shellcode [0, 0, 0, 0, 0, 0, 0, 0x80] X64"
  let ?data = "[0, 0, 0, 0, 28, 0, 0, 0, 60, 0, 0, 0, 64, 0, 0, 0, 1, 0, 0, 0, 1, 0, 0, 0, 0, 0, 0, 0,
      1, 0, 0, 0, 8, 0, 0, 0, 0, 0, 0, 0, 0, 16, 2, 0, 0, 0, 0, 0, 0, 0, 0, 0, 0, 0, 0, 0, 1, 0, 0, 0,
      0, 0, 0, 0, 102, 0] :: u8 list"
  let ?t = "\<lparr>ft_data = ?data, ft_libs = [''libc''], ft_imports = 60, ft_symbols = 64\<rparr>"
  have base: "image_base ?img = SHELLCODE_BASE" by (simp add: from_shellcode_def Let_def)
  have word: "bytes_at ?img SHELLCODE_BASE 8 = Some [0, 0, 0, 0, 0, 0, 0, 0x80]"
    by (simp add: bytes_at_def from_shellcode_def Let_def contains_va_def end_address_def checked_add_u64_def checked_sub_u64_def
        SHELLCODE_BASE_def checked_add_def USIZE_def get_range_def)
  have name: "from_utf8 (until_nul [102, 0]) = Some ''f''" by code_simp
  have imp: "bind_of ?t SHELLCODE_BASE (of_nat (le_value [0, 0, 0, 0, 0, 0, 0, 0x80])) = [(SHELLCODE_BASE, ''libc'', ''f'')]"
    by (simp add: bind_of_def resolve_macho_chained_import_def read_macho_u32_def read_macho_def get_range_def
        saturating_add_def checked_add_def checked_mul_def USIZE_def result_simps terminated_text_def macho_chained_lib_name_def name)
  have "chain_walk ?img ?t SHELLCODE_BASE 0 [] = Inr (1, [(SHELLCODE_BASE, ''libc'', ''f'')])"
    using word imp by (subst chain_walk.simps) (simp add: saturating_add_def USIZE_def MAX_MACHO_CHAIN_STEPS_def Let_def)
  then have "parse_macho_chained_fixups ?img ?data [''libc''] 0 66 = Inr [(SHELLCODE_BASE, ''libc'', ''f'')]"
    by (simp add: parse_macho_chained_fixups_def fixup_segment_def fixup_page_def read_macho_u16_def read_macho_u32_def
        read_macho_u64_def read_macho_def get_range_def saturating_add_def checked_add_def USIZE_def result_simps
        MAX_MACHO_FIXUP_SEGMENTS_def base)
  with chained_fixups_bounded [OF this] show ?thesis by simp
qed

end
