(* ===== verification/Views.thy ===== *)
theory Views
  imports Recovered Rust_Str
begin

text \<open>
  \<^verbatim>\<open>capa-x/src/extract/recovery/recovery.rs\<close>: the view of one function of the recovered code,
  its basic blocks with their instructions and successors. The decoder is a parameter of the
  compatibility view, which decodes again where a branch enters an instruction. Loops whose
  progress depends on the addresses an instruction reports are options: \<open>None\<close> is a loop that
  does not end.
\<close>

section \<open>The flow graph\<close>

definition MAX_INSNS_PER_FUNCTION :: nat where
  "MAX_INSNS_PER_FUNCTION = 200000"

text \<open>Errors; a path is the string it displays as.\<close>

datatype flirt_error =
    MissingPath string
  | Io string string
  | UnsupportedExtension string
  | Parse string string
  | CompilePanic string
  | MatchPanic string u64
  | MissingRootName string u64

datatype recovery_error =
    Signature_Error flirt_error
  | Image_Error image_error
  | Seeds_Error image_format string
  | Limit string

text \<open>The fields of \<^verbatim>\<open>DirectFlowGraph\<close> that the views read.\<close>

record 'd direct_flow_graph =
  compatibility :: bool
  successors :: "(u64, edge list) btree"
  completed_functions :: "(u64, 'd recovered_function) btree"

abbreviation edges_from :: "(u64, edge list) btree \<Rightarrow> u64 \<Rightarrow> edge list" where
  "edges_from sc address \<equiv> (case bt_get sc address of None \<Rightarrow> [] | Some es \<Rightarrow> es)"

definition too_many_insns :: "u64 \<Rightarrow> recovery_error" where
  "too_many_insns start =
     Limit (''function '' @ hex_text (unat start) @ '' exceeds '' @ show_nat MAX_INSNS_PER_FUNCTION @ '' instructions'')"

section \<open>The native view\<close>

text \<open>An edge the walk does not follow: a fall through into a linker-provided function start.\<close>

definition falls_into_unwind :: "'d analysis \<Rightarrow> u64 \<Rightarrow> edge \<Rightarrow> bool" where
  "falls_into_unwind an start e \<longleftrightarrow>
     edge_kind e = Fallthrough \<and> edge_target e \<noteq> start
     \<and> (case bt_get (seeds an) (edge_target e) of None \<Rightarrow> False | Some kinds \<Rightarrow> Unwind \<in> kinds)"

definition followed :: "'d analysis \<Rightarrow> 'd direct_flow_graph \<Rightarrow> u64 \<Rightarrow> bool \<Rightarrow> u64 \<Rightarrow> u64 list" where
  "followed an g start isolate address =
     (if isolate then []
      else map edge_target (filter (\<lambda>e. \<not> falls_into_unwind an start e) (edges_from (successors g) address)))"

function reach_loop ::
  "'d analysis \<Rightarrow> 'd direct_flow_graph \<Rightarrow> u64 \<Rightarrow> bool \<Rightarrow> u64 list \<Rightarrow> u64 set \<Rightarrow> recovery_error + u64 set" where
  "reach_loop an g start isolate [] reachable = Inr reachable"
| "reach_loop an g start isolate (address # pending) reachable =
     (if \<not> bt_contains (an_instructions an) address \<or> address \<in> reachable then
        reach_loop an g start isolate pending reachable
      else
        let reachable = insert address reachable
        in if MAX_INSNS_PER_FUNCTION < card reachable then Inl (too_many_insns start)
           else reach_loop an g start isolate (pending @ followed an g start isolate address) reachable)"
  by pat_completeness auto

termination
proof (relation "measures
    [\<lambda>(an, g, start, isolate, pending, reachable). card (fst ` set (an_instructions an) - reachable),
     \<lambda>(an, g, start, isolate, pending, reachable). length pending]")
  fix an :: "'d analysis" and g :: "'d direct_flow_graph" and start isolate address pending reachable
    and reachable' :: "u64 set"
  assume "\<not> (\<not> bt_contains (an_instructions an) address \<or> address \<in> reachable)" "reachable' = insert address reachable"
  then have "fst ` set (an_instructions an) - reachable' \<subset> fst ` set (an_instructions an) - reachable"
    by (auto simp: map_of_eq_None_iff)
  then show "((an, g, start, isolate, pending @ followed an g start isolate address, reachable'),
      an, g, start, isolate, address # pending, reachable) \<in> measures
    [\<lambda>(an, g, start, isolate, pending, reachable). card (fst ` set (an_instructions an) - reachable),
     \<lambda>(an, g, start, isolate, pending, reachable). length pending]"
    by (simp add: psubset_card_mono)
qed auto

declare reach_loop.simps [simp del]

text \<open>The first addresses of the blocks: the entry, targets of references, and targets of terminators.\<close>

definition referenced_in :: "'d analysis \<Rightarrow> u64 set \<Rightarrow> u64 set" where
  "referenced_in an reachable =
     (if card reachable < length (code_xrefs an)
      then Set.filter (\<lambda>address. bt_contains (code_xrefs an) address) reachable
      else set (filter (\<lambda>address. address \<in> reachable) (map fst (code_xrefs an))))"

definition terminator_targets :: "'d analysis \<Rightarrow> 'd direct_flow_graph \<Rightarrow> u64 set \<Rightarrow> u64 \<Rightarrow> u64 set" where
  "terminator_targets an g reachable address =
     (case bt_get (an_instructions an) address of
        None \<Rightarrow> {}
      | Some insn \<Rightarrow>
          if is_block_terminator (insn_flow insn)
          then set (map edge_target (filter (\<lambda>e. edge_target e \<in> reachable) (edges_from (successors g) address)))
          else {})"

definition block_starts :: "'d analysis \<Rightarrow> 'd direct_flow_graph \<Rightarrow> u64 \<Rightarrow> u64 set \<Rightarrow> u64 set" where
  "block_starts an g start reachable =
     {start} \<union> referenced_in an reachable \<union> (\<Union>address \<in> reachable. terminator_targets an g reachable address)"

partial_function (option) block_loop ::
  "'d analysis \<Rightarrow> 'd direct_flow_graph \<Rightarrow> u64 set \<Rightarrow> u64 set \<Rightarrow> u64 \<Rightarrow> u64 \<Rightarrow> 'd decoded_instruction list
    \<Rightarrow> ('d decoded_instruction list \<times> edge list) option" where
  "block_loop an g reachable starts block_start address is =
     (case bt_get (an_instructions an) address of
        None \<Rightarrow> Some (is, [])
      | Some insn \<Rightarrow>
          (let is = is @ [insn];
               next' = next_address insn
           in if is_block_terminator (insn_flow insn) then
                Some (is, filter (\<lambda>e. edge_target e \<in> reachable) (edges_from (successors g) address))
              else if next' \<noteq> block_start \<and> next' \<in> starts then
                Some (is, [\<lparr>edge_target = next', edge_kind = Fallthrough\<rparr>])
              else if next' \<notin> reachable then Some (is, [])
              else block_loop an g reachable starts block_start next' is))"

definition native_block ::
  "'d analysis \<Rightarrow> 'd direct_flow_graph \<Rightarrow> u64 set \<Rightarrow> u64 set \<Rightarrow> u64 \<Rightarrow> 'd basic_block option" where
  "native_block an g reachable starts block_start =
     map_option (\<lambda>(is, es). \<lparr>block_addr = block_start, insns = is, succs = es\<rparr>)
       (block_loop an g reachable starts block_start block_start [])"

definition native_view ::
  "'d analysis \<Rightarrow> 'd direct_flow_graph \<Rightarrow> u64 \<Rightarrow> bool \<Rightarrow> (recovery_error + 'd recovered_function) option" where
  "native_view an g start isolate =
     (case reach_loop an g start isolate [start] {} of
        Inl e \<Rightarrow> Some (Inl e)
      | Inr reachable \<Rightarrow>
          let starts = block_starts an g start reachable
          in map_option (\<lambda>bs. Inr \<lparr>func_addr = start, blocks = sort_key block_addr bs\<rparr>)
               (those (map (native_block an g reachable starts)
                  (filter (\<lambda>s. s \<in> reachable) (sorted_list_of_set starts)))))"

section \<open>The compatibility view\<close>

text \<open>
  A location ends the flow if it does not fall through. A stack has its top first; the walk
  of one block returns its end, its successors, the instructions counted so far and the stack.
\<close>

definition no_fallthrough :: "'d analysis \<Rightarrow> 'd decoded_instruction \<Rightarrow> bool" where
  "no_fallthrough an location \<longleftrightarrow>
     insn_flow location \<in> {UnconditionalBranch, IndirectBranch, Return, Terminal}
     \<or> insn_address location \<in> noreturn_calls an"

text \<open>The end of a block after a failed decoding: that of the block of an earlier view, if there is one.\<close>

definition failed_end :: "'d direct_flow_graph \<Rightarrow> u64 \<Rightarrow> u64 \<Rightarrow> u64" where
  "failed_end g start block_start =
     (case Option.bind (bt_get (completed_functions g) start) (\<lambda>f.
           Option.bind (List.find (\<lambda>b. block_addr b = block_start) (blocks f)) (\<lambda>b.
             if insns b = [] then None else Some (next_address (last (insns b))))) of
        None \<Rightarrow> block_start
      | Some a \<Rightarrow> a)"

definition branches_of :: "'d direct_flow_graph \<Rightarrow> u64 \<Rightarrow> edge list" where
  "branches_of g address = filter (\<lambda>e. edge_kind e \<noteq> Fallthrough) (edges_from (successors g) address)"

function walk_block ::
  "(u64 \<Rightarrow> image_error + 'd decoded_instruction) \<Rightarrow> 'd analysis \<Rightarrow> 'd direct_flow_graph \<Rightarrow> u64 \<Rightarrow> u64 \<Rightarrow> u64 \<Rightarrow> nat
    \<Rightarrow> u64 list \<Rightarrow> recovery_error + u64 \<times> edge list \<times> nat \<times> u64 list" where
  "walk_block decode an g start block_start address count pending =
     (case instruction_location an address of
        None \<Rightarrow> Inr (address, [], count, pending)
      | Some location \<Rightarrow>
          (let count = count + 1
           in if MAX_INSNS_PER_FUNCTION < count then Inl (too_many_insns start)
              else if \<not> bt_contains (an_instructions an) address \<and> isl (decode address) then
                Inr (failed_end g start block_start, [], count, pending)
              else
                (case checked_add_u64 address (of_nat (length (insn_bytes location))) of
                   None \<Rightarrow> Inr (address, [], count, pending)
                 | Some next' \<Rightarrow>
                     (let branches = branches_of g address;
                          pending = rev (map edge_target branches) @ pending
                      in if no_fallthrough an location then Inr (next', branches, count, pending)
                         else if branches \<noteq> [] \<or> bt_contains (code_xrefs an) next' then
                           Inr (next', branches @ [\<lparr>edge_target = next', edge_kind = Fallthrough\<rparr>], count, next' # pending)
                         else walk_block decode an g start block_start next' count pending))))"
  by pat_completeness auto
termination
  by (relation "measure (\<lambda>(decode, an, g, start, block_start, address, count, pending). MAX_INSNS_PER_FUNCTION + 1 - count)") auto

declare walk_block.simps [simp del]

partial_function (option) decode_block ::
  "(u64 \<Rightarrow> image_error + 'd decoded_instruction) \<Rightarrow> 'd analysis \<Rightarrow> u64 \<Rightarrow> u64 \<Rightarrow> 'd decoded_instruction list option" where
  "decode_block decode an cursor address =
     (if cursor < address then
        (case (case bt_get (an_instructions an) cursor of Some insn \<Rightarrow> Inr insn | None \<Rightarrow> decode cursor) of
           Inl e \<Rightarrow> Some []
         | Inr insn \<Rightarrow> Option.bind (decode_block decode an (next_address insn) address) (\<lambda>is. Some (insn # is)))
      else Some [])"

lemma walk_block_count:
  "walk_block decode an g start block_start address count pending = Inr (address', es, count', pending')
   \<Longrightarrow> (instruction_location an address = None \<and> address' = address \<and> es = [] \<and> count' = count \<and> pending' = pending)
     \<or> count < count' \<and> count' \<le> MAX_INSNS_PER_FUNCTION"
proof (induction decode an g start block_start address count pending rule: walk_block.induct)
  case (1 decode an g start block_start address count pending)
  from "1.prems" show ?case
    by (subst (asm) walk_block.simps)
       (force dest!: "1.IH" [rotated -1] simp: Let_def split: option.splits if_splits)
qed

text \<open>The loop over the blocks.\<close>

function compat_loop ::
  "(u64 \<Rightarrow> image_error + 'd decoded_instruction) \<Rightarrow> 'd analysis \<Rightarrow> 'd direct_flow_graph \<Rightarrow> u64 \<Rightarrow> u64 list \<Rightarrow> u64 set
    \<Rightarrow> nat \<Rightarrow> 'd basic_block list \<Rightarrow> (recovery_error + 'd basic_block list) option" where
  "compat_loop decode an g start [] done' count found = Some (Inr found)"
| "compat_loop decode an g start (block_start # pending) done' count found =
     (if block_start \<in> done' then compat_loop decode an g start pending done' count found
      else
        (case walk_block decode an g start block_start block_start count pending of
           Inl e \<Rightarrow> Some (Inl e)
         | Inr (address, es, count', pending') \<Rightarrow>
             Option.bind (decode_block decode an block_start address) (\<lambda>is.
               compat_loop decode an g start pending' (insert block_start done') count'
                 (if is = [] then found
                  else found @ [\<lparr>block_addr = block_start, insns = is, succs = es\<rparr>]))))"
  by pat_completeness auto
termination
proof (relation "measures
    [\<lambda>(decode, an, g, start, pending, done', count, found). MAX_INSNS_PER_FUNCTION + 1 - count,
     \<lambda>(decode, an, g, start, pending, done', count, found). length pending]", goal_cases)
  case (3 decode an g start block_start pending done' count found b address x es y count' pending' l)
  then have "walk_block decode an g start block_start block_start count pending = Inr (address, es, count', pending')" by simp
  from walk_block_count [OF this] show ?case by auto
qed auto

definition build_compatibility_view ::
  "(u64 \<Rightarrow> image_error + 'd decoded_instruction) \<Rightarrow> 'd analysis \<Rightarrow> 'd direct_flow_graph \<Rightarrow> u64
    \<Rightarrow> (recovery_error + 'd recovered_function) option" where
  "build_compatibility_view decode an g start =
     map_option (map_ok (\<lambda>bs. \<lparr>func_addr = start, blocks = sort_key block_addr bs\<rparr>))
       (compat_loop decode an g start [start] {} 0 [])"

definition build_function_view ::
  "(u64 \<Rightarrow> image_error + 'd decoded_instruction) \<Rightarrow> 'd analysis \<Rightarrow> 'd direct_flow_graph \<Rightarrow> u64 \<Rightarrow> bool
    \<Rightarrow> (recovery_error + 'd recovered_function) option" where
  "build_function_view decode an g start isolate =
     (if compatibility g then build_compatibility_view decode an g start else native_view an g start isolate)"

end
