(* ===== verification/Worklist.thy ===== *)
theory Worklist
  imports Main
begin

text \<open>
  Searches with a list of pending nodes and a set of visited ones. The locale holds what
  every such loop maintains: visited nodes are reachable, and their successors are visited
  or pending, so that the visited nodes are the reachable ones once nothing is pending.
\<close>

definition search_steps :: "('a \<Rightarrow> bool) \<Rightarrow> ('a \<Rightarrow> 'a list) \<Rightarrow> ('a \<times> 'a) set" where
  "search_steps node succ = {(a, b). node a \<and> node b \<and> b \<in> set (succ a)}"

definition reached :: "('a \<Rightarrow> bool) \<Rightarrow> ('a \<Rightarrow> 'a list) \<Rightarrow> 'a list \<Rightarrow> 'a set" where
  "reached node succ roots = {a. \<exists>r \<in> set roots. node r \<and> (r, a) \<in> (search_steps node succ)\<^sup>*}"

definition search_inv :: "('a \<Rightarrow> bool) \<Rightarrow> ('a \<Rightarrow> 'a list) \<Rightarrow> 'a list \<Rightarrow> 'a list \<Rightarrow> 'a set \<Rightarrow> bool" where
  "search_inv node succ roots pending visited \<longleftrightarrow>
     visited \<subseteq> reached node succ roots \<and> Set.filter node (set pending) \<subseteq> reached node succ roots
     \<and> (\<forall>r \<in> set roots. node r \<longrightarrow> r \<in> visited \<union> set pending)
     \<and> (\<forall>a \<in> visited. \<forall>b \<in> set (succ a). node b \<longrightarrow> b \<in> visited \<union> set pending)"

locale worklist =
  fixes node :: "'a \<Rightarrow> bool"
    and succ :: "'a \<Rightarrow> 'a list"
    and roots :: "'a list"
  assumes finite_nodes: "finite {a. node a}"
begin

lemma reached_node: "a \<in> reached node succ roots \<Longrightarrow> node a"
  unfolding reached_def search_steps_def by (auto elim: rtranclE)

lemma finite_reached: "finite (reached node succ roots)"
  using reached_node by (intro finite_subset [OF _ finite_nodes]) auto

lemma reached_step:
  "a \<in> reached node succ roots \<Longrightarrow> b \<in> set (succ a) \<Longrightarrow> node b \<Longrightarrow> b \<in> reached node succ roots"
  using reached_node [of a] by (auto simp: reached_def search_steps_def intro: rtrancl_into_rtrancl)

lemma root_reached: "r \<in> set roots \<Longrightarrow> node r \<Longrightarrow> r \<in> reached node succ roots"
  by (auto simp: reached_def)

lemma search_init: "search_inv node succ roots roots {}"
  by (auto simp: search_inv_def root_reached)

lemma search_skip:
  "search_inv node succ roots (a # pending) visited \<Longrightarrow> \<not> node a \<or> a \<in> visited
   \<Longrightarrow> search_inv node succ roots pending visited"
  unfolding search_inv_def by auto

text \<open>A search may append the successors to its queue or push them on its stack.\<close>

lemma search_visit:
  assumes "search_inv node succ roots (a # pending) visited" "node a" "set pending' = set pending \<union> set (succ a)"
  shows "search_inv node succ roots pending' (insert a visited)"
proof -
  have a: "a \<in> reached node succ roots" using assms(1,2) by (auto simp: search_inv_def)
  moreover have "Set.filter node (set (succ a)) \<subseteq> reached node succ roots" using reached_step [OF a] by auto
  ultimately show ?thesis using assms unfolding search_inv_def by auto
qed

lemma search_subset: "search_inv node succ roots pending visited \<Longrightarrow> visited \<subseteq> reached node succ roots"
  by (simp add: search_inv_def)

lemma search_card: "search_inv node succ roots pending visited \<Longrightarrow> card visited \<le> card (reached node succ roots)"
  by (rule card_mono [OF finite_reached search_subset])

lemma search_done:
  assumes "search_inv node succ roots [] visited"
  shows "visited = reached node succ roots"
proof
  show "visited \<subseteq> reached node succ roots" using assms by (rule search_subset)
  have "a \<in> visited" if "r \<in> set roots" "node r" "(r, a) \<in> (search_steps node succ)\<^sup>*" for r a
    using that(3)
  proof induction
    case base
    then show ?case using assms that(1,2) by (simp add: search_inv_def)
  next
    case (step y z)
    then show ?case using assms by (auto simp: search_inv_def search_steps_def)
  qed
  then show "reached node succ roots \<subseteq> visited" by (auto simp: reached_def)
qed

lemma reached_induct [consumes 1, case_names root step]:
  assumes "a \<in> reached node succ roots" "\<And>r. r \<in> set roots \<Longrightarrow> node r \<Longrightarrow> P r"
    and "\<And>b c. b \<in> reached node succ roots \<Longrightarrow> c \<in> set (succ b) \<Longrightarrow> node c \<Longrightarrow> P b \<Longrightarrow> P c"
  shows "P a"
proof -
  obtain r where r: "r \<in> set roots" "node r" "(r, a) \<in> (search_steps node succ)\<^sup>*" using assms(1) by (auto simp: reached_def)
  from r(3) show ?thesis
  proof induction
    case (step b c)
    have "b \<in> reached node succ roots" using r(1,2) step.hyps(1) by (auto simp: reached_def)
    moreover have "c \<in> set (succ b)" "node c" using step.hyps(2) by (simp_all add: search_steps_def)
    ultimately show ?case using step.IH by (rule assms(3))
  qed (rule assms(2) [OF r(1,2)])
qed

end

end
