(* ===== verification/Views_Props.thy ===== *)
theory Views_Props
  imports Views Worklist
begin

text \<open>
  The view of a function holds exactly the code reachable from its entry, in blocks that are
  straight-line code with their successors among the blocks; the construction ends whenever
  instructions lie before their successors.
\<close>

section \<open>Reachable code\<close>

definition has_insn :: "'d analysis \<Rightarrow> u64 \<Rightarrow> bool" where
  "has_insn an address \<longleftrightarrow> bt_contains (an_instructions an) address"

definition reachable_code :: "'d analysis \<Rightarrow> 'd direct_flow_graph \<Rightarrow> u64 \<Rightarrow> bool \<Rightarrow> u64 set" where
  "reachable_code an g start isolate = reached (has_insn an) (followed an g start isolate) [start]"

interpretation code_walk: worklist "has_insn an" "followed an g start isolate" "[start]"
  for an :: "'d analysis" and g :: "'d direct_flow_graph" and start isolate
  by unfold_locales (simp only: has_insn_def dom_def [symmetric] finite_dom_map_of)

lemma reach_loop_outcome:
  assumes "search_inv (has_insn an) (followed an g start isolate) [start] pending visited"
    and "card visited \<le> MAX_INSNS_PER_FUNCTION"
  shows "reach_loop an g start isolate pending visited =
    (if MAX_INSNS_PER_FUNCTION < card (reachable_code an g start isolate) then Inl (too_many_insns start)
     else Inr (reachable_code an g start isolate))"
  using assms
proof (induction an g start isolate pending visited rule: reach_loop.induct)
  case (1 an g start isolate visited)
  then have "visited = reachable_code an g start isolate" unfolding reachable_code_def by (intro code_walk.search_done)
  then show ?case using "1.prems"(2) by (simp add: reach_loop.simps)
next
  case (2 an g start isolate address pending visited)
  show ?case
  proof (cases "\<not> bt_contains (an_instructions an) address \<or> address \<in> visited")
    case True
    then have "search_inv (has_insn an) (followed an g start isolate) [start] pending visited"
      by (intro code_walk.search_skip [OF "2.prems"(1)]) (simp add: has_insn_def)
    then show ?thesis using "2.IH"(1) [OF True] True "2.prems"(2) by (simp add: reach_loop.simps)
  next
    case False
    have inv: "search_inv (has_insn an) (followed an g start isolate) [start]
        (pending @ followed an g start isolate address) (insert address visited)"
      using False by (intro code_walk.search_visit [OF "2.prems"(1)]) (auto simp: has_insn_def)
    show ?thesis
    proof (cases "MAX_INSNS_PER_FUNCTION < card (insert address visited)")
      case True
      then show ?thesis using False code_walk.search_card [OF inv] by (simp add: reach_loop.simps reachable_code_def Let_def)
    next
      case small: False
      then show ?thesis using False "2.IH"(2) [OF False refl] inv by (simp add: reach_loop.simps Let_def)
    qed
  qed
qed

lemma reach_loop_start:
  "reach_loop an g start isolate [start] {} =
    (if MAX_INSNS_PER_FUNCTION < card (reachable_code an g start isolate) then Inl (too_many_insns start)
     else Inr (reachable_code an g start isolate))"
  by (rule reach_loop_outcome [OF code_walk.search_init]) simp

section \<open>Blocks\<close>

text \<open>Every instruction is stored under its address and lies before its successor.\<close>

definition advancing :: "'d analysis \<Rightarrow> bool" where
  "advancing an \<longleftrightarrow> list_all (\<lambda>(a, i). insn_address i = a \<and> a < next_address i) (an_instructions an)"

text \<open>Code that does not end a block continues with the next instruction only.\<close>

definition straight_flow :: "'d analysis \<Rightarrow> 'd direct_flow_graph \<Rightarrow> bool" where
  "straight_flow an g \<longleftrightarrow>
     list_all (\<lambda>(a, i). is_block_terminator (insn_flow i)
       \<or> list_all (\<lambda>e. edge_target e = next_address i) (edges_from (successors g) a)) (an_instructions an)"

lemma advancing_get:
  "advancing an \<Longrightarrow> bt_get (an_instructions an) a = Some i \<Longrightarrow> insn_address i = a \<and> a < next_address i"
  by (auto simp: advancing_def list_all_iff dest: map_of_SomeD)

lemma straight_flow_get:
  "straight_flow an g \<Longrightarrow> bt_get (an_instructions an) a = Some i \<Longrightarrow> \<not> is_block_terminator (insn_flow i)
   \<Longrightarrow> e \<in> set (edges_from (successors g) a) \<Longrightarrow> edge_target e = next_address i"
  by (force simp: straight_flow_def list_all_iff dest: map_of_SomeD)

text \<open>The instructions and successors of a block, one instruction after the other.\<close>

fun block_from :: "'d analysis \<Rightarrow> 'd direct_flow_graph \<Rightarrow> u64 set \<Rightarrow> u64 set \<Rightarrow> u64 \<Rightarrow> u64
    \<Rightarrow> 'd decoded_instruction list \<Rightarrow> edge list \<Rightarrow> bool" where
  "block_from an g R S b a [] es \<longleftrightarrow> bt_get (an_instructions an) a = None \<and> es = []"
| "block_from an g R S b a (i # l) es \<longleftrightarrow>
     bt_get (an_instructions an) a = Some i
     \<and> (if is_block_terminator (insn_flow i)
        then l = [] \<and> es = filter (\<lambda>e. edge_target e \<in> R) (edges_from (successors g) a)
        else if next_address i \<noteq> b \<and> next_address i \<in> S
        then l = [] \<and> es = [\<lparr>edge_target = next_address i, edge_kind = Fallthrough\<rparr>]
        else if next_address i \<notin> R then l = [] \<and> es = []
        else block_from an g R S b (next_address i) l es)"

lemma block_loop_returns:
  assumes "advancing an"
  shows "\<exists>l es. block_loop an g R S b a is = Some (is @ l, es) \<and> block_from an g R S b a l es"
proof (induction a arbitrary: "is" rule: measure_induct_rule [where f = "\<lambda>a. 2 ^ 64 - unat a"])
  case (less a)
  show ?case
  proof (cases "bt_get (an_instructions an) a")
    case None
    then show ?thesis by (intro exI [of _ "[]"]) (simp add: block_loop.simps)
  next
    case (Some i)
    show ?thesis
    proof (cases "is_block_terminator (insn_flow i) \<or> next_address i \<noteq> b \<and> next_address i \<in> S \<or> next_address i \<notin> R")
      case True
      then show ?thesis using Some by (intro exI [of _ "[i]"]) (auto simp: block_loop.simps Let_def)
    next
      case False
      have "unat a < unat (next_address i)" using advancing_get [OF assms Some] by (simp add: word_less_nat_alt)
      moreover have "unat (next_address i) < 2 ^ LENGTH(64)" by (rule unsigned_less)
      ultimately have "2 ^ 64 - unat (next_address i) < 2 ^ 64 - unat a" by simp
      from less.IH [OF this, of "is @ [i]"] obtain l es
        where "block_loop an g R S b (next_address i) (is @ [i]) = Some (is @ i # l, es)"
          "block_from an g R S b (next_address i) l es" by auto
      then show ?thesis using Some False by (intro exI [of _ "i # l"] exI [of _ es]) (auto simp: block_loop.simps [of _ _ _ _ _ a] Let_def)
    qed
  qed
qed

text \<open>What a block consists of: addresses in \<open>R\<close>, ascending, only the first one in \<open>S\<close>.\<close>

lemma block_from_addresses:
  assumes "block_from an g R S b a l es" "advancing an" "R \<subseteq> {x. has_insn an x}" "a \<in> R" "b \<le> a"
  shows "l \<noteq> [] \<and> insn_address (hd l) = a \<and> insn_address ` set l \<subseteq> R
    \<and> sorted_wrt (<) (map insn_address l)
    \<and> (\<forall>i \<in> set (tl l). insn_address i \<notin> S) \<and> (\<forall>i \<in> set (butlast l). \<not> is_block_terminator (insn_flow i))
    \<and> (\<forall>i \<in> set l. is_block_terminator (insn_flow i) \<or> next_address i \<notin> R
         \<or> next_address i \<in> insn_address ` set l \<union> S)"
  using assms(1,4,5)
proof (induction l arbitrary: a)
  case Nil
  then show ?case using assms(3) by (auto simp: has_insn_def)
next
  case (Cons i l)
  have get: "bt_get (an_instructions an) a = Some i" using Cons.prems(1) by simp
  note adr = advancing_get [OF assms(2) get]
  show ?case
  proof (cases "l = []")
    case True
    then have "\<not> (next_address i \<in> R \<and> block_from an g R S b (next_address i) l es)"
      using assms(3) by (auto simp: has_insn_def)
    then show ?thesis using Cons.prems(1,2) True adr by (auto split: if_splits)
  next
    case False
    then have c: "\<not> is_block_terminator (insn_flow i)" "next_address i \<in> R" "next_address i = b \<or> next_address i \<notin> S"
      "block_from an g R S b (next_address i) l es"
      using Cons.prems(1) by (auto split: if_splits)
    have "b < next_address i" using Cons.prems(3) adr by (auto intro: le_less_trans)
    then have S: "next_address i \<notin> S" and le: "b \<le> next_address i" using c(3) by auto
    note IH = Cons.IH [OF c(4,2) le]
    obtain j l' where l: "l = j # l'" using False by (cases l) auto
    have "\<forall>x \<in> set l. a < insn_address x" using IH adr l by (auto intro: less_trans)
    then have "sorted_wrt (<) (map insn_address (i # l))" using IH adr by auto
    moreover have "\<forall>x \<in> set (tl (i # l)). insn_address x \<notin> S" using IH S l by auto
    moreover have "\<forall>x \<in> set (i # l). is_block_terminator (insn_flow x) \<or> next_address x \<notin> R
        \<or> next_address x \<in> insn_address ` set (i # l) \<union> S" using IH l by auto
    moreover have "insn_address ` set (i # l) \<subseteq> R" using IH adr Cons.prems(2) by auto
    moreover have "\<forall>x \<in> set (butlast (i # l)). \<not> is_block_terminator (insn_flow x)" using IH c(1) False by auto
    ultimately show ?thesis using adr by simp
  qed
qed

text \<open>The successors of a block are first addresses.\<close>

lemma block_from_succs:
  assumes "block_from an g R S b a l es" "a \<in> R" "e \<in> set es"
    and "\<And>x. x \<in> R \<Longrightarrow> terminator_targets an g R x \<subseteq> S"
  shows "edge_target e \<in> S"
  using assms(1,2)
proof (induction l arbitrary: a)
  case Nil
  then show ?case using assms(3) by simp
next
  case (Cons i l)
  have t: "edge_target e \<in> terminator_targets an g R a"
    if "is_block_terminator (insn_flow i)" "es = filter (\<lambda>e. edge_target e \<in> R) (edges_from (successors g) a)"
    using that assms(3) Cons.prems(1) by (auto simp: terminator_targets_def)
  show ?case using Cons.prems Cons.IH t assms(3) assms(4) [of a] by (auto split: if_splits)
qed

fun contiguous :: "'d decoded_instruction list \<Rightarrow> bool" where
  "contiguous (i # j # l) \<longleftrightarrow> next_address i = insn_address j \<and> contiguous (j # l)"
| "contiguous l \<longleftrightarrow> True"

lemma block_from_contiguous:
  assumes "block_from an g R S b a l es" "advancing an"
  shows "contiguous l \<and> (\<forall>i \<in> set l. bt_get (an_instructions an) (insn_address i) = Some i)"
  using assms(1)
proof (induction l arbitrary: a)
  case (Cons i l)
  have get: "bt_get (an_instructions an) a = Some i" using Cons.prems by simp
  note adr = advancing_get [OF assms(2) get]
  show ?case
  proof (cases l)
    case Nil
    then show ?thesis using get adr by simp
  next
    case l: (Cons j l')
    then have c: "block_from an g R S b (next_address i) l es" using Cons.prems by (auto split: if_splits)
    then have "bt_get (an_instructions an) (next_address i) = Some j" using l by simp
    from advancing_get [OF assms(2) this] show ?thesis using Cons.IH [OF c] get adr l by simp
  qed
qed simp

section \<open>The native view\<close>

text \<open>A block of straight-line code from its address on, whose successors are blocks of the function.\<close>

definition proper_block :: "'d analysis \<Rightarrow> 'd recovered_function \<Rightarrow> 'd basic_block \<Rightarrow> bool" where
  "proper_block an f b \<longleftrightarrow>
     insns b \<noteq> [] \<and> insn_address (hd (insns b)) = block_addr b \<and> contiguous (insns b)
     \<and> (\<forall>i \<in> set (insns b). bt_get (an_instructions an) (insn_address i) = Some i)
     \<and> (\<forall>i \<in> set (tl (insns b)). insn_address i \<notin> block_addr ` set (blocks f))
     \<and> (\<forall>i \<in> set (butlast (insns b)). \<not> is_block_terminator (insn_flow i))
     \<and> edge_target ` set (succs b) \<subseteq> block_addr ` set (blocks f)"

lemma those_map_Some: "(\<And>x. x \<in> set xs \<Longrightarrow> f x = Some (h x)) \<Longrightarrow> those (map f xs) = Some (map h xs)"
  by (induction xs) auto

lemma finite_reachable_code [simp]: "finite (reachable_code an g start isolate)"
  unfolding reachable_code_def by (rule code_walk.finite_reached)

lemma referenced_in_subset: "referenced_in an R \<subseteq> R"
  by (auto simp: referenced_in_def)

lemma terminator_targets_subset: "terminator_targets an g R x \<subseteq> R" "finite (terminator_targets an g R x)"
  by (auto simp: terminator_targets_def split: option.splits)

lemma block_starts_subset: "block_starts an g start R \<subseteq> insert start R"
  using referenced_in_subset [of an R] terminator_targets_subset(1) [of an g R] by (auto simp: block_starts_def)

lemma start_reachable: "R = reachable_code an g start isolate \<Longrightarrow> R \<noteq> {} \<Longrightarrow> start \<in> R"
  unfolding reachable_code_def reached_def by auto

lemma native_block_exists:
  assumes "advancing an"
  obtains l es where "native_block an g R S s = Some \<lparr>block_addr = s, insns = l, succs = es\<rparr>" "block_from an g R S s s l es"
  using block_loop_returns [OF assms, of g R S s s "[]"] by (auto simp: native_block_def)

lemma native_view_blocks:
  assumes "advancing an" "\<not> MAX_INSNS_PER_FUNCTION < card (reachable_code an g start isolate)"
    and R: "R = reachable_code an g start isolate" and S: "S = block_starts an g start R"
  obtains f where "native_view an g start isolate = Some (Inr f)" "func_addr f = start"
    "sorted_wrt (<) (map block_addr (blocks f))" "block_addr ` set (blocks f) = S \<inter> R"
    "\<And>b. b \<in> set (blocks f) \<Longrightarrow> block_from an g R S (block_addr b) (block_addr b) (insns b) (succs b)"
proof -
  define xs where "xs = filter (\<lambda>s. s \<in> R) (sorted_list_of_set S)"
  define nb where "nb s = the (native_block an g R S s)" for s
  have nb: "native_block an g R S s = Some (nb s) \<and> block_addr (nb s) = s
      \<and> block_from an g R S s s (insns (nb s)) (succs (nb s))" for s
    by (rule native_block_exists [OF assms(1), of g R S s]) (simp add: nb_def)
  have xs: "sorted_wrt (<) xs" unfolding xs_def by (intro sorted_wrt_filter strict_sorted_list_of_set)
  have adr: "map block_addr (map nb xs) = xs" using nb by (simp add: map_idI)
  have "sort_key block_addr (map nb xs) = map nb xs"
    using xs adr by (intro sort_key_id_if_sorted) (simp add: strict_sorted_iff)
  then have "native_view an g start isolate = Some (Inr \<lparr>func_addr = start, blocks = map nb xs\<rparr>)"
    using assms(2) nb those_map_Some [of xs "native_block an g R S" nb]
    by (simp add: native_view_def reach_loop_start R [symmetric] S [symmetric] Let_def xs_def)
  moreover have "finite S"
    using block_starts_subset [of an g start R] R S by (auto intro: finite_subset)
  then have "set xs = S \<inter> R" by (auto simp: xs_def)
  then have "block_addr ` set (map nb xs) = S \<inter> R" using adr by (metis set_map)
  ultimately show ?thesis using xs adr nb by (intro that [of "\<lparr>func_addr = start, blocks = map nb xs\<rparr>"]) auto
qed

text \<open>Every reachable instruction is in a block: it starts one or follows the one before it.\<close>

lemma view_covers:
  assumes "advancing an" "straight_flow an g"
    and R: "R = reachable_code an g start isolate" and S: "S = block_starts an g start R"
    and adr: "block_addr ` set bs = S \<inter> R"
    and blk: "\<And>b. b \<in> set bs \<Longrightarrow> block_from an g R S (block_addr b) (block_addr b) (insns b) (succs b)"
    and "x \<in> R"
  shows "\<exists>b \<in> set bs. x \<in> insn_address ` set (insns b)"
proof -
  have sub: "R \<subseteq> {x. has_insn an x}" unfolding R reachable_code_def using code_walk.reached_node by blast
  have B: "block_addr b \<in> R" if "b \<in> set bs" for b using adr that by blast
  note A = block_from_addresses [OF blk assms(1) sub B order_refl]
  have start: "\<exists>b \<in> set bs. y \<in> insn_address ` set (insns b)" if y: "y \<in> S" "y \<in> R" for y
  proof -
    obtain b where b: "b \<in> set bs" "block_addr b = y" using y adr by (metis IntI imageE)
    have "insns b \<noteq> []" "insn_address (hd (insns b)) = y" using A [OF b(1) b(1)] b(2) by simp_all
    then have "y \<in> insn_address ` set (insns b)" by (metis hd_in_set imageI)
    with b(1) show ?thesis by (rule bexI [rotated])
  qed
  have "x \<in> reached (has_insn an) (followed an g start isolate) [start]" using \<open>x \<in> R\<close> by (simp add: R reachable_code_def)
  then show ?thesis
  proof (induction rule: code_walk.reached_induct)
    case (root r)
    have "start \<in> R" using start_reachable [OF R] \<open>x \<in> R\<close> by blast
    then show ?case using root by (intro start) (simp_all add: S block_starts_def)
  next
    case (step y z)
    have yR: "y \<in> R" using step.hyps(1) by (simp add: R reachable_code_def)
    have zR: "z \<in> R" using code_walk.reached_step [OF step.hyps] by (simp add: R reachable_code_def)
    obtain i where i: "bt_get (an_instructions an) y = Some i" using yR sub by (auto simp: has_insn_def)
    obtain e where e: "e \<in> set (edges_from (successors g) y)" "edge_target e = z"
      using step.hyps(2) by (auto simp: followed_def split: if_splits)
    show ?case
    proof (cases "is_block_terminator (insn_flow i)")
      case True
      then have "z \<in> terminator_targets an g R y" using i e zR by (auto simp: terminator_targets_def)
      then show ?thesis using yR zR by (intro start) (auto simp: S block_starts_def)
    next
      case False
      have z: "z = next_address i" using straight_flow_get [OF assms(2) i False e(1)] e(2) by simp
      obtain b j where b: "b \<in> set bs" "j \<in> set (insns b)" "y = insn_address j" using step.IH by blast
      have "j = i" using block_from_contiguous [OF blk [OF b(1)] assms(1)] b(2,3) i by auto
      then have "z \<in> insn_address ` set (insns b) \<union> S"
        using A [OF b(1) b(1)] b(2) False z zR by blast
      then show ?thesis using b(1) start zR by blast
    qed
  qed
qed


definition sample_insn :: "u64 \<Rightarrow> flow \<Rightarrow> unit decoded_instruction" where
  "sample_insn a f = \<lparr>insn_address = a, insn_bytes = [0x90], next_address = a + 1, insn_flow = f, direct_target = None,
     memory_target = None, mnemonic_override = None, arch_detail = ()\<rparr>"

definition sample_code :: "unit analysis" where
  "sample_code = \<lparr>an_image = from_shellcode [0x90, 0xC3] X86, seeds = [], an_functions = [], function_order = [],
     function_analysis_counts = [], function_flirt_counts = [], function_location_counts = [], instruction_order = [],
     an_instructions = [(1, sample_insn 1 Next), (2, sample_insn 2 Return)], code_xrefs = [], data_xrefs = [],
     callers = [], callees = [], an_diagnostics = [], elf_function_symbols = [], noreturn = {}, noreturn_calls = {}\<rparr>"

definition sample_graph :: "bool \<Rightarrow> unit direct_flow_graph" where
  "sample_graph c = \<lparr>compatibility = c,
     successors = [(1, [\<lparr>edge_target = 2, edge_kind = Fallthrough\<rparr>])], completed_functions = []\<rparr>"

lemma sample_code_ok: "advancing sample_code" "straight_flow sample_code (sample_graph c)"
  by (simp_all add: advancing_def straight_flow_def sample_code_def sample_graph_def sample_insn_def is_block_terminator_def)


section \<open>Termination of both views\<close>

definition decoder_advances :: "(u64 \<Rightarrow> image_error + 'd decoded_instruction) \<Rightarrow> bool" where
  "decoder_advances decode \<longleftrightarrow> (\<forall>a i. decode a = Inr i \<longrightarrow> insn_address i = a \<and> a < next_address i)"

lemma decode_block_returns:
  assumes "advancing an" "decoder_advances decode"
  shows "\<exists>l. decode_block decode an c a = Some l \<and> contiguous l \<and> (l \<noteq> [] \<longrightarrow> insn_address (hd l) = c)"
proof (induction c rule: measure_induct_rule [where f = "\<lambda>a. 2 ^ 64 - unat a"])
  case (less c)
  define d where "d = (case bt_get (an_instructions an) c of Some insn \<Rightarrow> Inr insn | None \<Rightarrow> decode c)"
  show ?case
  proof (cases "\<exists>i. d = Inr i \<and> c < a")
    case False
    then have "decode_block decode an c a = Some []" using d_def by (subst decode_block.simps) (auto split: sum.split)
    then show ?thesis by simp
  next
    case True
    then obtain i where i: "d = Inr i" "c < a" by blast
    have adr: "insn_address i = c \<and> c < next_address i"
      using i(1) assms(2) advancing_get [OF assms(1), of c] by (auto simp: d_def decoder_advances_def split: option.splits)
    have "unat (next_address i) < 2 ^ LENGTH(64)" by (rule unsigned_less)
    then have "2 ^ 64 - unat (next_address i) < 2 ^ 64 - unat c" using adr by (auto simp: word_less_nat_alt)
    from less.IH [OF this] obtain l where l: "decode_block decode an (next_address i) a = Some l" "contiguous l"
      "l \<noteq> [] \<longrightarrow> insn_address (hd l) = next_address i" by blast
    have "decode_block decode an c a = Some (i # l)"
      using i l(1) by (subst decode_block.simps) (simp add: d_def [symmetric])
    then show ?thesis using l adr by (cases l) auto
  qed
qed

lemma walk_block_error:
  "walk_block decode an g start b a count pending = Inl e \<Longrightarrow> e = too_many_insns start"
proof (induction decode an g start b a count pending rule: walk_block.induct)
  case (1 decode an g start b a count pending)
  from "1.prems" show ?case
    by (subst (asm) walk_block.simps) (auto dest: "1.IH" [rotated -1] simp: Let_def split: option.splits if_splits)
qed

text \<open>A block of a view: straight-line code from its address on.\<close>

definition decoded_run :: "'d basic_block \<Rightarrow> bool" where
  "decoded_run b \<longleftrightarrow> insns b \<noteq> [] \<and> insn_address (hd (insns b)) = block_addr b \<and> contiguous (insns b)"

lemma compat_loop_returns:
  assumes "advancing an" "decoder_advances decode"
    and "distinct (map block_addr found)" "block_addr ` set found \<subseteq> done'" "list_all decoded_run found"
  shows "\<exists>r. compat_loop decode an g start pending done' count found = Some r
    \<and> (case r of Inl e \<Rightarrow> e = too_many_insns start | Inr bs \<Rightarrow> distinct (map block_addr bs) \<and> list_all decoded_run bs)"
  using assms
proof (induction decode an g start pending done' count found rule: compat_loop.induct)
  case (1 decode an g start done' count found)
  then show ?case by simp
next
  case (2 decode an g start b pending done' count found)
  show ?case
  proof (cases "b \<in> done'")
    case True
    then show ?thesis using "2.IH"(1) "2.prems" by simp
  next
    case False
    show ?thesis
    proof (cases "walk_block decode an g start b b count pending")
      case (Inl e)
      then show ?thesis using False walk_block_error [OF Inl] by simp
    next
      case (Inr w)
      obtain a es count' pending' where w: "w = (a, es, count', pending')" by (cases w)
      obtain l where l: "decode_block decode an b a = Some l" "contiguous l" "l \<noteq> [] \<longrightarrow> insn_address (hd l) = b"
        using decode_block_returns [OF "2.prems"(1,2)] by blast
      let ?found = "if l = [] then found else found @ [\<lparr>block_addr = b, insns = l, succs = es\<rparr>]"
      have "distinct (map block_addr ?found)" "block_addr ` set ?found \<subseteq> insert b done'" "list_all decoded_run ?found"
        using "2.prems"(3-5) False l(2,3) by (auto simp: decoded_run_def list_all_iff)
      from "2.IH"(2) [OF False Inr w [symmetric] refl refl l(1) "2.prems"(1,2) this] show ?thesis using False Inr w l(1) by simp
    qed
  qed
qed

lemma native_view_runs:
  assumes "advancing an" "\<not> MAX_INSNS_PER_FUNCTION < card (reachable_code an g start isolate)"
  shows "\<exists>f. native_view an g start isolate = Some (Inr f) \<and> func_addr f = start
    \<and> sorted_wrt (<) (map block_addr (blocks f)) \<and> list_all decoded_run (blocks f)"
proof -
  define R where "R = reachable_code an g start isolate"
  define S where "S = block_starts an g start R"
  obtain f where f: "native_view an g start isolate = Some (Inr f)" "func_addr f = start"
    "sorted_wrt (<) (map block_addr (blocks f))" "block_addr ` set (blocks f) = S \<inter> R"
    "\<And>b. b \<in> set (blocks f) \<Longrightarrow> block_from an g R S (block_addr b) (block_addr b) (insns b) (succs b)"
    using native_view_blocks [OF assms R_def S_def] by blast
  have sub: "R \<subseteq> {x. has_insn an x}" unfolding R_def reachable_code_def using code_walk.reached_node by blast
  have "decoded_run b" if b: "b \<in> set (blocks f)" for b
  proof -
    have "block_addr b \<in> R" using f(4) b by blast
    from block_from_addresses [OF f(5) [OF b] assms(1) sub this order_refl] block_from_contiguous [OF f(5) [OF b] assms(1)]
    show ?thesis by (simp add: decoded_run_def)
  qed
  with f(1-3) show ?thesis by (auto simp: list_all_iff)
qed

text \<open>
  C24: when instructions lie before their successors, in the table of recovered code and for
  the decoder, the construction of a function's view ends in both modes. The only error is the
  limit on instructions; otherwise the blocks are in ascending order of distinct addresses and
  each one is non-empty straight-line code from its address on.
\<close>

theorem function_view_terminates:
  assumes "advancing an" "decoder_advances decode"
  shows "\<exists>r. build_function_view decode an g start isolate = Some r
    \<and> (case r of Inl e \<Rightarrow> e = too_many_insns start
        | Inr f \<Rightarrow> func_addr f = start \<and> sorted_wrt (<) (map block_addr (blocks f)) \<and> list_all decoded_run (blocks f))"
proof (cases "compatibility g")
  case True
  obtain r where r: "compat_loop decode an g start [start] {} 0 [] = Some r"
    "case r of Inl e \<Rightarrow> e = too_many_insns start | Inr bs \<Rightarrow> distinct (map block_addr bs) \<and> list_all decoded_run bs"
    using compat_loop_returns [OF assms, of "[]" "{}" g start "[start]" 0] by auto
  then show ?thesis using True
    by (auto simp: build_function_view_def build_compatibility_view_def strict_sorted_iff list_all_iff distinct_map
        simp del: compat_loop.simps split: sum.splits)
next
  case False
  show ?thesis
  proof (cases "MAX_INSNS_PER_FUNCTION < card (reachable_code an g start isolate)")
    case True
    then show ?thesis using False by (simp add: build_function_view_def native_view_def reach_loop_start)
  next
    case small: False
    obtain f where f: "native_view an g start isolate = Some (Inr f)" "func_addr f = start"
      "sorted_wrt (<) (map block_addr (blocks f))"
      "list_all decoded_run (blocks f)"
      using native_view_runs [OF assms(1) small] by blast
    then show ?thesis using False by (simp add: build_function_view_def)
  qed
qed

theorem function_view_terminates_witness:
  "\<exists>r. build_function_view (\<lambda>a. Inl (AddressNotMapped a)) sample_code (sample_graph True) 1 False = Some r"
proof -
  have "decoder_advances (\<lambda>a. Inl (AddressNotMapped a) :: image_error + unit decoded_instruction)"
    by (simp add: decoder_advances_def)
  from function_view_terminates [OF sample_code_ok(1) this, of "sample_graph True" 1 False] show ?thesis by blast
qed

end
