(* ===== verification/Operands.thy ===== *)
theory Operands
  imports Decoder
begin

text \<open>
  \<^verbatim>\<open>capa-x/src/extract/x86/operand.rs\<close>: the operand classes of the reference extractor,
  recovered from the decoder's operand kinds. A signed 64-bit integer is an \<open>int\<close>.
\<close>

datatype operand =
    Imm int
  | ImmMem u64
  | RegMem x86_register int
  | Sib x86_register int "u64 option"
  | RipRel u64
  | Reg x86_register
  | Other_Operand

definition sign_extend_displacement :: "x86_instruction \<Rightarrow> int" where
  "sign_extend_displacement i =
     (if memory_displ_size i = 8 then sint (memory_displacement64 i)
      else sint (ucast (memory_displacement64 i) :: u32))"

definition is_immediate_kind :: "op_kind \<Rightarrow> bool" where
  "is_immediate_kind k \<longleftrightarrow>
     k \<in> {Immediate8, Immediate8_2nd, Immediate16, Immediate32, Immediate64, Immediate8to16, Immediate8to32,
          Immediate8to64, Immediate32to64}"

definition classify_memory :: "x86_instruction \<Rightarrow> operand" where
  "classify_memory i =
     (if is_ip_rel_memory_operand i then RipRel (ip_rel_memory_address i)
      else
        let base = memory_base i;
            base_less_sib = (base = No_Register \<and> is_code64 i);
            encoded_sib_base = (base \<in> {ESP, RSP, R12D, R12})
        in if memory_index i \<noteq> No_Register \<or> base_less_sib \<or> encoded_sib_base then
             (if base = No_Register then Sib base 0 (Some (memory_displacement64 i))
              else Sib base (sign_extend_displacement i) None)
           else if base = No_Register then ImmMem (memory_displacement64 i)
           else RegMem base (sign_extend_displacement i))"

definition classify_operand :: "x86_instruction \<Rightarrow> nat \<Rightarrow> operand" where
  "classify_operand i index =
     (let kind = op_kind_of i index
      in if kind = Register_Op then Reg (op_register i index)
         else if kind = Memory_Op then classify_memory i
         else if is_immediate_kind kind then Imm (sint (op_immediate i index))
         else Other_Operand)"

end
