(* ===== verification/Insn_Features.thy ===== *)
theory Insn_Features
  imports Operands Recovered Freeze Strings Carve Ordinals
begin

text \<open>
  \<^verbatim>\<open>capa-x/src/extract/x86/insn_features.rs\<close>: the features of an x86 instruction. The mnemonic
  the library's formatter prints is a field of the instruction; the names of recognised
  library functions are part of the context.
\<close>

unbundle bit_operations_syntax

definition THUNK_CHAIN_DEPTH_DELTA :: nat where
  "THUNK_CHAIN_DEPTH_DELTA = 5"

definition MAX_STRUCTURE_SIZE :: int where
  "MAX_STRUCTURE_SIZE = 0x10000"

definition SECURITY_COOKIE_BYTES_DELTA :: u64 where
  "SECURITY_COOKIE_BYTES_DELTA = 0x40"

definition STRING_SCAN_WINDOW :: nat where
  "STRING_SCAN_WINDOW = 0x10000"

definition DESTRUCTIVE_MNEMONICS :: "string list" where
  "DESTRUCTIVE_MNEMONICS = [''mov'', ''lea'', ''pop'', ''xor'']"

type_synonym x86_analysis = "x86_instruction analysis"
type_synonym x86_function = "x86_instruction recovered_function"
type_synonym x86_block = "x86_instruction basic_block"

record insn_context =
  ctx_analysis :: x86_analysis
  ctx_libraries :: "(u64, string) btree"
  ctx_function :: x86_function
  ctx_block :: x86_block

abbreviation at_insn :: "x86_insn \<Rightarrow> feature \<Rightarrow> address \<times> feature" where
  "at_insn insn f \<equiv> (Absolute (insn_address insn), f)"

definition mnemonic_text :: "x86_insn \<Rightarrow> string" where
  "mnemonic_text insn =
     (case mnemonic_override insn of
        Some m \<Rightarrow> m
      | None \<Rightarrow> to_ascii_lowercase (formatted_mnemonic (arch_detail insn)))"

section \<open>References and definitions\<close>

definition is_plt_thunk :: "x86_analysis \<Rightarrow> x86_function \<Rightarrow> bool" where
  "is_plt_thunk an f \<longleftrightarrow>
     format (an_image an) = Elf
     \<and> list_ex (\<lambda>(start, end'). start \<le> func_addr f \<and> func_addr f < end') (elf_plt_ranges (an_image an))
     \<and> (case blocks f of
          [b] \<Rightarrow> insns b \<noteq> [] \<and> insn_flow (last (insns b)) = IndirectBranch
                 \<and> (case memory_target (last (insns b)) of
                      None \<Rightarrow> False
                    | Some slot \<Rightarrow> external_bindings (an_image an) slot \<noteq> None)
        | _ \<Rightarrow> False)"

definition is_thunk_function :: "x86_analysis \<Rightarrow> x86_function \<Rightarrow> bool" where
  "is_thunk_function an f \<longleftrightarrow>
     is_plt_thunk an f
     \<or> (case concat (map insns (blocks f)) of
          [only] \<Rightarrow> flow_control_of (arch_detail only) \<in> {FC_UnconditionalBranch, FC_IndirectBranch}
        | _ \<Rightarrow> False)"

definition falls_through :: "x86_instruction \<Rightarrow> bool" where
  "falls_through i \<longleftrightarrow> flow_control_of i \<notin> {FC_UnconditionalBranch, FC_IndirectBranch, FC_Return}"

text \<open>The last entry below an address, \<^verbatim>\<open>range(..va).next_back()\<close>.\<close>

definition entry_below :: "('k :: linorder, 'v) btree \<Rightarrow> 'k \<Rightarrow> ('k \<times> 'v) option" where
  "entry_below m k = (let es = filter (\<lambda>e. fst e < k) m in if es = [] then None else Some (last es))"

definition is_call_at :: "x86_analysis \<Rightarrow> u64 \<Rightarrow> bool" where
  "is_call_at an address \<longleftrightarrow>
     (case bt_get (an_instructions an) address of
        None \<Rightarrow> False
      | Some insn \<Rightarrow> flow_control_of (arch_detail insn) \<in> {FC_Call, FC_IndirectCall})"

definition get_previous_instructions :: "x86_analysis \<Rightarrow> u64 \<Rightarrow> u64 list" where
  "get_previous_instructions an va =
     (case entry_below (an_instructions an) va of
        None \<Rightarrow> []
      | Some (prev_addr, prev_insn) \<Rightarrow>
          if saturating_add_u64 prev_addr (of_nat (length (insn_bytes prev_insn))) = va
             \<and> falls_through (arch_detail prev_insn) \<and> prev_addr \<notin> noreturn_calls an
          then [prev_addr] else [])
     @ (case bt_get (code_xrefs an) va of
          None \<Rightarrow> []
        | Some sources \<Rightarrow> filter (\<lambda>source. \<not> is_call_at an source) sources)"

definition destroys :: "x86_insn \<Rightarrow> x86_register \<Rightarrow> bool" where
  "destroys insn r \<longleftrightarrow>
     op_count (arch_detail insn) \<noteq> 0 \<and> classify_operand (arch_detail insn) 0 = Reg r
     \<and> mnemonic_text insn \<in> set DESTRUCTIVE_MNEMONICS"

definition defined_value :: "x86_insn \<Rightarrow> u64 option" where
  "defined_value insn =
     (if mnemonic_text insn \<noteq> ''mov'' then None
      else
        (case classify_operand (arch_detail insn) 1 of
           Imm v \<Rightarrow> Some (of_int v)
         | ImmMem v \<Rightarrow> Some v
         | RipRel v \<Rightarrow> Some v
         | _ \<Rightarrow> None))"

function definition_search :: "x86_analysis \<Rightarrow> x86_register \<Rightarrow> u64 list \<Rightarrow> u64 set \<Rightarrow> u64 option" where
  "definition_search an r [] seen = None"
| "definition_search an r (cur # queue) seen =
     (if cur \<in> seen then definition_search an r queue seen
      else
        (case bt_get (an_instructions an) cur of
           None \<Rightarrow> definition_search an r queue (insert cur seen)
         | Some insn \<Rightarrow>
             if destroys insn r then defined_value insn
             else definition_search an r (queue @ get_previous_instructions an cur) (insert cur seen)))"
  by pat_completeness auto
termination
proof (relation "measures
    [\<lambda>(an, r, queue, seen). card (fst ` set (an_instructions an) - seen), \<lambda>(an, r, queue, seen). length queue]", goal_cases)
  case (3 an r cur queue seen)
  have "card (fst ` set (an_instructions an) - insert cur seen) \<le> card (fst ` set (an_instructions an) - seen)"
    by (intro card_mono) auto
  then show ?case by (auto simp: le_less)
next
  case (4 an r cur queue seen insn)
  then have "fst ` set (an_instructions an) - insert cur seen \<subset> fst ` set (an_instructions an) - seen"
    by (force dest: map_of_SomeD)
  then show ?case by (simp add: psubset_card_mono)
qed auto

declare definition_search.simps [simp del]

definition find_definition :: "x86_analysis \<Rightarrow> u64 \<Rightarrow> x86_register \<Rightarrow> u64 option" where
  "find_definition an va r = definition_search an r (get_previous_instructions an va) {}"

definition code_ref_from :: "x86_analysis \<Rightarrow> u64 \<Rightarrow> u64 option" where
  "code_ref_from an va =
     Option.bind (bt_get (an_instructions an) va) (\<lambda>insn.
       if va \<in> noreturn_calls an
          \<and> \<not> (case direct_target insn of
                 None \<Rightarrow> False
               | Some target \<Rightarrow>
                   (case bt_get (code_xrefs an) target of None \<Rightarrow> False | Some sources \<Rightarrow> va \<in> set sources))
       then None
       else if flow_control_of (arch_detail insn) \<in> {FC_Call, FC_UnconditionalBranch, FC_ConditionalBranch} then
         (case direct_target insn of Some t \<Rightarrow> Some t | None \<Rightarrow> memory_target insn)
       else if flow_control_of (arch_detail insn) \<in> {FC_IndirectCall, FC_IndirectBranch} then
         (case memory_target insn of
            Some t \<Rightarrow> Some t
          | None \<Rightarrow>
              (case classify_operand (arch_detail insn) 0 of
                 Reg r \<Rightarrow>
                   Option.bind (find_definition an va r) (\<lambda>target.
                     if external_bindings (an_image an) target \<noteq> None then Some target else None)
               | _ \<Rightarrow> None))
       else None)"

section \<open>Pointers\<close>

definition is_valid_pointer :: "loaded_image \<Rightarrow> u64 \<Rightarrow> bool" where
  "is_valid_pointer img address \<longleftrightarrow>
     (case section_containing img address of None \<Rightarrow> False | Some s \<Rightarrow> perm_read (sec_permissions s))"

definition is_probably_mapped_address :: "loaded_image \<Rightarrow> int \<Rightarrow> bool" where
  "is_probably_mapped_address img v \<longleftrightarrow> 0 \<le> v \<and> v < 2 ^ 64 \<and> is_valid_pointer img (of_int v)"

definition string_window :: "loaded_image \<Rightarrow> u64 \<Rightarrow> u8 list" where
  "string_window img p = (case bytes_at img p STRING_SCAN_WINDOW of None \<Rightarrow> [] | Some w \<Rightarrow> w)"

function derefs_loop :: "loaded_image \<Rightarrow> u64 \<Rightarrow> nat \<Rightarrow> u64 list" where
  "derefs_loop img p depth =
     (if \<not> is_valid_pointer img p then []
      else if is_probably_string (string_window img p) then [p]
      else
        (case read_pointer img p of
           None \<Rightarrow> [p]
         | Some next' \<Rightarrow>
             if next' = p then [p]
             else if 10 < depth + 1 then [p]
             else p # derefs_loop img next' (depth + 1)))"
  by pat_completeness auto
termination
  by (relation "measure (\<lambda>(img, p, depth). 10 - depth)") auto

declare derefs_loop.simps [simp del]

definition derefs :: "loaded_image \<Rightarrow> u64 \<Rightarrow> u64 list" where
  "derefs img start = derefs_loop img start 0"

section \<open>API calls\<close>

definition is_near_branch :: "x86_instruction \<Rightarrow> bool" where
  "is_near_branch i \<longleftrightarrow> is_near_branch_kind (op_kind_of i 0)"

definition api_names :: "insn_context \<Rightarrow> x86_insn \<Rightarrow> u64 \<Rightarrow> located" where
  "api_names ctx insn target =
     (case external_bindings (an_image (ctx_analysis ctx)) target of
        None \<Rightarrow> []
      | Some names \<Rightarrow> map (\<lambda>nm. at_insn insn (Api nm)) names)"

text \<open>The walk along a chain of thunks, \<open>n\<close> more steps at most.\<close>

fun thunk_chain :: "insn_context \<Rightarrow> x86_insn \<Rightarrow> nat \<Rightarrow> u64 \<Rightarrow> located" where
  "thunk_chain ctx insn 0 target = []"
| "thunk_chain ctx insn (Suc n) target =
     api_names ctx insn target
     @ (let target = (if bytes_at (an_image (ctx_analysis ctx)) target 3 = Some [0xf3, 0x0f, 0x1e] then target + 4 else target)
        in case code_ref_from (ctx_analysis ctx) target of
             None \<Rightarrow> []
           | Some next_target \<Rightarrow> thunk_chain ctx insn n next_target)"

definition branch_api_features :: "insn_context \<Rightarrow> x86_insn \<Rightarrow> located" where
  "branch_api_features ctx insn =
     (case code_ref_from (ctx_analysis ctx) (insn_address insn) of
        None \<Rightarrow> []
      | Some target \<Rightarrow>
          (if format (an_image (ctx_analysis ctx)) = Elf then
             (case bt_get (elf_function_symbols (ctx_analysis ctx)) target of
                None \<Rightarrow> []
              | Some names \<Rightarrow> map (\<lambda>nm. at_insn insn (Api nm)) names)
           else [])
          @ (case bt_get (ctx_libraries ctx) target of
               Some nm \<Rightarrow>
                 at_insn insn (Api nm)
                 # (case strip_prefix ''_'' nm of None \<Rightarrow> [] | Some unmangled \<Rightarrow> [at_insn insn (Api unmangled)])
             | None \<Rightarrow> thunk_chain ctx insn THUNK_CHAIN_DEPTH_DELTA target))"

definition extract_insn_api_features :: "insn_context \<Rightarrow> x86_insn \<Rightarrow> string \<Rightarrow> located" where
  "extract_insn_api_features ctx insn mnemonic =
     (if mnemonic \<noteq> ''call'' \<and> mnemonic \<noteq> ''jmp'' then []
      else if mnemonic = ''jmp'' \<and> is_thunk_function (ctx_analysis ctx) (ctx_function ctx) then []
      else
        (case classify_operand (arch_detail insn) 0 of
           ImmMem target \<Rightarrow> api_names ctx insn target
         | RipRel target \<Rightarrow> api_names ctx insn target
         | Reg r \<Rightarrow>
             (case find_definition (ctx_analysis ctx) (insn_address insn) r of
                None \<Rightarrow> []
              | Some target \<Rightarrow> api_names ctx insn target)
         | _ \<Rightarrow> if is_near_branch (arch_detail insn) then branch_api_features ctx insn else []))"

section \<open>Bytes and characteristics\<close>

text \<open>The address a bytes feature is looked for at; absolute memory operands have none.\<close>

definition bytes_operand :: "operand \<Rightarrow> u64 option" where
  "bytes_operand op =
     (case op of
        Imm v \<Rightarrow> Some (of_int v)
      | RegMem _ disp \<Rightarrow> Some (of_int disp)
      | Sib _ _ (Some imm) \<Rightarrow> Some imm
      | RipRel a \<Rightarrow> Some a
      | _ \<Rightarrow> None)"

definition bytes_at_candidate :: "insn_context \<Rightarrow> x86_insn \<Rightarrow> u64 \<Rightarrow> located" where
  "bytes_at_candidate ctx insn candidate =
     (case bytes_at (an_image (ctx_analysis ctx)) candidate MAX_BYTES_FEATURE_SIZE of
        None \<Rightarrow> []
      | Some buf \<Rightarrow> if all_zeros buf \<or> is_probably_string buf then [] else [at_insn insn (Bytes buf)])"

definition extract_insn_bytes_features :: "insn_context \<Rightarrow> x86_insn \<Rightarrow> string \<Rightarrow> located" where
  "extract_insn_bytes_features ctx insn mnemonic =
     (if mnemonic = ''call'' then []
      else
        concat (map (\<lambda>i.
          (case bytes_operand (classify_operand (arch_detail insn) i) of
             None \<Rightarrow> []
           | Some v \<Rightarrow> concat (map (bytes_at_candidate ctx insn) (derefs (an_image (ctx_analysis ctx)) v))))
          [0..<op_count (arch_detail insn)]))"

definition is_security_cookie :: "x86_function \<Rightarrow> x86_block \<Rightarrow> x86_insn \<Rightarrow> bool" where
  "is_security_cookie f b insn =
     (if 2 \<le> op_count (arch_detail insn)
         \<and> (case classify_operand (arch_detail insn) 1 of Reg r \<Rightarrow> r \<notin> {ESP, EBP, RBP, RSP} | _ \<Rightarrow> False)
      then False
      else if blocks f = [] then False
      else if block_addr b = block_addr (hd (blocks f))
              \<and> insn_address insn < block_addr b + SECURITY_COOKIE_BYTES_DELTA then True
      else if insns b \<noteq> [] \<and> flow_control_of (arch_detail (last (insns b))) = FC_Return then
        (let block_end = saturating_add_u64 (insn_address (last (insns b))) (of_nat (length (insn_bytes (last (insns b)))));
             block_size = saturating_sub_u64 block_end (block_addr b)
         in block_addr b + block_size - SECURITY_COOKIE_BYTES_DELTA < insn_address insn)
      else False)"

definition extract_insn_nzxor_characteristic_features :: "insn_context \<Rightarrow> x86_insn \<Rightarrow> string \<Rightarrow> located" where
  "extract_insn_nzxor_characteristic_features ctx insn mnemonic =
     (if mnemonic \<notin> {''xor'', ''xorpd'', ''xorps'', ''pxor''} then []
      else if 2 \<le> op_count (arch_detail insn)
              \<and> classify_operand (arch_detail insn) 0 = classify_operand (arch_detail insn) 1 then []
      else if is_security_cookie (ctx_function ctx) (ctx_block ctx) insn then []
      else [at_insn insn (Characteristic ''nzxor'')])"

definition extract_insn_obfs_call_plus_5_characteristic_features :: "x86_insn \<Rightarrow> string \<Rightarrow> located" where
  "extract_insn_obfs_call_plus_5_characteristic_features insn mnemonic =
     (if mnemonic \<noteq> ''call'' then []
      else
        let expected = insn_address insn + 5;
            hit = (if is_near_branch (arch_detail insn) then near_branch_target (arch_detail insn) = expected
                   else (case classify_operand (arch_detail insn) 0 of
                           ImmMem target \<Rightarrow> target = expected
                         | RipRel target \<Rightarrow> target = expected
                         | _ \<Rightarrow> False))
        in if hit then [at_insn insn (Characteristic ''call $+5'')] else [])"

definition peb_operand :: "x86_register \<Rightarrow> operand \<Rightarrow> bool" where
  "peb_operand segment op =
     (case op of
        RegMem _ disp \<Rightarrow> segment = FS \<and> disp = 0x30 \<or> segment = GS \<and> disp = 0x60
      | ImmMem a \<Rightarrow> segment = FS \<and> a = 0x30 \<or> segment = GS \<and> a = 0x60
      | Sib _ _ imm \<Rightarrow> segment = GS \<and> imm = Some 0x60
      | _ \<Rightarrow> False)"

definition extract_insn_peb_access_characteristic_features :: "x86_insn \<Rightarrow> string \<Rightarrow> located" where
  "extract_insn_peb_access_characteristic_features insn mnemonic =
     (if mnemonic \<noteq> ''push'' \<and> mnemonic \<noteq> ''mov'' then []
      else
        concat (map (\<lambda>i.
          if peb_operand (segment_prefix (arch_detail insn)) (classify_operand (arch_detail insn) i)
          then [at_insn insn (Characteristic ''peb access'')] else [])
          [0..<op_count (arch_detail insn)]))"

definition extract_insn_segment_access_features :: "x86_insn \<Rightarrow> located" where
  "extract_insn_segment_access_features insn =
     (if segment_prefix (arch_detail insn) = FS then [at_insn insn (Characteristic ''fs access'')]
      else if segment_prefix (arch_detail insn) = GS then [at_insn insn (Characteristic ''gs access'')]
      else [])"

definition branch_targets :: "x86_analysis \<Rightarrow> x86_insn \<Rightarrow> u64 list" where
  "branch_targets an insn =
     (let fc = flow_control_of (arch_detail insn)
      in if fc \<in> {FC_Call, FC_UnconditionalBranch, FC_ConditionalBranch, FC_XbeginXabortXend}
         then (case direct_target insn of None \<Rightarrow> [] | Some t \<Rightarrow> [t])
         else if fc = FC_IndirectCall then (case memory_target insn of None \<Rightarrow> [] | Some t \<Rightarrow> [t])
         else if fc = FC_IndirectBranch then jump_table_targets (an_image an) insn
         else [])"

definition calls_import :: "x86_analysis \<Rightarrow> x86_insn \<Rightarrow> bool" where
  "calls_import an insn =
     (case classify_operand (arch_detail insn) 0 of
        ImmMem a \<Rightarrow> external_bindings (an_image an) a \<noteq> None
      | RipRel a \<Rightarrow> external_bindings (an_image an) a \<noteq> None
      | _ \<Rightarrow> False)"

definition extract_insn_cross_section_cflow :: "insn_context \<Rightarrow> x86_insn \<Rightarrow> string \<Rightarrow> located" where
  "extract_insn_cross_section_cflow ctx insn mnemonic =
     concat (map (\<lambda>target.
       if mnemonic = ''call'' \<and> calls_import (ctx_analysis ctx) insn then []
       else
         (case (section_containing (an_image (ctx_analysis ctx)) (insn_address insn),
                section_containing (an_image (ctx_analysis ctx)) target) of
            (Some source_section, Some target_section) \<Rightarrow>
              if sec_address source_section \<noteq> sec_address target_section
              then [at_insn insn (Characteristic ''cross section flow'')] else []
          | _ \<Rightarrow> []))
       (branch_targets (ctx_analysis ctx) insn))"

definition extract_function_calls_from :: "x86_insn \<Rightarrow> u64 \<Rightarrow> string \<Rightarrow> located" where
  "extract_function_calls_from insn function_addr mnemonic =
     (if mnemonic \<noteq> ''call'' then []
      else
        let target = (case classify_operand (arch_detail insn) 0 of
                ImmMem t \<Rightarrow> Some t
              | RipRel t \<Rightarrow> Some t
              | _ \<Rightarrow> if is_near_branch (arch_detail insn) then Some (near_branch_target (arch_detail insn)) else None)
        in case target of
             None \<Rightarrow> []
           | Some t \<Rightarrow>
               (Absolute t, Characteristic ''calls from'')
               # (if t = function_addr then [(Absolute t, Characteristic ''recursive call'')] else []))"

definition extract_function_indirect_call_characteristic_features :: "x86_insn \<Rightarrow> string \<Rightarrow> located" where
  "extract_function_indirect_call_characteristic_features insn mnemonic =
     (if mnemonic \<noteq> ''call'' then []
      else
        (case classify_operand (arch_detail insn) 0 of
           Reg _ \<Rightarrow> [at_insn insn (Characteristic ''indirect call'')]
         | RegMem _ _ \<Rightarrow> [at_insn insn (Characteristic ''indirect call'')]
         | Sib _ _ _ \<Rightarrow> [at_insn insn (Characteristic ''indirect call'')]
         | _ \<Rightarrow> []))"

section \<open>Operands\<close>

definition immediate_width :: "op_kind \<Rightarrow> nat" where
  "immediate_width k =
     (if k \<in> {Immediate8, Immediate8_2nd} then 8
      else if k \<in> {Immediate16, Immediate8to16} then 16
      else if k \<in> {Immediate32, Immediate8to32, Immediate32to64} then 32
      else 64)"

definition immediate_number_value :: "x86_instruction \<Rightarrow> nat \<Rightarrow> int" where
  "immediate_number_value i index =
     (let width_bits = immediate_width (op_kind_of i index)
      in if 64 \<le> width_bits then uint (op_immediate i index)
         else uint (op_immediate i index AND (push_bit width_bits 1 - 1)))"

definition extract_op_number_features :: "insn_context \<Rightarrow> x86_insn \<Rightarrow> string \<Rightarrow> nat \<Rightarrow> located" where
  "extract_op_number_features ctx insn mnemonic i =
     (let op = classify_operand (arch_detail insn) i
      in case (case op of
                 Imm _ \<Rightarrow> Some (immediate_number_value (arch_detail insn) i)
               | ImmMem v \<Rightarrow> Some (uint v)
               | _ \<Rightarrow> None) of
           None \<Rightarrow> []
         | Some v \<Rightarrow>
             if is_probably_mapped_address (an_image (ctx_analysis ctx)) v then []
             else if mnemonic = ''add''
                     \<and> (op_register (arch_detail insn) 0 = RSP
                        \<or> arch (an_image (ctx_analysis ctx)) = X86 \<and> op_register (arch_detail insn) 0 = ESP) then []
             else
               [at_insn insn (Number (NInt v)), at_insn insn (OperandNumber (of_nat i) (NInt v))]
               @ (if mnemonic = ''add'' \<and> 0 < v \<and> v < MAX_STRUCTURE_SIZE \<and> (case op of Imm _ \<Rightarrow> True | _ \<Rightarrow> False)
                  then [at_insn insn (Offset v), at_insn insn (OperandOffset (of_nat i) v)] else []))"

definition extract_op_offset_features :: "insn_context \<Rightarrow> x86_insn \<Rightarrow> string \<Rightarrow> nat \<Rightarrow> located" where
  "extract_op_offset_features ctx insn mnemonic i =
     (case classify_operand (arch_detail insn) i of
        RegMem base disp \<Rightarrow>
          if base \<in> {ESP, EBP, RBP} then []
          else
            [at_insn insn (Offset disp), at_insn insn (OperandOffset (of_nat i) disp)]
            @ (if mnemonic = ''lea'' \<and> i = 1 \<and> \<not> is_probably_mapped_address (an_image (ctx_analysis ctx)) disp
               then [at_insn insn (Number (NInt disp)), at_insn insn (OperandNumber (of_nat i) (NInt disp))] else [])
      | Sib _ disp _ \<Rightarrow> [at_insn insn (Offset disp), at_insn insn (OperandOffset (of_nat i) disp)]
      | _ \<Rightarrow> [])"

definition string_operand :: "operand \<Rightarrow> u64 option" where
  "string_operand op =
     (case op of
        Imm v \<Rightarrow> Some (of_int v)
      | ImmMem v \<Rightarrow> Some v
      | Sib _ _ (Some imm) \<Rightarrow> Some imm
      | RipRel v \<Rightarrow> Some v
      | _ \<Rightarrow> None)"

text \<open>The length of a Rust string is that of its UTF-8 encoding, which is the length of the model's string.\<close>

definition string_at_candidate :: "insn_context \<Rightarrow> x86_insn \<Rightarrow> u64 \<Rightarrow> located" where
  "string_at_candidate ctx insn candidate =
     (case Option.bind (bytes_at (an_image (ctx_analysis ctx)) candidate STRING_SCAN_WINDOW) string_at of
        None \<Rightarrow> []
      | Some s \<Rightarrow> if 4 \<le> length s then [at_insn insn (Str (Plain s))] else [])"

definition extract_op_string_features :: "insn_context \<Rightarrow> x86_insn \<Rightarrow> nat \<Rightarrow> located" where
  "extract_op_string_features ctx insn i =
     (case string_operand (classify_operand (arch_detail insn) i) of
        None \<Rightarrow> []
      | Some v \<Rightarrow> concat (map (string_at_candidate ctx insn) (derefs (an_image (ctx_analysis ctx)) v)))"

definition extract_operand_features :: "insn_context \<Rightarrow> x86_insn \<Rightarrow> string \<Rightarrow> located" where
  "extract_operand_features ctx insn mnemonic =
     concat (map (\<lambda>i.
       extract_op_number_features ctx insn mnemonic i
       @ extract_op_offset_features ctx insn mnemonic i
       @ extract_op_string_features ctx insn i)
       [0..<op_count (arch_detail insn)])"

definition insn_extract_features :: "insn_context \<Rightarrow> x86_insn \<Rightarrow> located" where
  "insn_extract_features ctx insn =
     (let mnemonic = mnemonic_text insn
      in extract_insn_api_features ctx insn mnemonic
         @ extract_insn_bytes_features ctx insn mnemonic
         @ extract_insn_nzxor_characteristic_features ctx insn mnemonic
         @ [at_insn insn (Mnemonic mnemonic)]
         @ extract_insn_obfs_call_plus_5_characteristic_features insn mnemonic
         @ extract_insn_peb_access_characteristic_features insn mnemonic
         @ extract_insn_cross_section_cflow ctx insn mnemonic
         @ extract_insn_segment_access_features insn
         @ extract_function_calls_from insn (func_addr (ctx_function ctx)) mnemonic
         @ extract_function_indirect_call_characteristic_features insn mnemonic
         @ extract_operand_features ctx insn mnemonic)"

end
