(* ===== verification/Block_Features.thy ===== *)
theory Block_Features
  imports Insn_Features
begin

text \<open>
  \<^verbatim>\<open>capa-x/src/extract/x86/basicblock_features.rs\<close>: the features of a basic block: the block
  itself, a tight loop, and a string built on the stack; and its counterpart for 64-bit ARM.
\<close>

definition MIN_STACKSTRING_LEN :: nat where
  "MIN_STACKSTRING_LEN = 8"

definition bb_has_tight_loop :: "x86_block \<Rightarrow> bool" where
  "bb_has_tight_loop b =
     (if insns b = [] then False
      else flow_control_of (arch_detail (last (insns b))) = FC_ConditionalBranch
           \<and> direct_target (last (insns b)) = Some (block_addr b))"

definition extract_bb_tight_loop :: "x86_block \<Rightarrow> located" where
  "extract_bb_tight_loop b =
     (if bb_has_tight_loop b then [(Absolute (block_addr b), Characteristic ''tight loop'')] else [])"

definition is_mov_imm_to_stack :: "x86_insn \<Rightarrow> bool" where
  "is_mov_imm_to_stack insn =
     (starts_with (mnemonic_text insn) ''mov''
      \<and> op_count (arch_detail insn) = 2
      \<and> (case classify_operand (arch_detail insn) 1 of Imm _ \<Rightarrow> True | _ \<Rightarrow> False)
      \<and> (case classify_operand (arch_detail insn) 0 of
           RegMem base _ \<Rightarrow> base \<in> {EBP, RBP, ESP, RSP}
         | Sib base _ _ \<Rightarrow> base \<in> {EBP, RBP, ESP, RSP}
         | _ \<Rightarrow> False))"

definition is_printable_ascii :: "u8 list \<Rightarrow> bool" where
  "is_printable_ascii chars = list_all (\<lambda>b. 0x20 \<le> b \<and> b \<le> 0x7e \<or> 0x09 \<le> b \<and> b \<le> 0x0d) chars"

text \<open>\<^verbatim>\<open>step_by(2)\<close> and \<^verbatim>\<open>skip(1).step_by(2)\<close>.\<close>

fun every_other :: "'a list \<Rightarrow> 'a list" where
  "every_other [] = []"
| "every_other [x] = [x]"
| "every_other (x # _ # xs) = x # every_other xs"

definition is_printable_utf16le :: "u8 list \<Rightarrow> bool" where
  "is_printable_utf16le chars =
     (if list_all (\<lambda>b. b = 0) (every_other (drop 1 chars)) then is_printable_ascii (every_other chars) else False)"

text \<open>The low bytes of an integer, least significant first.\<close>

fun le_bytes :: "nat \<Rightarrow> int \<Rightarrow> u8 list" where
  "le_bytes 0 v = []"
| "le_bytes (Suc n) v = of_int v # le_bytes n (v div 256)"

definition printable_len :: "x86_insn \<Rightarrow> nat" where
  "printable_len insn =
     (case classify_operand (arch_detail insn) 1 of
        Imm v \<Rightarrow>
          (let tsize = memory_size_bytes (arch_detail insn)
           in if tsize \<in> {1, 2, 4, 8} then
                (if is_printable_ascii (le_bytes tsize v) then tsize
                 else if is_printable_utf16le (le_bytes tsize v) then tsize div 2
                 else 0)
              else 0)
      | _ \<Rightarrow> 0)"

fun stackstring_loop :: "x86_insn list \<Rightarrow> nat \<Rightarrow> bool" where
  "stackstring_loop [] count = False"
| "stackstring_loop (insn # rest) count =
     (let count = (if is_mov_imm_to_stack insn then count + printable_len insn else count)
      in if MIN_STACKSTRING_LEN < count then True else stackstring_loop rest count)"

definition bb_has_stackstring :: "x86_block \<Rightarrow> bool" where
  "bb_has_stackstring b = stackstring_loop (insns b) 0"

definition extract_stackstring :: "x86_block \<Rightarrow> located" where
  "extract_stackstring b =
     (if bb_has_stackstring b then [(Absolute (block_addr b), Characteristic ''stack string'')] else [])"

definition bb_extract_features :: "x86_block \<Rightarrow> located" where
  "bb_extract_features b = (Absolute (block_addr b), BasicBlock) # extract_bb_tight_loop b @ extract_stackstring b"

section \<open>64-bit ARM\<close>

text \<open>\<^verbatim>\<open>capa-x/src/extract/aarch64/basicblock_features.rs\<close>: any edge back to the block is a tight loop.\<close>

definition a64_bb_tight_loop :: "'d basic_block \<Rightarrow> located" where
  "a64_bb_tight_loop b =
     (if list_ex (\<lambda>e. edge_target e = block_addr b) (succs b)
      then [(Absolute (block_addr b), Characteristic ''tight loop'')] else [])"

definition a64_bb_extract_features :: "'d basic_block \<Rightarrow> located" where
  "a64_bb_extract_features b = (Absolute (block_addr b), BasicBlock) # a64_bb_tight_loop b"

end
