(* ===== verification/A64_Features.thy ===== *)
theory A64_Features
  imports Insn_Features
begin

text \<open>
  \<^verbatim>\<open>capa-x/src/extract/aarch64/features.rs\<close>: the features of a 64-bit ARM instruction. The
  operands are read back from the text that the decoder library displays; that text is a
  field of the opcode.
\<close>

unbundle bit_operations_syntax

definition OFFSET_SINGLE_MNEMONICS :: "string list" where
  "OFFSET_SINGLE_MNEMONICS =
     [''ldr'', ''ldrb'', ''ldrh'', ''ldrsb'', ''ldrsh'', ''ldrex'', ''ldrd'', ''str'', ''strb'', ''strh'', ''strex'', ''strd'']"

definition OFFSET_PAIR_MNEMONICS :: "string list" where
  "OFFSET_PAIR_MNEMONICS = [''ldp'', ''stp'']"

type_synonym a64_analysis = "a64_opcode option analysis"
type_synonym a64_function = "a64_opcode option recovered_function"
type_synonym a64_block = "a64_opcode option basic_block"

record a64_context =
  a64_analysis_of :: a64_analysis
  a64_function_of :: a64_function
  a64_materialized :: "u64 \<rightharpoonup> u64"

abbreviation at_a64 :: "a64_insn \<Rightarrow> feature \<Rightarrow> address \<times> feature" where
  "at_a64 insn f \<equiv> (Absolute (insn_address insn), f)"

section \<open>Operand texts\<close>

definition is_formattable :: "insn_class \<Rightarrow> bool" where
  "is_formattable c \<longleftrightarrow>
     c \<in> {PCRELADDR, ADDSUB_IMM, LOG_IMM, LOG_SHIFT, LDST_POS, LDST_IMM9, LOADLIT, LDSTPAIR_OFF, LDSTPAIR_INDEXED, MOVEWIDE}"

text \<open>\<^verbatim>\<open>split_once\<close> and \<^verbatim>\<open>split\<close> with a text as separator.\<close>

definition split_once_str :: "string \<Rightarrow> string \<Rightarrow> (string \<times> string) option" where
  "split_once_str sep s = map_option (\<lambda>i. (take i s, drop (i + length sep) s)) (find_str sep s)"

function split_str :: "string \<Rightarrow> string \<Rightarrow> string list" where
  "split_str sep s =
     (if sep = [] then [s]
      else (case split_once_str sep s of None \<Rightarrow> [s] | Some (a, b) \<Rightarrow> a # split_str sep b))"
  by pat_completeness auto

lemma find_str_le: "find_str needle s = Some i \<Longrightarrow> i + length needle \<le> length s"
proof (induction s arbitrary: i)
  case (Cons c s)
  then show ?case by (subst (asm) find_str.simps) (auto split: if_splits dest: prefix_length_le)
qed (subst (asm) find_str.simps, auto split: if_splits)

lemma split_once_str_shorter: "split_once_str sep s = Some (a, b) \<Longrightarrow> sep \<noteq> [] \<Longrightarrow> length b < length s"
  by (cases sep) (auto simp: split_once_str_def dest!: find_str_le)

termination split_str
  by (relation "measure (\<lambda>(sep, s). length s)") (auto simp: split_once_str_shorter)

declare split_str.simps [simp del]

definition operand_text :: "a64_opcode \<Rightarrow> u64 \<Rightarrow> string" where
  "operand_text opcode pc =
     (case split_once_str [CHR 0x09, CHR 0x09] (a64_display opcode pc) of None \<Rightarrow> [] | Some (_, rest) \<Rightarrow> rest)"

text \<open>\<^verbatim>\<open>trim_end_matches\<close> with a text.\<close>

function trim_end_matches :: "string \<Rightarrow> string \<Rightarrow> string" where
  "trim_end_matches p s =
     (if p = [] then s else (case strip_suffix p s of None \<Rightarrow> s | Some r \<Rightarrow> trim_end_matches p r))"
  by pat_completeness auto
termination
  by (relation "measure (\<lambda>(p, s). length s)") (auto simp: strip_suffix_Some_iff)

declare trim_end_matches.simps [simp del]

definition SHIFT_EXTEND_PREFIXES :: "string list" where
  "SHIFT_EXTEND_PREFIXES =
     [''lsl'', ''lsr'', ''asr'', ''ror'', ''uxtb'', ''uxth'', ''uxtw'', ''uxtx'', ''sxtb'', ''sxth'', ''sxtx'']"

definition raw_operands :: "string \<Rightarrow> string list" where
  "raw_operands text =
     (case find_str ''['' text of
        Some bracket \<Rightarrow>
          (let operands = trim_end_matches '', '' (take bracket text)
           in (if operands = [] then [] else split_str '', '' operands) @ [drop bracket text])
      | None \<Rightarrow> split_str '', '' text)"

definition merge_suffix :: "string \<Rightarrow> string list \<Rightarrow> string list" where
  "merge_suffix part merged =
     (if list_ex (\<lambda>p. starts_with part p) SHIFT_EXTEND_PREFIXES \<and> merged \<noteq> []
      then butlast merged @ [last merged @ '', '' @ part]
      else merged @ [part])"

definition split_operands :: "string \<Rightarrow> string list" where
  "split_operands text = (if text = [] then [] else fold merge_suffix (raw_operands text) [])"

section \<open>Numbers in operands\<close>

definition u32_parse :: "string \<Rightarrow> nat option" where
  "u32_parse s =
     (let ds = (case s of [] \<Rightarrow> [] | c # cs \<Rightarrow> if c = CHR ''+'' then cs else s)
      in if ds = [] then None
         else Option.bind (digits_value 10 0 ds) (\<lambda>n. if n < 2 ^ 32 then Some n else None))"

definition u64_from_hex :: "string \<Rightarrow> u64 option" where
  "u64_from_hex s =
     (let ds = (case s of [] \<Rightarrow> [] | c # cs \<Rightarrow> if c = CHR ''+'' then cs else s)
      in if ds = [] then None
         else Option.bind (digits_value 16 0 ds) (\<lambda>n. if n < 2 ^ 64 then Some (of_nat n) else None))"

definition reg_num :: "string \<Rightarrow> nat option" where
  "reg_num s =
     Option.bind (strip_prefix ''x'' (trim s)) (\<lambda>r.
     Option.bind (u32_parse r) (\<lambda>n. if n \<le> 30 then Some n else None))"

text \<open>The negation of a 64-bit integer wraps.\<close>

definition parse_signed :: "string \<Rightarrow> int option" where
  "parse_signed s0 =
     (let s = trim s0;
          (negative, rest) = (case strip_prefix ''-'' s of None \<Rightarrow> (False, s) | Some r \<Rightarrow> (True, r))
      in map_option (\<lambda>magnitude. if negative then sint (- (of_int magnitude :: u64)) else magnitude)
           (case strip_prefix ''0x'' rest of
              None \<Rightarrow> signed_from_str_radix (- (2 ^ 63)) (2 ^ 63 - 1) 10 rest
            | Some hex \<Rightarrow> signed_from_str_radix (- (2 ^ 63)) (2 ^ 63 - 1) 16 hex))"

definition parse_hash_imm :: "string \<Rightarrow> int option" where
  "parse_hash_imm s = Option.bind (strip_prefix ''#'' (trim s)) parse_signed"

definition parse_bare_hex :: "string \<Rightarrow> u64 option" where
  "parse_bare_hex s = Option.bind (strip_prefix ''0x'' (trim s)) u64_from_hex"

definition parse_plain_imm :: "string \<Rightarrow> int option" where
  "parse_plain_imm s0 =
     (let s = trim s0
      in case (case strip_suffix '', lsl #0x0'' s of Some r \<Rightarrow> Some r | None \<Rightarrow> strip_suffix '', lsl #0'' s) of
           Some without_zero_shift \<Rightarrow> parse_hash_imm without_zero_shift
         | None \<Rightarrow> if CHR '','' \<in> set s then None else parse_hash_imm s)"

definition keep_or_strip :: "string \<Rightarrow> string \<Rightarrow> string" where
  "keep_or_strip p s = (case strip_suffix p s of None \<Rightarrow> s | Some r \<Rightarrow> r)"

definition parse_bracket :: "(string \<Rightarrow> (string \<times> int) option) \<Rightarrow> string \<Rightarrow> (string \<times> int) option" where
  "parse_bracket bare s0 =
     (let s = trim s0
      in case find_str ''], #'' s of
           Some idx \<Rightarrow> map_option (\<lambda>v. (take (idx - 1) (drop 1 s), v)) (parse_signed (drop (idx + 4) s))
         | None \<Rightarrow>
             Option.bind (Option.bind (strip_prefix ''['' (keep_or_strip ''!'' s)) (strip_suffix '']'')) (\<lambda>inner.
               case split_once_str '', #'' inner of
                 Some (base, imm_str) \<Rightarrow> map_option (\<lambda>v. (base, v)) (parse_signed imm_str)
               | None \<Rightarrow> bare inner))"

definition parse_bracket_with_imm :: "string \<Rightarrow> (string \<times> int) option" where
  "parse_bracket_with_imm = parse_bracket (\<lambda>_. None)"

definition parse_bracket_any :: "string \<Rightarrow> (string \<times> int) option" where
  "parse_bracket_any = parse_bracket (\<lambda>inner. Some (inner, 0))"

section \<open>Materialised addresses\<close>

definition is_address_mapped :: "loaded_image \<Rightarrow> u64 \<Rightarrow> bool" where
  "is_address_mapped img v \<longleftrightarrow>
     (case section_containing img v of
        None \<Rightarrow> False
      | Some s \<Rightarrow> perm_read (sec_permissions s) \<or> perm_write (sec_permissions s) \<or> perm_execute (sec_permissions s))"

type_synonym tracked = "(nat \<rightharpoonup> u64) \<times> (u64 \<rightharpoonup> u64)"

abbreviation get_part :: "string list \<Rightarrow> nat \<Rightarrow> string option" where
  "get_part parts i \<equiv> if i < length parts then Some (parts ! i) else None"

text \<open>One instruction: the new tables, or \<open>None\<close> if it is not one of the recognised forms.\<close>

definition try_materialize_step :: "a64_insn \<Rightarrow> tracked \<Rightarrow> tracked option" where
  "try_materialize_step insn st =
     (let (known, out) = st
      in Option.bind (arch_detail insn) (\<lambda>opcode.
         if \<not> is_formattable (a64_class opcode) then None
         else
           let parts = split_operands (operand_text opcode (insn_address insn));
               c = a64_class opcode;
               m = a64_mnemonic opcode
           in if c = PCRELADDR \<and> m = ''adrp'' then
                Option.bind (Option.bind (get_part parts 0) reg_num) (\<lambda>rd.
                Option.bind (Option.bind (get_part parts 1) parse_bare_hex) (\<lambda>page.
                  Some (known(rd \<mapsto> page), out)))
              else if c = ADDSUB_IMM \<and> m = ''add'' \<and> length parts = 3 then
                Option.bind (reg_num (parts ! 0)) (\<lambda>rd.
                Option.bind (reg_num (parts ! 1)) (\<lambda>rn.
                Option.bind (parse_hash_imm (parts ! 2)) (\<lambda>imm.
                Option.bind (known rn) (\<lambda>base.
                  let v = wrapping_add_signed base imm in Some (known(rd \<mapsto> v), out(insn_address insn \<mapsto> v))))))
              else if c \<in> {LDST_POS, LDST_IMM9} \<and> m = ''ldr'' \<and> length parts = 2 then
                Option.bind (reg_num (parts ! 0)) (\<lambda>rt.
                Option.bind (parse_bracket_any (parts ! 1)) (\<lambda>(base_reg, imm).
                Option.bind (reg_num base_reg) (\<lambda>rn.
                Option.bind (known rn) (\<lambda>base.
                  Some (known(rt := None), out(insn_address insn \<mapsto> wrapping_add_signed base imm))))))
              else if c = LOADLIT \<and> m = ''ldr'' then
                Option.bind (Option.bind (get_part parts 0) reg_num) (\<lambda>rt.
                Option.bind (Option.bind (get_part parts 1) parse_bare_hex) (\<lambda>address.
                  Some (known(rt := None), out(insn_address insn \<mapsto> address))))
              else None))"

definition materialize_step :: "a64_insn \<Rightarrow> tracked \<Rightarrow> tracked" where
  "materialize_step insn st =
     (case try_materialize_step insn st of Some st' \<Rightarrow> st' | None \<Rightarrow> (Map.empty, snd st))"

definition materialize_addresses :: "a64_block \<Rightarrow> (u64 \<rightharpoonup> u64)" where
  "materialize_addresses b = snd (fold materialize_step (insns b) (Map.empty, Map.empty))"

section \<open>Features\<close>

definition a64_api_features :: "a64_context \<Rightarrow> a64_insn \<Rightarrow> located" where
  "a64_api_features ctx insn =
     (if insn_flow insn \<noteq> flow.Call then []
      else
        (case direct_target insn of
           None \<Rightarrow> []
         | Some target \<Rightarrow>
             (case external_bindings (an_image (a64_analysis_of ctx)) target of
                None \<Rightarrow> []
              | Some names \<Rightarrow> map (\<lambda>nm. at_a64 insn (Api nm)) names)))"

definition extract_movn_number_features :: "a64_context \<Rightarrow> a64_insn \<Rightarrow> string list \<Rightarrow> located" where
  "extract_movn_number_features ctx insn parts =
     (case parse_plain_imm (parts ! 1) of
        None \<Rightarrow> []
      | Some raw' \<Rightarrow>
          let is_64 = starts_with (trim (parts ! 0)) ''x'';
              masked = (if is_64 then NOT (of_int raw') else ucast (NOT (of_int raw' :: u32))) :: u64
          in if is_address_mapped (an_image (a64_analysis_of ctx)) masked then []
             else [at_a64 insn (Number (NInt (uint masked))), at_a64 insn (OperandNumber 1 (NInt (uint masked)))])"

definition a64_op_number :: "a64_context \<Rightarrow> a64_insn \<Rightarrow> string \<Rightarrow> nat \<times> string \<Rightarrow> located" where
  "a64_op_number ctx insn m ip =
     (let (i, part) = ip
      in case parse_plain_imm part of
           None \<Rightarrow> []
         | Some v \<Rightarrow>
             let masked = of_int v :: u64
             in if is_address_mapped (an_image (a64_analysis_of ctx)) masked then []
                else
                  [at_a64 insn (Number (NInt (uint masked))), at_a64 insn (OperandNumber (of_nat i) (NInt (uint masked)))]
                  @ (if m = ''add'' \<and> i = 2 \<and> 0 < v \<and> v < MAX_STRUCTURE_SIZE
                     then [at_a64 insn (Offset v), at_a64 insn (OperandOffset (of_nat i) v)] else []))"

text \<open>The zero register of a move in disguise is not an operand.\<close>

definition drop_zero_register :: "string \<Rightarrow> string list \<Rightarrow> string list" where
  "drop_zero_register m parts =
     (if m = ''orr'' \<and> length parts = 3 \<and> trim (parts ! 1) \<in> {''wzr'', ''xzr''} then [parts ! 0, parts ! 2] else parts)"

definition a64_number_features :: "a64_context \<Rightarrow> a64_insn \<Rightarrow> located" where
  "a64_number_features ctx insn =
     (case arch_detail insn of
        None \<Rightarrow> []
      | Some opcode \<Rightarrow>
          if \<not> is_formattable (a64_class opcode) then []
          else
            let parts = split_operands (operand_text opcode (insn_address insn));
                m = a64_mnemonic opcode
            in if m \<in> {''add'', ''sub''} \<and> (case get_part parts 1 of None \<Rightarrow> False | Some rn \<Rightarrow> trim rn = ''sp'') then []
               else
                 let parts = drop_zero_register m parts
                 in if m = ''movn'' \<and> length parts = 2 then extract_movn_number_features ctx insn parts
                    else concat (map (a64_op_number ctx insn m) (enumerate 0 parts)))"

definition a64_offset_features :: "a64_context \<Rightarrow> a64_insn \<Rightarrow> located" where
  "a64_offset_features ctx insn =
     (case arch_detail insn of
        None \<Rightarrow> []
      | Some opcode \<Rightarrow>
          case (if a64_mnemonic opcode \<in> set OFFSET_SINGLE_MNEMONICS then Some 2
                else if a64_mnemonic opcode \<in> set OFFSET_PAIR_MNEMONICS then Some 3 else None) of
            None \<Rightarrow> []
          | Some expected_len \<Rightarrow>
              if \<not> is_formattable (a64_class opcode) then []
              else
                let parts = split_operands (operand_text opcode (insn_address insn))
                in if length parts \<noteq> expected_len then []
                   else
                     let operand_index = length parts - 1
                     in case parse_bracket_with_imm (parts ! operand_index) of
                          None \<Rightarrow> []
                        | Some (base_reg, imm) \<Rightarrow>
                            if trim base_reg = ''sp'' then []
                            else if is_address_mapped (an_image (a64_analysis_of ctx)) (of_int imm) then []
                            else [at_a64 insn (Offset imm), at_a64 insn (OperandOffset (of_nat operand_index) imm)])"

definition a64_nzxor_features :: "a64_insn \<Rightarrow> located" where
  "a64_nzxor_features insn =
     (case arch_detail insn of
        None \<Rightarrow> []
      | Some opcode \<Rightarrow>
          if a64_mnemonic opcode \<noteq> ''eor'' then []
          else
            let parts = split_operands (operand_text opcode (insn_address insn));
                is_nzxor =
                  (if a64_class opcode = LOG_IMM then True
                   else if a64_class opcode = LOG_SHIFT \<and> is_formattable (a64_class opcode) then
                     length parts = 3 \<and> CHR '','' \<notin> set (parts ! 2) \<and> trim (parts ! 1) \<noteq> trim (parts ! 2)
                   else False)
            in if is_nzxor then [at_a64 insn (Characteristic ''nzxor'')] else [])"

definition first_at_zero :: "extracted_string list \<Rightarrow> string option" where
  "first_at_zero ss = (case ss of [] \<Rightarrow> None | s # _ \<Rightarrow> if es_offset s = 0 then Some (es_s s) else None)"

definition a64_bytes_string_features :: "a64_context \<Rightarrow> a64_insn \<Rightarrow> located" where
  "a64_bytes_string_features ctx insn =
     (case a64_materialized ctx (insn_address insn) of
        None \<Rightarrow> []
      | Some target \<Rightarrow>
          (case bytes_at (an_image (a64_analysis_of ctx)) target MAX_BYTES_FEATURE_SIZE of
             None \<Rightarrow> []
           | Some buf \<Rightarrow>
               if all_zeros buf then []
               else
                 (case first_at_zero (extract_ascii_strings buf 4) of
                    Some s \<Rightarrow> [at_a64 insn (Str (Plain s))]
                  | None \<Rightarrow>
                      (case first_at_zero (extract_unicode_strings buf 4) of
                         Some s \<Rightarrow> [at_a64 insn (Str (Plain s))]
                       | None \<Rightarrow> [at_a64 insn (Bytes buf)]))))"

definition a64_calls_from :: "a64_insn \<Rightarrow> u64 \<Rightarrow> located" where
  "a64_calls_from insn function_addr =
     (if insn_flow insn \<noteq> flow.Call then []
      else
        (case direct_target insn of
           None \<Rightarrow> []
         | Some t \<Rightarrow>
             (Absolute t, Characteristic ''calls from'')
             # (if t = function_addr then [(Absolute t, Characteristic ''recursive call'')] else [])))"

definition a64_indirect_call_features :: "a64_insn \<Rightarrow> located" where
  "a64_indirect_call_features insn =
     (if insn_flow insn = IndirectCall then [at_a64 insn (Characteristic ''indirect call'')] else [])"

definition a64_extract_features :: "a64_context \<Rightarrow> a64_insn \<Rightarrow> located" where
  "a64_extract_features ctx insn =
     a64_api_features ctx insn
     @ a64_number_features ctx insn
     @ a64_bytes_string_features ctx insn
     @ a64_offset_features ctx insn
     @ a64_nzxor_features insn
     @ (case arch_detail insn of None \<Rightarrow> [] | Some opcode \<Rightarrow> [at_a64 insn (Mnemonic (a64_mnemonic opcode))])
     @ a64_calls_from insn (func_addr (a64_function_of ctx))
     @ a64_indirect_call_features insn"

definition extract_block_insn_features ::
  "a64_analysis \<Rightarrow> a64_function \<Rightarrow> a64_block \<Rightarrow> (address, located) btree" where
  "extract_block_insn_features an f b =
     (let ctx = \<lparr>a64_analysis_of = an, a64_function_of = f, a64_materialized = materialize_addresses b\<rparr>
      in fold (\<lambda>insn. bt_insert (Absolute (insn_address insn)) (a64_extract_features ctx insn)) (insns b) [])"

definition is_prologue_candidate ::
  "(u32 \<Rightarrow> a64_opcode option) \<Rightarrow> loaded_image \<Rightarrow> u64 \<Rightarrow> bool" where
  "is_prologue_candidate a64_decode img address =
     (case decode_at_aarch64_checked a64_decode img address of
        Inl _ \<Rightarrow> False
      | Inr insn \<Rightarrow>
          (case arch_detail insn of
             None \<Rightarrow> False
           | Some opcode \<Rightarrow>
               if \<not> is_formattable (a64_class opcode) then False
               else
                 let parts = split_operands (operand_text opcode address);
                     c = a64_class opcode;
                     m = a64_mnemonic opcode
                 in if c = LDSTPAIR_INDEXED \<and> m = ''stp'' \<or> c = LDST_IMM9 \<and> m = ''str'' then
                      (if parts = [] then False
                       else (case parse_bracket_any (last parts) of
                               None \<Rightarrow> False
                             | Some (base, imm) \<Rightarrow> trim base = ''sp'' \<and> imm < 0))
                    else if c = ADDSUB_IMM \<and> m = ''sub'' then
                      (case get_part parts 0 of None \<Rightarrow> False | Some rd \<Rightarrow> trim rd = ''sp'')
                      \<and> (case get_part parts 1 of None \<Rightarrow> False | Some rn \<Rightarrow> trim rn = ''sp'')
                    else False))"

end
