(* ===== verification/Insn_Props.thy ===== *)
theory Insn_Props
  imports Block_Features A64_Features Loops Scopes Worklist
begin

text \<open>
  The features of instructions, blocks and functions: every one is of a kind that rules of the
  scope can ask for, and the searches behind them (definitions of a register, chains of
  pointers, materialised addresses) find what they should.
\<close>

section \<open>Legality\<close>

text \<open>What an extractor may report to a scope: a feature that rules of the scope can ask for, and no match of a rule.\<close>

definition legal_at :: "scope \<Rightarrow> feature \<Rightarrow> bool" where
  "legal_at sc f \<longleftrightarrow>
     ensure_feature_valid_for_scopes \<lparr>sc_static = Some sc, sc_dynamic = None\<rparr> f = Inr () \<and> (\<forall>nm. f \<noteq> MatchedRule nm)"

lemma scope_entry_insn: "scope_entry (Some InstructionScope) =
    \<lparr>kinds = {MatchedRuleKind, ApiKind, PropertyKind, NumberKind, StringFamily, BytesKind, OffsetKind, MnemonicKind,
        OperandNumberKind, OperandOffsetKind, ClassKindF, NamespaceKind, OsKind, ArchKind, FormatKind},
     characteristics = {''nzxor'', ''peb access'', ''fs access'', ''gs access'', ''indirect call'', ''call $+5'',
        ''cross section flow'', ''unmanaged call''}\<rparr>"
  unfolding scope_entry_def supported_features_def base_features_def inherit_from_def merge_into_def
  by (simp add: insert_commute)

lemma scope_entry_block: "scope_entry (Some BasicBlockScope) =
    \<lparr>kinds = kinds (scope_entry (Some InstructionScope)),
     characteristics = {''tight loop'', ''stack string''} \<union> characteristics (scope_entry (Some InstructionScope))\<rparr>"
  unfolding scope_entry_def supported_features_def base_features_def inherit_from_def merge_into_def
  by (simp add: insert_commute)

lemma scope_entry_function: "scope_entry (Some FunctionScope) =
    \<lparr>kinds = insert BasicBlockKind (kinds (scope_entry (Some InstructionScope))),
     characteristics = {''calls from'', ''calls to'', ''loop'', ''recursive call''}
       \<union> characteristics (scope_entry (Some BasicBlockScope))\<rparr>"
  unfolding scope_entry_def supported_features_def base_features_def inherit_from_def merge_into_def
  by (simp add: insert_commute)

lemma no_scope_entry: "scope_entry None = \<lparr>kinds = {}, characteristics = {}\<rparr>"
  by (simp add: scope_entry_def)

lemmas legal_simps =
  legal_at_def ensure_feature_valid_for_scopes_def Let_def scope_entry_insn scope_entry_block scope_entry_function no_scope_entry

text \<open>A feature reported at an instruction is one that rules on instructions can ask for.\<close>

definition at_instruction :: "u64 \<Rightarrow> address \<times> feature \<Rightarrow> bool" where
  "at_instruction a lf \<longleftrightarrow> fst lf = Absolute a \<and> legal_at InstructionScope (snd lf)"

lemma at_instruction_simps [simp]:
  "at_instruction a (Absolute a, Api n)" "at_instruction a (Absolute a, Bytes b)" "at_instruction a (Absolute a, Str s)"
  "at_instruction a (Absolute a, Number v)" "at_instruction a (Absolute a, Offset i)" "at_instruction a (Absolute a, Mnemonic m)"
  "at_instruction a (Absolute a, OperandNumber k v)" "at_instruction a (Absolute a, OperandOffset k i)"
  "at_instruction a (Absolute a, Characteristic c) \<longleftrightarrow>
     c \<in> {''nzxor'', ''peb access'', ''fs access'', ''gs access'', ''indirect call'', ''call $+5'', ''cross section flow'',
        ''unmanaged call''}"
  by (simp_all add: at_instruction_def legal_simps)

definition call_feature :: "address \<times> feature \<Rightarrow> bool" where
  "call_feature lf \<longleftrightarrow> snd lf \<in> {Characteristic ''calls from'', Characteristic ''recursive call''}
     \<and> legal_at FunctionScope (snd lf)"

abbreviation insn_feature_ok :: "u64 \<Rightarrow> address \<times> feature \<Rightarrow> bool" where
  "insn_feature_ok a lf \<equiv> at_instruction a lf \<or> call_feature lf"

lemma list_all_concat_map: "(\<And>x. x \<in> set xs \<Longrightarrow> list_all P (f x)) \<Longrightarrow> list_all P (concat (map f xs))"
  by (induction xs) auto

lemma list_all_map_const: "(\<And>x. P (f x)) \<Longrightarrow> list_all P (map f xs)"
  by (simp add: list_all_iff)

lemmas list_all_intros = list_all_concat_map list_all_map_const

lemma api_names_ok: "list_all (at_instruction (insn_address insn)) (api_names ctx insn t)"
  unfolding api_names_def
  by (cases "external_bindings (an_image (ctx_analysis ctx)) t") (auto intro!: list_all_map_const)

lemma thunk_chain_ok: "list_all (at_instruction (insn_address insn)) (thunk_chain ctx insn n t)"
  by (induction n arbitrary: t) (auto simp add: api_names_ok Let_def split: option.split)

lemma branch_api_ok: "list_all (at_instruction (insn_address insn)) (branch_api_features ctx insn)"
  unfolding branch_api_features_def
  by (auto simp add: thunk_chain_ok intro!: list_all_map_const split: option.split)

lemma api_features_ok: "list_all (at_instruction (insn_address insn)) (extract_insn_api_features ctx insn m)"
  unfolding extract_insn_api_features_def
  by (cases "classify_operand (arch_detail insn) 0") (simp_all add: api_names_ok branch_api_ok split: option.split)

lemma bytes_features_ok: "list_all (at_instruction (insn_address insn)) (extract_insn_bytes_features ctx insn m)"
  unfolding extract_insn_bytes_features_def bytes_at_candidate_def
  by (auto intro!: list_all_concat_map split: option.split)

lemma op_number_ok: "list_all (at_instruction (insn_address insn)) (extract_op_number_features ctx insn m i)"
  unfolding extract_op_number_features_def Let_def
  by (cases "classify_operand (arch_detail insn) i") simp_all

lemma op_offset_ok: "list_all (at_instruction (insn_address insn)) (extract_op_offset_features ctx insn m i)"
  unfolding extract_op_offset_features_def
  by (cases "classify_operand (arch_detail insn) i") simp_all

lemma op_string_ok: "list_all (at_instruction (insn_address insn)) (extract_op_string_features ctx insn i)"
  unfolding extract_op_string_features_def string_at_candidate_def
  by (auto intro!: list_all_concat_map split: option.split)

lemma operand_features_ok: "list_all (at_instruction (insn_address insn)) (extract_operand_features ctx insn m)"
  unfolding extract_operand_features_def
  by (rule list_all_concat_map) (simp add: op_number_ok op_offset_ok op_string_ok)

lemma cross_section_ok: "list_all (at_instruction (insn_address insn)) (extract_insn_cross_section_cflow ctx insn m)"
  unfolding extract_insn_cross_section_cflow_def
  by (auto intro!: list_all_concat_map split: option.split)

lemma peb_access_ok: "list_all (at_instruction (insn_address insn)) (extract_insn_peb_access_characteristic_features insn m)"
  unfolding extract_insn_peb_access_characteristic_features_def
  by (auto intro!: list_all_concat_map)

lemma indirect_call_ok:
  "list_all (at_instruction (insn_address insn)) (extract_function_indirect_call_characteristic_features insn m)"
  unfolding extract_function_indirect_call_characteristic_features_def
  by (cases "classify_operand (arch_detail insn) 0") simp_all

lemmas characteristic_features_ok =
  cross_section_ok peb_access_ok indirect_call_ok

lemma local_characteristics_ok:
  "list_all (at_instruction (insn_address insn)) (extract_insn_nzxor_characteristic_features ctx insn m)"
  "list_all (at_instruction (insn_address insn)) (extract_insn_obfs_call_plus_5_characteristic_features insn m)"
  "list_all (at_instruction (insn_address insn)) (extract_insn_segment_access_features insn)"
  by (simp_all add: extract_insn_nzxor_characteristic_features_def
      extract_insn_obfs_call_plus_5_characteristic_features_def extract_insn_segment_access_features_def Let_def)

lemma call_features_ok: "list_all call_feature (extract_function_calls_from insn a m)"
  unfolding extract_function_calls_from_def Let_def
  by (simp add: call_feature_def legal_simps split: option.split)

lemma insn_features_ok:
  "list_all (insn_feature_ok (insn_address insn)) (insn_extract_features ctx insn)"
proof -
  have "list_all (insn_feature_ok (insn_address insn)) xs" if "list_all (at_instruction (insn_address insn)) xs" for xs
    using that by (rule list.pred_mono_strong) simp
  moreover have "list_all (insn_feature_ok (insn_address insn)) xs" if "list_all call_feature xs" for xs
    using that by (rule list.pred_mono_strong) simp
  ultimately show ?thesis
    by (simp add: insn_extract_features_def Let_def api_features_ok bytes_features_ok operand_features_ok
        characteristic_features_ok local_characteristics_ok call_features_ok)
qed

section \<open>64-bit ARM instructions\<close>

lemma a64_api_ok: "list_all (at_instruction (insn_address insn)) (a64_api_features ctx insn)"
  unfolding a64_api_features_def by (auto intro!: list_all_map_const split: option.split)

lemma a64_op_number_ok: "list_all (at_instruction (insn_address insn)) (a64_op_number ctx insn m ip)"
  unfolding a64_op_number_def Let_def by (auto split: prod.split option.split)

lemma movn_ok: "list_all (at_instruction (insn_address insn)) (extract_movn_number_features ctx insn parts)"
  unfolding extract_movn_number_features_def Let_def by (simp split: option.split)

lemma a64_number_ok: "list_all (at_instruction (insn_address insn)) (a64_number_features ctx insn)"
proof (cases "arch_detail insn")
  case (Some opcode)
  then show ?thesis
    unfolding a64_number_features_def Let_def
    by (simp add: movn_ok list_all_concat_map [OF a64_op_number_ok])
qed (simp add: a64_number_features_def)

lemma a64_offset_ok: "list_all (at_instruction (insn_address insn)) (a64_offset_features ctx insn)"
  unfolding a64_offset_features_def Let_def by (simp split: option.split prod.split)

lemma a64_bytes_string_ok: "list_all (at_instruction (insn_address insn)) (a64_bytes_string_features ctx insn)"
  unfolding a64_bytes_string_features_def by (simp split: option.split)

lemma a64_local_ok:
  "list_all (at_instruction (insn_address insn)) (a64_nzxor_features insn)"
  "list_all (at_instruction (insn_address insn)) (a64_indirect_call_features insn)"
  unfolding a64_nzxor_features_def a64_indirect_call_features_def Let_def by (simp_all split: option.split)

lemma a64_calls_ok: "list_all call_feature (a64_calls_from insn a)"
  unfolding a64_calls_from_def by (simp add: call_feature_def legal_simps split: option.split)

lemma a64_features_ok:
  "list_all (insn_feature_ok (insn_address insn)) (a64_extract_features ctx insn)"
proof -
  have "list_all (insn_feature_ok (insn_address insn)) xs" if "list_all (at_instruction (insn_address insn)) xs" for xs
    using that by (rule list.pred_mono_strong) simp
  moreover have "list_all (insn_feature_ok (insn_address insn)) xs" if "list_all call_feature xs" for xs
    using that by (rule list.pred_mono_strong) simp
  ultimately show ?thesis
    by (simp add: a64_extract_features_def a64_api_ok a64_number_ok a64_offset_ok a64_bytes_string_ok a64_local_ok
        a64_calls_ok split: option.split)
qed

section \<open>Blocks and functions\<close>

text \<open>
  A block reports itself, which functions count; everything else it reports is for rules on
  blocks. The names of a function in its symbol table are features of the file.
\<close>

definition block_feature_ok :: "u64 \<Rightarrow> address \<times> feature \<Rightarrow> bool" where
  "block_feature_ok a lf \<longleftrightarrow>
     fst lf = Absolute a \<and> legal_at (if snd lf = BasicBlock then FunctionScope else BasicBlockScope) (snd lf)"

fun function_feature_ok :: "address \<times> feature \<Rightarrow> bool" where
  "function_feature_ok (a, FunctionName n) = legal_at FileScope (FunctionName n)"
| "function_feature_ok (a, f) = legal_at FunctionScope f"

lemma scope_entry_file: "FunctionNameKind \<in> kinds (scope_entry (Some FileScope))"
  unfolding scope_entry_def supported_features_def base_features_def inherit_from_def merge_into_def
  by simp

lemma block_features_ok:
  "list_all (block_feature_ok (block_addr b)) (bb_extract_features b)"
  "list_all (block_feature_ok (block_addr c)) (a64_bb_extract_features c)"
  by (simp_all add: block_feature_ok_def bb_extract_features_def extract_bb_tight_loop_def extract_stackstring_def
      a64_bb_extract_features_def a64_bb_tight_loop_def legal_simps)

lemma function_features_ok: "list_all function_feature_ok (function_extract_features an f)"
  unfolding function_extract_features_def extract_function_symtab_names_def extract_function_calls_to_def
    extract_function_loop_def Let_def
  by (auto simp: legal_simps scope_entry_file intro!: list_all_map_const split: option.split)


section \<open>Definitions of a register\<close>

definition unkilled_previous :: "x86_analysis \<Rightarrow> x86_register \<Rightarrow> u64 \<Rightarrow> u64 list" where
  "unkilled_previous an r a =
     (case bt_get (an_instructions an) a of
        None \<Rightarrow> []
      | Some insn \<Rightarrow> if destroys insn r then [] else get_previous_instructions an a)"

definition is_insn :: "x86_analysis \<Rightarrow> u64 \<Rightarrow> bool" where
  "is_insn an a \<longleftrightarrow> bt_get (an_instructions an) a \<noteq> None"

interpretation definition_walk: worklist "is_insn an" "unkilled_previous an r" "get_previous_instructions an va"
  for an r va
  by unfold_locales (simp only: is_insn_def dom_def [symmetric] finite_dom_map_of)

text \<open>The instructions that set the register and can run before an address with none that sets it between them.\<close>

definition reaching_definitions :: "x86_analysis \<Rightarrow> u64 \<Rightarrow> x86_register \<Rightarrow> u64 set" where
  "reaching_definitions an va r =
     {d \<in> reached (is_insn an) (unkilled_previous an r) (get_previous_instructions an va).
        case bt_get (an_instructions an) d of None \<Rightarrow> False | Some insn \<Rightarrow> destroys insn r}"

definition found_definition :: "x86_analysis \<Rightarrow> u64 \<Rightarrow> x86_register \<Rightarrow> u64 option \<Rightarrow> bool" where
  "found_definition an va r result \<longleftrightarrow>
     (if reaching_definitions an va r = {} then result = None
      else \<exists>d \<in> reaching_definitions an va r. result = Option.bind (bt_get (an_instructions an) d) defined_value)"

lemma definition_search_outcome:
  assumes "search_inv (is_insn an) (unkilled_previous an r) (get_previous_instructions an va) queue (Set.filter (is_insn an) seen)"
    and "\<forall>a \<in> seen. \<forall>insn. bt_get (an_instructions an) a = Some insn \<longrightarrow> \<not> destroys insn r"
  shows "found_definition an va r (definition_search an r queue seen)"
  using assms
proof (induction an r queue seen rule: definition_search.induct)
  case (1 an r seen)
  have "Set.filter (is_insn an) seen = reached (is_insn an) (unkilled_previous an r) (get_previous_instructions an va)"
    by (rule definition_walk.search_done [OF "1.prems"(1)])
  then have "reaching_definitions an va r = {}"
    using "1.prems"(2) unfolding reaching_definitions_def by (auto split: option.splits)
  then show ?case by (simp add: found_definition_def definition_search.simps)
next
  case (2 an r cur queue seen)
  show ?case
  proof (cases "cur \<in> seen \<or> \<not> is_insn an cur")
    case True
    then have inv: "search_inv (is_insn an) (unkilled_previous an r) (get_previous_instructions an va) queue
        (Set.filter (is_insn an) seen)"
      by (intro definition_walk.search_skip [OF "2.prems"(1)]) auto
    show ?thesis
    proof (cases "cur \<in> seen")
      case True
      then show ?thesis using "2.IH"(1) [OF True inv "2.prems"(2)] by (simp add: definition_search.simps)
    next
      case False
      then have none: "bt_get (an_instructions an) cur = None" using \<open>_ \<or> _\<close> by (simp add: is_insn_def)
      then have "Set.filter (is_insn an) (insert cur seen) = Set.filter (is_insn an) seen" by (auto simp: is_insn_def)
      then show ?thesis
        using "2.IH"(2) [OF False none] inv "2.prems"(2) False none by (simp add: definition_search.simps)
    qed
  next
    case False
    then obtain insn where cur: "cur \<notin> seen" "bt_get (an_instructions an) cur = Some insn" by (auto simp: is_insn_def)
    have node: "is_insn an cur" using cur(2) by (simp add: is_insn_def)
    show ?thesis
    proof (cases "destroys insn r")
      case True
      have "cur \<in> reached (is_insn an) (unkilled_previous an r) (get_previous_instructions an va)"
        using "2.prems"(1) node by (auto simp: search_inv_def)
      then have "cur \<in> reaching_definitions an va r" using cur(2) True by (simp add: reaching_definitions_def)
      moreover have "definition_search an r (cur # queue) seen = Option.bind (bt_get (an_instructions an) cur) defined_value"
        using cur True by (simp add: definition_search.simps)
      ultimately show ?thesis unfolding found_definition_def by auto
    next
      case False
      have "unkilled_previous an r cur = get_previous_instructions an cur"
        using cur(2) False by (simp add: unkilled_previous_def)
      then have "search_inv (is_insn an) (unkilled_previous an r) (get_previous_instructions an va)
          (queue @ get_previous_instructions an cur) (insert cur (Set.filter (is_insn an) seen))"
        by (intro definition_walk.search_visit [OF "2.prems"(1) node]) simp
      moreover have "insert cur (Set.filter (is_insn an) seen) = Set.filter (is_insn an) (insert cur seen)"
        using node by auto
      ultimately show ?thesis
        using "2.IH"(3) [OF cur False] "2.prems"(2) cur False by (simp add: definition_search.simps)
    qed
  qed
qed

text \<open>
  C23: the search for the value of a register at an instruction ends with a definition that
  reaches the instruction: one that sets the register and is followed, along fall-through and
  jumps (but no calls), by no other that sets it. The result is the value that definition
  loads, none if it is not a move of a constant; without a definition that reaches, there is
  none either.
\<close>

theorem find_definition_correct:
  "if reaching_definitions an va r = {} then find_definition an va r = None
   else \<exists>d \<in> reaching_definitions an va r.
     find_definition an va r = Option.bind (bt_get (an_instructions an) d) defined_value"
proof -
  have "found_definition an va r (find_definition an va r)"
    unfolding find_definition_def
    by (rule definition_search_outcome) (simp_all add: definition_walk.search_init)
  then show ?thesis by (simp add: found_definition_def)
qed

section \<open>Chains of pointers\<close>

text \<open>Each pointer is valid, and all but the last are no text and hold the next one.\<close>

fun pointer_chain :: "loaded_image \<Rightarrow> u64 list \<Rightarrow> bool" where
  "pointer_chain img [] = True"
| "pointer_chain img [p] = is_valid_pointer img p"
| "pointer_chain img (p # q # ps) =
     (is_valid_pointer img p \<and> \<not> is_probably_string (string_window img p) \<and> read_pointer img p = Some q \<and> q \<noteq> p
      \<and> pointer_chain img (q # ps))"

text \<open>Why a chain ends: at a text, at a pointer to itself, where no valid pointer can be read, or at the limit.\<close>

definition chain_ends :: "loaded_image \<Rightarrow> nat \<Rightarrow> u64 list \<Rightarrow> bool" where
  "chain_ends img limit ps \<longleftrightarrow>
     is_probably_string (string_window img (last ps)) \<or> length ps = limit
     \<or> (case read_pointer img (last ps) of None \<Rightarrow> True | Some q \<Rightarrow> q = last ps \<or> \<not> is_valid_pointer img q)"

lemma chain_ends_Cons: "chain_ends img n (q # qs) \<Longrightarrow> chain_ends img (Suc n) (p # q # qs)"
  unfolding chain_ends_def by (auto split: option.splits)

lemma derefs_loop_invalid: "\<not> is_valid_pointer img p \<Longrightarrow> derefs_loop img p depth = []"
  by (simp add: derefs_loop.simps)

lemma derefs_loop_head: "is_valid_pointer img p \<Longrightarrow> \<exists>ps. derefs_loop img p depth = p # ps"
  by (subst derefs_loop.simps) (simp split: option.split)

lemma derefs_loop_chain:
  "is_valid_pointer img p \<Longrightarrow> depth \<le> 10
   \<Longrightarrow> hd (derefs_loop img p depth) = p \<and> pointer_chain img (derefs_loop img p depth)
     \<and> length (derefs_loop img p depth) \<le> 11 - depth \<and> chain_ends img (11 - depth) (derefs_loop img p depth)"
proof (induction img p depth rule: derefs_loop.induct)
  case (1 img p depth)
  show ?case
  proof (cases "is_probably_string (string_window img p) \<or> read_pointer img p = None \<or> read_pointer img p = Some p
      \<or> 10 < depth + 1")
    case True
    then have "derefs_loop img p depth = [p]"
      using "1.prems"(1) by (subst derefs_loop.simps) (auto split: option.split)
    then show ?thesis using True "1.prems" by (auto simp: chain_ends_def split: option.split)
  next
    case False
    then obtain q where q: "read_pointer img p = Some q" "q \<noteq> p" by auto
    have unfold: "derefs_loop img p depth = p # derefs_loop img q (depth + 1)"
      using False q "1.prems"(1) by (subst derefs_loop.simps) simp
    show ?thesis
    proof (cases "is_valid_pointer img q")
      case True
      have ih: "hd (derefs_loop img q (depth + 1)) = q \<and> pointer_chain img (derefs_loop img q (depth + 1))
          \<and> length (derefs_loop img q (depth + 1)) \<le> 11 - (depth + 1)
          \<and> chain_ends img (11 - (depth + 1)) (derefs_loop img q (depth + 1))"
        using "1.IH" [OF _ _ q(1) q(2)] False True "1.prems"(1) by simp
      obtain qs where qs: "derefs_loop img q (depth + 1) = q # qs" using derefs_loop_head [OF True] by blast
      have "chain_ends img (Suc (10 - depth)) (p # q # qs)"
        using ih unfolding qs by (intro chain_ends_Cons) simp
      moreover have "Suc (10 - depth) = 11 - depth" using "1.prems"(2) by simp
      ultimately show ?thesis
        using ih False q "1.prems" unfolding unfold qs by auto
    next
      case False
      then show ?thesis using q "1.prems" unfolding unfold by (simp add: derefs_loop_invalid chain_ends_def)
    qed
  qed
qed

text \<open>
  The chain of pointers from an address is empty if the address is in no readable section;
  otherwise it starts at the address, every pointer of it is valid and holds the next one, only
  its last may be a text, it has at most eleven pointers, and it stops short of that only at a
  text, at a pointer to itself, or where no pointer to a readable section can be read.
\<close>

lemma derefs_correct:
  "if is_valid_pointer img start then
     hd (derefs img start) = start \<and> pointer_chain img (derefs img start) \<and> length (derefs img start) \<le> 11
     \<and> chain_ends img 11 (derefs img start)
   else derefs img start = []"
  using derefs_loop_chain [of img start 0] by (simp add: derefs_def derefs_loop_invalid)

section \<open>Strings on the stack\<close>

lemma stackstring_loop_sum:
  "count \<le> MIN_STACKSTRING_LEN
   \<Longrightarrow> stackstring_loop is' count \<longleftrightarrow>
     MIN_STACKSTRING_LEN < count + sum_list (map printable_len (filter is_mov_imm_to_stack is'))"
  by (induction is' arbitrary: count) (auto simp: Let_def)

text \<open>
  A block builds a string on the stack exactly if the constants it moves there hold more
  than eight printable characters in total, whatever stands between them.
\<close>

lemma stackstring_correct:
  "bb_has_stackstring b \<longleftrightarrow> 8 < sum_list (map printable_len (filter is_mov_imm_to_stack (insns b)))"
  using stackstring_loop_sum [of 0 "insns b"] by (simp add: bb_has_stackstring_def MIN_STACKSTRING_LEN_def)

section \<open>Materialised addresses\<close>

lemma map_option_bind': "map_option f (Option.bind m g) = Option.bind m (\<lambda>x. map_option f (g x))"
  by (cases m) simp_all

lemma bind_case_prod_cong: "map_option f (case p of (a, b) \<Rightarrow> g a b) = (case p of (a, b) \<Rightarrow> map_option f (g a b))"
  by (cases p) simp

lemma try_materialize_out:
  "try_materialize_step insn (known, out) =
     map_option (\<lambda>(k, more). (k, out ++ more)) (try_materialize_step insn (known, Map.empty))"
  unfolding try_materialize_step_def Let_def
  by (simp add: map_option_bind' bind_case_prod_cong if_distrib [of "map_option _"] cong: if_cong)

lemma materialize_step_out:
  "materialize_step insn (known, out) =
     (fst (materialize_step insn (known, Map.empty)), out ++ snd (materialize_step insn (known, Map.empty)))"
  unfolding materialize_step_def
  by (subst try_materialize_out) (simp split: option.split prod.split)

lemma materialize_fold_out:
  "fold materialize_step is' (known, out) =
     (fst (fold materialize_step is' (known, Map.empty)), out ++ snd (fold materialize_step is' (known, Map.empty)))"
proof (induction is' arbitrary: known out)
  case (Cons insn is')
  obtain k more where step: "materialize_step insn (known, Map.empty) = (k, more)" by fastforce
  have "fold materialize_step is' (k, out ++ more) =
      (fst (fold materialize_step is' (k, Map.empty)), (out ++ more) ++ snd (fold materialize_step is' (k, Map.empty)))"
    by (rule Cons.IH)
  moreover have "fold materialize_step is' (k, more) =
      (fst (fold materialize_step is' (k, Map.empty)), more ++ snd (fold materialize_step is' (k, Map.empty)))"
    by (rule Cons.IH)
  ultimately show ?case by (simp add: materialize_step_out [of insn known out] step)
qed simp

lemma materialize_step_unknown:
  "try_materialize_step insn st = None \<Longrightarrow> materialize_step insn st = (Map.empty, snd st)"
  by (simp add: materialize_step_def)

text \<open>
  No address is carried across an instruction that is not one of the recognised forms: the
  addresses of a block with such an instruction are those of the two parts around it, each
  on its own.
\<close>

lemma materialize_no_crossing:
  assumes "insns b = insns b1 @ insn # insns b2" "try_materialize_step insn = (\<lambda>st. None)"
  shows "materialize_addresses b = materialize_addresses b1 ++ materialize_addresses b2"
proof -
  have "fold materialize_step (insns b) (Map.empty, Map.empty) =
      fold materialize_step (insns b2) (Map.empty, materialize_addresses b1)"
    by (simp add: assms materialize_step_unknown materialize_addresses_def)
  also have "snd \<dots> = materialize_addresses b1 ++ materialize_addresses b2"
    by (subst materialize_fold_out) (simp add: materialize_addresses_def)
  finally show ?thesis unfolding materialize_addresses_def by simp
qed

definition example_insn :: "u64 \<Rightarrow> a64_opcode option \<Rightarrow> a64_insn" where
  "example_insn a opcode =
     \<lparr>insn_address = a, insn_bytes = [0, 0, 0, 0], next_address = a + 4, insn_flow = Next, direct_target = None,
      memory_target = None, mnemonic_override = None, arch_detail = opcode\<rparr>"

definition example_adrp :: a64_insn where
  "example_adrp = example_insn 0x1000 (Some \<lparr>a64_mnemonic = ''adrp'', a64_class = PCRELADDR, a64_bits = 0,
     a64_display = (\<lambda>pc. ''adrp'' @ [CHR 0x09, CHR 0x09] @ ''x0, 0x5000'')\<rparr>)"

definition example_add :: a64_insn where
  "example_add = example_insn 0x1008 (Some \<lparr>a64_mnemonic = ''add'', a64_class = ADDSUB_IMM, a64_bits = 0,
     a64_display = (\<lambda>pc. ''add'' @ [CHR 0x09, CHR 0x09] @ ''x1, x0, #0x10'')\<rparr>)"

definition example_block :: "a64_insn list \<Rightarrow> a64_block" where
  "example_block is' = \<lparr>block_addr = 0x1000, insns = is', succs = []\<rparr>"

lemmas example_simps =
  materialize_addresses_def materialize_step_def try_materialize_step_def example_block_def example_adrp_def
  example_add_def example_insn_def Let_def

lemma example_add_alone: "materialize_addresses (example_block [example_add]) = Map.empty"
  by (simp add: example_simps split: option.split bind_split)

lemma example_adrp_alone: "materialize_addresses (example_block [example_adrp]) = Map.empty"
  by (simp add: example_simps split: option.split bind_split)

lemma materialize_no_crossing_witness:
  "materialize_addresses (example_block [example_adrp, example_insn 0x1004 None, example_add]) = Map.empty"
proof -
  have "try_materialize_step (example_insn 0x1004 None) = (\<lambda>st. None)"
    by (rule ext) (simp add: try_materialize_step_def example_insn_def split: prod.split)
  then have "materialize_addresses (example_block [example_adrp, example_insn 0x1004 None, example_add]) =
      materialize_addresses (example_block [example_adrp]) ++ materialize_addresses (example_block [example_add])"
    by (intro materialize_no_crossing [where insn = "example_insn 0x1004 None"]) (simp_all add: example_block_def)
  then show ?thesis by (simp add: example_add_alone example_adrp_alone)
qed

end
