(* ===== verification/Result_Data.thy ===== *)
theory Result_Data
  imports Rules Address
begin

text \<open>
  \<^verbatim>\<open>capa-x/src/result_document/\<close>, the data model of the result document: addresses and
  features as they are written, match trees, rule metadata, and the metadata of an analysis.
  Serialisation is left to the library; the tags are part of the values that carry them.
\<close>

section \<open>Addresses\<close>

datatype address_value = AInt u64 | ATuple "u64 list"

record rd_address =
  rd_kind :: string
  rd_value :: "address_value option"

fun to_rd_address :: "address \<Rightarrow> rd_address" where
  "to_rd_address (Absolute v) = \<lparr>rd_kind = ''absolute'', rd_value = Some (AInt v)\<rparr>"
| "to_rd_address (Relative v) = \<lparr>rd_kind = ''relative'', rd_value = Some (AInt v)\<rparr>"
| "to_rd_address (File v) = \<lparr>rd_kind = ''file'', rd_value = Some (AInt v)\<rparr>"
| "to_rd_address (DnToken v) = \<lparr>rd_kind = ''dn token'', rd_value = Some (AInt (ucast v))\<rparr>"
| "to_rd_address (DnTokenOffset token offset) =
     \<lparr>rd_kind = ''dn token offset'', rd_value = Some (ATuple [ucast token, ucast offset])\<rparr>"
| "to_rd_address (Process ppid pid) = \<lparr>rd_kind = ''process'', rd_value = Some (ATuple [ucast ppid, ucast pid])\<rparr>"
| "to_rd_address (Thread ppid pid tid) =
     \<lparr>rd_kind = ''thread'', rd_value = Some (ATuple [ucast ppid, ucast pid, ucast tid])\<rparr>"
| "to_rd_address (Call ppid pid tid cid) =
     \<lparr>rd_kind = ''call'', rd_value = Some (ATuple [ucast ppid, ucast pid, ucast tid, cid])\<rparr>"
| "to_rd_address NoAddress = \<lparr>rd_kind = ''no address'', rd_value = None\<rparr>"

section \<open>Features\<close>

datatype rd_number = RdInt int | RdFloat f64

fun to_rd_number :: "number_value \<Rightarrow> rd_number" where
  "to_rd_number (NInt i) = RdInt i"
| "to_rd_number (NFloat f) = RdFloat f"

datatype rd_feature =
    RdOs string "string option"
  | RdArch string "string option"
  | RdFormat string "string option"
  | RdMatch string "string option"
  | RdCharacteristic string "string option"
  | RdExport string "string option"
  | RdImport string "string option"
  | RdSection string "string option"
  | RdFunctionName string "string option"
  | RdSubstring string "string option"
  | RdRegex string "string option"
  | RdString string "string option"
  | RdClass string "string option"
  | RdNamespace string "string option"
  | RdBasicBlock "string option"
  | RdApi string "string option"
  | RdProperty "string option" string "string option"
  | RdNumberF rd_number "string option"
  | RdBytes string "string option"
  | RdOffset int "string option"
  | RdMnemonic string "string option"
  | RdOperandNumber int rd_number "string option"
  | RdOperandOffset int int "string option"

fun rd_type_name :: "rd_feature \<Rightarrow> string" where
  "rd_type_name (RdOs _ _) = ''os''"
| "rd_type_name (RdArch _ _) = ''arch''"
| "rd_type_name (RdFormat _ _) = ''format''"
| "rd_type_name (RdMatch _ _) = ''match''"
| "rd_type_name (RdCharacteristic _ _) = ''characteristic''"
| "rd_type_name (RdExport _ _) = ''export''"
| "rd_type_name (RdImport _ _) = ''import''"
| "rd_type_name (RdSection _ _) = ''section''"
| "rd_type_name (RdFunctionName _ _) = ''function name''"
| "rd_type_name (RdSubstring _ _) = ''substring''"
| "rd_type_name (RdRegex _ _) = ''regex''"
| "rd_type_name (RdString _ _) = ''string''"
| "rd_type_name (RdClass _ _) = ''class''"
| "rd_type_name (RdNamespace _ _) = ''namespace''"
| "rd_type_name (RdBasicBlock _) = ''basic block''"
| "rd_type_name (RdApi _ _) = ''api''"
| "rd_type_name (RdProperty _ _ _) = ''property''"
| "rd_type_name (RdNumberF _ _) = ''number''"
| "rd_type_name (RdBytes _ _) = ''bytes''"
| "rd_type_name (RdOffset _ _) = ''offset''"
| "rd_type_name (RdMnemonic _ _) = ''mnemonic''"
| "rd_type_name (RdOperandNumber _ _ _) = ''operand number''"
| "rd_type_name (RdOperandOffset _ _ _) = ''operand offset''"

fun rd_description :: "rd_feature \<Rightarrow> string option" where
  "rd_description (RdOs _ d) = d"
| "rd_description (RdArch _ d) = d"
| "rd_description (RdFormat _ d) = d"
| "rd_description (RdMatch _ d) = d"
| "rd_description (RdCharacteristic _ d) = d"
| "rd_description (RdExport _ d) = d"
| "rd_description (RdImport _ d) = d"
| "rd_description (RdSection _ d) = d"
| "rd_description (RdFunctionName _ d) = d"
| "rd_description (RdSubstring _ d) = d"
| "rd_description (RdRegex _ d) = d"
| "rd_description (RdString _ d) = d"
| "rd_description (RdClass _ d) = d"
| "rd_description (RdNamespace _ d) = d"
| "rd_description (RdBasicBlock d) = d"
| "rd_description (RdApi _ d) = d"
| "rd_description (RdProperty _ _ d) = d"
| "rd_description (RdNumberF _ d) = d"
| "rd_description (RdBytes _ d) = d"
| "rd_description (RdOffset _ d) = d"
| "rd_description (RdMnemonic _ d) = d"
| "rd_description (RdOperandNumber _ _ d) = d"
| "rd_description (RdOperandOffset _ _ d) = d"

fun from_engine :: "feature \<Rightarrow> string option \<Rightarrow> string + rd_feature" where
  "from_engine (Api v) d = Inr (RdApi v d)"
| "from_engine (Str (Plain v)) d = Inr (RdString v d)"
| "from_engine (Str (Substring v)) d = Inr (RdSubstring v d)"
| "from_engine (Str (Regex re)) d = Inr (RdRegex (raw re) d)"
| "from_engine (Bytes v) d = Inr (RdBytes (hex_encode v) d)"
| "from_engine (Number v) d = Inr (RdNumberF (to_rd_number v) d)"
| "from_engine (Offset v) d = Inr (RdOffset v d)"
| "from_engine (OperandNumber i v) d = Inr (RdOperandNumber (uint i) (to_rd_number v) d)"
| "from_engine (OperandOffset i v) d = Inr (RdOperandOffset (uint i) v d)"
| "from_engine (Mnemonic v) d = Inr (RdMnemonic v d)"
| "from_engine (Characteristic v) d = Inr (RdCharacteristic v d)"
| "from_engine (Section v) d = Inr (RdSection v d)"
| "from_engine (Import v) d = Inr (RdImport v d)"
| "from_engine (Export v) d = Inr (RdExport v d)"
| "from_engine (FunctionName v) d = Inr (RdFunctionName v d)"
| "from_engine (Class v) d = Inr (RdClass v d)"
| "from_engine (Namespace v) d = Inr (RdNamespace v d)"
| "from_engine (Property nm acc) d = Inr (RdProperty (map_option access_as_str acc) nm d)"
| "from_engine (Os v) d = Inr (RdOs v d)"
| "from_engine (Arch v) d = Inr (RdArch v d)"
| "from_engine (Format v) d = Inr (RdFormat v d)"
| "from_engine (MatchedRule v) d = Inr (RdMatch v d)"
| "from_engine BasicBlock d = Inr (RdBasicBlock d)"
| "from_engine (Com kind v) d =
     Inl (''cannot render a `com/'' @ (case kind of ClassKind \<Rightarrow> ''class'' | InterfaceKind \<Rightarrow> ''interface'')
       @ ''` feature directly -- COM features must be expanded before matching'')"

section \<open>Match trees\<close>

datatype rd_statement =
    RdAnd "string option"
  | RdOr "string option"
  | RdNot "string option"
  | RdOptional "string option"
  | RdSome "string option" u64
  | RdRange "string option" u64 u64 rd_feature
  | RdSubscope "string option" string

fun st_type_name :: "rd_statement \<Rightarrow> string" where
  "st_type_name (RdAnd _) = ''and''"
| "st_type_name (RdOr _) = ''or''"
| "st_type_name (RdNot _) = ''not''"
| "st_type_name (RdOptional _) = ''optional''"
| "st_type_name (RdSome _ _) = ''some''"
| "st_type_name (RdRange _ _ _ _) = ''range''"
| "st_type_name (RdSubscope _ _) = ''subscope''"

fun st_description :: "rd_statement \<Rightarrow> string option" where
  "st_description (RdAnd d) = d"
| "st_description (RdOr d) = d"
| "st_description (RdNot d) = d"
| "st_description (RdOptional d) = d"
| "st_description (RdSome d _) = d"
| "st_description (RdRange d _ _ _) = d"
| "st_description (RdSubscope d _) = d"

datatype rd_node = StatementNode rd_statement | FeatureNode rd_feature

datatype rd_match =
  RdMatchTree (rd_success: bool) (rd_node: rd_node) (rd_children: "rd_match list")
    (rd_locations: "rd_address list") (rd_captures: "string \<rightharpoonup> rd_address list")

section \<open>Rule metadata\<close>

record rd_scopes =
  rds_static :: "string option"
  rds_dynamic :: "string option"

record attack_spec =
  at_parts :: "string list"
  at_tactic :: string
  at_technique :: string
  at_subtechnique :: string
  at_id :: string

record mbc_spec =
  mbc_parts :: "string list"
  mbc_objective :: string
  mbc_behavior :: string
  mbc_method :: string
  mbc_id :: string

text \<open>\<^verbatim>\<open>split("::")\<close>, and \<^verbatim>\<open>trim_start_matches\<close> and \<^verbatim>\<open>trim_end_matches\<close> with a character.\<close>

fun split_colons :: "string \<Rightarrow> string list" where
  "split_colons [] = [[]]"
| "split_colons [c] = [[c]]"
| "split_colons (c # d # s) =
     (if c = CHR '':'' \<and> d = CHR '':'' then [] # split_colons s
      else (case split_colons (d # s) of p # ps \<Rightarrow> (c # p) # ps | [] \<Rightarrow> [[c]]))"

definition trim_brackets :: "string \<Rightarrow> string" where
  "trim_brackets s =
     rev (dropWhile (\<lambda>c. c = CHR '']'') (rev (dropWhile (\<lambda>c. c = CHR ''['') s)))"

definition parse_parts_id :: "string \<Rightarrow> string list \<times> string" where
  "parse_parts_id s =
     (let parts = split_colons s
      in if parts = [] then ([], [])
         else
           let (rest, id_part) =
                 (case rfind_char (CHR '' '') (last parts) of
                    Some idx \<Rightarrow> (take idx (last parts), drop (idx + 1) (last parts))
                  | None \<Rightarrow> ([], last parts))
           in (butlast parts @ [rest], trim_brackets id_part))"

abbreviation part_or_empty :: "string list \<Rightarrow> nat \<Rightarrow> string" where
  "part_or_empty parts i \<equiv> if i < length parts then parts ! i else []"

definition attack_from_str :: "string \<Rightarrow> attack_spec" where
  "attack_from_str s =
     (let (parts, i) = parse_parts_id s
      in \<lparr>at_parts = parts, at_tactic = part_or_empty parts 0, at_technique = part_or_empty parts 1,
          at_subtechnique = part_or_empty parts 2, at_id = i\<rparr>)"

definition mbc_from_str :: "string \<Rightarrow> mbc_spec" where
  "mbc_from_str s =
     (let (parts, i) = parse_parts_id s
      in \<lparr>mbc_parts = parts, mbc_objective = part_or_empty parts 0, mbc_behavior = part_or_empty parts 1,
          mbc_method = part_or_empty parts 2, mbc_id = i\<rparr>)"

record maec_metadata =
  analysis_conclusion :: "string option"
  analysis_conclusion_ov :: "string option"
  malware_family :: "string option"
  malware_category :: "string option"
  malware_category_ov :: "string option"

record rule_metadata =
  rm_name :: string
  rm_namespace :: "string option"
  rm_authors :: "string list"
  rm_scopes :: rd_scopes
  rm_attack :: "attack_spec list"
  rm_mbc :: "mbc_spec list"
  rm_references :: "string list"
  rm_examples :: "string list"
  rm_description :: string
  rm_lib :: bool
  rm_is_subscope_rule :: bool
  rm_maec :: maec_metadata

record rule_matches =
  rms_meta :: rule_metadata
  rms_source :: string
  rms_matches :: "(rd_address \<times> rd_match) list"

section \<open>Metadata of an analysis\<close>

record sample =
  sample_md5 :: string
  sample_sha1 :: string
  sample_sha256 :: string
  sample_path :: string

record function_layout =
  fl_address :: rd_address
  matched_basic_blocks :: "rd_address list"

record call_layout =
  cl_address :: rd_address
  cl_name :: string

record thread_layout =
  tl_address :: rd_address
  matched_calls :: "call_layout list"

record process_layout =
  pl_address :: rd_address
  pl_name :: string
  matched_threads :: "thread_layout list"

record library_function =
  lf_address :: rd_address
  lf_name :: string

record feature_counts =
  fc_file :: u64
  fc_parts :: "(rd_address \<times> u64) list"

record analysis_common =
  ra_format :: string
  ra_arch :: string
  ra_os :: string
  ra_extractor :: string
  ra_rules :: "string list"
  ra_feature_counts :: feature_counts

record static_details = analysis_common +
  ra_base_address :: rd_address
  ra_static_layout :: "function_layout list"
  ra_library_functions :: "library_function list"

record dynamic_details = analysis_common +
  ra_dynamic_layout :: "process_layout list"

record metadata_head =
  md_timestamp :: string
  md_version :: string
  md_argv :: "string list option"
  md_sample :: sample

datatype metadata =
    StaticMetadata metadata_head static_details
  | DynamicMetadata metadata_head dynamic_details

datatype flavor = StaticFlavor | DynamicFlavor

fun md_flavor :: "metadata \<Rightarrow> flavor" where
  "md_flavor (StaticMetadata _ _) = StaticFlavor"
| "md_flavor (DynamicMetadata _ _) = DynamicFlavor"

fun md_sample_of :: "metadata \<Rightarrow> sample" where
  "md_sample_of (StaticMetadata h _) = md_sample h"
| "md_sample_of (DynamicMetadata h _) = md_sample h"

end
