(* ===== verification/From_Capa.thy ===== *)
theory From_Capa
  imports Result_Data Dynamic_Analysis Btree
begin

text \<open>
  \<^verbatim>\<open>capa-x/src/result_document/from_capa.rs\<close>: the result document of an analysis, built from the
  matches that the drivers collected. A match of another rule is replaced by that rule's own
  match tree, so the recursion is as deep as the rules refer to each other; its first argument
  bounds the depth of the call stack, and \<open>Inl None\<close> is the outcome of exceeding it.
\<close>

datatype from_capa_error =
    FeatureError string
  | MissingRuleMatch string string
  | SubscopeRuleMissingScope string

type_synonym 'a rendered = "from_capa_error option + 'a"

section \<open>Rule metadata\<close>

definition yaml_str :: "mapping \<Rightarrow> string \<Rightarrow> string option" where
  "yaml_str m k = (case mapping_get m k of Some (YString s) \<Rightarrow> Some s | _ \<Rightarrow> None)"

definition yaml_bool :: "mapping \<Rightarrow> string \<Rightarrow> bool" where
  "yaml_bool m k = (case mapping_get m k of Some (YBool b) \<Rightarrow> b | _ \<Rightarrow> False)"

definition rule_metadata_of :: "rule \<Rightarrow> rule_metadata" where
  "rule_metadata_of r =
     (let raw_meta = meta_raw (meta r)
      in \<lparr>rm_name = rule_name r, rm_namespace = namespace r, rm_authors = authors (meta r),
          rm_scopes = \<lparr>rds_static = map_option scope_as_str (sc_static (rule_scopes r)),
                       rds_dynamic = map_option scope_as_str (sc_dynamic (rule_scopes r))\<rparr>,
          rm_attack = map attack_from_str (attack (meta r)),
          rm_mbc = map mbc_from_str (mbc (meta r)),
          rm_references = references (meta r), rm_examples = examples (meta r),
          rm_description = meta_description (meta r), rm_lib = lib (meta r),
          rm_is_subscope_rule = yaml_bool raw_meta ''capa/subscope-rule'',
          rm_maec = \<lparr>analysis_conclusion = yaml_str raw_meta ''maec/analysis-conclusion'',
                     analysis_conclusion_ov = yaml_str raw_meta ''maec/analysis-conclusion-ov'',
                     malware_family = yaml_str raw_meta ''maec/malware-family'',
                     malware_category = yaml_str raw_meta ''maec/malware-category'',
                     malware_category_ov = yaml_str raw_meta ''maec/malware-category-ov''\<rparr>\<rparr>)"

section \<open>Match trees\<close>

fun node_from_matched :: "matched_node \<Rightarrow> string option \<Rightarrow> from_capa_error + rd_node" where
  "node_from_matched MAnd d = Inr (StatementNode (RdAnd d))"
| "node_from_matched MOr d = Inr (StatementNode (RdOr d))"
| "node_from_matched MNot d = Inr (StatementNode (RdNot d))"
| "node_from_matched (MSome cnt) d =
     Inr (StatementNode (if cnt = 0 then RdOptional d else RdSome d (ucast cnt)))"
| "node_from_matched (MRange f lo hi) d =
     map_ok (\<lambda>child. StatementNode (RdRange d (ucast lo) (case hi of Some m \<Rightarrow> ucast m | None \<Rightarrow> - 1) child))
       (map_err FeatureError (from_engine f None))"
| "node_from_matched (MLeaf f) d = map_ok FeatureNode (map_err FeatureError (from_engine f d))"

definition is_leaf_node :: "rd_node \<Rightarrow> bool" where
  "is_leaf_node n = (case n of FeatureNode _ \<Rightarrow> True | StatementNode (RdRange _ _ _ _) \<Rightarrow> True | _ \<Rightarrow> False)"

text \<open>The last match of a rule at each address.\<close>

definition recorded :: "match_results \<Rightarrow> string \<Rightarrow> (address \<times> match_result) list" where
  "recorded caps nm = (case im_get (=) caps nm of None \<Rightarrow> [] | Some ms \<Rightarrow> ms)"

definition rule_match_index :: "match_results \<Rightarrow> string \<Rightarrow> (address \<rightharpoonup> match_result)" where
  "rule_match_index caps nm = map_of (rev (recorded caps nm))"

definition most_recent_in_thread ::
  "match_results \<Rightarrow> string \<Rightarrow> u32 \<Rightarrow> u32 \<Rightarrow> u32 \<Rightarrow> u64 \<Rightarrow> match_result option" where
  "most_recent_in_thread caps nm ppid pid tid cid =
     (let ids = List.map_filter (\<lambda>e.
            case fst e of
              Call p2 pi2 t2 id2 \<Rightarrow> if p2 = ppid \<and> pi2 = pid \<and> t2 = tid \<and> id2 \<le> cid then Some id2 else None
            | _ \<Rightarrow> None) (recorded caps nm)
      in if ids = [] then None else rule_match_index caps nm (Call ppid pid tid (Max (set ids))))"

text \<open>The match of a rule that a location of a reference stands for; only a reference to a single rule demands one.\<close>

definition match_for ::
  "match_results \<Rightarrow> bool \<Rightarrow> string \<Rightarrow> address \<Rightarrow> from_capa_error + match_result option" where
  "match_for caps demanded nm location =
     (case location of
        Call ppid pid tid cid \<Rightarrow>
          Inr (case rule_match_index caps nm location of
                 Some m \<Rightarrow> Some m
               | None \<Rightarrow> most_recent_in_thread caps nm ppid pid tid cid)
      | _ \<Rightarrow>
          (case rule_match_index caps nm location of
             Some m \<Rightarrow> Inr (Some m)
           | None \<Rightarrow> if demanded then Inl (MissingRuleMatch nm (canonical_key location)) else Inr None))"

text \<open>The rules whose matches a reference stands for, and whether it names a single rule.\<close>

definition referenced_rules :: "matching_rule_set \<Rightarrow> match_results \<Rightarrow> string \<Rightarrow> bool \<times> string list" where
  "referenced_rules mrs caps nm =
     (case mrs_get mrs nm of
        Some r \<Rightarrow> (True, [nm])
      | None \<Rightarrow>
          (False, filter (im_contains (=) caps)
             (case im_get (=) (mrs_namespaces mrs) nm of None \<Rightarrow> [] | Some names \<Rightarrow> names)))"

text \<open>The node of a reference to a rule that stands for a nested scope is that scope.\<close>

definition subscope_node :: "yaml_lib \<Rightarrow> matching_rule_set \<Rightarrow> string \<Rightarrow> rd_node \<Rightarrow> from_capa_error + rd_node" where
  "subscope_node yl mrs nm n =
     (case mrs_get mrs nm of
        None \<Rightarrow> Inr n
      | Some r \<Rightarrow>
          if is_subscope_rule yl r then
            (case (case sc_static (rule_scopes r) of Some sc \<Rightarrow> Some sc | None \<Rightarrow> sc_dynamic (rule_scopes r)) of
               None \<Rightarrow> Inl (SubscopeRuleMissingScope nm)
             | Some sc \<Rightarrow> Inr (StatementNode (RdSubscope None (scope_as_str sc))))
          else Inr n)"

definition reference_of :: "match_result \<Rightarrow> string option" where
  "reference_of res =
     (case mnode res of MLeaf (MatchedRule nm) \<Rightarrow> if success res then Some nm else None | _ \<Rightarrow> None)"

fun build_match ::
  "nat \<Rightarrow> yaml_lib \<Rightarrow> matching_rule_set \<Rightarrow> match_results \<Rightarrow> match_result \<Rightarrow> rd_match rendered" where
  "build_match 0 yl mrs caps res = Inl None"
| "build_match (Suc n) yl mrs caps res =
     rbind (map_err Some (node_from_matched (mnode res) (mr_description res))) (\<lambda>nd.
     rbind (traverse (build_match n yl mrs caps) (children res)) (\<lambda>cs.
       let locs = (if is_leaf_node nd \<and> success res then map to_rd_address (sorted_list_of_set (locations res)) else []);
           caught = map_option (\<lambda>l. map to_rd_address (sorted_list_of_set l)) \<circ> captures res
       in case reference_of res of
            None \<Rightarrow> Inr (RdMatchTree (success res) nd cs locs caught)
          | Some nm \<Rightarrow>
              rbind (map_err Some (subscope_node yl mrs nm nd)) (\<lambda>nd.
                let (demanded, names) = referenced_rules mrs caps nm
                in rbind (traverse (\<lambda>(rn, location).
                          rbind (map_err Some (match_for caps demanded rn location)) (\<lambda>found.
                            case found of
                              None \<Rightarrow> Inr []
                            | Some m \<Rightarrow> map_ok (\<lambda>t. [t]) (build_match n yl mrs caps m)))
                       (List.product names (sorted_list_of_set (locations res)))) (\<lambda>spliced.
                     Inr (RdMatchTree (success res) nd (cs @ concat spliced) locs caught)))))"

section \<open>The document\<close>

record result_document =
  doc_meta :: metadata
  doc_rules :: "(string, rule_matches) btree"

text \<open>One entry of the hash map of matches; \<open>it\<close> is the order in which the map is iterated.\<close>

definition render_rule ::
  "nat \<Rightarrow> yaml_lib \<Rightarrow> matching_rule_set \<Rightarrow> match_results \<Rightarrow> string \<times> (address \<times> match_result) list
   \<Rightarrow> (string, rule_matches) btree \<Rightarrow> (string, rule_matches) btree rendered" where
  "render_rule n yl mrs caps e rules =
     (case e of
        (nm, ms) \<Rightarrow>
          (case mrs_get mrs nm of
             None \<Rightarrow> Inr rules
           | Some r \<Rightarrow>
               if is_subscope_rule yl r then Inr rules
               else
                 map_ok (\<lambda>rendered.
                     bt_insert nm \<lparr>rms_meta = rule_metadata_of r, rms_source = source r, rms_matches = rendered\<rparr> rules)
                   (traverse (\<lambda>(addr, res). map_ok (\<lambda>t. (to_rd_address addr, t)) (build_match n yl mrs caps res)) ms)))"

definition build_result_document ::
  "nat \<Rightarrow> yaml_lib \<Rightarrow> hash_order \<Rightarrow> matching_rule_set \<Rightarrow> match_results \<Rightarrow> metadata \<Rightarrow> result_document rendered" where
  "build_result_document n yl it mrs caps md =
     map_ok (\<lambda>rules. \<lparr>doc_meta = md, doc_rules = rules\<rparr>)
       (fold_result (render_rule n yl mrs caps) (it caps) [])"

section \<open>Layouts\<close>

definition matched_blocks :: "matching_rule_set \<Rightarrow> match_results \<Rightarrow> address set" where
  "matched_blocks mrs caps =
     (\<Union>(nm, ms) \<in> set caps.
        case mrs_get mrs nm of
          None \<Rightarrow> {}
        | Some r \<Rightarrow> if scopes_contains (rule_scopes r) BasicBlockScope then fst ` set ms else {})"

definition compute_static_layout :: "matching_rule_set \<Rightarrow> static_features \<Rightarrow> match_results \<Rightarrow> function_layout list" where
  "compute_static_layout mrs fz caps =
     (let matched = matched_blocks mrs caps
      in List.map_filter (\<lambda>(fn_addr, func).
           let bbs = filter (\<lambda>b. b \<in> matched) (map fst (basic_blocks func))
           in if bbs = [] then None
              else Some \<lparr>fl_address = to_rd_address fn_addr, matched_basic_blocks = map to_rd_address bbs\<rparr>)
         (st_functions fz))"

fun is_call_address :: "address \<Rightarrow> bool" where
  "is_call_address (Call _ _ _ _) = True"
| "is_call_address _ = False"

function collect_matched_calls :: "match_result \<Rightarrow> address set" where
  "collect_matched_calls res =
     Set.filter is_call_address (locations res) \<union> (\<Union>c \<in> set (children res). collect_matched_calls c)"
  by pat_completeness auto
termination
proof (relation "measure size")
  fix res c :: match_result
  assume "c \<in> set (children res)"
  then show "(c, res) \<in> measure size" by (cases res) (auto dest: size_list_estimation' [OF _ order_refl, where f = size])
qed simp

declare collect_matched_calls.simps [simp del]

definition thread_layout_of :: "address set \<Rightarrow> address \<times> thread_features \<Rightarrow> thread_layout option" where
  "thread_layout_of matched e =
     (case e of
        (thread_addr, th) \<Rightarrow>
          let cs = map (\<lambda>(a, c). \<lparr>cl_address = to_rd_address a, cl_name = call_name c\<rparr>)
                     (filter (\<lambda>(a, c). a \<in> matched) (calls th))
          in if cs = [] then None else Some \<lparr>tl_address = to_rd_address thread_addr, matched_calls = cs\<rparr>)"

definition process_layout_of :: "address set \<Rightarrow> address \<times> process_features \<Rightarrow> process_layout option" where
  "process_layout_of matched e =
     (case e of
        (process_addr, pr) \<Rightarrow>
          let ths = List.map_filter (thread_layout_of matched) (threads pr)
          in if ths = [] then None
             else Some \<lparr>pl_address = to_rd_address process_addr, pl_name = process_name pr, matched_threads = ths\<rparr>)"

definition compute_dynamic_layout :: "dynamic_features \<Rightarrow> match_results \<Rightarrow> process_layout list" where
  "compute_dynamic_layout fz caps =
     (let matched = (\<Union>(nm, ms) \<in> set caps. \<Union>(a, res) \<in> set ms. collect_matched_calls res)
      in List.map_filter (process_layout_of matched) (processes fz))"

section \<open>Metadata\<close>

definition OS_AUTO :: string where
  "OS_AUTO = ''auto''"

definition ARCH_AUTO :: string where
  "ARCH_AUTO = ''auto''"

fun find_map :: "('a \<Rightarrow> 'b option) \<Rightarrow> 'a list \<Rightarrow> 'b option" where
  "find_map f [] = None"
| "find_map f (x # xs) = (case f x of Some y \<Rightarrow> Some y | None \<Rightarrow> find_map f xs)"

definition global_str :: "feature list \<Rightarrow> (feature \<Rightarrow> string option) \<Rightarrow> string option" where
  "global_str globals variant = find_map variant globals"

definition as_format :: "feature \<Rightarrow> string option" where
  "as_format f = (case f of Format v \<Rightarrow> Some v | _ \<Rightarrow> None)"

definition as_arch :: "feature \<Rightarrow> string option" where
  "as_arch f = (case f of Arch v \<Rightarrow> Some v | _ \<Rightarrow> None)"

definition as_os :: "feature \<Rightarrow> string option" where
  "as_os f = (case f of Os v \<Rightarrow> Some v | _ \<Rightarrow> None)"

record meta_inputs =
  mi_argv :: "string list option"
  mi_version :: string
  mi_timestamp :: string
  mi_sample :: sample
  input_format_fallback :: string
  os_override :: string
  arch_override :: string
  rules_paths :: "string list"

definition or_override :: "string \<Rightarrow> string \<Rightarrow> string option \<Rightarrow> string" where
  "or_override auto override found =
     (case found of Some v \<Rightarrow> v | None \<Rightarrow> if override = auto then ''unknown'' else override)"

definition metadata_head_of :: "meta_inputs \<Rightarrow> metadata_head" where
  "metadata_head_of inputs =
     \<lparr>md_timestamp = mi_timestamp inputs, md_version = mi_version inputs, md_argv = mi_argv inputs,
      md_sample = mi_sample inputs\<rparr>"

definition feature_counts_of :: "nat \<Rightarrow> (address \<times> nat) list \<Rightarrow> feature_counts" where
  "feature_counts_of file_count parts =
     \<lparr>fc_file = of_nat file_count, fc_parts = map (\<lambda>(a, n). (to_rd_address a, of_nat n)) parts\<rparr>"

definition build_static_metadata ::
  "meta_inputs \<Rightarrow> static_features \<Rightarrow> nat \<times> (address \<times> nat) list \<Rightarrow> library_function list \<Rightarrow> function_layout list
   \<Rightarrow> metadata" where
  "build_static_metadata inputs fz counts libs layout =
     (let globals = st_global_features fz
      in StaticMetadata (metadata_head_of inputs)
           \<lparr>ra_format = (case global_str globals as_format of Some v \<Rightarrow> v | None \<Rightarrow> input_format_fallback inputs),
            ra_arch = or_override ARCH_AUTO (arch_override inputs) (global_str globals as_arch),
            ra_os = or_override OS_AUTO (os_override inputs) (global_str globals as_os),
            ra_extractor = ''NullStaticFeatureExtractor'', ra_rules = rules_paths inputs,
            ra_feature_counts = feature_counts_of (fst counts) (snd counts),
            ra_base_address = to_rd_address (st_base_address fz), ra_static_layout = layout,
            ra_library_functions = libs\<rparr>)"

definition build_dynamic_metadata ::
  "meta_inputs \<Rightarrow> dynamic_features \<Rightarrow> nat \<times> (address \<times> nat) list \<Rightarrow> process_layout list \<Rightarrow> metadata" where
  "build_dynamic_metadata inputs fz counts layout =
     (let globals = dy_global_features fz
      in DynamicMetadata (metadata_head_of inputs)
           \<lparr>ra_format = (case global_str globals as_format of Some v \<Rightarrow> v | None \<Rightarrow> input_format_fallback inputs),
            ra_arch = or_override ARCH_AUTO (arch_override inputs) (global_str globals as_arch),
            ra_os = or_override OS_AUTO (os_override inputs) (global_str globals as_os),
            ra_extractor = ''NullDynamicFeatureExtractor'', ra_rules = rules_paths inputs,
            ra_feature_counts = feature_counts_of (fst counts) (snd counts), ra_dynamic_layout = layout\<rparr>)"

end
