(* ===== verification/Render.thy ===== *)
theory Render
  imports From_Capa
begin

text \<open>
  \<^verbatim>\<open>capa-x/src/render\<close>: the three text views of a document, \<^verbatim>\<open>utils.rs\<close>, \<^verbatim>\<open>default.rs\<close>, \<^verbatim>\<open>verbose.rs\<close>
  and \<^verbatim>\<open>vverbose.rs\<close>. A view is the text it writes. Unicode upper case and the decimal notation of
  floating-point numbers belong to the standard library's tables and are parameters.
\<close>

section \<open>Shared helpers\<close>

definition nl :: string where
  "nl = [CHR 0x0A]"

text \<open>The length of a text in characters, for texts in UTF-8, and padding to a width.\<close>

definition char_count :: "string \<Rightarrow> nat" where
  "char_count s = length (filter (\<lambda>c. of_char c < (128 :: nat) \<or> 192 \<le> (of_char c :: nat)) s)"

definition pad_to :: "nat \<Rightarrow> string \<Rightarrow> string" where
  "pad_to w s = s @ replicate (w - char_count s) CHR '' ''"

definition join :: "string \<Rightarrow> string list \<Rightarrow> string" where
  "join sep parts = concat (case parts of [] \<Rightarrow> [] | p # ps \<Rightarrow> p # map ((@) sep) ps)"

definition upper_hex :: "nat \<Rightarrow> string" where
  "upper_hex n = map (\<lambda>c. if CHR ''a'' \<le> c \<and> c \<le> CHR ''z'' then char_of (of_char c - 32 :: nat) else c) (show_hex n)"

definition hex :: "int \<Rightarrow> string" where
  "hex n = (if n < 0 then ''-0x'' @ upper_hex (nat (- n)) else ''0x'' @ upper_hex (nat n))"

definition int_value :: "rd_address \<Rightarrow> int" where
  "int_value addr = (case rd_value addr of Some (AInt v) \<Rightarrow> uint v | _ \<Rightarrow> 0)"

definition tuple_value :: "rd_address \<Rightarrow> u64 list" where
  "tuple_value addr = (case rd_value addr of Some (ATuple v) \<Rightarrow> v | _ \<Rightarrow> [])"

abbreviation nth_or_zero :: "u64 list \<Rightarrow> nat \<Rightarrow> u64" where
  "nth_or_zero t i \<equiv> (if i < length t then t ! i else 0)"

definition format_address :: "rd_address \<Rightarrow> string" where
  "format_address addr =
     (let kind = rd_kind addr;
          t = tuple_value addr
      in if kind = ''absolute'' then hex (int_value addr)
         else if kind = ''relative'' then ''base address+'' @ hex (int_value addr)
         else if kind = ''file'' then ''file+'' @ hex (int_value addr)
         else if kind = ''dn token'' then ''token('' @ hex (int_value addr) @ '')''
         else if kind = ''dn token offset''
           then ''token('' @ hex (uint (nth_or_zero t 0)) @ '')+'' @ hex (uint (nth_or_zero t 1))
         else if kind = ''process'' then ''process{pid:'' @ show_word (nth_or_zero t 1) @ ''}''
         else if kind = ''thread''
           then ''process{pid:'' @ show_word (nth_or_zero t 1) @ '',tid:'' @ show_word (nth_or_zero t 2) @ ''}''
         else if kind = ''call''
           then ''process{pid:'' @ show_word (nth_or_zero t 1) @ '',tid:'' @ show_word (nth_or_zero t 2)
                @ '',call:'' @ show_word (nth_or_zero t 3) @ ''}''
         else if kind = ''no address'' then ''global''
         else ''<unknown address type '' @ kind @ ''>'')"

definition format_attack :: "attack_spec \<Rightarrow> string" where
  "format_attack spec = join ''::'' (at_parts spec) @ '' ['' @ at_id spec @ '']''"

definition format_mbc :: "mbc_spec \<Rightarrow> string" where
  "format_mbc spec = join ''::'' (mbc_parts spec) @ '' ['' @ mbc_id spec @ '']''"

abbreviation or_empty :: "string option \<Rightarrow> string" where
  "or_empty s \<equiv> (case s of None \<Rightarrow> [] | Some t \<Rightarrow> t)"

definition sort_rules :: "result_document \<Rightarrow> rule_matches list" where
  "sort_rules doc =
     linorder_class.sort_key (\<lambda>r. (or_empty (rm_namespace (rms_meta r)), rm_name (rms_meta r))) (map snd (doc_rules doc))"

definition has_maec :: "rule_matches \<Rightarrow> bool" where
  "has_maec r \<longleftrightarrow>
     (let m = rm_maec (rms_meta r)
      in analysis_conclusion m \<noteq> None \<or> analysis_conclusion_ov m \<noteq> None \<or> malware_family m \<noteq> None
         \<or> malware_category m \<noteq> None \<or> malware_category_ov m \<noteq> None)"

definition capability_rules :: "result_document \<Rightarrow> rule_matches list" where
  "capability_rules doc =
     filter (\<lambda>r. \<not> rm_lib (rms_meta r) \<and> \<not> starts_with (or_empty (rm_namespace (rms_meta r))) ''internal/''
               \<and> \<not> rm_is_subscope_rule (rms_meta r) \<and> \<not> has_maec r) (sort_rules doc)"

definition maec_rules :: "result_document \<Rightarrow> rule_matches list" where
  "maec_rules doc = filter has_maec (map snd (doc_rules doc))"

text \<open>The names that successful references of a match tree name, not looking below a feature.\<close>

fun matched_names :: "rd_match \<Rightarrow> string set" where
  "matched_names (RdMatchTree ok nd cs locs caught) =
     (if \<not> ok then {}
      else case nd of
             StatementNode _ \<Rightarrow> \<Union> (set (map matched_names cs))
           | FeatureNode (RdMatch name _) \<Rightarrow> {name}
           | FeatureNode _ \<Rightarrow> {})"

definition find_subrule_matches :: "result_document \<Rightarrow> string set" where
  "find_subrule_matches doc = (\<Union>r \<in> set (capability_rules doc). \<Union>(_, m) \<in> set (rms_matches r). matched_names m)"

section \<open>The default view\<close>

definition details_of :: "metadata \<Rightarrow> string \<times> string \<times> string" where
  "details_of md =
     (case md of
        StaticMetadata _ a \<Rightarrow> (ra_os a, ra_format a, ra_arch a)
      | DynamicMetadata _ a \<Rightarrow> (ra_os a, ra_format a, ra_arch a))"

definition flavor_text :: "metadata \<Rightarrow> string" where
  "flavor_text md = (case md_flavor md of StaticFlavor \<Rightarrow> ''static'' | DynamicFlavor \<Rightarrow> ''dynamic'')"

definition default_meta :: "result_document \<Rightarrow> string" where
  "default_meta doc =
     (let s = md_sample_of (doc_meta doc);
          (os, fmt, ar) = details_of (doc_meta doc)
      in ''md5      '' @ sample_md5 s @ nl @ ''sha1     '' @ sample_sha1 s @ nl @ ''sha256   '' @ sample_sha256 s @ nl
         @ ''analysis '' @ flavor_text (doc_meta doc) @ nl @ ''os       '' @ os @ nl @ ''format   '' @ fmt @ nl
         @ ''arch     '' @ ar @ nl @ ''path     '' @ sample_path s @ nl)"

text \<open>The two tables of classifications: the first column in upper case, then the entries in order.\<close>

definition classified :: "('a \<Rightarrow> string) \<Rightarrow> ('a \<Rightarrow> string \<times> string \<times> string) \<Rightarrow> 'a list
    \<Rightarrow> (string, (string \<times> string \<times> string) set) btree" where
  "classified heading entry specs = fold (\<lambda>spec. bt_entry (heading spec) {} (insert (entry spec))) specs []"

definition spec_label :: "string \<times> string \<times> string \<Rightarrow> string" where
  "spec_label e =
     (case e of
        (major, minor, ident) \<Rightarrow> (if minor = [] then major else major @ ''::'' @ minor) @ '' ['' @ ident @ '']'')"

definition classification_table ::
  "(string \<Rightarrow> string) \<Rightarrow> string \<Rightarrow> (string, (string \<times> string \<times> string) set) btree \<Rightarrow> string" where
  "classification_table upper header table =
     (if table = [] then []
      else nl @ header @ nl
        @ concat (map (\<lambda>(heading, entries).
            concat (map (\<lambda>e. pad_to 24 (upper heading) @ spec_label e @ nl) (sorted_list_of_set entries))) table))"

definition render_attack :: "(string \<Rightarrow> string) \<Rightarrow> result_document \<Rightarrow> string" where
  "render_attack upper doc =
     classification_table upper ''ATT&CK Tactic           ATT&CK Technique''
       (classified at_tactic (\<lambda>a. (at_technique a, at_subtechnique a, trim_brackets (at_id a)))
          (concat (map (rm_attack \<circ> rms_meta) (capability_rules doc))))"

definition render_mbc :: "(string \<Rightarrow> string) \<Rightarrow> result_document \<Rightarrow> string" where
  "render_mbc upper doc =
     classification_table upper ''MBC Objective           MBC Behavior''
       (classified mbc_objective (\<lambda>m. (mbc_behavior m, mbc_method m, trim_brackets (mbc_id m)))
          (concat (map (rm_mbc \<circ> rms_meta) (capability_rules doc))))"

definition maec_entries :: "rule_matches \<Rightarrow> (string \<times> string) list" where
  "maec_entries r =
     (let m = rm_maec (rms_meta r)
      in List.map_filter (\<lambda>(name, v). map_option (Pair name) v)
           [(''analysis-conclusion'', analysis_conclusion m), (''analysis-conclusion-ov'', analysis_conclusion_ov m),
            (''malware-family'', malware_family m), (''malware-category'', malware_category m),
            (''malware-category-ov'', malware_category_ov m)])"

definition render_maec :: "result_document \<Rightarrow> string" where
  "render_maec doc =
     (let table = fold (\<lambda>(name, v). bt_entry name {} (insert v)) (concat (map maec_entries (maec_rules doc))) []
      in if table = [] then []
         else nl @ ''MAEC Category           MAEC Value'' @ nl
           @ concat (map (\<lambda>(category, vs). concat (map (\<lambda>v. pad_to 24 category @ v @ nl) (sorted_list_of_set vs))) table))"

definition counted_name :: "rule_matches \<Rightarrow> string" where
  "counted_name r =
     (let cnt = length (rms_matches r)
      in if cnt = 1 then rm_name (rms_meta r) else rm_name (rms_meta r) @ '' ('' @ show_nat cnt @ '' matches)'')"

definition capability_rows :: "result_document \<Rightarrow> rule_matches list" where
  "capability_rows doc = filter (\<lambda>r. rm_name (rms_meta r) \<notin> find_subrule_matches doc) (capability_rules doc)"

definition render_capabilities :: "result_document \<Rightarrow> string" where
  "render_capabilities doc =
     (let rows = capability_rows doc
      in nl @ (if rows = [] then ''no capabilities found'' @ nl
               else pad_to 56 ''CAPABILITY'' @ ''NAMESPACE'' @ nl
                 @ concat (map (\<lambda>r. pad_to 56 (counted_name r) @ or_empty (rm_namespace (rms_meta r)) @ nl) rows)))"

definition default_render :: "(string \<Rightarrow> string) \<Rightarrow> result_document \<Rightarrow> string" where
  "default_render upper doc =
     default_meta doc @ render_attack upper doc @ render_maec doc @ render_mbc upper doc @ render_capabilities doc"

section \<open>The verbose view\<close>

abbreviation row :: "string \<Rightarrow> string \<Rightarrow> string" where
  "row label v \<equiv> pad_to 23 label @ v @ nl"

definition sample_rows :: "metadata_head \<Rightarrow> string \<Rightarrow> string \<Rightarrow> string \<Rightarrow> string" where
  "sample_rows h os fmt ar =
     (let s = md_sample h
      in row ''md5'' (sample_md5 s) @ row ''sha1'' (sample_sha1 s) @ row ''sha256'' (sample_sha256 s)
         @ row ''path'' (sample_path s) @ row ''timestamp'' (md_timestamp h) @ row ''capa version'' (md_version h)
         @ row ''os'' os @ row ''format'' fmt @ row ''arch'' ar)"

text \<open>A sum of 64-bit counts wraps around as in a release build.\<close>

definition total_count :: "feature_counts \<Rightarrow> u64" where
  "total_count c = fc_file c + sum_list (map snd (fc_parts c))"

definition render_static_meta :: "metadata_head \<Rightarrow> static_details \<Rightarrow> string" where
  "render_static_meta h a =
     sample_rows h (ra_os a) (ra_format a) (ra_arch a) @ row ''analysis'' ''static'' @ row ''extractor'' (ra_extractor a)
     @ row ''base address'' (format_address (ra_base_address a)) @ row ''rules'' (join '', '' (ra_rules a))
     @ row ''function count'' (show_nat (length (fc_parts (ra_feature_counts a))))
     @ row ''library function count'' (show_nat (length (ra_library_functions a)))
     @ row ''total feature count'' (show_word (total_count (ra_feature_counts a)))"

definition render_dynamic_meta :: "metadata_head \<Rightarrow> dynamic_details \<Rightarrow> string" where
  "render_dynamic_meta h a =
     sample_rows h (ra_os a) (ra_format a) (ra_arch a) @ row ''analysis'' ''dynamic'' @ row ''extractor'' (ra_extractor a)
     @ row ''rules'' (join '', '' (ra_rules a))
     @ row ''process count'' (show_nat (length (fc_parts (ra_feature_counts a))))
     @ row ''total feature count'' (show_word (total_count (ra_feature_counts a)))"

definition render_meta :: "result_document \<Rightarrow> string" where
  "render_meta doc =
     (case doc_meta doc of
        StaticMetadata h a \<Rightarrow> render_static_meta h a
      | DynamicMetadata h a \<Rightarrow> render_dynamic_meta h a)"

definition layout_process_name :: "process_layout list \<Rightarrow> rd_address \<Rightarrow> string option" where
  "layout_process_name layout addr = map_option pl_name (find (\<lambda>p. pl_address p = addr) layout)"

definition thread_process_addr :: "rd_address \<Rightarrow> rd_address" where
  "thread_process_addr addr =
     (case rd_value addr of
        Some (ATuple t) \<Rightarrow>
          if 2 \<le> length t then \<lparr>rd_kind = ''process'', rd_value = Some (ATuple [t ! 0, t ! 1])\<rparr> else addr
      | _ \<Rightarrow> addr)"

definition call_thread_addr :: "rd_address \<Rightarrow> rd_address" where
  "call_thread_addr addr =
     (case rd_value addr of
        Some (ATuple t) \<Rightarrow>
          if 3 \<le> length t then \<lparr>rd_kind = ''thread'', rd_value = Some (ATuple [t ! 0, t ! 1, t ! 2])\<rparr> else addr
      | _ \<Rightarrow> addr)"

definition render_process :: "process_layout list \<Rightarrow> rd_address \<Rightarrow> string" where
  "render_process layout addr =
     or_empty (layout_process_name layout addr) @ ''{pid:'' @ show_word (nth_or_zero (tuple_value addr) 1) @ ''}''"

definition render_thread :: "process_layout list \<Rightarrow> rd_address \<Rightarrow> string" where
  "render_thread layout addr =
     or_empty (layout_process_name layout (thread_process_addr addr))
     @ ''{pid:'' @ show_word (nth_or_zero (tuple_value addr) 1) @ '',tid:'' @ show_word (nth_or_zero (tuple_value addr) 2) @ ''}''"

definition rule_scope :: "result_document \<Rightarrow> rule_matches \<Rightarrow> string option" where
  "rule_scope doc r =
     (case md_flavor (doc_meta doc) of
        StaticFlavor \<Rightarrow> rds_static (rm_scopes (rms_meta r))
      | DynamicFlavor \<Rightarrow> rds_dynamic (rm_scopes (rms_meta r)))"

definition is_file_scope :: "rule_matches \<Rightarrow> bool" where
  "is_file_scope r \<longleftrightarrow>
     rds_static (rm_scopes (rms_meta r)) = Some ''file'' \<or> rds_dynamic (rm_scopes (rms_meta r)) = Some ''file''"

definition location_lines :: "metadata \<Rightarrow> rule_matches \<Rightarrow> string list" where
  "location_lines md r =
     (let locs = map fst (rms_matches r)
      in case md of
           StaticMetadata _ _ \<Rightarrow> map format_address locs
         | DynamicMetadata _ a \<Rightarrow>
             (let sc = rds_dynamic (rm_scopes (rms_meta r))
              in if sc = Some ''process'' then map (render_process (ra_dynamic_layout a)) locs
                 else if sc = Some ''thread'' then map (render_thread (ra_dynamic_layout a)) locs
                 else if sc = Some ''call'' \<or> sc = Some ''span of calls''
                   then sorted_list_of_set ((\<lambda>l. render_thread (ra_dynamic_layout a) (call_thread_addr l)) ` set locs)
                 else map format_address locs))"

abbreviation opt_row :: "string \<Rightarrow> string option \<Rightarrow> string" where
  "opt_row label v \<equiv> (case v of None \<Rightarrow> [] | Some t \<Rightarrow> label @ t @ nl)"

definition verbose_rule :: "result_document \<Rightarrow> rule_matches \<Rightarrow> string" where
  "verbose_rule doc r =
     counted_name r @ nl @ opt_row ''  namespace    '' (rm_namespace (rms_meta r))
     @ (if rm_description (rms_meta r) = [] then [] else ''  description  '' @ rm_description (rms_meta r) @ nl)
     @ opt_row ''  scope        '' (rule_scope doc r)
     @ (if is_file_scope r then [] else ''  matches      '' @ join '', '' (location_lines (doc_meta doc) r) @ nl) @ nl"

definition verbose_render :: "result_document \<Rightarrow> string" where
  "verbose_render doc =
     render_meta doc @ nl
     @ (if capability_rules doc = [] then ''no capabilities found'' @ nl
        else concat (map (verbose_rule doc) (capability_rules doc)))"

section \<open>The very verbose view\<close>

text \<open>The derived order of addresses: the kind, then no value before numbers before tuples.\<close>

definition rd_address_key :: "rd_address \<Rightarrow> string \<times> nat \<times> u64 list" where
  "rd_address_key addr =
     (rd_kind addr,
      case rd_value addr of None \<Rightarrow> (0, []) | Some (AInt v) \<Rightarrow> (1, [v]) | Some (ATuple t) \<Rightarrow> (2, t))"

definition render_locations :: "process_layout list option \<Rightarrow> rd_address list \<Rightarrow> string" where
  "render_locations layout locs =
     (if locs = [] then []
      else '' @ '' @ join '', '' (map (\<lambda>loc.
          case layout of
            Some l \<Rightarrow> if rd_kind loc = ''call'' then render_thread l (call_thread_addr loc) else format_address loc
          | None \<Rightarrow> format_address loc) (linorder_class.sort_key rd_address_key locs)))"

abbreviation described :: "string option \<Rightarrow> string" where
  "described d \<equiv> (case d of None \<Rightarrow> [] | Some t \<Rightarrow> '' = '' @ t)"

definition number_text :: "(f64 \<Rightarrow> string) \<Rightarrow> rd_number \<Rightarrow> string" where
  "number_text show_f64 n = (case n of RdInt v \<Rightarrow> hex v | RdFloat v \<Rightarrow> show_f64 v)"

fun feature_value_str :: "(f64 \<Rightarrow> string) \<Rightarrow> rd_feature \<Rightarrow> string option" where
  "feature_value_str sf (RdOs v _) = Some v"
| "feature_value_str sf (RdArch v _) = Some v"
| "feature_value_str sf (RdFormat v _) = Some v"
| "feature_value_str sf (RdMatch v _) = Some v"
| "feature_value_str sf (RdCharacteristic v _) = Some v"
| "feature_value_str sf (RdExport v _) = Some v"
| "feature_value_str sf (RdImport v _) = Some v"
| "feature_value_str sf (RdSection v _) = Some v"
| "feature_value_str sf (RdFunctionName v _) = Some v"
| "feature_value_str sf (RdSubstring v _) = Some (''\"'' @ v @ ''\"'')"
| "feature_value_str sf (RdRegex v _) = Some v"
| "feature_value_str sf (RdString v _) = Some (''\"'' @ v @ ''\"'')"
| "feature_value_str sf (RdClass v _) = Some v"
| "feature_value_str sf (RdNamespace v _) = Some v"
| "feature_value_str sf (RdBasicBlock _) = None"
| "feature_value_str sf (RdApi v _) = Some v"
| "feature_value_str sf (RdProperty _ v _) = Some v"
| "feature_value_str sf (RdNumberF v _) = Some (number_text sf v)"
| "feature_value_str sf (RdBytes v _) = Some v"
| "feature_value_str sf (RdOffset v _) = Some (hex v)"
| "feature_value_str sf (RdMnemonic v _) = Some v"
| "feature_value_str sf (RdOperandNumber _ v _) = Some (number_text sf v)"
| "feature_value_str sf (RdOperandOffset _ v _) = Some (hex v)"

fun feature_key :: "rd_feature \<Rightarrow> string" where
  "feature_key (RdProperty (Some a) _ _) = ''property/'' @ a"
| "feature_key (RdOperandNumber i _ _) = ''operand['' @ show_int i @ ''].number''"
| "feature_key (RdOperandOffset i _ _) = ''operand['' @ show_int i @ ''].offset''"
| "feature_key f = rd_type_name f"

abbreviation pad :: "nat \<Rightarrow> string" where
  "pad indent \<equiv> concat (replicate indent ''  '')"

definition range_text :: "u64 \<Rightarrow> u64 \<Rightarrow> string" where
  "range_text lo hi =
     (if hi = lo then show_word lo
      else if lo = 0 then show_word hi @ '' or fewer''
      else if hi = - 1 then show_word lo @ '' or more''
      else ''between '' @ show_word lo @ '' and '' @ show_word hi)"

definition render_statement ::
  "(f64 \<Rightarrow> string) \<Rightarrow> process_layout list option \<Rightarrow> rd_address list \<Rightarrow> rd_statement \<Rightarrow> nat \<Rightarrow> string" where
  "render_statement sf layout locs st indent =
     (case st of
        RdSubscope d sc \<Rightarrow> pad indent @ sc @ '':'' @ described d @ nl
      | RdSome d cnt \<Rightarrow> pad indent @ show_word cnt @ '' or more:'' @ described d @ nl
      | RdRange d lo hi child \<Rightarrow>
          pad indent @ ''count('' @ rd_type_name child
          @ (case feature_value_str sf child of None \<Rightarrow> [] | Some v \<Rightarrow> ''('' @ v @ '')'') @ ''): ''
          @ range_text lo hi @ described d @ render_locations layout locs @ nl
      | _ \<Rightarrow> pad indent @ st_type_name st @ '':'' @ described (st_description st) @ nl)"

definition is_global_feature :: "rd_feature \<Rightarrow> bool" where
  "is_global_feature f = (case f of RdOs _ _ \<Rightarrow> True | RdArch _ _ \<Rightarrow> True | RdFormat _ _ \<Rightarrow> True | _ \<Rightarrow> False)"

text \<open>The captures of a pattern are listed in the order of their texts.\<close>

definition render_feature ::
  "(f64 \<Rightarrow> string) \<Rightarrow> process_layout list option \<Rightarrow> rd_address list \<Rightarrow> (string \<rightharpoonup> rd_address list) \<Rightarrow> rd_feature \<Rightarrow> nat \<Rightarrow> string" where
  "render_feature sf layout locs caught f indent =
     (case (case f of RdRegex re d \<Rightarrow> Some (re, d) | RdSubstring re d \<Rightarrow> Some (re, d) | _ \<Rightarrow> None) of
        Some (re, d) \<Rightarrow>
          pad indent @ feature_key f @ '': '' @ ''\"'' @ re @ ''\"'' @ described d @ nl
          @ concat (map (\<lambda>k. pad indent @ ''  - \"'' @ k @ ''\"''
                @ render_locations layout (case caught k of None \<Rightarrow> [] | Some l \<Rightarrow> l) @ nl)
              (sorted_list_of_set (dom caught)))
      | None \<Rightarrow>
          pad indent @ feature_key f @ '': '' @ or_empty (feature_value_str sf f) @ described (rd_description f)
          @ (if is_global_feature f then [] else render_locations layout locs) @ nl)"

definition is_optional_node :: "rd_node \<Rightarrow> bool" where
  "is_optional_node nd = (case nd of StatementNode (RdOptional _) \<Rightarrow> True | _ \<Rightarrow> False)"

definition is_not_node :: "rd_node \<Rightarrow> bool" where
  "is_not_node nd = (case nd of StatementNode (RdNot _) \<Rightarrow> True | _ \<Rightarrow> False)"

fun rd_success :: "rd_match \<Rightarrow> bool" where
  "rd_success (RdMatchTree ok _ _ _ _) = ok"

text \<open>The mode is whether successes are shown; below a negation it flips.\<close>

fun render_match :: "(f64 \<Rightarrow> string) \<Rightarrow> process_layout list option \<Rightarrow> rd_match \<Rightarrow> nat \<Rightarrow> bool \<Rightarrow> string" where
  "render_match sf layout (RdMatchTree ok nd cs locs caught) indent mode =
     (if ok \<noteq> mode \<or> is_optional_node nd \<and> (list_ex rd_success cs \<noteq> mode) then []
      else
        (case nd of
           StatementNode st \<Rightarrow> render_statement sf layout locs st indent
         | FeatureNode f \<Rightarrow> render_feature sf layout locs caught f indent)
        @ concat (map (\<lambda>c. render_match sf layout c (indent + 1) (if is_not_node nd then \<not> mode else mode)) cs))"

definition vverbose_name :: "rule_matches \<Rightarrow> string" where
  "vverbose_name r =
     (let cnt = length (rms_matches r);
          lib_info = (if rm_lib (rms_meta r)
                      then if cnt = 1 then '' (library rule)'' else '', only showing first match of library rule''
                      else [])
      in if cnt = 1 then rm_name (rms_meta r) @ lib_info
         else rm_name (rms_meta r) @ '' ('' @ show_nat cnt @ '' matches'' @ lib_info @ '')'')"

abbreviation or_else :: "'a option \<Rightarrow> 'a option \<Rightarrow> 'a option" where
  "or_else a b \<equiv> (case a of None \<Rightarrow> b | Some x \<Rightarrow> Some x)"

abbreviation list_row :: "string \<Rightarrow> string list \<Rightarrow> string" where
  "list_row label vs \<equiv> (if vs = [] then [] else label @ join '', '' vs @ nl)"

definition vverbose_meta :: "result_document \<Rightarrow> rule_matches \<Rightarrow> string" where
  "vverbose_meta doc r =
     (let m = rms_meta r
      in (if rm_lib m then [] else opt_row ''  namespace              '' (rm_namespace m))
         @ opt_row ''  maec/analysis-conclusion '' (or_else (analysis_conclusion (rm_maec m)) (analysis_conclusion_ov (rm_maec m)))
         @ opt_row ''  maec/malware-family    '' (malware_family (rm_maec m))
         @ opt_row ''  maec/malware-category  '' (or_else (malware_category (rm_maec m)) (malware_category_ov (rm_maec m)))
         @ ''  author                 '' @ join '', '' (rm_authors m) @ nl
         @ opt_row ''  scope                  '' (rule_scope doc r)
         @ list_row ''  att&ck                 '' (map format_attack (rm_attack m))
         @ list_row ''  mbc                    '' (map format_mbc (rm_mbc m))
         @ list_row ''  references             '' (rm_references m)
         @ (if rm_description m = [] then [] else ''  description            '' @ rm_description m @ nl))"

definition dynamic_layout_of :: "metadata \<Rightarrow> process_layout list option" where
  "dynamic_layout_of md = (case md of DynamicMetadata _ a \<Rightarrow> Some (ra_dynamic_layout a) | StaticMetadata _ _ \<Rightarrow> None)"

definition match_heading :: "result_document \<Rightarrow> rule_matches \<Rightarrow> rd_address \<Rightarrow> string" where
  "match_heading doc r location =
     (case dynamic_layout_of (doc_meta doc) of
        None \<Rightarrow> or_empty (rds_static (rm_scopes (rms_meta r))) @ '' @ '' @ format_address location
      | Some l \<Rightarrow>
          (let sc = or_empty (rds_dynamic (rm_scopes (rms_meta r)))
           in sc @ '' @ ''
              @ (if sc = ''process'' then render_process l location
                 else if sc = ''thread'' then render_thread l location
                 else if sc = ''call'' \<or> sc = ''span of calls'' then render_thread l (call_thread_addr location)
                 else format_address location)))"

text \<open>A rule on the file shows its first match, a library rule likewise, any other rule all of them.\<close>

definition vverbose_matches :: "(f64 \<Rightarrow> string) \<Rightarrow> result_document \<Rightarrow> rule_matches \<Rightarrow> string" where
  "vverbose_matches sf doc r =
     (let layout = dynamic_layout_of (doc_meta doc)
      in if is_file_scope r
         then (case rms_matches r of [] \<Rightarrow> [] | (_, m) # _ \<Rightarrow> render_match sf layout m 0 True)
         else concat (map (\<lambda>(location, m). match_heading doc r location @ nl @ render_match sf layout m 1 True)
                (if rm_lib (rms_meta r) then take 1 (rms_matches r) else rms_matches r)))"

definition vverbose_render :: "(f64 \<Rightarrow> string) \<Rightarrow> result_document \<Rightarrow> string" where
  "vverbose_render sf doc =
     (let rules = filter (\<lambda>r. \<not> rm_is_subscope_rule (rms_meta r)) (sort_rules doc)
      in render_meta doc @ nl
         @ (if rules = [] then ''no capabilities found'' @ nl
            else concat (map (\<lambda>r. vverbose_name r @ nl @ vverbose_meta doc r @ vverbose_matches sf doc r @ nl) rules)))"

end
