(* ===== verification/From_Capa_Props.thy ===== *)
theory From_Capa_Props
  imports From_Capa
begin

text \<open>
  The result document: the recursion through the matches of other rules ends whenever the
  rules refer to each other without a cycle, and the trees it builds are those an abstract
  description of the document prescribes.
\<close>

section \<open>Values\<close>

lemma to_rd_address_inject: "to_rd_address a = to_rd_address b \<longleftrightarrow> a = b"
  by (cases a; cases b) (auto simp: ucast_u32_u64_inj)

section \<open>Parts and identifiers\<close>

fun join_colons :: "string list \<Rightarrow> string" where
  "join_colons [] = []"
| "join_colons [p] = p"
| "join_colons (p # ps) = p @ ''::'' @ join_colons ps"

lemma split_colons_nonempty [simp]: "split_colons s \<noteq> []"
  by (induction s rule: split_colons.induct) (auto split: list.split)

lemma split_colons_plain: "CHR '':'' \<notin> set p \<Longrightarrow> split_colons p = [p]"
  by (induction p rule: split_colons.induct) auto

lemma split_colons_append:
  "CHR '':'' \<notin> set p \<Longrightarrow> split_colons (p @ CHR '':'' # CHR '':'' # s) = p # split_colons s"
proof (induction p)
  case (Cons c p)
  then show ?case by (cases p) auto
qed simp

lemma split_join_colons:
  "ps \<noteq> [] \<Longrightarrow> (\<And>p. p \<in> set ps \<Longrightarrow> CHR '':'' \<notin> set p) \<Longrightarrow> split_colons (join_colons ps) = ps"
  by (induction ps rule: join_colons.induct) (simp_all add: split_colons_plain split_colons_append)

lemma rfind_char_append: "c \<notin> set t \<Longrightarrow> rfind_char c (s @ c # t) = Some (length s)"
  by (induction s) (simp_all add: rfind_char_None_iff [THEN iffD2])

lemma trim_brackets_id:
  "i \<noteq> [] \<Longrightarrow> hd i \<noteq> CHR ''['' \<Longrightarrow> last i \<noteq> CHR '']'' \<Longrightarrow> trim_brackets (''['' @ i @ '']'') = i"
proof -
  assume i: "i \<noteq> []" "hd i \<noteq> CHR ''[''" "last i \<noteq> CHR '']''"
  have "dropWhile (\<lambda>c. c = CHR ''['') (i @ t) = i @ t" for t using i(1,2) by (cases i) auto
  moreover have "dropWhile (\<lambda>c. c = CHR '']'') (rev i) = rev i" using i(1,3) by (cases i rule: rev_cases) auto
  ultimately show "trim_brackets (''['' @ i @ '']'') = i" by (simp add: trim_brackets_def)
qed

lemma join_colons_last: "join_colons (ps @ [p @ s]) = join_colons (ps @ [p]) @ s"
  by (induction ps rule: join_colons.induct) simp_all

lemma parse_parts_id_roundtrip:
  assumes "\<And>p. p \<in> set (ps @ [p']) \<Longrightarrow> CHR '':'' \<notin> set p" "CHR '':'' \<notin> set i" "CHR '' '' \<notin> set i"
    "i \<noteq> []" "hd i \<noteq> CHR ''[''" "last i \<noteq> CHR '']''"
  shows "parse_parts_id (join_colons (ps @ [p']) @ '' ['' @ i @ '']'') = (ps @ [p'], i)"
proof -
  let ?tail = "''['' @ i @ '']''"
  have "join_colons (ps @ [p']) @ '' ['' @ i @ '']'' = join_colons (ps @ [p' @ CHR '' '' # ?tail])"
    by (simp add: join_colons_last)
  moreover have "split_colons (join_colons (ps @ [p' @ CHR '' '' # ?tail])) = ps @ [p' @ CHR '' '' # ?tail]"
    using assms(1,2) by (intro split_join_colons) auto
  moreover have "rfind_char (CHR '' '') (p' @ CHR '' '' # ?tail) = Some (length p')"
    using assms(3) by (intro rfind_char_append) auto
  ultimately show ?thesis using trim_brackets_id [OF assms(4-6)] by (simp add: parse_parts_id_def Let_def)
qed

section \<open>The abstract document\<close>

text \<open>The matches of other rules that stand below a successful reference, in the order of the document.\<close>

definition spliced :: "matching_rule_set \<Rightarrow> match_results \<Rightarrow> match_result \<Rightarrow> match_result list" where
  "spliced mrs caps res =
     (case reference_of res of
        None \<Rightarrow> []
      | Some nm \<Rightarrow>
          List.map_filter (\<lambda>(rn, location). case match_for caps False rn location of Inl _ \<Rightarrow> None | Inr found \<Rightarrow> found)
            (List.product (snd (referenced_rules mrs caps nm)) (sorted_list_of_set (locations res))))"

definition shown_node :: "yaml_lib \<Rightarrow> matching_rule_set \<Rightarrow> match_result \<Rightarrow> from_capa_error + rd_node" where
  "shown_node yl mrs res =
     rbind (node_from_matched (mnode res) (mr_description res)) (\<lambda>nd.
       case reference_of res of None \<Rightarrow> Inr nd | Some nm \<Rightarrow> subscope_node yl mrs nm nd)"

definition shown_locations :: "match_result \<Rightarrow> rd_address list" where
  "shown_locations res =
     (case mnode res of
        MLeaf _ \<Rightarrow> if success res then map to_rd_address (sorted_list_of_set (locations res)) else []
      | MRange _ _ _ \<Rightarrow> if success res then map to_rd_address (sorted_list_of_set (locations res)) else []
      | _ \<Rightarrow> [])"

definition shown_captures :: "match_result \<Rightarrow> (string \<rightharpoonup> rd_address list)" where
  "shown_captures res = map_option (\<lambda>l. map to_rd_address (sorted_list_of_set l)) \<circ> captures res"

text \<open>The tree of the document that a match stands for.\<close>

inductive displays :: "yaml_lib \<Rightarrow> matching_rule_set \<Rightarrow> match_results \<Rightarrow> match_result \<Rightarrow> rd_match \<Rightarrow> bool"
  for yl mrs caps where
  displays: "shown_node yl mrs res = Inr nd
    \<Longrightarrow> list_all2 (displays yl mrs caps) (children res @ spliced mrs caps res) ts
    \<Longrightarrow> displays yl mrs caps res (RdMatchTree (success res) nd ts (shown_locations res) (shown_captures res))"

lemma leaf_node_iff:
  "node_from_matched n d = Inr nd \<Longrightarrow> is_leaf_node nd \<longleftrightarrow> (case n of MLeaf _ \<Rightarrow> True | MRange _ _ _ \<Rightarrow> True | _ \<Rightarrow> False)"
  by (cases n) (auto simp: is_leaf_node_def result_simps split: if_splits)

lemma traverse_list_all2: "traverse f xs = Inr ys \<longleftrightarrow> list_all2 (\<lambda>x y. f x = Inr y) xs ys"
  by (induction xs arbitrary: ys) (auto simp: rbind_Inr_iff list_all2_Cons1)

lemma map_err_ok_iff: "map_err f r = Inr x \<longleftrightarrow> r = Inr x"
  by (cases r) auto

lemma match_for_demand: "match_for caps demanded rn l = Inr found \<Longrightarrow> match_for caps False rn l = Inr found"
  by (auto simp: match_for_def split: address.splits option.splits if_splits)

text \<open>The trees spliced in for a list of pairs of a rule and a location.\<close>

lemma splice_trees:
  assumes "list_all2 (\<lambda>(rn, l) ts. rbind (map_err Some (match_for caps demanded rn l)) (\<lambda>found.
      case found of None \<Rightarrow> Inr [] | Some m \<Rightarrow> map_ok (\<lambda>t. [t]) (build m)) = Inr ts) pairs tss"
  shows "list_all2 (\<lambda>m t. build m = (Inr t :: rd_match rendered))
    (List.map_filter (\<lambda>(rn, l). case match_for caps False rn l of Inl _ \<Rightarrow> None | Inr found \<Rightarrow> found) pairs) (concat tss)"
  using assms
proof (induction pairs tss rule: list_all2_induct)
  case (Cons p ps ts tss)
  obtain rn l where p: "p = (rn, l)" by fastforce
  from Cons.hyps(1) obtain found where f: "match_for caps demanded rn l = Inr found"
    "(case found of None \<Rightarrow> Inr [] | Some m \<Rightarrow> map_ok (\<lambda>t. [t]) (build m)) = (Inr ts :: rd_match list rendered)"
    by (auto simp: p rbind_Inr_iff map_err_ok_iff)
  with Cons.IH show ?case
    by (cases found) (auto simp: p match_for_demand List.map_filter_simps map_ok_Inr_iff)
qed (simp add: List.map_filter_simps)

lemma build_match_displays: "build_match n yl mrs caps res = Inr t \<Longrightarrow> displays yl mrs caps res t"
proof (induction n arbitrary: res t)
  case (Suc n)
  let ?build = "build_match n yl mrs caps"
  from Suc.prems obtain nd cs where nd: "node_from_matched (mnode res) (mr_description res) = Inr nd"
    and cs: "list_all2 (\<lambda>c t. ?build c = Inr t) (children res) cs"
    by (auto simp: rbind_Inr_iff map_err_ok_iff traverse_list_all2)
  have locs: "(if is_leaf_node nd \<and> success res then map to_rd_address (sorted_list_of_set (locations res)) else [])
      = shown_locations res"
    using leaf_node_iff [OF nd] by (auto simp: shown_locations_def split: matched_node.split)
  have children: "list_all2 (displays yl mrs caps) (children res) cs"
    using cs by (rule list_all2_mono) (rule Suc.IH)
  show ?case
  proof (cases "reference_of res")
    case None
    then have "t = RdMatchTree (success res) nd cs (shown_locations res) (shown_captures res)"
      using Suc.prems nd cs locs by (simp add: traverse_list_all2 [THEN iffD2, OF cs] shown_captures_def)
    then show ?thesis using None nd children by (auto intro!: displays simp: shown_node_def spliced_def)
  next
    case (Some nm)
    obtain demanded names where ref: "referenced_rules mrs caps nm = (demanded, names)" by fastforce
    from Suc.prems nd Some ref obtain nd' tss where nd': "subscope_node yl mrs nm nd = Inr nd'"
      and tss: "list_all2 (\<lambda>(rn, l) ts. rbind (map_err Some (match_for caps demanded rn l)) (\<lambda>found.
          case found of None \<Rightarrow> Inr [] | Some m \<Rightarrow> map_ok (\<lambda>t. [t]) (?build m)) = Inr ts)
          (List.product names (sorted_list_of_set (locations res))) tss"
      and t: "t = RdMatchTree (success res) nd' (cs @ concat tss) (shown_locations res) (shown_captures res)"
      by (auto simp: traverse_list_all2 [THEN iffD2, OF cs] rbind_Inr_iff map_err_ok_iff traverse_list_all2 locs shown_captures_def
          case_prod_beta')
    have "list_all2 (\<lambda>m t. ?build m = Inr t) (spliced mrs caps res) (concat tss)"
      using splice_trees [OF tss] Some ref by (simp add: spliced_def)
    then have "list_all2 (displays yl mrs caps) (spliced mrs caps res) (concat tss)"
      by (rule list_all2_mono) (rule Suc.IH)
    with children nd nd' Some show ?thesis
      unfolding t by (intro displays) (simp_all add: shown_node_def list_all2_appendI)
  qed
qed simp

section \<open>When a document can be built\<close>

function subresults :: "match_result \<Rightarrow> match_result set" where
  "subresults res = insert res (\<Union>c \<in> set (children res). subresults c)"
  by pat_completeness auto
termination
proof (relation "measure size")
  fix res c :: match_result
  assume "c \<in> set (children res)"
  then show "(c, res) \<in> measure size" by (cases res) (auto dest: size_list_estimation' [OF _ order_refl, where f = size])
qed simp

declare subresults.simps [simp del]

lemma size_child: "c \<in> set (children res) \<Longrightarrow> size c < size res"
  by (cases res) (auto dest: size_list_estimation' [OF _ order_refl, where f = size])

lemma subresults_self: "res \<in> subresults res"
  by (subst subresults.simps) simp

lemma subresults_child: "sub \<in> subresults res \<Longrightarrow> c \<in> set (children sub) \<Longrightarrow> c \<in> subresults res"
proof (induction res rule: subresults.induct)
  case (1 res)
  from "1.prems"(1) consider "sub = res" | d where "d \<in> set (children res)" "sub \<in> subresults d"
    by (subst (asm) subresults.simps) auto
  then show ?case
  proof cases
    case 1
    then show ?thesis using "1.prems"(2) subresults_self by (subst subresults.simps) auto
  next
    case (2 d)
    then have "c \<in> subresults d" using "1.IH" "1.prems"(2) by blast
    then show ?thesis using 2(1) by (subst subresults.simps) auto
  qed
qed

lemma subresults_size: "sub \<in> subresults res \<Longrightarrow> size sub \<le> size res"
proof (induction res rule: subresults.induct)
  case (1 res)
  then show ?case using size_child by (subst (asm) subresults.simps) fastforce
qed

text \<open>What a single node of a recorded match needs.\<close>

definition node_displayable :: "yaml_lib \<Rightarrow> matching_rule_set \<Rightarrow> match_results \<Rightarrow> match_result \<Rightarrow> bool" where
  "node_displayable yl mrs caps sub \<longleftrightarrow>
     (\<exists>nd. shown_node yl mrs sub = Inr nd)
     \<and> (case reference_of sub of
          None \<Rightarrow> True
        | Some k \<Rightarrow> mrs_get mrs k \<noteq> None \<longrightarrow>
            (\<forall>l \<in> locations sub. is_call_address l \<or> rule_match_index caps k l \<noteq> None))"

definition recorded_node :: "match_results \<Rightarrow> string \<Rightarrow> match_result \<Rightarrow> bool" where
  "recorded_node caps nm sub \<longleftrightarrow> (\<exists>a res. (a, res) \<in> set (recorded caps nm) \<and> sub \<in> subresults res)"

definition displayable :: "yaml_lib \<Rightarrow> matching_rule_set \<Rightarrow> match_results \<Rightarrow> bool" where
  "displayable yl mrs caps \<longleftrightarrow> (\<forall>nm sub. recorded_node caps nm sub \<longrightarrow> node_displayable yl mrs caps sub)"

text \<open>The rules of recorded matches refer to each other without a cycle.\<close>

definition ranked :: "matching_rule_set \<Rightarrow> match_results \<Rightarrow> (string \<Rightarrow> nat) \<Rightarrow> bool" where
  "ranked mrs caps rank \<longleftrightarrow>
     (\<forall>nm sub k. recorded_node caps nm sub \<longrightarrow> reference_of sub = Some k
        \<longrightarrow> (\<forall>rn \<in> set (snd (referenced_rules mrs caps k)). rank rn < rank nm))"

lemma traverse_on_total:
  "(\<And>x. x \<in> set xs \<Longrightarrow> \<exists>y. f x = Inr y) \<Longrightarrow> \<exists>ys. traverse f xs = Inr ys"
  by (induction xs) fastforce+

lemma index_recorded: "rule_match_index caps nm a = Some m \<Longrightarrow> (a, m) \<in> set (recorded caps nm)"
  by (auto simp: rule_match_index_def dest: map_of_SomeD)

lemma match_for_recorded:
  "match_for caps demanded rn l = Inr (Some m) \<Longrightarrow> \<exists>a. (a, m) \<in> set (recorded caps rn)"
  by (auto simp: match_for_def most_recent_in_thread_def Let_def dest!: index_recorded
      split: address.splits option.splits if_splits)

lemma match_for_total:
  "\<not> demanded \<or> is_call_address l \<or> rule_match_index caps rn l \<noteq> None \<Longrightarrow> \<exists>found. match_for caps demanded rn l = Inr found"
  by (cases l) (auto simp: match_for_def split: option.split)

lemma build_match_total:
  assumes "displayable yl mrs caps" "ranked mrs caps rank" "\<And>nm a res. (a, res) \<in> set (recorded caps nm) \<Longrightarrow> size res < D"
  shows "recorded_node caps nm sub \<Longrightarrow> rank nm * D + size sub < n \<Longrightarrow> \<exists>t. build_match n yl mrs caps sub = Inr t"
proof (induction n arbitrary: nm sub)
  case (Suc n)
  have node: "node_displayable yl mrs caps sub" using assms(1) Suc.prems(1) by (auto simp: displayable_def)
  then obtain nd0 nd where nd: "node_from_matched (mnode sub) (mr_description sub) = Inr nd0"
    "(case reference_of sub of None \<Rightarrow> Inr nd0 | Some k \<Rightarrow> subscope_node yl mrs k nd0) = Inr nd"
    by (auto simp: node_displayable_def shown_node_def rbind_Inr_iff)
  have "\<exists>t. build_match n yl mrs caps c = Inr t" if c: "c \<in> set (children sub)" for c
  proof (rule Suc.IH)
    show "recorded_node caps nm c" using Suc.prems(1) subresults_child [OF _ c] by (auto simp: recorded_node_def)
    show "rank nm * D + size c < n" using size_child [OF c] Suc.prems(2) by simp
  qed
  then obtain cs where cs: "traverse (build_match n yl mrs caps) (children sub) = Inr cs"
    using traverse_on_total [of "children sub"] by blast
  show ?case
  proof (cases "reference_of sub")
    case None
    then show ?thesis using nd cs by simp
  next
    case (Some k)
    obtain demanded names where ref: "referenced_rules mrs caps k = (demanded, names)" by fastforce
    have below: "\<exists>t. build_match n yl mrs caps m = Inr t" if rn: "rn \<in> set names" and m: "(a, m) \<in> set (recorded caps rn)" for rn a m
    proof (rule Suc.IH)
      show "recorded_node caps rn m" using m subresults_self by (auto simp: recorded_node_def)
      have "rank rn < rank nm" using assms(2) Suc.prems(1) Some ref rn unfolding ranked_def by fastforce
      then have "Suc (rank rn) * D \<le> rank nm * D" by (intro mult_le_mono1) simp
      then show "rank rn * D + size m < n" using assms(3) [OF m] Suc.prems(2) by simp
    qed
    have "\<exists>found. match_for caps demanded rn l = Inr found"
      if "rn \<in> set names" "l \<in> set (sorted_list_of_set (locations sub))" for rn l
    proof (rule match_for_total)
      have "l \<in> locations sub" using that(2) by (cases "finite (locations sub)") auto
      then show "\<not> demanded \<or> is_call_address l \<or> rule_match_index caps rn l \<noteq> None"
        using node Some ref that(1) by (auto simp: node_displayable_def referenced_rules_def split: option.splits)
    qed
    then have "\<exists>tss. traverse (\<lambda>(rn, location).
        rbind (map_err Some (match_for caps demanded rn location)) (\<lambda>found.
          case found of None \<Rightarrow> Inr [] | Some m \<Rightarrow> map_ok (\<lambda>t. [t]) (build_match n yl mrs caps m)))
        (List.product names (sorted_list_of_set (locations sub))) = Inr tss"
    proof (intro traverse_on_total, goal_cases)
      case (1 p)
      then obtain rn l found where p: "p = (rn, l)" "rn \<in> set names" "match_for caps demanded rn l = Inr found" by force
      then show ?case using below match_for_recorded by (cases found) fastforce+
    qed
    then show ?thesis using nd cs Some ref by auto
  qed
qed simp

section \<open>The document\<close>

text \<open>What the document has to say about a rule: nothing, or the rule's metadata and its matches in order.\<close>

definition reports ::
  "yaml_lib \<Rightarrow> matching_rule_set \<Rightarrow> match_results \<Rightarrow> string \<Rightarrow> rule_matches option \<Rightarrow> bool" where
  "reports yl mrs caps nm entry \<longleftrightarrow>
     (case (im_get (=) caps nm, mrs_get mrs nm) of
        (Some ms, Some r) \<Rightarrow>
          if is_subscope_rule yl r then entry = None
          else \<exists>shown. entry = Some \<lparr>rms_meta = rule_metadata_of r, rms_source = source r, rms_matches = shown\<rparr>
            \<and> list_all2 (\<lambda>(a, res) (ra, t). ra = to_rd_address a \<and> displays yl mrs caps res t) ms shown
      | _ \<Rightarrow> entry = None)"

lemma im_get_distinct: "distinct (im_keys m) \<Longrightarrow> (k, v) \<in> set m \<Longrightarrow> im_get (=) m k = Some v"
  by (induction m) (auto simp: im_keys_def image_iff)

lemma im_get_None_keys: "im_get (=) m k = None \<longleftrightarrow> k \<notin> set (im_keys m)"
  using im_get_None_iff [of "(=)" m k] by (auto simp: im_contains_def)

lemma render_rule_entry:
  assumes "render_rule n yl mrs caps (nm, ms) rules = Inr rules'" "bt_wf rules" "im_get (=) caps nm = Some ms" "bt_get rules nm = None"
  shows "bt_wf rules' \<and> reports yl mrs caps nm (bt_get rules' nm) \<and> (\<forall>k. k \<noteq> nm \<longrightarrow> bt_get rules' k = bt_get rules k)"
proof (cases "\<exists>r. mrs_get mrs nm = Some r \<and> \<not> is_subscope_rule yl r")
  case True
  then obtain r where r: "mrs_get mrs nm = Some r" "\<not> is_subscope_rule yl r" by blast
  let ?one = "\<lambda>e y. (case e of (a, res) \<Rightarrow> map_ok (\<lambda>t. (to_rd_address a, t)) (build_match n yl mrs caps res)) = Inr y"
  from assms(1) r obtain ts where ts: "list_all2 ?one ms ts"
    and rules': "rules' = bt_insert nm \<lparr>rms_meta = rule_metadata_of r, rms_source = source r, rms_matches = ts\<rparr> rules"
    by (auto simp: render_rule_def map_ok_Inr_iff traverse_list_all2)
  have "list_all2 (\<lambda>(a, res) (ra, t). ra = to_rd_address a \<and> displays yl mrs caps res t) ms ts"
    using ts by (rule list_all2_mono) (auto simp: map_ok_Inr_iff intro: build_match_displays)
  then show ?thesis using assms(2,3) r by (simp add: rules' reports_def bt_get_insert)
next
  case False
  then have "rules' = rules" using assms(1) by (auto simp: render_rule_def split: option.splits if_splits)
  then show ?thesis using assms False by (auto simp: reports_def split: option.splits)
qed

lemma render_rules_entries:
  assumes "fold_result (render_rule n yl mrs caps) es rules = Inr rules'" "bt_wf rules" "distinct (map fst es)"
    "\<And>nm ms. (nm, ms) \<in> set es \<Longrightarrow> im_get (=) caps nm = Some ms \<and> bt_get rules nm = None"
  shows "bt_wf rules' \<and> (\<forall>nm \<in> fst ` set es. reports yl mrs caps nm (bt_get rules' nm))
    \<and> (\<forall>k. k \<notin> fst ` set es \<longrightarrow> bt_get rules' k = bt_get rules k)"
  using assms
proof (induction es arbitrary: rules)
  case (Cons e es)
  obtain nm ms where e: "e = (nm, ms)" by fastforce
  from Cons.prems(1) obtain mid where mid: "render_rule n yl mrs caps (nm, ms) rules = Inr mid"
    "fold_result (render_rule n yl mrs caps) es mid = Inr rules'" by (auto simp: e rbind_Inr_iff)
  have step: "bt_wf mid" "reports yl mrs caps nm (bt_get mid nm)" "\<And>k. k \<noteq> nm \<Longrightarrow> bt_get mid k = bt_get rules k"
    using render_rule_entry [OF mid(1) Cons.prems(2)] Cons.prems(4) [of nm ms] by (simp_all add: e)
  have fresh: "nm \<notin> fst ` set es" using Cons.prems(3) by (simp add: e)
  have "bt_wf rules' \<and> (\<forall>nm \<in> fst ` set es. reports yl mrs caps nm (bt_get rules' nm))
    \<and> (\<forall>k. k \<notin> fst ` set es \<longrightarrow> bt_get rules' k = bt_get mid k)"
  proof (rule Cons.IH [OF mid(2) step(1)])
    show "distinct (map fst es)" using Cons.prems(3) by simp
    fix nm' ms' assume "(nm', ms') \<in> set es"
    moreover from this fresh have "nm' \<noteq> nm" by force
    ultimately show "im_get (=) caps nm' = Some ms' \<and> bt_get mid nm' = None" using Cons.prems(4) [of nm' ms'] step(3) by simp
  qed
  then show ?case using step fresh by (auto simp: e)
qed simp

lemma render_rules_total:
  assumes "\<And>nm ms a res. (nm, ms) \<in> set es \<Longrightarrow> (a, res) \<in> set ms \<Longrightarrow> \<exists>t. build_match n yl mrs caps res = Inr t"
  shows "\<exists>rules'. fold_result (render_rule n yl mrs caps) es rules = Inr rules'"
  using assms
proof (induction es arbitrary: rules)
  case (Cons e es)
  obtain nm ms where e: "e = (nm, ms)" by fastforce
  have "\<exists>ts. traverse (\<lambda>(addr, res). map_ok (\<lambda>t. (to_rd_address addr, t)) (build_match n yl mrs caps res)) ms = Inr ts"
  proof (intro traverse_on_total, goal_cases)
    case (1 x)
    obtain a res where x: "x = (a, res)" by fastforce
    with 1 have "\<exists>t. build_match n yl mrs caps res = Inr t" using Cons.prems [of nm ms a res] by (simp add: e)
    then show ?case by (auto simp: x)
  qed
  then obtain mid where "render_rule n yl mrs caps e rules = Inr mid"
    by (fastforce simp: e render_rule_def split: option.splits)
  moreover have "\<exists>rules'. fold_result (render_rule n yl mrs caps) es mid = Inr rules'"
    by (rule Cons.IH, rule Cons.prems) auto
  ultimately show ?case by auto
qed simp

lemma recorded_bound: "\<exists>D. \<forall>nm a res. (a, res) \<in> set (recorded caps nm) \<longrightarrow> size res < D"
proof -
  let ?S = "size ` snd ` (\<Union>e \<in> set caps. set (snd e))"
  have fin: "finite ?S" by (intro finite_imageI finite_UN_I) auto
  have "size res \<in> ?S" if "(a, res) \<in> set (recorded caps nm)" for nm a res
  proof -
    from that obtain ms where ms: "im_get (=) caps nm = Some ms" "(a, res) \<in> set ms"
      by (cases "im_get (=) caps nm") (simp_all add: recorded_def)
    then show ?thesis using im_get_Some_key [OF ms(1)] by force
  qed
  then have "size res < Suc (Max ?S)" if "(a, res) \<in> set (recorded caps nm)" for nm a res
    using that Max_ge [OF fin] by (simp add: le_imp_less_Suc)
  then show ?thesis by blast
qed

text \<open>A document that is built reports exactly the matched rules, in the order of their names.\<close>

lemma built_reports:
  assumes "build_result_document n yl it mrs caps md = Inr doc" "distinct (im_keys caps)" "mset (it caps) = mset caps"
  shows "doc_meta doc = md" "sorted_wrt (<) (map fst (doc_rules doc))" "reports yl mrs caps nm (bt_get (doc_rules doc) nm)"
proof -
  have es: "set (it caps) = set caps" using assms(3) by (rule mset_eq_setD)
  have "mset (map fst (it caps)) = mset (map fst caps)" using assms(3) by simp
  then have dist: "distinct (map fst (it caps))" using assms(2) mset_eq_imp_distinct_iff by (metis im_keys_def)
  have get: "im_get (=) caps nm = Some ms" if "(nm, ms) \<in> set (it caps)" for nm ms
    using im_get_distinct [OF assms(2)] that es by blast
  from assms(1) obtain rules' where rules': "fold_result (render_rule n yl mrs caps) (it caps) [] = Inr rules'"
    "doc_meta doc = md" "doc_rules doc = rules'"
    by (auto simp: build_result_document_def map_ok_Inr_iff rbind_Inr_iff)
  have "bt_wf rules' \<and> (\<forall>nm \<in> fst ` set (it caps). reports yl mrs caps nm (bt_get rules' nm))
      \<and> (\<forall>k. k \<notin> fst ` set (it caps) \<longrightarrow> bt_get rules' k = bt_get [] k)"
    by (rule render_rules_entries [OF rules'(1) _ dist]) (simp_all add: get)
  moreover have "reports yl mrs caps k None" if "k \<notin> fst ` set (it caps)" for k
    using that es im_get_None_keys [of caps k] by (simp add: reports_def im_keys_def)
  ultimately show "doc_meta doc = md" "sorted_wrt (<) (map fst (doc_rules doc))" "reports yl mrs caps nm (bt_get (doc_rules doc) nm)"
    using rules'(2,3) by (fastforce simp: bt_wf_def)+
qed

lemma document_built:
  assumes "displayable yl mrs caps" "ranked mrs caps rank" "distinct (im_keys caps)" "mset (it caps) = mset caps"
  shows "\<exists>depth. \<forall>n \<ge> depth. \<exists>doc. build_result_document n yl it mrs caps md = Inr doc
    \<and> doc_meta doc = md \<and> sorted_wrt (<) (map fst (doc_rules doc))
    \<and> (\<forall>nm. reports yl mrs caps nm (bt_get (doc_rules doc) nm))"
proof -
  obtain D where D: "\<And>nm a res. (a, res) \<in> set (recorded caps nm) \<Longrightarrow> size res < D" using recorded_bound by blast
  obtain R where R: "\<And>nm. nm \<in> set (im_keys caps) \<Longrightarrow> rank nm \<le> R"
    using finite_nat_set_iff_bounded_le [of "rank ` set (im_keys caps)"] by auto
  have es: "set (it caps) = set caps" using assms(4) by (rule mset_eq_setD)
  have get: "im_get (=) caps nm = Some ms" if "(nm, ms) \<in> set (it caps)" for nm ms
    using im_get_distinct [OF assms(3)] that es by blast
  have "\<exists>doc. build_result_document n yl it mrs caps md = Inr doc" if n: "Suc R * D \<le> n" for n
  proof -
    have built: "\<exists>t. build_match n yl mrs caps res = Inr t" if "(nm, ms) \<in> set (it caps)" "(a, res) \<in> set ms" for nm ms a res
    proof (rule build_match_total [OF assms(1,2) D])
      have rec: "(a, res) \<in> set (recorded caps nm)" using get [OF that(1)] that(2) by (simp add: recorded_def)
      then show "recorded_node caps nm res" using subresults_self by (auto simp: recorded_node_def)
      have "rank nm \<le> R" using R that(1) es by (force simp: im_keys_def)
      then have "rank nm * D \<le> R * D" by (rule mult_le_mono1)
      then show "rank nm * D + size res < n" using D [OF rec] n unfolding mult_Suc by linarith
    qed
    have "\<exists>rules'. fold_result (render_rule n yl mrs caps) (it caps) [] = Inr rules'"
      by (rule render_rules_total, rule built)
    then show ?thesis by (auto simp: build_result_document_def)
  qed
  then show ?thesis
    using built_reports [where it = it and caps = caps, OF _ assms(3,4)] by (intro exI [of _ "Suc R * D"]) fast
qed

end
