(* ===== verification/Display.thy ===== *)
theory Display
  imports From_Capa_Props Driver_Props
begin

text \<open>
  From an analysis to its document: what the two drivers collect can always be displayed. Along
  the drivers, every match feature in a feature set is accounted for by a match that was
  collected, so the references of collected matches lead to collected matches.
\<close>

section \<open>Evaluated trees\<close>

text \<open>No count of a COM feature, which would never be expanded.\<close>

fun com_uncounted :: "node \<Rightarrow> bool" where
  "com_uncounted (Node (And cs) d) = list_all com_uncounted cs"
| "com_uncounted (Node (Or cs) d) = list_all com_uncounted cs"
| "com_uncounted (Node (Not c) d) = com_uncounted c"
| "com_uncounted (Node (SomeOf n cs) d) = list_all com_uncounted cs"
| "com_uncounted (Node (Range f lo hi) d) = (case f of Com _ _ \<Rightarrow> False | _ \<Rightarrow> True)"
| "com_uncounted (Node (Subscope sc c) d) = com_uncounted c"
| "com_uncounted (Node (Leaf f) d) = True"

text \<open>What evaluation on a feature set ensures of every node of its tree.\<close>

definition evidence :: "feature_set \<Rightarrow> node \<Rightarrow> match_result \<Rightarrow> bool" where
  "evidence fs n sub \<longleftrightarrow>
     (\<exists>nd. node_from_matched (mnode sub) (mr_description sub) = Inr nd)
     \<and> (\<forall>k. reference_of sub = Some k \<longrightarrow> k \<in> match_refs n \<and> fs_get fs (MatchedRule k) = Some (locations sub))"

lemma from_engine_total: "(\<And>kind nm. f \<noteq> Com kind nm) \<Longrightarrow> \<exists>x. from_engine f d = Inr x"
proof (cases f)
  case (Str s)
  then show ?thesis by (cases s) auto
qed auto

lemma eval_leaf_evidence:
  assumes "eval_leaf rx f fs False d = Inr m" "sub \<in> subresults m"
  shows "evidence fs (Node (Leaf f) d) sub"
proof -
  have m: "mnode m = MLeaf f" "children m = []" using eval_leaf_mirrors [OF assms(1)] by simp_all
  have sub: "sub = m" using assms(2) m(2) by (subst (asm) subresults.simps) simp
  have "f \<noteq> Com kind nm" for kind nm using assms(1) by (auto simp: eval_leaf_def)
  then have "\<exists>nd. node_from_matched (mnode m) (mr_description m) = Inr nd"
    using from_engine_total [of f "mr_description m"] by (auto simp: m)
  moreover have "fs_get fs (MatchedRule k) = Some (locations m)" if "reference_of m = Some k" for k
  proof -
    have f: "f = MatchedRule k" and ok: "success m"
      using that m(1) by (auto simp: reference_of_def split: feature.splits if_splits)
    have "m = eval_exact f fs d" using assms(1) by (simp add: eval_leaf_def f)
    then show ?thesis using ok by (auto simp: eval_exact_def f split: option.splits)
  qed
  moreover have "k \<in> match_refs (Node (Leaf f) d)" if "reference_of m = Some k" for k
    using that m(1) by (auto simp: reference_of_def split: feature.splits if_splits)
  ultimately show ?thesis by (simp add: evidence_def sub)
qed

lemma evidence_compound:
  assumes "sub \<in> subresults m" "mnode m \<in> {MAnd, MOr, MNot} \<union> range MSome"
    and "\<And>c. c \<in> set (children m) \<Longrightarrow> sub \<in> subresults c \<Longrightarrow> \<exists>n'. evidence fs n' sub \<and> match_refs n' \<subseteq> match_refs n"
  shows "evidence fs n sub"
proof (cases "sub = m")
  case True
  then show ?thesis using assms(2) by (auto simp: evidence_def reference_of_def)
next
  case False
  then obtain c where "c \<in> set (children m)" "sub \<in> subresults c"
    using assms(1) by (subst (asm) subresults.simps) auto
  from assms(3) [OF this] show ?thesis unfolding evidence_def by blast
qed

lemma list_all2_member: "list_all2 P xs ys \<Longrightarrow> y \<in> set ys \<Longrightarrow> \<exists>x \<in> set xs. P x y"
  by (induction xs ys rule: list_all2_induct) auto

lemma evidence_list:
  assumes "sub \<in> subresults m" "mnode m \<in> {MAnd, MOr, MNot} \<union> range MSome"
    and "list_all2 (\<lambda>c s. evaluate rx fs False c = Inr s) cs (children m)" "list_all com_uncounted cs"
    and "\<And>c r sub. c \<in> set cs \<Longrightarrow> evaluate rx fs False c = Inr r \<Longrightarrow> com_uncounted c \<Longrightarrow> sub \<in> subresults r \<Longrightarrow> evidence fs c sub"
    and "match_refs n = (\<Union>c \<in> set cs. match_refs c)"
  shows "evidence fs n sub"
proof (rule evidence_compound [OF assms(1,2)])
  fix r assume r: "r \<in> set (children m)" "sub \<in> subresults r"
  then obtain c where c: "c \<in> set cs" "evaluate rx fs False c = Inr r" using list_all2_member [OF assms(3)] by blast
  then have "com_uncounted c" using assms(4) by (simp add: list_all_iff)
  with c r assms(5) have "evidence fs c sub" by blast
  then show "\<exists>n'. evidence fs n' sub \<and> match_refs n' \<subseteq> match_refs n" using c(1) assms(6) by blast
qed

lemma evaluate_evidence:
  "evaluate rx fs False n = Inr m \<Longrightarrow> com_uncounted n \<Longrightarrow> sub \<in> subresults m \<Longrightarrow> evidence fs n sub"
proof (induction n arbitrary: m sub rule: node_induct)
  case (Leaf f d)
  then show ?case by (simp add: eval_leaf_evidence)
next
  case (Range f lo hi d)
  then have m: "mnode m = MRange f lo hi" "children m = []" using eval_range_mirrors [of f lo hi d fs] by auto
  have sub: "sub = m" using Range.prems(3) m(2) by (subst (asm) subresults.simps) simp
  have "\<exists>x. from_engine f None = Inr x" using Range.prems(2) by (intro from_engine_total) auto
  then show ?case by (auto simp: sub evidence_def m reference_of_def)
next
  case (And cs d)
  then have "list_all2 (\<lambda>c s. evaluate rx fs False c = Inr s) cs (children m)" "mnode m = MAnd"
    by (auto simp: eval_and_def result_simps simp flip: traverse_def collect_Inr_iff traverse_Inr_iff)
  then show ?case using And by (intro evidence_list [OF And.prems(3), where cs = cs]) auto
next
  case (Or cs d)
  then have "list_all2 (\<lambda>c s. evaluate rx fs False c = Inr s) cs (children m)" "mnode m = MOr"
    by (auto simp: eval_or_def result_simps simp flip: traverse_def collect_Inr_iff traverse_Inr_iff)
  then show ?case using Or by (intro evidence_list [OF Or.prems(3), where cs = cs]) auto
next
  case (SomeOf k cs d)
  then have "list_all2 (\<lambda>c s. evaluate rx fs False c = Inr s) cs (children m)" "mnode m = MSome k"
    by (auto simp: eval_some_def result_simps simp flip: traverse_def collect_Inr_iff traverse_Inr_iff)
  then show ?case using SomeOf by (intro evidence_list [OF SomeOf.prems(3), where cs = cs]) auto
next
  case (Not c d)
  then have "list_all2 (\<lambda>c s. evaluate rx fs False c = Inr s) [c] (children m)" "mnode m = MNot"
    by (auto simp: eval_not_def result_simps)
  then show ?case using Not by (intro evidence_list [OF Not.prems(3), where cs = "[c]"]) auto
qed simp_all

section \<open>Accounts\<close>

text \<open>The matches that a map collects, as a set, and where its rules matched.\<close>

type_synonym match_set = "(string \<times> address \<times> match_result) set"

definition matches_of :: "match_results \<Rightarrow> match_set" where
  "matches_of ms = (\<Union>e \<in> set ms. Pair (fst e) ` set (snd e))"

text \<open>A match feature at an address is accounted for by a match there, calls apart.\<close>

definition accounted_at :: "matching_rule_set \<Rightarrow> match_set \<Rightarrow> string \<Rightarrow> address \<Rightarrow> bool" where
  "accounted_at mrs M k l \<longleftrightarrow>
     is_call_address l
     \<or> (\<exists>r m. mrs_get mrs (rule_name r) = Some r \<and> MatchedRule k \<in> published r \<and> (rule_name r, l, m) \<in> M)"

definition entry_ok :: "matching_rule_set \<Rightarrow> match_set \<Rightarrow> feature \<times> address set \<Rightarrow> bool" where
  "entry_ok mrs M e \<longleftrightarrow> (\<forall>k. fst e = MatchedRule k \<longrightarrow> (\<forall>l \<in> snd e. accounted_at mrs M k l))"

definition accounted :: "matching_rule_set \<Rightarrow> match_set \<Rightarrow> feature_set \<Rightarrow> bool" where
  "accounted mrs M fs \<longleftrightarrow> (\<forall>e \<in> set fs. entry_ok mrs M e)"

text \<open>A collected match is of a known rule, and its references are accounted for.\<close>

definition sound_match :: "matching_rule_set \<Rightarrow> match_set \<Rightarrow> string \<Rightarrow> match_result \<Rightarrow> bool" where
  "sound_match mrs M nm m \<longleftrightarrow>
     (\<exists>r. mrs_get mrs nm = Some r
        \<and> (\<forall>sub \<in> subresults m.
             (\<exists>nd. node_from_matched (mnode sub) (mr_description sub) = Inr nd)
             \<and> (\<forall>k. reference_of sub = Some k \<longrightarrow>
                  k \<in> match_refs (body r) \<and> (\<forall>l \<in> locations sub. accounted_at mrs M k l))))"

definition sound :: "matching_rule_set \<Rightarrow> match_set \<Rightarrow> match_set \<Rightarrow> bool" where
  "sound mrs M N \<longleftrightarrow> (\<forall>(nm, a, m) \<in> N. sound_match mrs M nm m)"

lemma accounted_at_mono: "accounted_at mrs M k l \<Longrightarrow> M \<subseteq> M' \<Longrightarrow> accounted_at mrs M' k l"
  unfolding accounted_at_def by blast

lemma accounted_mono: "accounted mrs M fs \<Longrightarrow> M \<subseteq> M' \<Longrightarrow> accounted mrs M' fs"
  unfolding accounted_def entry_ok_def using accounted_at_mono by blast

lemma sound_mono: "sound mrs M N \<Longrightarrow> M \<subseteq> M' \<Longrightarrow> sound mrs M' N"
  unfolding sound_def sound_match_def using accounted_at_mono by fastforce

lemma sound_Un [simp]: "sound mrs M (N \<union> N') \<longleftrightarrow> sound mrs M N \<and> sound mrs M N'"
  by (simp add: sound_def ball_Un)

lemma accounted_Nil [simp]: "accounted mrs M []"
  by (simp add: accounted_def)

lemma matches_of_Nil [simp]: "matches_of [] = {}"
  by (simp add: matches_of_def)

lemma matches_of_Cons [simp]: "matches_of (e # ms) = Pair (fst e) ` set (snd e) \<union> matches_of ms"
  by (simp add: matches_of_def)

lemma matches_of_append [simp]: "matches_of (ms @ ns) = matches_of ms \<union> matches_of ns"
  by (simp add: matches_of_def)

lemma matches_of_entry:
  "matches_of (im_entry (=) nm [] (\<lambda>l. l @ res) ms) = matches_of ms \<union> Pair nm ` set res"
proof (induction ms)
  case (Cons e ms)
  then show ?case by (cases e; cases "nm = fst e") (simp_all add: image_Un Un_ac)
qed simp

lemma matches_of_cong: "set ms = set ns \<Longrightarrow> matches_of ms = matches_of ns"
  by (simp add: matches_of_def)

lemma matches_of_extend:
  assumes "set (it from) = set from"
  shows "matches_of (extend_matches it into from) = matches_of into \<union> matches_of from"
proof -
  have "matches_of (fold (\<lambda>(nm, res). im_entry (=) nm [] (\<lambda>l. l @ res)) es into) = matches_of into \<union> matches_of es" for es
    by (induction es arbitrary: into) (auto simp: matches_of_entry)
  then show ?thesis using matches_of_cong [OF assms] by (simp add: extend_matches_def)
qed

section \<open>Feature sets\<close>

lemma feature_eq_match: "feature_eq f (MatchedRule k) \<longleftrightarrow> f = MatchedRule k" "feature_eq (MatchedRule k) f \<longleftrightarrow> f = MatchedRule k"
  by (auto dest: feature_eq_sym)

lemma accounted_entry:
  assumes "accounted mrs M fs" "entry_ok mrs M (f, h {})"
    "\<And>ls. entry_ok mrs M (f, ls) \<Longrightarrow> entry_ok mrs M (f, h ls)"
  shows "accounted mrs M (im_entry feature_eq f {} h fs)"
  using assms(1)
proof (induction fs)
  case Nil
  then show ?case using assms(2) by (simp add: accounted_def)
next
  case (Cons e fs)
  obtain g ls where e: "e = (g, ls)" by fastforce
  have "entry_ok mrs M (g, h ls)" if "feature_eq f g"
  proof (cases "\<exists>k. g = MatchedRule k")
    case True
    then have "f = g" using that feature_eq_match by blast
    then show ?thesis using assms(3) Cons.prems by (simp add: e accounted_def)
  qed (simp add: entry_ok_def)
  then show ?case using Cons by (auto simp: e accounted_def)
qed

lemma accounted_get: "accounted mrs M fs \<Longrightarrow> fs_get fs (MatchedRule k) = Some ls \<Longrightarrow> l \<in> ls \<Longrightarrow> accounted_at mrs M k l"
  using im_get_Some_key [of feature_eq fs "MatchedRule k" ls]
  by (auto simp: accounted_def entry_ok_def feature_eq_match)

lemma accounted_insert:
  "accounted mrs M fs \<Longrightarrow> matched_name f = None \<Longrightarrow> accounted mrs M (fs_insert f a fs)"
  unfolding fs_insert_def by (rule accounted_entry) (auto simp: entry_ok_def)

lemma accounted_insert_many:
  "accounted mrs M fs \<Longrightarrow> entry_ok mrs M (f, ls) \<Longrightarrow> accounted mrs M (im_entry feature_eq f {} (\<lambda>l. l \<union> ls) fs)"
  by (rule accounted_entry) (auto simp: entry_ok_def)

lemma accounted_merge: "accounted mrs M fs \<Longrightarrow> accounted mrs M other \<Longrightarrow> accounted mrs M (fs_merge fs other)"
proof (induction fs other rule: fs_merge.induct)
  case (2 fs f locs other)
  then have "accounted mrs M (im_entry feature_eq f {} (\<lambda>l. l \<union> locs) fs)"
    by (intro accounted_insert_many) (simp_all add: accounted_def)
  then show ?case using 2 by (simp add: accounted_def)
qed simp

lemma accounted_index:
  assumes "accounted mrs M fs" "mrs_get mrs (rule_name r) = Some r" "\<And>l. l \<in> ls \<Longrightarrow> \<exists>m. (rule_name r, l, m) \<in> M"
  shows "accounted mrs M (index_rule_matches r ls fs)"
proof -
  have ok: "entry_ok mrs M (MatchedRule p, ls)" if "MatchedRule p \<in> published r" for p
    using assms(2,3) that unfolding entry_ok_def accounted_at_def by auto
  have "accounted mrs M (fold (\<lambda>prefix. fs_insert_many (MatchedRule prefix) ls) ps fs)"
    if "accounted mrs M fs" "\<forall>p \<in> set ps. MatchedRule p \<in> published r" for ps fs
    using that
    by (induction ps arbitrary: fs) (simp_all add: fs_insert_many_def accounted_insert_many ok)
  moreover have "accounted mrs M (fs_insert_many (MatchedRule (rule_name r)) ls fs)"
    unfolding fs_insert_many_def by (intro accounted_insert_many assms(1) ok) (simp add: published_def)
  ultimately show ?thesis by (simp add: index_rule_matches_def Let_def published_def split: option.split)
qed

text \<open>The features of the samples are no match features.\<close>

definition plain :: "located \<Rightarrow> bool" where
  "plain feats \<longleftrightarrow> (\<forall>(a, f) \<in> set feats. matched_name f = None)"

definition plain_globals :: "feature list \<Rightarrow> bool" where
  "plain_globals globals \<longleftrightarrow> (\<forall>f \<in> set globals. matched_name f = None)"

lemma accounted_fold:
  "accounted mrs M fs \<Longrightarrow> (\<And>x fs. x \<in> set xs \<Longrightarrow> accounted mrs M fs \<Longrightarrow> accounted mrs M (h x fs))
   \<Longrightarrow> accounted mrs M (fold h xs fs)"
  by (induction xs arbitrary: fs) simp_all

lemma accounted_seed:
  assumes "accounted mrs M fs" "plain feats" "plain_globals globals"
  shows "accounted mrs M (seed fs feats globals)"
proof -
  have "accounted mrs M (fold (\<lambda>(a, f) fs. fs_insert f a fs) feats fs)"
    using assms(1)
  proof (rule accounted_fold)
    fix x and fs :: feature_set
    assume "x \<in> set feats" "accounted mrs M fs"
    then show "accounted mrs M ((\<lambda>(a, f) fs. fs_insert f a fs) x fs)"
      using assms(2) by (auto simp: plain_def intro!: accounted_insert)
  qed
  then show ?thesis
    unfolding seed_def by (rule accounted_fold) (use assms(3) in \<open>simp add: plain_globals_def accounted_insert\<close>)
qed

lemma accounted_promote:
  assumes "accounted mrs M fs" "matches_of ms \<subseteq> M" "set (it ms) = set ms" "\<And>nm r. mrs_get mrs nm = Some r \<Longrightarrow> rule_name r = nm"
  shows "accounted mrs M (promote_matches it mrs fs ms)"
  unfolding promote_matches_def
proof (intro accounted_fold assms(1), goal_cases)
  case (1 e fs)
  obtain nm res where e: "e = (nm, res)" by fastforce
  have M: "(nm, a, m) \<in> M" if "(a, m) \<in> set res" for a m
    using that 1(1) assms(2,3) by (force simp: e matches_of_def)
  show ?case
  proof (cases "mrs_get mrs nm")
    case (Some r)
    then have r: "rule_name r = nm" using assms(4) by blast
    have "accounted mrs M (fold (\<lambda>(a, _) fs. index_rule_matches r {a} fs) res fs)"
      using 1(2)
    proof (rule accounted_fold)
      fix x and fs :: feature_set
      assume x: "x \<in> set res" "accounted mrs M fs"
      obtain a m where am: "x = (a, m)" by fastforce
      then show "accounted mrs M ((\<lambda>(a, _) fs. index_rule_matches r {a} fs) x fs)"
        using x M Some r by (auto intro!: accounted_index)
    qed
    then show ?thesis using Some by (simp add: e)
  qed (simp add: e 1)
qed

section \<open>Matching a scope\<close>

text \<open>
  What the rules of a set have to satisfy so that every collected match can be displayed:
  rules are found under their names and have a scope, no rule has the name of a namespace,
  no count is of a COM feature, and rules refer to each other without a cycle.
\<close>

definition displayable_rule :: "matching_rule_set \<Rightarrow> (string \<Rightarrow> nat) \<Rightarrow> string \<Rightarrow> rule \<Rightarrow> bool" where
  "displayable_rule mrs rank nm r \<longleftrightarrow>
     rule_name r = nm \<and> com_uncounted (body r)
     \<and> (sc_static (rule_scopes r) \<noteq> None \<or> sc_dynamic (rule_scopes r) \<noteq> None)
     \<and> im_get (=) (mrs_namespaces mrs) nm = None
     \<and> (\<forall>f \<in> published r. \<forall>k \<in> set_option (matched_name f). k = nm \<or> mrs_get mrs k = None)
     \<and> (\<forall>d \<in> get_dependencies (mrs_namespaces mrs) (body r). rank d < rank nm)"

definition displayable_rules :: "matching_rule_set \<Rightarrow> (string \<Rightarrow> nat) \<Rightarrow> bool" where
  "displayable_rules mrs rank \<longleftrightarrow> (\<forall>(nm, r) \<in> set (mrs_rules mrs). displayable_rule mrs rank nm r)"

lemma displayable_rulesD:
  assumes "displayable_rules mrs rank" "mrs_get mrs nm = Some r"
  shows "rule_name r = nm" "com_uncounted (body r)" "sc_static (rule_scopes r) \<noteq> None \<or> sc_dynamic (rule_scopes r) \<noteq> None"
    "im_get (=) (mrs_namespaces mrs) nm = None" "MatchedRule k \<in> published r \<Longrightarrow> k \<noteq> nm \<Longrightarrow> mrs_get mrs k = None"
    "d \<in> get_dependencies (mrs_namespaces mrs) (body r) \<Longrightarrow> rank d < rank nm"
proof -
  have "(nm, r) \<in> set (mrs_rules mrs)" using assms(2) by (simp add: mrs_get_def map_of_SomeD)
  from bspec [OF assms(1) [unfolded displayable_rules_def] this] have r: "displayable_rule mrs rank nm r" by simp
  show "rule_name r = nm" "com_uncounted (body r)" "sc_static (rule_scopes r) \<noteq> None \<or> sc_dynamic (rule_scopes r) \<noteq> None"
    "im_get (=) (mrs_namespaces mrs) nm = None"
    using r by (simp_all add: displayable_rule_def)
  show "rank d < rank nm" if "d \<in> get_dependencies (mrs_namespaces mrs) (body r)"
    using r that by (simp add: displayable_rule_def)
  have "\<forall>f \<in> published r. \<forall>k \<in> set_option (matched_name f). k = nm \<or> mrs_get mrs k = None"
    using r unfolding displayable_rule_def by (elim conjE)
  from bspec [OF this, of "MatchedRule k"] show "mrs_get mrs k = None" if "MatchedRule k \<in> published r" "k \<noteq> nm"
    using that by simp
qed

lemma match_rule_sound:
  assumes "displayable_rules mrs rank" "mrs_get mrs (rule_name r) = Some r"
    and "match_rule rx r addr (fs, ms) = Inr ((fs', ms'), fresh)"
    and "accounted mrs (M \<union> matches_of ms) fs" "sound mrs (M \<union> matches_of ms) (matches_of ms)"
  shows "accounted mrs (M \<union> matches_of ms') fs' \<and> sound mrs (M \<union> matches_of ms') (matches_of ms')"
proof (cases "evaluate_boolean rx fs (body r) = Inr True")
  case True
  with assms(3) obtain m where m: "evaluate rx fs False (body r) = Inr m"
    "fs' = index_rule_matches r {addr} fs" "ms' = add_result (rule_name r) addr m ms"
    by (auto simp: match_rule_def rbind_Inr_iff Let_def)
  have ms': "matches_of ms' = matches_of ms \<union> {(rule_name r, addr, m)}"
    by (simp add: m(3) add_result_def matches_of_entry)
  then have sub: "M \<union> matches_of ms \<subseteq> M \<union> matches_of ms'" by blast
  have "accounted mrs (M \<union> matches_of ms') fs'"
    unfolding m(2) using accounted_mono [OF assms(4) sub] assms(2) by (rule accounted_index) (auto simp: ms')
  moreover have "sound_match mrs (M \<union> matches_of ms') (rule_name r) m"
  proof -
    have "com_uncounted (body r)" by (rule displayable_rulesD(2) [OF assms(1,2)])
    note ev = evaluate_evidence [OF m(1) this]
    have "accounted_at mrs (M \<union> matches_of ms') k l"
      if "s \<in> subresults m" "reference_of s = Some k" "l \<in> locations s" for s k l
      using ev [OF that(1)] that(2,3) accounted_get [OF assms(4)] accounted_at_mono [OF _ sub]
      unfolding evidence_def by blast
    then show ?thesis using ev assms(2) unfolding sound_match_def evidence_def by blast
  qed
  then have "sound mrs (M \<union> matches_of ms') (matches_of ms')"
    using sound_mono [OF assms(5) sub] unfolding ms' by (simp add: sound_def)
  ultimately show ?thesis by blast
next
  case False
  then have "fs' = fs" "ms' = ms" using assms(3) by (auto simp: match_rule_def rbind_Inr_iff Let_def)
  then show ?thesis using assms(4,5) by simp
qed

lemma match_loop_sound:
  assumes "displayable_rules mrs rank" "match_loop rx mrs sc idx addr cands st = Inr out"
    and "accounted mrs (M \<union> matches_of (snd st)) (fst st)" "sound mrs (M \<union> matches_of (snd st)) (matches_of (snd st))"
  shows "sound mrs (M \<union> matches_of (snd out)) (matches_of (snd out))"
  using assms(2-)
proof (induction cands st rule: match_loop_rounds [where rx = rx and mrs = mrs and sc = sc and addr = addr and idx = idx])
  case (3 cands st r)
  have r: "mrs_get mrs (rule_name r) = Some r"
    using 3(2) displayable_rulesD(1) [OF assms(1)] by (auto simp: rule_at_def mrs_get_def split: option.splits if_splits)
  from 3(1,2,4) obtain fs' ms' fresh where step: "match_rule rx r addr (fst st, snd st) = Inr ((fs', ms'), fresh)"
    and rest: "match_loop rx mrs sc idx addr (removeAll (Min (set cands)) cands
        @ filter (\<lambda>i. Min (set cands) < i) (concat (map (exact_positions idx) fresh))) (fs', ms') = Inr out"
    by (auto simp: match_loop_step rbind_Inr_iff)
  show ?case
    using 3(3) [of "(fs', ms')" fresh] match_rule_sound [OF assms(1) r step 3(5,6)] step rest by simp
qed (simp_all add: match_loop_step)

lemma match_scope_sound:
  assumes "displayable_rules mrs rank" "match_scope_results rx mrs sc fs addr = Inr ms" "accounted mrs M fs"
  shows "sound mrs (M \<union> matches_of ms) (matches_of ms)"
proof (cases "indexes mrs sc")
  case None
  then show ?thesis using assms(2) by (simp add: match_scope_results_def match_scope_borrowed_def sound_def)
next
  case (Some idx)
  with assms(2) obtain fs' where "match_loop rx mrs sc idx addr (candidates idx fs) (fs, []) = Inr (fs', ms)"
    by (auto simp: match_scope_results_def match_scope_borrowed_def map_ok_Inr_iff)
  from match_loop_sound [OF assms(1) this, of M] show ?thesis using assms(3) by (simp add: sound_def)
qed

section \<open>The static driver\<close>

text \<open>What a stage of a driver keeps: its features and matches are accounted for by the matches.\<close>

definition stage :: "matching_rule_set \<Rightarrow> feature_set \<Rightarrow> match_set \<Rightarrow> bool" where
  "stage mrs fs M \<longleftrightarrow> accounted mrs M fs \<and> sound mrs M M"

definition closed :: "matching_rule_set \<Rightarrow> match_set \<Rightarrow> bool" where
  "closed mrs M \<longleftrightarrow> sound mrs M M"

lemma closed_empty [simp]: "closed mrs {}"
  by (simp add: closed_def sound_def)

lemma closed_Un: "closed mrs M \<Longrightarrow> closed mrs N \<Longrightarrow> closed mrs (M \<union> N)"
  unfolding closed_def by (auto intro: sound_mono)

lemma stage_closed: "stage mrs fs M \<Longrightarrow> closed mrs M"
  by (simp add: stage_def closed_def)

lemma stage_merge: "stage mrs fs M \<Longrightarrow> stage mrs fs' M' \<Longrightarrow> stage mrs (fs_merge fs fs') (M \<union> M')"
  unfolding stage_def by (auto intro: accounted_merge accounted_mono sound_mono)

lemma stage_empty: "stage mrs [] {}"
  by (simp add: stage_def sound_def)

text \<open>Seeding, matching and promotion at a scope.\<close>

lemma stage_match:
  assumes "displayable_rules mrs rank" "stage mrs fs M" "plain feats" "plain_globals globals"
    and "match_scope_results rx mrs sc (seed fs feats globals) addr = Inr ms" "\<And>ms. set (it ms) = set ms"
  shows "stage mrs (promote_matches it mrs (seed fs feats globals) ms) (M \<union> matches_of ms)"
proof -
  have seeded: "accounted mrs M (seed fs feats globals)" using assms(2-4) by (simp add: stage_def accounted_seed)
  have sub: "M \<subseteq> M \<union> matches_of ms" by blast
  have "accounted mrs (M \<union> matches_of ms) (promote_matches it mrs (seed fs feats globals) ms)"
    using accounted_mono [OF seeded sub] assms(1,6)
    by (intro accounted_promote) (auto dest: displayable_rulesD(1))
  moreover have "sound mrs (M \<union> matches_of ms) (M \<union> matches_of ms)"
    using match_scope_sound [OF assms(1,5) seeded] sound_mono [OF _ sub] assms(2) by (simp add: stage_def)
  ultimately show ?thesis by (simp add: stage_def)
qed

definition plain_block :: "basic_block_features \<Rightarrow> bool" where
  "plain_block bb \<longleftrightarrow> plain (bb_features bb) \<and> (\<forall>(a, insn) \<in> set (instructions bb). plain (insn_features insn))"

definition plain_function :: "function_features \<Rightarrow> bool" where
  "plain_function func \<longleftrightarrow> plain (fn_features func) \<and> (\<forall>(a, bb) \<in> set (basic_blocks func). plain_block bb)"

definition plain_static :: "static_features \<Rightarrow> bool" where
  "plain_static fz \<longleftrightarrow>
     plain_globals (st_global_features fz) \<and> plain (st_file_features fz)
     \<and> (\<forall>(a, func) \<in> set (st_functions fz). plain_function func)"

lemma stage_instruction:
  assumes "displayable_rules mrs rank" "\<And>ms. set (it ms) = set ms" "plain feats" "plain_globals globals"
    and "find_instruction_capabilities rx it mrs a feats globals = Inr (fs, ms)"
  shows "stage mrs fs (matches_of ms)"
proof -
  from assms(5) have "match_scope_results rx mrs InstructionScope (seed [] feats globals) a = Inr ms"
    and "fs = promote_matches it mrs (seed [] feats globals) ms"
    by (auto simp: find_instruction_capabilities_def Let_def rbind_Inr_iff)
  then show ?thesis using stage_match [OF assms(1) stage_empty assms(3,4) _ assms(2)] by simp
qed

lemma stage_basic_block:
  assumes "displayable_rules mrs rank" "\<And>ms. set (it ms) = set ms" "plain_block bb" "plain_globals globals"
    and "find_basic_block_capabilities rx it mrs a bb globals = Inr (fs, bms, ims)"
  shows "stage mrs fs (matches_of ims \<union> matches_of bms)"
proof -
  from assms(5) obtain fs0 where loop: "fold_result (\<lambda>(insn_addr, insn) (fs, insn_matches).
      rbind (find_instruction_capabilities rx it mrs insn_addr (insn_features insn) globals)
        (\<lambda>(insn_fs, matches). Inr (merge_owned fs insn_fs, extend_matches it insn_matches matches)))
      (instructions bb) ([], []) = Inr (fs0, ims)"
    and m: "match_scope_results rx mrs BasicBlockScope (seed fs0 (bb_features bb) globals) a = Inr bms"
    and fs: "fs = promote_matches it mrs (seed fs0 (bb_features bb) globals) bms"
    by (auto simp: find_basic_block_capabilities_def Let_def rbind_Inr_iff)
  have "stage mrs (fst (fs0, ims)) (matches_of (snd (fs0, ims)))"
    using loop
  proof (rule fold_result_invariant)
    fix x s t
    assume x: "x \<in> set (instructions bb)" and s: "stage mrs (fst s) (matches_of (snd s))"
      and step: "(\<lambda>(insn_addr, insn) (fs, insn_matches).
        rbind (find_instruction_capabilities rx it mrs insn_addr (insn_features insn) globals)
          (\<lambda>(insn_fs, matches). Inr (merge_owned fs insn_fs, extend_matches it insn_matches matches))) x s = Inr t"
    obtain ia insn where xe: "x = (ia, insn)" by fastforce
    from step obtain ifs ms where i: "find_instruction_capabilities rx it mrs ia (insn_features insn) globals = Inr (ifs, ms)"
      and t: "t = (merge_owned (fst s) ifs, extend_matches it (snd s) ms)"
      by (auto simp: xe rbind_Inr_iff case_prod_beta)
    have "plain (insn_features insn)" using assms(3) x by (auto simp: plain_block_def xe)
    from stage_merge [OF s stage_instruction [OF assms(1,2) this assms(4) i]]
    show "stage mrs (fst t) (matches_of (snd t))" by (simp add: t merge_owned_eq_merge matches_of_extend assms(2))
  qed (simp add: stage_empty)
  then show ?thesis
    using stage_match [OF assms(1) _ _ assms(4) m assms(2)] assms(3) by (simp add: fs plain_block_def)
qed

lemma stage_code:
  assumes "displayable_rules mrs rank" "\<And>ms. set (it ms) = set ms" "plain_function func" "plain_globals globals"
    and "find_code_capabilities rx it mrs a func globals = Inr (fms, bms, ims, cnt)"
  shows "closed mrs (matches_of ims \<union> matches_of bms \<union> matches_of fms)"
proof -
  from assms(5) obtain fs0 where loop: "fold_result (\<lambda>(bb_addr, bb) (fs, bb_matches, insn_matches).
      rbind (find_basic_block_capabilities rx it mrs bb_addr bb globals)
        (\<lambda>(bb_fs, this_bb, this_insn).
          Inr (merge_owned fs bb_fs, extend_matches it bb_matches this_bb, extend_matches it insn_matches this_insn)))
      (basic_blocks func) ([], [], []) = Inr (fs0, bms, ims)"
    and m: "match_scope_results rx mrs FunctionScope (seed fs0 (fn_features func) globals) a = Inr fms"
    by (auto simp: find_code_capabilities_def Let_def rbind_Inr_iff)
  have "case (fs0, bms, ims) of (fs, b, i) \<Rightarrow> stage mrs fs (matches_of i \<union> matches_of b)"
    using loop
  proof (rule fold_result_invariant)
    fix x s t
    assume x: "x \<in> set (basic_blocks func)" and s: "case s of (fs, b, i) \<Rightarrow> stage mrs fs (matches_of i \<union> matches_of b)"
      and step: "(\<lambda>(bb_addr, bb) (fs, bb_matches, insn_matches).
        rbind (find_basic_block_capabilities rx it mrs bb_addr bb globals)
          (\<lambda>(bb_fs, this_bb, this_insn).
            Inr (merge_owned fs bb_fs, extend_matches it bb_matches this_bb, extend_matches it insn_matches this_insn))) x s = Inr t"
    obtain ba bb fs b i where xe: "x = (ba, bb)" "s = (fs, b, i)" by (metis prod_cases3 surj_pair)
    from step obtain bfs b' i' where bb: "find_basic_block_capabilities rx it mrs ba bb globals = Inr (bfs, b', i')"
      and t: "t = (merge_owned fs bfs, extend_matches it b b', extend_matches it i i')"
      by (auto simp: xe rbind_Inr_iff)
    have "plain_block bb" using assms(3) x by (auto simp: plain_function_def xe)
    note blk = stage_basic_block [OF assms(1,2) this assms(4) bb]
    have "stage mrs (fs_merge fs bfs) ((matches_of i \<union> matches_of b) \<union> (matches_of i' \<union> matches_of b'))"
      using stage_merge [OF _ blk] s by (simp add: xe)
    then show "case t of (fs, b, i) \<Rightarrow> stage mrs fs (matches_of i \<union> matches_of b)"
      by (simp add: t merge_owned_eq_merge matches_of_extend assms(2) Un_ac)
  qed (simp add: stage_empty)
  then have st: "stage mrs fs0 (matches_of ims \<union> matches_of bms)" by simp
  have "plain (fn_features func)" using assms(3) by (simp add: plain_function_def)
  from stage_match [OF assms(1) st this assms(4) m assms(2)] show ?thesis by (rule stage_closed)
qed

text \<open>The features of the file scope, in both drivers.\<close>

lemma accounted_lower:
  assumes "matches_of ms \<subseteq> M" "\<And>nm r. mrs_get mrs nm = Some r \<Longrightarrow> rule_name r = nm"
  shows "accounted mrs M (lower_features mrs ms)"
  unfolding lower_features_def
proof (rule accounted_fold, goal_cases)
  case (2 e fs)
  obtain nm res where e: "e = (nm, res)" by fastforce
  have M: "\<exists>m. (nm, l, m) \<in> M" if "l \<in> fst ` set res" for l
    using that 2(1) assms(1) by (force simp: e matches_of_def)
  show ?case
  proof (cases "mrs_get mrs nm")
    case (Some r)
    then have "accounted mrs M (index_rule_matches r (fst ` set res) fs)"
      using 2(2) M assms(2) by (intro accounted_index) simp_all
    then show ?thesis using Some by (simp add: e)
  qed (simp add: e 2)
qed simp

lemma accounted_guarded_insert:
  "accounted mrs M fs \<Longrightarrow> matched_name f = None \<Longrightarrow> accounted mrs M (guarded_insert f a fs)"
  unfolding guarded_insert_def by (auto intro!: accounted_insert accounted_entry simp: entry_ok_def)

lemma accounted_file_features:
  assumes "plain feats" "plain_globals globals" "accounted mrs M lower"
  shows "accounted mrs M (file_features_of feats globals lower)"
proof -
  have "accounted mrs M (fold (\<lambda>(a, f). guarded_insert f a) feats [])"
  proof (rule accounted_fold)
    fix x and fs :: feature_set
    assume "x \<in> set feats" "accounted mrs M fs"
    then show "accounted mrs M ((\<lambda>(a, f). guarded_insert f a) x fs)"
      using assms(1) by (auto simp: plain_def intro!: accounted_guarded_insert)
  qed simp
  then have "accounted mrs M (fold (\<lambda>f. guarded_insert f NoAddress) globals (fold (\<lambda>(a, f). guarded_insert f a) feats []))"
    by (rule accounted_fold) (use assms(2) in \<open>simp add: plain_globals_def accounted_guarded_insert\<close>)
  then show ?thesis unfolding file_features_of_def using assms(3) by (rule accounted_merge)
qed

lemma file_sound:
  assumes "displayable_rules mrs rank" "plain feats" "plain_globals globals" "closed mrs (matches_of ms)"
    and "find_file_capabilities rx mrs feats globals (lower_features mrs ms) = Inr (fms, cnt)"
  shows "closed mrs (matches_of ms \<union> matches_of fms)"
proof -
  have "accounted mrs (matches_of ms) (file_features_of feats globals (lower_features mrs ms))"
    using assms(2,3) by (intro accounted_file_features accounted_lower) (auto dest: displayable_rulesD(1) [OF assms(1)])
  moreover have "match_scope_results rx mrs FileScope (file_features_of feats globals (lower_features mrs ms)) NoAddress = Inr fms"
    using assms(5) by (auto simp: find_file_capabilities_def Let_def rbind_Inr_iff)
  ultimately have "sound mrs (matches_of ms \<union> matches_of fms) (matches_of fms)" using match_scope_sound [OF assms(1)] by blast
  then show ?thesis using assms(4) unfolding closed_def by (auto intro: sound_mono)
qed

lemma static_sound:
  assumes "displayable_rules mrs rank" "\<And>ms. set (it ms) = set ms" "plain_static fz"
    and "find_static_capabilities rx it mrs fz = Inr caps"
  shows "closed mrs (matches_of (sc_matches caps))"
proof -
  let ?one = "\<lambda>(fn_addr, func). map_err (FunctionError fn_addr) (find_code_capabilities rx it mrs fn_addr func (st_global_features fz))"
  let ?join = "\<lambda>((fn_addr, _), (function_matches, bb_matches, insn_matches, feature_count)) (counts, fns, bbs, insns).
      (counts @ [(fn_addr, feature_count)], extend_matches it fns function_matches,
       extend_matches it bbs bb_matches, extend_matches it insns insn_matches)"
  let ?all = "\<lambda>(i, b, f). matches_of i \<union> matches_of b \<union> matches_of f"
  from assms(4) obtain per where per: "traverse ?one (st_functions fz) = Inr per"
    by (auto simp: find_static_capabilities_def rbind_Inr_iff)
  obtain counts fns bbs insns where joined: "fold ?join (zip (st_functions fz) per) ([], [], [], []) = (counts, fns, bbs, insns)"
    by (metis prod_cases4)
  let ?ms = "it insns @ it bbs @ it fns"
  from assms(4) per joined obtain fms cnt where fms: "find_file_capabilities rx mrs (st_file_features fz) (st_global_features fz)
      (lower_features mrs ?ms) = Inr (fms, cnt)"
    and caps: "sc_matches caps = extend_matches it (extend_matches it (extend_matches it (extend_matches it [] insns) bbs) fns) fms"
    by (auto simp: find_static_capabilities_def Let_def rbind_Inr_iff map_err_ok_iff static_capabilities.defs)
  have ms: "matches_of ?ms = matches_of insns \<union> matches_of bbs \<union> matches_of fns"
    using assms(2) by (simp add: matches_of_cong [of "it _"] Un_ac)
  have step: "closed mrs (matches_of i \<union> matches_of b \<union> matches_of f)"
    if "((fa, func), (f, b, i, c)) \<in> set (zip (st_functions fz) per)" for fa func f b i c
  proof (rule stage_code [OF assms(1,2)])
    from that per show "find_code_capabilities rx it mrs fa func (st_global_features fz) = Inr (f, b, i, c)"
      by (auto simp: traverse_list_all2 list_all2_iff map_err_ok_iff dest!: bspec)
    show "plain_function func" using assms(3) set_zip_leftD [OF that] by (auto simp: plain_static_def)
    show "plain_globals (st_global_features fz)" using assms(3) by (simp add: plain_static_def)
  qed
  have "case fold ?join (zip (st_functions fz) per) ([], [], [], []) of
      (counts, fns, bbs, insns) \<Rightarrow> closed mrs (matches_of insns \<union> matches_of bbs \<union> matches_of fns)"
  proof (rule fold_invariant [where Q = "\<lambda>x. x \<in> set (zip (st_functions fz) per)"])
    fix x and s :: "(address \<times> nat) list \<times> match_results \<times> match_results \<times> match_results"
    assume x: "x \<in> set (zip (st_functions fz) per)"
      and s: "case s of (counts, fns, bbs, insns) \<Rightarrow> closed mrs (matches_of insns \<union> matches_of bbs \<union> matches_of fns)"
    obtain fa func f b i c where xe: "x = ((fa, func), (f, b, i, c))" by (metis prod_cases4 surj_pair)
    obtain cs fns bbs insns where se: "s = (cs, fns, bbs, insns)" by (metis prod_cases4)
    have "closed mrs (matches_of insns \<union> matches_of bbs \<union> matches_of fns)" using s by (simp add: se)
    from closed_Un [OF this step [of fa func f b i c]] x
    have "closed mrs (matches_of insns \<union> matches_of bbs \<union> matches_of fns \<union> (matches_of i \<union> matches_of b \<union> matches_of f))"
      by (simp add: xe)
    then show "case ?join x s of (counts, fns, bbs, insns) \<Rightarrow> closed mrs (matches_of insns \<union> matches_of bbs \<union> matches_of fns)"
      by (simp add: xe se matches_of_extend assms(2) Un_ac)
  qed simp_all
  then have "closed mrs (matches_of ?ms)" by (simp only: joined ms prod.case)
  from file_sound [OF assms(1) _ _ this fms] assms(3) show ?thesis
    unfolding caps ms by (simp add: plain_static_def matches_of_extend assms(2))
qed

section \<open>The dynamic driver\<close>

definition plain_thread :: "thread_features \<Rightarrow> bool" where
  "plain_thread th \<longleftrightarrow>
     plain (th_features th) \<and> (\<forall>(a, c) \<in> set (calls th). is_call_address a \<and> plain (cl_features c))"

definition plain_process :: "process_features \<Rightarrow> bool" where
  "plain_process pr \<longleftrightarrow> plain (pr_features pr) \<and> (\<forall>(a, th) \<in> set (threads pr). plain_thread th)"

definition plain_dynamic :: "dynamic_features \<Rightarrow> bool" where
  "plain_dynamic fz \<longleftrightarrow>
     plain_globals (dy_global_features fz) \<and> plain (dy_file_features fz)
     \<and> (\<forall>(a, pr) \<in> set (processes fz). plain_process pr)"

lemma stage_call:
  assumes "displayable_rules mrs rank" "\<And>ms. set (it ms) = set ms" "plain feats" "plain_globals globals"
    and "find_call_capabilities rx it mrs a feats globals = Inr (fs, ms)"
  shows "stage mrs fs (matches_of ms)"
proof -
  from assms(5) have "match_scope_results rx mrs CallScope (seed [] feats globals) a = Inr ms"
    and "fs = promote_matches it mrs (seed [] feats globals) ms"
    by (auto simp: find_call_capabilities_def Let_def rbind_Inr_iff)
  then show ?thesis using stage_match [OF assms(1) stage_empty assms(3,4) _ assms(2)] by simp
qed

text \<open>Matches at calls account for nothing that is not allowed anyway.\<close>

lemma sound_without_calls:
  assumes "sound mrs (M \<union> N) X" "\<And>nm a m. (nm, a, m) \<in> N \<Longrightarrow> is_call_address a"
  shows "sound mrs M X"
proof -
  have "accounted_at mrs M k l" if "accounted_at mrs (M \<union> N) k l" for k l
    using that assms(2) unfolding accounted_at_def by blast
  then show ?thesis using assms(1) unfolding sound_def sound_match_def by fastforce
qed

lemma im_remove_subset: "set (im_remove eq q m) \<subseteq> set m"
  by (induction m) (auto split: if_splits)

lemma accounted_evict: "accounted mrs M fs \<Longrightarrow> accounted mrs M (evict_feature e fs)"
proof -
  assume fs: "accounted mrs M fs"
  obtain f locs where e: "e = (f, locs)" by fastforce
  have "accounted mrs M (im_entry feature_eq f {} (\<lambda>l. l - locs) fs)"
    using fs by (rule accounted_entry) (auto simp: entry_ok_def)
  moreover have "accounted mrs M (im_remove feature_eq f fs)"
    using fs im_remove_subset [of feature_eq f fs] by (auto simp: accounted_def)
  ultimately show ?thesis using fs by (simp add: evict_feature_def e split: option.split)
qed

lemma accounted_slide:
  assumes "accounted mrs M (current_features sm)" "accounted mrs M cfs"
  shows "accounted mrs M (current_features (span_slide cfs sm))"
proof -
  have "accounted mrs M (fold evict_feature es (current_features sm))" for es
    using assms(1) by (rule accounted_fold) (rule accounted_evict)
  then show ?thesis using assms by (simp add: span_slide_def Let_def accounted_merge)
qed

lemma span_record_matches:
  "matches_of (sp_matches sm) \<subseteq> matches_of (sp_matches (span_record it mrs ms sm))"
  "matches_of (sp_matches (span_record it mrs ms sm)) \<subseteq> matches_of (sp_matches sm) \<union> matches_of (it ms)"
proof -
  have "matches_of into \<subseteq> matches_of (fold (\<lambda>(nm, res) ms. if nm \<in> H then ms else im_entry (=) nm [] (\<lambda>l. l @ res) ms) es into)
      \<and> matches_of (fold (\<lambda>(nm, res) ms. if nm \<in> H then ms else im_entry (=) nm [] (\<lambda>l. l @ res) ms) es into)
        \<subseteq> matches_of into \<union> matches_of es" for H es into
  proof (induction es arbitrary: into)
    case (Cons e es)
    show ?case
      using Cons [of into] Cons [of "im_entry (=) (fst e) [] (\<lambda>l. l @ snd e) into"]
      by (cases e) (auto simp: matches_of_entry)
  qed simp
  then show "matches_of (sp_matches sm) \<subseteq> matches_of (sp_matches (span_record it mrs ms sm))"
    "matches_of (sp_matches (span_record it mrs ms sm)) \<subseteq> matches_of (sp_matches sm) \<union> matches_of (it ms)"
    by (simp_all add: span_record_def Let_def)
qed

lemma recorded_at_call: "recorded_at addr ms \<Longrightarrow> (nm, a, m) \<in> matches_of ms \<Longrightarrow> a = addr"
  by (force simp: recorded_at_def matches_of_def)

text \<open>What a thread keeps from call to call: its features, and those of the span, are accounted for.\<close>

definition trace_ok :: "matching_rule_set \<Rightarrow> feature_set \<Rightarrow> match_results \<Rightarrow> span_matcher \<Rightarrow> bool" where
  "trace_ok mrs fs cm sm \<longleftrightarrow>
     stage mrs fs (matches_of cm \<union> matches_of (sp_matches sm))
     \<and> accounted mrs (matches_of cm \<union> matches_of (sp_matches sm)) (current_features sm)"

lemma span_next_sound:
  assumes "displayable_rules mrs rank" "\<And>ms. set (it ms) = set ms" "is_call_address a"
    and "span_next rx it mrs a cfs sm = Inr sm'"
    and "closed mrs (M \<union> matches_of (sp_matches sm))" "accounted mrs (M \<union> matches_of (sp_matches sm)) (current_features sm)"
    and "accounted mrs (M \<union> matches_of (sp_matches sm)) cfs"
  shows "matches_of (sp_matches sm) \<subseteq> matches_of (sp_matches sm') \<and> closed mrs (M \<union> matches_of (sp_matches sm'))
    \<and> accounted mrs (M \<union> matches_of (sp_matches sm')) (current_features sm')"
proof -
  let ?M = "M \<union> matches_of (sp_matches sm)" and ?M' = "M \<union> matches_of (sp_matches sm')"
  from assms(4) obtain ms where ms: "match_scope_results rx mrs SpanOfCallsScope (current_features (span_slide cfs sm)) a = Inr ms"
    and sm': "sm' = span_record it mrs ms (span_slide cfs sm)"
    by (auto simp: span_next_def Let_def rbind_Inr_iff)
  have slide: "sp_matches (span_slide cfs sm) = sp_matches sm" by (simp add: span_slide_def Let_def)
  have cur: "current_features sm' = current_features (span_slide cfs sm)" by (simp add: sm' span_record_def Let_def)
  have acc: "accounted mrs ?M (current_features (span_slide cfs sm))" using assms(6,7) by (rule accounted_slide)
  have "is_call_address b" if "(nm, b, m) \<in> matches_of ms" for nm b m
    using recorded_at_call [OF match_scope_results_recorded [OF ms] that] assms(3) by simp
  with match_scope_sound [OF assms(1) ms acc] have new: "sound mrs ?M (matches_of ms)" by (rule sound_without_calls)
  have sub: "?M \<subseteq> ?M'" using span_record_matches(1) [of "span_slide cfs sm"] by (auto simp: sm' slide)
  have "?M' \<subseteq> ?M \<union> matches_of ms"
    using span_record_matches(2) [of it mrs ms "span_slide cfs sm"] matches_of_cong [OF assms(2)] by (auto simp: sm' slide)
  moreover have "sound mrs ?M (?M \<union> matches_of ms)" using assms(5) new by (simp add: closed_def)
  ultimately have "sound mrs ?M ?M'" unfolding sound_def by blast
  then have "closed mrs ?M'" using sub unfolding closed_def by (rule sound_mono)
  moreover have "accounted mrs ?M' (current_features sm')" unfolding cur using acc sub by (rule accounted_mono)
  moreover have "matches_of (sp_matches sm) \<subseteq> matches_of (sp_matches sm')"
    using span_record_matches(1) [of "span_slide cfs sm"] by (simp add: sm' slide)
  ultimately show ?thesis by blast
qed

lemma trace_step:
  assumes "displayable_rules mrs rank" "\<And>ms. set (it ms) = set ms" "is_call_address a" "plain (cl_features c)" "plain_globals globals"
    and "trace_ok mrs fs cm sm" "find_call_capabilities rx it mrs a (cl_features c) globals = Inr (cfs, ms)"
    and "span_next rx it mrs a cfs sm = Inr sm'"
  shows "trace_ok mrs (fs_merge fs cfs) (extend_matches it cm ms) sm'"
proof -
  let ?C = "matches_of cm \<union> matches_of ms"
  note call = stage_call [OF assms(1,2,4,5,7)]
  have st: "stage mrs (fs_merge fs cfs) (?C \<union> matches_of (sp_matches sm))"
    using stage_merge [OF _ call] assms(6) by (fastforce simp: trace_ok_def Un_ac)
  have cur: "accounted mrs (?C \<union> matches_of (sp_matches sm)) (current_features sm)"
    using assms(6) by (auto simp: trace_ok_def intro: accounted_mono)
  have cfs: "accounted mrs (?C \<union> matches_of (sp_matches sm)) cfs"
    using call by (auto simp: stage_def intro: accounted_mono)
  note span = span_next_sound [OF assms(1,2,3,8) stage_closed [OF st] cur cfs]
  then have "accounted mrs (?C \<union> matches_of (sp_matches sm')) (fs_merge fs cfs)"
    using st by (auto simp: stage_def intro: accounted_mono)
  then show ?thesis using span by (simp add: trace_ok_def stage_def closed_def matches_of_extend assms(2))
qed

lemma stage_thread:
  assumes "displayable_rules mrs rank" "\<And>ms. set (it ms) = set ms" "plain_thread th" "plain_globals globals"
    and "find_thread_capabilities rx it mrs a th globals = Inr (fs, tms, sms, cms)"
  shows "stage mrs fs (matches_of cms \<union> matches_of sms \<union> matches_of tms)"
proof -
  from assms(5) obtain fs0 sm where loop: "fold_result (\<lambda>(call_addr, call) (fs, call_matches, sm).
      rbind (find_call_capabilities rx it mrs call_addr (cl_features call) globals)
        (\<lambda>(call_fs, this_call). rbind (span_next rx it mrs call_addr call_fs sm) (\<lambda>sm.
            Inr (fs_merge fs call_fs, extend_matches it call_matches this_call, sm))))
      (calls th) ([], [], span_new) = Inr (fs0, cms, sm)"
    and m: "match_scope_results rx mrs ThreadScope (seed fs0 (th_features th) globals) a = Inr tms"
    and fs: "fs = promote_matches it mrs (seed fs0 (th_features th) globals) tms" "sms = sp_matches sm"
    by (auto simp: find_thread_capabilities_def Let_def rbind_Inr_iff)
  have "case (fs0, cms, sm) of (fs, cm, sm) \<Rightarrow> trace_ok mrs fs cm sm"
    using loop
  proof (rule fold_result_invariant)
    fix x s t
    assume x: "x \<in> set (calls th)" and s: "case s of (fs, cm, sm) \<Rightarrow> trace_ok mrs fs cm sm"
      and step: "(\<lambda>(call_addr, call) (fs, call_matches, sm).
        rbind (find_call_capabilities rx it mrs call_addr (cl_features call) globals)
          (\<lambda>(call_fs, this_call). rbind (span_next rx it mrs call_addr call_fs sm) (\<lambda>sm.
              Inr (fs_merge fs call_fs, extend_matches it call_matches this_call, sm)))) x s = Inr t"
    obtain ca c fs cm sm where xe: "x = (ca, c)" "s = (fs, cm, sm)" by (metis prod_cases3 surj_pair)
    from step obtain cfs ms sm' where call: "find_call_capabilities rx it mrs ca (cl_features c) globals = Inr (cfs, ms)"
      "span_next rx it mrs ca cfs sm = Inr sm'" and t: "t = (fs_merge fs cfs, extend_matches it cm ms, sm')"
      by (auto simp: xe rbind_Inr_iff)
    have "is_call_address ca" "plain (cl_features c)" using assms(3) x by (auto simp: plain_thread_def xe)
    from trace_step [OF assms(1,2) this assms(4) _ call, of fs cm] s
    show "case t of (fs, cm, sm) \<Rightarrow> trace_ok mrs fs cm sm" by (simp add: t xe)
  qed (simp add: trace_ok_def stage_empty span_new_def span_matcher.defs)
  then have st: "stage mrs fs0 (matches_of cms \<union> matches_of sms)" by (simp add: trace_ok_def fs)
  have "plain (th_features th)" using assms(3) by (simp add: plain_thread_def)
  from stage_match [OF assms(1) st this assms(4) m assms(2)] show ?thesis by (simp add: fs)
qed

lemma stage_process:
  assumes "displayable_rules mrs rank" "\<And>ms. set (it ms) = set ms" "plain_process pr" "plain_globals globals"
    and "find_process_capabilities rx it mrs a pr globals = Inr (pms, tms, sms, cms, cnt)"
  shows "closed mrs (matches_of cms \<union> matches_of sms \<union> matches_of tms \<union> matches_of pms)"
proof -
  from assms(5) obtain fs0 where loop: "fold_result (\<lambda>(thread_addr, th) (fs, thread_matches, span_matches, call_matches).
      rbind (find_thread_capabilities rx it mrs thread_addr th globals)
        (\<lambda>(thread_fs, this_thread, this_span, this_call).
          Inr (merge_owned fs thread_fs, extend_matches it thread_matches this_thread,
               extend_matches it span_matches this_span, extend_matches it call_matches this_call)))
      (threads pr) ([], [], [], []) = Inr (fs0, tms, sms, cms)"
    and m: "match_scope_results rx mrs ProcessScope (seed fs0 (pr_features pr) globals) a = Inr pms"
    by (auto simp: find_process_capabilities_def Let_def rbind_Inr_iff)
  have "case (fs0, tms, sms, cms) of (fs, t, s, c) \<Rightarrow> stage mrs fs (matches_of c \<union> matches_of s \<union> matches_of t)"
    using loop
  proof (rule fold_result_invariant)
    fix x s t
    assume x: "x \<in> set (threads pr)"
      and s: "case s of (fs, t, s, c) \<Rightarrow> stage mrs fs (matches_of c \<union> matches_of s \<union> matches_of t)"
      and step: "(\<lambda>(thread_addr, th) (fs, thread_matches, span_matches, call_matches).
        rbind (find_thread_capabilities rx it mrs thread_addr th globals)
          (\<lambda>(thread_fs, this_thread, this_span, this_call).
            Inr (merge_owned fs thread_fs, extend_matches it thread_matches this_thread,
                 extend_matches it span_matches this_span, extend_matches it call_matches this_call))) x s = Inr t"
    obtain ta th fs tm sm cm where xe: "x = (ta, th)" "s = (fs, tm, sm, cm)" by (metis prod_cases4 surj_pair)
    from step obtain tfs tm' sm' cm' where th: "find_thread_capabilities rx it mrs ta th globals = Inr (tfs, tm', sm', cm')"
      and t: "t = (merge_owned fs tfs, extend_matches it tm tm', extend_matches it sm sm', extend_matches it cm cm')"
      by (auto simp: xe rbind_Inr_iff)
    have "plain_thread th" using assms(3) x by (auto simp: plain_process_def xe)
    note thr = stage_thread [OF assms(1,2) this assms(4) th]
    have "stage mrs (fs_merge fs tfs) ((matches_of cm \<union> matches_of sm \<union> matches_of tm) \<union> (matches_of cm' \<union> matches_of sm' \<union> matches_of tm'))"
      using stage_merge [OF _ thr] s by (simp add: xe)
    then show "case t of (fs, t, s, c) \<Rightarrow> stage mrs fs (matches_of c \<union> matches_of s \<union> matches_of t)"
      by (simp add: t merge_owned_eq_merge matches_of_extend assms(2) Un_ac)
  qed (simp add: stage_empty)
  then have st: "stage mrs fs0 (matches_of cms \<union> matches_of sms \<union> matches_of tms)" by simp
  have "plain (pr_features pr)" using assms(3) by (simp add: plain_process_def)
  from stage_match [OF assms(1) st this assms(4) m assms(2)] show ?thesis by (rule stage_closed)
qed

lemma dynamic_sound:
  assumes "displayable_rules mrs rank" "\<And>ms. set (it ms) = set ms" "plain_dynamic fz"
    and "find_dynamic_capabilities rx it mrs fz = Inr caps"
  shows "closed mrs (matches_of (dc_matches caps))"
proof -
  let ?step = "\<lambda>(process_addr, pr) (counts, prs, ths, spans, cls).
      rbind (find_process_capabilities rx it mrs process_addr pr (dy_global_features fz))
        (\<lambda>(process_matches, thread_matches, span_matches, call_matches, feature_count).
          Inr (counts @ [(process_addr, feature_count)], extend_matches it prs process_matches,
               extend_matches it ths thread_matches, extend_matches it spans span_matches,
               extend_matches it cls call_matches))"
  let ?P = "\<lambda>(counts, prs, ths, spans, cls). closed mrs (matches_of cls \<union> matches_of spans \<union> matches_of ths \<union> matches_of prs)"
  from assms(4) obtain counts prs ths spans cls fms cnt
    where loop: "fold_result ?step (processes fz) ([], [], [], [], []) = Inr (counts, prs, ths, spans, cls)"
      and fms: "find_file_capabilities rx mrs (dy_file_features fz) (dy_global_features fz)
        (lower_features mrs (it cls @ it spans @ it ths @ it prs)) = Inr (fms, cnt)"
      and caps: "dc_matches caps = extend_matches it (extend_matches it (extend_matches it (extend_matches it
        (extend_matches it [] cls) spans) ths) prs) fms"
    by (auto simp: find_dynamic_capabilities_def Let_def rbind_Inr_iff dynamic_capabilities.defs)
  have "?P (counts, prs, ths, spans, cls)"
    using loop
  proof (rule fold_result_invariant)
    fix x and s t :: "(address \<times> nat) list \<times> match_results \<times> match_results \<times> match_results \<times> match_results"
    assume x: "x \<in> set (processes fz)" and s: "?P s" and step: "?step x s = Inr t"
    obtain pa pr where xe: "x = (pa, pr)" by fastforce
    obtain cs p th sp cl where se: "s = (cs, p, th, sp, cl)" by (metis prod_cases5)
    from step obtain p' th' sp' cl' c' where one: "find_process_capabilities rx it mrs pa pr (dy_global_features fz) = Inr (p', th', sp', cl', c')"
      and t: "t = (cs @ [(pa, c')], extend_matches it p p', extend_matches it th th', extend_matches it sp sp', extend_matches it cl cl')"
      by (auto simp: xe se rbind_Inr_iff)
    have "plain_process pr" "plain_globals (dy_global_features fz)" using assms(3) x by (auto simp: plain_dynamic_def xe)
    note new = stage_process [OF assms(1,2) this one]
    have "closed mrs (matches_of cl \<union> matches_of sp \<union> matches_of th \<union> matches_of p)" using s by (simp add: se)
    from closed_Un [OF this new] show "?P t" by (simp add: t matches_of_extend assms(2) Un_ac)
  qed simp
  then have low: "closed mrs (matches_of (it cls @ it spans @ it ths @ it prs))"
    using assms(2) by (simp add: matches_of_cong [of "it _"] Un_ac)
  from file_sound [OF assms(1) _ _ low fms] assms(3) show ?thesis
    unfolding caps using assms(2) by (simp add: plain_dynamic_def matches_of_extend matches_of_cong [of "it _"] Un_ac)
qed

section \<open>From an analysis to its document\<close>

lemma recorded_matches: "(a, m) \<in> set (recorded caps nm) \<Longrightarrow> (nm, a, m) \<in> matches_of caps"
  by (cases "im_get (=) caps nm") (force simp: recorded_def matches_of_def dest: im_get_Some_key)+

lemma matches_indexed:
  assumes "distinct (im_keys caps)" "(nm, a, m) \<in> matches_of caps"
  shows "rule_match_index caps nm a \<noteq> None"
proof -
  from assms(2) obtain res where res: "(nm, res) \<in> set caps" "(a, m) \<in> set res" by (auto simp: matches_of_def)
  then have "recorded caps nm = res" using im_get_distinct [OF assms(1)] by (simp add: recorded_def)
  moreover have "a \<in> fst ` set res" using res(2) by force
  ultimately show ?thesis by (simp add: rule_match_index_def map_of_eq_None_iff)
qed

lemma closed_node:
  assumes "closed mrs (matches_of caps)" "recorded_node caps nm sub"
  shows "\<exists>r nd. mrs_get mrs nm = Some r \<and> node_from_matched (mnode sub) (mr_description sub) = Inr nd
    \<and> (\<forall>k. reference_of sub = Some k \<longrightarrow>
         k \<in> match_refs (body r) \<and> (\<forall>l \<in> locations sub. accounted_at mrs (matches_of caps) k l))"
proof -
  from assms(2) obtain a res where "(nm, a, res) \<in> matches_of caps" "sub \<in> subresults res"
    using recorded_matches unfolding recorded_node_def by blast
  with assms(1) show ?thesis unfolding closed_def sound_def sound_match_def by fast
qed

lemma closed_displayable:
  assumes "displayable_rules mrs rank" "closed mrs (matches_of caps)" "distinct (im_keys caps)"
  shows "displayable yl mrs caps"
  unfolding displayable_def
proof (intro allI impI)
  fix nm sub
  assume rec: "recorded_node caps nm sub"
  from closed_node [OF assms(2) rec] obtain nd where nd: "node_from_matched (mnode sub) (mr_description sub) = Inr nd"
    and acc: "\<forall>k. reference_of sub = Some k \<longrightarrow> (\<forall>l \<in> locations sub. accounted_at mrs (matches_of caps) k l)"
    by blast
  have "\<exists>nd'. subscope_node yl mrs k nd = Inr nd'" for k
  proof (cases "mrs_get mrs k")
    case (Some r)
    then show ?thesis using displayable_rulesD(3) [OF assms(1) Some] by (auto simp: subscope_node_def split: option.split)
  qed (simp add: subscope_node_def)
  then have "\<exists>nd'. shown_node yl mrs sub = Inr nd'" using nd by (simp add: shown_node_def split: option.split)
  moreover have "is_call_address l \<or> rule_match_index caps k l \<noteq> None"
    if k: "reference_of sub = Some k" "mrs_get mrs k \<noteq> None" and l: "l \<in> locations sub" for k l
  proof (cases "is_call_address l")
    case False
    with acc k(1) l obtain r m where r: "mrs_get mrs (rule_name r) = Some r" "MatchedRule k \<in> published r"
      "(rule_name r, l, m) \<in> matches_of caps" by (auto simp: accounted_at_def)
    then have "k = rule_name r" using displayable_rulesD(5) [OF assms(1) r(1,2)] k(2) by blast
    then show ?thesis using matches_indexed [OF assms(3) r(3)] by simp
  qed simp
  ultimately show "node_displayable yl mrs caps sub"
    unfolding node_displayable_def by (cases "reference_of sub") simp_all
qed

lemma closed_ranked:
  assumes "displayable_rules mrs rank" "closed mrs (matches_of caps)"
  shows "ranked mrs caps rank"
  unfolding ranked_def
proof (intro allI impI ballI)
  fix nm sub k rn
  assume sub: "recorded_node caps nm sub" "reference_of sub = Some k" "rn \<in> set (snd (referenced_rules mrs caps k))"
  from closed_node [OF assms(2) sub(1)] sub(2) obtain r where r: "mrs_get mrs nm = Some r" "k \<in> match_refs (body r)" by blast
  have "rn \<in> resolve (mrs_namespaces mrs) k"
    using sub(3) displayable_rulesD(4) [OF assms(1), of k]
    by (auto simp: referenced_rules_def resolve_def split: option.splits)
  then have "rn \<in> get_dependencies (mrs_namespaces mrs) (body r)" using r(2) by (auto simp: get_dependencies_resolve)
  then show "rank rn < rank nm" by (rule displayable_rulesD(6) [OF assms(1) r(1)])
qed

lemma distinct_extend: "distinct (im_keys into) \<Longrightarrow> distinct (im_keys (extend_matches it into from))"
proof -
  have "distinct (im_keys (fold (\<lambda>(nm, res). im_entry (=) nm [] (\<lambda>l. l @ res)) es into))"
    if "distinct (im_keys into)" for es :: match_results and into
    using that by (induction es arbitrary: into) (auto simp: im_keys_entry im_contains_def)
  then show "distinct (im_keys into) \<Longrightarrow> ?thesis" by (simp add: extend_matches_def)
qed

lemma static_distinct:
  "find_static_capabilities rx it mrs sfz = Inr caps \<Longrightarrow> distinct (im_keys (sc_matches caps))"
  by (auto simp: find_static_capabilities_def Let_def rbind_Inr_iff case_prod_beta static_capabilities.defs
      intro!: distinct_extend)

lemma dynamic_distinct:
  "find_dynamic_capabilities rx it mrs dfz = Inr caps \<Longrightarrow> distinct (im_keys (dc_matches caps))"
  by (auto simp: find_dynamic_capabilities_def Let_def rbind_Inr_iff dynamic_capabilities.defs intro!: distinct_extend)

text \<open>Given enough stack, every set of matches that accounts for its references has a document.\<close>

lemma closed_displayed:
  assumes "displayable_rules mrs rank" "\<And>ms. mset (it ms) = mset ms" "closed mrs (matches_of caps)" "distinct (im_keys caps)"
  shows "\<exists>depth. \<forall>n \<ge> depth. \<exists>doc. build_result_document n yl it mrs caps md = Inr doc"
proof -
  have "displayable yl mrs caps" "ranked mrs caps rank"
    using closed_displayable [OF assms(1,3,4)] closed_ranked [OF assms(1,3)] by auto
  from document_built [where it = it, OF this assms(4,2)] show ?thesis by blast
qed

lemma static_displayed:
  assumes "displayable_rules mrs rank" "\<And>ms. mset (it ms) = mset ms" "plain_static fz"
    and "find_static_capabilities rx it mrs fz = Inr caps"
  shows "\<exists>depth. \<forall>n \<ge> depth. \<exists>doc. build_result_document n yl it mrs (sc_matches caps) md = Inr doc"
proof -
  have it: "set (it ms) = set ms" for ms using assms(2) by (rule mset_eq_setD)
  show ?thesis
    by (rule closed_displayed [OF assms(1,2) static_sound [OF assms(1) it assms(3,4)] static_distinct [OF assms(4)]])
qed

text \<open>Rules and a sample for the examples: a function that calls an API, a rule on it, and a rule that refers to the rule.\<close>

definition example_yaml :: yaml_lib where
  "example_yaml = \<lparr>y_as_str = (\<lambda>_. None), y_as_bool = (\<lambda>_. None), y_from_str = (\<lambda>_. Inl [])\<rparr>"

definition example_regex :: regex_lib where
  "example_regex =
     \<lparr>std_new = (\<lambda>_. True), std_is_match = (\<lambda>_ _. False), fancy_new = (\<lambda>_. None), fancy_is_match = (\<lambda>_ _. None)\<rparr>"

definition example_rules :: "(string \<times> string option \<times> feature) list \<Rightarrow> rule list" where
  "example_rules =
     map (\<lambda>(nm, ns, f). basic_rule nm ns \<lparr>sc_static = Some FunctionScope, sc_dynamic = Some CallScope\<rparr> (Node (Leaf f) None))"

definition referring_rules :: "rule list" where
  "referring_rules = example_rules [(''a'', None, Api ''y''), (''b'', None, MatchedRule ''a'')]"

definition example_sample :: static_features where
  "example_sample = static_features.make NoAddress (sample_hashes.make [] [] []) [] []
     [(Absolute 1, function_features.make [(Absolute 2, Api ''y'')] [])]"

definition example_trace :: dynamic_features where
  "example_trace = dynamic_features.make NoAddress (sample_hashes.make [] [] []) [] []
     [(Process 0 1, process_features.make ''p'' []
         [(Thread 0 1 2, thread_features.make []
             [(address.Call 0 1 2 3, call_features.make ''y'' [(address.Call 0 1 2 3, Api ''y'')])])])]"

definition example_metadata :: metadata where
  "example_metadata = build_static_metadata
     (meta_inputs.make None [] [] (sample.make [] [] [] []) ''auto'' OS_AUTO ARCH_AUTO []) example_sample (0, []) [] []"

definition example_rank :: "string \<Rightarrow> nat" where
  "example_rank nm = (if nm = ''b'' then 1 else 0)"

definition example_holds :: "(matching_rule_set \<Rightarrow> static_capabilities \<Rightarrow> dynamic_capabilities \<Rightarrow> bool) \<Rightarrow> rule list \<Rightarrow> bool" where
  "example_holds P rules =
     (case MatchingRuleSet_new example_yaml (\<lambda>_ _. None) rules of
        Inl _ \<Rightarrow> False
      | Inr mrs \<Rightarrow>
          (case find_static_capabilities example_regex rev mrs example_sample of
             Inl _ \<Rightarrow> False
           | Inr scaps \<Rightarrow>
               (case find_dynamic_capabilities example_regex rev mrs example_trace of
                  Inl _ \<Rightarrow> False
                | Inr dcaps \<Rightarrow> P mrs scaps dcaps)))"

lemma example_holdsE:
  assumes "example_holds P rules"
  obtains mrs scaps dcaps where "MatchingRuleSet_new example_yaml (\<lambda>_ _. None) rules = Inr mrs"
    "find_static_capabilities example_regex rev mrs example_sample = Inr scaps"
    "find_dynamic_capabilities example_regex rev mrs example_trace = Inr dcaps" "P mrs scaps dcaps"
  using assms by (auto simp: example_holds_def split: sum.splits)

lemma example_analysis:
  "example_holds (\<lambda>mrs scaps dcaps. displayable_rules mrs example_rank
     \<and> map fst (sc_matches scaps) = [''a'', ''b''] \<and> map fst (dc_matches dcaps) = [''a'', ''b'']) referring_rules"
  by code_simp

lemma example_plain: "plain_static example_sample" "plain_dynamic example_trace"
  by code_simp+

lemma example_order: "mset (rev ms) = mset (ms :: match_results)" "set (rev ms) = set (ms :: match_results)"
  by simp_all

section \<open>Documents\<close>





text \<open>
  Rules for the exception: one rule has the name of the namespace of another, and a third refers
  to that name.
\<close>

definition colliding_rules :: "rule list" where
  "colliding_rules = example_rules [(''n'', None, Api ''x''), (''m'', Some ''n'', Api ''y''), (''u'', None, MatchedRule ''n'')]"

definition missing_match :: "'a rendered \<Rightarrow> bool" where
  "missing_match r = (case r of Inl (Some (MissingRuleMatch nm _)) \<Rightarrow> nm = ''n'' | _ \<Rightarrow> False)"

lemma collision_example:
  "example_holds (\<lambda>mrs scaps _. missing_match (build_result_document 5 example_yaml rev mrs (sc_matches scaps) example_metadata)) colliding_rules"
  by code_simp


end
