(* ===== verification/Render_Props.thy ===== *)
theory Render_Props
  imports Render Display
begin

text \<open>
  The views of a document: the default view hides a capability only behind one that refers to it,
  and the very verbose view shows of a match exactly the parts that decided it.
\<close>

section \<open>Hidden capabilities\<close>

text \<open>The names a displayed match refers to are of rules below its own.\<close>

lemma spliced_recorded:
  assumes "m \<in> set (spliced mrs caps res)" "reference_of res = Some k"
  obtains rn where "rn \<in> set (snd (referenced_rules mrs caps k))" "recorded_node caps rn m"
proof -
  from assms obtain rn l where rn: "rn \<in> set (snd (referenced_rules mrs caps k))"
    and "(case match_for caps False rn l of Inl _ \<Rightarrow> None | Inr found \<Rightarrow> found) = Some m"
    unfolding spliced_def by (auto simp: mem_map_filter)
  then have "match_for caps False rn l = Inr (Some m)" by (cases "match_for caps False rn l") simp_all
  then obtain a where "(a, m) \<in> set (recorded caps rn)" using match_for_recorded by blast
  with rn that show thesis by (auto simp: recorded_node_def intro: subresults_self)
qed

lemma list_all2_right: "list_all2 P xs ys \<Longrightarrow> y \<in> set ys \<Longrightarrow> \<exists>x \<in> set xs. P x y"
  by (induction xs ys rule: list_all2_induct) auto

lemma shown_reference:
  assumes "shown_node yl mrs res = Inr (FeatureNode (RdMatch k d))" "success res"
  shows "reference_of res = Some k"
proof -
  from assms(1) obtain nd where nd: "node_from_matched (mnode res) (mr_description res) = Inr nd"
    and sub: "(case reference_of res of None \<Rightarrow> Inr nd | Some nm \<Rightarrow> subscope_node yl mrs nm nd) = Inr (FeatureNode (RdMatch k d))"
    by (auto simp: shown_node_def rbind_Inr_iff)
  have "nd = FeatureNode (RdMatch k d)"
    using sub by (auto simp: subscope_node_def split: option.splits if_splits)
  then have "mnode res = MLeaf (MatchedRule k)"
    using nd by (cases "mnode res") (auto simp: map_ok_Inr_iff map_err_ok_iff elim!: from_engine.elims)
  then show ?thesis using assms(2) by (simp add: reference_of_def)
qed

lemma matched_names_ranked:
  assumes "displays yl mrs caps res t" "ranked mrs caps rank"
  shows "recorded_node caps nm res \<Longrightarrow> k \<in> matched_names t \<Longrightarrow> mrs_get mrs k \<noteq> None \<Longrightarrow> rank k < rank nm"
  using assms(1)
proof (induction arbitrary: nm rule: displays.induct)
  case (displays res nd ts)
  show ?case
  proof (cases nd)
    case (FeatureNode f)
    then obtain d where f: "f = RdMatch k d" "success res" using displays.prems(2) by (auto split: if_splits rd_feature.splits)
    have ref: "reference_of res = Some k" using displays.hyps(1) f by (intro shown_reference) (simp_all add: FeatureNode)
    have "k \<in> set (snd (referenced_rules mrs caps k))" using displays.prems(3) by (auto simp: referenced_rules_def)
    then show ?thesis using assms(2) displays.prems(1) ref unfolding ranked_def by blast
  next
    case (StatementNode st)
    then obtain t where t: "t \<in> set ts" "k \<in> matched_names t" using displays.prems(2) by (auto split: if_splits)
    from list_all2_right [OF displays.IH t(1)] obtain c where c: "c \<in> set (children res @ spliced mrs caps res)"
      and ih: "\<And>nm. recorded_node caps nm c \<Longrightarrow> rank k < rank nm"
      using t(2) displays.prems(3) by blast
    show ?thesis
    proof (cases "c \<in> set (children res)")
      case True
      then have "recorded_node caps nm c"
        using displays.prems(1) subresults_child unfolding recorded_node_def by blast
      then show ?thesis by (rule ih)
    next
      case False
      with c have sp: "c \<in> set (spliced mrs caps res)" by simp
      then obtain r where ref: "reference_of res = Some r" by (cases "reference_of res") (auto simp: spliced_def)
      from spliced_recorded [OF sp ref] obtain rn where rn: "rn \<in> set (snd (referenced_rules mrs caps r))" "recorded_node caps rn c" .
      have "rank rn < rank nm" using assms(2) displays.prems(1) ref rn(1) unfolding ranked_def by blast
      then show ?thesis using ih [OF rn(2)] by simp
    qed
  qed
qed

text \<open>Which displayed rule refers to which, and the rules hidden behind a rule that refers to them.\<close>

definition refers :: "result_document \<Rightarrow> (string \<times> string) set" where
  "refers doc = {(rm_name (rms_meta s), k) | s a m k. s \<in> set (capability_rules doc) \<and> (a, m) \<in> set (rms_matches s) \<and> k \<in> matched_names m}"

lemma row_iff:
  "s \<in> set (capability_rows doc) \<longleftrightarrow> s \<in> set (capability_rules doc) \<and> (\<forall>a. (a, rm_name (rms_meta s)) \<notin> refers doc)"
  unfolding capability_rows_def find_subrule_matches_def refers_def by force

lemma capability_rule_entry: "s \<in> set (capability_rules doc) \<Longrightarrow> \<exists>k. (k, s) \<in> set (doc_rules doc)"
  by (auto simp: capability_rules_def sort_rules_def)

lemma shown_above:
  fixes rank :: "string \<Rightarrow> nat"
  assumes "\<And>a b. (a, b) \<in> refers doc \<Longrightarrow> b \<in> (rm_name \<circ> rms_meta) ` set (capability_rules doc) \<Longrightarrow> rank b < rank a"
    and "r \<in> set (capability_rules doc)"
  shows "\<exists>s \<in> set (capability_rows doc). (rm_name (rms_meta s), rm_name (rms_meta r)) \<in> (refers doc)\<^sup>*"
proof -
  let ?N = "(rm_name \<circ> rms_meta) ` set (capability_rules doc)"
  have "\<exists>s \<in> set (capability_rows doc). (rm_name (rms_meta s), rm_name (rms_meta r)) \<in> (refers doc)\<^sup>*"
    if "r \<in> set (capability_rules doc)" "Max (rank ` ?N) - rank (rm_name (rms_meta r)) = n" for r n
    using that
  proof (induction n arbitrary: r rule: less_induct)
    case (less n)
    show ?case
    proof (cases "r \<in> set (capability_rows doc)")
      case False
      then obtain a where ref: "(a, rm_name (rms_meta r)) \<in> refers doc" using less.prems(1) by (auto simp: row_iff)
      then obtain s where s: "s \<in> set (capability_rules doc)" "a = rm_name (rms_meta s)" by (auto simp: refers_def)
      have "rank (rm_name (rms_meta r)) < rank a" using assms(1) [OF ref] less.prems(1) by (auto simp: comp_def)
      moreover have "rank a \<le> Max (rank ` ?N)" using s by (intro Max_ge) auto
      ultimately have "Max (rank ` ?N) - rank a < n" using less.prems(2) by linarith
      from less.IH [OF this s(1)] s(2) obtain t where t: "t \<in> set (capability_rows doc)" "(rm_name (rms_meta t), a) \<in> (refers doc)\<^sup>*"
        by blast
      then show ?thesis using ref by (blast intro: rtrancl_into_rtrancl)
    qed blast
  qed
  then show ?thesis using assms(2) by blast
qed

text \<open>The rules of a document are those of the rule set, under their names.\<close>

lemma reported_rule:
  assumes "build_result_document n yl it mrs caps md = Inr doc" "distinct (im_keys caps)" "mset (it caps) = mset caps"
    and "displayable_rules mrs rank" "s \<in> set (capability_rules doc)"
  shows "mrs_get mrs (rm_name (rms_meta s)) \<noteq> None"
    and "(a, t) \<in> set (rms_matches s) \<Longrightarrow>
      \<exists>res. recorded_node caps (rm_name (rms_meta s)) res \<and> displays yl mrs caps res t"
proof -
  obtain nm where nm: "(nm, s) \<in> set (doc_rules doc)" using capability_rule_entry [OF assms(5)] by blast
  have "bt_wf (doc_rules doc)" using built_reports(2) [OF assms(1-3)] by (simp add: bt_wf_def)
  then have "bt_get (doc_rules doc) nm = Some s" using nm by (simp add: bt_get_Some_iff)
  then have rep: "reports yl mrs caps nm (Some s)" using built_reports(3) [OF assms(1-3), of nm] by simp
  then obtain ms r where ms: "im_get (=) caps nm = Some ms" and r: "mrs_get mrs nm = Some r" "rms_meta s = rule_metadata_of r"
    and all: "list_all2 (\<lambda>(a, res) (ra, t). ra = to_rd_address a \<and> displays yl mrs caps res t) ms (rms_matches s)"
    by (auto simp: reports_def split: option.splits if_splits)
  have name: "rm_name (rms_meta s) = nm" using displayable_rulesD(1) [OF assms(4) r(1)] r(2) by (simp add: rule_metadata_of_def Let_def)
  then show "mrs_get mrs (rm_name (rms_meta s)) \<noteq> None" using r(1) by simp
  show "\<exists>res. recorded_node caps (rm_name (rms_meta s)) res \<and> displays yl mrs caps res t" if "(a, t) \<in> set (rms_matches s)"
  proof -
    from list_all2_right [OF all that] obtain b res where "(b, res) \<in> set ms" "displays yl mrs caps res t" by auto
    then show ?thesis using ms name subresults_self [of res] by (auto simp: recorded_node_def recorded_def)
  qed
qed

lemma capability_accounted:
  assumes "build_result_document n yl it mrs caps md = Inr doc" "distinct (im_keys caps)" "mset (it caps) = mset caps"
    and "displayable_rules mrs rank" "closed mrs (matches_of caps)" "r \<in> set (capability_rules doc)"
  shows "\<exists>s \<in> set (capability_rows doc). (rm_name (rms_meta s), rm_name (rms_meta r)) \<in> (refers doc)\<^sup>*"
proof (rule shown_above [OF _ assms(6)])
  fix a b
  assume "(a, b) \<in> refers doc" "b \<in> (rm_name \<circ> rms_meta) ` set (capability_rules doc)"
  then obtain s l t q where s: "s \<in> set (capability_rules doc)" "a = rm_name (rms_meta s)" "(l, t) \<in> set (rms_matches s)" "b \<in> matched_names t"
    and q: "q \<in> set (capability_rules doc)" "b = rm_name (rms_meta q)"
    by (auto simp: refers_def)
  from reported_rule(2) [OF assms(1-4) s(1,3)] obtain res where "recorded_node caps a res" "displays yl mrs caps res t"
    unfolding s(2) by blast
  then show "rank b < rank a"
    using matched_names_ranked [OF _ closed_ranked [OF assms(4,5)]] s(4) reported_rule(1) [OF assms(1-4) q(1)] q(2) by blast
qed

text \<open>
  C17: the default view of an analysis leaves out a capability only when one that it does show refers
  to it, directly or through other capabilities: every capability rule of the document has a
  row of the table, or a row of the table from which references lead to it. In particular the
  table is empty only when the document has no capability.
\<close>

theorem capabilities_accounted:
  assumes "displayable_rules mrs rank" "\<And>ms. mset (it ms) = mset ms"
    and "(\<exists>fz found. plain_static fz \<and> find_static_capabilities rx it mrs fz = Inr found \<and> caps = sc_matches found)
      \<or> (\<exists>fz found. plain_dynamic fz \<and> find_dynamic_capabilities rx it mrs fz = Inr found \<and> caps = dc_matches found)"
    and "build_result_document n yl it mrs caps md = Inr doc" "r \<in> set (capability_rules doc)"
  shows "\<exists>s \<in> set (capability_rows doc). (rm_name (rms_meta s), rm_name (rms_meta r)) \<in> (refers doc)\<^sup>*"
proof -
  have it: "set (it ms) = set ms" for ms using assms(2) by (rule mset_eq_setD)
  have "closed mrs (matches_of caps) \<and> distinct (im_keys caps)"
    using assms(3) static_sound [OF assms(1) it] static_distinct dynamic_sound [OF assms(1) it] dynamic_distinct by blast
  then show ?thesis using capability_accounted [where it = it, OF assms(4) _ assms(2,1) _ assms(5)] by blast
qed

lemma example_view:
  "example_holds (\<lambda>mrs scaps dcaps. displayable_rules mrs example_rank
     \<and> (case build_result_document 9 example_yaml rev mrs (sc_matches scaps) example_metadata of
          Inl _ \<Rightarrow> False
        | Inr doc \<Rightarrow> map (rm_name \<circ> rms_meta) (capability_rules doc) = [''a'', ''b'']
            \<and> map (rm_name \<circ> rms_meta) (capability_rows doc) = [''b''])) referring_rules"
  by code_simp

theorem capabilities_accounted_witness:
  "\<exists>mrs scaps doc. MatchingRuleSet_new example_yaml (\<lambda>_ _. None) referring_rules = Inr mrs
     \<and> find_static_capabilities example_regex rev mrs example_sample = Inr scaps
     \<and> build_result_document 9 example_yaml rev mrs (sc_matches scaps) example_metadata = Inr doc
     \<and> map (rm_name \<circ> rms_meta) (capability_rows doc) = [''b''] \<and> (''b'', ''a'') \<in> (refers doc)\<^sup>*"
proof -
  from example_view obtain mrs scaps dcaps doc
    where ex: "MatchingRuleSet_new example_yaml (\<lambda>_ _. None) referring_rules = Inr mrs"
      "find_static_capabilities example_regex rev mrs example_sample = Inr scaps"
    and rules: "displayable_rules mrs example_rank"
    and doc: "build_result_document 9 example_yaml rev mrs (sc_matches scaps) example_metadata = Inr doc"
    and names: "map (rm_name \<circ> rms_meta) (capability_rules doc) = [''a'', ''b'']"
      "map (rm_name \<circ> rms_meta) (capability_rows doc) = [''b'']"
    by (rule example_holdsE) (auto split: sum.splits)
  have "''a'' \<in> set (map (rm_name \<circ> rms_meta) (capability_rules doc))" unfolding names(1) by simp
  then obtain r where r: "r \<in> set (capability_rules doc)" "rm_name (rms_meta r) = ''a''" by auto
  from names(2) have rows: "\<And>s. s \<in> set (capability_rows doc) \<Longrightarrow> rm_name (rms_meta s) = ''b''" by auto
  have "(\<exists>fz found. plain_static fz \<and> find_static_capabilities example_regex rev mrs fz = Inr found \<and> sc_matches scaps = sc_matches found)
      \<or> (\<exists>fz found. plain_dynamic fz \<and> find_dynamic_capabilities example_regex rev mrs fz = Inr found \<and> sc_matches scaps = dc_matches found)"
    using ex(2) example_plain(1) by blast
  from capabilities_accounted [where it = rev, OF rules example_order(1) this doc r(1)] rows r(2)
  have "(''b'', ''a'') \<in> (refers doc)\<^sup>*" by metis
  with ex doc names(2) show ?thesis by (intro exI [of _ mrs] exI [of _ scaps] exI [of _ doc] conjI)
qed

end
