(* ===== verification/File_Features.thy ===== *)
theory File_Features
  imports Carve Strings Elf_Os Macho Freeze
begin

unbundle bit_operations_syntax

text \<open>
  \<^verbatim>\<open>capa-x/src/extract/loader/\<close>\<^verbatim>\<open>pe.rs\<close>, \<^verbatim>\<open>elf.rs\<close>, \<^verbatim>\<open>macho.rs\<close>, \<^verbatim>\<open>shellcode.rs\<close> and
  \<^verbatim>\<open>capa-x/src/extract/mod.rs\<close>: the features of the file and of the sample as a whole. The
  structures that the goblin library reads from a file, its translation of relative addresses to
  offsets, and the digests of the hash libraries are parameters; the records hold the fields of
  goblin's structures that the extractors read. Offsets are natural numbers: a sum that would
  overflow is behind the end of every buffer, where the reads fail as well.
\<close>

section \<open>Shared by the formats\<close>

datatype extract_error = Parse string

record digests =
  md5_digest :: "u8 list \<Rightarrow> u8 list"
  sha1_digest :: "u8 list \<Rightarrow> u8 list"
  sha256_digest :: "u8 list \<Rightarrow> u8 list"

definition to_hex :: "u8 list \<Rightarrow> string" where
  "to_hex bytes = concat (map (\<lambda>b. (if unat b < 16 then ''0'' else []) @ show_hex_word b) bytes)"

definition sample_hashes_of :: "digests \<Rightarrow> u8 list \<Rightarrow> sample_hashes" where
  "sample_hashes_of dg buf =
     \<lparr>md5 = to_hex (md5_digest dg buf), sha1 = to_hex (sha1_digest dg buf), sha256 = to_hex (sha256_digest dg buf)\<rparr>"

definition looks_like_pe :: "u8 list \<Rightarrow> bool" where
  "looks_like_pe buf = (take 2 buf = [0x4D, 0x5A])"

definition looks_like_elf :: "u8 list \<Rightarrow> bool" where
  "looks_like_elf buf = (take 4 buf = [0x7F, 0x45, 0x4C, 0x46])"

definition looks_like_macho :: "u8 list \<Rightarrow> bool" where
  "looks_like_macho buf =
     (4 \<le> length buf \<and> (let magic_be = be_value (take 4 buf)
        in magic_be = FAT_MAGIC \<or> magic_be = MH_MAGIC_64 \<or> magic_be = MH_CIGAM_64))"

definition extract_file_embedded_pe :: "u8 list \<Rightarrow> located" where
  "extract_file_embedded_pe buf = map (\<lambda>(offset, _). (File (of_nat offset), Characteristic ''embedded pe'')) (carve_pe buf 1)"

definition extract_file_strings :: "u8 list \<Rightarrow> located" where
  "extract_file_strings buf =
     map (\<lambda>s. (File (of_nat (es_offset s)), Str (Plain (es_s s))))
       (extract_ascii_strings buf MIN_STRING_LEN @ extract_unicode_strings buf MIN_STRING_LEN)"

section \<open>PE\<close>

datatype reexport = DLLName (re_export: string) (re_lib: string) | DLLOrdinal (re_ordinal: nat) (re_lib: string)

record pe_export =
  ex_name :: "string option"
  ex_rva :: nat
  ex_reexport :: "reexport option"

record pe_section =
  ps_name :: "u8 list"
  ps_virtual_address :: u32

record pe_optional_header =
  size_of_headers :: u32
  file_alignment :: u32
  import_table :: "(u32 \<times> u32) option"

record parsed_pe =
  pe_image_base :: u64
  pe_machine :: nat
  pe_is_64 :: bool
  pe_optional_header :: "pe_optional_header option"
  pe_exports :: "pe_export list"
  pe_sections :: "pe_section list"

text \<open>
  goblin's \<^verbatim>\<open>PE::parse_with_opts\<close> with the options of the extractor, and its \<^verbatim>\<open>find_offset\<close> of a
  relative address in the sections with a file alignment; \<open>lowercase\<close> is \<^verbatim>\<open>str::to_lowercase\<close>.
\<close>

record pe_lib =
  parse_pe :: "u8 list \<Rightarrow> string + parsed_pe"
  find_offset :: "nat \<Rightarrow> pe_section list \<Rightarrow> u32 \<Rightarrow> nat option"
  lowercase :: "string \<Rightarrow> string"

definition strip_last_ext_lower :: "(string \<Rightarrow> string) \<Rightarrow> string \<Rightarrow> string" where
  "strip_last_ext_lower lower name = (case rfind_char CHR ''.'' name of Some idx \<Rightarrow> lower (take idx name) | None \<Rightarrow> [])"

definition export_features :: "pe_lib \<Rightarrow> u64 \<Rightarrow> pe_export \<Rightarrow> located" where
  "export_features gl base e =
     (case ex_name e of
        None \<Rightarrow> []
      | Some name \<Rightarrow>
          if \<not> is_ascii name then []
          else
            let va = base + of_nat (ex_rva e)
            in case ex_reexport e of
                 None \<Rightarrow> [(Absolute va, Export name)]
               | Some re \<Rightarrow>
                   (let raw' = (case re of
                                 DLLName ex lb \<Rightarrow> lb @ ''.'' @ ex
                               | DLLOrdinal ordn lb \<Rightarrow> lb @ ''.#'' @ show_nat ordn)
                    in if \<not> is_ascii raw' then []
                       else [(Absolute va, Export (reformat_forwarded_export_name (lowercase gl) raw')),
                             (Absolute va, Characteristic ''forwarded export'')]))"

definition pe_export_names :: "pe_lib \<Rightarrow> parsed_pe \<Rightarrow> located" where
  "pe_export_names gl pe = concat (map (export_features gl (pe_image_base pe)) (pe_exports pe))"

definition pe_read_u32 :: "u8 list \<Rightarrow> nat \<Rightarrow> nat option" where
  "pe_read_u32 buf offset = map_option le_value (get_range buf offset (offset + 4))"

definition pe_read_u64 :: "u8 list \<Rightarrow> nat \<Rightarrow> nat option" where
  "pe_read_u64 buf offset = map_option le_value (get_range buf offset (offset + 8))"

definition read_ascii_cstr :: "u8 list \<Rightarrow> nat \<Rightarrow> string option" where
  "read_ascii_cstr buf offset =
     (if offset \<le> length buf \<and> 0 \<in> set (drop offset buf) then
        case from_utf8 (until_nul (drop offset buf)) of
          None \<Rightarrow> None
        | Some v \<Rightarrow> if is_ascii v then Some v else None
      else None)"

definition rva_to_offset :: "pe_lib \<Rightarrow> parsed_pe \<Rightarrow> u8 list \<Rightarrow> nat \<Rightarrow> nat option" where
  "rva_to_offset gl pe buf rva =
     (case pe_optional_header pe of
        None \<Rightarrow> None
      | Some oh \<Rightarrow>
          if rva < unat (size_of_headers oh) \<and> rva < length buf then Some rva
          else find_offset gl rva (pe_sections pe) (file_alignment oh))"

definition DIRECTORY_ENTRY_SIZE :: nat where
  "DIRECTORY_ENTRY_SIZE = 20"

text \<open>The name of an entry of a lookup table: its ordinal, or the text behind the hint.\<close>

definition pe_import_name :: "pe_lib \<Rightarrow> parsed_pe \<Rightarrow> u8 list \<Rightarrow> nat \<Rightarrow> string option" where
  "pe_import_name gl pe buf entry =
     (if bit entry (if pe_is_64 pe then 63 else 31) then Some (CHR ''#'' # show_nat (entry mod 0x10000))
      else Option.bind (rva_to_offset gl pe buf entry) (\<lambda>hint. read_ascii_cstr buf (hint + 2)))"

text \<open>The entries of a lookup table, up to the first that is zero or not in the file.\<close>

fun import_entries :: "pe_lib \<Rightarrow> parsed_pe \<Rightarrow> u8 list \<Rightarrow> string \<Rightarrow> nat \<Rightarrow> nat \<Rightarrow> nat list \<Rightarrow> located" where
  "import_entries gl pe buf modname lookup_offset iat_rva [] = []"
| "import_entries gl pe buf modname lookup_offset iat_rva (i # is) =
     (let entry_size = (if pe_is_64 pe then 8 else 4);
          entry_offset = lookup_offset + i * entry_size
      in case (if pe_is_64 pe then pe_read_u64 buf entry_offset else pe_read_u32 buf entry_offset) of
           None \<Rightarrow> []
         | Some entry \<Rightarrow>
             if entry = 0 then []
             else
               (case pe_import_name gl pe buf entry of
                  None \<Rightarrow> []
                | Some impname \<Rightarrow>
                    let va = pe_image_base pe + of_nat (iat_rva + i * entry_size)
                    in map (\<lambda>name. (Absolute va, Import name)) (generate_symbols (lowercase gl) modname impname True))
               @ import_entries gl pe buf modname lookup_offset iat_rva is)"

definition library_imports :: "pe_lib \<Rightarrow> parsed_pe \<Rightarrow> u8 list \<Rightarrow> nat \<Rightarrow> nat \<Rightarrow> nat \<Rightarrow> located" where
  "library_imports gl pe buf ilt_rva name_rva iat_rva =
     (case Option.bind (rva_to_offset gl pe buf name_rva) (read_ascii_cstr buf) of
        None \<Rightarrow> []
      | Some dll \<Rightarrow>
          (case rva_to_offset gl pe buf (if ilt_rva = 0 then iat_rva else ilt_rva) of
             None \<Rightarrow> []
           | Some lookup_offset \<Rightarrow>
               import_entries gl pe buf (strip_last_ext_lower (lowercase gl) dll) lookup_offset iat_rva
                 [0..<(length buf - lookup_offset) div (if pe_is_64 pe then 8 else 4)]))"

text \<open>The directory of imported libraries, up to the entry of zeros or the end of the file.\<close>

fun import_directory :: "pe_lib \<Rightarrow> parsed_pe \<Rightarrow> u8 list \<Rightarrow> nat \<Rightarrow> nat list \<Rightarrow> located" where
  "import_directory gl pe buf table_offset [] = []"
| "import_directory gl pe buf table_offset (i # is) =
     (let offset = table_offset + i * DIRECTORY_ENTRY_SIZE
      in case (pe_read_u32 buf offset, pe_read_u32 buf (offset + 12), pe_read_u32 buf (offset + 16)) of
           (Some ilt_rva, Some name_rva, Some iat_rva) \<Rightarrow>
             if ilt_rva = 0 \<and> name_rva = 0 \<and> iat_rva = 0 then []
             else library_imports gl pe buf ilt_rva name_rva iat_rva @ import_directory gl pe buf table_offset is
         | _ \<Rightarrow> [])"

definition pe_import_names :: "pe_lib \<Rightarrow> parsed_pe \<Rightarrow> u8 list \<Rightarrow> located" where
  "pe_import_names gl pe buf =
     (case Option.bind (pe_optional_header pe) import_table of
        None \<Rightarrow> []
      | Some (rva, size') \<Rightarrow>
          (case rva_to_offset gl pe buf (unat rva) of
             None \<Rightarrow> []
           | Some table_offset \<Rightarrow>
               import_directory gl pe buf table_offset
                 [0..<min (unat size' div DIRECTORY_ENTRY_SIZE) ((length buf - table_offset) div DIRECTORY_ENTRY_SIZE)]))"

definition pe_section_names :: "parsed_pe \<Rightarrow> located" where
  "pe_section_names pe =
     List.map_filter (\<lambda>s. case from_utf8 (until_nul (ps_name s)) of
         None \<Rightarrow> None
       | Some name \<Rightarrow>
           if is_ascii name then Some (Absolute (pe_image_base pe + ucast (ps_virtual_address s)), Section name) else None)
       (pe_sections pe)"

definition machine_arch :: "nat \<Rightarrow> feature list" where
  "machine_arch machine =
     (if machine = 0x14c then [Arch ''i386'']
      else if machine = 0x8664 then [Arch ''amd64'']
      else if machine = 0xaa64 then [Arch ''aarch64'']
      else [])"

definition extract_pe :: "pe_lib \<Rightarrow> digests \<Rightarrow> u8 list \<Rightarrow> extract_error + static_features" where
  "extract_pe gl dg buf =
     (case parse_pe gl buf of
        Inl e \<Rightarrow> Inl (Parse (''PE: '' @ e))
      | Inr pe \<Rightarrow>
          Inr \<lparr>st_base_address = Absolute (pe_image_base pe), st_sample_hashes = sample_hashes_of dg buf,
               st_global_features = Format ''pe'' # Os ''windows'' # machine_arch (pe_machine pe),
               st_file_features = extract_file_embedded_pe buf @ pe_export_names gl pe @ pe_import_names gl pe buf
                 @ pe_section_names pe @ extract_file_strings buf,
               st_functions = []\<rparr>)"

section \<open>ELF\<close>

text \<open>A symbol of goblin's tables; \<open>gs_type\<close> is what its \<^verbatim>\<open>st_type\<close> reads from the field of the type.\<close>

record goblin_sym =
  gs_name :: nat
  gs_type :: nat
  gs_value :: u64
  gs_shndx :: nat

record goblin_section =
  sh_name :: nat
  sh_address :: u64
  sh_kind :: nat

type_synonym str_table = "nat \<Rightarrow> string option"

record parsed_elf =
  pelf_machine :: nat
  pelf_loads :: "(nat \<times> u64) list"
  pelf_syms :: "goblin_sym list"
  pelf_strtab :: str_table
  pelf_dynsyms :: "goblin_sym list"
  pelf_dynstrtab :: str_table
  pelf_dynrelas :: "(nat \<times> u64) list"
  pelf_dynrels :: "(nat \<times> u64) list"
  pelf_pltrelocs :: "(nat \<times> u64) list"
  pelf_sections :: "goblin_section list"
  pelf_shdr_strtab :: str_table

definition SHN_UNDEF :: nat where
  "SHN_UNDEF = 0"

text \<open>\<^verbatim>\<open>STT_OBJECT\<close>, \<^verbatim>\<open>STT_FUNC\<close> and \<^verbatim>\<open>STT_GNU_IFUNC\<close>.\<close>

definition is_exportable_type :: "nat \<Rightarrow> bool" where
  "is_exportable_type t = (t = 2 \<or> t = 1 \<or> t = 10)"

definition extract_one_table :: "goblin_sym list \<Rightarrow> str_table \<Rightarrow> located" where
  "extract_one_table syms strs =
     List.map_filter (\<lambda>s. case strs (gs_name s) of
         None \<Rightarrow> None
       | Some name \<Rightarrow>
           if name = [] \<or> \<not> is_exportable_type (gs_type s) \<or> gs_value s = 0 \<or> gs_shndx s = SHN_UNDEF then None
           else Some (Absolute (gs_value s), Export name)) syms"

definition elf_export_names :: "parsed_elf \<Rightarrow> located" where
  "elf_export_names elf =
     extract_one_table (pelf_syms elf) (pelf_strtab elf) @ extract_one_table (pelf_dynsyms elf) (pelf_dynstrtab elf)"

definition elf_import_names :: "parsed_elf \<Rightarrow> u8 list \<Rightarrow> panic + located" where
  "elf_import_names elf buf =
     map_ok (\<lambda>names. List.map_filter (\<lambda>(sym, offset). map_option (\<lambda>name. (Absolute offset, Import name)) (names sym))
         (pelf_dynrelas elf @ pelf_dynrels elf @ pelf_pltrelocs elf))
       (dynamic_import_symbol_names buf)"

definition elf_section_names :: "parsed_elf \<Rightarrow> located" where
  "elf_section_names elf =
     List.map_filter (\<lambda>s. case pelf_shdr_strtab elf (sh_name s) of
         Some n \<Rightarrow>
           if n \<noteq> [] then Some (Absolute (sh_address s), Section n)
           else if sh_kind s = 0 then Some (Absolute (sh_address s), Section ''NULL'') else None
       | None \<Rightarrow> if sh_kind s = 0 then Some (Absolute (sh_address s), Section ''NULL'') else None)
       (pelf_sections elf)"

definition elf_base_address :: "parsed_elf \<Rightarrow> address" where
  "elf_base_address elf =
     (case find (\<lambda>(kind, _). kind = 1) (pelf_loads elf) of None \<Rightarrow> NoAddress | Some (_, vaddr) \<Rightarrow> Absolute vaddr)"

definition elf_arch :: "nat \<Rightarrow> feature list" where
  "elf_arch machine =
     (if machine = 3 then [Arch ''i386'']
      else if machine = 62 then [Arch ''amd64'']
      else if machine = 40 then [Arch ''arm'']
      else if machine = 183 then [Arch ''aarch64'']
      else [])"

text \<open>goblin's \<^verbatim>\<open>Elf::parse\<close> is \<open>parse_elf\<close>.\<close>

definition extract_elf ::
  "(u8 list \<Rightarrow> string + parsed_elf) \<Rightarrow> digests \<Rightarrow> u8 list \<Rightarrow> panic + (extract_error + static_features)" where
  "extract_elf parse_elf dg buf =
     (case parse_elf buf of
        Inl e \<Rightarrow> Inr (Inl (Parse (''ELF: '' @ e)))
      | Inr elf \<Rightarrow>
          rbind (detect_elf_os buf) (\<lambda>os.
          map_ok (\<lambda>imports.
            Inr \<lparr>st_base_address = elf_base_address elf, st_sample_hashes = sample_hashes_of dg buf,
                 st_global_features = Format ''elf'' # Os os # elf_arch (pelf_machine elf),
                 st_file_features = elf_export_names elf @ imports @ elf_section_names elf @ extract_file_strings buf,
                 st_functions = []\<rparr>) (elf_import_names elf buf)))"

section \<open>Mach-O\<close>

datatype load_command =
    BuildVersion nat
  | VersionMinIphoneos | VersionMinTvos | VersionMinWatchos | VersionMinMacosx
  | Segment64 "u8 list" u64
  | OtherCommand

text \<open>Names and lists that goblin reads on demand are \<open>None\<close> where it fails.\<close>

record parsed_macho =
  pm_commands :: "load_command list"
  pm_segments :: "(string option \<times> (string option \<times> u64) list option) list"
  pm_exports :: "(string \<times> u64) list option"

fun macho_os :: "load_command list \<Rightarrow> string" where
  "macho_os [] = ''macos''"
| "macho_os (BuildVersion p # cs) =
     (if p = 2 then ''ios'' else if p = 3 then ''tvos'' else if p = 4 then ''watchos'' else ''macos'')"
| "macho_os (VersionMinIphoneos # cs) = ''ios''"
| "macho_os (VersionMinTvos # cs) = ''tvos''"
| "macho_os (VersionMinWatchos # cs) = ''watchos''"
| "macho_os (VersionMinMacosx # cs) = ''macos''"
| "macho_os (c # cs) = macho_os cs"

fun arch_feature_name :: "architecture \<Rightarrow> string" where
  "arch_feature_name X64 = ''amd64''"
| "arch_feature_name AArch64 = ''aarch64''"
| "arch_feature_name X86 = ''i386''"

definition macho_global_features :: "parsed_macho \<Rightarrow> architecture \<Rightarrow> feature list" where
  "macho_global_features m ar = [Format ''macho'', Os (macho_os (pm_commands m)), Arch (arch_feature_name ar)]"

definition macho_section_names :: "parsed_macho \<Rightarrow> located" where
  "macho_section_names m =
     concat (map (\<lambda>(segment, secs). case (segment, secs) of
         (Some segment_name, Some ss) \<Rightarrow>
           List.map_filter (\<lambda>(name, addr). map_option (\<lambda>n. (Absolute addr, Section (segment_name @ '','' @ n))) name) ss
       | _ \<Rightarrow> []) (pm_segments m))"

definition strip_c_symbol_prefix :: "string \<Rightarrow> string" where
  "strip_c_symbol_prefix name = (case strip_prefix ''_'' name of None \<Rightarrow> name | Some n \<Rightarrow> n)"

definition macho_import_names :: "loaded_image \<Rightarrow> located" where
  "macho_import_names img =
     concat (map (\<lambda>a. map (\<lambda>n. (Absolute a, Import n)) (the (external_bindings img a)))
       (sorted_list_of_set (dom (external_bindings img))))"

fun image_base_loop :: "load_command list \<Rightarrow> u64 option \<Rightarrow> u64" where
  "image_base_loop [] fallback_min = (case fallback_min of None \<Rightarrow> 0 | Some v \<Rightarrow> v)"
| "image_base_loop (Segment64 segname vmaddr # cs) fallback_min =
     (if take 7 segname = [0x5F, 0x5F, 0x54, 0x45, 0x58, 0x54, 0] then vmaddr
      else image_base_loop cs (Some (case fallback_min of None \<Rightarrow> vmaddr | Some v \<Rightarrow> min v vmaddr)))"
| "image_base_loop (c # cs) fallback_min = image_base_loop cs fallback_min"

definition macho_image_base :: "parsed_macho \<Rightarrow> u64" where
  "macho_image_base m = image_base_loop (pm_commands m) None"

definition macho_export_names :: "parsed_macho \<Rightarrow> located" where
  "macho_export_names m =
     (case pm_exports m of
        None \<Rightarrow> []
      | Some es \<Rightarrow>
          List.map_filter (\<lambda>(name, offset).
            map_option (\<lambda>a. (Absolute a, Export (strip_c_symbol_prefix name))) (checked_add_u64 (macho_image_base m) offset)) es)"

text \<open>
  goblin's \<^verbatim>\<open>MachO::parse\<close> is \<open>parse_macho\<close> and its names of processors \<open>names\<close>;
  \<open>from_macho\<close> is the loader of the image and \<open>show_err\<close> the text of its errors.
\<close>

definition extract_macho ::
  "(u8 list \<Rightarrow> string + parsed_macho) \<Rightarrow> arch_names \<Rightarrow> (u8 list \<Rightarrow> string option \<Rightarrow> image_error + loaded_image)
   \<Rightarrow> (image_error \<Rightarrow> string) \<Rightarrow> digests \<Rightarrow> u8 list \<Rightarrow> string option \<Rightarrow> extract_error + static_features" where
  "extract_macho parse_macho names from_macho show_err dg bytes wanted =
     rbind (map_err (Parse \<circ> show_err) (select_macho_slice names bytes wanted)) (\<lambda>(slice', _).
     rbind (map_err (\<lambda>e. Parse (''Mach-O: '' @ e)) (parse_macho slice')) (\<lambda>m.
     map_ok (\<lambda>img.
       \<lparr>st_base_address = Absolute (macho_image_base m), st_sample_hashes = sample_hashes_of dg bytes,
        st_global_features = macho_global_features m (arch img),
        st_file_features = macho_import_names img @ macho_export_names m @ macho_section_names m @ extract_file_strings slice',
        st_functions = []\<rparr>) (map_err (Parse \<circ> show_err) (from_macho bytes wanted))))"

section \<open>Shellcode\<close>

definition sc_section_names :: located where
  "sc_section_names = [(Absolute SHELLCODE_BASE, Section (''shellcode_0x'' @ show_hex_word SHELLCODE_BASE))]"

definition extract_sc :: "digests \<Rightarrow> u8 list \<Rightarrow> architecture \<Rightarrow> string option \<Rightarrow> static_features" where
  "extract_sc dg buf ar os_override =
     \<lparr>st_base_address = Absolute SHELLCODE_BASE, st_sample_hashes = sample_hashes_of dg buf,
      st_global_features = (case os_override of None \<Rightarrow> [] | Some os \<Rightarrow> [Os os]) @ [Arch (arch_feature_name ar)],
      st_file_features = extract_file_embedded_pe buf @ sc_section_names @ extract_file_strings buf,
      st_functions = []\<rparr>"

end
