(* ===== verification/File_Props.thy ===== *)
theory File_Props
  imports File_Features Insn_Props
begin

text \<open>
  The features of files: those of every format are ones that rules on the file can ask for, and
  the imports of a PE file are exactly the entries of its tables.
\<close>

section \<open>Legality\<close>

lemma file_scope_entry: "scope_entry (Some FileScope) =
    \<lparr>kinds = {MatchedRuleKind, ExportKind, ImportKind, SectionKind, FunctionNameKind, StringFamily, ClassKindF, NamespaceKind,
        OsKind, ArchKind, FormatKind},
     characteristics = {''embedded pe'', ''mixed mode'', ''forwarded export''}\<rparr>"
  unfolding scope_entry_def supported_features_def base_features_def inherit_from_def merge_into_def
  by (simp add: insert_commute)

definition file_feature :: "address \<times> feature \<Rightarrow> bool" where
  "file_feature lf \<longleftrightarrow> legal_at FileScope (snd lf)"

lemma file_feature_simps [simp]:
  "file_feature (a, feature.Export n)" "file_feature (a, Import n)" "file_feature (a, Section n)" "file_feature (a, Str s)"
  "file_feature (a, Characteristic ''embedded pe'')" "file_feature (a, Characteristic ''forwarded export'')"
  by (simp_all add: file_feature_def legal_at_def ensure_feature_valid_for_scopes_def Let_def file_scope_entry no_scope_entry)

lemma global_feature_legal [simp]:
  "legal_at FileScope (Os n)" "legal_at FileScope (Arch n)" "legal_at FileScope (Format n)"
  by (simp_all add: legal_at_def ensure_feature_valid_for_scopes_def Let_def file_scope_entry no_scope_entry)

lemma shared_features_ok:
  "list_all file_feature (extract_file_embedded_pe buf)" "list_all file_feature (extract_file_strings buf)"
  by (auto simp: list_all_iff extract_file_embedded_pe_def extract_file_strings_def)

lemma import_entries_ok: "list_all file_feature (import_entries gl pe buf modname off iat is)"
  by (induction "is") (auto simp: Let_def list_all_iff split: option.splits)

lemma import_directory_ok: "list_all file_feature (import_directory gl pe buf off is)"
  by (induction "is") (auto simp: Let_def library_imports_def import_entries_ok split: option.splits)

lemma pe_features_ok:
  "list_all file_feature (pe_export_names gl pe)" "list_all file_feature (pe_import_names gl pe buf)"
  "list_all file_feature (pe_section_names pe)"
  by (auto simp: list_all_iff pe_export_names_def export_features_def Let_def pe_section_names_def mem_map_filter
      split: option.splits if_splits)
    (auto simp: pe_import_names_def split: option.splits dest!: bspec [OF import_directory_ok [unfolded list_all_iff]])

lemma list_all_map_filter: "(\<And>x y. f x = Some y \<Longrightarrow> P y) \<Longrightarrow> list_all P (List.map_filter f xs)"
  by (auto simp: list_all_iff mem_map_filter)

lemma elf_features_ok:
  "list_all file_feature (elf_export_names elf)" "list_all file_feature (elf_section_names elf)"
  "elf_import_names elf buf = Inr imports \<Longrightarrow> list_all file_feature imports"
proof -
  have "list_all file_feature (extract_one_table syms strs)" for syms strs
    unfolding extract_one_table_def
    by (rule list_all_map_filter, rename_tac x y, case_tac "strs (gs_name x)") (auto split: if_splits)
  then show "list_all file_feature (elf_export_names elf)" by (simp add: elf_export_names_def)
  show "list_all file_feature (elf_section_names elf)"
    unfolding elf_section_names_def
    by (rule list_all_map_filter, rename_tac x y, case_tac "pelf_shdr_strtab elf (sh_name x)") (auto split: if_splits)
  show "list_all file_feature imports" if "elf_import_names elf buf = Inr imports"
    using that by (auto simp: elf_import_names_def map_ok_Inr_iff intro!: list_all_map_filter)
qed

lemma macho_features_ok:
  "list_all file_feature (macho_export_names m)" "list_all file_feature (macho_section_names m)"
  "list_all file_feature (macho_import_names img)"
  by (auto simp: list_all_iff macho_export_names_def macho_section_names_def macho_import_names_def mem_map_filter
      split: option.splits)

text \<open>What every extractor of a file returns: features of the file scope, and no code yet.\<close>

definition file_features_only :: "static_features \<Rightarrow> bool" where
  "file_features_only fz \<longleftrightarrow> list_all (legal_at FileScope) (st_global_features fz)
     \<and> list_all file_feature (st_file_features fz) \<and> st_functions fz = []"

lemma extract_pe_ok: "extract_pe gl dg buf = Inr fz \<Longrightarrow> file_features_only fz"
  by (auto simp: extract_pe_def file_features_only_def machine_arch_def shared_features_ok pe_features_ok split: sum.splits if_splits)

lemma extract_elf_ok: "extract_elf parse dg buf = Inr (Inr fz) \<Longrightarrow> file_features_only fz"
  by (auto simp: extract_elf_def file_features_only_def elf_arch_def shared_features_ok elf_features_ok rbind_Inr_iff map_ok_Inr_iff
      split: sum.splits if_splits)

lemma extract_macho_ok: "extract_macho parse names from_macho show_err dg bytes wanted = Inr fz \<Longrightarrow> file_features_only fz"
  by (auto simp: extract_macho_def file_features_only_def macho_global_features_def shared_features_ok macho_features_ok
      rbind_Inr_iff map_ok_Inr_iff)

lemma extract_sc_ok: "file_features_only (extract_sc dg buf ar os)"
  by (auto simp: extract_sc_def file_features_only_def sc_section_names_def shared_features_ok split: option.splits)

section \<open>Imports of a PE file\<close>

text \<open>
  The tables as data: entry \<open>i\<close> of the directory of libraries, none where it is all zeros or not
  in the file, and entry \<open>j\<close> of a lookup table, likewise.
\<close>

definition directory_entry :: "u8 list \<Rightarrow> nat \<Rightarrow> nat \<Rightarrow> (nat \<times> nat \<times> nat) option" where
  "directory_entry buf tab i =
     (case (pe_read_u32 buf (tab + i * 20), pe_read_u32 buf (tab + i * 20 + 12), pe_read_u32 buf (tab + i * 20 + 16)) of
        (Some ilt, Some nm, Some iat) \<Rightarrow> if ilt = 0 \<and> nm = 0 \<and> iat = 0 then None else Some (ilt, nm, iat)
      | _ \<Rightarrow> None)"

abbreviation entry_width :: "parsed_pe \<Rightarrow> nat" where
  "entry_width pe \<equiv> (if pe_is_64 pe then 8 else 4)"

definition lookup_entry :: "parsed_pe \<Rightarrow> u8 list \<Rightarrow> nat \<Rightarrow> nat \<Rightarrow> nat option" where
  "lookup_entry pe buf off j =
     (case (if pe_is_64 pe then pe_read_u64 buf (off + j * entry_width pe) else pe_read_u32 buf (off + j * entry_width pe)) of
        Some e \<Rightarrow> if e = 0 then None else Some e
      | None \<Rightarrow> None)"

text \<open>What a file imports: the names of an entry of a lookup table of a library of the directory.\<close>

definition library_imports_at :: "pe_lib \<Rightarrow> parsed_pe \<Rightarrow> u8 list \<Rightarrow> nat \<times> nat \<times> nat \<Rightarrow> u64 \<Rightarrow> string \<Rightarrow> bool" where
  "library_imports_at gl pe buf = (\<lambda>(ilt, nm, iat) va n.
     \<exists>noff dll off j e impname.
       rva_to_offset gl pe buf nm = Some noff \<and> read_ascii_cstr buf noff = Some dll
       \<and> rva_to_offset gl pe buf (if ilt = 0 then iat else ilt) = Some off
       \<and> (\<forall>k \<le> j. lookup_entry pe buf off k \<noteq> None) \<and> lookup_entry pe buf off j = Some e
       \<and> pe_import_name gl pe buf e = Some impname \<and> va = pe_image_base pe + of_nat (iat + j * entry_width pe)
       \<and> n \<in> set (generate_symbols (lowercase gl) (strip_last_ext_lower (lowercase gl) dll) impname True))"

definition file_imports :: "pe_lib \<Rightarrow> parsed_pe \<Rightarrow> u8 list \<Rightarrow> u64 \<Rightarrow> string \<Rightarrow> bool" where
  "file_imports gl pe buf va n \<longleftrightarrow>
     (\<exists>oh rva sz tab i entry. pe_optional_header pe = Some oh \<and> import_table oh = Some (rva, sz)
       \<and> rva_to_offset gl pe buf (unat rva) = Some tab \<and> i < unat sz div 20
       \<and> (\<forall>k \<le> i. directory_entry buf tab k \<noteq> None) \<and> directory_entry buf tab i = Some entry
       \<and> library_imports_at gl pe buf entry va n)"

lemma set_takeWhile_upt: "i \<in> set (takeWhile P [0..<n]) \<longleftrightarrow> i < n \<and> (\<forall>k \<le> i. P k)"
proof (induction n)
  case (Suc n)
  show ?case
  proof (cases "\<forall>k < n. P k")
    case True
    then have "takeWhile P ([0..<n] @ [n]) = [0..<n] @ takeWhile P [n]" by (intro takeWhile_append2) simp
    with True show ?thesis by (auto simp: less_Suc_eq dest: le_imp_less_or_eq)
  next
    case False
    then obtain k where k: "k < n" "\<not> P k" by auto
    then have "takeWhile P ([0..<n] @ [n]) = takeWhile P [0..<n]" by (intro takeWhile_append1 [of k]) simp_all
    moreover have "i \<noteq> n \<or> \<not> (\<forall>k \<le> i. P k)" using k by (auto intro: less_imp_le)
    ultimately show ?thesis using Suc.IH by (auto simp: less_Suc_eq)
  qed
qed simp

text \<open>A loop that ends at the first index without an entry sees the indices up to it.\<close>

lemma until_iff:
  assumes "\<And>i. P i \<Longrightarrow> i < b"
  shows "x \<in> set (concat (map f (takeWhile P [0..<min a b]))) \<longleftrightarrow> (\<exists>i < a. (\<forall>k \<le> i. P k) \<and> x \<in> set (f i))"
    and "x \<in> set (concat (map f (takeWhile P [0..<b]))) \<longleftrightarrow> (\<exists>i. (\<forall>k \<le> i. P k) \<and> x \<in> set (f i))"
  using assms by (auto simp: set_takeWhile_upt Bex_def)

definition entry_imports :: "pe_lib \<Rightarrow> parsed_pe \<Rightarrow> u8 list \<Rightarrow> string \<Rightarrow> nat \<Rightarrow> nat \<Rightarrow> nat \<Rightarrow> located" where
  "entry_imports gl pe buf modname off iat j =
     (case Option.bind (lookup_entry pe buf off j) (pe_import_name gl pe buf) of
        None \<Rightarrow> []
      | Some impname \<Rightarrow> map (\<lambda>n. (Absolute (pe_image_base pe + of_nat (iat + j * entry_width pe)), Import n))
          (generate_symbols (lowercase gl) modname impname True))"

lemma entry_imports_iff:
  "(Absolute va, Import n) \<in> set (entry_imports gl pe buf modname off iat j) \<longleftrightarrow>
     (\<exists>e impname. lookup_entry pe buf off j = Some e \<and> pe_import_name gl pe buf e = Some impname
        \<and> va = pe_image_base pe + of_nat (iat + j * entry_width pe)
        \<and> n \<in> set (generate_symbols (lowercase gl) modname impname True))"
proof (cases "lookup_entry pe buf off j")
  case (Some e)
  then show ?thesis by (cases "pe_import_name gl pe buf e") (auto simp: entry_imports_def)
qed (simp add: entry_imports_def)

lemma import_entries_until:
  "import_entries gl pe buf modname off iat js =
     concat (map (entry_imports gl pe buf modname off iat) (takeWhile (\<lambda>j. lookup_entry pe buf off j \<noteq> None) js))"
proof (induction js)
  case (Cons j js)
  show ?case
  proof (cases "if pe_is_64 pe then pe_read_u64 buf (off + j * entry_width pe) else pe_read_u32 buf (off + j * entry_width pe)")
    case None
    then show ?thesis by (simp add: Let_def lookup_entry_def)
  next
    case (Some e)
    then show ?thesis
      using Cons.IH by (cases "e = 0") (simp_all add: Let_def lookup_entry_def entry_imports_def split: option.split)
  qed
qed simp

lemma import_directory_until:
  "import_directory gl pe buf tab is =
     concat (map (\<lambda>i. case directory_entry buf tab i of None \<Rightarrow> [] | Some (ilt, nm, iat) \<Rightarrow> library_imports gl pe buf ilt nm iat)
       (takeWhile (\<lambda>i. directory_entry buf tab i \<noteq> None) is))"
proof (induction "is")
  case (Cons i "is")
  then show ?case by (auto simp: Let_def directory_entry_def DIRECTORY_ENTRY_SIZE_def split: option.split)
qed simp

text \<open>An entry that is read is within the bounds of the loops.\<close>

lemma lookup_entry_bound: "lookup_entry pe buf off j \<noteq> None \<Longrightarrow> j < (length buf - off) div entry_width pe"
  by (auto simp: lookup_entry_def pe_read_u32_def pe_read_u64_def get_range_def less_eq_div_iff_mult_less_eq Suc_le_eq [symmetric]
      split: option.splits if_splits)

lemma directory_entry_bound: "directory_entry buf tab i \<noteq> None \<Longrightarrow> i < (length buf - tab) div 20"
  by (auto simp: directory_entry_def pe_read_u32_def get_range_def less_eq_div_iff_mult_less_eq Suc_le_eq [symmetric]
      split: option.splits if_splits)

lemma library_imports_iff:
  "(Absolute va, Import n) \<in> set (library_imports gl pe buf ilt nm iat) \<longleftrightarrow> library_imports_at gl pe buf (ilt, nm, iat) va n"
proof (cases "Option.bind (rva_to_offset gl pe buf nm) (read_ascii_cstr buf)")
  case (Some dll)
  then obtain noff where noff: "rva_to_offset gl pe buf nm = Some noff" "read_ascii_cstr buf noff = Some dll"
    by (auto simp: bind_eq_Some_conv)
  show ?thesis
  proof (cases "rva_to_offset gl pe buf (if ilt = 0 then iat else ilt)")
    case (Some off)
    have "(Absolute va, Import n) \<in> set (library_imports gl pe buf ilt nm iat) \<longleftrightarrow>
        (\<exists>j. (\<forall>k \<le> j. lookup_entry pe buf off k \<noteq> None)
           \<and> (Absolute va, Import n) \<in> set (entry_imports gl pe buf (strip_last_ext_lower (lowercase gl) dll) off iat j))"
      unfolding library_imports_def
      by (simp only: noff Some import_entries_until option.case bind.simps until_iff(2) [OF lookup_entry_bound])
    also have "\<dots> \<longleftrightarrow> library_imports_at gl pe buf (ilt, nm, iat) va n"
      using noff Some by (auto simp: library_imports_at_def entry_imports_iff)
    finally show ?thesis .
  qed (simp add: library_imports_def library_imports_at_def \<open>Option.bind _ _ = _\<close>)
next
  case None
  then show ?thesis by (cases "rva_to_offset gl pe buf nm") (simp_all add: library_imports_def library_imports_at_def)
qed

text \<open>
  C33: the imports reported for a PE file are exactly those of its tables: the names of every
  entry of the lookup table of every library of the import directory, at the address of the
  entry's slot, up to the entry of zeros or the end of the file, whatever the sizes the headers
  declare beyond it, skipping libraries and entries whose names cannot be read.
\<close>

theorem pe_imports_exact:
  "(Absolute va, Import n) \<in> set (pe_import_names gl pe buf) \<longleftrightarrow> file_imports gl pe buf va n"
proof (cases "Option.bind (pe_optional_header pe) import_table")
  case (Some dir)
  then obtain oh rva sz where oh: "pe_optional_header pe = Some oh" "import_table oh = Some (rva, sz)" "dir = (rva, sz)"
    by (cases dir) (auto simp: bind_eq_Some_conv)
  show ?thesis
  proof (cases "rva_to_offset gl pe buf (unat rva)")
    case (Some tab)
    let ?f = "\<lambda>i. case directory_entry buf tab i of None \<Rightarrow> [] | Some (ilt, nm, iat) \<Rightarrow> library_imports gl pe buf ilt nm iat"
    have "(Absolute va, Import n) \<in> set (pe_import_names gl pe buf) \<longleftrightarrow>
        (\<exists>i < unat sz div 20. (\<forall>k \<le> i. directory_entry buf tab k \<noteq> None) \<and> (Absolute va, Import n) \<in> set (?f i))"
      unfolding pe_import_names_def
      by (simp only: oh Some import_directory_until option.case bind.simps prod.case DIRECTORY_ENTRY_SIZE_def
          until_iff(1) [OF directory_entry_bound])
    also have "\<dots> \<longleftrightarrow> (\<exists>i < unat sz div 20. \<exists>entry. (\<forall>k \<le> i. directory_entry buf tab k \<noteq> None)
        \<and> directory_entry buf tab i = Some entry \<and> library_imports_at gl pe buf entry va n)"
      by (intro ex_cong1 conj_cong refl) (auto simp: library_imports_iff split: option.split)
    finally have "(Absolute va, Import n) \<in> set (pe_import_names gl pe buf) \<longleftrightarrow>
        (\<exists>i entry. i < unat sz div 20 \<and> (\<forall>k \<le> i. directory_entry buf tab k \<noteq> None)
          \<and> directory_entry buf tab i = Some entry \<and> library_imports_at gl pe buf entry va n)" by blast
    then show ?thesis using oh Some by (simp add: file_imports_def)
  qed (use oh in \<open>simp add: pe_import_names_def file_imports_def\<close>)
next
  case None
  then show ?thesis by (cases "pe_optional_header pe") (simp_all add: pe_import_names_def file_imports_def)
qed

end
