(* ===== verification/Freeze_Read.thy ===== *)
theory Freeze_Read
  imports Freeze Btree Elf_Bytes
begin

text \<open>
  \<^verbatim>\<open>capa-x/src/freeze.rs\<close>, the reader of frozen features. serde's deserialisation of a text
  to the raw structures, the decompressor and the debug form of JSON values are parameters; the
  raw structures, and what becomes of them, are those of the source.
\<close>

section \<open>JSON values\<close>

datatype json_number = PosInt u64 | NegInt int | JFloat f64

datatype json =
    JNull
  | JBool bool
  | JNumber json_number
  | JString string
  | JArray "json list"
  | JObject "(string \<times> json) list"

text \<open>\<^verbatim>\<open>Value::as_u64\<close>, \<^verbatim>\<open>as_i64\<close>, \<^verbatim>\<open>as_str\<close> and \<^verbatim>\<open>as_array\<close>.\<close>

definition json_u64 :: "json \<Rightarrow> u64 option" where
  "json_u64 v = (case v of JNumber (PosInt n) \<Rightarrow> Some n | _ \<Rightarrow> None)"

definition json_i64 :: "json \<Rightarrow> int option" where
  "json_i64 v =
     (case v of
        JNumber (PosInt n) \<Rightarrow> if uint n < 2 ^ 63 then Some (uint n) else None
      | JNumber (NegInt i) \<Rightarrow> Some i
      | _ \<Rightarrow> None)"

definition json_str :: "json \<Rightarrow> string option" where
  "json_str v = (case v of JString s \<Rightarrow> Some s | _ \<Rightarrow> None)"

definition json_array :: "json \<Rightarrow> json list option" where
  "json_array v = (case v of JArray a \<Rightarrow> Some a | _ \<Rightarrow> None)"

section \<open>Raw structures\<close>

datatype freeze_error =
    MissingMagic
  | Zlib string
  | Utf8 string
  | Json string
  | UnsupportedVersion u32
  | UnsupportedFlavor string
  | Invalid string

record raw_address =
  rw_kind :: string
  rw_value :: json

record raw_feature =
  rf_kind :: string
  rf_rest :: "string \<rightharpoonup> json"

type_synonym raw_located = "(raw_address \<times> raw_feature) list"

record raw_instruction =
  ri_address :: raw_address
  ri_features :: raw_located

record raw_block =
  rb_address :: raw_address
  rb_features :: raw_located
  rb_instructions :: "raw_instruction list"

record raw_function =
  rfn_address :: raw_address
  rfn_features :: raw_located
  rfn_blocks :: "raw_block list"

record raw_static =
  rs_global :: "raw_feature list"
  rs_file :: raw_located
  rs_functions :: "raw_function list"

record raw_call =
  rc_address :: raw_address
  rc_name :: string
  rc_features :: raw_located

record raw_thread =
  rt_address :: raw_address
  rt_features :: raw_located
  rt_calls :: "raw_call list"

record raw_process =
  rp_address :: raw_address
  rp_name :: string
  rp_features :: raw_located
  rp_threads :: "raw_thread list"

record raw_dynamic =
  rd_global :: "raw_feature list"
  rd_file :: raw_located
  rd_processes :: "raw_process list"

record raw_freeze =
  rz_version :: u32
  rz_base_address :: raw_address
  rz_hashes :: sample_hashes
  rz_flavor :: string
  rz_features :: json

datatype frozen = StaticFreeze static_features | DynamicFreeze dynamic_features

record freeze_lib =
  inflate :: "u8 list \<Rightarrow> string + u8 list"
  utf8_failure :: "u8 list \<Rightarrow> string"
  json_freeze :: "string \<Rightarrow> string + raw_freeze"
  json_static :: "json \<Rightarrow> string + raw_static"
  json_dynamic :: "json \<Rightarrow> string + raw_dynamic"
  json_debug :: "json \<Rightarrow> string"

section \<open>Addresses\<close>

definition as_u64 :: "json \<Rightarrow> string \<Rightarrow> freeze_error + u64" where
  "as_u64 v ctx = ok_or (Invalid (ctx @ '': expected a non-negative integer'')) (json_u64 v)"

definition json_u32 :: "json \<Rightarrow> u32 option" where
  "json_u32 v = (case json_u64 v of Some n \<Rightarrow> if unat n < 2 ^ 32 then Some (ucast n) else None | None \<Rightarrow> None)"

definition as_u32_tuple :: "nat \<Rightarrow> json \<Rightarrow> string \<Rightarrow> freeze_error + u32 list" where
  "as_u32_tuple n v ctx =
     (case json_array v of
        Some arr \<Rightarrow>
          if length arr = n then traverse (\<lambda>item. ok_or (Invalid (ctx @ '': tuple element out of range'')) (json_u32 item)) arr
          else Inl (Invalid (ctx @ '': expected a '' @ show_nat n @ ''-tuple''))
      | None \<Rightarrow> Inl (Invalid (ctx @ '': expected a '' @ show_nat n @ ''-tuple'')))"

definition call_to_capa :: "json \<Rightarrow> freeze_error + address" where
  "call_to_capa v =
     (case json_array v of
        Some [a, b, c, d] \<Rightarrow>
          (let field = (\<lambda>x. ok_or (Invalid ''call address: tuple element out of range'') (json_u32 x))
           in rbind (field a) (\<lambda>ppid. rbind (field b) (\<lambda>pid. rbind (field c) (\<lambda>tid.
              map_ok (Call ppid pid tid) (ok_or (Invalid ''call address: id out of range'') (json_u64 d))))))
      | _ \<Rightarrow> Inl (Invalid ''call address: expected a 4-tuple''))"

definition address_to_capa :: "raw_address \<Rightarrow> freeze_error + address" where
  "address_to_capa a =
     (let k = rw_kind a; v = rw_value a
      in if k = ''absolute'' then map_ok Absolute (as_u64 v ''absolute address'')
         else if k = ''relative'' then map_ok Relative (as_u64 v ''relative address'')
         else if k = ''file'' then map_ok File (as_u64 v ''file address'')
         else if k = ''dn token'' then
           rbind (as_u64 v ''dn token address'') (\<lambda>n.
             if unat n < 2 ^ 32 then Inr (DnToken (ucast n)) else Inl (Invalid ''dn token value out of range''))
         else if k = ''dn token offset'' then
           map_ok (\<lambda>t. DnTokenOffset (t ! 0) (t ! 1)) (as_u32_tuple 2 v ''dn token offset address'')
         else if k = ''process'' then map_ok (\<lambda>t. Process (t ! 0) (t ! 1)) (as_u32_tuple 2 v ''process address'')
         else if k = ''thread'' then map_ok (\<lambda>t. Thread (t ! 0) (t ! 1) (t ! 2)) (as_u32_tuple 3 v ''thread address'')
         else if k = ''call'' then call_to_capa v
         else if k = ''no address'' then Inr NoAddress
         else Inl (Invalid (''unknown address type: '' @ k)))"

section \<open>Features\<close>

definition rf_field :: "raw_feature \<Rightarrow> string \<Rightarrow> freeze_error + json" where
  "rf_field f key = ok_or (Invalid (''feature '' @ rf_kind f @ '': missing '' @ key)) (rf_rest f key)"

definition str_field :: "raw_feature \<Rightarrow> string \<Rightarrow> freeze_error + string" where
  "str_field f key =
     rbind (rf_field f key) (\<lambda>v.
       ok_or (Invalid (''feature '' @ rf_kind f @ '': '' @ key @ '' must be a string'')) (json_str v))"

text \<open>Integers are read as signed, then as unsigned 64-bit numbers.\<close>

definition json_int :: "json \<Rightarrow> int option" where
  "json_int v = (case json_i64 v of Some n \<Rightarrow> Some n | None \<Rightarrow> map_option uint (json_u64 v))"

definition int_field :: "raw_feature \<Rightarrow> string \<Rightarrow> freeze_error + int" where
  "int_field f key =
     rbind (rf_field f key) (\<lambda>v.
       ok_or (Invalid (''feature '' @ rf_kind f @ '': '' @ key @ '' must be an integer'')) (json_int v))"

definition number_field :: "raw_feature \<Rightarrow> string \<Rightarrow> freeze_error + number_value" where
  "number_field f key =
     rbind (rf_field f key) (\<lambda>v.
       case json_int v of
         Some n \<Rightarrow> Inr (NInt n)
       | None \<Rightarrow>
           (case v of
              JNumber (JFloat x) \<Rightarrow> Inr (NFloat x)
            | _ \<Rightarrow> Inl (Invalid (''feature '' @ rf_kind f @ '': '' @ key @ '' must be a number''))))"

definition check_description :: "freeze_lib \<Rightarrow> raw_feature \<Rightarrow> freeze_error + unit" where
  "check_description fl f =
     (case rf_rest f ''description'' of
        None \<Rightarrow> Inr ()
      | Some JNull \<Rightarrow> Inr ()
      | Some (JString _) \<Rightarrow> Inr ()
      | Some other \<Rightarrow>
          Inl (Invalid (''feature '' @ rf_kind f @ '': description must be a string or null, got '' @ json_debug fl other)))"

definition int_offset :: "raw_feature \<Rightarrow> string \<Rightarrow> freeze_error + int" where
  "int_offset f key =
     rbind (int_field f key) (\<lambda>n.
       if - (2 ^ 63) \<le> n \<and> n < 2 ^ 63 then Inr n else Inl (Invalid (key @ '' out of range: '' @ show_int n)))"

definition operand_index :: "raw_feature \<Rightarrow> freeze_error + u8" where
  "operand_index f =
     rbind (int_field f ''index'') (\<lambda>n.
       if n < 0 \<or> uint MAX_OPERAND_INDEX < n then Inl (Invalid (''operand index out of range: '' @ show_int n))
       else Inr (word_of_int n))"

definition access_to_capa :: "freeze_lib \<Rightarrow> raw_feature \<Rightarrow> freeze_error + access option" where
  "access_to_capa fl f =
     (case rf_rest f ''access'' of
        None \<Rightarrow> Inr None
      | Some JNull \<Rightarrow> Inr None
      | Some (JString s) \<Rightarrow> map_ok Some (ok_or (Invalid (''property: unknown access '' @ s)) (access_parse s))
      | Some other \<Rightarrow> Inl (Invalid (''property: access must be a string or null, got '' @ json_debug fl other)))"

definition feature_of_kind :: "regex_lib \<Rightarrow> freeze_lib \<Rightarrow> raw_feature \<Rightarrow> freeze_error + feature" where
  "feature_of_kind rx fl f =
     (let k = rf_kind f
      in if k = ''os'' then map_ok Os (str_field f ''os'')
         else if k = ''arch'' then map_ok Arch (str_field f ''arch'')
         else if k = ''format'' then map_ok Format (str_field f ''format'')
         else if k = ''match'' then map_ok MatchedRule (str_field f ''match'')
         else if k = ''characteristic'' then map_ok Characteristic (str_field f ''characteristic'')
         else if k = ''export'' then map_ok Export (str_field f ''export'')
         else if k = ''import'' then map_ok Import (str_field f ''import_'')
         else if k = ''section'' then map_ok Section (str_field f ''section'')
         else if k = ''function name'' then map_ok FunctionName (str_field f ''function_name'')
         else if k = ''substring'' then map_ok (Str \<circ> Substring) (str_field f ''substring'')
         else if k = ''regex'' then
           rbind (str_field f ''regex'') (\<lambda>s. map_ok (Str \<circ> Regex) (map_err Invalid (regex_compile rx s)))
         else if k = ''string'' then map_ok (Str \<circ> Plain) (str_field f ''string'')
         else if k = ''class'' then map_ok Class (str_field f ''class_'')
         else if k = ''namespace'' then map_ok Namespace (str_field f ''namespace'')
         else if k = ''basic block'' then Inr BasicBlock
         else if k = ''api'' then map_ok Api (str_field f ''api'')
         else if k = ''property'' then rbind (str_field f ''property'') (\<lambda>n. map_ok (Property n) (access_to_capa fl f))
         else if k = ''number'' then map_ok Number (number_field f ''number'')
         else if k = ''bytes'' then
           rbind (str_field f ''bytes'') (\<lambda>s.
             map_ok Bytes (map_err (\<lambda>_. Invalid (''bytes: not a valid hex string: '' @ s)) (hex_decode s)))
         else if k = ''offset'' then map_ok Offset (int_offset f ''offset'')
         else if k = ''mnemonic'' then map_ok Mnemonic (str_field f ''mnemonic'')
         else if k = ''operand number'' then
           rbind (operand_index f) (\<lambda>i. map_ok (OperandNumber i) (number_field f ''operand_number''))
         else if k = ''operand offset'' then
           rbind (operand_index f) (\<lambda>i. map_ok (OperandOffset i) (int_offset f ''operand_offset''))
         else Inl (Invalid (''unknown freeze feature type: '' @ k)))"

definition feature_to_capa :: "regex_lib \<Rightarrow> freeze_lib \<Rightarrow> raw_feature \<Rightarrow> freeze_error + feature" where
  "feature_to_capa rx fl f = rbind (check_description fl f) (\<lambda>_. feature_of_kind rx fl f)"

section \<open>Trees of features\<close>

definition located_to_capa :: "regex_lib \<Rightarrow> freeze_lib \<Rightarrow> raw_located \<Rightarrow> freeze_error + located" where
  "located_to_capa rx fl =
     traverse (\<lambda>(a, f). rbind (address_to_capa a) (\<lambda>a. map_ok (Pair a) (feature_to_capa rx fl f)))"

text \<open>
  Converting the children of a node and collecting them into a map by their addresses, up to
  the first error; of two children at one address the later stays.
\<close>

definition tree_to_capa :: "('r \<Rightarrow> raw_address) \<Rightarrow> ('r \<Rightarrow> freeze_error + 'a) \<Rightarrow> 'r list \<Rightarrow> freeze_error + (address \<times> 'a) list" where
  "tree_to_capa addr conv rs =
     map_ok (\<lambda>es. fold (\<lambda>e. bt_insert (fst e) (snd e)) es [])
       (traverse (\<lambda>r. rbind (address_to_capa (addr r)) (\<lambda>a. map_ok (Pair a) (conv r))) rs)"

definition instruction_to_capa :: "regex_lib \<Rightarrow> freeze_lib \<Rightarrow> raw_instruction \<Rightarrow> freeze_error + instruction_features" where
  "instruction_to_capa rx fl r = map_ok (\<lambda>fs. \<lparr>insn_features = fs\<rparr>) (located_to_capa rx fl (ri_features r))"

definition block_to_capa :: "regex_lib \<Rightarrow> freeze_lib \<Rightarrow> raw_block \<Rightarrow> freeze_error + basic_block_features" where
  "block_to_capa rx fl r =
     rbind (located_to_capa rx fl (rb_features r)) (\<lambda>fs.
       map_ok (\<lambda>is. \<lparr>bb_features = fs, instructions = is\<rparr>)
         (tree_to_capa ri_address (instruction_to_capa rx fl) (rb_instructions r)))"

definition function_to_capa :: "regex_lib \<Rightarrow> freeze_lib \<Rightarrow> raw_function \<Rightarrow> freeze_error + function_features" where
  "function_to_capa rx fl r =
     rbind (located_to_capa rx fl (rfn_features r)) (\<lambda>fs.
       map_ok (\<lambda>bs. \<lparr>fn_features = fs, basic_blocks = bs\<rparr>)
         (tree_to_capa rb_address (block_to_capa rx fl) (rfn_blocks r)))"

definition freeze_call_to_capa :: "regex_lib \<Rightarrow> freeze_lib \<Rightarrow> raw_call \<Rightarrow> freeze_error + call_features" where
  "freeze_call_to_capa rx fl r =
     map_ok (\<lambda>fs. \<lparr>call_name = rc_name r, cl_features = fs\<rparr>) (located_to_capa rx fl (rc_features r))"

definition thread_to_capa :: "regex_lib \<Rightarrow> freeze_lib \<Rightarrow> raw_thread \<Rightarrow> freeze_error + thread_features" where
  "thread_to_capa rx fl r =
     rbind (located_to_capa rx fl (rt_features r)) (\<lambda>fs.
       map_ok (\<lambda>cs. \<lparr>th_features = fs, calls = cs\<rparr>)
         (tree_to_capa rc_address (freeze_call_to_capa rx fl) (rt_calls r)))"

definition process_to_capa :: "regex_lib \<Rightarrow> freeze_lib \<Rightarrow> raw_process \<Rightarrow> freeze_error + process_features" where
  "process_to_capa rx fl r =
     rbind (located_to_capa rx fl (rp_features r)) (\<lambda>fs.
       map_ok (\<lambda>ts. \<lparr>process_name = rp_name r, pr_features = fs, threads = ts\<rparr>)
         (tree_to_capa rt_address (thread_to_capa rx fl) (rp_threads r)))"

section \<open>Documents\<close>

definition FREEZE_MAGIC :: "u8 list" where
  "FREEZE_MAGIC = [0x63, 0x61, 0x70, 0x61, 0x30, 0x30, 0x30, 0x30]"

definition CURRENT_VERSION :: u32 where
  "CURRENT_VERSION = 3"

definition is_freeze :: "u8 list \<Rightarrow> bool" where
  "is_freeze buf = (take (length FREEZE_MAGIC) buf = FREEZE_MAGIC)"

definition static_to_capa ::
  "regex_lib \<Rightarrow> freeze_lib \<Rightarrow> address \<Rightarrow> sample_hashes \<Rightarrow> raw_static \<Rightarrow> freeze_error + static_features" where
  "static_to_capa rx fl base hashes r =
     rbind (traverse (feature_to_capa rx fl) (rs_global r)) (\<lambda>globals.
     rbind (located_to_capa rx fl (rs_file r)) (\<lambda>fs.
     map_ok (\<lambda>fns. \<lparr>st_base_address = base, st_sample_hashes = hashes, st_global_features = globals,
                    st_file_features = fs, st_functions = fns\<rparr>)
       (tree_to_capa rfn_address (function_to_capa rx fl) (rs_functions r))))"

definition dynamic_to_capa ::
  "regex_lib \<Rightarrow> freeze_lib \<Rightarrow> address \<Rightarrow> sample_hashes \<Rightarrow> raw_dynamic \<Rightarrow> freeze_error + dynamic_features" where
  "dynamic_to_capa rx fl base hashes r =
     rbind (traverse (feature_to_capa rx fl) (rd_global r)) (\<lambda>globals.
     rbind (located_to_capa rx fl (rd_file r)) (\<lambda>fs.
     map_ok (\<lambda>ps. \<lparr>dy_base_address = base, dy_sample_hashes = hashes, dy_global_features = globals,
                    dy_file_features = fs, processes = ps\<rparr>)
       (tree_to_capa rp_address (process_to_capa rx fl) (rd_processes r))))"

definition loads :: "regex_lib \<Rightarrow> freeze_lib \<Rightarrow> string \<Rightarrow> freeze_error + frozen" where
  "loads rx fl s =
     rbind (map_err Json (json_freeze fl s)) (\<lambda>env.
       if rz_version env \<noteq> CURRENT_VERSION then Inl (UnsupportedVersion (rz_version env))
       else
         rbind (address_to_capa (rz_base_address env)) (\<lambda>base.
           if rz_flavor env = ''static'' then
             rbind (map_err Json (json_static fl (rz_features env))) (\<lambda>r.
               map_ok StaticFreeze (static_to_capa rx fl base (rz_hashes env) r))
           else if rz_flavor env = ''dynamic'' then
             rbind (map_err Json (json_dynamic fl (rz_features env))) (\<lambda>r.
               map_ok DynamicFreeze (dynamic_to_capa rx fl base (rz_hashes env) r))
           else Inl (UnsupportedFlavor (rz_flavor env))))"

definition load :: "regex_lib \<Rightarrow> freeze_lib \<Rightarrow> u8 list \<Rightarrow> freeze_error + frozen" where
  "load rx fl buf =
     (if \<not> is_freeze buf then Inl MissingMagic
      else
        rbind (map_err Zlib (inflate fl (drop (length FREEZE_MAGIC) buf))) (\<lambda>out.
        rbind (ok_or (Utf8 (utf8_failure fl out)) (from_utf8 out)) (\<lambda>s. loads rx fl s)))"

end
