(* ===== verification/Flirt.thy ===== *)
theory Flirt
  imports Views Ordinals
begin

text \<open>
  \<^verbatim>\<open>capa-x/src/extract/recovery/flirt.rs\<close>: recognition of library functions by signatures.
  Parsing signature files and the checks of a signature behind its leading bytes belong to the
  library lancelot-flirt, whose operations are the fields of \<open>flirt_lib\<close>; \<open>None\<close> is a panic
  of the library, which the sources catch. The depth of the call stack is the first argument
  of \<open>match_function\<close>, and \<open>Inl None\<close> the result when it does not suffice.
\<close>

unbundle bit_operations_syntax

section \<open>Signatures\<close>

text \<open>Offsets are 64-bit signed integers; \<open>sig_rest\<close> holds the fields that only the library reads.\<close>

record flirt_name =
  fn_offset :: int
  fn_name :: string

datatype flirt_symbol = Public flirt_name | Local flirt_name | Reference flirt_name

datatype sig_element = SigByte u8 | Wildcard

record 'r flirt_signature =
  byte_sig :: "sig_element list"
  sig_names :: "flirt_symbol list"
  sig_rest :: 'r

record 'r flirt_lib =
  match_crc16 :: "'r flirt_signature \<Rightarrow> u8 list \<Rightarrow> bool option"
  match_tail_bytes :: "'r flirt_signature \<Rightarrow> u8 list \<Rightarrow> bool option"
  match_footer :: "'r flirt_signature \<Rightarrow> u8 list \<Rightarrow> bool option"
  set_match :: "'r flirt_signature list \<Rightarrow> u8 list \<Rightarrow> 'r flirt_signature list option"
  sig_parse :: "u8 list \<Rightarrow> (string + 'r flirt_signature list) option"
  pat_parse :: "u8 list \<Rightarrow> (string + 'r flirt_signature list) option"

definition PREFIX_LEN :: nat where
  "PREFIX_LEN = 8"

definition MATCH_WINDOW :: nat where
  "MATCH_WINDOW = 0x10000"

definition effective_head_len :: "'r flirt_signature \<Rightarrow> nat" where
  "effective_head_len s = length (byte_sig s)"

definition signature_prefix :: "'r flirt_signature \<Rightarrow> u8 \<times> u8 \<times> u64" where
  "signature_prefix s =
     (let head_len = min (effective_head_len s) PREFIX_LEN;
          (msk, val) = fold (\<lambda>(index, element) (msk, val).
            case element of
              SigByte b \<Rightarrow> (msk OR push_bit index 1, val OR push_bit (index * 8) (ucast b))
            | Wildcard \<Rightarrow> (msk, val)) (List.enumerate 0 (take head_len (byte_sig s))) (0, 0)
      in (of_nat head_len, msk, val))"

definition masked_prefix_value :: "u8 list \<Rightarrow> u8 \<Rightarrow> u64" where
  "masked_prefix_value bytes msk =
     fold (\<lambda>(index, b) val. val OR push_bit (index * 8) (ucast b))
       (filter (\<lambda>(index, _). msk AND push_bit index 1 \<noteq> 0) (List.enumerate 0 bytes)) 0"

fun element_matches :: "sig_element \<Rightarrow> u8 \<Rightarrow> bool" where
  "element_matches (SigByte expected) b \<longleftrightarrow> expected = b"
| "element_matches Wildcard b \<longleftrightarrow> True"

definition signature_head_matches :: "'r flirt_signature \<Rightarrow> u8 list \<Rightarrow> bool" where
  "signature_head_matches s bytes \<longleftrightarrow>
     (let head_len = effective_head_len s
      in head_len \<le> length bytes
         \<and> list_all (\<lambda>(element, b). element_matches element b) (zip (take head_len (byte_sig s)) bytes))"

section \<open>The matcher\<close>

record 'r signature_matcher =
  signatures :: "'r flirt_signature list"
  prefix_shapes :: "(u8 \<times> u8) list"
  prefixes :: "u8 \<times> u8 \<times> u64 \<rightharpoonup> nat list"

definition index_signature ::
  "nat \<times> 'r flirt_signature \<Rightarrow> (u8 \<times> u8) set \<times> (u8 \<times> u8 \<times> u64 \<rightharpoonup> nat list)
   \<Rightarrow> (u8 \<times> u8) set \<times> (u8 \<times> u8 \<times> u64 \<rightharpoonup> nat list)" where
  "index_signature e st =
     (case signature_prefix (snd e) of
        (len, msk, val) \<Rightarrow>
          (insert (len, msk) (fst st),
           (snd st)((len, msk, val) \<mapsto>
              (case snd st (len, msk, val) of None \<Rightarrow> [] | Some indices \<Rightarrow> indices) @ [fst e])))"

definition with_signatures :: "'r flirt_signature list \<Rightarrow> 'r signature_matcher" where
  "with_signatures sigs =
     (let (shapes, ps) = fold index_signature (List.enumerate 0 sigs) ({}, Map.empty)
      in \<lparr>signatures = sigs, prefix_shapes = sorted_list_of_set shapes, prefixes = ps\<rparr>)"

definition shape_candidates :: "'r signature_matcher \<Rightarrow> u8 list \<Rightarrow> u8 \<times> u8 \<Rightarrow> nat list" where
  "shape_candidates sm bytes shape =
     (case shape of
        (len, msk) \<Rightarrow>
          if length bytes < unat len then []
          else (case prefixes sm (len, msk, masked_prefix_value (take (unat len) bytes) msk) of
                  None \<Rightarrow> []
                | Some indices \<Rightarrow> indices))"

text \<open>The checks of a candidate in their order; a panic of one ends the search.\<close>

definition and_then :: "bool option \<Rightarrow> bool option \<Rightarrow> bool option" where
  "and_then a b = (case a of Some True \<Rightarrow> b | _ \<Rightarrow> a)"

definition passes_checks :: "'r flirt_lib \<Rightarrow> u8 list \<Rightarrow> 'r flirt_signature \<Rightarrow> bool option" where
  "passes_checks lib bytes s =
     and_then (Some (signature_head_matches s bytes))
       (and_then (match_crc16 lib s bytes) (and_then (match_tail_bytes lib s bytes) (match_footer lib s bytes)))"

fun filter_checked :: "('a \<Rightarrow> bool option) \<Rightarrow> 'a list \<Rightarrow> 'a list option" where
  "filter_checked p [] = Some []"
| "filter_checked p (x # xs) =
     (case p x of
        None \<Rightarrow> None
      | Some ok \<Rightarrow> map_option (\<lambda>ys. if ok then x # ys else ys) (filter_checked p xs))"

definition sm_match :: "'r flirt_lib \<Rightarrow> 'r signature_matcher \<Rightarrow> u8 list \<Rightarrow> 'r flirt_signature list option" where
  "sm_match lib sm bytes =
     (let candidates = remdups (sort (concat (map (shape_candidates sm bytes) (prefix_shapes sm))))
      in filter_checked (passes_checks lib bytes)
           (List.map_filter (\<lambda>index. if index < length (signatures sm) then Some (signatures sm ! index) else None)
              candidates))"

definition is_displaced_local :: "flirt_symbol \<Rightarrow> bool" where
  "is_displaced_local symbol = (case symbol of Local name \<Rightarrow> fn_offset name \<noteq> 0 | _ \<Rightarrow> False)"

definition has_local_candidate :: "'r signature_matcher \<Rightarrow> u8 list \<Rightarrow> bool" where
  "has_local_candidate sm bytes \<longleftrightarrow>
     list_ex (\<lambda>shape. list_ex (\<lambda>index.
         index < length (signatures sm) \<and> list_ex is_displaced_local (sig_names (signatures sm ! index)))
       (shape_candidates sm bytes shape)) (prefix_shapes sm)"

section \<open>Databases\<close>

text \<open>A path is the string it displays as; \<open>file_name\<close> gives its last component, empty if it has none.\<close>

record 'r signature_database =
  db_path :: string
  matcher :: "'r signature_matcher"

definition is_supported_signature :: "(string \<Rightarrow> string) \<Rightarrow> string \<Rightarrow> bool" where
  "is_supported_signature file_name path \<longleftrightarrow>
     (let name = to_ascii_lowercase (file_name path)
      in ends_with name ''.sig'' \<or> ends_with name ''.pat'' \<or> ends_with name ''.pat.gz'')"

text \<open>
  The text of a PAT file, with the decoding of UTF-8 and the replacement of line ends in
  \<open>pat_parse\<close>; a panic of a parser is an error of the file.
\<close>

definition parse_database ::
  "'r flirt_lib \<Rightarrow> (string \<Rightarrow> string) \<Rightarrow> string \<Rightarrow> u8 list \<Rightarrow> flirt_error + 'r signature_database" where
  "parse_database lib file_name path bytes =
     (case (if ends_with (to_ascii_lowercase (file_name path)) ''.sig'' then sig_parse lib bytes else pat_parse lib bytes) of
        None \<Rightarrow> Inl (Parse path ''parser panicked'')
      | Some (Inl error) \<Rightarrow> Inl (Parse path error)
      | Some (Inr parsed) \<Rightarrow> Inr \<lparr>db_path = path, matcher = with_signatures parsed\<rparr>)"

text \<open>Reading a file, with what \<^verbatim>\<open>fs::read\<close> and the gzip decoder return as arguments.\<close>

definition read_signature_file ::
  "(string \<Rightarrow> string) \<Rightarrow> (string \<Rightarrow> string + u8 list) \<Rightarrow> (u8 list \<Rightarrow> string + u8 list) \<Rightarrow> string
   \<Rightarrow> flirt_error + u8 list" where
  "read_signature_file file_name read_bytes gunzip path =
     rbind (map_err (Io path) (read_bytes path)) (\<lambda>bytes.
       if \<not> ends_with (to_ascii_lowercase (file_name path)) ''.pat.gz'' then Inr bytes
       else map_err (\<lambda>error. Parse path (''decompressing gzip data: '' @ error)) (gunzip bytes))"

definition from_paths ::
  "'r flirt_lib \<Rightarrow> (string \<Rightarrow> string) \<Rightarrow> (string \<Rightarrow> bool) \<Rightarrow> (string \<Rightarrow> string + u8 list) \<Rightarrow> (u8 list \<Rightarrow> string + u8 list)
   \<Rightarrow> string list \<Rightarrow> flirt_error + 'r signature_database list" where
  "from_paths lib file_name path_exists read_bytes gunzip paths =
     traverse (\<lambda>path.
       if \<not> path_exists path then Inl (MissingPath path)
       else if \<not> is_supported_signature file_name path then Inl (UnsupportedExtension path)
       else rbind (read_signature_file file_name read_bytes gunzip path) (parse_database lib file_name path)) paths"

section \<open>Matching a function\<close>

definition symbol_name :: "flirt_symbol \<Rightarrow> flirt_name" where
  "symbol_name symbol = (case symbol of Public name \<Rightarrow> name | Local name \<Rightarrow> name | Reference name \<Rightarrow> name)"

definition root_name :: "'r flirt_signature \<Rightarrow> string option" where
  "root_name s = map_option (fn_name \<circ> symbol_name) (find (\<lambda>symbol. fn_offset (symbol_name symbol) = 0) (sig_names s))"

datatype cache_entry = Visiting_Function | Complete "string option"

text \<open>What a matcher reads, and what it writes.\<close>

record ('d, 'r) matcher_state =
  ms_analysis :: "'d analysis"
  ms_database :: "'r signature_database"
  code_xrefs_from :: "(u64, u64 list) btree option"
  data_xrefs_from :: "(u64, u64 list) btree option"
  ms_function_order :: nat
  ms_location_count :: nat

record match_memo =
  recognized :: "(u64, string) btree"
  cache :: "(u64, cache_entry) btree"
  local_starts :: "u64 set"

type_synonym 'a matched = "flirt_error option + 'a \<times> match_memo"

definition function_exists :: "('d, 'r) matcher_state \<Rightarrow> u64 \<Rightarrow> bool" where
  "function_exists st address \<longleftrightarrow>
     bt_contains (an_functions (ms_analysis st)) address
     \<and> (case bt_get (function_order (ms_analysis st)) address of
          None \<Rightarrow> True
        | Some order \<Rightarrow> order \<le> ms_function_order st)"

definition containing_instruction :: "'d analysis \<Rightarrow> u64 \<Rightarrow> u64 option" where
  "containing_instruction an address =
     (let below = filter (\<lambda>e. fst e \<le> address) (an_instructions an)
      in if below = [] then None
         else case last below of
                (start, insn) \<Rightarrow>
                  (case checked_add_u64 start (of_nat (length (insn_bytes insn))) of
                     None \<Rightarrow> None
                   | Some e \<Rightarrow> if address < e then Some start else None))"

definition visible_instruction :: "('d, 'r) matcher_state \<Rightarrow> u64 \<Rightarrow> u64 option" where
  "visible_instruction st address =
     (case containing_instruction (ms_analysis st) address of
        None \<Rightarrow> None
      | Some start \<Rightarrow>
          (case bt_get (instruction_order (ms_analysis st)) start of
             None \<Rightarrow> Some start
           | Some order \<Rightarrow> if order < ms_location_count st then Some start else None))"

definition name_address :: "u64 \<Rightarrow> flirt_name \<Rightarrow> u64 option" where
  "name_address base name =
     (if 0 \<le> fn_offset name then checked_add_u64 base (word_of_int (fn_offset name))
      else if fn_offset name = - (2 ^ 63) then None
      else checked_sub_u64 base (word_of_int (- fn_offset name)))"

text \<open>Functions that exist only later can still be named, under conditions on the order of discovery.\<close>

definition nameable :: "('d, 'r) matcher_state \<Rightarrow> u64 \<Rightarrow> bool \<Rightarrow> u64 \<Rightarrow> bool" where
  "nameable st base is_local address \<longleftrightarrow>
     function_exists st address
     \<or> bt_contains (an_functions (ms_analysis st)) address
       \<and> (case (bt_get (function_order (ms_analysis st)) address, bt_get (function_analysis_counts (ms_analysis st)) base) of
            (Some order, Some count) \<Rightarrow> order < count
          | _ \<Rightarrow> False)
     \<or> is_local \<and> bt_contains (an_functions (ms_analysis st)) address
       \<and> (case Option.bind (containing_instruction (ms_analysis st) address) (bt_get (instruction_order (ms_analysis st))) of
            Some order \<Rightarrow> ms_location_count st \<le> order
          | None \<Rightarrow> False)"

definition complete :: "u64 \<Rightarrow> string option \<Rightarrow> match_memo \<Rightarrow> match_memo" where
  "complete address name memo = memo\<lparr>cache := bt_insert address (Complete name) (cache memo)\<rparr>"

definition apply_name ::
  "('d, 'r) matcher_state \<Rightarrow> u64 \<Rightarrow> bool \<Rightarrow> flirt_name \<Rightarrow> match_memo \<Rightarrow> match_memo" where
  "apply_name st base is_local name memo =
     (case name_address base name of
        None \<Rightarrow> memo
      | Some address \<Rightarrow>
          let memo = (if is_local \<and> \<not> function_exists st address
                         \<and> containing_instruction (ms_analysis st) address = None
                         \<and> is_executable_address (an_image (ms_analysis st)) address
                      then memo\<lparr>local_starts := insert address (local_starts memo)\<rparr> else memo)
          in if nameable st base is_local address
             then complete address (Some (fn_name name))
                    (memo\<lparr>recognized := bt_insert address (fn_name name) (recognized memo)\<rparr>)
             else memo)"

definition apply_names ::
  "('d, 'r) matcher_state \<Rightarrow> u64 \<Rightarrow> 'r flirt_signature \<Rightarrow> match_memo \<Rightarrow> match_memo" where
  "apply_names st base s memo =
     fold (\<lambda>symbol. case symbol of Public name \<Rightarrow> apply_name st base False name | _ \<Rightarrow> (\<lambda>memo. memo)) (sig_names s)
       (fold (\<lambda>symbol. case symbol of Local name \<Rightarrow> apply_name st base True name | _ \<Rightarrow> (\<lambda>memo. memo)) (sig_names s) memo)"

definition references_data :: "('d, 'r) matcher_state \<Rightarrow> u64 \<Rightarrow> bool" where
  "references_data st address \<longleftrightarrow>
     (case data_xrefs_from st of
        None \<Rightarrow> list_ex (\<lambda>(_, sources). address \<in> set sources) (data_xrefs (ms_analysis st))
      | Some index \<Rightarrow> bt_contains index address)"

definition code_targets :: "('d, 'r) matcher_state \<Rightarrow> u64 \<Rightarrow> u64 list" where
  "code_targets st address =
     (case code_xrefs_from st of
        None \<Rightarrow> map fst (filter (\<lambda>(_, sources). address \<in> set sources) (code_xrefs (ms_analysis st)))
      | Some index \<Rightarrow> (case bt_get index address of None \<Rightarrow> [] | Some targets \<Rightarrow> targets))"

text \<open>The first argument of the next two is the recursive call of \<^verbatim>\<open>match_function\<close>.\<close>

fun any_target ::
  "(u64 \<Rightarrow> match_memo \<Rightarrow> string option matched) \<Rightarrow> string \<Rightarrow> u64 list \<Rightarrow> match_memo \<Rightarrow> bool matched" where
  "any_target mf name [] memo = Inr (False, memo)"
| "any_target mf name (target # targets) memo =
     rbind (mf target memo) (\<lambda>(found, memo).
       if found = Some name then Inr (True, memo) else any_target mf name targets memo)"

fun references_match ::
  "(u64 \<Rightarrow> match_memo \<Rightarrow> string option matched) \<Rightarrow> ('d, 'r) matcher_state \<Rightarrow> u64 \<Rightarrow> flirt_symbol list \<Rightarrow> match_memo
   \<Rightarrow> bool matched" where
  "references_match mf st function_address [] memo = Inr (True, memo)"
| "references_match mf st function_address (Reference r # symbols) memo =
     (if fn_offset r < 0 then Inr (False, memo)
      else case Option.bind (checked_add_u64 function_address (word_of_int (fn_offset r))) (visible_instruction st) of
             None \<Rightarrow> Inr (False, memo)
           | Some address \<Rightarrow>
               if fn_name r = ''.''
               then if references_data st address then references_match mf st function_address symbols memo
                    else Inr (False, memo)
               else rbind (any_target mf (fn_name r) (code_targets st address) memo) (\<lambda>(ok, memo).
                      if ok then references_match mf st function_address symbols memo else Inr (False, memo)))"
| "references_match mf st function_address (Public _ # symbols) memo = references_match mf st function_address symbols memo"
| "references_match mf st function_address (Local _ # symbols) memo = references_match mf st function_address symbols memo"

definition function_size :: "'d analysis \<Rightarrow> u64 \<Rightarrow> nat" where
  "function_size an address =
     (case bt_get (an_functions an) address of
        None \<Rightarrow> 0
      | Some f \<Rightarrow>
          let sizes = List.map_filter (\<lambda>insn. checked_sub_u64 (next_address insn) address) (concat (map insns (blocks f)))
          in if sizes = [] then 0 else unat (Max (set sizes)))"

text \<open>The matching signatures; the library orders two or more of them.\<close>

definition signature_candidates ::
  "'r flirt_lib \<Rightarrow> 'r signature_matcher \<Rightarrow> u8 list \<Rightarrow> 'r flirt_signature list option" where
  "signature_candidates lib sm bytes =
     Option.bind (sm_match lib sm bytes) (\<lambda>candidates.
       if length candidates < 2 then Some candidates else set_match lib candidates bytes)"

text \<open>The name of a function with its valid signatures: they have to agree on it.\<close>

definition agreed_name :: "'r flirt_signature list \<Rightarrow> string option" where
  "agreed_name valid = (case remdups (List.map_filter root_name valid) of [name] \<Rightarrow> Some name | _ \<Rightarrow> None)"

definition name_function ::
  "('d, 'r) matcher_state \<Rightarrow> u64 \<Rightarrow> 'r flirt_signature list \<Rightarrow> match_memo \<Rightarrow> string option matched" where
  "name_function st address valid memo =
     (if list_ex (\<lambda>s. root_name s = None) valid then Inl (Some (MissingRootName (db_path (ms_database st)) address))
      else
        let name = agreed_name valid;
            memo = (case Option.bind name (\<lambda>name. find (\<lambda>s. root_name s = Some name) valid) of
                      None \<Rightarrow> memo
                    | Some s \<Rightarrow> apply_names st address s memo);
            result = (case bt_get (recognized memo) address of Some found \<Rightarrow> Some found | None \<Rightarrow> name)
        in Inr (result, complete address result memo))"

primrec match_function ::
  "nat \<Rightarrow> 'r flirt_lib \<Rightarrow> ('d, 'r) matcher_state \<Rightarrow> u64 \<Rightarrow> match_memo \<Rightarrow> string option matched" where
  "match_function 0 lib st address memo = Inl None"
| "match_function (Suc n) lib st address memo =
     (case bt_get (recognized memo) address of
        Some name \<Rightarrow> Inr (Some name, memo)
      | None \<Rightarrow>
          if \<not> function_exists st address then Inr (None, memo)
          else case bt_get (cache memo) address of
            Some Visiting_Function \<Rightarrow> Inr (None, memo)
          | Some (Complete name) \<Rightarrow> Inr (name, memo)
          | None \<Rightarrow>
              let memo = memo\<lparr>cache := bt_insert address Visiting_Function (cache memo)\<rparr>;
                  an = ms_analysis st
              in case bytes_at (an_image an) address (max MATCH_WINDOW (function_size an address)) of
                   None \<Rightarrow> Inr (None, complete address None memo)
                 | Some bytes \<Rightarrow>
                     (case signature_candidates lib (matcher (ms_database st)) bytes of
                        None \<Rightarrow> Inl (Some (MatchPanic (db_path (ms_database st)) address))
                      | Some candidates \<Rightarrow>
                          rbind (fold_result (\<lambda>s (valid, memo).
                                rbind (references_match (match_function n lib st) st address (sig_names s) memo) (\<lambda>(ok, memo).
                                  Inr (if ok then valid @ [s] else valid, memo)))
                              candidates ([], memo)) (\<lambda>(valid, memo).
                            name_function st address valid memo)))"

section \<open>Recognition\<close>

definition index_xrefs_by_source :: "(u64, u64 list) btree \<Rightarrow> (u64, u64 list) btree" where
  "index_xrefs_by_source index =
     fold (\<lambda>(target, sources). fold (\<lambda>src. bt_entry src [] (\<lambda>targets. targets @ [target])) sources) index []"

text \<open>The databases in their order until one recognizes the function, each with an empty cache.\<close>

fun match_databases ::
  "nat \<Rightarrow> 'r flirt_lib \<Rightarrow> ('r signature_database \<Rightarrow> ('d, 'r) matcher_state) \<Rightarrow> u64 \<Rightarrow> 'r signature_database list \<Rightarrow> match_memo
   \<Rightarrow> flirt_error option + match_memo" where
  "match_databases n lib mk address [] memo = Inr memo"
| "match_databases n lib mk address (database # rest) memo =
     (if bt_contains (recognized memo) address then Inr memo
      else rbind (match_function n lib (mk database) address (memo\<lparr>cache := []\<rparr>)) (\<lambda>(_, memo).
             match_databases n lib mk address rest memo))"

abbreviation or_max :: "nat option \<Rightarrow> nat" where
  "or_max n \<equiv> (case n of None \<Rightarrow> USIZE - 1 | Some k \<Rightarrow> k)"

text \<open>\<^verbatim>\<open>Discovery::function_completed\<close>: the new recognized functions and the local starts.\<close>

definition function_completed ::
  "nat \<Rightarrow> 'r flirt_lib \<Rightarrow> 'r signature_database list \<Rightarrow> 'd analysis \<Rightarrow> u64 \<Rightarrow> (u64, string) btree
   \<Rightarrow> flirt_error option + (u64, string) btree \<times> u64 set" where
  "function_completed n lib databases an address found =
     (case bytes_at (an_image an) address PREFIX_LEN of
        None \<Rightarrow> Inr (found, {})
      | Some head \<Rightarrow>
          if \<not> list_ex (\<lambda>database. has_local_candidate (matcher database) head) databases then Inr (found, {})
          else map_ok (\<lambda>memo. (recognized memo, local_starts memo))
                 (match_databases n lib (\<lambda>database.
                      \<lparr>ms_analysis = an, ms_database = database, code_xrefs_from = None, data_xrefs_from = None,
                       ms_function_order = USIZE - 1, ms_location_count = USIZE - 1\<rparr>)
                    address databases \<lparr>recognized = found, cache = [], local_starts = {}\<rparr>))"

text \<open>The order of the functions; \<^verbatim>\<open>Reverse\<close> is the negated number.\<close>

definition discovery_key :: "'d analysis \<Rightarrow> u64 \<Rightarrow> nat \<times> int \<times> u64" where
  "discovery_key an address =
     (let order = or_max (bt_get (function_order an) address)
      in (case bt_get (function_analysis_counts an) address of None \<Rightarrow> order | Some count \<Rightarrow> count, - int order, address))"

definition identify_state ::
  "'d analysis \<Rightarrow> u64 \<Rightarrow> 'r signature_database \<Rightarrow> ('d, 'r) matcher_state" where
  "identify_state an address database =
     \<lparr>ms_analysis = an, ms_database = database,
      code_xrefs_from = Some (index_xrefs_by_source (code_xrefs an)),
      data_xrefs_from = Some (index_xrefs_by_source (data_xrefs an)),
      ms_function_order = (case bt_get (function_flirt_counts an) address of
                             Some count \<Rightarrow> count - 1
                           | None \<Rightarrow> or_max (bt_get (function_order an) address)),
      ms_location_count = or_max (bt_get (function_location_counts an) address)\<rparr>"

definition identify_with_local_starts ::
  "nat \<Rightarrow> 'r flirt_lib \<Rightarrow> 'd analysis \<Rightarrow> 'r signature_database list
   \<Rightarrow> flirt_error option + (u64, string) btree \<times> u64 set" where
  "identify_with_local_starts n lib an databases =
     (if format (an_image an) \<noteq> Pe \<or> databases = [] then Inr ([], {})
      else
        map_ok (\<lambda>memo. (recognized memo, local_starts memo))
          (fold_result (\<lambda>address memo. match_databases n lib (identify_state an address) address databases memo)
             (sort_key (discovery_key an) (map fst (an_functions an)))
             \<lparr>recognized = [], cache = [], local_starts = {}\<rparr>))"

definition identify_library_functions ::
  "nat \<Rightarrow> 'r flirt_lib \<Rightarrow> 'd analysis \<Rightarrow> 'r signature_database list \<Rightarrow> flirt_error option + (u64, string) btree" where
  "identify_library_functions n lib an databases = map_ok fst (identify_with_local_starts n lib an databases)"

end
