(* ===== verification/Enrich.thy ===== *)
theory Enrich
  imports Flirt Block_Features A64_Features Loops
begin

text \<open>
  \<^verbatim>\<open>capa-x/src/extract/recovery/flirt.rs\<close>, \<^verbatim>\<open>enrich_static_features\<close>: the features of the recovered
  functions that are no library functions, from the extractors of their architecture. The parallel
  map of the source returns the results in the order of its input.
\<close>

section \<open>Tail calls\<close>

definition tail_targets :: "'d basic_block \<Rightarrow> u64 list" where
  "tail_targets b = map edge_target (filter (\<lambda>e. edge_kind e = TailCall) (succs b))"

text \<open>A stack is a list with its top first.\<close>

definition add_tail_block ::
  "'d basic_block \<Rightarrow> u64 list \<times> u64 set \<times> 'd basic_block list \<Rightarrow> u64 list \<times> u64 set \<times> 'd basic_block list" where
  "add_tail_block b st =
     (case st of
        (pending, seen_blocks, bs) \<Rightarrow>
          if block_addr b \<in> seen_blocks then st
          else (rev (tail_targets b) @ pending, insert (block_addr b) seen_blocks, bs @ [b]))"

function tail_loop ::
  "'d analysis \<Rightarrow> u64 list \<Rightarrow> u64 set \<Rightarrow> u64 set \<Rightarrow> 'd basic_block list \<Rightarrow> 'd basic_block list" where
  "tail_loop an [] seen_functions seen_blocks bs = bs"
| "tail_loop an (address # pending) seen_functions seen_blocks bs =
     (if address \<in> seen_functions then tail_loop an pending seen_functions seen_blocks bs
      else
        case bt_get (an_functions an) address of
          None \<Rightarrow> tail_loop an pending (insert address seen_functions) seen_blocks bs
        | Some target \<Rightarrow>
            (case fold add_tail_block (blocks target) (pending, seen_blocks, bs) of
               (pending, seen_blocks, bs) \<Rightarrow> tail_loop an pending (insert address seen_functions) seen_blocks bs))"
  by pat_completeness auto
termination
proof (relation "measures [\<lambda>(an, pending, seen, _). card (fst ` set (an_functions an) - seen), \<lambda>(an, pending, _). length pending]",
    goal_cases)
  case (3 an address pending seen seen_blocks bs)
  have "fst ` set (an_functions an) - insert address seen \<subseteq> fst ` set (an_functions an) - seen" by blast
  then have "card (fst ` set (an_functions an) - insert address seen) \<le> card (fst ` set (an_functions an) - seen)"
    by (intro card_mono) simp_all
  then show ?case by auto
next
  case (4 an address pending seen seen_blocks bs target)
  have "address \<in> fst ` set (an_functions an)" using 4(2) by (force dest: map_of_SomeD)
  then have "fst ` set (an_functions an) - insert address seen \<subset> fst ` set (an_functions an) - seen" using 4(1) by blast
  then have "card (fst ` set (an_functions an) - insert address seen) < card (fst ` set (an_functions an) - seen)"
    by (intro psubset_card_mono) simp_all
  then show ?case by simp
qed simp_all

definition function_with_tail_blocks :: "'d analysis \<Rightarrow> 'd recovered_function \<Rightarrow> 'd recovered_function" where
  "function_with_tail_blocks an root =
     root\<lparr>blocks := linorder_class.sort_key block_addr
       (tail_loop an (rev (concat (map tail_targets (blocks root)))) {func_addr root} (block_addr ` set (blocks root)) (blocks root))\<rparr>"

section \<open>The features of a function\<close>

text \<open>The maps from blocks and instructions to their features, for the extractors \<open>bf\<close> and \<open>nf\<close> of an architecture.\<close>

definition block_entry ::
  "('d basic_block \<Rightarrow> located) \<Rightarrow> ('d basic_block \<Rightarrow> (address \<times> located) list) \<Rightarrow> 'd basic_block \<Rightarrow> basic_block_features" where
  "block_entry bf nf b =
     \<lparr>bb_features = bf b, instructions = fold (\<lambda>(a, fs). bt_insert a \<lparr>insn_features = fs\<rparr>) (nf b) []\<rparr>"

definition function_entry ::
  "('d basic_block \<Rightarrow> located) \<Rightarrow> ('d basic_block \<Rightarrow> (address \<times> located) list) \<Rightarrow> located \<Rightarrow> 'd recovered_function
   \<Rightarrow> function_features" where
  "function_entry bf nf fs f =
     \<lparr>fn_features = fs, basic_blocks = fold (\<lambda>b. bt_insert (Absolute (block_addr b)) (block_entry bf nf b)) (blocks f) []\<rparr>"

definition extract_function_features ::
  "x86_analysis \<Rightarrow> (u64, string) btree \<Rightarrow> x86_function \<Rightarrow> function_features" where
  "extract_function_features an libraries recovered =
     (let f = function_with_tail_blocks an recovered
      in function_entry bb_extract_features
           (\<lambda>b. map (\<lambda>insn. (Absolute (insn_address insn),
                insn_extract_features
                  \<lparr>ctx_analysis = an, ctx_libraries = libraries, ctx_function = f, ctx_block = b\<rparr> insn)) (insns b))
           (function_extract_features an f) f)"

definition a64_function_features :: "a64_analysis \<Rightarrow> a64_function \<Rightarrow> function_features" where
  "a64_function_features an recovered =
     (let f = function_with_tail_blocks an recovered
      in function_entry a64_bb_extract_features (extract_block_insn_features an f) (function_extract_features an f) f)"

section \<open>The features of a file\<close>

definition library_names :: "(u64, string) btree \<Rightarrow> located" where
  "library_names libraries =
     concat (map (\<lambda>(address, name).
       (Absolute address, FunctionName name)
       # (case strip_prefix ''_'' name of
            None \<Rightarrow> []
          | Some unmangled \<Rightarrow> [(Absolute address, FunctionName unmangled)])) libraries)"

definition enrich_with ::
  "('d recovered_function \<Rightarrow> function_features) \<Rightarrow> 'd analysis \<Rightarrow> (u64, string) btree \<Rightarrow> static_features \<Rightarrow> static_features" where
  "enrich_with extract an libraries fz =
     (let targets = filter (\<lambda>(address, _). \<not> bt_contains libraries address) (an_functions an)
      in fz\<lparr>st_file_features := st_file_features fz @ library_names libraries,
            st_functions := fold (\<lambda>(address, f). bt_insert (Absolute address) (extract f)) targets (st_functions fz)\<rparr>)"

definition enrich_static_features ::
  "x86_analysis \<Rightarrow> (u64, string) btree \<Rightarrow> static_features \<Rightarrow> static_features" where
  "enrich_static_features an libraries = enrich_with (extract_function_features an libraries) an libraries"

definition a64_enrich_static_features ::
  "a64_analysis \<Rightarrow> (u64, string) btree \<Rightarrow> static_features \<Rightarrow> static_features" where
  "a64_enrich_static_features an libraries = enrich_with (a64_function_features an) an libraries"

end
