(* ===== verification/Enrich_Props.thy ===== *)
theory Enrich_Props
  imports Enrich Insn_Props
begin

text \<open>
  The features of recovered functions: a function is extracted together with the functions its
  tail calls reach, and the enriched file has exactly the recovered functions that are not library
  functions.
\<close>

section \<open>Tail calls\<close>

text \<open>The functions reached from a function along tail calls.\<close>

inductive_set tail_reached :: "'d analysis \<Rightarrow> 'd recovered_function \<Rightarrow> 'd recovered_function set"
  for an :: "'d analysis" and root :: "'d recovered_function" where
  tail_root: "root \<in> tail_reached an root"
| tail_step: "f \<in> tail_reached an root \<Longrightarrow> b \<in> set (blocks f) \<Longrightarrow> t \<in> set (tail_targets b)
    \<Longrightarrow> bt_get (an_functions an) t = Some g \<Longrightarrow> g \<in> tail_reached an root"

definition all_blocks :: "'d recovered_function set \<Rightarrow> 'd basic_block set" where
  "all_blocks fs = (\<Union>f \<in> fs. set (blocks f))"

definition tail_inv ::
  "'d analysis \<Rightarrow> 'd recovered_function \<Rightarrow> u64 list \<Rightarrow> u64 set \<Rightarrow> u64 set \<Rightarrow> 'd basic_block list \<Rightarrow> bool" where
  "tail_inv an root pending seen_functions seen_blocks bs \<longleftrightarrow>
     seen_blocks = block_addr ` set bs \<and> distinct (map block_addr bs)
     \<and> set (blocks root) \<subseteq> set bs \<and> set bs \<subseteq> all_blocks (tail_reached an root)
     \<and> (\<forall>a \<in> set pending. \<forall>g. bt_get (an_functions an) a = Some g \<longrightarrow> g \<in> tail_reached an root)
     \<and> (\<forall>b \<in> set bs. set (tail_targets b) \<subseteq> seen_functions \<union> set pending)
     \<and> (\<forall>a \<in> seen_functions. \<forall>g. bt_get (an_functions an) a = Some g \<longrightarrow> set (blocks g) \<subseteq> set bs)"

lemma add_tail_block_apply:
  "add_tail_block b (pending, seen_blocks, bs) =
     (if block_addr b \<in> seen_blocks then (pending, seen_blocks, bs)
      else (rev (tail_targets b) @ pending, insert (block_addr b) seen_blocks, bs @ [b]))"
  by (simp add: add_tail_block_def)

lemma fold_tail_blocks:
  assumes "fold add_tail_block todo (pending, seen, bs) = (pending', seen', bs')"
    and "seen = block_addr ` set bs" "distinct (map block_addr bs)" "inj_on block_addr (set bs \<union> set todo)"
  shows "set bs' = set bs \<union> set todo \<and> seen' = block_addr ` set bs' \<and> distinct (map block_addr bs')
    \<and> set pending \<subseteq> set pending' \<and> set pending' \<subseteq> set pending \<union> (\<Union>b \<in> set todo. set (tail_targets b))
    \<and> (\<forall>b \<in> set todo - set bs. set (tail_targets b) \<subseteq> set pending')"
  using assms
proof (induction todo arbitrary: pending seen bs)
  case (Cons b todo)
  show ?case
  proof (cases "block_addr b \<in> seen")
    case True
    then obtain c where "c \<in> set bs" "block_addr b = block_addr c" using Cons.prems(2) by auto
    then have b: "b \<in> set bs" using inj_onD [OF Cons.prems(4), of b c] by simp
    have "fold add_tail_block todo (pending, seen, bs) = (pending', seen', bs')"
      using Cons.prems(1) True by (simp add: add_tail_block_apply)
    from Cons.IH [OF this Cons.prems(2,3)] Cons.prems(4) b show ?thesis by (auto simp: insert_absorb)
  next
    case False
    have fold: "fold add_tail_block todo (rev (tail_targets b) @ pending, insert (block_addr b) seen, bs @ [b]) = (pending', seen', bs')"
      using Cons.prems(1) False by (simp add: add_tail_block_apply)
    have "distinct (map block_addr (bs @ [b]))" using Cons.prems(2,3) False by auto
    from Cons.IH [OF fold _ this] Cons.prems(2,4)
    have "set bs' = insert b (set bs) \<union> set todo \<and> seen' = block_addr ` set bs' \<and> distinct (map block_addr bs')
      \<and> set (tail_targets b) \<union> set pending \<subseteq> set pending'
      \<and> set pending' \<subseteq> set (tail_targets b) \<union> set pending \<union> (\<Union>b \<in> set todo. set (tail_targets b))
      \<and> (\<forall>c \<in> set todo - insert b (set bs). set (tail_targets c) \<subseteq> set pending')"
      by (simp add: insert_commute)
    then show ?thesis by auto
  qed
qed auto

text \<open>Blocks of different functions at one address are the same block.\<close>

definition coherent :: "'d analysis \<Rightarrow> bool" where
  "coherent an \<longleftrightarrow> inj_on block_addr (all_blocks (snd ` set (an_functions an)))"

lemma tail_reached_functions:
  assumes "(a, root) \<in> set (an_functions an)" "f \<in> tail_reached an root"
  shows "f \<in> snd ` set (an_functions an)"
  using assms(2) by induction (use assms(1) in \<open>force dest: map_of_SomeD\<close>)+

lemma tail_inv_visit:
  assumes inv: "tail_inv an root (address # pending) seen_functions seen_blocks bs"
    and f: "bt_get (an_functions an) address = Some f"
    and fold: "fold add_tail_block (blocks f) (pending, seen_blocks, bs) = (pending', seen_blocks', bs')"
    and inj: "inj_on block_addr (all_blocks (tail_reached an root))"
  shows "tail_inv an root pending' (insert address seen_functions) seen_blocks' bs'"
proof -
  have reach: "f \<in> tail_reached an root" using inv f by (auto simp: tail_inv_def)
  then have "set bs \<union> set (blocks f) \<subseteq> all_blocks (tail_reached an root)"
    using inv by (auto simp: tail_inv_def all_blocks_def)
  with inj have "inj_on block_addr (set bs \<union> set (blocks f))" by (rule inj_on_subset)
  note step = fold_tail_blocks [OF fold _ _ this]
  then have st: "set bs' = set bs \<union> set (blocks f)" "seen_blocks' = block_addr ` set bs'" "distinct (map block_addr bs')"
    "set pending \<subseteq> set pending'" "set pending' \<subseteq> set pending \<union> (\<Union>b \<in> set (blocks f). set (tail_targets b))"
    "\<forall>b \<in> set (blocks f) - set bs. set (tail_targets b) \<subseteq> set pending'"
    using inv by (simp_all add: tail_inv_def)
  have "\<forall>a \<in> set pending'. \<forall>g. bt_get (an_functions an) a = Some g \<longrightarrow> g \<in> tail_reached an root"
  proof (intro ballI allI impI)
    fix a g
    assume a: "a \<in> set pending'" "bt_get (an_functions an) a = Some g"
    show "g \<in> tail_reached an root"
    proof (cases "a \<in> set pending")
      case True
      then show ?thesis using inv a(2) by (simp add: tail_inv_def)
    next
      case False
      then obtain b where "b \<in> set (blocks f)" "a \<in> set (tail_targets b)" using a(1) st(5) by blast
      then show ?thesis using tail_step [OF reach _ _ a(2)] by blast
    qed
  qed
  moreover have "\<forall>b \<in> set bs'. set (tail_targets b) \<subseteq> insert address seen_functions \<union> set pending'"
  proof
    fix b
    assume "b \<in> set bs'"
    show "set (tail_targets b) \<subseteq> insert address seen_functions \<union> set pending'"
    proof (cases "b \<in> set bs")
      case True
      then have "set (tail_targets b) \<subseteq> seen_functions \<union> insert address (set pending)" using inv by (simp add: tail_inv_def)
      then show ?thesis using st(4) by blast
    next
      case False
      then show ?thesis using \<open>b \<in> set bs'\<close> st(1,6) by blast
    qed
  qed
  moreover have "\<forall>a \<in> insert address seen_functions. \<forall>g. bt_get (an_functions an) a = Some g \<longrightarrow> set (blocks g) \<subseteq> set bs'"
  proof -
    have "\<forall>a \<in> seen_functions. \<forall>g. bt_get (an_functions an) a = Some g \<longrightarrow> set (blocks g) \<subseteq> set bs" using inv by (simp add: tail_inv_def)
    then show ?thesis using f st(1) by (simp, blast)
  qed
  moreover have "set (blocks root) \<subseteq> set bs'" "set bs' \<subseteq> all_blocks (tail_reached an root)"
    using inv reach st(1) by (auto simp: tail_inv_def all_blocks_def)
  ultimately show ?thesis using st(2,3) unfolding tail_inv_def by (intro conjI)
qed

lemma tail_loop_inv:
  assumes "inj_on block_addr (all_blocks (tail_reached an root))" "tail_inv an root pending seen_functions seen_blocks bs"
  shows "\<exists>seen seen'. tail_inv an root [] seen seen' (tail_loop an pending seen_functions seen_blocks bs)"
  using assms
proof (induction an pending seen_functions seen_blocks bs rule: tail_loop.induct)
  case (1 an sf sb bs)
  then show ?case by auto
next
  case (2 an address pending sf sb bs)
  show ?case
  proof (cases "address \<in> sf")
    case True
    then have "tail_inv an root pending sf sb bs" using 2(5) by (auto simp: tail_inv_def)
    then show ?thesis using 2(1) [OF True 2(4)] True by simp
  next
    case False
    show ?thesis
    proof (cases "bt_get (an_functions an) address")
      case None
      then have "tail_inv an root pending (insert address sf) sb bs" using 2(5) by (auto simp: tail_inv_def)
      then show ?thesis using 2(2) [OF False None 2(4)] False None by simp
    next
      case (Some f)
      obtain p' sb' bs' where fold: "fold add_tail_block (blocks f) (pending, sb, bs) = (p', sb', bs')" by (metis prod_cases3)
      note inv' = tail_inv_visit [OF 2(5) Some fold 2(4)]
      show ?thesis using 2(3) [OF False Some fold [symmetric] refl 2(4) inv'] False Some fold by simp
    qed
  qed
qed

text \<open>The blocks of a function with its tail calls, for functions of a coherent analysis.\<close>

lemma tail_blocks_complete:
  assumes "coherent an" "bt_get (an_functions an) (func_addr root) = Some root" "distinct (map block_addr (blocks root))"
  shows "set (blocks (function_with_tail_blocks an root)) = all_blocks (tail_reached an root)
    \<and> sorted_wrt (<) (map block_addr (blocks (function_with_tail_blocks an root)))"
proof -
  have "(func_addr root, root) \<in> set (an_functions an)" using assms(2) by (rule map_of_SomeD)
  then have "tail_reached an root \<subseteq> snd ` set (an_functions an)" using tail_reached_functions by blast
  then have "all_blocks (tail_reached an root) \<subseteq> all_blocks (snd ` set (an_functions an))" unfolding all_blocks_def by blast
  with assms(1) have inj: "inj_on block_addr (all_blocks (tail_reached an root))" unfolding coherent_def by (rule inj_on_subset)
  let ?pending = "rev (concat (map tail_targets (blocks root)))"
  let ?bs = "tail_loop an ?pending {func_addr root} (block_addr ` set (blocks root)) (blocks root)"
  have "tail_inv an root ?pending {func_addr root} (block_addr ` set (blocks root)) (blocks root)"
    unfolding tail_inv_def using assms(2,3) by (auto simp: all_blocks_def intro: tail_root tail_step)
  from tail_loop_inv [OF inj this] obtain seen seen' where fin: "tail_inv an root [] seen seen' ?bs" by blast
  have "set (blocks f) \<subseteq> set ?bs" if "f \<in> tail_reached an root" for f
    using that
  proof induction
    case tail_root
    then show ?case using fin by (simp add: tail_inv_def)
  next
    case (tail_step f b t g)
    then have "t \<in> seen" using fin by (auto simp: tail_inv_def)
    then show ?case using fin tail_step.hyps(4) by (simp add: tail_inv_def)
  qed
  then have "set ?bs = all_blocks (tail_reached an root)" using fin by (auto simp: tail_inv_def all_blocks_def)
  moreover have "distinct (map block_addr (linorder_class.sort_key block_addr ?bs))"
    using fin by (simp add: tail_inv_def distinct_map)
  ultimately show ?thesis by (simp add: function_with_tail_blocks_def strict_sorted_iff)
qed

section \<open>The features of a function\<close>

lemma Absolute_less [simp]: "Absolute a < Absolute b \<longleftrightarrow> a < b"
  by (simp add: less_address_def)

lemma bt_insert_last: "\<forall>q \<in> fst ` set m. q < k \<Longrightarrow> bt_insert k v m = m @ [(k, v)]"
  by (induction k v m rule: bt_insert.induct) auto

lemma fold_insert_sorted:
  "sorted_wrt (<) (map key xs) \<Longrightarrow> fold (\<lambda>x. bt_insert (key x) (val x)) xs [] = map (\<lambda>x. (key x, val x)) xs"
proof (induction xs rule: rev_induct)
  case (snoc x xs)
  then show ?case by (auto simp: sorted_wrt_append intro!: bt_insert_last)
qed simp

lemma fst_fold_insert: "fst ` set (fold (\<lambda>x. bt_insert (key x) (val x)) xs m) = key ` set xs \<union> fst ` set m"
  by (induction xs arbitrary: m) (auto simp: fst_set_insert)

text \<open>The extracted function has one entry for each block its tail calls reach, and in it one for each instruction.\<close>

definition covers_function ::
  "('d basic_block \<Rightarrow> located) \<Rightarrow> 'd basic_block set \<Rightarrow> function_features \<Rightarrow> bool" where
  "covers_function bf bs ff \<longleftrightarrow>
     sorted_wrt (<) (map fst (basic_blocks ff)) \<and> fst ` set (basic_blocks ff) = (Absolute \<circ> block_addr) ` bs
     \<and> (\<forall>b \<in> bs. \<exists>bb. (Absolute (block_addr b), bb) \<in> set (basic_blocks ff) \<and> bb_features bb = bf b
          \<and> fst ` set (instructions bb) = (Absolute \<circ> insn_address) ` set (insns b))"

lemma covers_entry:
  assumes "sorted_wrt (<) (map block_addr (blocks f))"
    and "\<And>b. b \<in> set (blocks f) \<Longrightarrow> fst ` set (nf b) = (Absolute \<circ> insn_address) ` set (insns b)"
  shows "covers_function bf (set (blocks f)) (function_entry bf nf fs f)"
proof -
  have sorted: "sorted_wrt (<) (map (\<lambda>b. Absolute (block_addr b)) (blocks f))"
    using assms(1) by (simp add: sorted_wrt_map)
  have bbs: "basic_blocks (function_entry bf nf fs f) = map (\<lambda>b. (Absolute (block_addr b), block_entry bf nf b)) (blocks f)"
    unfolding function_entry_def by (simp add: fold_insert_sorted [OF sorted])
  have insns: "fst ` set (instructions (block_entry bf nf b)) = fst ` set (nf b)" for b
    using fst_fold_insert [of fst "\<lambda>x. \<lparr>insn_features = snd x\<rparr>" "nf b" "[]"] by (simp add: block_entry_def case_prod_unfold)
  have block: "bb_features (block_entry bf nf b) = bf b" for b by (simp add: block_entry_def)
  have "\<forall>b \<in> set (blocks f). \<exists>bb. (Absolute (block_addr b), bb) \<in> set (basic_blocks (function_entry bf nf fs f))
      \<and> bb_features bb = bf b \<and> fst ` set (instructions bb) = (Absolute \<circ> insn_address) ` set (insns b)"
  proof
    fix b
    assume "b \<in> set (blocks f)"
    then have "(Absolute (block_addr b), block_entry bf nf b) \<in> set (basic_blocks (function_entry bf nf fs f))"
      "fst ` set (instructions (block_entry bf nf b)) = (Absolute \<circ> insn_address) ` set (insns b)"
      using assms(2) by (simp_all add: bbs insns)
    then show "\<exists>bb. (Absolute (block_addr b), bb) \<in> set (basic_blocks (function_entry bf nf fs f)) \<and> bb_features bb = bf b
        \<and> fst ` set (instructions bb) = (Absolute \<circ> insn_address) ` set (insns b)"
      using block by blast
  qed
  then show ?thesis
    unfolding covers_function_def bbs using sorted by (simp add: comp_def image_image)
qed

section \<open>The features of a file\<close>

text \<open>Functions are filed under their addresses and their blocks are distinct.\<close>

definition filed :: "'d analysis \<Rightarrow> bool" where
  "filed an \<longleftrightarrow>
     bt_wf (an_functions an) \<and> (\<forall>(a, f) \<in> set (an_functions an). func_addr f = a \<and> distinct (map block_addr (blocks f)))"

lemma enrich_functions:
  assumes "bt_wf (an_functions an)" "st_functions fz = []"
  shows "st_functions (enrich_with extract an libraries fz)
    = map (\<lambda>(a, f). (Absolute a, extract f)) (filter (\<lambda>(a, _). \<not> bt_contains libraries a) (an_functions an))"
proof -
  let ?targets = "filter (\<lambda>(a, _). \<not> bt_contains libraries a) (an_functions an)"
  have "bt_wf ?targets" using assms(1) by (rule bt_wf_filter)
  then have "sorted_wrt (<) (map (\<lambda>e. Absolute (fst e)) ?targets)" by (simp add: bt_wf_def sorted_wrt_map)
  from fold_insert_sorted [OF this, of "\<lambda>e. extract (snd e)"] show ?thesis
    using assms(2) by (simp add: enrich_with_def case_prod_unfold)
qed

lemma tail_blocks_filed:
  assumes "coherent an" "filed an" "(a, f) \<in> set (an_functions an)"
  shows "set (blocks (function_with_tail_blocks an f)) = all_blocks (tail_reached an f)"
    "sorted_wrt (<) (map block_addr (blocks (function_with_tail_blocks an f)))"
proof -
  have "bt_get (an_functions an) (func_addr f) = Some f" "distinct (map block_addr (blocks f))"
    using assms(2,3) by (auto simp: filed_def bt_get_Some_iff)
  from tail_blocks_complete [OF assms(1) this]
  show "set (blocks (function_with_tail_blocks an f)) = all_blocks (tail_reached an f)"
    "sorted_wrt (<) (map block_addr (blocks (function_with_tail_blocks an f)))" by blast+
qed

text \<open>What the enriched features of a file hold, for the extractors of an architecture.\<close>

definition enriched ::
  "('d basic_block \<Rightarrow> located) \<Rightarrow> ('d recovered_function \<Rightarrow> function_features) \<Rightarrow> 'd analysis \<Rightarrow> (u64, string) btree
   \<Rightarrow> static_features \<Rightarrow> static_features \<Rightarrow> bool" where
  "enriched bf extract an libraries fz fz' \<longleftrightarrow>
     st_functions fz' = map (\<lambda>(a, f). (Absolute a, extract f)) (filter (\<lambda>(a, _). \<not> bt_contains libraries a) (an_functions an))
     \<and> st_file_features fz' = st_file_features fz @ library_names libraries
     \<and> st_global_features fz' = st_global_features fz
     \<and> (\<forall>(a, f) \<in> set (an_functions an). covers_function bf (all_blocks (tail_reached an f)) (extract f))"

lemma enriched_with:
  assumes "filed an" "st_functions fz = []"
    and "\<And>a f. (a, f) \<in> set (an_functions an) \<Longrightarrow> covers_function bf (all_blocks (tail_reached an f)) (extract f)"
  shows "enriched bf extract an libraries fz (enrich_with extract an libraries fz)"
proof -
  have "bt_wf (an_functions an)" using assms(1) by (simp add: filed_def)
  note code = enrich_functions [OF this assms(2)]
  have "st_file_features (enrich_with extract an libraries fz) = st_file_features fz @ library_names libraries"
    "st_global_features (enrich_with extract an libraries fz) = st_global_features fz"
    by (simp_all add: enrich_with_def Let_def)
  then show ?thesis using assms(3) unfolding enriched_def code by (auto simp: case_prod_unfold)
qed

lemma x86_covers:
  assumes "coherent an" "filed an" "(a, f) \<in> set (an_functions an)"
  shows "covers_function bb_extract_features (all_blocks (tail_reached an f)) (extract_function_features an libraries f)"
  unfolding extract_function_features_def Let_def tail_blocks_filed(1) [OF assms, symmetric]
  by (rule covers_entry [OF tail_blocks_filed(2) [OF assms]]) force

lemma a64_covers:
  assumes "coherent an" "filed an" "(a, f) \<in> set (an_functions an)"
  shows "covers_function a64_bb_extract_features (all_blocks (tail_reached an f)) (a64_function_features an f)"
  unfolding a64_function_features_def Let_def tail_blocks_filed(1) [OF assms, symmetric]
  by (rule covers_entry [OF tail_blocks_filed(2) [OF assms]])
    (simp add: extract_block_insn_features_def Let_def fst_fold_insert comp_def)


text \<open>A program of three functions: the first reaches the second along a tail call, the third is a library function.\<close>

definition example_block_at :: "u64 \<Rightarrow> edge list \<Rightarrow> 'd basic_block" where
  "example_block_at a es = basic_block.make a [] es"

definition example_program :: x86_analysis where
  "example_program = analysis.make (from_shellcode [0x90] X86) []
     [(1, recovered_function.make 1 [example_block_at 1 [edge.make 5 TailCall]]),
      (5, recovered_function.make 5 [example_block_at 5 []]), (9, recovered_function.make 9 [example_block_at 9 []])]
     [] [] [] [] [] [] [] [] [] [] [] [] {} {}"

definition example_arm_program :: a64_analysis where
  "example_arm_program = analysis.make (from_shellcode [0x90] AArch64) []
     [(1, recovered_function.make 1 [example_block_at 1 []])] [] [] [] [] [] [] [] [] [] [] [] [] {} {}"

definition example_base :: static_features where
  "example_base = static_features.make NoAddress (sample_hashes.make [] [] []) [] [] []"

lemma example_programs_ok:
  "coherent example_program" "filed example_program" "coherent example_arm_program" "filed example_arm_program"
  by (auto simp: coherent_def filed_def all_blocks_def inj_on_def example_program_def example_arm_program_def analysis.defs
      recovered_function.defs example_block_at_def basic_block.defs)


end
