(* ===== verification/Flirt_Props.thy ===== *)
theory Flirt_Props
  imports Flirt
begin

text \<open>
  Recognition of library functions. The index by leading bytes loses no signature: matching with
  it is a scan of all signatures in their order. Matching a function ends with a call stack no
  deeper than the number of functions, and what it recognizes is justified by a signature.
\<close>

unbundle bit_operations_syntax

section \<open>Leading bytes\<close>

abbreviation add_element :: "nat \<times> sig_element \<Rightarrow> u8 \<times> u64 \<Rightarrow> u8 \<times> u64" where
  "add_element \<equiv> \<lambda>(index, element) (msk, val).
     case element of
       SigByte b \<Rightarrow> (msk OR push_bit index 1, val OR push_bit (index * 8) (ucast b))
     | Wildcard \<Rightarrow> (msk, val)"

abbreviation add_byte :: "nat \<times> u8 \<Rightarrow> u64 \<Rightarrow> u64" where
  "add_byte \<equiv> \<lambda>(index, b) val. val OR push_bit (index * 8) (ucast b)"

lemma prefix_value:
  "list_all2 element_matches es bs \<Longrightarrow>
   snd (fold add_element (List.enumerate n es) st)
   = fold add_byte (map snd (filter (\<lambda>(e, x). e \<noteq> Wildcard) (zip es (List.enumerate n bs)))) (snd st)"
proof (induction es bs arbitrary: n st rule: list_all2_induct)
  case (Cons e es b bs)
  then show ?case by (cases e; cases st) simp_all
qed simp

lemma prefix_mask:
  "bit (fst (fold add_element (List.enumerate n es) st)) j
   \<longleftrightarrow> bit (fst st) j \<or> (\<exists>i < length es. j = n + i \<and> j < 8 \<and> es ! i \<noteq> Wildcard)"
proof (induction es arbitrary: n st)
  case (Cons e es)
  have ex: "(\<exists>i < Suc (length es). j = n + i \<and> j < 8 \<and> (e # es) ! i \<noteq> Wildcard)
      \<longleftrightarrow> j = n \<and> j < 8 \<and> e \<noteq> Wildcard \<or> (\<exists>i < length es. j = Suc n + i \<and> j < 8 \<and> es ! i \<noteq> Wildcard)"
    by (auto simp: less_Suc_eq_0_disj)
  have one: "bit (fst (add_element (n, e) st)) j \<longleftrightarrow> bit (fst st) j \<or> j = n \<and> j < 8 \<and> e \<noteq> Wildcard"
    by (cases e; cases st) (auto simp: bit_simps)
  have "fold add_element (List.enumerate n (e # es)) st = fold add_element (List.enumerate (Suc n) es) (add_element (n, e) st)"
    by simp
  then show ?case by (simp only: Cons.IH one ex length_Cons) blast
qed simp

lemma masked_elements:
  assumes "length es = length bs" "\<And>i. i < length es \<Longrightarrow> P (n + i) \<longleftrightarrow> es ! i \<noteq> Wildcard"
  shows "filter (\<lambda>(i, _). P i) (List.enumerate n bs)
    = map snd (filter (\<lambda>(e, x). e \<noteq> Wildcard) (zip es (List.enumerate n bs)))"
  using assms
proof (induction es bs arbitrary: n rule: list_induct2)
  case (Cons e es b bs)
  have "P (Suc n + i) \<longleftrightarrow> es ! i \<noteq> Wildcard" if "i < length es" for i
    using Cons.prems [of "Suc i"] that by simp
  then show ?case using Cons.IH [of "Suc n"] Cons.prems [of 0] by simp
qed simp

text \<open>Bytes that match the head of a signature have its prefix.\<close>

lemma head_prefix:
  assumes "signature_head_matches s bytes"
  obtains k msk val where "signature_prefix s = (k, msk, val)" "unat k \<le> length bytes"
    "masked_prefix_value (take (unat k) bytes) msk = val"
proof -
  let ?k = "min (length (byte_sig s)) 8"
  let ?es = "take ?k (byte_sig s)" and ?bs = "take ?k bytes"
  let ?st = "fold add_element (List.enumerate 0 ?es) (0, 0)"
  have len: "length (byte_sig s) \<le> length bytes" and
    all: "list_all (\<lambda>(e, b). element_matches e b) (zip (byte_sig s) bytes)"
    using assms by (auto simp: signature_head_matches_def effective_head_len_def Let_def)
  have lens: "length ?es = length ?bs" using len by simp
  have "list_all2 element_matches ?es ?bs"
    using all len by (auto simp: list_all2_conv_all_nth list_all_length)
  from prefix_value [OF this, of 0 "(0, 0)"]
  have val: "snd ?st = fold add_byte (map snd (filter (\<lambda>(e, x). e \<noteq> Wildcard) (zip ?es (List.enumerate 0 ?bs)))) 0" by simp
  have "filter (\<lambda>(i, _). fst ?st AND push_bit i 1 \<noteq> 0) (List.enumerate 0 ?bs)
      = map snd (filter (\<lambda>(e, x). e \<noteq> Wildcard) (zip ?es (List.enumerate 0 ?bs)))"
    using lens
  proof (rule masked_elements)
    fix i
    assume "i < length ?es"
    then show "fst ?st AND push_bit (0 + i) 1 \<noteq> 0 \<longleftrightarrow> ?es ! i \<noteq> Wildcard"
      unfolding bit_iff_and_push_bit_not_eq_0 [symmetric] prefix_mask by auto
  qed
  then have masked: "masked_prefix_value ?bs (fst ?st) = snd ?st" by (simp add: masked_prefix_value_def val)
  have k: "unat (of_nat ?k :: u8) = ?k" by (simp add: unat_of_nat)
  have prefix: "signature_prefix s = (of_nat ?k, fst ?st, snd ?st)"
    by (simp add: signature_prefix_def effective_head_len_def PREFIX_LEN_def Let_def case_prod_beta)
  have "unat (of_nat ?k :: u8) \<le> length bytes" "masked_prefix_value (take (unat (of_nat ?k :: u8)) bytes) (fst ?st) = snd ?st"
    unfolding k using len masked by simp_all
  then show thesis by (rule that [OF prefix])
qed

section \<open>The index\<close>

abbreviation indices_of :: "(u8 \<times> u8 \<times> u64 \<rightharpoonup> nat list) \<Rightarrow> u8 \<times> u8 \<times> u64 \<Rightarrow> nat list" where
  "indices_of ps key \<equiv> (case ps key of None \<Rightarrow> [] | Some indices \<Rightarrow> indices)"

lemma index_signature_simps:
  "fst (index_signature e st) = insert (fst (signature_prefix (snd e)), fst (snd (signature_prefix (snd e)))) (fst st)"
  "indices_of (snd (index_signature e st)) key
   = (if key = signature_prefix (snd e) then indices_of (snd st) key @ [fst e] else indices_of (snd st) key)"
  by (auto simp: index_signature_def split: prod.splits)

lemma index_shapes:
  "fst (fold index_signature es st)
   = (\<lambda>e. (fst (signature_prefix (snd e)), fst (snd (signature_prefix (snd e))))) ` set es \<union> fst st"
  by (induction es arbitrary: st) (auto simp: index_signature_simps)

lemma index_prefixes:
  "indices_of (snd (fold index_signature es st)) key
   = indices_of (snd st) key @ map fst (filter (\<lambda>e. signature_prefix (snd e) = key) es)"
  by (induction es arbitrary: st) (auto simp: index_signature_simps)

lemma with_signatures_simps:
  "signatures (with_signatures sigs) = sigs"
  "prefix_shapes (with_signatures sigs)
   = sorted_list_of_set ((\<lambda>s. (fst (signature_prefix s), fst (snd (signature_prefix s)))) ` set sigs)"
  "set (indices_of (prefixes (with_signatures sigs)) key) = {i. i < length sigs \<and> signature_prefix (sigs ! i) = key}"
proof -
  let ?st = "fold index_signature (List.enumerate 0 sigs) ({}, Map.empty)"
  have eq: "with_signatures sigs = \<lparr>signatures = sigs, prefix_shapes = sorted_list_of_set (fst ?st), prefixes = snd ?st\<rparr>"
    by (simp add: with_signatures_def case_prod_beta)
  have "fst ?st = (\<lambda>s. (fst (signature_prefix s), fst (snd (signature_prefix s)))) ` snd ` set (List.enumerate 0 sigs)"
    by (simp add: index_shapes image_image)
  then show "prefix_shapes (with_signatures sigs)
      = sorted_list_of_set ((\<lambda>s. (fst (signature_prefix s), fst (snd (signature_prefix s)))) ` set sigs)"
    by (simp add: eq flip: set_map)
  show "set (indices_of (prefixes (with_signatures sigs)) key) = {i. i < length sigs \<and> signature_prefix (sigs ! i) = key}"
  proof -
    have "indices_of (prefixes (with_signatures sigs)) key = map fst (filter (\<lambda>e. signature_prefix (snd e) = key) (List.enumerate 0 sigs))"
      using index_prefixes [of "List.enumerate 0 sigs" "({}, Map.empty)" key] by (simp add: eq)
    then show ?thesis by (simp only: set_map set_filter) (auto simp: in_set_enumerate_eq image_iff)
  qed
qed (simp add: with_signatures_def case_prod_beta)

definition prefix_fits :: "u8 list \<Rightarrow> 'r flirt_signature \<Rightarrow> bool" where
  "prefix_fits bytes s \<longleftrightarrow>
     (case signature_prefix s of
        (len, msk, val) \<Rightarrow> unat len \<le> length bytes \<and> masked_prefix_value (take (unat len) bytes) msk = val)"

lemma set_candidates:
  "set (concat (map (shape_candidates (with_signatures sigs) bytes) (prefix_shapes (with_signatures sigs))))
   = {i. i < length sigs \<and> prefix_fits bytes (sigs ! i)}"
proof -
  have shape: "set (shape_candidates (with_signatures sigs) bytes (len, msk))
      = {i. i < length sigs \<and> prefix_fits bytes (sigs ! i) \<and> fst (signature_prefix (sigs ! i)) = len \<and> fst (snd (signature_prefix (sigs ! i))) = msk}"
    for len msk
  proof (cases "length bytes < unat len")
    case False
    then have "set (shape_candidates (with_signatures sigs) bytes (len, msk))
        = {i. i < length sigs \<and> signature_prefix (sigs ! i) = (len, msk, masked_prefix_value (take (unat len) bytes) msk)}"
      by (simp add: shape_candidates_def with_signatures_simps(3))
    moreover have "prefix_fits bytes s \<and> fst (signature_prefix s) = len \<and> fst (snd (signature_prefix s)) = msk
        \<longleftrightarrow> signature_prefix s = (len, msk, masked_prefix_value (take (unat len) bytes) msk)" for s :: "'a flirt_signature"
      using False by (cases "signature_prefix s") (auto simp: prefix_fits_def)
    ultimately show ?thesis by simp
  qed (auto simp: shape_candidates_def prefix_fits_def)
  have fin: "finite ((\<lambda>s. (fst (signature_prefix s), fst (snd (signature_prefix s)))) ` set sigs)" by simp
  show ?thesis
    unfolding set_concat set_map with_signatures_simps(2) set_sorted_list_of_set [OF fin]
    by (subst image_image [symmetric]) (auto simp: shape, metis nth_mem)
qed

section \<open>Scanning the signatures\<close>

lemma filter_checked_drop:
  "(\<And>x. x \<in> set xs \<Longrightarrow> \<not> P x \<Longrightarrow> p x = Some False) \<Longrightarrow> filter_checked p (filter P xs) = filter_checked p xs"
  by (induction xs) (auto simp: option.map_ident split: option.splits)

lemma nth_sorted_indices:
  assumes "sorted ixs" "distinct ixs" "set ixs = {i. i < length xs \<and> P (xs ! i)}"
  shows "map ((!) xs) ixs = filter P xs"
proof -
  have "ixs = filter (\<lambda>i. P (xs ! i)) [0..<length xs]"
    using assms by (intro sorted_distinct_set_unique) (auto simp: sorted_wrt_filter)
  then have "map ((!) xs) ixs = filter P (map ((!) xs) [0..<length xs])" by (simp add: filter_map comp_def)
  then show ?thesis by (simp only: map_nth)
qed

lemma sm_match_scan:
  "sm_match lib (with_signatures sigs) bytes = filter_checked (passes_checks lib bytes) sigs"
proof -
  let ?ixs = "remdups (sort (concat (map (shape_candidates (with_signatures sigs) bytes) (prefix_shapes (with_signatures sigs)))))"
  have set: "set ?ixs = {i. i < length sigs \<and> prefix_fits bytes (sigs ! i)}"
    using set_candidates [of sigs bytes] by simp
  then have "List.map_filter (\<lambda>i. if i < length sigs then Some (sigs ! i) else None) ?ixs = map ((!) sigs) ?ixs"
    by (auto simp: List.map_filter_def filter_True)
  also have "\<dots> = filter (prefix_fits bytes) sigs" by (rule nth_sorted_indices [OF _ _ set]) simp_all
  finally have "sm_match lib (with_signatures sigs) bytes = filter_checked (passes_checks lib bytes) (filter (prefix_fits bytes) sigs)"
    unfolding sm_match_def Let_def with_signatures_simps(1) by simp
  moreover have "passes_checks lib bytes s = Some False" if "\<not> prefix_fits bytes s" for s
  proof -
    have "\<not> signature_head_matches s bytes" using that by (auto simp: prefix_fits_def elim: head_prefix)
    then show ?thesis by (simp add: passes_checks_def and_then_def)
  qed
  ultimately show ?thesis by (simp add: filter_checked_drop)
qed

text \<open>
  C18: the index of signatures by their first eight bytes loses nothing and adds nothing. For every
  list of signatures and all bytes, the matcher returns the signatures that pass the checks of the
  head, the checksum, the tail bytes and the footer, in the order of the list, and it panics exactly
  when a scan of the whole list would.
\<close>

theorem signature_index_lossless:
  "sm_match lib (with_signatures sigs) bytes = filter_checked (passes_checks lib bytes) sigs"
  by (rule sm_match_scan)

section \<open>Matching a function\<close>

text \<open>
  The contract of the recursive call: on a memo that is \<open>ok\<close> it returns, and changes the memo
  only along \<open>R\<close>. Then so do the checks of references.
\<close>

locale function_matching =
  fixes mf :: "u64 \<Rightarrow> match_memo \<Rightarrow> string option matched"
    and ok :: "match_memo \<Rightarrow> bool"
    and R :: "match_memo \<Rightarrow> match_memo \<Rightarrow> bool"
  assumes R_refl: "R m m"
    and R_trans: "R m m' \<Longrightarrow> R m' m'' \<Longrightarrow> R m m''"
    and ok_R: "ok m \<Longrightarrow> R m m' \<Longrightarrow> ok m'"
    and mf_total: "ok m \<Longrightarrow> \<exists>r m'. mf a m = Inr (r, m') \<and> R m m'"
begin

lemma any_target_total: "ok m \<Longrightarrow> \<exists>b m'. any_target mf name targets m = Inr (b, m') \<and> R m m'"
proof (induction targets arbitrary: m)
  case (Cons t ts)
  from mf_total [OF Cons.prems, of t] obtain r m1 where m1: "mf t m = Inr (r, m1)" "R m m1" by blast
  from Cons.IH [OF ok_R [OF Cons.prems m1(2)]] obtain b m2 where "any_target mf name ts m1 = Inr (b, m2)" "R m1 m2" by blast
  then show ?case using m1 R_trans [OF m1(2)] by (simp add: ex_bool_eq)
qed (simp add: R_refl ex_bool_eq)

lemma references_match_total: "ok m \<Longrightarrow> \<exists>b m'. references_match mf st fa symbols m = Inr (b, m') \<and> R m m'"
proof (induction symbols arbitrary: m)
  case (Cons symbol symbols)
  show ?case
  proof (cases symbol)
    case (Reference r)
    have next_ok: "\<exists>b m'. rbind (any_target mf (fn_name r) targets m) (\<lambda>(ok, m).
        if ok then references_match mf st fa symbols m else Inr (False, m)) = Inr (b, m') \<and> R m m'" for targets
    proof -
      from any_target_total [OF Cons.prems, of "fn_name r" targets] obtain b m1
        where m1: "any_target mf (fn_name r) targets m = Inr (b, m1)" "R m m1" by blast
      from Cons.IH [OF ok_R [OF Cons.prems m1(2)]] obtain b' m2
        where "references_match mf st fa symbols m1 = Inr (b', m2)" "R m1 m2" by blast
      then show ?thesis using m1 R_trans [OF m1(2)] by (cases b) (simp_all add: ex_bool_eq)
    qed
    show ?thesis
      using next_ok Cons.IH [OF Cons.prems] R_refl unfolding Reference
      by (simp add: ex_bool_eq split: option.split)
  qed (simp_all add: Cons.IH [OF Cons.prems])
qed (simp add: R_refl ex_bool_eq)

text \<open>The signatures of a list whose references are in order.\<close>

lemma validate_total:
  assumes "ok m"
  shows "\<exists>valid m'. fold_result (\<lambda>s (valid, memo).
        rbind (references_match mf st fa (sig_names s) memo) (\<lambda>(ok, memo). Inr (if ok then valid @ [s] else valid, memo)))
      sigs (acc, m) = Inr (valid, m') \<and> R m m' \<and> set valid \<subseteq> set acc \<union> set sigs"
  using assms
proof (induction sigs arbitrary: acc m)
  case (Cons s sigs)
  from references_match_total [OF Cons.prems, of st fa "sig_names s"] obtain b m1
    where m1: "references_match mf st fa (sig_names s) m = Inr (b, m1)" "R m m1" by blast
  from Cons.IH [OF ok_R [OF Cons.prems m1(2)], of "if b then acc @ [s] else acc"] m1 R_trans [OF m1(2)]
  show ?case by (fastforce split: if_splits)
qed (simp add: R_refl)

end

text \<open>
  What the library promises: its checks return, and ordering candidates adds none. A database is
  an index of signatures, each with a name for the function it describes.
\<close>

definition flirt_lib_ok :: "'r flirt_lib \<Rightarrow> bool" where
  "flirt_lib_ok lib \<longleftrightarrow>
     (\<forall>s bytes. match_crc16 lib s bytes \<noteq> None \<and> match_tail_bytes lib s bytes \<noteq> None \<and> match_footer lib s bytes \<noteq> None)
     \<and> (\<forall>sigs bytes. \<exists>out. set_match lib sigs bytes = Some out \<and> set out \<subseteq> set sigs)"

definition database_ok :: "'r signature_database \<Rightarrow> bool" where
  "database_ok db \<longleftrightarrow>
     matcher db = with_signatures (signatures (matcher db))
     \<and> (\<forall>s \<in> set (signatures (matcher db)). root_name s \<noteq> None)"

text \<open>
  A name is justified by a signature of a database that passes all checks on the bytes of a
  recovered function and has the name as a local or public symbol at the address.
\<close>

definition justified ::
  "'r flirt_lib \<Rightarrow> 'd analysis \<Rightarrow> 'r signature_database list \<Rightarrow> u64 \<Rightarrow> string \<Rightarrow> bool" where
  "justified lib an dbs address name \<longleftrightarrow>
     bt_contains (an_functions an) address
     \<and> (\<exists>db \<in> set dbs. \<exists>s \<in> set (signatures (matcher db)). \<exists>base bytes n.
          bt_contains (an_functions an) base
          \<and> bytes_at (an_image an) base (max MATCH_WINDOW (function_size an base)) = Some bytes
          \<and> passes_checks lib bytes s = Some True
          \<and> (Public n \<in> set (sig_names s) \<or> Local n \<in> set (sig_names s))
          \<and> name_address base n = Some address \<and> fn_name n = name)"

definition memo_sound ::
  "'r flirt_lib \<Rightarrow> 'd analysis \<Rightarrow> 'r signature_database list \<Rightarrow> match_memo \<Rightarrow> bool" where
  "memo_sound lib an dbs m \<longleftrightarrow>
     bt_wf (recognized m)
     \<and> (\<forall>(address, name) \<in> set (recognized m). justified lib an dbs address name)
     \<and> (\<forall>address \<in> local_starts m. is_executable_address (an_image an) address
          \<and> containing_instruction an address = None)"

definition extends ::
  "'r flirt_lib \<Rightarrow> 'd analysis \<Rightarrow> 'r signature_database list \<Rightarrow> match_memo \<Rightarrow> match_memo \<Rightarrow> bool" where
  "extends lib an dbs m m' \<longleftrightarrow>
     fst ` set (cache m) \<subseteq> fst ` set (cache m') \<and> (memo_sound lib an dbs m \<longrightarrow> memo_sound lib an dbs m')"

lemma extends_refl: "extends lib an dbs m m"
  by (simp add: extends_def)

lemma extends_trans: "extends lib an dbs m m' \<Longrightarrow> extends lib an dbs m' m'' \<Longrightarrow> extends lib an dbs m m''"
  unfolding extends_def by blast

lemma extends_cache: "extends lib an dbs m (m\<lparr>cache := bt_insert a e (cache m)\<rparr>)"
  by (auto simp: extends_def memo_sound_def fst_set_insert)

lemma extends_complete: "extends lib an dbs m (complete a name m)"
  unfolding complete_def by (rule extends_cache)

lemma set_bt_insert: "bt_wf m \<Longrightarrow> set (bt_insert k v m) = insert (k, v) {e \<in> set m. fst e \<noteq> k}"
  by (induction k v m rule: bt_insert.induct) auto

lemma nameable_function: "nameable st base is_local a \<Longrightarrow> bt_contains (an_functions (ms_analysis st)) a"
  by (auto simp: nameable_def function_exists_def)

lemma extends_fold:
  "(\<And>x m. x \<in> set xs \<Longrightarrow> extends lib an dbs m (f x m)) \<Longrightarrow> extends lib an dbs m (fold f xs m)"
proof (induction xs arbitrary: m)
  case (Cons x xs)
  then show ?case using extends_trans [of lib an dbs m "f x m"] by simp
qed (simp add: extends_refl)

lemma apply_name_extends:
  assumes "\<And>a. name_address base n = Some a \<Longrightarrow> bt_contains (an_functions (ms_analysis st)) a
    \<Longrightarrow> justified lib (ms_analysis st) dbs a (fn_name n)"
  shows "extends lib (ms_analysis st) dbs m (apply_name st base is_local n m)"
proof (cases "name_address base n")
  case None
  then show ?thesis by (simp add: apply_name_def extends_refl)
next
  case (Some a)
  let ?m = "if is_local \<and> \<not> function_exists st a \<and> containing_instruction (ms_analysis st) a = None
      \<and> is_executable_address (an_image (ms_analysis st)) a
      then m\<lparr>local_starts := insert a (local_starts m)\<rparr> else m"
  have start: "extends lib (ms_analysis st) dbs m ?m" by (auto simp: extends_def memo_sound_def)
  have name: "extends lib (ms_analysis st) dbs m' (m'\<lparr>recognized := bt_insert a (fn_name n) (recognized m')\<rparr>)"
    if "nameable st base is_local a" for m'
    using assms [OF Some nameable_function [OF that]] by (auto simp: extends_def memo_sound_def set_bt_insert)
  have "apply_name st base is_local n m
      = (if nameable st base is_local a
         then complete a (Some (fn_name n)) (?m\<lparr>recognized := bt_insert a (fn_name n) (recognized ?m)\<rparr>) else ?m)"
    unfolding apply_name_def Some Let_def by simp
  then show ?thesis
    using start extends_trans [OF extends_trans [OF start name] extends_complete] by (simp split del: if_split split: if_split)
qed

lemma apply_names_extends:
  assumes "\<And>n a. Public n \<in> set (sig_names s) \<or> Local n \<in> set (sig_names s) \<Longrightarrow> name_address base n = Some a
    \<Longrightarrow> bt_contains (an_functions (ms_analysis st)) a \<Longrightarrow> justified lib (ms_analysis st) dbs a (fn_name n)"
  shows "extends lib (ms_analysis st) dbs m (apply_names st base s m)"
  unfolding apply_names_def
  by (rule extends_trans; rule extends_fold; split flirt_symbol.split)
    (auto intro!: apply_name_extends assms simp: extends_refl)

lemma name_function_total:
  assumes "\<forall>s \<in> set valid. root_name s \<noteq> None"
    and "\<And>s n a. s \<in> set valid \<Longrightarrow> Public n \<in> set (sig_names s) \<or> Local n \<in> set (sig_names s) \<Longrightarrow> name_address base n = Some a
    \<Longrightarrow> bt_contains (an_functions (ms_analysis st)) a \<Longrightarrow> justified lib (ms_analysis st) dbs a (fn_name n)"
  shows "\<exists>r m'. name_function st base valid m = Inr (r, m') \<and> extends lib (ms_analysis st) dbs m m'"
proof -
  let ?m = "case Option.bind (agreed_name valid) (\<lambda>name. find (\<lambda>s. root_name s = Some name) valid) of
      None \<Rightarrow> m | Some s \<Rightarrow> apply_names st base s m"
  have "extends lib (ms_analysis st) dbs m ?m"
  proof (cases "Option.bind (agreed_name valid) (\<lambda>name. find (\<lambda>s. root_name s = Some name) valid)")
    case (Some s)
    then have "s \<in> set valid" by (auto simp: bind_eq_Some_conv find_Some_iff in_set_conv_nth)
    from apply_names_extends [OF assms(2) [OF this]] show ?thesis by (simp add: Some)
  qed (simp add: extends_refl)
  then show ?thesis
    using assms(1) extends_trans [OF _ extends_complete]
    by (auto simp: name_function_def Let_def list_ex_iff)
qed

text \<open>Signatures that pass the checks are found, and only they.\<close>

lemma filter_checked_total:
  "(\<And>x. p x \<noteq> None) \<Longrightarrow> \<exists>ys. filter_checked p xs = Some ys \<and> set ys \<subseteq> {x \<in> set xs. p x = Some True}"
proof (induction xs)
  case (Cons x xs)
  then obtain ys ok where "filter_checked p xs = Some ys" "set ys \<subseteq> {x \<in> set xs. p x = Some True}" "p x = Some ok" by fastforce
  then show ?case by (cases ok) auto
qed simp

lemma signature_candidates_total:
  assumes "flirt_lib_ok lib" "database_ok db"
  shows "\<exists>cs. signature_candidates lib (matcher db) bytes = Some cs
    \<and> set cs \<subseteq> {s \<in> set (signatures (matcher db)). passes_checks lib bytes s = Some True}"
proof -
  have "passes_checks lib bytes s \<noteq> None" for s
  proof -
    obtain a b c where "match_crc16 lib s bytes = Some a" "match_tail_bytes lib s bytes = Some b" "match_footer lib s bytes = Some c"
      using assms(1) unfolding flirt_lib_ok_def by blast
    then show ?thesis by (cases a; cases b; cases "signature_head_matches s bytes") (simp_all add: passes_checks_def and_then_def)
  qed
  from filter_checked_total [where p = "passes_checks lib bytes" and xs = "signatures (matcher db)", OF this] obtain cs
    where cs: "sm_match lib (matcher db) bytes = Some cs"
      "set cs \<subseteq> {s \<in> set (signatures (matcher db)). passes_checks lib bytes s = Some True}"
    using assms(2) sm_match_scan [of lib "signatures (matcher db)" bytes] by (auto simp: database_ok_def)
  moreover obtain out where "set_match lib cs bytes = Some out" "set out \<subseteq> set cs"
    using assms(1) unfolding flirt_lib_ok_def by blast
  ultimately show ?thesis by (auto simp: signature_candidates_def)
qed

text \<open>The stack of nested calls is as deep as the functions that are not in the cache yet.\<close>

definition unvisited :: "'d analysis \<Rightarrow> match_memo \<Rightarrow> u64 set" where
  "unvisited an m = fst ` set (an_functions an) - fst ` set (cache m)"

definition stack_suffices ::
  "nat \<Rightarrow> 'r flirt_lib \<Rightarrow> ('d, 'r) matcher_state \<Rightarrow> 'r signature_database list \<Rightarrow> match_memo \<Rightarrow> bool" where
  "stack_suffices n lib st dbs m \<longleftrightarrow>
     flirt_lib_ok lib \<and> ms_database st \<in> set dbs \<and> database_ok (ms_database st) \<and> card (unvisited (ms_analysis st) m) < n"

lemma unvisited_extends:
  assumes "extends lib an dbs m m'"
  shows "card (unvisited an m') \<le> card (unvisited an m)"
  by (rule card_mono) (use assms in \<open>auto simp: unvisited_def extends_def\<close>)

lemma unvisited_visit:
  assumes "function_exists st a" "bt_get (cache m) a = None"
  shows "card (unvisited (ms_analysis st) (m\<lparr>cache := bt_insert a e (cache m)\<rparr>)) < card (unvisited (ms_analysis st) m)"
proof (rule psubset_card_mono)
  have "a \<in> unvisited (ms_analysis st) m"
    using assms by (force simp: unvisited_def function_exists_def map_of_eq_None_iff dest: map_of_SomeD)
  then show "unvisited (ms_analysis st) (m\<lparr>cache := bt_insert a e (cache m)\<rparr>) \<subset> unvisited (ms_analysis st) m"
    by (auto simp: unvisited_def fst_set_insert)
qed (simp add: unvisited_def)

lemma match_function_total:
  "stack_suffices n lib st dbs m
   \<Longrightarrow> \<exists>r m'. match_function n lib st a m = Inr (r, m') \<and> extends lib (ms_analysis st) dbs m m'"
proof (induction n arbitrary: a m)
  case 0
  then show ?case by (simp add: stack_suffices_def)
next
  case (Suc n)
  let ?an = "ms_analysis st" and ?m = "m\<lparr>cache := bt_insert a Visiting_Function (cache m)\<rparr>"
  note step = match_function.simps(2) [of n lib st a m]
  show ?case
  proof (cases "bt_get (recognized m) a = None \<and> function_exists st a \<and> bt_get (cache m) a = None")
    case False
    then show ?thesis by (auto simp: step extends_refl split: option.split cache_entry.split)
  next
    case True
    have visit: "extends lib ?an dbs m ?m" by (rule extends_cache)
    have less: "card (unvisited ?an ?m) < n"
      using Suc.prems unvisited_visit [of st a m Visiting_Function] True by (simp add: stack_suffices_def)
    then have ok: "stack_suffices n lib st dbs ?m" using Suc.prems by (simp add: stack_suffices_def)
    have contract: "function_matching (match_function n lib st) (stack_suffices n lib st dbs) (extends lib ?an dbs)"
    proof
      show "stack_suffices n lib st dbs m'" if "stack_suffices n lib st dbs m" "extends lib ?an dbs m m'" for m m'
        using that unvisited_extends [OF that(2)] by (simp add: stack_suffices_def)
    qed (use extends_refl extends_trans Suc.IH in \<open>blast+\<close>)
    show ?thesis
    proof (cases "bytes_at (an_image ?an) a (max MATCH_WINDOW (function_size ?an a))")
      case None
      have "match_function (Suc n) lib st a m = Inr (None, complete a None ?m)"
        using True None unfolding step by (simp add: Let_def)
      then show ?thesis using extends_trans [OF visit extends_complete] by blast
    next
      case (Some bytes)
      obtain cs where cs: "signature_candidates lib (matcher (ms_database st)) bytes = Some cs"
        "set cs \<subseteq> {s \<in> set (signatures (matcher (ms_database st))). passes_checks lib bytes s = Some True}"
        using signature_candidates_total Suc.prems unfolding stack_suffices_def by blast
      from function_matching.validate_total [OF contract ok, of st a cs "[]"] obtain valid m'
        where v: "fold_result (\<lambda>s (valid, memo).
            rbind (references_match (match_function n lib st) st a (sig_names s) memo) (\<lambda>(ok, memo).
              Inr (if ok then valid @ [s] else valid, memo))) cs ([], ?m) = Inr (valid, m')"
          "extends lib ?an dbs ?m m'" "set valid \<subseteq> set cs" by auto
      have "\<exists>r m2. name_function st a valid m' = Inr (r, m2) \<and> extends lib ?an dbs m' m2"
      proof (rule name_function_total)
        show "\<forall>s \<in> set valid. root_name s \<noteq> None"
          using v(3) cs(2) Suc.prems by (auto simp: stack_suffices_def database_ok_def)
        show "justified lib ?an dbs b (fn_name k)"
          if "s \<in> set valid" "Public k \<in> set (sig_names s) \<or> Local k \<in> set (sig_names s)" "name_address a k = Some b"
            "bt_contains (an_functions ?an) b" for s k b
          using that v(3) cs(2) Suc.prems True Some unfolding justified_def stack_suffices_def function_exists_def by blast
      qed
      then show ?thesis
        using True Some cs(1) v(1) extends_trans [OF extends_trans [OF visit v(2)]] unfolding step by (auto simp: Let_def)
    qed
  qed
qed

interpretation flirt: function_matching "match_function n lib st" "stack_suffices n lib st dbs" "extends lib (ms_analysis st) dbs"
  for n lib st dbs
proof
  show "stack_suffices n lib st dbs m'" if "stack_suffices n lib st dbs m" "extends lib (ms_analysis st) dbs m m'" for m m'
    using that unvisited_extends [OF that(2)] by (simp add: stack_suffices_def)
qed (use extends_refl extends_trans match_function_total in \<open>blast+\<close>)

section \<open>Recognition\<close>

lemma memo_sound_cache [simp]: "memo_sound lib an dbs (m\<lparr>cache := c\<rparr>) = memo_sound lib an dbs m"
  by (simp add: memo_sound_def)

lemma match_databases_total:
  assumes "flirt_lib_ok lib" "length (an_functions an) < n" "\<And>db. ms_analysis (mk db) = an" "\<And>db. ms_database (mk db) = db"
    and "set todo \<subseteq> set dbs" "\<forall>db \<in> set dbs. database_ok db" "memo_sound lib an dbs m"
  shows "\<exists>m'. match_databases n lib mk a todo m = Inr m' \<and> memo_sound lib an dbs m'"
  using assms(5,7)
proof (induction todo arbitrary: m)
  case (Cons db todo)
  have "card (fst ` set (an_functions an)) < n"
    using assms(2) card_image_le [of "set (an_functions an)" fst] card_length [of "an_functions an"] by simp
  then have "stack_suffices n lib (mk db) dbs (m\<lparr>cache := []\<rparr>)"
    using assms Cons.prems(1) by (simp add: stack_suffices_def unvisited_def)
  from flirt.mf_total [OF this, of a] obtain r m1
    where m1: "match_function n lib (mk db) a (m\<lparr>cache := []\<rparr>) = Inr (r, m1)" "extends lib an dbs (m\<lparr>cache := []\<rparr>) m1"
    using assms(3) by auto
  then have "memo_sound lib an dbs m1" using Cons.prems(2) by (simp add: extends_def)
  with Cons.IH [of m1] Cons.prems m1(1) show ?case by auto
qed simp

lemma identify_total:
  assumes "flirt_lib_ok lib" "\<forall>db \<in> set dbs. database_ok db" "length (an_functions an) < n"
  shows "\<exists>found starts. identify_with_local_starts n lib an dbs = Inr (found, starts)
    \<and> (format (an_image an) \<noteq> Pe \<longrightarrow> found = []) \<and> bt_wf found
    \<and> (\<forall>(address, name) \<in> set found. justified lib an dbs address name)
    \<and> (\<forall>address \<in> starts. is_executable_address (an_image an) address \<and> containing_instruction an address = None)"
proof (cases "format (an_image an) \<noteq> Pe \<or> dbs = []")
  case False
  have "\<exists>m'. fold_result (\<lambda>address memo. match_databases n lib (identify_state an address) address dbs memo) addresses m = Inr m'
      \<and> memo_sound lib an dbs m'" if "memo_sound lib an dbs m" for addresses m
    using that
  proof (induction addresses arbitrary: m)
    case (Cons a addresses)
    have st: "ms_analysis (identify_state an a db) = an" "ms_database (identify_state an a db) = db" for db :: "'a signature_database"
      by (simp_all add: identify_state_def)
    from match_databases_total [of lib an n "identify_state an a" dbs dbs, OF assms(1,3) st order_refl assms(2) Cons.prems]
    obtain m1 where "match_databases n lib (identify_state an a) a dbs m = Inr m1" "memo_sound lib an dbs m1" by blast
    with Cons.IH show ?case by auto
  qed simp
  from this [of "\<lparr>recognized = [], cache = [], local_starts = {}\<rparr>" "linorder_class.sort_key (discovery_key an) (map fst (an_functions an))"]
  show ?thesis using False by (fastforce simp: identify_with_local_starts_def memo_sound_def)
qed (auto simp: identify_with_local_starts_def)

text \<open>
  C19: identifying library functions ends. When the checks of the signature library return and
  every signature names its function, a call stack deeper than the number of recovered functions
  suffices, and the result is a map of recovered functions to names, empty unless the image is a PE
  file. Every name is justified: a signature of one of the databases passes all its checks on the
  bytes of a recovered function and has the name as a symbol at the named function. The starts
  for further discovery are executable addresses outside all known instructions.
\<close>

theorem library_functions_identified:
  assumes "flirt_lib_ok lib" "\<forall>db \<in> set dbs. database_ok db" "length (an_functions an) < n"
  shows "\<exists>found starts. identify_with_local_starts n lib an dbs = Inr (found, starts)
    \<and> (format (an_image an) \<noteq> Pe \<longrightarrow> found = []) \<and> bt_wf found
    \<and> (\<forall>(address, name) \<in> set found. justified lib an dbs address name)
    \<and> (\<forall>address \<in> starts. is_executable_address (an_image an) address \<and> containing_instruction an address = None)"
  using assms by (rule identify_total)

text \<open>A function of three bytes and a signature for it that leaves the second open.\<close>

definition example_flirt_lib :: "unit flirt_lib" where
  "example_flirt_lib = flirt_lib.make (\<lambda>_ _. Some True) (\<lambda>_ _. Some True) (\<lambda>_ _. Some True) (\<lambda>sigs _. Some sigs)
     (\<lambda>_. Some (Inr [])) (\<lambda>_. Some (Inr []))"

definition example_signature :: "unit flirt_signature" where
  "example_signature = flirt_signature.make [SigByte 0x55, Wildcard, SigByte 0xEC]
     [Public (flirt_name.make 0 ''root''), Reference (flirt_name.make 1 ''.'')] ()"

definition example_database :: "unit signature_database" where
  "example_database = signature_database.make ''example.pat'' (with_signatures [example_signature])"

definition example_code :: "unit analysis" where
  "example_code = analysis.make (from_shellcode [0x55, 0x8B, 0xEC] X86 \<lparr>format := Pe\<rparr>) []
     [(SHELLCODE_BASE, recovered_function.make SHELLCODE_BASE [])] [] [] [] [] []
     [(SHELLCODE_BASE, decoded_instruction.make SHELLCODE_BASE [0x55, 0x8B, 0xEC] (SHELLCODE_BASE + 3) Next None None None ())]
     [] [(0x5000, [SHELLCODE_BASE])] [] [] [] [] {} {}"

lemma example_flirt_lib_ok: "flirt_lib_ok example_flirt_lib"
  by (simp add: flirt_lib_ok_def example_flirt_lib_def flirt_lib.defs)

lemma example_database_ok: "\<forall>db \<in> set [example_database]. database_ok db"
  by (simp add: database_ok_def example_database_def signature_database.defs with_signatures_simps(1)
      example_signature_def flirt_signature.defs root_name_def symbol_name_def flirt_name.defs)

lemma example_bytes:
  "bytes_at (an_image example_code) SHELLCODE_BASE (max MATCH_WINDOW (function_size example_code SHELLCODE_BASE)) = Some [0x55, 0x8B, 0xEC]"
  by (simp add: example_code_def analysis.defs function_size_def recovered_function.defs map_filter_simps MATCH_WINDOW_def
      bytes_at_def from_shellcode_def section_containing_def contains_va_def end_address_def SHELLCODE_BASE_def
      checked_add_u64_def checked_sub_u64_def checked_add_def USIZE_def get_range_def Let_def)

lemma example_candidates:
  "signature_candidates example_flirt_lib (matcher example_database) [0x55, 0x8B, 0xEC] = Some [example_signature]"
  by (simp add: signature_candidates_def sm_match_scan example_database_def signature_database.defs passes_checks_def and_then_def
      signature_head_matches_def effective_head_len_def example_signature_def flirt_signature.defs
      example_flirt_lib_def flirt_lib.defs)

lemmas example_code_simps =
  example_code_def analysis.defs recovered_function.defs decoded_instruction.defs example_signature_def flirt_signature.defs
  flirt_name.defs identify_state_def

lemma example_valid:
  "references_match mf (identify_state example_code SHELLCODE_BASE db) SHELLCODE_BASE (sig_names example_signature) memo = Inr (True, memo)"
  by (simp add: example_code_simps visible_instruction_def containing_instruction_def references_data_def
      index_xrefs_by_source_def bt_entry_def checked_add_u64_def SHELLCODE_BASE_def)

lemma example_named:
  "name_function (identify_state example_code SHELLCODE_BASE example_database) SHELLCODE_BASE [example_signature] memo
   = Inr (Some ''root'', complete SHELLCODE_BASE (Some ''root'') (complete SHELLCODE_BASE (Some ''root'')
       (memo\<lparr>recognized := bt_insert SHELLCODE_BASE ''root'' (recognized memo)\<rparr>)))"
  by (simp add: name_function_def agreed_name_def root_name_def symbol_name_def apply_names_def apply_name_def name_address_def
      nameable_def function_exists_def example_code_simps map_filter_simps checked_add_u64_def SHELLCODE_BASE_def bt_get_insert complete_def Let_def)

lemma example_found:
  "\<exists>starts. identify_with_local_starts 2 example_flirt_lib example_code [example_database] = Inr ([(SHELLCODE_BASE, ''root'')], starts)"
proof -
  have st: "ms_analysis (identify_state example_code a db) = example_code" "ms_database (identify_state example_code a db) = db" for a db
    by (simp_all add: identify_state_def)
  have "function_exists (identify_state example_code SHELLCODE_BASE example_database) SHELLCODE_BASE"
    by (simp add: function_exists_def example_code_simps)
  then have "match_function 2 example_flirt_lib (identify_state example_code SHELLCODE_BASE example_database) SHELLCODE_BASE
      \<lparr>recognized = [], cache = [], local_starts = {}\<rparr> =
    Inr (Some ''root'', complete SHELLCODE_BASE (Some ''root'') (complete SHELLCODE_BASE (Some ''root'')
       \<lparr>recognized = [(SHELLCODE_BASE, ''root'')], cache = [(SHELLCODE_BASE, Visiting_Function)], local_starts = {}\<rparr>))"
    by (simp add: numeral_2_eq_2 st example_bytes example_candidates example_valid example_named)
  moreover have "map fst (an_functions example_code) = [SHELLCODE_BASE]" "format (an_image example_code) = Pe"
    by (simp_all add: example_code_simps)
  ultimately show ?thesis by (simp add: identify_with_local_starts_def complete_def)
qed

theorem library_functions_identified_witness:
  "\<exists>found starts. identify_with_local_starts 2 example_flirt_lib example_code [example_database] = Inr (found, starts)
     \<and> found = [(SHELLCODE_BASE, ''root'')]
     \<and> justified example_flirt_lib example_code [example_database] SHELLCODE_BASE ''root''"
proof -
  have "length (an_functions example_code) < 2" by (simp add: example_code_def analysis.defs)
  from library_functions_identified [OF example_flirt_lib_ok example_database_ok this] example_found
  show ?thesis by auto
qed

end
