(* ===== verification/Pipeline.thy ===== *)
theory Pipeline
  imports Enrich_Props Flirt_Props Display
begin

text \<open>
  From recovered code to the document: library functions are identified, the features of the
  other functions extracted, the rules matched against them, and the matches displayed.
\<close>

section \<open>Extracted features are no matches\<close>

lemma plain_list_all:
  assumes "list_all P feats" "\<And>a f. P (a, f) \<Longrightarrow> matched_name f = None"
  shows "plain feats"
  using assms by (auto simp: plain_def list_all_iff)

lemma legal_unmatched: "legal_at sc f \<Longrightarrow> matched_name f = None"
  by (cases f) (simp_all add: legal_at_def)

lemma plain_extracted:
  "plain (insn_extract_features ctx insn)" "plain (a64_extract_features ctx' insn')"
  "plain (bb_extract_features b)" "plain (a64_bb_extract_features b')" "plain (function_extract_features an f)"
proof -
  show "plain (insn_extract_features ctx insn)"
    by (rule plain_list_all [OF insn_features_ok]) (auto simp: at_instruction_def call_feature_def intro: legal_unmatched)
  show "plain (a64_extract_features ctx' insn')"
    by (rule plain_list_all [OF a64_features_ok]) (auto simp: at_instruction_def call_feature_def intro: legal_unmatched)
  show "plain (bb_extract_features b)"
    by (rule plain_list_all [OF block_features_ok(1)]) (auto simp: block_feature_ok_def intro: legal_unmatched split: if_splits)
  show "plain (a64_bb_extract_features b')"
    by (rule plain_list_all [OF block_features_ok(2)]) (auto simp: block_feature_ok_def intro: legal_unmatched split: if_splits)
  show "plain (function_extract_features an f)"
  proof (rule plain_list_all [OF function_features_ok])
    fix a f
    assume "function_feature_ok (a, f)"
    then show "matched_name f = None" by (cases f) (auto dest: legal_unmatched)
  qed
qed

lemma set_insert_subset: "set (bt_insert k v m) \<subseteq> insert (k, v) (set m)"
  by (induction k v m rule: bt_insert.induct) auto

lemma set_fold_insert:
  "set (fold (\<lambda>x. bt_insert (key x) (val x)) xs m) \<subseteq> (\<lambda>x. (key x, val x)) ` set xs \<union> set m"
proof (induction xs arbitrary: m)
  case (Cons x xs)
  then show ?case using set_insert_subset [of "key x" "val x" m] by fastforce
qed simp

lemma plain_entry:
  assumes "plain fs" "\<And>b. plain (bf b)" "\<And>b a x. (a, x) \<in> set (nf b) \<Longrightarrow> plain x"
  shows "plain_function (function_entry bf nf fs f)"
proof -
  have block: "plain_block (block_entry bf nf b)" for b
    using set_fold_insert [of fst "\<lambda>x. \<lparr>insn_features = snd x\<rparr>" "nf b" "[]"] assms(2,3)
    by (fastforce simp: plain_block_def block_entry_def case_prod_unfold)
  show ?thesis
    using set_fold_insert [of "\<lambda>b. Absolute (block_addr b)" "block_entry bf nf" "blocks f" "[]"] assms(1) block
    by (fastforce simp: plain_function_def function_entry_def)
qed

lemma plain_enriched:
  assumes "plain_static fz" "\<And>f. plain_function (extract f)"
  shows "plain_static (enrich_with extract an libraries fz)"
proof -
  have "plain (library_names libraries)"
    by (auto simp: plain_def library_names_def split: option.splits)
  moreover have "plain_function func" if "(a, func) \<in> set (st_functions (enrich_with extract an libraries fz))" for a func
    using that set_fold_insert [of "\<lambda>e. Absolute (fst e)" "\<lambda>e. extract (snd e)"
        "filter (\<lambda>(a, _). \<not> bt_contains libraries a) (an_functions an)" "st_functions fz"] assms
    by (fastforce simp: enrich_with_def Let_def case_prod_unfold plain_static_def)
  ultimately show ?thesis using assms(1) by (auto simp: plain_static_def enrich_with_def Let_def plain_def)
qed

lemma plain_enrich_static_features:
  "plain_static fz \<Longrightarrow> plain_static (enrich_static_features an libraries fz)"
  unfolding enrich_static_features_def
  by (rule plain_enriched) (auto simp: extract_function_features_def Let_def plain_extracted intro!: plain_entry)

lemma plain_a64_enrich_static_features:
  "plain_static fz \<Longrightarrow> plain_static (a64_enrich_static_features an libraries fz)"
  unfolding a64_enrich_static_features_def
proof (rule plain_enriched)
  fix f
  have "plain x" if "(a, x) \<in> set (extract_block_insn_features an g b)" for a x g b
    using that set_fold_insert [of "\<lambda>insn. Absolute (insn_address insn)"] plain_extracted(2)
    by (fastforce simp: extract_block_insn_features_def Let_def)
  then show "plain_function (a64_function_features an f)"
    by (auto simp: a64_function_features_def Let_def plain_extracted intro!: plain_entry)
qed

section \<open>From code to the document\<close>

text \<open>
  An executable whose code is recovered is analysed to the end. When the signature library
  keeps its promises, no rule and no nested scope of a rule consists of a nested scope alone, and the
  rules can be displayed, then the library functions are identified, the features of the remaining
  functions match the rules without an error, and the document of the matches is built, given
  enough stack, for every iteration order of the hash maps, on x86 and on 64-bit ARM.
\<close>

lemma executable_analysed:
  assumes "MatchingRuleSet_new yl db rules = Inr mrs" "\<forall>r \<in> set rules. well_nested (body r)" "displayable_rules mrs rank"
    and "\<And>ms. mset (it ms) = mset ms" "plain_static fz"
    and "flirt_lib_ok fl" "\<forall>d \<in> set dbs. database_ok d"
    and "length (an_functions an) < n" "length (an_functions an') < n"
  shows "(\<exists>libraries caps depth. identify_library_functions n fl an dbs = Inr libraries
      \<and> find_static_capabilities rx it mrs (enrich_static_features an libraries fz) = Inr caps
      \<and> (\<forall>k \<ge> depth. \<exists>doc. build_result_document k yl it mrs (sc_matches caps) md = Inr doc))
    \<and> (\<exists>libraries caps depth. identify_library_functions n fl an' dbs = Inr libraries
      \<and> find_static_capabilities rx it mrs (a64_enrich_static_features an' libraries fz) = Inr caps
      \<and> (\<forall>k \<ge> depth. \<exists>doc. build_result_document k yl it mrs (sc_matches caps) md = Inr doc))"
proof -
  have analysed: "\<exists>caps depth. find_static_capabilities rx it mrs x = Inr caps
      \<and> (\<forall>k \<ge> depth. \<exists>doc. build_result_document k yl it mrs (sc_matches caps) md = Inr doc)" if "plain_static x" for x
    using find_static_total [OF all_evaluable_new [OF assms(1,2)]] static_displayed [OF assms(3,4) that] by blast
  from identify_total [OF assms(6,7,8)] obtain l1 where l1: "identify_library_functions n fl an dbs = Inr l1"
    by (auto simp: identify_library_functions_def)
  from identify_total [OF assms(6,7,9)] obtain l2 where l2: "identify_library_functions n fl an' dbs = Inr l2"
    by (auto simp: identify_library_functions_def)
  from analysed [OF plain_enrich_static_features [OF assms(5), of an l1]]
    analysed [OF plain_a64_enrich_static_features [OF assms(5), of an' l2]] l1 l2
  show ?thesis by blast
qed

lemma executable_analysed_witness:
  "\<exists>mrs libraries caps depth. MatchingRuleSet_new example_yaml (\<lambda>_ _. None) referring_rules = Inr mrs
     \<and> identify_library_functions 4 example_flirt_lib example_program [example_database] = Inr libraries
     \<and> find_static_capabilities example_regex rev mrs (enrich_static_features example_program libraries example_base) = Inr caps
     \<and> (\<exists>doc. build_result_document depth example_yaml rev mrs (sc_matches caps) example_metadata = Inr doc)"
proof -
  from example_analysis obtain mrs scaps dcaps
    where mrs: "MatchingRuleSet_new example_yaml (\<lambda>_ _. None) referring_rules = Inr mrs"
    and "find_static_capabilities example_regex rev mrs example_sample = Inr scaps"
      "find_dynamic_capabilities example_regex rev mrs example_trace = Inr dcaps"
    and P: "displayable_rules mrs example_rank
     \<and> map fst (sc_matches scaps) = [''a'', ''b''] \<and> map fst (dc_matches dcaps) = [''a'', ''b'']"
    by (rule example_holdsE)
  have nested: "\<forall>r \<in> set referring_rules. well_nested (body r)"
    by (simp add: referring_rules_def example_rules_def basic_rule_def rule.defs well_nested_def root_subscope_def)
  have plain: "plain_static example_base"
    by (simp add: example_base_def plain_static_def plain_globals_def plain_def static_features.defs)
  have sizes: "length (an_functions example_program) < 4" "length (an_functions example_arm_program) < 4"
    by (simp_all add: example_program_def example_arm_program_def analysis.defs)
  from executable_analysed [where it = rev and rx = example_regex and md = example_metadata,
      OF mrs nested conjunct1 [OF P] example_order(1) plain example_flirt_lib_ok example_database_ok sizes]
  obtain libraries caps depth where "identify_library_functions 4 example_flirt_lib example_program [example_database] = Inr libraries"
    "find_static_capabilities example_regex rev mrs (enrich_static_features example_program libraries example_base) = Inr caps"
    "\<forall>k \<ge> depth. \<exists>doc. build_result_document k example_yaml rev mrs (sc_matches caps) example_metadata = Inr doc"
    by (elim conjE exE)
  with mrs show ?thesis by (intro exI [of _ mrs] exI [of _ libraries] exI [of _ caps] exI [of _ depth]) simp
qed

end
