(* ===== verification/Api.thy ===== *)
theory Api
  imports File_Props Freeze_Read Pipeline
begin

text \<open>
  \<^verbatim>\<open>capa-x/src/api.rs\<close>: the library's entry point, from the bytes of a sample to its document,
  and the filter of rules by a tag. What the entry point calls and this development does not
  define (goblin, the recovery of code from an image, the reader of .NET metadata, files of
  signatures) are fields of \<open>front_end\<close>. A result is \<open>Inl (Some e)\<close> for an error that is
  returned, and \<open>Inl None\<close> where the call does not return because it panics or its stack ends.
  Timings are not modelled, and the number of jobs does not matter to results.
\<close>

section \<open>Options and errors\<close>

datatype input_format = AutoFormat | PeFormat | ElfFormat | Sc32Format | Sc64Format | FreezeFormat | DotnetFormat | MachoFormat

fun format_as_str :: "input_format \<Rightarrow> string" where
  "format_as_str AutoFormat = ''auto''"
| "format_as_str PeFormat = ''pe''"
| "format_as_str ElfFormat = ''elf''"
| "format_as_str Sc32Format = ''sc32''"
| "format_as_str Sc64Format = ''sc64''"
| "format_as_str FreezeFormat = ''freeze''"
| "format_as_str DotnetFormat = ''dotnet''"
| "format_as_str MachoFormat = ''macho''"

record analysis_options =
  ao_format :: input_format
  ao_os :: "string option"
  ao_arch :: "string option"
  ao_file_only :: bool
  ao_signatures_path :: "string option"

record api_input =
  in_bytes :: "u8 list"
  in_sample_path :: string
  in_rules_paths :: "string list"
  in_argv :: "string list option"

record loaded_input =
  li_freeze :: frozen
  li_library_functions :: "library_function list"

datatype analysis_error =
    PeExtract extract_error
  | PeRecover recovery_error
  | ElfExtract extract_error
  | ElfRecover recovery_error
  | DotnetExtract extract_error
  | ScRecover recovery_error
  | MachoExtract extract_error
  | MachoRecover recovery_error
  | FreezeFailed freeze_error
  | UnknownFormat
  | SignatureFailed flirt_error
  | MatchingFailed string "capability_error + engine_error"
  | DocumentFailed from_capa_error

type_synonym 'a analysed = "analysis_error option + 'a"

fun exit_code :: "analysis_error \<Rightarrow> nat" where
  "exit_code (SignatureFailed _) = 15"
| "exit_code UnknownFormat = 16"
| "exit_code _ = 13"

text \<open>Recovered code is that of an x86 or of a 64-bit ARM image.\<close>

datatype recovered_code = X86Code x86_analysis | A64Code a64_analysis

record 'r front_end =
  fe_pe :: pe_lib
  fe_elf :: "u8 list \<Rightarrow> string + parsed_elf"
  fe_macho :: "u8 list \<Rightarrow> string + parsed_macho"
  fe_arch_names :: arch_names
  fe_from_macho :: "u8 list \<Rightarrow> string option \<Rightarrow> image_error + loaded_image"
  fe_image_text :: "image_error \<Rightarrow> string"
  fe_digests :: digests
  fe_freeze :: freeze_lib
  fe_flirt :: "'r flirt_lib"
  fe_signatures :: "string option \<Rightarrow> flirt_error + 'r signature_database list"
  fe_recover_pe :: "u8 list \<Rightarrow> 'r signature_database list \<Rightarrow> recovery_error + recovered_code"
  fe_recover_elf :: "u8 list \<Rightarrow> recovery_error + recovered_code"
  fe_recover_macho :: "u8 list \<Rightarrow> string option \<Rightarrow> recovery_error + recovered_code"
  fe_recover_sc :: "u8 list \<Rightarrow> architecture \<Rightarrow> recovery_error + recovered_code"
  fe_clr_header :: "u8 list \<Rightarrow> (u32 \<times> u32) option"
  fe_dotnet :: "u8 list \<Rightarrow> extract_error + static_features"

abbreviation returned :: "('e \<Rightarrow> analysis_error) \<Rightarrow> 'e + 'a \<Rightarrow> 'a analysed" where
  "returned err \<equiv> map_err (Some \<circ> err)"

section \<open>Loading\<close>

definition enrich_code :: "recovered_code \<Rightarrow> (u64, string) btree \<Rightarrow> static_features \<Rightarrow> static_features" where
  "enrich_code code libraries fz =
     (case code of
        X86Code an \<Rightarrow> enrich_static_features an libraries fz
      | A64Code an \<Rightarrow> a64_enrich_static_features an libraries fz)"

definition identify_code ::
  "nat \<Rightarrow> 'r flirt_lib \<Rightarrow> recovered_code \<Rightarrow> 'r signature_database list \<Rightarrow> flirt_error option + (u64, string) btree" where
  "identify_code n fl code dbs =
     (case code of
        X86Code an \<Rightarrow> identify_library_functions n fl an dbs
      | A64Code an \<Rightarrow> identify_library_functions n fl an dbs)"

definition is_section_feature :: "feature \<Rightarrow> bool" where
  "is_section_feature f = (case f of Section _ \<Rightarrow> True | _ \<Rightarrow> False)"

text \<open>The sections of the loaded image take the place of those of the file, on x86.\<close>

definition image_sections :: "loaded_image \<Rightarrow> static_features \<Rightarrow> static_features" where
  "image_sections img fz =
     (if arch img = X86 \<or> arch img = X64
      then fz\<lparr>st_file_features := filter (\<lambda>(_, f). \<not> is_section_feature f) (st_file_features fz)
                @ map (\<lambda>s. (Absolute (sec_address s), Section (sec_name s))) (sections img)\<rparr>
      else fz)"

fun code_image :: "recovered_code \<Rightarrow> loaded_image" where
  "code_image (X86Code an) = an_image an"
| "code_image (A64Code an) = an_image an"

definition extract_pe_input :: "nat \<Rightarrow> 'r front_end \<Rightarrow> u8 list \<Rightarrow> analysis_options \<Rightarrow> loaded_input analysed" where
  "extract_pe_input n fe bytes opts =
     rbind (returned PeExtract (extract_pe (fe_pe fe) (fe_digests fe) bytes)) (\<lambda>features.
     rbind (returned SignatureFailed (fe_signatures fe (ao_signatures_path opts))) (\<lambda>signatures.
     rbind (returned PeRecover (fe_recover_pe fe bytes signatures)) (\<lambda>code.
     rbind (map_err (map_option SignatureFailed) (identify_code n (fe_flirt fe) code signatures)) (\<lambda>libraries.
       Inr \<lparr>li_freeze = StaticFreeze (enrich_code code libraries (image_sections (code_image code) features)),
            li_library_functions =
              map (\<lambda>(a, name). \<lparr>lf_address = to_rd_address (Absolute a), lf_name = name\<rparr>) libraries\<rparr>))))"

fun is_format_feature :: "feature \<Rightarrow> bool" where
  "is_format_feature (Format _) = True"
| "is_format_feature _ = False"

definition file_only_input :: "static_features \<Rightarrow> loaded_input" where
  "file_only_input fz =
     \<lparr>li_freeze = StaticFreeze
        (fz\<lparr>st_global_features := filter (\<lambda>f. \<not> is_format_feature f) (st_global_features fz),
            st_file_features := st_file_features fz @ map (Pair NoAddress) (filter is_format_feature (st_global_features fz))\<rparr>),
      li_library_functions = []\<rparr>"

definition extract_pe_file_only :: "'r front_end \<Rightarrow> u8 list \<Rightarrow> loaded_input analysed" where
  "extract_pe_file_only fe bytes =
     returned PeExtract (map_ok file_only_input (extract_pe (fe_pe fe) (fe_digests fe) bytes))"

definition extract_elf_features :: "'r front_end \<Rightarrow> u8 list \<Rightarrow> static_features analysed" where
  "extract_elf_features fe bytes =
     (case extract_elf (fe_elf fe) (fe_digests fe) bytes of
        Inl _ \<Rightarrow> Inl None
      | Inr r \<Rightarrow> returned ElfExtract r)"

definition without_libraries :: "static_features \<Rightarrow> loaded_input" where
  "without_libraries fz = \<lparr>li_freeze = StaticFreeze fz, li_library_functions = []\<rparr>"

definition extract_elf_input :: "'r front_end \<Rightarrow> u8 list \<Rightarrow> loaded_input analysed" where
  "extract_elf_input fe bytes =
     rbind (extract_elf_features fe bytes) (\<lambda>features.
     map_ok (\<lambda>code. without_libraries (enrich_code code [] features)) (returned ElfRecover (fe_recover_elf fe bytes)))"

definition extract_elf_file_only :: "'r front_end \<Rightarrow> u8 list \<Rightarrow> loaded_input analysed" where
  "extract_elf_file_only fe bytes = map_ok file_only_input (extract_elf_features fe bytes)"

abbreviation macho_features :: "'r front_end \<Rightarrow> u8 list \<Rightarrow> analysis_options \<Rightarrow> static_features analysed" where
  "macho_features fe bytes opts \<equiv>
     returned MachoExtract (extract_macho (fe_macho fe) (fe_arch_names fe) (fe_from_macho fe) (fe_image_text fe) (fe_digests fe)
       bytes (ao_arch opts))"

definition extract_macho_input :: "'r front_end \<Rightarrow> u8 list \<Rightarrow> analysis_options \<Rightarrow> loaded_input analysed" where
  "extract_macho_input fe bytes opts =
     rbind (macho_features fe bytes opts) (\<lambda>features.
     map_ok (\<lambda>code. without_libraries (enrich_code code [] features))
       (returned MachoRecover (fe_recover_macho fe bytes (ao_arch opts))))"

definition extract_macho_file_only :: "'r front_end \<Rightarrow> u8 list \<Rightarrow> analysis_options \<Rightarrow> loaded_input analysed" where
  "extract_macho_file_only fe bytes opts = map_ok without_libraries (macho_features fe bytes opts)"

definition extract_dotnet_input :: "'r front_end \<Rightarrow> u8 list \<Rightarrow> loaded_input analysed" where
  "extract_dotnet_input fe bytes = map_ok without_libraries (returned DotnetExtract (fe_dotnet fe bytes))"

definition extract_sc_input :: "'r front_end \<Rightarrow> u8 list \<Rightarrow> architecture \<Rightarrow> string option \<Rightarrow> loaded_input analysed" where
  "extract_sc_input fe bytes ar os =
     map_ok (\<lambda>code. without_libraries (enrich_code code [] (extract_sc (fe_digests fe) bytes ar os)))
       (returned ScRecover (fe_recover_sc fe bytes ar))"

definition extract_sc_file_only :: "'r front_end \<Rightarrow> u8 list \<Rightarrow> architecture \<Rightarrow> string option \<Rightarrow> loaded_input" where
  "extract_sc_file_only fe bytes ar os = without_libraries (extract_sc (fe_digests fe) bytes ar os)"

definition parse_freeze_bytes :: "regex_lib \<Rightarrow> freeze_lib \<Rightarrow> u8 list \<Rightarrow> freeze_error + frozen" where
  "parse_freeze_bytes rx fl bytes =
     (if is_freeze bytes then load rx fl bytes
      else rbind (ok_or (Utf8 (utf8_failure fl bytes)) (from_utf8 bytes)) (loads rx fl))"

definition frozen_input :: "freeze_error + frozen \<Rightarrow> (loaded_input \<times> string) analysed" where
  "frozen_input r =
     returned FreezeFailed (map_ok (\<lambda>fr. (\<lparr>li_freeze = fr, li_library_functions = []\<rparr>, ''freeze'')) r)"

definition looks_like_dotnet_pe :: "'r front_end \<Rightarrow> u8 list \<Rightarrow> bool" where
  "looks_like_dotnet_pe fe bytes = (case fe_clr_header fe bytes of None \<Rightarrow> False | Some (va, sz) \<Rightarrow> va \<noteq> 0 \<and> sz \<noteq> 0)"

abbreviation named :: "string \<Rightarrow> loaded_input analysed \<Rightarrow> (loaded_input \<times> string) analysed" where
  "named fmt \<equiv> map_ok (\<lambda>f. (f, fmt))"

definition load_pe :: "nat \<Rightarrow> 'r front_end \<Rightarrow> u8 list \<Rightarrow> analysis_options \<Rightarrow> (loaded_input \<times> string) analysed" where
  "load_pe n fe bytes opts =
     named ''pe'' (if ao_file_only opts then extract_pe_file_only fe bytes else extract_pe_input n fe bytes opts)"

definition load_elf :: "'r front_end \<Rightarrow> u8 list \<Rightarrow> analysis_options \<Rightarrow> (loaded_input \<times> string) analysed" where
  "load_elf fe bytes opts =
     named ''elf'' (if ao_file_only opts then extract_elf_file_only fe bytes else extract_elf_input fe bytes)"

definition load_auto :: "regex_lib \<Rightarrow> nat \<Rightarrow> 'r front_end \<Rightarrow> u8 list \<Rightarrow> analysis_options \<Rightarrow> (loaded_input \<times> string) analysed" where
  "load_auto rx n fe bytes opts =
     (if looks_like_dotnet_pe fe bytes then named ''dotnet'' (extract_dotnet_input fe bytes)
      else if looks_like_pe bytes then load_pe n fe bytes opts
      else if looks_like_elf bytes then load_elf fe bytes opts
      else if is_freeze bytes then frozen_input (load rx (fe_freeze fe) bytes)
      else
        case from_utf8 bytes of
          None \<Rightarrow> Inl (Some UnknownFormat)
        | Some txt \<Rightarrow>
            (case loads rx (fe_freeze fe) txt of
               Inl _ \<Rightarrow> Inl (Some UnknownFormat)
             | Inr _ \<Rightarrow> frozen_input (parse_freeze_bytes rx (fe_freeze fe) bytes)))"

definition load_sc :: "'r front_end \<Rightarrow> u8 list \<Rightarrow> analysis_options \<Rightarrow> architecture \<Rightarrow> (loaded_input \<times> string) analysed" where
  "load_sc fe bytes opts ar =
     named (format_as_str (ao_format opts))
       (if ao_file_only opts then Inr (extract_sc_file_only fe bytes ar (ao_os opts)) else extract_sc_input fe bytes ar (ao_os opts))"

definition load_input :: "regex_lib \<Rightarrow> nat \<Rightarrow> 'r front_end \<Rightarrow> u8 list \<Rightarrow> analysis_options \<Rightarrow> (loaded_input \<times> string) analysed" where
  "load_input rx n fe bytes opts =
     (case ao_format opts of
        PeFormat \<Rightarrow> load_pe n fe bytes opts
      | ElfFormat \<Rightarrow> load_elf fe bytes opts
      | Sc32Format \<Rightarrow> load_sc fe bytes opts X86
      | Sc64Format \<Rightarrow> load_sc fe bytes opts X64
      | FreezeFormat \<Rightarrow> frozen_input (parse_freeze_bytes rx (fe_freeze fe) bytes)
      | DotnetFormat \<Rightarrow> named ''dotnet'' (extract_dotnet_input fe bytes)
      | MachoFormat \<Rightarrow>
          named ''macho'' (if ao_file_only opts then extract_macho_file_only fe bytes opts else extract_macho_input fe bytes opts)
      | AutoFormat \<Rightarrow> load_auto rx n fe bytes opts)"

section \<open>The document of an input\<close>

text \<open>The two strings of \<open>now\<close> are the time of the run and the version of the program.\<close>

definition meta_inputs_of ::
  "string \<times> string \<Rightarrow> api_input \<Rightarrow> analysis_options \<Rightarrow> string \<Rightarrow> sample_hashes \<Rightarrow> meta_inputs" where
  "meta_inputs_of now input opts resolved hashes =
     \<lparr>mi_argv = in_argv input, mi_version = snd now, mi_timestamp = fst now,
      mi_sample = \<lparr>sample_md5 = md5 hashes, sample_sha1 = sha1 hashes, sample_sha256 = sha256 hashes,
                   sample_path = in_sample_path input\<rparr>,
      input_format_fallback = resolved,
      os_override = (case ao_os opts of Some os \<Rightarrow> os | None \<Rightarrow> OS_AUTO),
      arch_override = (case ao_arch opts of Some ar \<Rightarrow> ar | None \<Rightarrow> ARCH_AUTO),
      rules_paths = in_rules_paths input\<rparr>"

definition document_of_input ::
  "regex_lib \<Rightarrow> hash_order \<Rightarrow> yaml_lib \<Rightarrow> string \<times> string \<Rightarrow> nat \<Rightarrow> api_input \<Rightarrow> matching_rule_set \<Rightarrow> loaded_input
   \<Rightarrow> string \<Rightarrow> analysis_options \<Rightarrow> result_document analysed" where
  "document_of_input rx it yl now k input mrs parsed resolved opts =
     (case li_freeze parsed of
        StaticFreeze sf \<Rightarrow>
          rbind (returned (\<lambda>e. MatchingFailed (in_sample_path input) (Inl e)) (find_static_capabilities rx it mrs sf)) (\<lambda>caps.
            map_err (map_option DocumentFailed)
              (build_result_document k yl it mrs (sc_matches caps)
                (build_static_metadata (meta_inputs_of now input opts resolved (st_sample_hashes sf)) sf
                   (sc_file_feature_count caps, function_feature_counts caps) (li_library_functions parsed)
                   (compute_static_layout mrs sf (sc_matches caps)))))
      | DynamicFreeze df \<Rightarrow>
          rbind (returned (\<lambda>e. MatchingFailed (in_sample_path input) (Inr e)) (find_dynamic_capabilities rx it mrs df)) (\<lambda>caps.
            map_err (map_option DocumentFailed)
              (build_result_document k yl it mrs (dc_matches caps)
                (build_dynamic_metadata (meta_inputs_of now input opts resolved (dy_sample_hashes df)) df
                   (dc_file_feature_count caps, process_feature_counts caps) (compute_dynamic_layout df (dc_matches caps))))))"

text \<open>The stack for identifying functions and the stack for building trees are two bounds, \<open>n\<close> and \<open>k\<close>.\<close>

definition analyze ::
  "regex_lib \<Rightarrow> hash_order \<Rightarrow> yaml_lib \<Rightarrow> string \<times> string \<Rightarrow> nat \<Rightarrow> nat \<Rightarrow> 'r front_end \<Rightarrow> api_input \<Rightarrow> matching_rule_set
   \<Rightarrow> analysis_options \<Rightarrow> result_document analysed" where
  "analyze rx it yl now n k fe input mrs opts =
     rbind (load_input rx n fe (in_bytes input) opts) (\<lambda>(parsed, resolved).
       document_of_input rx it yl now k input mrs parsed resolved opts)"

section \<open>Filtering rules by a tag\<close>

fun tag_in_value :: "string \<Rightarrow> yaml \<Rightarrow> bool" where
  "tag_in_value tag (YString s) = contains_str s tag"
| "tag_in_value tag (YSequence vs) = list_ex (\<lambda>v. case v of YString s \<Rightarrow> contains_str s tag | _ \<Rightarrow> False) vs"
| "tag_in_value tag _ = False"

text \<open>
  The closure under dependencies, in the order \<open>ord\<close> of a hash set; the first argument bounds
  the depth of calls, and the result is \<open>None\<close> where it does not suffice.
\<close>

fun collect_closure ::
  "nat \<Rightarrow> (string set \<Rightarrow> string list) \<Rightarrow> (string \<rightharpoonup> rule) \<Rightarrow> namespaces \<Rightarrow> string \<Rightarrow> string set \<Rightarrow> string set option" where
  "collect_closure 0 ord by_name nss name out = None"
| "collect_closure (Suc n) ord by_name nss name out =
     (if name \<in> out then Some out
      else
        case by_name name of
          None \<Rightarrow> Some (insert name out)
        | Some r \<Rightarrow>
            foldl (\<lambda>acc dep. Option.bind acc (collect_closure n ord by_name nss dep)) (Some (insert name out))
              (ord (get_dependencies nss (body r))))"

definition rule_tagged :: "string \<Rightarrow> rule \<Rightarrow> bool" where
  "rule_tagged tag r = list_ex (tag_in_value tag) (map snd (meta_raw (meta r)))"

definition filter_rules_by_tag ::
  "nat \<Rightarrow> (string set \<Rightarrow> string list) \<Rightarrow> rule list \<Rightarrow> string \<Rightarrow> rule list option" where
  "filter_rules_by_tag n ord rules tag =
     (let nss = index_rules_by_namespace rules;
          by_name = map_of (rev (map (\<lambda>r. (rule_name r, r)) rules))
      in map_option (\<lambda>keep. filter (\<lambda>r. rule_name r \<in> keep) rules)
           (foldl (\<lambda>acc r. if rule_tagged tag r then Option.bind acc (collect_closure n ord by_name nss (rule_name r)) else acc)
              (Some {}) rules))"

end
