(* ===== verification/Api_Props.thy ===== *)
theory Api_Props
  imports Api Elf_Props
begin

text \<open>
  The entry point as a whole: an input that can be loaded is analysed to the end, and filtering
  rules by a tag keeps rules whole, with everything they refer to.
\<close>

section \<open>Filtering rules by a tag\<close>

text \<open>What a search for everything below some nodes does to the set of nodes found.\<close>

definition grown :: "'a rel \<Rightarrow> 'a set \<Rightarrow> 'a set \<Rightarrow> 'a set \<Rightarrow> bool" where
  "grown D R out out' \<longleftrightarrow> out \<subseteq> out' \<and> R \<subseteq> out' \<and> out' \<subseteq> out \<union> D\<^sup>* `` R \<and> (\<forall>a \<in> out' - out. D `` {a} \<subseteq> out')"

lemma grown_refl: "R \<subseteq> out \<Longrightarrow> grown D R out out"
  by (auto simp: grown_def)

lemma grown_leaf: "D `` {a} = {} \<Longrightarrow> grown D {a} out (insert a out)"
  by (auto simp: grown_def)

lemma grown_append:
  assumes "grown D R a b" "grown D Q b c"
  shows "grown D (R \<union> Q) a c"
proof -
  have "D `` {x} \<subseteq> c" if "x \<in> c - a" for x
  proof (cases "x \<in> b")
    case True
    then have "D `` {x} \<subseteq> b" using that assms(1) by (simp add: grown_def)
    then show ?thesis using assms(2) by (auto simp: grown_def)
  qed (use that assms(2) in \<open>simp add: grown_def\<close>)
  moreover have "c \<subseteq> a \<union> D\<^sup>* `` (R \<union> Q)" using assms by (auto simp: grown_def Image_Un)
  moreover have "a \<subseteq> c" "R \<union> Q \<subseteq> c" using assms by (auto simp: grown_def)
  ultimately show ?thesis by (simp add: grown_def)
qed

lemma grown_node:
  assumes "grown D (D `` {a}) (insert a out) out'"
  shows "grown D {a} out out'"
proof -
  have "D\<^sup>* `` (D `` {a}) \<subseteq> D\<^sup>* `` {a}" by (auto intro: converse_rtrancl_into_rtrancl)
  then show ?thesis using assms unfolding grown_def by blast
qed

lemma grown_closure:
  assumes "grown D R {} out"
  shows "out = D\<^sup>* `` R"
proof -
  have "b \<in> out" if "(a, b) \<in> D\<^sup>*" "a \<in> out" for a b
    using that assms by (induction rule: rtrancl_induct) (auto simp: grown_def)
  then show ?thesis using assms by (auto simp: grown_def)
qed

definition rule_deps :: "(string \<rightharpoonup> rule) \<Rightarrow> namespaces \<Rightarrow> string rel" where
  "rule_deps by_name nss = {(a, b). \<exists>r. by_name a = Some r \<and> b \<in> get_dependencies nss (body r)}"

lemma card_remaining:
  assumes "finite (dom f)" "a \<in> dom f" "a \<notin> out" "insert a out \<subseteq> s"
  shows "card (dom f - s) < card (dom f - out)"
  using assms by (intro psubset_card_mono) auto

lemma collect_closure_total:
  assumes "finite (dom by_name)" "\<And>S. finite S \<Longrightarrow> set (ord S) = S"
  shows "card (dom by_name - out) < n \<Longrightarrow>
    \<exists>out'. collect_closure n ord by_name nss name out = Some out' \<and> grown (rule_deps by_name nss) {name} out out'"
proof (induction n arbitrary: name out)
  case (Suc n)
  let ?D = "rule_deps by_name nss"
  show ?case
  proof (cases "name \<in> out")
    case True
    then show ?thesis by (auto intro: grown_refl)
  next
    case new: False
    show ?thesis
    proof (cases "by_name name")
      case None
      then have "?D `` {name} = {}" by (auto simp: rule_deps_def)
      then show ?thesis using new None grown_leaf [of ?D name out] by simp
    next
      case (Some r)
      let ?run = "foldl (\<lambda>acc dep. Option.bind acc (collect_closure n ord by_name nss dep))"
      have fuel: "card (dom by_name - S) < n" if "insert name out \<subseteq> S" for S
      proof -
        have "name \<in> dom by_name" using Some by (simp add: domIff)
        from card_remaining [OF assms(1) this new that] Suc.prems show ?thesis by simp
      qed
      have "\<exists>out'. ?run (Some S) ds = Some out' \<and> grown ?D (set ds) S out'" if "insert name out \<subseteq> S" for S ds
        using that
      proof (induction ds arbitrary: S)
        case (Cons d ds)
        from Suc.IH [OF fuel [OF Cons.prems], of d] obtain T
          where T: "collect_closure n ord by_name nss d S = Some T" "grown ?D {d} S T" by blast
        then have "insert name out \<subseteq> T" using Cons.prems by (auto simp: grown_def)
        from Cons.IH [OF this] obtain out' where "?run (Some T) ds = Some out'" "grown ?D (set ds) T out'" by blast
        then show ?case using T grown_append [OF T(2)] by fastforce
      qed (auto intro: grown_refl)
      from this [OF order_refl, of "ord (get_dependencies nss (body r))"] obtain out'
        where out': "?run (Some (insert name out)) (ord (get_dependencies nss (body r))) = Some out'"
          "grown ?D (get_dependencies nss (body r)) (insert name out) out'"
        using assms(2) by auto
      have "?D `` {name} = get_dependencies nss (body r)" using Some by (auto simp: rule_deps_def)
      then have "grown ?D {name} out out'" using out'(2) by (intro grown_node) simp
      then show ?thesis using out'(1) new Some by simp
    qed
  qed
qed simp

lemma filter_rules_closure:
  assumes "\<And>S. finite S \<Longrightarrow> set (ord S) = S" "length rules < n"
    and "by_name = map_of (rev (map (\<lambda>r. (rule_name r, r)) rules))" "nss = index_rules_by_namespace rules"
  shows "filter_rules_by_tag n ord rules tag =
    Some (filter (\<lambda>r. rule_name r \<in> (rule_deps by_name nss)\<^sup>* `` (rule_name ` {r \<in> set rules. rule_tagged tag r})) rules)"
proof -
  let ?D = "rule_deps by_name nss"
  have fin: "finite (dom by_name)" unfolding assms(3) by (rule finite_dom_map_of)
  have dom: "dom by_name = rule_name ` set rules" unfolding assms(3) by (force simp: dom_map_of_conv_image_fst)
  have "card (dom by_name - S) \<le> card (dom by_name)" for S using fin by (intro card_mono) auto
  then have fuel: "card (dom by_name - S) < n" for S
    using card_image_le [of "set rules" rule_name] card_length [of rules] assms(2) unfolding dom by (meson finite_set le_less_trans)
  let ?run = "foldl (\<lambda>acc r. if rule_tagged tag r then Option.bind acc (collect_closure n ord by_name nss (rule_name r)) else acc)"
  have "\<exists>out'. ?run (Some S) rs = Some out' \<and> grown ?D (rule_name ` {r \<in> set rs. rule_tagged tag r}) S out'" for S rs
  proof (induction rs arbitrary: S)
    case (Cons r rs)
    show ?case
    proof (cases "rule_tagged tag r")
      case True
      from collect_closure_total [where out = S and name = "rule_name r" and nss = nss, OF fin assms(1) fuel] obtain T
        where T: "collect_closure n ord by_name nss (rule_name r) S = Some T" "grown ?D {rule_name r} S T" by blast
      from Cons.IH [of T] obtain out' where "?run (Some T) rs = Some out'"
        "grown ?D (rule_name ` {r \<in> set rs. rule_tagged tag r}) T out'" by blast
      moreover have "rule_name ` {q \<in> set (r # rs). rule_tagged tag q} = {rule_name r} \<union> rule_name ` {q \<in> set rs. rule_tagged tag q}"
        using True by auto
      ultimately show ?thesis using T grown_append [OF T(2)] True by fastforce
    next
      case False
      then have "{q \<in> set (r # rs). rule_tagged tag q} = {q \<in> set rs. rule_tagged tag q}" by auto
      then show ?thesis using Cons.IH [of S] False by simp
    qed
  qed (auto intro: grown_refl)
  from this [of "{}" rules] obtain out' where "?run (Some {}) rules = Some out'"
    "grown ?D (rule_name ` {r \<in> set rules. rule_tagged tag r}) {} out'" by blast
  then show ?thesis using grown_closure unfolding filter_rules_by_tag_def Let_def assms(3) [symmetric] assms(4) [symmetric] by auto
qed

lemma distinct_lookup:
  "distinct (map rule_name rules) \<Longrightarrow> r \<in> set rules \<Longrightarrow> map_of (rev (map (\<lambda>r. (rule_name r, r)) rules)) (rule_name r) = Some r"
  by (intro map_of_is_SomeI) (auto simp: rev_map [symmetric] comp_def)

text \<open>A set of rules that holds everything its rules refer to is resolved like the whole.\<close>

lemma resolve_kept:
  assumes "kept = filter Q rules" "\<And>q. q \<in> set rules \<Longrightarrow> rule_name q \<in> resolve (index_rules_by_namespace rules) v \<Longrightarrow> Q q"
  shows "resolve (index_rules_by_namespace kept) v = resolve (index_rules_by_namespace rules) v"
proof (cases "v \<noteq> [] \<and> (\<exists>q \<in> set rules. in_namespace v q)")
  case True
  then have "resolve (index_rules_by_namespace rules) v = set (map rule_name (filter (in_namespace v) rules))"
    by (simp add: resolve_def namespace_index_correct)
  then have "Q q" if "q \<in> set rules" "in_namespace v q" for q using assms(2) [OF that(1)] that by auto
  then have "filter (in_namespace v) kept = filter (in_namespace v) rules" unfolding assms(1) by (auto intro: filter_cong)
  moreover from this True have "\<exists>q \<in> set kept. in_namespace v q" by (metis filter_empty_conv)
  ultimately show ?thesis using True by (simp add: resolve_def namespace_index_correct)
next
  case False
  then have "\<not> (v \<noteq> [] \<and> (\<exists>q \<in> set kept. in_namespace v q))" unfolding assms(1) by auto
  with False have "im_get (=) (index_rules_by_namespace kept) v = None" "im_get (=) (index_rules_by_namespace rules) v = None"
    by (simp_all only: namespace_index_correct if_False)
  then show ?thesis by (simp add: resolve_def)
qed

text \<open>
  C15: filtering rules by a tag keeps rules whole. It keeps, in their order, exactly the rules
  with the tag in their metadata and those they refer to, directly or not, by name or by
  namespace; every rule that is kept still refers to the same rules, and each of them is kept.
\<close>

theorem tag_filter_whole:
  assumes "\<And>S. finite S \<Longrightarrow> set (ord S) = S" "length rules < n" "distinct (map rule_name rules)"
  shows "\<exists>kept. filter_rules_by_tag n ord rules tag = Some kept
    \<and> kept = filter (\<lambda>r. \<exists>t \<in> set rules. rule_tagged tag t \<and> (rule_name t, rule_name r)
        \<in> (rule_deps (map_of (map (\<lambda>r. (rule_name r, r)) rules)) (index_rules_by_namespace rules))\<^sup>*) rules
    \<and> (\<forall>r \<in> set kept. get_dependencies (index_rules_by_namespace kept) (body r) = get_dependencies (index_rules_by_namespace rules) (body r)
         \<and> get_dependencies (index_rules_by_namespace rules) (body r) \<inter> rule_name ` set rules \<subseteq> rule_name ` set kept)"
proof -
  let ?nss = "index_rules_by_namespace rules"
  have "map_of (map (\<lambda>r. (rule_name r, r)) rules) = map_of (rev (map (\<lambda>r. (rule_name r, r)) rules))"
    using assms(3) by (intro map_of_inject_set [THEN iffD2]) (simp_all add: comp_def rev_map [symmetric])
  then obtain D where D: "D = rule_deps (map_of (rev (map (\<lambda>r. (rule_name r, r)) rules))) ?nss"
    "D = rule_deps (map_of (map (\<lambda>r. (rule_name r, r)) rules)) ?nss" by simp
  define Q where "Q r \<longleftrightarrow> (\<exists>t \<in> set rules. rule_tagged tag t \<and> (rule_name t, rule_name r) \<in> D\<^sup>*)" for r :: rule
  have "rule_name r \<in> D\<^sup>* `` (rule_name ` {r \<in> set rules. rule_tagged tag r}) \<longleftrightarrow> Q r" for r by (auto simp: Q_def)
  then have "filter_rules_by_tag n ord rules tag = Some (filter Q rules)"
    using filter_rules_closure [OF assms(1,2) refl refl, of tag] unfolding D(1) [symmetric] by simp
  moreover have kept: "Q q" if "r \<in> set rules" "Q r" "rule_name q \<in> get_dependencies ?nss (body r)" for r q
  proof -
    have "(rule_name r, rule_name q) \<in> D" using distinct_lookup [OF assms(3) that(1)] that(3) by (auto simp: D(1) rule_deps_def)
    then show ?thesis using that(2) unfolding Q_def by (blast intro: rtrancl_into_rtrancl)
  qed
  have "get_dependencies (index_rules_by_namespace (filter Q rules)) (body r) = get_dependencies ?nss (body r)"
    if "r \<in> set rules" "Q r" for r
    using resolve_kept [OF refl, where Q = Q and rules = rules] kept [OF that]
    by (auto simp: get_dependencies_resolve intro!: SUP_cong)
  with kept have "\<forall>r \<in> set (filter Q rules). get_dependencies (index_rules_by_namespace (filter Q rules)) (body r) = get_dependencies ?nss (body r)
      \<and> get_dependencies ?nss (body r) \<inter> rule_name ` set rules \<subseteq> rule_name ` set (filter Q rules)" by auto
  ultimately show ?thesis unfolding D(2) [symmetric] Q_def by blast
qed

definition example_tagged :: "rule list" where
  "example_tagged = (case example_rules [(''a'', None, MatchedRule ''n''), (''b'', Some ''n'', Api ''y''), (''c'', None, Api ''z'')] of
     r # rs \<Rightarrow> r\<lparr>meta := (meta r)\<lparr>meta_raw := [(YString ''author'', YSequence [YString ''me, you''])]\<rparr>\<rparr> # rs | [] \<Rightarrow> [])"

theorem tag_filter_whole_witness:
  "\<exists>kept. filter_rules_by_tag 4 sorted_list_of_set example_tagged ''you'' = Some kept \<and> map rule_name kept = [''a'', ''b'']
     \<and> (\<forall>r \<in> set kept. get_dependencies (index_rules_by_namespace kept) (body r)
          = get_dependencies (index_rules_by_namespace example_tagged) (body r))"
proof -
  have "map_option (map rule_name) (filter_rules_by_tag 4 sorted_list_of_set example_tagged ''you'') = Some [''a'', ''b'']"
    by code_simp
  moreover have "length example_tagged < 4" "distinct (map rule_name example_tagged)" by code_simp+
  from tag_filter_whole [of sorted_list_of_set, OF _ this, of "''you''"] obtain kept
    where "filter_rules_by_tag 4 sorted_list_of_set example_tagged ''you'' = Some kept"
      "\<forall>r \<in> set kept. get_dependencies (index_rules_by_namespace kept) (body r)
          = get_dependencies (index_rules_by_namespace example_tagged) (body r)" by auto
  ultimately show ?thesis by auto
qed

section \<open>From an input to its document\<close>

fun load_failure :: "analysis_error \<Rightarrow> bool" where
  "load_failure (MatchingFailed _ _) = False"
| "load_failure (DocumentFailed _) = False"
| "load_failure _ = True"

fun plain_frozen :: "frozen \<Rightarrow> bool" where
  "plain_frozen (StaticFreeze fz) = plain_static fz"
| "plain_frozen (DynamicFreeze fz) = plain_dynamic fz"

text \<open>A load that returns features without matches, or an error.\<close>

definition loads_ok :: "('a \<Rightarrow> bool) \<Rightarrow> 'a analysed \<Rightarrow> bool" where
  "loads_ok P r \<longleftrightarrow> (case r of Inr x \<Rightarrow> P x | Inl None \<Rightarrow> False | Inl (Some e) \<Rightarrow> load_failure e)"

lemma loads_ok_simps: "loads_ok P (Inr x) \<longleftrightarrow> P x" "loads_ok P (Inl (Some e)) \<longleftrightarrow> load_failure e"
  by (simp_all add: loads_ok_def)

lemma loads_ok_rbind:
  assumes "loads_ok Q r" "\<And>x. Q x \<Longrightarrow> loads_ok P (f x)"
  shows "loads_ok P (rbind r f)"
proof (cases r)
  case (Inl e)
  then show ?thesis using assms(1) by (cases e) (simp_all add: loads_ok_def)
qed (use assms in \<open>simp add: loads_ok_def\<close>)

lemma loads_ok_map:
  assumes "loads_ok (\<lambda>x. P (g x)) r"
  shows "loads_ok P (map_ok g r)"
  using assms by (cases r) (simp_all add: loads_ok_def)

lemma loads_ok_returned:
  assumes "\<And>e. load_failure (err e)" "\<And>x. r = Inr x \<Longrightarrow> P x"
  shows "loads_ok P (returned err r)"
  using assms by (cases r) (simp_all add: loads_ok_def)

lemma loads_ok_mono: "loads_ok P r \<Longrightarrow> (\<And>x. P x \<Longrightarrow> Q x) \<Longrightarrow> loads_ok Q r"
  by (auto simp: loads_ok_def split: sum.splits option.splits)

abbreviation plain_input :: "loaded_input \<Rightarrow> bool" where
  "plain_input p \<equiv> plain_frozen (li_freeze p)"

lemma file_feature_plain: "file_features_only fz \<Longrightarrow> plain_static fz"
  unfolding file_features_only_def plain_static_def plain_globals_def plain_def list_all_iff file_feature_def
  using legal_unmatched by fastforce

lemma enrich_code_plain: "plain_static fz \<Longrightarrow> plain_static (enrich_code code libraries fz)"
  by (cases code) (simp_all add: enrich_code_def plain_enrich_static_features plain_a64_enrich_static_features)

lemma image_sections_plain: "plain_static fz \<Longrightarrow> plain_static (image_sections img fz)"
  by (auto simp: image_sections_def plain_static_def plain_def)

lemma file_only_plain: "plain_static fz \<Longrightarrow> plain_input (file_only_input fz)"
  by (auto simp: file_only_input_def plain_static_def plain_def plain_globals_def)

text \<open>What the entry point relies on of the parts it calls, for an input and a bound on the stack.\<close>

definition front_end_ok :: "regex_lib \<Rightarrow> nat \<Rightarrow> 'r front_end \<Rightarrow> u8 list \<Rightarrow> bool" where
  "front_end_ok rx n fe bytes \<longleftrightarrow>
     flirt_lib_ok (fe_flirt fe) \<and> (\<forall>path dbs. fe_signatures fe path = Inr dbs \<longrightarrow> (\<forall>d \<in> set dbs. database_ok d))
     \<and> (\<forall>dbs code. fe_recover_pe fe bytes dbs = Inr code \<longrightarrow>
          (case code of X86Code an \<Rightarrow> length (an_functions an) < n | A64Code an \<Rightarrow> length (an_functions an) < n))
     \<and> (\<forall>fz. fe_dotnet fe bytes = Inr fz \<longrightarrow> plain_static fz)
     \<and> (\<forall>txt fr. loads rx (fe_freeze fe) txt = Inr fr \<longrightarrow> plain_frozen fr)
     \<and> length bytes \<le> ISIZE_MAX
     \<and> (\<forall>elf phs ph. elf_parse bytes = Some elf \<longrightarrow> program_headers elf = Inr phs \<longrightarrow> ph \<in> set phs \<longrightarrow> p_memsz ph \<le> ISIZE_MAX)"

lemma identify_code_ok:
  assumes "front_end_ok rx n fe bytes" "fe_signatures fe path = Inr dbs" "fe_recover_pe fe bytes dbs = Inr code"
  shows "loads_ok (\<lambda>_. True) (map_err (map_option SignatureFailed) (identify_code n (fe_flirt fe) code dbs))"
proof -
  have lib: "flirt_lib_ok (fe_flirt fe)" and dbs: "\<forall>d \<in> set dbs. database_ok d" using assms(1,2) by (auto simp: front_end_ok_def)
  have len: "case code of X86Code an \<Rightarrow> length (an_functions an) < n | A64Code an \<Rightarrow> length (an_functions an) < n"
    using assms(1,3) by (simp add: front_end_ok_def)
  have found: "\<exists>libs. identify_library_functions n (fe_flirt fe) an dbs = Inr libs" if "length (an_functions an) < n" for an :: "'d analysis"
    using identify_total [OF lib dbs that] by (auto simp: identify_library_functions_def)
  have "\<exists>libs. identify_code n (fe_flirt fe) code dbs = Inr libs"
    using len found found by (cases code) (simp_all add: identify_code_def)
  then show ?thesis by (auto simp: loads_ok_simps)
qed

lemma pe_input_ok:
  assumes "front_end_ok rx n fe bytes"
  shows "loads_ok plain_input (extract_pe_input n fe bytes opts)"
proof -
  have "loads_ok plain_static (returned PeExtract (extract_pe (fe_pe fe) (fe_digests fe) bytes))"
    by (intro loads_ok_returned) (auto intro: file_feature_plain extract_pe_ok)
  then show ?thesis
    unfolding extract_pe_input_def
  proof (rule loads_ok_rbind)
    fix fz
    assume fz: "plain_static fz"
    let ?sigs = "fe_signatures fe (ao_signatures_path opts)"
    have "loads_ok (\<lambda>dbs. ?sigs = Inr dbs) (returned SignatureFailed ?sigs)" by (intro loads_ok_returned) simp_all
    then show "loads_ok plain_input (rbind (returned SignatureFailed ?sigs) (\<lambda>signatures.
        rbind (returned PeRecover (fe_recover_pe fe bytes signatures)) (\<lambda>code.
        rbind (map_err (map_option SignatureFailed) (identify_code n (fe_flirt fe) code signatures)) (\<lambda>libraries.
          Inr \<lparr>li_freeze = StaticFreeze (enrich_code code libraries (image_sections (code_image code) fz)),
               li_library_functions = map (\<lambda>(a, name). \<lparr>lf_address = to_rd_address (Absolute a), lf_name = name\<rparr>) libraries\<rparr>))))"
    proof (rule loads_ok_rbind)
      fix dbs
      assume dbs: "?sigs = Inr dbs"
      have "loads_ok (\<lambda>c. fe_recover_pe fe bytes dbs = Inr c) (returned PeRecover (fe_recover_pe fe bytes dbs))"
        by (intro loads_ok_returned) simp_all
      then show "loads_ok plain_input (rbind (returned PeRecover (fe_recover_pe fe bytes dbs)) (\<lambda>code.
          rbind (map_err (map_option SignatureFailed) (identify_code n (fe_flirt fe) code dbs)) (\<lambda>libraries.
            Inr \<lparr>li_freeze = StaticFreeze (enrich_code code libraries (image_sections (code_image code) fz)),
                 li_library_functions = map (\<lambda>(a, name). \<lparr>lf_address = to_rd_address (Absolute a), lf_name = name\<rparr>) libraries\<rparr>)))"
        by (rule loads_ok_rbind, intro loads_ok_rbind [OF identify_code_ok [OF assms dbs]])
          (simp_all add: loads_ok_simps fz enrich_code_plain image_sections_plain)
    qed
  qed
qed

lemma elf_features_plain:
  assumes "front_end_ok rx n fe bytes"
  shows "loads_ok plain_static (extract_elf_features fe bytes)"
proof (cases "extract_elf (fe_elf fe) (fe_digests fe) bytes")
  case (Inl p)
  have "(\<exists>os. detect_elf_os bytes = Inr os) \<and> (\<exists>names. dynamic_import_symbol_names bytes = Inr names)"
    using assms unfolding front_end_ok_def by (intro elf_reader_safe) blast+
  then have False using Inl by (auto simp: extract_elf_def elf_import_names_def split: sum.splits)
  then show ?thesis ..
next
  case (Inr r)
  then show ?thesis
    unfolding extract_elf_features_def
    by (auto intro!: loads_ok_returned file_feature_plain extract_elf_ok)
qed

lemma code_input_ok:
  assumes "loads_ok plain_static r" "\<And>e. load_failure (err e)"
  shows "loads_ok plain_input (rbind r (\<lambda>fz. map_ok (\<lambda>code. without_libraries (enrich_code code [] fz)) (returned err c)))"
  by (rule loads_ok_rbind [OF assms(1)])
    (auto simp: without_libraries_def intro!: loads_ok_map loads_ok_returned assms(2) enrich_code_plain)

lemma macho_features_plain: "loads_ok plain_static (macho_features fe bytes opts)"
  by (intro loads_ok_returned) (auto intro: file_feature_plain extract_macho_ok)

lemma frozen_input_ok:
  "(\<And>fr. r = Inr fr \<Longrightarrow> plain_frozen fr) \<Longrightarrow> loads_ok (plain_input \<circ> fst) (frozen_input r)"
  unfolding frozen_input_def by (intro loads_ok_returned) (auto simp: map_ok_Inr_iff)

lemma named_ok: "loads_ok plain_input r \<Longrightarrow> loads_ok (plain_input \<circ> fst) (named fmt r)"
  by (intro loads_ok_map) simp

lemma load_ok:
  assumes "front_end_ok rx n fe bytes"
  shows "loads_ok (plain_input \<circ> fst) (load_input rx n fe bytes opts)"
proof -
  have pe: "loads_ok (plain_input \<circ> fst) (load_pe n fe bytes opts)"
    using pe_input_ok [OF assms] unfolding load_pe_def
    by (intro named_ok) (auto simp: extract_pe_file_only_def map_ok_Inr_iff
        intro!: loads_ok_returned file_only_plain file_feature_plain extract_pe_ok)
  have elf: "loads_ok (plain_input \<circ> fst) (load_elf fe bytes opts)"
    using elf_features_plain [OF assms] unfolding load_elf_def extract_elf_file_only_def extract_elf_input_def
    by (auto intro!: named_ok code_input_ok loads_ok_map elim!: loads_ok_mono file_only_plain)
  have sc: "loads_ok (plain_input \<circ> fst) (load_sc fe bytes opts ar)" for ar
  proof -
    have "plain_static (extract_sc (fe_digests fe) bytes ar (ao_os opts))" by (rule file_feature_plain [OF extract_sc_ok])
    then show ?thesis unfolding load_sc_def extract_sc_file_only_def extract_sc_input_def without_libraries_def
      by (intro named_ok) (auto simp: loads_ok_simps intro!: loads_ok_map loads_ok_returned enrich_code_plain)
  qed
  have dotnet: "loads_ok (plain_input \<circ> fst) (named ''dotnet'' (extract_dotnet_input fe bytes))"
    using assms unfolding extract_dotnet_input_def without_libraries_def
    by (intro named_ok loads_ok_map loads_ok_returned) (auto simp: front_end_ok_def)
  have macho: "loads_ok (plain_input \<circ> fst)
      (named ''macho'' (if ao_file_only opts then extract_macho_file_only fe bytes opts else extract_macho_input fe bytes opts))"
    unfolding extract_macho_file_only_def extract_macho_input_def
    by (auto simp: without_libraries_def intro!: named_ok code_input_ok [unfolded without_libraries_def] loads_ok_map macho_features_plain)
  have read: "plain_frozen fr" if "loads rx (fe_freeze fe) s = Inr fr" for s fr using assms that by (simp add: front_end_ok_def)
  have load: "plain_frozen fr" if "load rx (fe_freeze fe) bytes = Inr fr" for fr
    using that read by (auto simp: load_def rbind_Inr_iff split: if_splits)
  have parsed: "plain_frozen fr" if "parse_freeze_bytes rx (fe_freeze fe) bytes = Inr fr" for fr
    using that read load by (auto simp: parse_freeze_bytes_def rbind_Inr_iff split: if_splits)
  have "loads_ok (plain_input \<circ> fst) (load_auto rx n fe bytes opts)"
    using pe elf dotnet frozen_input_ok [OF load] frozen_input_ok [OF parsed]
    by (auto simp: load_auto_def loads_ok_simps split: option.split sum.split)
  with pe elf sc dotnet macho frozen_input_ok [OF parsed] show ?thesis
    unfolding load_input_def by (cases "ao_format opts") simp_all
qed

lemma document_of_plain:
  assumes "all_evaluable mrs" "displayable_rules mrs rank" "\<And>ms. mset (it ms) = mset ms" "plain_input parsed"
  shows "\<exists>depth. \<forall>k \<ge> depth. \<exists>doc. document_of_input rx it yl now k input mrs parsed resolved opts = Inr doc"
proof (cases "li_freeze parsed")
  case (StaticFreeze sf)
  obtain caps where caps: "find_static_capabilities rx it mrs sf = Inr caps" using find_static_total [OF assms(1)] by blast
  have "plain_static sf" using assms(4) StaticFreeze by simp
  note shown = static_displayed [where it = it, OF assms(2,3) this caps]
  show ?thesis by (simp add: document_of_input_def StaticFreeze caps shown map_err_ok_iff)
next
  case (DynamicFreeze df)
  obtain caps where caps: "find_dynamic_capabilities rx it mrs df = Inr caps" using find_dynamic_total [OF assms(1)] by blast
  have it: "set (it ms) = set ms" for ms using assms(3) by (rule mset_eq_setD)
  have "plain_dynamic df" using assms(4) DynamicFreeze by simp
  note shown = closed_displayed [where it = it, OF assms(2,3) dynamic_sound [OF assms(2) it this caps] dynamic_distinct [OF caps]]
  show ?thesis by (simp add: document_of_input_def DynamicFreeze caps shown map_err_ok_iff)
qed


definition example_front_end :: "unit front_end" where
  "example_front_end =
     \<lparr>fe_pe = \<lparr>parse_pe = (\<lambda>_. Inl ''no header''), find_offset = (\<lambda>_ _ _. None), lowercase = (\<lambda>s. s)\<rparr>,
      fe_elf = (\<lambda>_. Inl ''no header''), fe_macho = (\<lambda>_. Inl ''no header''), fe_arch_names = (\<lambda>_ _. None),
      fe_from_macho = (\<lambda>_ _. Inl UnsupportedFormat), fe_image_text = (\<lambda>_. []),
      fe_digests = \<lparr>md5_digest = (\<lambda>_. []), sha1_digest = (\<lambda>_. []), sha256_digest = (\<lambda>_. [])\<rparr>,
      fe_freeze = \<lparr>inflate = Inr, utf8_failure = (\<lambda>_. []), json_freeze = (\<lambda>_. Inl []), json_static = (\<lambda>_. Inl []),
        json_dynamic = (\<lambda>_. Inl []), json_debug = (\<lambda>_. [])\<rparr>,
      fe_flirt = example_flirt_lib, fe_signatures = (\<lambda>_. Inr [example_database]),
      fe_recover_pe = (\<lambda>_ _. Inr (X86Code example_program)), fe_recover_elf = (\<lambda>_. Inr (X86Code example_program)),
      fe_recover_macho = (\<lambda>_ _. Inr (X86Code example_program)), fe_recover_sc = (\<lambda>_ _. Inr (X86Code example_program)),
      fe_clr_header = (\<lambda>_. None), fe_dotnet = (\<lambda>_. Inl (extract_error.Parse []))\<rparr>"

definition example_input :: "input_format \<Rightarrow> api_input \<times> analysis_options" where
  "example_input fmt =
     (\<lparr>in_bytes = [0x90], in_sample_path = ''x'', in_rules_paths = [], in_argv = None\<rparr>,
      \<lparr>ao_format = fmt, ao_os = None, ao_arch = None, ao_file_only = False, ao_signatures_path = None\<rparr>)"


end
