(* ===== verification/Freeze_Props.thy ===== *)
theory Freeze_Props
  imports Freeze_Read
begin

text \<open>
  Frozen features are read back as they were: an encoding of addresses, features and trees in the
  form of upstream's writer, and that the reader inverts it.
\<close>

section \<open>The written form\<close>

abbreviation jnum :: "'w::len word \<Rightarrow> json" where
  "jnum w \<equiv> JNumber (PosInt (ucast w))"

fun raw_of_address :: "address \<Rightarrow> raw_address" where
  "raw_of_address (Absolute v) = \<lparr>rw_kind = ''absolute'', rw_value = jnum v\<rparr>"
| "raw_of_address (Relative v) = \<lparr>rw_kind = ''relative'', rw_value = jnum v\<rparr>"
| "raw_of_address (File v) = \<lparr>rw_kind = ''file'', rw_value = jnum v\<rparr>"
| "raw_of_address (DnToken t) = \<lparr>rw_kind = ''dn token'', rw_value = jnum t\<rparr>"
| "raw_of_address (DnTokenOffset t off) = \<lparr>rw_kind = ''dn token offset'', rw_value = JArray [jnum t, jnum off]\<rparr>"
| "raw_of_address (Process a b) = \<lparr>rw_kind = ''process'', rw_value = JArray [jnum a, jnum b]\<rparr>"
| "raw_of_address (Thread a b c) = \<lparr>rw_kind = ''thread'', rw_value = JArray [jnum a, jnum b, jnum c]\<rparr>"
| "raw_of_address (Call a b c d) = \<lparr>rw_kind = ''call'', rw_value = JArray [jnum a, jnum b, jnum c, jnum d]\<rparr>"
| "raw_of_address NoAddress = \<lparr>rw_kind = ''no address'', rw_value = JNull\<rparr>"

definition json_of_int :: "int \<Rightarrow> json" where
  "json_of_int i = JNumber (if i < 0 then NegInt i else PosInt (word_of_int i))"

fun json_of_number :: "number_value \<Rightarrow> json" where
  "json_of_number (NInt i) = json_of_int i"
| "json_of_number (NFloat x) = JNumber (JFloat x)"

definition raw_with :: "string \<Rightarrow> (string \<times> json) list \<Rightarrow> raw_feature" where
  "raw_with k kvs = \<lparr>rf_kind = k, rf_rest = map_of (kvs @ [(''description'', JNull)])\<rparr>"

text \<open>Features are written without a description; rules expand COM features before they are extracted, so none is written.\<close>

fun raw_of_feature :: "feature \<Rightarrow> raw_feature" where
  "raw_of_feature (Api v) = raw_with ''api'' [(''api'', JString v)]"
| "raw_of_feature (Str (Plain v)) = raw_with ''string'' [(''string'', JString v)]"
| "raw_of_feature (Str (Substring v)) = raw_with ''substring'' [(''substring'', JString v)]"
| "raw_of_feature (Str (Regex re)) = raw_with ''regex'' [(''regex'', JString (raw re))]"
| "raw_of_feature (Bytes bs) = raw_with ''bytes'' [(''bytes'', JString (hex_encode bs))]"
| "raw_of_feature (Number n) = raw_with ''number'' [(''number'', json_of_number n)]"
| "raw_of_feature (Offset i) = raw_with ''offset'' [(''offset'', json_of_int i)]"
| "raw_of_feature (OperandNumber ix n) = raw_with ''operand number'' [(''index'', jnum ix), (''operand_number'', json_of_number n)]"
| "raw_of_feature (OperandOffset ix i) = raw_with ''operand offset'' [(''index'', jnum ix), (''operand_offset'', json_of_int i)]"
| "raw_of_feature (Mnemonic v) = raw_with ''mnemonic'' [(''mnemonic'', JString v)]"
| "raw_of_feature (Characteristic v) = raw_with ''characteristic'' [(''characteristic'', JString v)]"
| "raw_of_feature (Section v) = raw_with ''section'' [(''section'', JString v)]"
| "raw_of_feature (Import v) = raw_with ''import'' [(''import_'', JString v)]"
| "raw_of_feature (Export v) = raw_with ''export'' [(''export'', JString v)]"
| "raw_of_feature (FunctionName v) = raw_with ''function name'' [(''function_name'', JString v)]"
| "raw_of_feature (Class v) = raw_with ''class'' [(''class_'', JString v)]"
| "raw_of_feature (Namespace v) = raw_with ''namespace'' [(''namespace'', JString v)]"
| "raw_of_feature (Property v acc) =
     raw_with ''property'' [(''property'', JString v),
       (''access'', case acc of None \<Rightarrow> JNull | Some a \<Rightarrow> JString (access_as_str a))]"
| "raw_of_feature (Os v) = raw_with ''os'' [(''os'', JString v)]"
| "raw_of_feature (Arch v) = raw_with ''arch'' [(''arch'', JString v)]"
| "raw_of_feature (Format v) = raw_with ''format'' [(''format'', JString v)]"
| "raw_of_feature (Com k v) = raw_with ''com'' []"
| "raw_of_feature (MatchedRule v) = raw_with ''match'' [(''match'', JString v)]"
| "raw_of_feature BasicBlock = raw_with ''basic block'' []"

text \<open>Numbers of at most 64 bits, operands an instruction can have, and expressions that compile.\<close>

fun freezable_number :: "number_value \<Rightarrow> bool" where
  "freezable_number (NInt i) \<longleftrightarrow> - (2 ^ 63) \<le> i \<and> i < 2 ^ 64"
| "freezable_number (NFloat x) \<longleftrightarrow> True"

fun freezable :: "regex_lib \<Rightarrow> feature \<Rightarrow> bool" where
  "freezable rx (Number n) \<longleftrightarrow> freezable_number n"
| "freezable rx (OperandNumber ix n) \<longleftrightarrow> ix \<le> MAX_OPERAND_INDEX \<and> freezable_number n"
| "freezable rx (Offset i) \<longleftrightarrow> - (2 ^ 63) \<le> i \<and> i < 2 ^ 63"
| "freezable rx (OperandOffset ix i) \<longleftrightarrow> ix \<le> MAX_OPERAND_INDEX \<and> - (2 ^ 63) \<le> i \<and> i < 2 ^ 63"
| "freezable rx (Str (Regex re)) \<longleftrightarrow> regex_compile rx (raw re) = Inr re"
| "freezable rx (Com k v) \<longleftrightarrow> False"
| "freezable rx f \<longleftrightarrow> True"

section \<open>Addresses and features\<close>

lemma json_u64_num [simp]: "json_u64 (JNumber (PosInt n)) = Some n"
  by (simp add: json_u64_def)

lemma u32_fits: "unat (ucast (w :: u32) :: u64) < 2 ^ 32"
proof -
  have "unat w < 2 ^ 32" using unsigned_less [of w, where ?'a = nat] by simp
  then show ?thesis by (simp add: unsigned_ucast_eq take_bit_nat_eq_self)
qed

lemma ucast_back [simp]: "(ucast (ucast (w :: u32) :: u64) :: u32) = w"
  by (rule bit_word_eqI) (simp add: bit_ucast_iff)

lemma json_u32_num [simp]: "json_u32 (jnum (w :: u32)) = Some w"
  using u32_fits [of w] by (simp add: json_u32_def)

lemma address_roundtrip [simp]: "address_to_capa (raw_of_address a) = Inr a"
proof (cases a)
  case (DnToken t)
  then show ?thesis using u32_fits [of t] by (simp add: address_to_capa_def as_u64_def)
qed (simp_all add: address_to_capa_def as_u64_def as_u32_tuple_def call_to_capa_def json_array_def)

lemma rf_rest_with [simp]: "rf_rest (raw_with k kvs) = map_of (kvs @ [(''description'', JNull)])" "rf_kind (raw_with k kvs) = k"
  by (simp_all add: raw_with_def)

lemma json_int_of_int:
  assumes "- (2 ^ 63) \<le> i" "i < 2 ^ 64"
  shows "json_int (json_of_int i) = Some i"
proof (cases "i < 0")
  case False
  then have "uint (word_of_int i :: u64) = i" using assms(2) by (simp add: uint_word_of_int)
  then show ?thesis using False by (simp add: json_int_def json_i64_def json_of_int_def)
qed (simp add: json_int_def json_i64_def json_of_int_def)

lemma json_int_num: "json_int (jnum (ix :: u8)) = Some (uint ix)"
proof -
  have "uint (ucast ix :: u64) = uint ix" by (simp add: uint_up_ucast is_up)
  moreover have "uint ix < 2 ^ 63" using uint_lt2p [of ix] by simp
  ultimately show ?thesis by (simp add: json_int_def json_i64_def)
qed

lemma number_roundtrip:
  assumes "freezable_number n" "rf_rest f key = Some (json_of_number n)"
  shows "number_field f key = Inr n"
proof (cases n)
  case (NInt i)
  then show ?thesis using assms json_int_of_int [of i] by (simp add: number_field_def rf_field_def)
next
  case (NFloat x)
  then show ?thesis
    using assms(2) by (simp add: number_field_def rf_field_def json_int_def json_i64_def json_u64_def)
qed

lemma offset_roundtrip:
  assumes "- (2 ^ 63) \<le> i" "i < 2 ^ 63" "rf_rest f key = Some (json_of_int i)"
  shows "int_offset f key = Inr i"
  using assms json_int_of_int [of i] by (simp add: int_offset_def int_field_def rf_field_def)

lemma index_roundtrip:
  assumes "ix \<le> MAX_OPERAND_INDEX" "rf_rest f ''index'' = Some (jnum ix)"
  shows "operand_index f = Inr ix"
  using assms json_int_num [of ix]
  by (simp add: operand_index_def int_field_def rf_field_def word_le_def not_less)

lemma access_roundtrip: "access_parse (access_as_str a) = Some a"
  by (cases a) (simp_all add: access_parse_def)

lemma feature_roundtrip:
  assumes "freezable rx f"
  shows "feature_to_capa rx fl (raw_of_feature f) = Inr f"
proof -
  have desc: "check_description fl (raw_of_feature f) = Inr ()"
    by (cases f rule: raw_of_feature.cases) (simp_all add: check_description_def)
  have "feature_of_kind rx fl (raw_of_feature f) = Inr f"
    using assms
  proof (cases f rule: raw_of_feature.cases)
    case (5 bs)
    then show ?thesis
      using hex_decode_correct [of bs] by (simp add: feature_of_kind_def Let_def str_field_def rf_field_def json_str_def)
  next
    case (18 v acc)
    then show ?thesis
      by (cases acc) (simp_all add: feature_of_kind_def Let_def str_field_def rf_field_def json_str_def access_to_capa_def access_roundtrip)
  next
    case (6 n)
    then have "number_field (raw_of_feature f) ''number'' = Inr n" using assms by (intro number_roundtrip) simp_all
    then show ?thesis using 6 by (simp add: feature_of_kind_def)
  next
    case (7 i)
    then have "int_offset (raw_of_feature f) ''offset'' = Inr i" using assms by (intro offset_roundtrip) simp_all
    then show ?thesis using 7 by (simp add: feature_of_kind_def)
  next
    case (8 ix n)
    then have "operand_index (raw_of_feature f) = Inr ix" "number_field (raw_of_feature f) ''operand_number'' = Inr n"
      using assms by (auto intro!: index_roundtrip number_roundtrip)
    then show ?thesis using 8 by (simp add: feature_of_kind_def)
  next
    case (9 ix i)
    then have "operand_index (raw_of_feature f) = Inr ix" "int_offset (raw_of_feature f) ''operand_offset'' = Inr i"
      using assms by (auto intro!: index_roundtrip offset_roundtrip)
    then show ?thesis using 9 by (simp add: feature_of_kind_def)
  qed (simp_all add: feature_of_kind_def str_field_def rf_field_def json_str_def)
  with desc show ?thesis by (simp add: feature_to_capa_def)
qed

section \<open>Trees\<close>

definition raw_of_located :: "located \<Rightarrow> raw_located" where
  "raw_of_located fs = map (\<lambda>(a, f). (raw_of_address a, raw_of_feature f)) fs"

definition freezable_all :: "regex_lib \<Rightarrow> located \<Rightarrow> bool" where
  "freezable_all rx fs \<longleftrightarrow> (\<forall>(a, f) \<in> set fs. freezable rx f)"

lemma located_roundtrip: "freezable_all rx fs \<Longrightarrow> located_to_capa rx fl (raw_of_located fs) = Inr fs"
  by (induction fs) (auto simp: located_to_capa_def raw_of_located_def freezable_all_def feature_roundtrip)

lemma fold_insert_entries:
  assumes "bt_wf es"
  shows "fold (\<lambda>e. bt_insert (fst e) (snd e)) es [] = es"
proof (rule btree.entries_cong)
  show "bt_wf (fold (\<lambda>e. bt_insert (fst e) (snd e)) es [])" by (rule btree.inv_fold) simp
  have "map_of (rev es) = map_of es"
    by (rule map_of_inject_set [THEN iffD2]) (use bt_wf_distinct [OF assms] in \<open>simp_all add: rev_map [symmetric]\<close>)
  then show "map_of (fold (\<lambda>e. bt_insert (fst e) (snd e)) es []) = map_of es"
    by (subst btree.get_fold) simp_all
qed (rule assms)

lemma tree_roundtrip:
  assumes "bt_wf es" "\<And>a x. (a, x) \<in> set es \<Longrightarrow> addr (mk a x) = raw_of_address a \<and> conv (mk a x) = Inr x"
  shows "tree_to_capa addr conv (map (\<lambda>(a, x). mk a x) es) = Inr es"
proof -
  have "traverse (\<lambda>r. rbind (address_to_capa (addr r)) (\<lambda>a. map_ok (Pair a) (conv r))) (map (\<lambda>(a, x). mk a x) es) = Inr es"
    using assms(2) by (induction es) (auto simp: case_prod_beta)
  then show ?thesis using fold_insert_entries [OF assms(1)] by (simp add: tree_to_capa_def)
qed

definition raw_of_instruction :: "address \<Rightarrow> instruction_features \<Rightarrow> raw_instruction" where
  "raw_of_instruction a x = \<lparr>ri_address = raw_of_address a, ri_features = raw_of_located (insn_features x)\<rparr>"

definition raw_of_block :: "address \<Rightarrow> basic_block_features \<Rightarrow> raw_block" where
  "raw_of_block a x = \<lparr>rb_address = raw_of_address a, rb_features = raw_of_located (bb_features x),
     rb_instructions = map (\<lambda>(a, i). raw_of_instruction a i) (instructions x)\<rparr>"

definition raw_of_function :: "address \<Rightarrow> function_features \<Rightarrow> raw_function" where
  "raw_of_function a x = \<lparr>rfn_address = raw_of_address a, rfn_features = raw_of_located (fn_features x),
     rfn_blocks = map (\<lambda>(a, b). raw_of_block a b) (basic_blocks x)\<rparr>"

definition raw_of_static :: "static_features \<Rightarrow> raw_static" where
  "raw_of_static fz = \<lparr>rs_global = map raw_of_feature (st_global_features fz), rs_file = raw_of_located (st_file_features fz),
     rs_functions = map (\<lambda>(a, f). raw_of_function a f) (st_functions fz)\<rparr>"

definition raw_of_call :: "address \<Rightarrow> call_features \<Rightarrow> raw_call" where
  "raw_of_call a x = \<lparr>rc_address = raw_of_address a, rc_name = call_name x, rc_features = raw_of_located (cl_features x)\<rparr>"

definition raw_of_thread :: "address \<Rightarrow> thread_features \<Rightarrow> raw_thread" where
  "raw_of_thread a x = \<lparr>rt_address = raw_of_address a, rt_features = raw_of_located (th_features x),
     rt_calls = map (\<lambda>(a, c). raw_of_call a c) (calls x)\<rparr>"

definition raw_of_process :: "address \<Rightarrow> process_features \<Rightarrow> raw_process" where
  "raw_of_process a x = \<lparr>rp_address = raw_of_address a, rp_name = process_name x, rp_features = raw_of_located (pr_features x),
     rp_threads = map (\<lambda>(a, t). raw_of_thread a t) (threads x)\<rparr>"

definition raw_of_dynamic :: "dynamic_features \<Rightarrow> raw_dynamic" where
  "raw_of_dynamic fz = \<lparr>rd_global = map raw_of_feature (dy_global_features fz), rd_file = raw_of_located (dy_file_features fz),
     rd_processes = map (\<lambda>(a, p). raw_of_process a p) (processes fz)\<rparr>"

text \<open>Features that can be written, in maps that are in the order of their addresses.\<close>

definition freezable_block :: "regex_lib \<Rightarrow> basic_block_features \<Rightarrow> bool" where
  "freezable_block rx x \<longleftrightarrow> freezable_all rx (bb_features x) \<and> bt_wf (instructions x)
     \<and> (\<forall>(a, i) \<in> set (instructions x). freezable_all rx (insn_features i))"

definition freezable_function :: "regex_lib \<Rightarrow> function_features \<Rightarrow> bool" where
  "freezable_function rx x \<longleftrightarrow> freezable_all rx (fn_features x) \<and> bt_wf (basic_blocks x)
     \<and> (\<forall>(a, b) \<in> set (basic_blocks x). freezable_block rx b)"

definition freezable_static :: "regex_lib \<Rightarrow> static_features \<Rightarrow> bool" where
  "freezable_static rx fz \<longleftrightarrow> (\<forall>f \<in> set (st_global_features fz). freezable rx f) \<and> freezable_all rx (st_file_features fz)
     \<and> bt_wf (st_functions fz) \<and> (\<forall>(a, f) \<in> set (st_functions fz). freezable_function rx f)"

definition freezable_thread :: "regex_lib \<Rightarrow> thread_features \<Rightarrow> bool" where
  "freezable_thread rx x \<longleftrightarrow> freezable_all rx (th_features x) \<and> bt_wf (calls x)
     \<and> (\<forall>(a, c) \<in> set (calls x). freezable_all rx (cl_features c))"

definition freezable_process :: "regex_lib \<Rightarrow> process_features \<Rightarrow> bool" where
  "freezable_process rx x \<longleftrightarrow> freezable_all rx (pr_features x) \<and> bt_wf (threads x)
     \<and> (\<forall>(a, t) \<in> set (threads x). freezable_thread rx t)"

definition freezable_dynamic :: "regex_lib \<Rightarrow> dynamic_features \<Rightarrow> bool" where
  "freezable_dynamic rx fz \<longleftrightarrow> (\<forall>f \<in> set (dy_global_features fz). freezable rx f) \<and> freezable_all rx (dy_file_features fz)
     \<and> bt_wf (processes fz) \<and> (\<forall>(a, p) \<in> set (processes fz). freezable_process rx p)"

lemma block_roundtrip:
  assumes "freezable_block rx x"
  shows "block_to_capa rx fl (raw_of_block a x) = Inr x"
proof -
  have "tree_to_capa ri_address (instruction_to_capa rx fl) (map (\<lambda>(a, i). raw_of_instruction a i) (instructions x))
      = Inr (instructions x)"
    using assms by (intro tree_roundtrip)
      (auto simp: freezable_block_def raw_of_instruction_def instruction_to_capa_def located_roundtrip)
  then show ?thesis
    using assms by (simp add: block_to_capa_def raw_of_block_def freezable_block_def located_roundtrip)
qed

lemma function_roundtrip:
  assumes "freezable_function rx x"
  shows "function_to_capa rx fl (raw_of_function a x) = Inr x"
proof -
  have "tree_to_capa rb_address (block_to_capa rx fl) (map (\<lambda>(a, b). raw_of_block a b) (basic_blocks x)) = Inr (basic_blocks x)"
    using assms by (intro tree_roundtrip) (auto simp: freezable_function_def block_roundtrip, simp add: raw_of_block_def)
  then show ?thesis
    using assms by (simp add: function_to_capa_def raw_of_function_def freezable_function_def located_roundtrip)
qed

lemma thread_roundtrip:
  assumes "freezable_thread rx x"
  shows "thread_to_capa rx fl (raw_of_thread a x) = Inr x"
proof -
  have "tree_to_capa rc_address (freeze_call_to_capa rx fl) (map (\<lambda>(a, c). raw_of_call a c) (calls x)) = Inr (calls x)"
    using assms by (intro tree_roundtrip)
      (auto simp: freezable_thread_def raw_of_call_def freeze_call_to_capa_def located_roundtrip)
  then show ?thesis
    using assms by (simp add: thread_to_capa_def raw_of_thread_def freezable_thread_def located_roundtrip)
qed

lemma process_roundtrip:
  assumes "freezable_process rx x"
  shows "process_to_capa rx fl (raw_of_process a x) = Inr x"
proof -
  have "tree_to_capa rt_address (thread_to_capa rx fl) (map (\<lambda>(a, t). raw_of_thread a t) (threads x)) = Inr (threads x)"
    using assms by (intro tree_roundtrip) (auto simp: freezable_process_def thread_roundtrip, simp add: raw_of_thread_def)
  then show ?thesis
    using assms by (simp add: process_to_capa_def raw_of_process_def freezable_process_def located_roundtrip)
qed

lemma globals_roundtrip:
  "(\<forall>f \<in> set gs. freezable rx f) \<Longrightarrow> traverse (feature_to_capa rx fl) (map raw_of_feature gs) = Inr gs"
  by (induction gs) (simp_all add: feature_roundtrip)

lemma static_roundtrip:
  assumes "freezable_static rx fz"
  shows "static_to_capa rx fl (st_base_address fz) (st_sample_hashes fz) (raw_of_static fz) = Inr fz"
proof -
  have "tree_to_capa rfn_address (function_to_capa rx fl) (map (\<lambda>(a, f). raw_of_function a f) (st_functions fz)) = Inr (st_functions fz)"
    using assms by (intro tree_roundtrip) (auto simp: freezable_static_def function_roundtrip, simp add: raw_of_function_def)
  then show ?thesis
    using assms by (simp add: static_to_capa_def raw_of_static_def freezable_static_def globals_roundtrip located_roundtrip)
qed

lemma dynamic_roundtrip:
  assumes "freezable_dynamic rx fz"
  shows "dynamic_to_capa rx fl (dy_base_address fz) (dy_sample_hashes fz) (raw_of_dynamic fz) = Inr fz"
proof -
  have "tree_to_capa rp_address (process_to_capa rx fl) (map (\<lambda>(a, p). raw_of_process a p) (processes fz)) = Inr (processes fz)"
    using assms by (intro tree_roundtrip) (auto simp: freezable_dynamic_def process_roundtrip, simp add: raw_of_process_def)
  then show ?thesis
    using assms by (simp add: dynamic_to_capa_def raw_of_dynamic_def freezable_dynamic_def globals_roundtrip located_roundtrip)
qed

section \<open>Documents\<close>

text \<open>A text whose JSON has the written form of features.\<close>

fun written :: "freeze_lib \<Rightarrow> string \<Rightarrow> frozen \<Rightarrow> bool" where
  "written fl s (StaticFreeze fz) \<longleftrightarrow>
     (\<exists>j. json_freeze fl s = Inr \<lparr>rz_version = CURRENT_VERSION, rz_base_address = raw_of_address (st_base_address fz),
          rz_hashes = st_sample_hashes fz, rz_flavor = ''static'', rz_features = j\<rparr>
        \<and> json_static fl j = Inr (raw_of_static fz))"
| "written fl s (DynamicFreeze fz) \<longleftrightarrow>
     (\<exists>j. json_freeze fl s = Inr \<lparr>rz_version = CURRENT_VERSION, rz_base_address = raw_of_address (dy_base_address fz),
          rz_hashes = dy_sample_hashes fz, rz_flavor = ''dynamic'', rz_features = j\<rparr>
        \<and> json_dynamic fl j = Inr (raw_of_dynamic fz))"

fun freezable_features :: "regex_lib \<Rightarrow> frozen \<Rightarrow> bool" where
  "freezable_features rx (StaticFreeze fz) = freezable_static rx fz"
| "freezable_features rx (DynamicFreeze fz) = freezable_dynamic rx fz"

text \<open>
  C16: frozen features are read back as they were, plain or compressed. For every tree of static
  or dynamic features whose numbers have at most 64 bits, whose operands are those of an
  instruction and whose regular expressions compile, reading the written form of its features,
  every kind of address and feature among them, yields the tree.
\<close>

theorem frozen_features_read_back:
  assumes "written fl s fr" "freezable_features rx fr"
  shows "loads rx fl s = Inr fr
    \<and> (inflate fl z = Inr out \<longrightarrow> from_utf8 out = Some s \<longrightarrow> load rx fl (FREEZE_MAGIC @ z) = Inr fr)"
proof -
  have "loads rx fl s = Inr fr"
    using assms by (cases fr) (auto simp: loads_def static_roundtrip dynamic_roundtrip)
  then show ?thesis by (simp add: load_def is_freeze_def)
qed

definition example_frozen :: static_features where
  "example_frozen = static_features.make (Absolute 0x400000) (sample_hashes.make [] [] []) [Os ''linux'']
     [(File 4, Export ''main''), (NoAddress, Bytes [1, 0xFF])]
     [(Absolute 1, function_features.make [(Absolute 2, Number (NInt (- 1))), (Absolute 2, OperandOffset 1 8)]
        [(Absolute 1, basic_block_features.make [] []), (Absolute 9, basic_block_features.make [(Absolute 9, BasicBlock)] [])])]"

definition example_freeze_lib :: freeze_lib where
  "example_freeze_lib = \<lparr>inflate = Inr, utf8_failure = (\<lambda>_. []),
     json_freeze = (\<lambda>_. Inr \<lparr>rz_version = CURRENT_VERSION, rz_base_address = raw_of_address (st_base_address example_frozen),
       rz_hashes = st_sample_hashes example_frozen, rz_flavor = ''static'', rz_features = JNull\<rparr>),
     json_static = (\<lambda>_. Inr (raw_of_static example_frozen)), json_dynamic = (\<lambda>_. Inl []), json_debug = (\<lambda>_. [])\<rparr>"

theorem frozen_features_read_back_witness:
  "loads \<lparr>std_new = (\<lambda>_. True), std_is_match = (\<lambda>_ _. False), fancy_new = (\<lambda>_. None), fancy_is_match = (\<lambda>_ _. None)\<rparr>
     example_freeze_lib ''x'' = Inr (StaticFreeze example_frozen)
   \<and> load \<lparr>std_new = (\<lambda>_. True), std_is_match = (\<lambda>_ _. False), fancy_new = (\<lambda>_. None), fancy_is_match = (\<lambda>_ _. None)\<rparr>
     example_freeze_lib (FREEZE_MAGIC @ [0x78]) = Inr (StaticFreeze example_frozen)"
proof -
  have w: "written example_freeze_lib ''x'' (StaticFreeze example_frozen)"
    by (simp add: example_freeze_lib_def)
  have "freezable_features rx (StaticFreeze example_frozen)" for rx
    by (simp add: example_frozen_def static_features.defs function_features.defs basic_block_features.defs freezable_static_def
        freezable_function_def freezable_block_def freezable_all_def MAX_OPERAND_INDEX_def MAX_OPERAND_COUNT_def less_address_def)
  moreover have "inflate example_freeze_lib [0x78] = Inr [0x78]" by (simp add: example_freeze_lib_def)
  moreover have "from_utf8 [0x78] = Some ''x''" by code_simp
  ultimately show ?thesis using frozen_features_read_back [OF w] by blast
qed

end
