(* ===== verification/Noreturn.thy ===== *)
theory Noreturn
  imports Recovered Decoder Imports
begin

text \<open>
  \<^verbatim>\<open>capa-x/src/extract/recovery/noreturn.rs\<close>: which functions never return. The sets of addresses
  are keyed by import slots and function entries alike. \<open>lower\<close> is \<^verbatim>\<open>str::to_lowercase\<close>; \<open>plt\<close> is
  \<^const>\<open>aarch64_plt_got_target\<close> for 64-bit ARM code and finds nothing in x86 code.
\<close>

definition PE_NORETURN_APIS :: "string list" where
  "PE_NORETURN_APIS = [''ntdll.rtlexituserthread'', ''kernel32.exitprocess'', ''kernel32.exitthread'',
     ''kernel32.fatalexit'', ''ntoskrnl.kebugcheckex'']"

definition PE_NORETURN_API_PATTERNS :: "(string \<times> string) list" where
  "PE_NORETURN_API_PATTERNS =
     [(''msvcr'', ''._cxxthrowexception''), (''msvcr'', ''.abort''), (''msvcr'', ''.exit''), (''msvcr'', ''._exit''),
      (''msvcr'', ''.quick_exit''), (''api_ms_win_crt_runtime_'', ''._invalid_parameter_noinfo_noreturn''),
      (''api_ms_win_crt_runtime_'', ''.exit''), (''api_ms_win_crt_runtime_'', ''._exit'')]"

definition ELF_NORETURN_APIS :: "string list" where
  "ELF_NORETURN_APIS = [''*.abort'', ''*.exit'', ''*._exit'', ''*.longjmp'', ''*._setjmp'', ''*.j__zst9terminatev'',
     ''*.std::terminate(void)'', ''*.__assert_fail'', ''*.__stack_chk_fail'', ''*.pthread_exit'']"

definition matches_noreturn_api :: "(string \<Rightarrow> string) \<Rightarrow> image_format \<Rightarrow> string \<Rightarrow> bool" where
  "matches_noreturn_api lower fmt raw_name =
     (let name = lower raw_name
      in case fmt of
           Pe \<Rightarrow> name \<in> set PE_NORETURN_APIS
             \<or> list_ex (\<lambda>(pre, suf). length pre + length suf \<le> length name \<and> starts_with name pre \<and> ends_with name suf)
                 PE_NORETURN_API_PATTERNS
         | Elf \<Rightarrow> name \<in> set ELF_NORETURN_APIS
         | Sc \<Rightarrow> False
         | Macho \<Rightarrow> False)"

definition seed_addresses :: "(string \<Rightarrow> string) \<Rightarrow> loaded_image \<Rightarrow> u64 set" where
  "seed_addresses lower img =
     {a \<in> dom (import_locations img). matches_noreturn_api lower (format img) (the (import_locations img a))}"

type_synonym 'd plt_target = "'d decoded_instruction \<Rightarrow> 'd decoded_instruction \<Rightarrow> u64 option"

definition in_plt :: "loaded_image \<Rightarrow> u64 \<Rightarrow> bool" where
  "in_plt img a = list_ex (\<lambda>(start, stop). start \<le> a \<and> a < stop) (elf_plt_ranges img)"

text \<open>The jump of a linkage stub of an ELF image, if the function is one.\<close>

definition plt_jump :: "'d analysis \<Rightarrow> 'd recovered_function \<Rightarrow> 'd decoded_instruction option" where
  "plt_jump an f =
     (if format (an_image an) = Elf \<and> in_plt (an_image an) (func_addr f) \<and> length (blocks f) = 1
      then case insns (hd (blocks f)) of
             [] \<Rightarrow> None
           | is \<Rightarrow> if insn_flow (last is) = IndirectBranch then Some (last is) else None
      else None)"

definition import_thunk_location :: "'d plt_target \<Rightarrow> 'd analysis \<Rightarrow> 'd recovered_function \<Rightarrow> u64 option" where
  "import_thunk_location plt an f =
     Option.bind (bt_get (an_instructions an) (func_addr f)) (\<lambda>entry.
       let insn = (case plt_jump an f of Some jump \<Rightarrow> jump | None \<Rightarrow> entry)
       in Option.bind
            (if insn_flow insn \<in> {IndirectCall, IndirectBranch} then memory_target insn
             else Option.bind (bt_get (an_instructions an) (next_address insn)) (plt insn))
            (\<lambda>target. if import_locations (an_image an) target \<noteq> None then Some target else None))"

text \<open>An instruction that begins in the fourteen bytes before an address and runs over it.\<close>

definition overlapped :: "'d analysis \<Rightarrow> u64 \<Rightarrow> bool" where
  "overlapped an a =
     list_ex (\<lambda>(start, insn). (if a < 14 then 0 else a - 14) \<le> start \<and> start < a \<and> a < next_address insn) (an_instructions an)"

definition is_leaf_block :: "'d recovered_function \<Rightarrow> 'd basic_block \<Rightarrow> bool" where
  "is_leaf_block f b = (\<not> list_ex (\<lambda>e. edge_target e \<in> set (map block_addr (blocks f))) (succs b))"

definition cut_at_unwind :: "'d analysis \<Rightarrow> 'd recovered_function \<Rightarrow> 'd decoded_instruction \<Rightarrow> bool" where
  "cut_at_unwind an f l =
     (insn_flow l \<in> {Next, Call, IndirectCall} \<and> next_address l \<noteq> func_addr f
      \<and> (case bt_get (seeds an) (next_address l) of None \<Rightarrow> False | Some kinds \<Rightarrow> Unwind \<in> kinds))"

fun leaf_loop :: "'d analysis \<Rightarrow> 'd recovered_function \<Rightarrow> 'd basic_block list \<Rightarrow> bool" where
  "leaf_loop an f [] = True"
| "leaf_loop an f (b # bs) =
     (if insns b = [] then leaf_loop an f bs
      else
        let l = last (insns b)
        in if insn_address l \<in> noreturn_calls an then leaf_loop an f bs
           else if cut_at_unwind an f l then False
           else
             case insn_flow l of
               Return \<Rightarrow> False
             | UnconditionalBranch \<Rightarrow> False
             | ConditionalBranch \<Rightarrow> False
             | IndirectBranch \<Rightarrow> False
             | _ \<Rightarrow> leaf_loop an f bs)"

definition function_never_returns :: "'d plt_target \<Rightarrow> 'd analysis \<Rightarrow> 'd recovered_function \<Rightarrow> bool" where
  "function_never_returns plt an f =
     (if overlapped an (func_addr f) then False
      else if import_thunk_location plt an f \<noteq> None then False
      else leaf_loop an f (filter (is_leaf_block f) (blocks f)))"

definition thunk_into :: "'d plt_target \<Rightarrow> 'd analysis \<Rightarrow> u64 set \<Rightarrow> 'd recovered_function \<Rightarrow> bool" where
  "thunk_into plt an known f = (case import_thunk_location plt an f of None \<Rightarrow> False | Some slot \<Rightarrow> slot \<in> known)"

definition propagate :: "'d plt_target \<Rightarrow> 'd analysis \<Rightarrow> u64 set \<Rightarrow> u64 set" where
  "propagate plt an known =
     fold (\<lambda>(_, f) out. if thunk_into plt an known f then insert (func_addr f) out
                        else if function_never_returns plt an f then insert (func_addr f) out else out)
       (an_functions an) known"

definition completed_function_never_returns ::
  "'d plt_target \<Rightarrow> 'd analysis \<Rightarrow> 'd recovered_function \<Rightarrow> u64 set \<Rightarrow> bool" where
  "completed_function_never_returns plt an f known =
     (if thunk_into plt an known f then True
      else format (an_image an) \<in> {Pe, Elf} \<and> blocks f \<noteq> [] \<and> function_never_returns plt an f)"

section \<open>What is propagated\<close>

text \<open>A block at whose end control leaves the function, or may.\<close>

definition may_return :: "'d analysis \<Rightarrow> 'd recovered_function \<Rightarrow> 'd basic_block \<Rightarrow> bool" where
  "may_return an f b \<longleftrightarrow>
     insns b \<noteq> [] \<and> insn_address (last (insns b)) \<notin> noreturn_calls an
     \<and> (cut_at_unwind an f (last (insns b))
        \<or> insn_flow (last (insns b)) \<in> {Return, UnconditionalBranch, ConditionalBranch, IndirectBranch})"

lemma leaf_loop_iff: "leaf_loop an f bs \<longleftrightarrow> (\<forall>b \<in> set bs. \<not> may_return an f b)"
  by (induction bs) (auto simp: Let_def may_return_def split: flow.split)

lemma never_returns_iff:
  "function_never_returns plt an f \<longleftrightarrow>
     \<not> overlapped an (func_addr f) \<and> import_thunk_location plt an f = None
     \<and> (\<forall>b \<in> set (blocks f). is_leaf_block f b \<longrightarrow> \<not> may_return an f b)"
  by (auto simp: function_never_returns_def leaf_loop_iff)

lemma fold_insert_if:
  "fold (\<lambda>(_, f) out. if P f then insert (g f) out else if Q f then insert (g f) out else out) es out
     = out \<union> g ` {f \<in> snd ` set es. P f \<or> Q f}"
proof (induction es arbitrary: out)
  case (Cons e es)
  obtain k f where e: "e = (k, f)" by fastforce
  have "g ` {h \<in> snd ` set (e # es). P h \<or> Q h} = (if P f \<or> Q f then {g f} else {}) \<union> g ` {h \<in> snd ` set es. P h \<or> Q h}"
    by (auto simp: e)
  then show ?case using Cons.IH by (auto simp: e)
qed simp

lemma thunk_calls: "import_thunk_location plt (an\<lparr>noreturn_calls := C\<rparr>) f = import_thunk_location plt an f"
proof -
  have "plt_jump (an\<lparr>noreturn_calls := C\<rparr>) f = plt_jump an f" by (simp add: plt_jump_def)
  moreover have "an_instructions (an\<lparr>noreturn_calls := C\<rparr>) = an_instructions an" "an_image (an\<lparr>noreturn_calls := C\<rparr>) = an_image an"
    by simp_all
  ultimately show ?thesis unfolding import_thunk_location_def by (simp only:)
qed

lemma may_return_mono: "C \<subseteq> C' \<Longrightarrow> may_return (an\<lparr>noreturn_calls := C'\<rparr>) f b \<Longrightarrow> may_return (an\<lparr>noreturn_calls := C\<rparr>) f b"
  by (auto simp: may_return_def cut_at_unwind_def)

lemma propagate_iff:
  "a \<in> propagate plt an known \<longleftrightarrow>
     a \<in> known \<or> (\<exists>f \<in> snd ` set (an_functions an). a = func_addr f \<and>
       ((\<exists>slot \<in> known. import_thunk_location plt an f = Some slot)
        \<or> \<not> overlapped an (func_addr f) \<and> import_thunk_location plt an f = None
          \<and> (\<forall>b \<in> set (blocks f). is_leaf_block f b \<longrightarrow> \<not> may_return an f b)))"
proof -
  have "thunk_into plt an known f \<longleftrightarrow> (\<exists>slot \<in> known. import_thunk_location plt an f = Some slot)" for f
    by (simp add: thunk_into_def split: option.split)
  then show ?thesis unfolding propagate_def fold_insert_if never_returns_iff [symmetric] by blast
qed


text \<open>A function that ends in a trap, one that returns, and a stub of a known import.\<close>

definition example_insn :: "u64 \<Rightarrow> u64 \<Rightarrow> flow \<Rightarrow> u64 option \<Rightarrow> unit decoded_instruction" where
  "example_insn a next' fl m = decoded_instruction.make a [] next' fl None m None ()"

definition noreturn_example :: "unit analysis" where
  "noreturn_example =
     (let fn = (\<lambda>i. (insn_address i, recovered_function.make (insn_address i) [basic_block.make (insn_address i) [i] []]));
          is = [example_insn 16 17 Terminal None, example_insn 32 33 Return None, example_insn 48 54 IndirectBranch (Some 4096)]
      in analysis.make (from_shellcode [] X86 \<lparr>format := Pe, import_locations := [4096 \<mapsto> ''kernel32.exitprocess'']\<rparr>) []
           (map fn is) [] [] [] [] [] (map (\<lambda>i. (insn_address i, i)) is) [] [] [] [] [] [] {} {})"


end
