(* ===== verification/Decode.thy ===== *)
theory Decode
  imports Decoder
begin

text \<open>
  \<^verbatim>\<open>LoadedImage::decode_with_policy\<close> of \<^verbatim>\<open>capa-x/src/extract/loader/image.rs\<close> for x86 images: decoding an
  instruction, natively or in the way of the reference decoder, whose deviations from the
  architecture are obtained by rejecting opcodes, by rewriting bytes before they are decoded
  and by correcting the result. The decoder is a library, the parameter \<open>iced_lib\<close>; its laws are
  \<open>iced_ok\<close>.
\<close>

unbundle bit_operations_syntax

section \<open>The library\<close>

record iced_options =
  no_pause :: bool
  no_invalid_check :: bool

record iced_decoded =
  iced_insn :: x86_instruction
  iced_len :: nat
  iced_invalid :: bool
  iced_error :: string
  immediate_offset :: nat
  immediate_size :: nat

datatype x86_code =
    Enterd_imm16_imm8 | Bound_r16_m1616 | Bound_r32_m3232 | Les_r16_m1616 | Les_r32_m1632 | Lds_r16_m1616 | Lds_r32_m1632

datatype op_access = Access_Read | Access_Write | Access_CondWrite | Access_ReadWrite | Access_ReadCondWrite | Other_Access

record iced_lib =
  iced_decode :: "nat \<Rightarrow> u8 list \<Rightarrow> u64 \<Rightarrow> iced_options \<Rightarrow> iced_decoded"
  iced_default :: x86_instruction
  set_code :: "x86_code \<Rightarrow> x86_instruction \<Rightarrow> x86_instruction"
  register_size :: "x86_register \<Rightarrow> nat"
  full_register :: "x86_register \<Rightarrow> x86_register"
  memory_segment :: "x86_instruction \<Rightarrow> x86_register"
  used_registers :: "x86_instruction \<Rightarrow> (x86_register \<times> op_access) list"

section \<open>Undocumented opcodes\<close>

definition MAX_INSN_LEN :: nat where
  "MAX_INSN_LEN = 15"

definition VPCEXT_OPCODE :: "u8 list" where
  "VPCEXT_OPCODE = [0x0f, 0x3f]"

definition VPCEXT_LEN :: nat where
  "VPCEXT_LEN = 4"

definition decode_undocumented :: "iced_lib \<Rightarrow> u64 \<Rightarrow> u8 list \<Rightarrow> (x86_instruction \<times> string \<times> nat) option" where
  "decode_undocumented lb address bytes =
     (if length bytes < VPCEXT_LEN \<or> take 2 bytes \<noteq> VPCEXT_OPCODE then None
      else
        let i = set_code lb Enterd_imm16_imm8 (iced_default lb)
        in Some (i\<lparr>op_kind_of := (op_kind_of i)(0 := Immediate8, 1 := Immediate8_2nd),
                   op_immediate := (op_immediate i)(0 := ucast (bytes ! 2), 1 := ucast (bytes ! 3)),
                   next_ip := address + of_nat VPCEXT_LEN\<rparr>, ''vpcext'', VPCEXT_LEN))"

section \<open>Opcodes of the reference decoder\<close>

definition is_opcode_prefix :: "architecture \<Rightarrow> u8 \<Rightarrow> bool" where
  "is_opcode_prefix architecture byte \<longleftrightarrow>
     byte \<in> {0x26, 0x2e, 0x36, 0x3e, 0x64, 0x65, 0x66, 0x67, 0xf0, 0xf2, 0xf3}
     \<or> architecture = X64 \<and> byte \<in> {0x40..0x4f}"

text \<open>The position of the first byte that is no prefix; only the reference decoder looks for it.\<close>

definition opcode_offset :: "architecture \<Rightarrow> bool \<Rightarrow> u8 list \<Rightarrow> nat option" where
  "opcode_offset architecture compatibility bytes =
     (let o' = length (takeWhile (is_opcode_prefix architecture) bytes)
      in if compatibility \<and> o' < length bytes then Some o' else None)"

definition vex_opcode :: "u8 list \<Rightarrow> nat \<Rightarrow> (u8 \<times> u8) option" where
  "vex_opcode bytes o' =
     Option.bind (get_byte bytes o') (\<lambda>opcode.
       if opcode = 0xc5 then
         Option.bind (get_byte bytes (o' + 1)) (\<lambda>p. Option.bind (get_byte bytes (o' + 2)) (\<lambda>c. Some (p AND 3, c)))
       else if opcode = 0xc4 then
         Option.bind (get_byte bytes (o' + 1)) (\<lambda>m.
           if m AND 0x1f = 1 then
             Option.bind (get_byte bytes (o' + 2)) (\<lambda>p. Option.bind (get_byte bytes (o' + 3)) (\<lambda>c. Some (p AND 3, c)))
           else None)
       else None)"

definition some_and :: "'a option \<Rightarrow> ('a \<Rightarrow> bool) \<Rightarrow> bool" where
  "some_and v P = (case v of None \<Rightarrow> False | Some x \<Rightarrow> P x)"

definition vex_0f38_opcodes :: "u8 set" where
  "vex_0f38_opcodes = {0x00..0x10} \<union> {0x13..0x1a} \<union> {0x1c..0x1e} \<union> {0x20..0x25} \<union> {0x28..0x40} \<union> {0x58..0x5a}
     \<union> {0x78..0x79} \<union> {0x80..0x82} \<union> {0x96..0x9f} \<union> {0xa6..0xaf} \<union> {0xb6..0xbf} \<union> {0xc8..0xcd}
     \<union> {0xdb..0xdf} \<union> {0xf0..0xf3} \<union> {0xf5..0xf7}"

definition simd_0f38_opcodes :: "u8 set" where
  "simd_0f38_opcodes = {0x00..0x0b} \<union> {0x10} \<union> {0x14..0x15} \<union> {0x17} \<union> {0x1c..0x1e} \<union> {0x20..0x25} \<union> {0x28..0x2b}
     \<union> {0x30..0x35} \<union> {0x37..0x3f} \<union> {0xdb..0xdf} \<union> {0xf0..0xf1} \<union> {0xf6}"

definition simd_0f3a_opcodes :: "u8 set" where
  "simd_0f3a_opcodes = {0x0f, 0x14, 0x16, 0x20, 0x44, 0x63, 0xdf}"

text \<open>Why the reference decoder rejects the opcode at an offset, in the order of the checks.\<close>

definition reference_rejects :: "loaded_image \<Rightarrow> u8 list \<Rightarrow> nat \<Rightarrow> string option" where
  "reference_rejects img bytes o' =
     (if arch img = X86 \<and> format img \<in> {Pe, Elf} \<and> get_byte bytes o' = Some 0xf1
      then Some ''INT1 has no operand for the reference i386 platform trap check''
      else if get_byte bytes o' = Some 0xdf
        \<and> some_and (get_byte bytes (o' + 1)) (\<lambda>modrm. 0xc0 \<le> modrm \<and> \<not> (modrm = 0xe0 \<or> modrm \<in> {0xe8..0xf7}))
      then Some ''undefined DF register opcode in the reference decoder''
      else if arch img = X64 \<and> some_and (vex_opcode bytes o') (\<lambda>(pre, opcode). pre \<noteq> 0 \<and> opcode \<in> {0x90..0x9f})
      then Some ''undefined prefixed VEX opcode in the reference decoder''
      else if arch img = X64 \<and> get_byte bytes o' = Some 0xc4
        \<and> some_and (get_byte bytes (o' + 1)) (\<lambda>m. m AND 0x1f = 2)
        \<and> some_and (get_byte bytes (o' + 3)) (\<lambda>opcode. opcode \<notin> vex_0f38_opcodes)
      then Some ''undefined VEX 0F38 opcode in the reference decoder''
      else if get_byte bytes o' = Some 0x0f \<and> get_byte bytes (o' + 1) \<in> {Some 0xa6, Some 0xa7}
      then Some ''opcode is undefined in the reference 0F A6/A7 table''
      else if arch img = X86 \<and> get_byte bytes o' = Some 0x0f
        \<and> (get_byte bytes (o' + 1) = Some 0x38 \<and> some_and (get_byte bytes (o' + 2)) (\<lambda>opcode. opcode \<notin> simd_0f38_opcodes)
           \<or> get_byte bytes (o' + 1) = Some 0x3a \<and> some_and (get_byte bytes (o' + 2)) (\<lambda>opcode. opcode \<notin> simd_0f3a_opcodes))
      then Some ''opcode is undefined in the reference three-byte SIMD tables''
      else None)"

section \<open>Encodings the reference decoder reads in its own way\<close>

definition is_bound :: "u8 list \<Rightarrow> nat \<Rightarrow> bool" where
  "is_bound bytes o' \<longleftrightarrow> get_byte bytes o' = Some 0x62"

definition is_far_load :: "architecture \<Rightarrow> u8 list \<Rightarrow> nat \<Rightarrow> bool" where
  "is_far_load architecture bytes o' \<longleftrightarrow> architecture = X86 \<and> get_byte bytes o' \<in> {Some 0xc4, Some 0xc5}"

definition is_alias :: "u8 list \<Rightarrow> nat \<Rightarrow> bool" where
  "is_alias bytes o' \<longleftrightarrow> get_byte bytes o' \<in> {Some 0xc6, Some 0xc7, Some 0x8f}
     \<and> some_and (get_byte bytes (o' + 1)) (\<lambda>modrm. modrm AND 0x38 \<noteq> 0)"

definition is_nop_alias :: "u8 list \<Rightarrow> nat \<Rightarrow> bool" where
  "is_nop_alias bytes o' \<longleftrightarrow> get_byte bytes o' = Some 0x0f
     \<and> some_and (get_byte bytes (o' + 1)) (\<lambda>opcode. opcode \<in> {0x1c..0x1f}) \<and> get_byte bytes (o' + 2) \<noteq> None"

definition is_moffs :: "u8 list \<Rightarrow> nat \<Rightarrow> bool" where
  "is_moffs bytes o' \<longleftrightarrow> some_and (get_byte bytes o') (\<lambda>opcode. opcode \<in> {0xa0..0xa3}) \<and> 0x67 \<in> set (take o' bytes)"

definition is_movdq2q :: "architecture \<Rightarrow> u8 list \<Rightarrow> nat \<Rightarrow> bool" where
  "is_movdq2q architecture bytes o' \<longleftrightarrow>
     architecture = X86 \<and> get_range bytes o' (o' + 2) = Some [0x0f, 0xd6] \<and> 0xf2 \<in> set (take o' bytes)"

definition is_vex_mmx :: "architecture \<Rightarrow> u8 list \<Rightarrow> nat \<Rightarrow> bool" where
  "is_vex_mmx architecture bytes o' \<longleftrightarrow>
     architecture = X64 \<and> get_byte bytes o' = Some 0xc5 \<and> vex_opcode bytes o' = Some (0, 0x62)"

text \<open>\<^verbatim>\<open>if let Some(byte) = adjusted.get_mut(i)\<close>.\<close>

definition modify_at :: "nat \<Rightarrow> (u8 \<Rightarrow> u8) \<Rightarrow> u8 list \<Rightarrow> u8 list" where
  "modify_at i f bytes = (if i < length bytes then bytes[i := f (bytes ! i)] else bytes)"

definition replace_address_size :: "nat \<Rightarrow> u8 list \<Rightarrow> u8 list" where
  "replace_address_size o' bytes =
     (let prefixes = take o' bytes;
          segment = (case List.find (\<lambda>b. b \<in> {0x26, 0x2e, 0x36, 0x3e, 0x64, 0x65}) (rev prefixes) of
                       None \<Rightarrow> 0x3e | Some b \<Rightarrow> b)
      in map (\<lambda>p. if p = 0x67 then segment else p) prefixes @ drop o' bytes)"

definition drop_vex_payload :: "nat \<Rightarrow> u8 list \<Rightarrow> u8 list" where
  "drop_vex_payload o' bytes =
     (let b = modify_at o' (\<lambda>_. 0x0f) bytes
      in if o' + 1 < length b then take (o' + 1) b @ drop (o' + 2) b else b)"

definition legacy_bytes :: "architecture \<Rightarrow> u8 list \<Rightarrow> nat \<Rightarrow> u8 list" where
  "legacy_bytes architecture bytes o' =
     (let b = (if is_movdq2q architecture bytes o'
               then modify_at (o' + 2) (\<lambda>m. 0xc0 OR (m AND 0x38) OR (drop_bit 3 m AND 7)) bytes else bytes);
          b = (if is_bound bytes o' then modify_at o' (\<lambda>_. 0x8b) b else b);
          b = (if is_far_load architecture bytes o' then modify_at o' (\<lambda>_. 0x8b) b else b);
          b = (if is_alias bytes o' then modify_at (o' + 1) (\<lambda>m. m AND 0xc7) b else b);
          b = (if is_nop_alias bytes o' then modify_at (o' + 2) (\<lambda>m. m AND 0xc7) (modify_at (o' + 1) (\<lambda>_. 0x1f) b) else b);
          b = (if is_moffs bytes o' then replace_address_size o' b else b)
      in if is_vex_mmx architecture bytes o' then drop_vex_payload o' b else b)"

definition decoder_input :: "architecture \<Rightarrow> u8 list \<Rightarrow> nat option \<Rightarrow> u8 list" where
  "decoder_input architecture bytes off = (case off of None \<Rightarrow> bytes | Some o' \<Rightarrow> legacy_bytes architecture bytes o')"

definition decoder_options :: "architecture \<Rightarrow> bool \<Rightarrow> u8 list \<Rightarrow> nat option \<Rightarrow> iced_options" where
  "decoder_options architecture compatibility bytes off =
     (let lock = some_and off (\<lambda>o'. 0xf0 \<in> set (take o' bytes));
          rex_vex = (architecture = X64 \<and> some_and off (\<lambda>o'. get_byte bytes o' \<in> {Some 0xc4, Some 0xc5}
                       \<and> list_ex (\<lambda>b. b \<in> {0x40..0x4f}) (take o' bytes)))
      in \<lparr>no_pause = compatibility, no_invalid_check = compatibility \<and> (lock \<or> rex_vex)\<rparr>)"

section \<open>Corrections of the result\<close>

text \<open>The extent of an instruction whose bytes were rewritten.\<close>

definition correct_extent :: "architecture \<Rightarrow> u64 \<Rightarrow> u8 list \<Rightarrow> nat option \<Rightarrow> iced_decoded \<Rightarrow> iced_decoded" where
  "correct_extent architecture address bytes off d =
     (let d = (if some_and off (is_vex_mmx architecture bytes) \<and> \<not> iced_invalid d
               then d\<lparr>iced_len := iced_len d + 1, iced_insn := (iced_insn d)\<lparr>next_ip := next_ip (iced_insn d) + 1\<rparr>\<rparr>
               else d)
      in case off of
           None \<Rightarrow> d
         | Some o' \<Rightarrow>
             if is_movdq2q architecture bytes o' \<and> \<not> iced_invalid d
             then d\<lparr>iced_len := o' + 2, iced_insn := (iced_insn d)\<lparr>next_ip := address + of_nat (o' + 2)\<rparr>\<rparr>
             else d)"

definition relative_displacement :: "u8 list \<Rightarrow> int option" where
  "relative_displacement raw' =
     (case raw' of
        [byte] \<Rightarrow> Some (sint byte)
      | [low, high] \<Rightarrow> Some (sint (word_cat high low :: 16 word))
      | _ \<Rightarrow> None)"

text \<open>Relative targets are not cut to 16 bits.\<close>

definition widen_branch :: "architecture \<Rightarrow> bool \<Rightarrow> u64 \<Rightarrow> u8 list \<Rightarrow> iced_decoded \<Rightarrow> image_error + iced_decoded" where
  "widen_branch architecture compatibility address bytes d =
     (let i = iced_insn d
      in if compatibility \<and> architecture = X86 \<and> op_kind_of i 0 = NearBranch16 then
           rbind (ok_or (InvalidInstruction address ''missing relative branch displacement'')
                    (Option.bind (get_range bytes (immediate_offset d) (immediate_offset d + immediate_size d))
                       relative_displacement)) (\<lambda>displacement.
             let target = wrapping_add_signed (next_ip i) displacement
             in Inr (d\<lparr>iced_insn := i\<lparr>op_kind_of := (op_kind_of i)(0 := NearBranch32),
                                     near_branch_target := ucast (ucast target :: u32)\<rparr>\<rparr>))
         else Inr d)"

definition rename_code :: "iced_lib \<Rightarrow> architecture \<Rightarrow> u8 list \<Rightarrow> nat option \<Rightarrow> iced_decoded \<Rightarrow> iced_decoded" where
  "rename_code lb architecture bytes off d =
     (case off of
        None \<Rightarrow> d
      | Some o' \<Rightarrow>
          let narrow = (\<lambda>i. register_size lb (op_register i 0) = 2);
              d = (if is_bound bytes o' \<and> \<not> iced_invalid d
                   then d\<lparr>iced_insn := set_code lb (if narrow (iced_insn d) then Bound_r16_m1616 else Bound_r32_m3232) (iced_insn d)\<rparr>
                   else d)
          in if is_far_load architecture bytes o' \<and> \<not> iced_invalid d
             then d\<lparr>iced_insn := set_code lb
                      (if get_byte bytes o' = Some 0xc4
                       then (if narrow (iced_insn d) then Les_r16_m1616 else Les_r32_m1632)
                       else (if narrow (iced_insn d) then Lds_r16_m1616 else Lds_r32_m1632)) (iced_insn d)\<rparr>
             else d)"

definition finish_decoding ::
  "iced_lib \<Rightarrow> architecture \<Rightarrow> bool \<Rightarrow> u64 \<Rightarrow> u8 list \<Rightarrow> nat option \<Rightarrow> iced_decoded \<Rightarrow> image_error + x86_insn" where
  "finish_decoding lb architecture compatibility address bytes off d =
     rbind (if iced_invalid d then
              (case decode_undocumented lb address bytes of
                 None \<Rightarrow> Inl (InvalidInstruction address (iced_error d))
               | Some (carrier, mnemonic, len) \<Rightarrow> Inr (carrier, len, Some mnemonic))
            else Inr (iced_insn d, iced_len d,
                      if some_and off (is_vex_mmx architecture bytes) then Some ''vpunpckldq'' else None))
       (\<lambda>(instruction, len, override).
          rbind (ok_or (InvalidInstruction address ''decoder consumed beyond the mapped bytes'') (get_range bytes 0 len))
            (\<lambda>raw'.
               let decoded = from_x86 address raw' instruction override
               in Inr (if compatibility \<and> architecture = X64 \<and> x86_mnemonic instruction \<in> {''Int'', ''Int1''}
                       then decoded\<lparr>insn_flow := Next\<rparr> else decoded)))"

definition decode_with_policy :: "iced_lib \<Rightarrow> loaded_image \<Rightarrow> u64 \<Rightarrow> bool \<Rightarrow> image_error + x86_insn" where
  "decode_with_policy lb img address compatibility =
     rbind (ok_or (AddressNotMapped address) (section_containing img address)) (\<lambda>s.
       if \<not> perm_execute (sec_permissions s) then Inl (AddressNotExecutable address)
       else
         rbind (ok_or (AddressNotMapped address) (bytes_at img address MAX_INSN_LEN)) (\<lambda>bytes.
           let off = opcode_offset (arch img) compatibility bytes
           in case Option.bind off (reference_rejects img bytes) of
                Some reason \<Rightarrow> Inl (InvalidInstruction address reason)
              | None \<Rightarrow>
                  rbind (widen_branch (arch img) compatibility address bytes
                           (correct_extent (arch img) address bytes off
                              (iced_decode lb (arch_bitness (arch img))
                                 (decoder_input (arch img) bytes off) address
                                 (decoder_options (arch img) compatibility bytes off))))
                    (\<lambda>d. finish_decoding lb (arch img) compatibility address bytes off
                           (rename_code lb (arch img) bytes off d))))"

definition decode_at :: "iced_lib \<Rightarrow> loaded_image \<Rightarrow> u64 \<Rightarrow> image_error + x86_insn" where
  "decode_at lb img address = decode_with_policy lb img address False"

definition decode_at_compat :: "iced_lib \<Rightarrow> loaded_image \<Rightarrow> u64 \<Rightarrow> image_error + x86_insn" where
  "decode_at_compat lb img address = decode_with_policy lb img address True"

section \<open>The extent of an instruction\<close>

text \<open>
  What the library documents: an instruction that is not invalid has at least one byte, is
  read from the bytes given and ends where it says; changing the code keeps the addresses.
\<close>

definition iced_ok :: "iced_lib \<Rightarrow> bool" where
  "iced_ok lb \<longleftrightarrow>
     (\<forall>bits bytes address opts. let d = iced_decode lb bits bytes address opts in
        \<not> iced_invalid d \<longrightarrow> 0 < iced_len d \<and> iced_len d \<le> length bytes \<and> next_ip (iced_insn d) = address + of_nat (iced_len d))
     \<and> (\<forall>code i. next_ip (set_code lb code i) = next_ip i)"

definition extent_ok :: "u64 \<Rightarrow> u8 list \<Rightarrow> iced_decoded \<Rightarrow> bool" where
  "extent_ok address bytes d \<longleftrightarrow> iced_invalid d
     \<or> 0 < iced_len d \<and> iced_len d \<le> length bytes \<and> next_ip (iced_insn d) = address + of_nat (iced_len d)"

lemma length_modify_at [simp]: "length (modify_at i f bytes) = length bytes"
  by (simp add: modify_at_def)

lemma length_replace_address_size [simp]: "length (replace_address_size o' bytes) = length bytes"
  by (simp add: replace_address_size_def Let_def min_def)

lemma length_legacy_bytes:
  "length (legacy_bytes a bytes o') =
     (if is_vex_mmx a bytes o' \<and> o' + 1 < length bytes then length bytes - 1 else length bytes)"
  by (auto simp: legacy_bytes_def Let_def drop_vex_payload_def)

lemma vex_mmx_length: "is_vex_mmx a bytes o' \<Longrightarrow> o' + 2 < length bytes"
  by (auto simp: is_vex_mmx_def vex_opcode_def get_byte_def split: if_splits bind_splits)

lemma extent_decoded:
  assumes "iced_ok lb"
  shows "extent_ok address bytes (correct_extent a address bytes off
    (iced_decode lb bits (decoder_input a bytes off) address opts))"
proof -
  let ?in = "decoder_input a bytes off"
  obtain d where d_def: "d = iced_decode lb bits ?in address opts" by simp
  have d: "iced_invalid d \<or> 0 < iced_len d \<and> iced_len d \<le> length ?in \<and> next_ip (iced_insn d) = address + of_nat (iced_len d)"
    using assms by (auto simp: iced_ok_def Let_def d_def)
  have "extent_ok address bytes (correct_extent a address bytes off d)"
  proof (cases off)
    case None
    then show ?thesis using d by (simp add: correct_extent_def some_and_def extent_ok_def decoder_input_def)
  next
    case (Some o')
    have "\<not> (is_vex_mmx a bytes o' \<and> is_movdq2q a bytes o')" by (auto simp: is_vex_mmx_def is_movdq2q_def)
    moreover have "is_movdq2q a bytes o' \<Longrightarrow> o' + 2 \<le> length bytes"
      by (auto simp: is_movdq2q_def get_range_def split: if_splits)
    ultimately show ?thesis
      using d Some vex_mmx_length [of a bytes o']
      by (auto simp: correct_extent_def some_and_def extent_ok_def Let_def length_legacy_bytes decoder_input_def)
  qed
  then show ?thesis by (simp add: d_def)
qed

lemma extent_widened: "widen_branch a c address bytes d = Inr d' \<Longrightarrow> extent_ok address bytes d \<Longrightarrow> extent_ok address bytes d'"
  by (auto simp: widen_branch_def Let_def extent_ok_def rbind_Inr_iff split: if_splits)

lemma extent_renamed: "iced_ok lb \<Longrightarrow> extent_ok address bytes d \<Longrightarrow> extent_ok address bytes (rename_code lb a bytes off d)"
  by (auto simp: rename_code_def Let_def extent_ok_def iced_ok_def split: option.split)

lemma bytes_at_length: "bytes_at img address n = Some bytes \<Longrightarrow> length bytes \<le> n"
  by (auto simp: bytes_at_def get_range_def checked_add_def Let_def split: bind_splits prod.splits if_splits)

lemma undocumented_extent:
  "decode_undocumented lb address bytes = Some (i, m, n) \<Longrightarrow>
     0 < n \<and> n \<le> length bytes \<and> next_ip i = address + of_nat n"
  by (auto simp: decode_undocumented_def VPCEXT_LEN_def Let_def split: if_splits)

lemma finish_extent:
  assumes "extent_ok address bytes d"
  shows "finish_decoding lb a c address bytes off d = Inr insn \<Longrightarrow>
      insn_address insn = address \<and> 0 < length (insn_bytes insn) \<and> length (insn_bytes insn) \<le> length bytes
      \<and> insn_bytes insn = take (length (insn_bytes insn)) bytes \<and> next_address insn = address + of_nat (length (insn_bytes insn))"
    "finish_decoding lb a c address bytes off d = Inl e \<Longrightarrow> iced_invalid d \<and> e = InvalidInstruction address (iced_error d)"
  using assms undocumented_extent [of lb address bytes]
  by (auto simp: finish_decoding_def extent_ok_def rbind_Inr_iff get_range_def from_x86_def Let_def
      split: if_splits option.splits prod.splits)

text \<open>
  C25: an instruction decoded at an address lies in an executable section; its bytes, at most
  fifteen and at least one, are those at the address, and its successor follows them, also where
  bytes are rewritten before decoding or the extent is corrected after it. Native decoding is
  the library's: every instruction the library accepts is returned as it is.
\<close>

theorem decoding_extent:
  assumes "iced_ok lb"
  shows "(decode_with_policy lb img address c = Inr insn \<longrightarrow>
      (\<exists>s bytes. section_containing img address = Some s \<and> perm_execute (sec_permissions s)
        \<and> bytes_at img address MAX_INSN_LEN = Some bytes \<and> insn_address insn = address
        \<and> 0 < length (insn_bytes insn) \<and> length (insn_bytes insn) \<le> 15
        \<and> insn_bytes insn = take (length (insn_bytes insn)) bytes
        \<and> next_address insn = address + of_nat (length (insn_bytes insn))))
    \<and> (section_containing img address = Some s \<and> perm_execute (sec_permissions s)
        \<and> bytes_at img address MAX_INSN_LEN = Some bytes
        \<and> d = iced_decode lb (arch_bitness (arch img)) bytes address \<lparr>no_pause = False, no_invalid_check = False\<rparr>
        \<and> \<not> iced_invalid d
      \<longrightarrow> decode_at lb img address = Inr (from_x86 address (take (iced_len d) bytes) (iced_insn d) None))"
proof (intro conjI impI)
  assume "decode_with_policy lb img address c = Inr insn"
  then obtain s bytes d where R: "section_containing img address = Some s" "perm_execute (sec_permissions s)"
    "bytes_at img address MAX_INSN_LEN = Some bytes" and
    W: "widen_branch (arch img) c address bytes (correct_extent (arch img) address bytes (opcode_offset (arch img) c bytes)
      (iced_decode lb (arch_bitness (arch img)) (decoder_input (arch img) bytes (opcode_offset (arch img) c bytes)) address
        (decoder_options (arch img) c bytes (opcode_offset (arch img) c bytes)))) = Inr d" and
    F: "finish_decoding lb (arch img) c address bytes (opcode_offset (arch img) c bytes)
      (rename_code lb (arch img) bytes (opcode_offset (arch img) c bytes) d) = Inr insn"
    by (cases "section_containing img address"; cases "bytes_at img address MAX_INSN_LEN")
      (auto simp: decode_with_policy_def Let_def rbind_Inr_iff split: if_splits option.splits)
  have "extent_ok address bytes d" using extent_widened [OF W extent_decoded [OF assms]] .
  from finish_extent(1) [OF extent_renamed [OF assms this] F] bytes_at_length [OF R(3)] R
  show "\<exists>s bytes. section_containing img address = Some s \<and> perm_execute (sec_permissions s)
      \<and> bytes_at img address MAX_INSN_LEN = Some bytes \<and> insn_address insn = address
      \<and> 0 < length (insn_bytes insn) \<and> length (insn_bytes insn) \<le> 15
      \<and> insn_bytes insn = take (length (insn_bytes insn)) bytes
      \<and> next_address insn = address + of_nat (length (insn_bytes insn))"
    by (auto simp: MAX_INSN_LEN_def)
next
  assume "section_containing img address = Some s \<and> perm_execute (sec_permissions s)
        \<and> bytes_at img address MAX_INSN_LEN = Some bytes
        \<and> d = iced_decode lb (arch_bitness (arch img)) bytes address \<lparr>no_pause = False, no_invalid_check = False\<rparr>
        \<and> \<not> iced_invalid d"
  then show "decode_at lb img address = Inr (from_x86 address (take (iced_len d) bytes) (iced_insn d) None)"
    using assms by (auto simp: decode_at_def decode_with_policy_def opcode_offset_def decoder_options_def some_and_def
        decoder_input_def correct_extent_def widen_branch_def rename_code_def finish_decoding_def get_range_def iced_ok_def Let_def)
qed

definition example_iced :: iced_lib where
  "example_iced =
     (let insn = \<lparr>x86_mnemonic = ''Nop'', formatted_mnemonic = ''nop'', op_count = 0, op_kind_of = (\<lambda>_. Register_Op),
            op_register = (\<lambda>_. No_Register), op_immediate = (\<lambda>_. 0), near_branch_target = 0, is_ip_rel_memory_operand = False,
            ip_rel_memory_address = 0, memory_base = No_Register, memory_index = No_Register, memory_index_scale = 1,
            memory_displacement64 = 0, memory_displ_size = 0, memory_size_bytes = 0, segment_prefix = No_Register,
            is_code64 = False, flow_control_of = FC_Next, next_ip = 0\<rparr>
      in \<lparr>iced_decode = (\<lambda>_ bytes address _. \<lparr>iced_insn = insn\<lparr>next_ip := address + of_nat (length bytes)\<rparr>,
            iced_len = length bytes, iced_invalid = (bytes = []), iced_error = ''NoMoreBytes'', immediate_offset = 0, immediate_size = 0\<rparr>),
          iced_default = insn, set_code = (\<lambda>_ i. i), register_size = (\<lambda>_. 4), full_register = (\<lambda>r. r),
          memory_segment = (\<lambda>_. No_Register), used_registers = (\<lambda>_. [])\<rparr>)"

text \<open>The prefixed move is two bytes past its prefix long, whatever the library reads.\<close>

definition movdq2q_image :: loaded_image where
  "movdq2q_image = from_shellcode [0xf2, 0x0f, 0xd6, 0xc1, 0x90] X86"

lemma movdq2q_bytes:
  "bytes_at movdq2q_image 0x690000 MAX_INSN_LEN = Some [0xf2, 0x0f, 0xd6, 0xc1, 0x90]"
  "\<exists>s. section_containing movdq2q_image 0x690000 = Some s \<and> perm_execute (sec_permissions s)"
  "arch movdq2q_image = X86" "format movdq2q_image = Sc"
  by (simp_all add: movdq2q_image_def bytes_at_def section_containing_def from_shellcode_def contains_va_def SHELLCODE_BASE_def
      MAX_INSN_LEN_def checked_add_u64_def checked_sub_u64_def checked_add_def USIZE_def get_range_def Let_def)

lemma movdq2q_quirks:
  "opcode_offset X86 True [0xf2, 0x0f, 0xd6, 0xc1, 0x90] = Some (Suc 0)"
  "is_movdq2q X86 [0xf2, 0x0f, 0xd6, 0xc1, 0x90] (Suc 0)"
  "reference_rejects movdq2q_image [0xf2, 0x0f, 0xd6, 0xc1, 0x90] (Suc 0) = None"
  "is_vex_mmx X86 bytes o' = False" "\<not> is_bound [0xf2, 0x0f, 0xd6, 0xc1, 0x90] (Suc 0)" "\<not> is_far_load X86 [0xf2, 0x0f, 0xd6, 0xc1, 0x90] (Suc 0)"
  by (simp_all add: opcode_offset_def is_opcode_prefix_def is_movdq2q_def get_range_def reference_rejects_def get_byte_def some_and_def
      vex_opcode_def is_vex_mmx_def is_bound_def is_far_load_def movdq2q_bytes Let_def)

theorem decoding_extent_witness:
  "iced_ok example_iced \<and> (\<exists>insn. decode_at_compat example_iced movdq2q_image 0x690000 = Inr insn
     \<and> insn_bytes insn = [0xf2, 0x0f, 0xd6] \<and> next_address insn = 0x690003)"
proof -
  have ok: "iced_ok example_iced" by (simp add: iced_ok_def example_iced_def Let_def)
  have "length (legacy_bytes X86 [0xf2, 0x0f, 0xd6, 0xc1, 0x90] (Suc 0)) = 5" by (simp add: length_legacy_bytes movdq2q_quirks)
  then have "\<exists>insn. decode_at_compat example_iced movdq2q_image 0x690000 = Inr insn \<and> length (insn_bytes insn) = 3"
    using movdq2q_bytes by (auto simp: decode_at_compat_def decode_with_policy_def movdq2q_quirks decoder_input_def example_iced_def
        correct_extent_def widen_branch_def rename_code_def some_and_def finish_decoding_def from_x86_def get_range_def Let_def)
  then obtain insn where D: "decode_at_compat example_iced movdq2q_image 0x690000 = Inr insn" "length (insn_bytes insn) = 3" by blast
  with decoding_extent [OF ok, where img = movdq2q_image and address = "0x690000" and c = True and insn = insn] movdq2q_bytes(1) ok
  show ?thesis by (auto simp: decode_at_compat_def)
qed

end
