(* ===== verification/Starts.thy ===== *)
theory Starts
  imports Decode Recovered
begin

text \<open>
  Function starts that no direct call names, below \<^verbatim>\<open>capa-x/src/extract/recovery\<close>: the \<^verbatim>\<open>main\<close> of a program
  linked with glibc (\<^verbatim>\<open>libc_start_main.rs\<close>), the \<^verbatim>\<open>runtime_main\<close> of a Go program (\<^verbatim>\<open>golang.rs\<close>) and the tails
  of functions that check a stack cookie (\<^verbatim>\<open>msvcfunc.rs\<close>).
\<close>

unbundle bit_operations_syntax

type_synonym x86_function = "x86_instruction recovered_function"

section \<open>The entry stub of glibc\<close>

definition MAX_STUB_INSNS :: nat where
  "MAX_STUB_INSNS = 64"

definition LIBC_START_MAIN :: string where
  "LIBC_START_MAIN = ''__libc_start_main''"

definition is_libc_start_main_slot :: "loaded_image \<Rightarrow> u64 \<Rightarrow> bool" where
  "is_libc_start_main_slot img slot =
     some_and (import_locations img slot) (\<lambda>name. rev (takeWhile (\<lambda>c. c \<noteq> CHR ''.'') (rev name)) = LIBC_START_MAIN)"

definition calls_libc_start_main :: "iced_lib \<Rightarrow> loaded_image \<Rightarrow> u64 \<Rightarrow> bool" where
  "calls_libc_start_main lb img target \<longleftrightarrow>
     is_libc_start_main_slot img target
     \<or> (case decode_at lb img target of
          Inl _ \<Rightarrow> False
        | Inr stub \<Rightarrow> flow_control_of (arch_detail stub) = FC_IndirectBranch
            \<and> some_and (memory_target stub) (is_libc_start_main_slot img))"

definition stub_immediate :: "x86_instruction \<Rightarrow> u64 option" where
  "stub_immediate i =
     first_some (\<lambda>k. if op_kind_of i k \<in> {Immediate32to64, Immediate64, Immediate32} then Some (op_immediate i k) else None)
       [0..<op_count i]"

definition writes_register :: "iced_lib \<Rightarrow> x86_instruction \<Rightarrow> x86_register \<Rightarrow> bool" where
  "writes_register lb i r =
     list_ex (\<lambda>k. op_kind_of i k = Register_Op \<and> full_register lb (op_register i k) = full_register lb r) [0..<op_count i]"

text \<open>What is known of the first argument after an instruction.\<close>

definition next_candidate :: "iced_lib \<Rightarrow> architecture \<Rightarrow> x86_insn \<Rightarrow> u64 option \<Rightarrow> u64 option" where
  "next_candidate lb architecture insn candidate =
     (let i = arch_detail insn
      in if architecture = X64 then
           if x86_mnemonic i = ''Mov'' \<and> op_register i 0 \<in> {RDI, EDI} then stub_immediate i
           else if x86_mnemonic i = ''Lea'' \<and> op_register i 0 = RDI then memory_target insn
           else if writes_register lb i RDI then None
           else candidate
         else if x86_mnemonic i = ''Push'' then stub_immediate i
         else candidate)"

fun main_loop :: "iced_lib \<Rightarrow> loaded_image \<Rightarrow> nat \<Rightarrow> u64 \<Rightarrow> u64 option \<Rightarrow> u64 option" where
  "main_loop lb img 0 address candidate = None"
| "main_loop lb img (Suc n) address candidate =
     (case decode_at lb img address of
        Inl _ \<Rightarrow> None
      | Inr insn \<Rightarrow>
          (case flow_control_of (arch_detail insn) of
             FC_Call \<Rightarrow>
               Option.bind (direct_target insn) (\<lambda>target.
                 if calls_libc_start_main lb img target then candidate else None)
           | FC_Next \<Rightarrow>
               main_loop lb img n (next_ip (arch_detail insn)) (next_candidate lb (arch img) insn candidate)
           | _ \<Rightarrow> None))"

definition main_address :: "iced_lib \<Rightarrow> loaded_image \<Rightarrow> u64 option" where
  "main_address lb img =
     (if format img \<noteq> Elf \<or> arch img \<notin> {X86, X64} then None
      else Option.bind (entry_point img) (\<lambda>entry. main_loop lb img MAX_STUB_INSNS entry None))"

section \<open>The entry of a Go program\<close>

definition GO_I386_SEQUENCE :: "string list" where
  "GO_I386_SEQUENCE = [''Cld'', ''Call'', ''Mov'', ''Mov'', ''Mov'', ''Mov'', ''Call'', ''Call'', ''Call'', ''Push'', ''Push'',
     ''Call'', ''Pop'', ''Pop'']"

definition GO_AMD64_SEQUENCE :: "string list" where
  "GO_AMD64_SEQUENCE = [''Cld'', ''Call'', ''Mov'', ''Mov'', ''Mov'', ''Mov'', ''Call'', ''Call'', ''Call'', ''Lea'', ''Push'',
     ''Push'', ''Call'', ''Pop'', ''Pop'']"

definition PUSH_INDEX :: nat where
  "PUSH_INDEX = length GO_I386_SEQUENCE - 5"

definition BUILD_ID_SCAN_BYTES :: nat where
  "BUILD_ID_SCAN_BYTES = 10000"

definition BUILD_ID_MARKER :: "u8 list" where
  "BUILD_ID_MARKER = str_bytes ''Go build ID: ''"

definition is_go_image :: "loaded_image \<Rightarrow> bool" where
  "is_go_image img \<longleftrightarrow>
     format img = Pe \<and> arch img \<in> {X86, X64}
     \<and> list_ex (\<lambda>s. some_and (bytes_at img (sec_address s) BUILD_ID_SCAN_BYTES)
                       (\<lambda>bytes. find_subslice bytes BUILD_ID_MARKER \<noteq> None))
         (filter (\<lambda>s. sec_name s = ''.text'') (sections img))"

definition insn_mnemonic :: "x86_insn \<Rightarrow> string" where
  "insn_mnemonic insn = x86_mnemonic (arch_detail insn)"

definition find_sequence :: "x86_instruction basic_block list \<Rightarrow> string list \<Rightarrow> nat \<Rightarrow> x86_instruction option" where
  "find_sequence bs seq selected =
     Option.bind (first_some (\<lambda>b.
         let rest = dropWhile (\<lambda>insn. Some (insn_mnemonic insn) \<noteq> (case seq of [] \<Rightarrow> None | m # _ \<Rightarrow> Some m)) (insns b)
         in if rest \<noteq> [] \<and> length seq \<le> length rest then Some rest else None) bs) (\<lambda>recorded.
       if list_all (\<lambda>(insn, mnemonic). insn_mnemonic insn = mnemonic) (zip recorded seq)
       then (if selected < length recorded then Some (arch_detail (recorded ! selected)) else None)
       else None)"

definition find_sequence_block :: "x86_instruction basic_block list \<Rightarrow> x86_instruction option" where
  "find_sequence_block bs = find_sequence bs GO_I386_SEQUENCE PUSH_INDEX"

definition push_immediate :: "x86_instruction \<Rightarrow> u64 option" where
  "push_immediate i =
     (if op_count i \<noteq> 1 then None
      else if op_kind_of i 0 \<in> {Immediate8, Immediate8to32, Immediate32} then Some (op_immediate i 0)
      else None)"

definition go_read_u32 :: "loaded_image \<Rightarrow> u64 \<Rightarrow> u64 option" where
  "go_read_u32 img address =
     Option.bind (bytes_at img address 4) (\<lambda>raw'. map_option (\<lambda>b. of_nat (le_value b)) (get_range raw' 0 4))"

definition find_sequence_block_via_stack ::
  "loaded_image \<Rightarrow> x86_function \<Rightarrow> (u64 \<Rightarrow> x86_function option) \<Rightarrow> x86_instruction option" where
  "find_sequence_block_via_stack img entry blocks_at =
     (case blocks entry of
        [b] \<Rightarrow>
          (case rev (insns b) of
             ret # push # _ \<Rightarrow>
               if insn_mnemonic ret \<noteq> ''Ret'' \<or> insn_mnemonic push \<noteq> ''Push'' then None
               else
                 Option.bind (push_immediate (arch_detail push)) (\<lambda>nxt.
                 Option.bind (go_read_u32 img nxt) (\<lambda>_.
                 Option.bind (blocks_at nxt) (\<lambda>f. find_sequence_block (blocks f))))
           | _ \<Rightarrow> None)
      | _ \<Rightarrow> None)"

definition runtime_main :: "loaded_image \<Rightarrow> x86_function \<Rightarrow> (u64 \<Rightarrow> x86_function option) \<Rightarrow> u64 option" where
  "runtime_main img entry blocks_at =
     (if arch img = X64 then
        Option.bind (find_sequence (blocks entry) GO_AMD64_SEQUENCE (length GO_AMD64_SEQUENCE - 6)) (\<lambda>lea.
          if op_count lea \<noteq> 2 \<or> \<not> is_ip_rel_memory_operand lea then None
          else
            Option.bind (read_pointer img (ip_rel_memory_address lea)) (\<lambda>target.
            Option.bind (bytes_at img target 8) (\<lambda>bytes.
            Option.bind (get_range bytes 0 8) (\<lambda>_. Some target))))
      else
        Option.bind (case find_sequence_block (blocks entry) of
                       None \<Rightarrow> find_sequence_block_via_stack img entry blocks_at
                     | Some push \<Rightarrow> Some push) (\<lambda>push.
        Option.bind (push_immediate push) (\<lambda>pointer.
        Option.bind (go_read_u32 img pointer) (\<lambda>target.
        Option.bind (go_read_u32 img target) (\<lambda>_. Some target)))))"

section \<open>Stack cookies\<close>

definition SECURITY_CHECK_COOKIE_SIGNATURES :: "(u8 list \<times> u8 list) list" where
  "SECURITY_CHECK_COOKIE_SIGNATURES =
     [([0x3b, 0x0d, 0, 0, 0, 0, 0x75, 0x02, 0xf3, 0xc3, 0xe9],
       [0xff, 0xff, 0, 0, 0, 0, 0xff, 0xff, 0xff, 0xff, 0xff]),
      ([0x3b, 0x0d, 0, 0, 0, 0, 0xf2, 0x75, 0x02, 0xf2, 0xc3, 0xf2, 0xe9],
       [0xff, 0xff, 0, 0, 0, 0, 0xff, 0xff, 0xff, 0xff, 0xff, 0xff, 0xff]),
      ([0x48, 0x3b, 0x0d, 0, 0, 0, 0, 0x75, 0x11, 0x48, 0xc1, 0xc1, 0x10, 0x66, 0xf7, 0xc1,
        0xff, 0xff, 0x75, 0x02, 0xf3, 0xc3, 0x48, 0xc1, 0xc9, 0x10, 0xe9],
       [0xff, 0xff, 0xff, 0, 0, 0, 0, 0xff, 0xff, 0xff, 0xff, 0xff, 0xff, 0xff, 0xff, 0xff,
        0xff, 0xff, 0xff, 0xff, 0xff, 0xff, 0xff, 0xff, 0xff, 0xff, 0xff]),
      ([0x48, 0x3b, 0x0d, 0, 0, 0, 0, 0xf2, 0x75, 0x11, 0x48, 0xc1, 0xc1, 0x10, 0x66, 0xf7,
        0xc1, 0xff, 0xff, 0xf2, 0x75, 0x02, 0xf2, 0xc3, 0x48, 0xc1, 0xc9, 0x10, 0xe9],
       [0xff, 0xff, 0xff, 0, 0, 0, 0, 0xff, 0xff, 0xff, 0xff, 0xff, 0xff, 0xff, 0xff, 0xff,
        0xff, 0xff, 0xff, 0xff, 0xff, 0xff, 0xff, 0xff, 0xff, 0xff, 0xff, 0xff, 0xff]),
      ([0x48, 0x3b, 0x0d, 0, 0, 0, 0, 0xf2, 0x75, 0x12, 0x48, 0xc1, 0xc1, 0x10, 0x66, 0xf7,
        0xc1, 0xff, 0xff, 0xf2, 0x75, 0x02, 0xf2, 0xc3, 0x48, 0xc1, 0xc9, 0x10, 0xe9],
       [0xff, 0xff, 0xff, 0, 0, 0, 0, 0xff, 0xff, 0xff, 0xff, 0xff, 0xff, 0xff, 0xff, 0xff,
        0xff, 0xff, 0xff, 0xff, 0xff, 0xff, 0xff, 0xff, 0xff, 0xff, 0xff, 0xff, 0xff])]"

definition LONGEST_SIGNATURE :: nat where
  "LONGEST_SIGNATURE = 29"

definition is_seh3_prolog :: "loaded_image \<Rightarrow> u64 \<Rightarrow> bool" where
  "is_seh3_prolog img address =
     some_and (bytes_at img address 12) (\<lambda>bytes.
       get_byte bytes 0 = Some 0x68 \<and> get_range bytes 5 12 = Some [0x64, 0xa1, 0, 0, 0, 0, 0x50])"

definition is_security_check_cookie :: "loaded_image \<Rightarrow> u64 \<Rightarrow> bool" where
  "is_security_check_cookie img address =
     some_and (bytes_at img address LONGEST_SIGNATURE) (\<lambda>candidate.
       list_ex (\<lambda>(signature, sig_mask). length signature \<le> length candidate
          \<and> list_all (\<lambda>((actual, expected), m). actual AND m = expected) (zip (zip candidate signature) sig_mask))
         SECURITY_CHECK_COOKIE_SIGNATURES)"

definition references_cookie :: "string \<Rightarrow> bool" where
  "references_cookie mnemonic \<longleftrightarrow> mnemonic = ''Mov''"

definition new_function_starts ::
  "u64 list \<Rightarrow> (u64 \<Rightarrow> u64 list) \<Rightarrow> (u64 \<Rightarrow> string option) \<Rightarrow> (u64 \<Rightarrow> u64 option) \<Rightarrow> u64 set" where
  "new_function_starts cookies sources mnemonic_at block_start =
     fold (\<lambda>cookie. fold (\<lambda>src out.
         case mnemonic_at src of
           None \<Rightarrow> out
         | Some mnemonic \<Rightarrow>
             if \<not> references_cookie mnemonic then out
             else (case block_start src of None \<Rightarrow> out | Some start \<Rightarrow> insert start out))
       (sources cookie)) cookies {}"

section \<open>The argument of the entry stub\<close>

text \<open>
  The stub as straight-line code up to its first call, the instructions that determine the
  first argument (those that push, or that have the argument register among their register
  operands) and the constant they give it.
\<close>

fun stub_at :: "iced_lib \<Rightarrow> loaded_image \<Rightarrow> u64 \<Rightarrow> x86_insn list \<Rightarrow> x86_insn \<Rightarrow> bool" where
  "stub_at lb img address [] call \<longleftrightarrow> decode_at lb img address = Inr call \<and> flow_control_of (arch_detail call) = FC_Call"
| "stub_at lb img address (i # rest) call \<longleftrightarrow>
     decode_at lb img address = Inr i \<and> flow_control_of (arch_detail i) = FC_Next
     \<and> stub_at lb img (next_ip (arch_detail i)) rest call"

definition sets_argument :: "iced_lib \<Rightarrow> architecture \<Rightarrow> x86_insn \<Rightarrow> bool" where
  "sets_argument lb architecture insn \<longleftrightarrow>
     (let i = arch_detail insn
      in if architecture = X64
         then x86_mnemonic i = ''Mov'' \<and> op_register i 0 \<in> {RDI, EDI} \<or> x86_mnemonic i = ''Lea'' \<and> op_register i 0 = RDI
           \<or> writes_register lb i RDI
         else x86_mnemonic i = ''Push'')"

definition argument_constant :: "architecture \<Rightarrow> x86_insn \<Rightarrow> u64 option" where
  "argument_constant architecture insn =
     (let i = arch_detail insn
      in if architecture = X86 \<or> x86_mnemonic i = ''Mov'' \<and> op_register i 0 \<in> {RDI, EDI} then stub_immediate i
         else if x86_mnemonic i = ''Lea'' \<and> op_register i 0 = RDI then memory_target insn
         else None)"

lemma next_candidate_alt:
  "a \<in> {X86, X64} \<Longrightarrow> next_candidate lb a insn c = (if sets_argument lb a insn then argument_constant a insn else c)"
  by (auto simp: next_candidate_def sets_argument_def argument_constant_def Let_def)

lemma last_such_snoc:
  "(\<exists>before x after. xs @ [y] = before @ x # after \<and> P x \<and> R x \<and> list_all Q after) \<longleftrightarrow>
     P y \<and> R y \<or> Q y \<and> (\<exists>before x after. xs = before @ x # after \<and> P x \<and> R x \<and> list_all Q after)" (is "?L \<longleftrightarrow> ?R")
proof
  assume ?L
  then obtain before x after where S: "xs @ [y] = before @ x # after" "P x" "R x" "list_all Q after" by blast
  then show ?R by (cases after rule: rev_cases) auto
next
  assume ?R
  then show ?L
  proof
    assume "P y \<and> R y"
    then show ?L by (intro exI [of _ xs] exI [of _ y] exI [of _ "[]"]) simp
  next
    assume "Q y \<and> (\<exists>before x after. xs = before @ x # after \<and> P x \<and> R x \<and> list_all Q after)"
    then obtain before x after where "xs = before @ x # after" "P x" "R x" "list_all Q after" "Q y" by blast
    then show ?L by (intro exI [of _ before] exI [of _ x] exI [of _ "after @ [y]"]) simp
  qed
qed

lemma fold_candidates:
  assumes "a \<in> {X86, X64}"
  shows "fold (next_candidate lb a) stub None = Some v \<longleftrightarrow>
    (\<exists>before setter after. stub = before @ setter # after \<and> sets_argument lb a setter \<and> argument_constant a setter = Some v
       \<and> list_all (\<lambda>i. \<not> sets_argument lb a i) after)"
  by (induction stub rule: rev_induct)
    (simp_all add: last_such_snoc next_candidate_alt [OF assms])

lemma main_loop_iff:
  "main_loop lb img n address c = Some v \<longleftrightarrow>
     (\<exists>stub call target. stub_at lb img address stub call \<and> length stub < n \<and> direct_target call = Some target
        \<and> calls_libc_start_main lb img target \<and> fold (next_candidate lb (arch img)) stub c = Some v)"
proof (induction n arbitrary: address c)
  case (Suc n)
  have split: "(\<exists>stub. P stub) \<longleftrightarrow> P [] \<or> (\<exists>i rest. P (i # rest))" for P :: "x86_insn list \<Rightarrow> bool"
    by (metis neq_Nil_conv)
  show ?case
    by (subst split) (auto simp: Suc.IH bind_eq_Some_conv split: sum.splits flow_control.splits)
qed simp

text \<open>
  C26: the address of \<^verbatim>\<open>main\<close> is read exactly off the entry stub of an x86 ELF program: fewer than 64
  instructions run straight from the entry point to a call of the import \<^verbatim>\<open>__libc_start_main\<close>, directly
  or through its linkage stub, and the last of them that determines the first argument gives
  it as a constant.
\<close>

theorem main_address_exact:
  "main_address lb img = Some v \<longleftrightarrow>
     format img = Elf \<and> arch img \<in> {X86, X64}
     \<and> (\<exists>entry before setter after call target. entry_point img = Some entry
          \<and> stub_at lb img entry (before @ setter # after) call \<and> length (before @ setter # after) < 64
          \<and> direct_target call = Some target \<and> calls_libc_start_main lb img target
          \<and> sets_argument lb (arch img) setter \<and> argument_constant (arch img) setter = Some v
          \<and> list_all (\<lambda>i. \<not> sets_argument lb (arch img) i) after)"
proof (cases "format img = Elf \<and> arch img \<in> {X86, X64}")
  case True
  then show ?thesis
    by (simp add: main_address_def bind_eq_Some_conv main_loop_iff fold_candidates MAX_STUB_INSNS_def del: length_append) blast
qed (auto simp: main_address_def)

end
