(* ===== verification/Switch.thy ===== *)
theory Switch
  imports Decode Recovered
begin

text \<open>
  \<^verbatim>\<open>capa-x/src/extract/recovery/switch.rs\<close>: the arms of a jump through a table, from the guarded
  instructions before it. Tables of addresses and of offsets are recognised in x86 code, the
  sequence \<^verbatim>\<open>ADRP/ADD/LDRSW/ADD/BR\<close> in 64-bit ARM code. The policy is the verdict of the code
  emulator on a candidate when the reference analysis is followed, and absent natively.
\<close>

unbundle bit_operations_syntax

datatype verdict = Code | NotCode | Inconclusive u64 string

type_synonym policy = "(u64 \<Rightarrow> verdict) option"
type_synonym x86_analysis = "x86_instruction analysis"
type_synonym a64_analysis = "a64_opcode option analysis"
type_synonym table_location = "u64 \<times> nat"

definition MAX_CASES :: u64 where
  "MAX_CASES = 256"

definition MAX_DISPATCH_INSNS :: nat where
  "MAX_DISPATCH_INSNS = 10"

definition checked_add_signed :: "u64 \<Rightarrow> int \<Rightarrow> u64 option" where
  "checked_add_signed a d = (let v = uint a + d in if 0 \<le> v \<and> v < 2 ^ 64 then Some (word_of_int v) else None)"

definition checked_mul_u64 :: "u64 \<Rightarrow> u64 \<Rightarrow> u64 option" where
  "checked_mul_u64 a b = (if unat a * unat b < 2 ^ 64 then Some (a * b) else None)"

section \<open>The instructions before a jump\<close>

definition previous :: "'d analysis \<Rightarrow> u64 \<Rightarrow> 'd decoded_instruction option" where
  "previous an address =
     (case filter (\<lambda>(start, _). start < address) (an_instructions an) of
        [] \<Rightarrow> None
      | es \<Rightarrow> let insn = snd (last es) in if next_address insn = address then Some insn else None)"

definition has_entry :: "'d analysis \<Rightarrow> u64 \<Rightarrow> bool" where
  "has_entry an address \<longleftrightarrow> bt_contains (code_xrefs an) address \<or> bt_contains (seeds an) address"

text \<open>The last argument is the sequence found so far, from \<open>current\<close> to the jump.\<close>

fun guarded_loop ::
  "nat \<Rightarrow> 'd analysis \<Rightarrow> 'd decoded_instruction \<Rightarrow> 'd decoded_instruction \<Rightarrow> 'd decoded_instruction list
     \<Rightarrow> 'd decoded_instruction list option" where
  "guarded_loop 0 an branch current acc = None"
| "guarded_loop (Suc n) an branch current acc =
     (if has_entry an (insn_address current) then None
      else
        Option.bind (previous an (insn_address current)) (\<lambda>prior.
          if insn_flow prior = ConditionalBranch then
            (if has_entry an (insn_address prior) then None
             else
               Option.bind (direct_target prior) (\<lambda>default.
                 if next_address prior \<le> default \<and> default \<le> insn_address branch then None
                 else
                   Option.bind (previous an (insn_address prior)) (\<lambda>compare.
                     if insn_flow compare \<noteq> Next then None else Some (compare # prior # acc))))
          else if insn_flow prior \<noteq> Next then None
          else guarded_loop n an branch prior (prior # acc)))"

definition guarded_sequence :: "'d analysis \<Rightarrow> 'd decoded_instruction \<Rightarrow> 'd decoded_instruction list option" where
  "guarded_sequence an branch = guarded_loop MAX_DISPATCH_INSNS an branch branch [branch]"

section \<open>Reading operands and tables\<close>

definition switch_read_u32 :: "loaded_image \<Rightarrow> u64 \<Rightarrow> u32 option" where
  "switch_read_u32 img address =
     Option.bind (bytes_at img address 4) (\<lambda>raw'. if length raw' = 4 then Some (of_nat (le_value raw')) else None)"

definition case_count :: "u64 \<Rightarrow> bool \<Rightarrow> u64 option" where
  "case_count limit inclusive =
     Option.bind (checked_add_u64 limit (if inclusive then 1 else 0)) (\<lambda>count.
       if 0 < count \<and> count \<le> MAX_CASES then Some count else None)"

definition reg_operand :: "x86_instruction \<Rightarrow> nat \<Rightarrow> x86_register option" where
  "reg_operand i k = (if op_kind_of i k = Register_Op then Some (op_register i k) else None)"

text \<open>The library widens an immediate as its kind says, so a negative one has its sign bit set.\<close>

definition compare_immediate :: "x86_instruction \<Rightarrow> u64 option" where
  "compare_immediate i =
     (let v = op_immediate i 1
      in case op_kind_of i 1 of
           Immediate8 \<Rightarrow> Some v
         | Immediate32 \<Rightarrow> Some v
         | Immediate8to32 \<Rightarrow> if sint v < 0 then None else Some v
         | Immediate8to64 \<Rightarrow> if sint v < 0 then None else Some v
         | Immediate32to64 \<Rightarrow> if sint v < 0 then None else Some v
         | _ \<Rightarrow> None)"

definition guard_inclusive :: "x86_instruction \<Rightarrow> bool option" where
  "guard_inclusive i = (if x86_mnemonic i = ''Ja'' then Some True else if x86_mnemonic i = ''Jae'' then Some False else None)"

definition indexed_load :: "x86_instruction \<Rightarrow> x86_register \<Rightarrow> x86_register \<Rightarrow> nat \<Rightarrow> nat \<Rightarrow> bool" where
  "indexed_load i base index scale bytes \<longleftrightarrow>
     op_kind_of i 1 = Memory_Op \<and> memory_base i = base \<and> memory_index i = index \<and> memory_index_scale i = scale
     \<and> memory_size_bytes i = bytes \<and> segment_prefix i = No_Register"

definition referenced_slot :: "'d analysis \<Rightarrow> u64 \<Rightarrow> bool" where
  "referenced_slot an slot \<longleftrightarrow> bt_contains (code_xrefs an) slot \<or> bt_contains (data_xrefs an) slot"

definition inconclusive_arm :: "u64 \<Rightarrow> u64 \<Rightarrow> u64 \<Rightarrow> string \<Rightarrow> recovery_diagnostic" where
  "inconclusive_arm branch target address reason =
     \<lparr>diag_address = address,
      diag_message = ''switch 0x'' @ show_hex (unat branch) @ '' arm 0x'' @ show_hex (unat target)
        @ '' candidate evaluation inconclusive: '' @ reason\<rparr>"

section \<open>The constant in a register\<close>

definition switch_predecessors :: "x86_analysis \<Rightarrow> u64 \<Rightarrow> x86_insn list" where
  "switch_predecessors an address =
     (case previous an address of
        None \<Rightarrow> []
      | Some prior \<Rightarrow>
          if insn_flow prior \<in> {Next, Call, IndirectCall, ConditionalBranch} \<and> insn_address prior \<notin> noreturn_calls an
          then [prior] else [])
     @ List.map_filter (\<lambda>src.
         Option.bind (bt_get (an_instructions an) src) (\<lambda>prior.
           if insn_flow prior \<notin> {Call, IndirectCall} then Some prior else None))
       (case bt_get (code_xrefs an) address of None \<Rightarrow> [] | Some sources \<Rightarrow> sources)"

definition is_volatile :: "x86_register \<Rightarrow> bool" where
  "is_volatile r \<longleftrightarrow> r \<in> {RAX, RCX, RDX, R8, R9, R10, R11}"

definition insn_writes :: "iced_lib \<Rightarrow> x86_instruction \<Rightarrow> x86_register \<Rightarrow> bool" where
  "insn_writes lb i r =
     list_ex (\<lambda>(used, access). full_register lb used = r
        \<and> access \<in> {Access_Write, Access_CondWrite, Access_ReadWrite, Access_ReadCondWrite}) (used_registers lb i)"

definition lea_constant :: "x86_instruction \<Rightarrow> x86_register \<Rightarrow> u64 option" where
  "lea_constant i r =
     (if x86_mnemonic i = ''Lea'' \<and> reg_operand i 0 = Some r \<and> is_ip_rel_memory_operand i
      then Some (ip_rel_memory_address i) else None)"

text \<open>One round over the predecessors: \<open>None\<close> when the proof stops.\<close>

fun examine_predecessors ::
  "iced_lib \<Rightarrow> x86_register \<Rightarrow> x86_insn list \<Rightarrow> u64 list \<Rightarrow> u64 option \<Rightarrow> (u64 list \<times> u64 option) option" where
  "examine_predecessors lb r [] pending v = Some (pending, v)"
| "examine_predecessors lb r (prior # priors) pending v =
     (let op = arch_detail prior
      in if insn_flow prior \<in> {Call, IndirectCall} \<and> is_volatile r then None
         else if insn_writes lb op r then
           Option.bind (lea_constant op r) (\<lambda>found.
             if v \<noteq> None \<and> v \<noteq> Some found then None
             else examine_predecessors lb r priors pending (Some found))
         else examine_predecessors lb r priors (insn_address prior # pending) v)"

definition MAX_VISITED :: nat where
  "MAX_VISITED = 8192"

function constant_loop ::
  "iced_lib \<Rightarrow> x86_analysis \<Rightarrow> x86_register \<Rightarrow> u64 list \<Rightarrow> u64 list \<Rightarrow> u64 option \<Rightarrow> u64 option" where
  "constant_loop lb an r [] visited v = v"
| "constant_loop lb an r (address # pending) visited v =
     (if address \<in> set visited then constant_loop lb an r pending visited v
      else if MAX_VISITED < length visited + 1 then None
      else
        (case switch_predecessors an address of
           [] \<Rightarrow> None
         | priors \<Rightarrow>
             (case examine_predecessors lb r priors pending v of
                None \<Rightarrow> None
              | Some (pending', v') \<Rightarrow> constant_loop lb an r pending' (address # visited) v')))"
  by pat_completeness auto
termination
  by (relation "(\<lambda>(lb, an, r, pending, visited, v). MAX_VISITED - length visited)
      <*mlex*> measure (\<lambda>(lb, an, r, pending, visited, v). length pending)")
    (auto simp: mlex_prod_def intro: wf_mlex)

definition constant_before :: "iced_lib \<Rightarrow> x86_analysis \<Rightarrow> u64 \<Rightarrow> x86_register \<Rightarrow> u64 option" where
  "constant_before lb an address r = constant_loop lb an r [address] [] None"

section \<open>Tables of addresses\<close>

text \<open>
  The results of the next functions carry the diagnostics, which stay when the recognition
  fails later. The loop over the slots stops at a referenced slot and at an arm that is not code.
\<close>

fun absolute_entries ::
  "x86_analysis \<Rightarrow> policy \<Rightarrow> u64 \<Rightarrow> u64 \<Rightarrow> u64 \<Rightarrow> nat list \<Rightarrow> u64 list \<Rightarrow> recovery_diagnostic list
     \<Rightarrow> u64 list option \<times> recovery_diagnostic list" where
  "absolute_entries an pol branch base width [] targets diags = (Some targets, diags)"
| "absolute_entries an pol branch base width (index # rest) targets diags =
     (case checked_add_u64 base (of_nat index * width) of
        None \<Rightarrow> (None, diags)
      | Some slot \<Rightarrow>
          (case pol of
             None \<Rightarrow>
               (case read_pointer (an_image an) slot of
                  None \<Rightarrow> (None, diags)
                | Some target \<Rightarrow> absolute_entries an pol branch base width rest (targets @ [target]) diags)
           | Some evaluate \<Rightarrow>
               if index \<noteq> 0 \<and> referenced_slot an slot then (Some targets, diags)
               else
                 (case read_pointer (an_image an) slot of
                    None \<Rightarrow> (None, diags)
                  | Some target \<Rightarrow>
                      if some_and (bt_get (seeds an) target) (\<lambda>kinds. FunctionSignature \<in> kinds)
                      then absolute_entries an pol branch base width rest (targets @ [target]) diags
                      else
                        (case evaluate target of
                           NotCode \<Rightarrow> (Some targets, diags)
                         | Inconclusive address reason \<Rightarrow>
                             (Some targets, diags @ [inconclusive_arm branch target address reason])
                         | Code \<Rightarrow> absolute_entries an pol branch base width rest (targets @ [target]) diags))))"

text \<open>Whether the selector was zero-extended, if the instructions before the jump are recognised.\<close>

definition absolute_setup :: "iced_lib \<Rightarrow> x86_register \<Rightarrow> x86_insn list \<Rightarrow> bool option" where
  "absolute_setup lb index setup =
     (case setup of
        [] \<Rightarrow> Some False
      | [mov] \<Rightarrow>
          if x86_mnemonic (arch_detail mov) = ''Mov'' \<and> reg_operand (arch_detail mov) 0 = Some index
             \<and> reg_operand (arch_detail mov) 1 = Some index
          then Some (register_size lb index = 4) else None
      | _ \<Rightarrow> None)"

definition absolute_targets ::
  "iced_lib \<Rightarrow> x86_analysis \<Rightarrow> x86_insn \<Rightarrow> x86_insn \<Rightarrow> x86_insn list \<Rightarrow> policy \<Rightarrow> recovery_diagnostic list
     \<Rightarrow> u64 list option \<times> recovery_diagnostic list" where
  "absolute_targets lb an compare guard body pol diags =
     (if body = [] then (None, diags)
      else
        let branch = last body;
            op = arch_detail branch;
            cmp = arch_detail compare;
            width = pointer_width (arch (an_image an))
        in case
             Option.bind (reg_operand cmp 0) (\<lambda>index.
               if x86_mnemonic cmp \<noteq> ''Cmp'' \<or> x86_mnemonic op \<noteq> ''Jmp'' \<or> op_kind_of op 0 \<noteq> Memory_Op
                  \<or> memory_base op \<noteq> No_Register \<or> memory_size_bytes op \<noteq> width \<or> memory_segment lb op \<in> {FS, GS}
                  \<or> full_register lb (memory_index op) \<noteq> full_register lb index \<or> memory_index_scale op \<noteq> width
                  \<or> register_size lb index \<notin> {4, 8}
               then None
               else
                 Option.bind (compare_immediate cmp) (\<lambda>limit.
                 Option.bind (guard_inclusive (arch_detail guard)) (\<lambda>inclusive.
                 Option.bind (case_count limit inclusive) (\<lambda>count.
                 Option.bind (absolute_setup lb index (butlast body)) (\<lambda>zero_extended.
                   if register_size lb (memory_index op) = 8 \<and> register_size lb index = 4 \<and> \<not> zero_extended then None
                   else map_option (\<lambda>base. (base, count)) (memory_target branch))))))
           of
             None \<Rightarrow> (None, diags)
           | Some (base, count) \<Rightarrow>
               absolute_entries an pol (insn_address branch) base (of_nat width) [0..<unat count] [] diags)"

section \<open>Tables of offsets\<close>

text \<open>The register with the base of the table, its value and the instructions after its definition.\<close>

definition x64_base ::
  "iced_lib \<Rightarrow> x86_analysis \<Rightarrow> x86_insn \<Rightarrow> x86_insn list \<Rightarrow> (x86_register \<times> u64 \<times> x86_insn list) option" where
  "x64_base lb an compare body =
     (case body of
        [] \<Rightarrow> None
      | first # remaining \<Rightarrow>
          let lea = arch_detail first
          in if x86_mnemonic lea = ''Lea'' then
               (if \<not> is_ip_rel_memory_operand lea then None
                else map_option (\<lambda>r. (r, ip_rel_memory_address lea, remaining)) (reg_operand lea 0))
             else
               Option.bind (List.find (\<lambda>op. x86_mnemonic op \<in> {''Mov'', ''Movzx'', ''Movsxd''} \<and> op_kind_of op 1 = Memory_Op)
                              (map arch_detail body)) (\<lambda>load.
               map_option (\<lambda>base. (memory_base load, base, body))
                 (constant_before lb an (insn_address compare) (memory_base load))))"

text \<open>The index register and the rest of the instructions after an extension of the selector, if there is one.\<close>

definition x64_extend ::
  "iced_lib \<Rightarrow> x86_register \<Rightarrow> x86_register \<Rightarrow> x86_insn list \<Rightarrow> bool \<times> x86_register \<times> x86_insn list" where
  "x64_extend lb selector base_reg rest =
     (let index = full_register lb selector
      in case rest of
           [] \<Rightarrow> (False, index, rest)
         | insn # rest' \<Rightarrow>
             let op = arch_detail insn
             in if x86_mnemonic op = ''Cdqe'' \<and> index = RAX then (True, index, rest')
                else if x86_mnemonic op = ''Movsxd'' \<and> reg_operand op 1 = Some selector
                  \<and> some_and (reg_operand op 0) (\<lambda>dest. register_size lb dest = 8 \<and> dest \<noteq> base_reg)
                then (True, op_register op 0, rest')
                else (False, index, rest))"

text \<open>Whether the instruction before the comparison sets all bits of the index.\<close>

definition x64_established :: "iced_lib \<Rightarrow> x86_analysis \<Rightarrow> x86_insn \<Rightarrow> x86_register \<Rightarrow> bool" where
  "x64_established lb an compare selector \<longleftrightarrow>
     \<not> has_entry an (insn_address compare)
     \<and> some_and (previous an (insn_address compare)) (\<lambda>insn.
         let prior = arch_detail insn
         in x86_mnemonic prior \<in> {''Lea'', ''Mov'', ''Movzx'', ''Sub'', ''Add''} \<and> reg_operand prior 0 = Some selector
            \<or> x86_mnemonic prior = ''Movsxd'' \<and> reg_operand prior 0 = Some (full_register lb selector)
              \<and> (some_and (reg_operand prior 1) (\<lambda>source. register_size lb source = 4)
                 \<or> op_kind_of prior 1 = Memory_Op \<and> memory_size_bytes prior = 4))"

text \<open>The indexes after an optional table of bytes that maps the selector, the index register and the rest.\<close>

definition x64_remap ::
  "iced_lib \<Rightarrow> loaded_image \<Rightarrow> x86_register \<Rightarrow> u64 \<Rightarrow> x86_register \<Rightarrow> u64 list \<Rightarrow> x86_insn list
     \<Rightarrow> (u64 list \<times> x86_register \<times> x86_insn list) option" where
  "x64_remap lb img base_reg base index indexes rest =
     (case rest of
        [] \<Rightarrow> Some (indexes, index, rest)
      | insn # rest' \<Rightarrow>
          let remap = arch_detail insn
          in if x86_mnemonic remap = ''Movzx'' then
               Option.bind (reg_operand remap 0) (\<lambda>dest.
                 if register_size lb dest \<notin> {4, 8} \<or> full_register lb dest = base_reg \<or> \<not> indexed_load remap base_reg index 1 1
                 then None
                 else
                   Option.bind (checked_add_signed base (sint (memory_displacement64 remap))) (\<lambda>table.
                   map_option (\<lambda>mapped. (mapped, full_register lb dest, rest'))
                     (those (map (\<lambda>i.
                        Option.bind (checked_add_u64 table i) (\<lambda>slot.
                        Option.bind (bytes_at img slot 1) (\<lambda>bytes. map_option ucast (get_byte bytes 0)))) indexes))))
             else Some (indexes, index, rest))"

text \<open>Loading an entry and adding the base; the result says whether entries are signed, and the table.\<close>

definition x64_dispatch ::
  "iced_lib \<Rightarrow> loaded_image \<Rightarrow> policy \<Rightarrow> x86_register \<Rightarrow> u64 \<Rightarrow> x86_register \<Rightarrow> x86_insn list \<Rightarrow> (bool \<times> u64 \<times> u64) option" where
  "x64_dispatch lb img pol base_reg base index rest =
     (case rest of
        [i_load, i_add, branch] \<Rightarrow>
          let load = arch_detail i_load; add = arch_detail i_add; jump = arch_detail branch
          in Option.bind (reg_operand load 0) (\<lambda>loaded.
               let is_signed = (x86_mnemonic load = ''Movsxd'' \<and> register_size lb loaded = 8)
               in if pol \<noteq> None \<and> (is_signed \<or> base \<noteq> image_base img) then None
                  else if \<not> (is_signed \<or> x86_mnemonic load = ''Mov'' \<and> register_size lb loaded = 4)
                    \<or> full_register lb loaded = base_reg \<or> \<not> indexed_load load base_reg index 4 4 \<or> x86_mnemonic add \<noteq> ''Add''
                    \<or> reg_operand add 0 \<noteq> Some (full_register lb loaded) \<or> reg_operand add 1 \<noteq> Some base_reg
                    \<or> x86_mnemonic jump \<noteq> ''Jmp'' \<or> reg_operand jump 0 \<noteq> Some (full_register lb loaded)
                  then None
                  else map_option (\<lambda>table. (is_signed, table, insn_address branch))
                    (checked_add_signed base (sint (memory_displacement64 load))))
      | _ \<Rightarrow> None)"

text \<open>The reference analysis accepts consecutive entries up to the first that is not code.\<close>

fun accepted_indexes ::
  "loaded_image \<Rightarrow> (u64 \<Rightarrow> verdict) \<Rightarrow> u64 \<Rightarrow> u64 \<Rightarrow> u64 \<Rightarrow> nat list \<Rightarrow> u64 list \<Rightarrow> recovery_diagnostic list
     \<Rightarrow> u64 list option \<times> recovery_diagnostic list" where
  "accepted_indexes img evaluate branch base table [] indexes diags = (Some indexes, diags)"
| "accepted_indexes img evaluate branch base table (index # rest) indexes diags =
     (case Option.bind (checked_mul_u64 (of_nat index) 4) (\<lambda>o'. Option.bind (checked_add_u64 table o') (\<lambda>slot.
             Option.bind (switch_read_u32 img slot) (\<lambda>raw'. checked_add_u64 base (ucast raw')))) of
        None \<Rightarrow> (None, diags)
      | Some target \<Rightarrow>
          (case evaluate target of
             NotCode \<Rightarrow> (Some (filter (\<lambda>v. v < of_nat index) indexes), diags)
           | Inconclusive address reason \<Rightarrow>
               (Some (filter (\<lambda>v. v < of_nat index) indexes), diags @ [inconclusive_arm branch target address reason])
           | Code \<Rightarrow> accepted_indexes img evaluate branch base table rest indexes diags))"

definition offset_target :: "loaded_image \<Rightarrow> bool \<Rightarrow> u64 \<Rightarrow> u64 \<Rightarrow> u64 \<Rightarrow> u64 option" where
  "offset_target img is_signed base table index =
     Option.bind (checked_mul_u64 index 4) (\<lambda>o'. Option.bind (checked_add_u64 table o') (\<lambda>slot.
     Option.bind (switch_read_u32 img slot) (\<lambda>raw'.
       if is_signed then checked_add_signed base (sint raw') else checked_add_u64 base (ucast raw'))))"

text \<open>The shape of the dispatch up to the jump: signedness, table, jump, base and indexes.\<close>

definition x64_shape ::
  "iced_lib \<Rightarrow> x86_analysis \<Rightarrow> x86_insn \<Rightarrow> x86_insn \<Rightarrow> x86_insn list \<Rightarrow> policy
     \<Rightarrow> (bool \<times> u64 \<times> u64 \<times> u64 \<times> u64 list) option" where
  "x64_shape lb an compare guard body pol =
     (let cmp = arch_detail compare
      in if x86_mnemonic cmp \<noteq> ''Cmp'' then None
         else
           Option.bind (reg_operand cmp 0) (\<lambda>selector.
             if register_size lb selector \<notin> {4, 8} then None
             else
               Option.bind (guard_inclusive (arch_detail guard)) (\<lambda>inclusive.
               Option.bind (compare_immediate cmp) (\<lambda>limit.
               Option.bind (case_count limit inclusive) (\<lambda>count.
               Option.bind (x64_base lb an compare body) (\<lambda>(base_reg, base, rest).
                 if register_size lb base_reg \<noteq> 8 \<or> base_reg = full_register lb selector then None
                 else
                   let (sign_extended, index, rest) = x64_extend lb selector base_reg rest
                   in if pol = None \<and> register_size lb selector = 4 \<and> \<not> sign_extended \<and> \<not> x64_established lb an compare selector
                      then None
                      else
                        Option.bind (x64_remap lb (an_image an) base_reg base index (map of_nat [0..<unat count]) rest)
                          (\<lambda>(indexes, index, rest).
                        map_option (\<lambda>(is_signed, table, branch). (is_signed, table, branch, base, indexes))
                          (x64_dispatch lb (an_image an) pol base_reg base index rest))))))))"

definition x64_targets ::
  "iced_lib \<Rightarrow> x86_analysis \<Rightarrow> x86_insn \<Rightarrow> x86_insn \<Rightarrow> x86_insn list \<Rightarrow> policy \<Rightarrow> recovery_diagnostic list \<Rightarrow> table_location list
     \<Rightarrow> u64 list option \<times> recovery_diagnostic list \<times> table_location list" where
  "x64_targets lb an compare guard body pol diags locs =
     (case x64_shape lb an compare guard body pol of
        None \<Rightarrow> (None, diags, locs)
      | Some (is_signed, table, branch, base, indexes) \<Rightarrow>
          let img = an_image an;
              follows = (base = image_base img \<and> \<not> is_signed);
              (kept, diags) =
                (case pol of
                   None \<Rightarrow> (Some indexes, diags)
                 | Some evaluate \<Rightarrow>
                     if \<not> follows then (Some indexes, diags)
                     else
                       (case Option.bind (if indexes = [] then None else Some (Max (set indexes))) (\<lambda>m. checked_add_u64 m 1) of
                          None \<Rightarrow> (None, diags)
                        | Some limit \<Rightarrow> accepted_indexes img evaluate branch base table [0..<unat limit] indexes diags))
          in case kept of
               None \<Rightarrow> (None, diags, locs)
             | Some indexes \<Rightarrow>
                 (those (map (offset_target img is_signed base table) indexes), diags,
                  if pol \<noteq> None \<and> follows then locs @ [(table, pointer_width (arch img))] else locs))"

section \<open>Tables without a guard\<close>

text \<open>The load of the entry before the addition, past instructions that do not define its register.\<close>

fun find_load :: "nat \<Rightarrow> iced_lib \<Rightarrow> x86_analysis \<Rightarrow> x86_register \<Rightarrow> x86_insn \<Rightarrow> x86_insn option" where
  "find_load n lb an r load =
     (if some_and (reg_operand (arch_detail load) 0) (\<lambda>dest. full_register lb dest = r) then Some load
      else if insn_flow load \<noteq> Next \<or> has_entry an (insn_address load) then None
      else
        (case n of
           0 \<Rightarrow> None
         | Suc m \<Rightarrow> Option.bind (previous an (insn_address load)) (find_load m lb an r)))"

declare find_load.simps [simp del]

definition rva_shape :: "iced_lib \<Rightarrow> x86_analysis \<Rightarrow> x86_insn \<Rightarrow> u64 option" where
  "rva_shape lb an branch =
     (if arch (an_image an) \<noteq> X64 then None
      else
        Option.bind (reg_operand (arch_detail branch) 0) (\<lambda>r.
        Option.bind (previous an (insn_address branch)) (\<lambda>add.
        Option.bind (previous an (insn_address add)) (\<lambda>start.
        Option.bind (find_load MAX_DISPATCH_INSNS lb an r start) (\<lambda>load.
          let addw = arch_detail add; mov = arch_detail load; base = image_base (an_image an)
          in Option.bind (reg_operand addw 1) (\<lambda>base_register.
               if x86_mnemonic (arch_detail branch) \<noteq> ''Jmp'' \<or> x86_mnemonic addw \<noteq> ''Add'' \<or> base_register = r
                  \<or> reg_operand addw 0 \<noteq> Some r \<or> x86_mnemonic mov \<noteq> ''Mov''
                  \<or> \<not> some_and (reg_operand mov 0) (\<lambda>dest. register_size lb dest = 4 \<and> full_register lb dest = r)
                  \<or> \<not> indexed_load mov (memory_base mov) (memory_index mov) 4 4 \<or> memory_index mov = No_Register
                  \<or> constant_before lb an (insn_address add) base_register \<noteq> Some base
                  \<or> constant_before lb an (insn_address load) (memory_base mov) \<noteq> Some base
               then None
               else checked_add_signed base (sint (memory_displacement64 mov))))))))"

fun rva_entries ::
  "x86_analysis \<Rightarrow> (u64 \<Rightarrow> verdict) \<Rightarrow> u64 \<Rightarrow> u64 \<Rightarrow> nat list \<Rightarrow> u64 list \<Rightarrow> recovery_diagnostic list
     \<Rightarrow> u64 list option \<times> recovery_diagnostic list" where
  "rva_entries an evaluate branch table [] targets diags = (Some targets, diags)"
| "rva_entries an evaluate branch table (index # rest) targets diags =
     (let base = image_base (an_image an)
      in case Option.bind (checked_mul_u64 (of_nat index) 4) (checked_add_u64 table) of
           None \<Rightarrow> (None, diags)
         | Some slot \<Rightarrow>
             if index \<noteq> 0 \<and> referenced_slot an slot then (Some targets, diags)
             else
               (case switch_read_u32 (an_image an) slot of
                  None \<Rightarrow> (Some targets, diags)
                | Some word \<Rightarrow>
                    let raw' = ucast word :: u64
                    in case (if raw' < base then checked_add_u64 base raw' else Some raw') of
                         None \<Rightarrow> (None, diags)
                       | Some target \<Rightarrow>
                           if \<not> is_executable_address (an_image an) target then (Some targets, diags)
                           else if of_nat index = MAX_CASES then
                             (None, diags @ [\<lparr>diag_address = branch,
                                diag_message = ''RVA switch exceeds '' @ show_nat (unat MAX_CASES) @ '' entries''\<rparr>])
                           else
                             (case evaluate target of
                                NotCode \<Rightarrow> (Some targets, diags)
                              | Inconclusive address reason \<Rightarrow>
                                  (Some targets, diags @ [inconclusive_arm branch target address reason])
                              | Code \<Rightarrow>
                                  rva_entries an evaluate branch table rest
                                    (if target \<in> set targets then targets else targets @ [target]) diags)))"

definition compatibility_rva_targets ::
  "iced_lib \<Rightarrow> x86_analysis \<Rightarrow> x86_insn \<Rightarrow> (u64 \<Rightarrow> verdict) \<Rightarrow> recovery_diagnostic list \<Rightarrow> table_location list
     \<Rightarrow> u64 list option \<times> recovery_diagnostic list \<times> table_location list" where
  "compatibility_rva_targets lb an branch evaluate diags locs =
     (case rva_shape lb an branch of
        None \<Rightarrow> (None, diags, locs)
      | Some table \<Rightarrow>
          let (targets, diags) = rva_entries an evaluate (insn_address branch) table [0..<unat MAX_CASES + 1] [] diags
          in (targets, diags,
              if targets = None then locs else locs @ [(table, pointer_width (arch (an_image an)))]))"

section \<open>64-bit ARM\<close>

definition arm_word :: "a64_insn \<Rightarrow> u32 option" where
  "arm_word insn =
     Option.bind (arch_detail insn) (\<lambda>_. if length (insn_bytes insn) = 4 then Some (of_nat (le_value (insn_bytes insn))) else None)"

text \<open>The operands the five words encode, if they are the instructions of the dispatch.\<close>

definition arm_shape :: "u32 \<Rightarrow> u32 \<Rightarrow> u32 \<Rightarrow> u32 \<Rightarrow> u32 \<Rightarrow> bool" where
  "arm_shape adrp add ldr addw br \<longleftrightarrow>
     adrp AND 0x9f000000 = 0x90000000 \<and> add AND 0xff800000 = 0x91000000 \<and> ldr AND 0xffe01c00 = 0xb8a01800
     \<and> addw AND 0xffe0fc00 = 0x8b000000 \<and> br AND 0xfffffc1f = 0xd61f0000"

definition arm_registers :: "u32 \<Rightarrow> u32 \<Rightarrow> u32 \<Rightarrow> u32 \<Rightarrow> u32 \<Rightarrow> u32 \<Rightarrow> bool" where
  "arm_registers index adrp add ldr addw br \<longleftrightarrow>
     (let base = adrp AND 31; loaded = ldr AND 31; result = addw AND 31
      in base \<noteq> 31 \<and> index \<noteq> 31 \<and> loaded \<noteq> 31 \<and> result \<noteq> 31 \<and> base \<noteq> index \<and> loaded \<noteq> base
         \<and> add AND 31 = base \<and> drop_bit 5 add AND 31 = base \<and> drop_bit 5 ldr AND 31 = base
         \<and> drop_bit 16 ldr AND 31 = index \<and> drop_bit 5 br AND 31 = result
         \<and> (drop_bit 5 addw AND 31 = loaded \<and> drop_bit 16 addw AND 31 = base
            \<or> drop_bit 5 addw AND 31 = base \<and> drop_bit 16 addw AND 31 = loaded))"

text \<open>Whether the compared bits of the index are those the load uses.\<close>

definition arm_extension_ok :: "a64_analysis \<Rightarrow> a64_insn \<Rightarrow> u32 \<Rightarrow> u32 \<Rightarrow> bool" where
  "arm_extension_ok an compare cmp ldr \<longleftrightarrow>
     (let extension = drop_bit 13 ldr AND 7; index = drop_bit 5 cmp AND 31; wide = (drop_bit 31 cmp \<noteq> 0)
      in extension \<in> {2, 6} \<and> \<not> wide
         \<or> extension = 3 \<and> wide
         \<or> extension = 3 \<and> \<not> has_entry an (insn_address compare)
           \<and> some_and (Option.bind (previous an (insn_address compare)) arm_word)
               (\<lambda>word. word AND 0x9f800000 = 0x11000000 \<and> word AND 31 = index))"

definition arm_immediate12 :: "u32 \<Rightarrow> u64" where
  "arm_immediate12 word = push_bit (if word AND 0x400000 \<noteq> 0 then 12 else 0) (ucast (drop_bit 10 word AND 0xfff))"

definition arm_table :: "u64 \<Rightarrow> u32 \<Rightarrow> u32 \<Rightarrow> u64 option" where
  "arm_table page adrp add =
     (let immediate = push_bit 2 (drop_bit 5 adrp AND 0x7ffff) OR (drop_bit 29 adrp AND 3);
          offset = sign_extend immediate 21 * 4096
      in Option.bind (checked_add_signed (page AND NOT 0xfff) offset) (\<lambda>page_address.
           checked_add_u64 page_address (arm_immediate12 add)))"

definition arm_targets :: "a64_analysis \<Rightarrow> a64_insn \<Rightarrow> a64_insn \<Rightarrow> a64_insn list \<Rightarrow> u64 list option" where
  "arm_targets an compare guard body =
     (case body of
        [page, base_add, load, target_add, branch] \<Rightarrow>
          Option.bind (arm_word compare) (\<lambda>cmp.
          Option.bind (arm_word guard) (\<lambda>cond.
            if cmp AND 0x7f80001f \<noteq> 0x7100001f \<or> cond AND 0xff000010 \<noteq> 0x54000000 then None
            else
              Option.bind (if cond AND 0xf = 8 then Some True else if cond AND 0xf = 2 then Some False else None) (\<lambda>inclusive.
              Option.bind (case_count (arm_immediate12 cmp) inclusive) (\<lambda>count.
              Option.bind (arm_word page) (\<lambda>adrp.
              Option.bind (arm_word base_add) (\<lambda>add.
              Option.bind (arm_word load) (\<lambda>ldr.
              Option.bind (arm_word target_add) (\<lambda>addw.
              Option.bind (arm_word branch) (\<lambda>br.
                if \<not> arm_shape adrp add ldr addw br \<or> \<not> arm_registers (drop_bit 5 cmp AND 31) adrp add ldr addw br
                   \<or> \<not> arm_extension_ok an compare cmp ldr
                then None
                else
                  Option.bind (arm_table (insn_address page) adrp add) (\<lambda>table.
                    those (map (\<lambda>index.
                        Option.bind (checked_mul_u64 (of_nat index) 4) (\<lambda>o'.
                        Option.bind (checked_add_u64 table o') (\<lambda>slot.
                        Option.bind (switch_read_u32 (an_image an) slot) (\<lambda>raw'. checked_add_signed table (sint raw')))))
                      [0..<unat count])))))))))))
      | _ \<Rightarrow> None)"

section \<open>The arms of a jump\<close>

definition bad_arm :: "'d analysis \<Rightarrow> (u64 \<Rightarrow> bool) \<Rightarrow> 'd decoded_instruction \<Rightarrow> 'd decoded_instruction \<Rightarrow> u64 \<Rightarrow> bool" where
  "bad_arm an decodes compare branch target \<longleftrightarrow>
     next_address compare \<le> target \<and> target \<le> insn_address branch
     \<or> \<not> is_executable_address (an_image an) target
     \<or> arch (an_image an) = AArch64 \<and> target mod 4 \<noteq> 0
     \<or> \<not> decodes target"

text \<open>\<^verbatim>\<open>targets.retain(|target| seen.insert(*target))\<close>.\<close>

fun retain_first :: "u64 set \<Rightarrow> u64 list \<Rightarrow> u64 list" where
  "retain_first seen [] = []"
| "retain_first seen (t # ts) = (if t \<in> seen then retain_first seen ts else t # retain_first (insert t seen) ts)"

definition arrange_arms :: "policy \<Rightarrow> u64 list \<Rightarrow> u64 list" where
  "arrange_arms pol targets = (if pol \<noteq> None then retain_first {} targets else remdups_adj (sort targets))"

definition checked_arms ::
  "'d analysis \<Rightarrow> (u64 \<Rightarrow> bool) \<Rightarrow> policy \<Rightarrow> 'd decoded_instruction \<Rightarrow> 'd decoded_instruction \<Rightarrow> u64 list \<Rightarrow> u64 list option" where
  "checked_arms an decodes pol compare branch targets =
     (if list_ex (bad_arm an decodes compare branch) targets then None else Some (arrange_arms pol targets))"

definition targets_with_policy_a64 ::
  "(u32 \<Rightarrow> a64_opcode option) \<Rightarrow> a64_analysis \<Rightarrow> a64_insn \<Rightarrow> policy \<Rightarrow> u64 list option" where
  "targets_with_policy_a64 a64_decode an branch pol =
     (case guarded_sequence an branch of
        Some (compare # guard # body) \<Rightarrow>
          Option.bind (arm_targets an compare guard body)
            (checked_arms an (\<lambda>t. case decode_at_aarch64_checked a64_decode (an_image an) t of
                                     Inl _ \<Rightarrow> False | Inr insn \<Rightarrow> arch_detail insn \<noteq> None) pol compare branch)
      | _ \<Rightarrow> None)"

definition targets_with_policy_x86 ::
  "iced_lib \<Rightarrow> x86_analysis \<Rightarrow> x86_insn \<Rightarrow> policy \<Rightarrow> recovery_diagnostic list \<Rightarrow> table_location list
     \<Rightarrow> u64 list option \<times> recovery_diagnostic list \<times> table_location list" where
  "targets_with_policy_x86 lb an branch pol diags locs =
     (case guarded_sequence an branch of
        Some (compare # guard # body) \<Rightarrow>
          let (found, diags) = absolute_targets lb an compare guard body pol diags;
              (found, diags, locs) =
                (if found = None \<and> arch (an_image an) = X64 then x64_targets lb an compare guard body pol diags locs
                 else (found, diags, locs))
          in (Option.bind found (checked_arms an (\<lambda>t. \<not> isl (decode_at lb (an_image an) t)) pol compare branch), diags, locs)
      | _ \<Rightarrow> (None, diags, locs))"

definition switch_targets_x86 :: "iced_lib \<Rightarrow> x86_analysis \<Rightarrow> x86_insn \<Rightarrow> u64 list option" where
  "switch_targets_x86 lb an branch = fst (targets_with_policy_x86 lb an branch None [] [])"

definition targets_compat ::
  "iced_lib \<Rightarrow> x86_analysis \<Rightarrow> x86_insn \<Rightarrow> (u64 \<Rightarrow> verdict) \<Rightarrow> table_location list
     \<Rightarrow> u64 list option \<times> x86_analysis \<times> table_location list" where
  "targets_compat lb an branch evaluate table_locations =
     (let (found, diags, locs) = targets_with_policy_x86 lb an branch (Some evaluate) [] [];
          (found, diags, locs) =
            (if found = None then compatibility_rva_targets lb an branch evaluate diags locs else (found, diags, locs))
      in (found, an\<lparr>an_diagnostics := an_diagnostics an @ diags\<rparr>,
          if found = None then table_locations else table_locations @ locs))"

end
