(* ===== verification/Switch_Props.thy ===== *)
theory Switch_Props
  imports Switch
begin

text \<open>
  Properties of the recognition of jump tables: the constant found in a register is the one every
  path defines, the arms are usable code, and the arms of a 64-bit ARM dispatch are all
  addresses the processor can jump to.
\<close>

unbundle bit_operations_syntax

section \<open>The constant in a register\<close>

definition call_clobbers :: "x86_register \<Rightarrow> x86_insn \<Rightarrow> bool" where
  "call_clobbers r p \<longleftrightarrow> insn_flow p \<in> {Call, IndirectCall} \<and> is_volatile r"

text \<open>A path to an address, the last instruction first.\<close>

fun path_to :: "x86_analysis \<Rightarrow> x86_insn list \<Rightarrow> u64 \<Rightarrow> bool" where
  "path_to an [] a \<longleftrightarrow> True"
| "path_to an (p # ps) a \<longleftrightarrow> p \<in> set (switch_predecessors an a) \<and> path_to an ps (insn_address p)"

definition defines_only :: "iced_lib \<Rightarrow> x86_register \<Rightarrow> u64 \<Rightarrow> u64 set \<Rightarrow> x86_insn list \<Rightarrow> bool" where
  "defines_only lb r v V priors \<longleftrightarrow>
     (\<forall>p \<in> set priors. \<not> call_clobbers r p
        \<and> (if insn_writes lb (arch_detail p) r then lea_constant (arch_detail p) r = Some v else insn_address p \<in> V))"

lemma examined:
  assumes "examine_predecessors lb r priors pending v = Some (pending', v')"
  shows "set pending \<subseteq> set pending' \<and> (v \<noteq> None \<longrightarrow> v' = v)
    \<and> (\<forall>p \<in> set priors. \<not> call_clobbers r p
        \<and> (if insn_writes lb (arch_detail p) r then v' \<noteq> None \<and> lea_constant (arch_detail p) r = v'
            else insn_address p \<in> set pending'))"
  using assms
proof (induction priors arbitrary: pending v)
  case (Cons prior priors)
  have quiet: "\<not> call_clobbers r prior" using Cons.prems by (simp add: call_clobbers_def Let_def split: if_splits)
  show ?case
  proof (cases "insn_writes lb (arch_detail prior) r")
    case True
    then obtain found where found: "lea_constant (arch_detail prior) r = Some found" "v = None \<or> v = Some found"
      "examine_predecessors lb r priors pending (Some found) = Some (pending', v')"
      using Cons.prems quiet by (auto simp: call_clobbers_def Let_def bind_eq_Some_conv split: if_splits)
    from Cons.IH [OF found(3)] found(1,2) True quiet show ?thesis by auto
  next
    case False
    then have "examine_predecessors lb r priors (insn_address prior # pending) v = Some (pending', v')"
      using Cons.prems quiet by (simp add: call_clobbers_def Let_def split: if_splits)
    from Cons.IH [OF this] False quiet show ?thesis by simp
  qed
qed simp

lemma constant_step:
  assumes "constant_loop lb an r (address # pending) visited v = Some c" "address \<notin> set visited"
  obtains pending' v' where "\<not> MAX_VISITED < length visited + 1"
    "examine_predecessors lb r (switch_predecessors an address) pending v = Some (pending', v')"
    "constant_loop lb an r pending' (address # visited) v' = Some c"
  using assms by (cases "switch_predecessors an address") (auto split: if_splits option.splits)

declare constant_loop.simps(2) [simp del]

lemma constant_closed:
  "constant_loop lb an r pending visited v = Some c \<Longrightarrow>
     \<exists>V. set visited \<union> set pending \<subseteq> V \<and> (v \<noteq> None \<longrightarrow> v = Some c)
       \<and> (\<forall>a \<in> V - set visited. defines_only lb r c V (switch_predecessors an a))"
proof (induction "MAX_VISITED - length visited" arbitrary: pending visited v rule: less_induct)
  case less
  then show ?case
  proof (induction pending)
    case Nil
    then show ?case by (intro exI [of _ "set visited"]) simp
  next
    case (Cons address pending)
    show ?case
    proof (cases "address \<in> set visited")
      case True
      then have "constant_loop lb an r pending visited v = Some c" using Cons.prems(2) by (simp add: constant_loop.simps(2))
      from Cons.IH [OF Cons.prems(1) this] True show ?thesis by (simp add: insert_absorb)
    next
      case False
      with Cons.prems(2) obtain pending' v' where step: "\<not> MAX_VISITED < length visited + 1"
        "examine_predecessors lb r (switch_predecessors an address) pending v = Some (pending', v')"
        "constant_loop lb an r pending' (address # visited) v' = Some c" by (rule constant_step)
      have "MAX_VISITED - length (address # visited) < MAX_VISITED - length visited" using step(1) by simp
      from Cons.prems(1) [OF this step(3)] obtain V where V: "set (address # visited) \<union> set pending' \<subseteq> V"
        "v' \<noteq> None \<longrightarrow> v' = Some c" "\<forall>a \<in> V - set (address # visited). defines_only lb r c V (switch_predecessors an a)" by blast
      from examined [OF step(2)] have sub: "set pending \<subseteq> set pending'" "v \<noteq> None \<longrightarrow> v' = v"
        and each: "p \<in> set (switch_predecessors an address) \<Longrightarrow> \<not> call_clobbers r p
          \<and> (if insn_writes lb (arch_detail p) r then v' \<noteq> None \<and> lea_constant (arch_detail p) r = v'
              else insn_address p \<in> set pending')" for p by blast+
      have "defines_only lb r c V (switch_predecessors an address)"
        unfolding defines_only_def
      proof
        fix p
        assume "p \<in> set (switch_predecessors an address)"
        from each [OF this] V(1,2) show "\<not> call_clobbers r p \<and> (if insn_writes lb (arch_detail p) r
            then lea_constant (arch_detail p) r = Some c else insn_address p \<in> V)" by (auto split: if_splits)
      qed
      moreover have "set visited \<union> set (address # pending) \<subseteq> V" "v \<noteq> None \<longrightarrow> v = Some c"
        using sub V(1,2) by auto
      ultimately show ?thesis using V(3) by (intro exI [of _ V]) auto
    qed
  qed
qed

lemma path_defines:
  assumes "\<forall>a \<in> V. defines_only lb r c V (switch_predecessors an a)"
  shows "a \<in> V \<Longrightarrow> path_to an ps a \<Longrightarrow>
    list_all (\<lambda>p. \<not> call_clobbers r p) (takeWhile (\<lambda>p. \<not> insn_writes lb (arch_detail p) r) ps)
    \<and> (\<forall>p rest. dropWhile (\<lambda>p. \<not> insn_writes lb (arch_detail p) r) ps = p # rest \<longrightarrow>
          \<not> call_clobbers r p \<and> lea_constant (arch_detail p) r = Some c)"
proof (induction ps arbitrary: a)
  case (Cons p ps)
  then have "\<not> call_clobbers r p \<and> (if insn_writes lb (arch_detail p) r then lea_constant (arch_detail p) r = Some c
      else insn_address p \<in> V)"
    using assms by (auto simp: defines_only_def)
  then show ?case using Cons by (auto split: if_splits)
qed simp


definition base_lib :: iced_lib where
  "base_lib = example_iced\<lparr>used_registers := (\<lambda>_. [(Other_Register 0, Access_Write)])\<rparr>"

definition base_lea :: x86_insn where
  "base_lea =
     \<lparr>insn_address = 0x1000, insn_bytes = [], next_address = 0x1007, insn_flow = Next, direct_target = None,
      memory_target = Some 0x400000, mnemonic_override = None,
      arch_detail = (iced_default example_iced)\<lparr>x86_mnemonic := ''Lea'', op_register := (\<lambda>_. Other_Register 0),
        is_ip_rel_memory_operand := True, ip_rel_memory_address := 0x400000\<rparr>\<rparr>"

definition base_code :: x86_analysis where
  "base_code =
     \<lparr>an_image = from_shellcode [] X64, seeds = [], an_functions = [], function_order = [],
      function_analysis_counts = [], function_flirt_counts = [], function_location_counts = [], instruction_order = [],
      an_instructions = [(0x1000, base_lea)], code_xrefs = [], data_xrefs = [], callers = [],
      callees = [], an_diagnostics = [], elf_function_symbols = [], noreturn = {}, noreturn_calls = {}\<rparr>"


section \<open>The arms\<close>

lemma set_retain_first: "set (retain_first seen ts) = set ts - seen"
  by (induction seen ts rule: retain_first.induct) auto

lemma distinct_retain_first: "distinct (retain_first seen ts)"
  by (induction seen ts rule: retain_first.induct) (auto simp: set_retain_first)

lemma remdups_adj_sorted: "sorted xs \<Longrightarrow> sorted (remdups_adj xs) \<and> distinct (remdups_adj xs)" for xs :: "u64 list"
  by (induction xs rule: remdups_adj.induct) auto

lemma arranged_arms:
  "set (arrange_arms pol ts) = set ts" "distinct (arrange_arms pol ts)" "pol = None \<Longrightarrow> sorted (arrange_arms pol ts)"
  by (simp_all add: arrange_arms_def set_retain_first distinct_retain_first remdups_adj_sorted)

lemma checked_arms_iff:
  "checked_arms an decodes pol compare branch ts = Some arms \<longleftrightarrow>
     arms = arrange_arms pol ts \<and> list_all (\<lambda>t. \<not> bad_arm an decodes compare branch t) ts"
  by (auto simp: checked_arms_def list_ex_iff list_all_iff)

lemma those_length: "those xs = Some ys \<Longrightarrow> length ys = length xs"
  by (induction xs arbitrary: ys) (auto split: option.splits)

lemma absolute_entries_length:
  "absolute_entries an pol branch base width idx targets diags = (Some ts, diags') \<Longrightarrow> length ts \<le> length targets + length idx"
  by (induction an pol branch base width idx targets diags rule: absolute_entries.induct)
    (fastforce split: option.splits if_splits verdict.splits)+

lemma case_count_bound: "case_count limit inclusive = Some n \<Longrightarrow> unat n \<le> 256"
  by (auto simp: case_count_def MAX_CASES_def word_le_nat_alt split: bind_splits if_splits)

lemma absolute_targets_length: "absolute_targets lb an compare guard body pol diags = (Some ts, diags') \<Longrightarrow> length ts \<le> 256"
  by (auto simp: absolute_targets_def Let_def split: if_splits option.splits bind_splits
      dest!: absolute_entries_length case_count_bound)

lemma x64_shape_length:
  "x64_shape lb an compare guard body pol = Some (sg, table, branch, base, indexes) \<Longrightarrow> length indexes \<le> 256"
  by (auto simp: x64_shape_def x64_remap_def Let_def split: if_splits option.splits bind_splits prod.splits list.splits
      dest!: those_length case_count_bound)

lemma accepted_indexes_length:
  "accepted_indexes img evaluate branch base table idx indexes diags = (Some ts, diags') \<Longrightarrow> length ts \<le> length indexes"
  by (induction img evaluate branch base table idx indexes diags rule: accepted_indexes.induct)
    (auto split: option.splits verdict.splits)

lemma x64_targets_length: "x64_targets lb an compare guard body pol diags locs = (Some ts, r) \<Longrightarrow> length ts \<le> 256"
  by (fastforce simp: x64_targets_def Let_def split: if_splits option.splits prod.splits
      dest!: those_length x64_shape_length accepted_indexes_length)

lemma switch_arms_usable:
  assumes "targets_with_policy_x86 lb an branch pol diags locs = (Some arms, r)"
  shows "\<exists>compare rest. guarded_sequence an branch = Some (compare # rest) \<and> distinct arms \<and> (pol = None \<longrightarrow> sorted arms)
    \<and> length arms \<le> 256 \<and> (\<forall>t \<in> set arms. \<not> bad_arm an (\<lambda>t. \<not> isl (decode_at lb (an_image an) t)) compare branch t)"
proof -
  obtain compare guard body ts where seq: "guarded_sequence an branch = Some (compare # guard # body)" and
    arms: "checked_arms an (\<lambda>t. \<not> isl (decode_at lb (an_image an) t)) pol compare branch ts = Some arms" and "length ts \<le> 256"
    using assms by (auto simp: targets_with_policy_x86_def Let_def bind_eq_Some_conv
        split: option.splits list.splits prod.splits if_splits dest: absolute_targets_length x64_targets_length)
  moreover have "length arms \<le> length ts"
    using arms arranged_arms(1,2) [of pol ts] by (metis checked_arms_iff card_length distinct_card)
  ultimately show ?thesis using arranged_arms [of pol ts] by (auto simp: checked_arms_iff list_all_iff)
qed

section \<open>The dispatch of a 64-bit ARM processor\<close>

text \<open>
  What the instructions of the dispatch do to the registers: the comparison of the index, in
  32 or in 64 bits, with the branch on unsigned higher or higher-or-same; the address of a
  page, the addition of an immediate, the load of a sign-extended word at a scaled and extended
  index, the addition of two registers and the jump.
\<close>

type_synonym arm_state = "u32 \<Rightarrow> u64"

definition arm_compared :: "u32 \<Rightarrow> arm_state \<Rightarrow> u64" where
  "arm_compared cmp s = (let x = s (drop_bit 5 cmp AND 31) in if drop_bit 31 cmp \<noteq> 0 then x else x AND 0xffffffff)"

definition arm_leaves :: "u32 \<Rightarrow> u32 \<Rightarrow> arm_state \<Rightarrow> bool" where
  "arm_leaves cmp cond s \<longleftrightarrow>
     (if cond AND 0xf = 8 then arm_immediate12 cmp < arm_compared cmp s else arm_immediate12 cmp \<le> arm_compared cmp s)"

definition arm_extended :: "u32 \<Rightarrow> u64 \<Rightarrow> u64" where
  "arm_extended ldr x =
     (let e = drop_bit 13 ldr AND 7
      in if e = 2 then x AND 0xffffffff else if e = 6 then scast (ucast x :: u32) else x)"

definition arm_page :: "u64 \<Rightarrow> u32 \<Rightarrow> u64" where
  "arm_page page adrp =
     (page AND NOT 0xfff) + of_int (sign_extend (push_bit 2 (drop_bit 5 adrp AND 0x7ffff) OR (drop_bit 29 adrp AND 3)) 21 * 4096)"

definition arm_jump :: "(u64 \<Rightarrow> u32) \<Rightarrow> u64 \<Rightarrow> u32 \<Rightarrow> u32 \<Rightarrow> u32 \<Rightarrow> u32 \<Rightarrow> u32 \<Rightarrow> arm_state \<Rightarrow> u64" where
  "arm_jump mem page adrp add ldr addw br s =
     (let s = s(adrp AND 31 := arm_page page adrp);
          s = s(add AND 31 := s (drop_bit 5 add AND 31) + arm_immediate12 add);
          s = s(ldr AND 31 := scast (mem (s (drop_bit 5 ldr AND 31)
                + push_bit 2 (arm_extended ldr (s (drop_bit 16 ldr AND 31))))));
          s = s(addw AND 31 := s (drop_bit 5 addw AND 31) + s (drop_bit 16 addw AND 31))
      in s (drop_bit 5 br AND 31))"

lemma checked_add_signed_Some: "checked_add_signed a d = Some v \<Longrightarrow> v = a + of_int d"
  by (auto simp: checked_add_signed_def Let_def split: if_splits)

lemma arm_table_value: "arm_table page adrp add = Some table \<Longrightarrow> table = arm_page page adrp + arm_immediate12 add"
  by (auto simp: arm_table_def arm_page_def Let_def bind_eq_Some_conv checked_add_u64_Some dest!: checked_add_signed_Some)

lemma stays_in_range:
  assumes "case_count (arm_immediate12 cmp) (cond AND 0xf = 8) = Some n" "\<not> arm_leaves cmp cond s"
  shows "arm_compared cmp s < n"
proof (cases "cond AND 0xf = 8")
  case True
  then have "n = arm_immediate12 cmp + 1" "unat (arm_immediate12 cmp) + 1 < 2 ^ 64"
    using assms(1) by (auto simp: case_count_def checked_add_u64_def bind_eq_Some_conv split: if_splits)
  moreover have "arm_compared cmp s \<le> arm_immediate12 cmp" using assms(2) True by (simp add: arm_leaves_def)
  ultimately show ?thesis by (simp add: word_less_nat_alt word_le_nat_alt unat_word_ariths)
next
  case False
  then show ?thesis
    using assms by (auto simp: arm_leaves_def case_count_def checked_add_u64_def bind_eq_Some_conv split: if_splits)
qed

lemma low_half_mask: "(0xffffffff :: u64) = mask 32"
  by (simp add: mask_eq_exp_minus_1)

lemma low_half: "x AND 0xffffffff = ucast (ucast x :: u32)" for x :: u64
  unfolding low_half_mask by (rule bit_word_eqI) (auto simp: bit_and_iff bit_mask_iff bit_ucast_iff)

lemma sign_extension_of_small:
  fixes y :: u32
  assumes "y < 0x80000000"
  shows "(scast y :: u64) = ucast y"
proof -
  have "uint y < 2 ^ 31" using assms by (simp add: word_less_def)
  moreover have "- (2 ^ 31) \<le> uint y" by (rule order_trans [of _ 0]) simp_all
  ultimately have "sint y = uint y" using signed_take_bit_int_eq_self [of 31 "uint y"] by (simp add: sint_uint)
  moreover have "(scast y :: u64) = of_int (sint y)" "(ucast y :: u64) = of_int (uint y)" by simp_all
  ultimately show ?thesis by metis
qed

lemma extended_is_compared:
  assumes "arm_compared cmp s < 0x101"
    and "drop_bit 13 ldr AND 7 \<in> {2, 6} \<and> drop_bit 31 cmp = 0 \<or> drop_bit 13 ldr AND 7 = 3 \<and> drop_bit 31 cmp \<noteq> 0
      \<or> drop_bit 13 ldr AND 7 = 3 \<and> s (drop_bit 5 cmp AND 31) < 0x100000000"
  shows "arm_extended ldr (s (drop_bit 5 cmp AND 31)) = arm_compared cmp s"
proof -
  let ?x = "s (drop_bit 5 cmp AND 31)"
  have small: "?x < 0x100000000 \<Longrightarrow> ?x AND 0xffffffff = ?x"
    unfolding low_half_mask by (rule less_mask_eq) simp
  have "y < 0x80000000" if "(ucast y :: u64) < 0x101" for y :: u32
  proof -
    have "unat (ucast y :: u64) = unat y" by transfer (simp add: take_bit_nat_eq_self_iff nat_take_bit_eq take_bit_take_bit)
    then show ?thesis using that by (simp add: word_less_nat_alt)
  qed
  from this [of "ucast ?x"] show ?thesis
    using assms small by (auto simp: arm_extended_def arm_compared_def Let_def low_half sign_extension_of_small split: if_splits)
qed

text \<open>
  The table a state is dispatched through, on the words of the seven instructions. The hypotheses
  are that memory holds the image, and that a 32-bit addition before the comparison clears the
  upper half of the register it writes.
\<close>

definition memory_agrees :: "loaded_image \<Rightarrow> (u64 \<Rightarrow> u32) \<Rightarrow> bool" where
  "memory_agrees img mem \<longleftrightarrow> (\<forall>a w. switch_read_u32 img a = Some w \<longrightarrow> mem a = w)"

definition upper_half_cleared :: "a64_analysis \<Rightarrow> a64_insn \<Rightarrow> arm_state \<Rightarrow> bool" where
  "upper_half_cleared an compare s \<longleftrightarrow>
     (\<forall>w. Option.bind (previous an (insn_address compare)) arm_word = Some w \<longrightarrow> w AND 0x9f800000 = 0x11000000
        \<longrightarrow> s (w AND 31) < 0x100000000)"

lemma those_Some_member:
  "those (map f xs) = Some ys \<Longrightarrow> x \<in> set xs \<Longrightarrow> \<exists>y \<in> set ys. f x = Some y"
  by (induction xs arbitrary: ys) (auto split: option.splits)

lemma arm_targets_Some:
  assumes "arm_targets an compare guard body = Some ts"
  obtains i1 i2 i3 i4 i5 cmp cond adrp add ldr addw br count table where
    "body = [i1, i2, i3, i4, i5]"
    "map arm_word [compare, guard, i1, i2, i3, i4, i5] = map Some [cmp, cond, adrp, add, ldr, addw, br]"
    "case_count (arm_immediate12 cmp) (cond AND 0xf = 8) = Some count"
    "arm_registers (drop_bit 5 cmp AND 31) adrp add ldr addw br" "arm_extension_ok an compare cmp ldr"
    "arm_table (insn_address i1) adrp add = Some table"
    "those (map (\<lambda>index.
        Option.bind (checked_mul_u64 (of_nat index) 4) (\<lambda>o'. Option.bind (checked_add_u64 table o') (\<lambda>slot.
        Option.bind (switch_read_u32 (an_image an) slot) (\<lambda>raw'. checked_add_signed table (sint raw')))))
      [0..<unat count]) = Some ts"
  using assms unfolding arm_targets_def
  by (auto simp: bind_eq_Some_conv split: list.splits if_splits)

lemma arm_dispatch_target:
  assumes "arm_registers index adrp add ldr addw br" "arm_table page adrp add = Some table"
  shows "arm_jump mem page adrp add ldr addw br s = table + scast (mem (table + push_bit 2 (arm_extended ldr (s index))))"
  using assms(1) arm_table_value [OF assms(2)]
  by (auto simp: arm_registers_def arm_jump_def Let_def ac_simps)

lemma arm_covered:
  assumes "arm_targets an compare guard body = Some ts"
  shows "\<exists>i1 i2 i3 i4 i5 cmp cond adrp add ldr addw br. body = [i1, i2, i3, i4, i5]
    \<and> map arm_word [compare, guard, i1, i2, i3, i4, i5] = map Some [cmp, cond, adrp, add, ldr, addw, br]
    \<and> (\<forall>mem s. memory_agrees (an_image an) mem \<and> upper_half_cleared an compare s \<and> \<not> arm_leaves cmp cond s
         \<longrightarrow> arm_jump mem (insn_address i1) adrp add ldr addw br s \<in> set ts)"
proof -
  from assms obtain i1 i2 i3 i4 i5 cmp cond adrp add ldr addw br count table where
    body: "body = [i1, i2, i3, i4, i5]"
    "map arm_word [compare, guard, i1, i2, i3, i4, i5] = map Some [cmp, cond, adrp, add, ldr, addw, br]" and
    count: "case_count (arm_immediate12 cmp) (cond AND 0xf = 8) = Some count" and
    shape: "arm_registers (drop_bit 5 cmp AND 31) adrp add ldr addw br" "arm_extension_ok an compare cmp ldr"
    "arm_table (insn_address i1) adrp add = Some table" and
    ts: "those (map (\<lambda>index.
        Option.bind (checked_mul_u64 (of_nat index) 4) (\<lambda>o'. Option.bind (checked_add_u64 table o') (\<lambda>slot.
        Option.bind (switch_read_u32 (an_image an) slot) (\<lambda>raw'. checked_add_signed table (sint raw')))))
      [0..<unat count]) = Some ts" by (rule arm_targets_Some)
  have "arm_jump mem (insn_address i1) adrp add ldr addw br s \<in> set ts"
    if "memory_agrees (an_image an) mem" "upper_half_cleared an compare s" "\<not> arm_leaves cmp cond s" for mem s
  proof -
    let ?c = "arm_compared cmp s"
    have c: "?c < count" by (rule stays_in_range [OF count that(3)])
    then have "unat ?c \<in> set [0..<unat count]" by (simp add: word_less_nat_alt)
    from those_Some_member [OF ts this] obtain t raw' where t: "t \<in> set ts"
      "switch_read_u32 (an_image an) (table + ?c * 4) = Some raw'" "t = table + of_int (sint raw')"
      by (auto simp: bind_eq_Some_conv checked_mul_u64_def checked_add_u64_Some dest!: checked_add_signed_Some split: if_splits)
    have "?c < 0x101" using c case_count_bound [OF count] by (simp add: word_less_nat_alt)
    then have "arm_extended ldr (s (drop_bit 5 cmp AND 31)) = ?c"
      using shape(2) that(2) by (intro extended_is_compared) (auto simp: arm_extension_ok_def upper_half_cleared_def some_and_def Let_def
          split: option.splits)
    then have "arm_jump mem (insn_address i1) adrp add ldr addw br s = table + scast (mem (table + push_bit 2 ?c))"
      using arm_dispatch_target [OF shape(1,3)] by simp
    moreover have "push_bit 2 ?c = ?c * 4" by (simp add: push_bit_eq_mult)
    moreover have "mem (table + ?c * 4) = raw'" using that(1) t(2) by (simp add: memory_agrees_def)
    ultimately show ?thesis using t(1,3) by simp
  qed
  with body show ?thesis by blast
qed

text \<open>
  C27: the arms found for a guarded dispatch of 64-bit ARM code are code the analysis can follow,
  and they are complete: whatever index passes the guard, the processor jumps to one of them.
\<close>

theorem arm_switch_complete:
  assumes "targets_with_policy_a64 a64_decode an branch pol = Some arms"
  shows "\<exists>compare guard i1 i2 i3 i4 i5 cmp cond adrp add ldr addw br.
    guarded_sequence an branch = Some [compare, guard, i1, i2, i3, i4, i5]
    \<and> map arm_word [compare, guard, i1, i2, i3, i4, i5] = map Some [cmp, cond, adrp, add, ldr, addw, br]
    \<and> (\<forall>mem s. memory_agrees (an_image an) mem \<and> upper_half_cleared an compare s \<and> \<not> arm_leaves cmp cond s
         \<longrightarrow> arm_jump mem (insn_address i1) adrp add ldr addw br s \<in> set arms)
    \<and> distinct arms \<and> (\<forall>t \<in> set arms. is_executable_address (an_image an) t
         \<and> (\<exists>insn. decode_at_aarch64_checked a64_decode (an_image an) t = Inr insn \<and> arch_detail insn \<noteq> None)
         \<and> \<not> (next_address compare \<le> t \<and> t \<le> insn_address branch))"
proof -
  obtain compare guard body ts where seq: "guarded_sequence an branch = Some (compare # guard # body)" and
    ts: "arm_targets an compare guard body = Some ts" and
    arms: "checked_arms an (\<lambda>t. case decode_at_aarch64_checked a64_decode (an_image an) t of
        Inl _ \<Rightarrow> False | Inr insn \<Rightarrow> arch_detail insn \<noteq> None) pol compare branch ts = Some arms"
    using assms by (auto simp: targets_with_policy_a64_def bind_eq_Some_conv split: option.splits list.splits)
  have same: "set arms = set ts" "distinct arms" using arms arranged_arms by (auto simp: checked_arms_iff)
  have usable: "\<forall>t \<in> set arms. is_executable_address (an_image an) t
         \<and> (\<exists>insn. decode_at_aarch64_checked a64_decode (an_image an) t = Inr insn \<and> arch_detail insn \<noteq> None)
         \<and> \<not> (next_address compare \<le> t \<and> t \<le> insn_address branch)"
  proof
    fix t
    assume "t \<in> set arms"
    then have "t \<in> set ts" by (simp add: same)
    with arms show "is_executable_address (an_image an) t
         \<and> (\<exists>insn. decode_at_aarch64_checked a64_decode (an_image an) t = Inr insn \<and> arch_detail insn \<noteq> None)
         \<and> \<not> (next_address compare \<le> t \<and> t \<le> insn_address branch)"
      by (cases "decode_at_aarch64_checked a64_decode (an_image an) t") (auto simp: checked_arms_iff list_all_iff bad_arm_def)
  qed
  from arm_covered [OF ts, folded same(1)] obtain i1 i2 i3 i4 i5 cmp cond adrp add ldr addw br where
    "body = [i1, i2, i3, i4, i5]" and
    words: "map arm_word [compare, guard, i1, i2, i3, i4, i5] = map Some [cmp, cond, adrp, add, ldr, addw, br]" and
    covered: "\<forall>mem s. memory_agrees (an_image an) mem \<and> upper_half_cleared an compare s \<and> \<not> arm_leaves cmp cond s
       \<longrightarrow> arm_jump mem (insn_address i1) adrp add ldr addw br s \<in> set arms" by blast
  with seq have "guarded_sequence an branch = Some [compare, guard, i1, i2, i3, i4, i5]" by simp
  with words covered same(2) usable show ?thesis by (intro exI conjI) assumption+
qed

definition arm_example_insn :: "u64 \<Rightarrow> u8 list \<Rightarrow> flow \<Rightarrow> u64 option \<Rightarrow> a64_insn" where
  "arm_example_insn a bytes fl target =
     \<lparr>insn_address = a, insn_bytes = bytes, next_address = a + 4, insn_flow = fl, direct_target = target, memory_target = None,
      mnemonic_override = None,
      arch_detail = Some \<lparr>a64_mnemonic = [], a64_class = Other_Class 0, a64_bits = 0, a64_display = (\<lambda>_. [])\<rparr>\<rparr>"

text \<open>
  \<^verbatim>\<open>cmp w0, #1; b.hi; adrp x1; add x1, x1, #0x1c; ldrsw x2, [x1, w0, uxtw #2]; add x2, x2, x1; br x2\<close>, followed by
  the table and two arms.
\<close>

definition arm_example_bytes :: "u8 list" where
  "arm_example_bytes =
     [0x1f, 0x04, 0x00, 0x71, 0x28, 0x01, 0x00, 0x54, 0x01, 0x00, 0x00, 0x90, 0x21, 0x70, 0x00, 0x91,
      0x22, 0x58, 0xa0, 0xb8, 0x42, 0x00, 0x01, 0x8b, 0x40, 0x00, 0x1f, 0xd6,
      0x08, 0x00, 0x00, 0x00, 0x0c, 0x00, 0x00, 0x00, 0x1f, 0x20, 0x03, 0xd5, 0xc0, 0x03, 0x5f, 0xd6]"

definition arm_example_code :: "a64_insn list" where
  "arm_example_code =
     [arm_example_insn 0x690000 [0x1f, 0x04, 0x00, 0x71] Next None,
      arm_example_insn 0x690004 [0x28, 0x01, 0x00, 0x54] ConditionalBranch (Some 0x690028),
      arm_example_insn 0x690008 [0x01, 0x00, 0x00, 0x90] Next None,
      arm_example_insn 0x69000c [0x21, 0x70, 0x00, 0x91] Next None,
      arm_example_insn 0x690010 [0x22, 0x58, 0xa0, 0xb8] Next None,
      arm_example_insn 0x690014 [0x42, 0x00, 0x01, 0x8b] Next None,
      arm_example_insn 0x690018 [0x40, 0x00, 0x1f, 0xd6] IndirectBranch None]"

definition arm_example :: a64_analysis where
  "arm_example =
     \<lparr>an_image = from_shellcode arm_example_bytes AArch64, seeds = [], an_functions = [], function_order = [],
      function_analysis_counts = [], function_flirt_counts = [], function_location_counts = [], instruction_order = [],
      an_instructions = map (\<lambda>i. (insn_address i, i)) arm_example_code, code_xrefs = [], data_xrefs = [], callers = [],
      callees = [], an_diagnostics = [], elf_function_symbols = [], noreturn = {}, noreturn_calls = {}\<rparr>"

lemmas guarded_loop_numeral = guarded_loop.simps(2) [of "pred_numeral k" for k, folded numeral_eq_Suc]

lemma arm_example_sequence: "guarded_sequence arm_example (last arm_example_code) = Some arm_example_code"
  by (simp add: guarded_sequence_def MAX_DISPATCH_INSNS_def guarded_loop_numeral arm_example_code_def arm_example_def arm_example_insn_def
      previous_def has_entry_def)

lemma arm_example_words:
  "map arm_word arm_example_code =
     map Some [0x7100041f, 0x54000128, 0x90000001, 0x91007021, 0xb8a05822, 0x8b010042, 0xd61f0040]"
  by (simp add: arm_example_code_def arm_example_insn_def arm_word_def)

lemma arm_example_image:
  "arch (an_image arm_example) = AArch64"
  "switch_read_u32 (an_image arm_example) 0x69001c = Some 8" "switch_read_u32 (an_image arm_example) 0x690020 = Some 12"
  "is_executable_address (an_image arm_example) 0x690024" "is_executable_address (an_image arm_example) 0x690028"
  "decode_at_aarch64_checked a64 (an_image arm_example) 0x690024 = Inr (from_aarch64 a64 0x690024 [0x1f, 0x20, 0x03, 0xd5] 0xd503201f)"
  "decode_at_aarch64_checked a64 (an_image arm_example) 0x690028 = Inr (from_aarch64 a64 0x690028 [0xc0, 0x03, 0x5f, 0xd6] 0xd65f03c0)"
  by (simp_all add: arm_example_def arm_example_bytes_def from_shellcode_def switch_read_u32_def bytes_at_def is_executable_address_def
      decode_at_aarch64_checked_def decode_at_aarch64_def section_containing_def is_uninitialized_def contains_va_def SHELLCODE_BASE_def
      checked_add_u64_def checked_sub_u64_def checked_add_def USIZE_def get_range_def Let_def)

lemma arm_example_targets:
  "arm_targets arm_example (hd arm_example_code) (arm_example_code ! Suc 0) (drop 2 arm_example_code) = Some [0x690024, 0x690028]"
proof -
  have w: "arm_word (hd arm_example_code) = Some 0x7100041f" "arm_word (arm_example_code ! Suc 0) = Some 0x54000128"
    "arm_word (arm_example_code ! 2) = Some 0x90000001" "arm_word (arm_example_code ! 3) = Some 0x91007021"
    "arm_word (arm_example_code ! 4) = Some 0xb8a05822" "arm_word (arm_example_code ! 5) = Some 0x8b010042"
    "arm_word (arm_example_code ! 6) = Some 0xd61f0040" "insn_address (arm_example_code ! 2) = 0x690008"
    by (simp_all add: arm_example_code_def arm_example_insn_def arm_word_def)
  have body: "drop 2 arm_example_code = [arm_example_code ! 2, arm_example_code ! 3, arm_example_code ! 4, arm_example_code ! 5,
      arm_example_code ! 6]"
    by (simp add: arm_example_code_def)
  have count: "case_count (arm_immediate12 0x7100041f) True = Some 2"
    by (simp add: case_count_def arm_immediate12_def checked_add_u64_def MAX_CASES_def)
  have shape: "arm_shape 0x90000001 0x91007021 0xb8a05822 0x8b010042 0xd61f0040"
    "arm_registers 0 0x90000001 0x91007021 0xb8a05822 0x8b010042 0xd61f0040"
    "arm_extension_ok arm_example (hd arm_example_code) 0x7100041f 0xb8a05822"
    by (simp_all add: arm_shape_def arm_registers_def arm_extension_ok_def Let_def)
  have table: "arm_table 0x690008 0x90000001 0x91007021 = Some 0x69001c"
    by (simp add: arm_table_def arm_immediate12_def sign_extend_def checked_add_signed_def checked_add_u64_def Let_def)
  have two: "[0..<2] = [0, 1 :: nat]" by (simp add: upt_rec)
  show ?thesis
    unfolding arm_targets_def body
    by (simp add: w count shape table two checked_mul_u64_def checked_add_u64_def checked_add_signed_def arm_example_image Let_def)
qed

text \<open>Index 1 passes the guard and reaches the second arm.\<close>

theorem arm_switch_complete_witness:
  "\<exists>a64_decode arms mem. targets_with_policy_a64 a64_decode arm_example (last arm_example_code) None = Some arms
     \<and> memory_agrees (an_image arm_example) mem
     \<and> arm_jump mem 0x690008 0x90000001 0x91007021 0xb8a05822 0x8b010042 0xd61f0040 (\<lambda>_. 1) \<in> set arms"
proof -
  define a64 :: "u32 \<Rightarrow> a64_opcode option" where
    "a64 = (\<lambda>_. Some \<lparr>a64_mnemonic = [], a64_class = Other_Class 0, a64_bits = 0, a64_display = (\<lambda>_. [])\<rparr>)"
  define mem where "mem a = (case switch_read_u32 (an_image arm_example) a of None \<Rightarrow> 0 | Some w \<Rightarrow> w)" for a
  have mem: "memory_agrees (an_image arm_example) mem" by (simp add: memory_agrees_def mem_def)
  have code: "arm_example_code = hd arm_example_code # arm_example_code ! Suc 0 # drop 2 arm_example_code"
    by (simp add: arm_example_code_def)
  have ends: "next_address (hd arm_example_code) = 0x690004" "insn_address (last arm_example_code) = 0x690018"
    by (simp_all add: arm_example_code_def arm_example_insn_def)
  have found: "targets_with_policy_a64 a64 arm_example (last arm_example_code) None = Some [0x690024, 0x690028]"
    unfolding targets_with_policy_a64_def arm_example_sequence
    using arm_example_targets ends
    by (subst code) (simp add: checked_arms_def bad_arm_def arm_example_image from_aarch64_def a64_def arrange_arms_def)
  from arm_switch_complete [OF found] obtain compare guard i1 i2 i3 i4 i5 cmp cond adrp add ldr addw br where
    seq: "guarded_sequence arm_example (last arm_example_code) = Some [compare, guard, i1, i2, i3, i4, i5]" and
    words: "map arm_word [compare, guard, i1, i2, i3, i4, i5] = map Some [cmp, cond, adrp, add, ldr, addw, br]" and
    covered: "\<forall>mem s. memory_agrees (an_image arm_example) mem \<and> upper_half_cleared arm_example compare s \<and> \<not> arm_leaves cmp cond s
       \<longrightarrow> arm_jump mem (insn_address i1) adrp add ldr addw br s \<in> set [0x690024, 0x690028]" by blast
  from seq have same: "arm_example_code = [compare, guard, i1, i2, i3, i4, i5]" by (simp add: arm_example_sequence)
  have "i1 = arm_example_code ! 2" unfolding same by simp
  then have page: "insn_address i1 = 0x690008" by (simp add: arm_example_code_def arm_example_insn_def)
  have eqs: "cmp = 0x7100041f" "cond = 0x54000128" "adrp = 0x90000001" "add = 0x91007021" "ldr = 0xb8a05822" "addw = 0x8b010042"
    "br = 0xd61f0040"
    using words arm_example_words unfolding same by simp_all
  have "upper_half_cleared arm_example compare (\<lambda>_. 1)" by (simp add: upper_half_cleared_def)
  moreover have "\<not> arm_leaves cmp cond (\<lambda>_. 1)"
    by (simp add: eqs arm_leaves_def arm_compared_def arm_immediate12_def)
  ultimately have "arm_jump mem 0x690008 0x90000001 0x91007021 0xb8a05822 0x8b010042 0xd61f0040 (\<lambda>_. 1) \<in> set [0x690024, 0x690028]"
    using covered mem unfolding page eqs by blast
  then show ?thesis using found mem by blast
qed

end
