(* ===== verification/Spec2Isabelle.thy ===== *)
theory Spec2Isabelle
  imports Scope_Order Span_Props Grammar_Numbers Strings Carve Loops_Props Elf_Props Image_Props Macho_Props
    Views_Props Insn_Props Render_Props Api_Props Freeze_Props Noreturn Starts Switch_Props
begin

text \<open>
  A verification development for capa-x, a Rust port of the capability detector capa. capa-x reads
  an executable, or a recorded feature file or execution trace, extracts features (called APIs,
  numbers, strings, bytes, control-flow characteristics) at nested scopes, and matches rules against
  them; a match publishes further features that other rules can ask for. The result is a document
  of the matched rules with the evidence for each match, which text views display.

  \<^bold>\<open>The parts of the program and their theories.\<close> Paths are below \<^verbatim>\<open>src/capa-x/src\<close>.

  \<^item> Vocabulary: \<open>Prelude\<close> (machine integers, Rust's \<^verbatim>\<open>Result\<close> as a sum with \<^verbatim>\<open>?\<close> as \<open>rbind\<close>, loops that
    may fail as \<open>fold_result\<close>), \<open>Rust_Str\<close> (the operations of \<^verbatim>\<open>str\<close>), \<open>Index_Map\<close> and \<open>Btree\<close> (insertion
    ordered and ordered maps), \<open>Worklist\<close> (searches with a pending list), \<open>Yaml\<close> (the values of a rule file).
  \<^item> Data: \<open>Address\<close> (\<^verbatim>\<open>address.rs\<close>), \<open>Features\<close> (\<^verbatim>\<open>features.rs\<close>), \<open>Scopes\<close> (\<^verbatim>\<open>rules/scope.rs\<close>, \<^verbatim>\<open>rules/error.rs\<close>),
    \<open>Rules\<close> (\<^verbatim>\<open>rules/mod.rs\<close>), \<open>Freeze\<close> and \<open>Freeze_Read\<close> (the features of a sample and
    the reader of a frozen feature file, \<^verbatim>\<open>freeze.rs\<close>), with \<open>Freeze_Props\<close>.
  \<^item> Rule files: \<open>Grammar\<close> (\<^verbatim>\<open>rules/grammar.rs\<close>) and \<open>Meta\<close> (\<^verbatim>\<open>rules/meta.rs\<close>) turn YAML values into rules;
    \<open>Grammar_Props\<close> and \<open>Grammar_Numbers\<close> show that accepted rules are well formed and numbers are read back.
  \<^item> The engine: \<open>Engine\<close> (\<^verbatim>\<open>engine.rs\<close>) evaluates a rule tree against a feature set, in a boolean and in a
    complete pass; \<open>Engine_Props\<close> relates both to the meaning of a tree.
  \<^item> Rule sets: \<open>Rule_Graph\<close> (\<^verbatim>\<open>rules/graph.rs\<close>: dependencies, cycles, order), \<open>Com\<close> (\<^verbatim>\<open>com.rs\<close>), \<open>Extract\<close>
    and \<open>Ruleset\<close> (\<^verbatim>\<open>capabilities/ruleset.rs\<close>: preparation of rules, nested scopes as rules of their own, the
    index of rules by features, matching a scope). \<open>Rule_Graph_Props\<close>, \<open>Extract_Props\<close>, \<open>Ruleset_Props\<close>,
    \<open>Scope_Order\<close> and \<open>Bare_Scopes\<close> hold their properties.
  \<^item> The drivers: \<open>Parallel\<close> (\<^verbatim>\<open>parallel.rs\<close>, worker threads as a step relation), \<open>Static_Analysis\<close> and
    \<open>Dynamic_Analysis\<close> (\<^verbatim>\<open>capabilities/static_analysis.rs\<close>, \<^verbatim>\<open>capabilities/dynamic_analysis.rs\<close>), with \<open>Driver_Props\<close>
    and \<open>Span_Props\<close>.
  \<^item> Loaders: \<open>Elf_Bytes\<close> and \<open>Elf_Os\<close> (\<^verbatim>\<open>extract/loader/elf_os.rs\<close>), \<open>Image\<close>, \<open>Imports\<close>, \<open>Ordinals\<close> and \<open>Macho\<close>
    (\<^verbatim>\<open>extract/loader/image.rs\<close>, \<^verbatim>\<open>oleaut32_ordinals.rs\<close>), \<open>File_Features\<close> (the file features: \<^verbatim>\<open>pe.rs\<close>, \<^verbatim>\<open>elf.rs\<close>,
    \<^verbatim>\<open>macho.rs\<close>, \<^verbatim>\<open>shellcode.rs\<close> of \<^verbatim>\<open>extract/loader\<close>, and \<^verbatim>\<open>extract/mod.rs\<close>), with \<open>Elf_Props\<close>, \<open>Image_Props\<close>,
    \<open>Macho_Props\<close> and \<open>File_Props\<close>.
  \<^item> Code: \<open>Decoder\<close> (\<^verbatim>\<open>extract/x86/decoder.rs\<close>), \<open>Decode\<close> (the decoding policy of \<^verbatim>\<open>image.rs\<close>), \<open>Recovered\<close> and \<open>Views\<close> (\<^verbatim>\<open>extract/recovery/recovery.rs\<close>: the recovered
    code, references, jump tables and the view of a function), \<open>Flirt\<close> (\<^verbatim>\<open>extract/recovery/flirt.rs\<close>: library
    functions), \<open>Noreturn\<close> (\<^verbatim>\<open>extract/recovery/noreturn.rs\<close>: functions that do not return), \<open>Starts\<close> (\<^verbatim>\<open>libc_start_main.rs\<close>, \<^verbatim>\<open>golang.rs\<close>, \<^verbatim>\<open>msvcfunc.rs\<close>: function
    starts that no call names), \<open>Switch\<close> (\<^verbatim>\<open>extract/recovery/switch.rs\<close>: the arms of jump tables), with \<open>Switch_Props\<close>, \<open>Views_Props\<close> and \<open>Flirt_Props\<close>.
  \<^item> Extractors: \<open>Strings\<close>, \<open>Carve\<close> (\<^verbatim>\<open>extract/helpers.rs\<close>), \<open>Loops\<close> (\<^verbatim>\<open>extract/features/function_features.rs\<close>), \<open>Operands\<close>,
    \<open>Insn_Features\<close>, \<open>Block_Features\<close> (\<^verbatim>\<open>extract/x86\<close>), \<open>A64_Features\<close> (\<^verbatim>\<open>extract/aarch64\<close>) and \<open>Enrich\<close>
    (\<^verbatim>\<open>enrich_static_features\<close>), with \<open>Loops_Props\<close>, \<open>Insn_Props\<close> and \<open>Enrich_Props\<close>.
  \<^item> Results: \<open>Result_Data\<close> and \<open>From_Capa\<close> (\<^verbatim>\<open>result_document\<close>), \<open>Render\<close> (\<^verbatim>\<open>render\<close>), with \<open>From_Capa_Props\<close>,
    \<open>Display\<close> and \<open>Render_Props\<close>.
  \<^item> \<open>Pipeline\<close> composes recognition, extraction, matching and the document; \<open>Api\<close> (\<^verbatim>\<open>api.rs\<close>) is the entry point
    of the library and the filter of rules by tag, with \<open>Api_Props\<close>; this theory holds what spans the
    parser and the drivers.

  \<^bold>\<open>How the model corresponds to the code.\<close> A struct is a record, an enum a datatype with the source's
  constructors, one definition stands for one function of the source under its name, and a helper that has
  no function of its own is the part of one that its name says. Integers are words of their width; \<^verbatim>\<open>usize\<close>
  is 64 bits wide, as a natural number with its bound written out where it matters. An error is a left
  injection. A panic is a value: the readers of hostile files return the panics of slices, additions and
  allocations, so that their absence is a theorem. Hash maps whose iteration order the program observes
  take the order as the argument \<open>it\<close>. Loops that walk code are \<^verbatim>\<open>partial_function\<close>s in the option monad, with
  \<open>None\<close> for not returning, and are proved to return.

  \<^bold>\<open>Parameters.\<close> What belongs to other packages is an argument: the YAML reader (\<open>yaml_lib\<close>), regular expressions
  (\<open>regex_lib\<close>), the COM database, Unicode case mapping and decoding errors, the instruction decoders (an
  instruction is the record of the accessors the sources read, \<open>iced_lib\<close> the decoder of x86), the signature library (\<open>flirt_lib\<close>), the
  containers goblin parsed (records of the fields the sources read), the digests of a sample, the readers of
  JSON and compressed streams (\<open>freeze_lib\<close>), and the loaders and extractors the entry point calls that are
  not modelled (\<open>front_end\<close>). Theorems state what they need of a parameter as a hypothesis, and their witnesses give an instance.

  \<^bold>\<open>Bounds.\<close> Three recursions of the source have a depth that no argument bounds by its shape. \<open>build_match\<close> follows
  references between rules; its first argument is the depth of the stack, \<open>Inl None\<close> the result when it does not
  suffice, and a rank of the rules is shown to be enough. \<open>match_function\<close> follows calls between functions; one
  more than the number of functions is shown to be enough. \<open>collect_closure\<close> follows the dependencies of a rule;
  more than the number of rules is enough. \<open>analyze\<close> takes the first two bounds as the arguments \<open>k\<close> and \<open>n\<close>.

  \<^bold>\<open>What the theorems show.\<close> Evaluation decides the meaning of a rule in both passes. Matching with the index finds
  exactly what matching every rule in order finds. Rule sets are accepted exactly when their references
  resolve without a cycle, and the order respects dependencies. No analysis of accepted rules fails, the
  parallel map is deterministic, the sliding window of calls is the union of its calls. Accepted rules are
  well formed. Hostile ELF and Mach-O files cause no panic and no unbounded walk. A decoded instruction
  has the bytes of its extent, and the main function is read off the entry stub exactly. The arms found for a
  dispatch of 64-bit ARM code are all the processor can jump to, and the base of a table of offsets is constant on every
  path. The view of a function
  holds exactly the reachable code, loops are found exactly, embedded executables are found as by a scan of
  all keys. The index of signatures is lossless and recognition ends. Every feature an extractor reports is
  legal where it reports it; the imports of a PE file are reported exactly. Frozen features are read back. The
  functions that do not return are found by exactly the conditions the analysis means. The tag filter keeps rules with all they refer to, and the
  entry point fails only while it loads. Every analysis whose rules meet stated conditions has a document, which reports
  exactly what was matched, and the default view hides only capabilities that others refer to. Where the code does not do what it means to, a theorem proves the instance.

  \<^bold>\<open>Interfaces.\<close> The locales state what a client relies on, with interpretations on the model: \<open>keyed\<close> and
  \<open>ordered_map\<close> for the two kinds of maps, \<open>sound_index\<close> for an index of rules that misses no rule that can
  match, \<open>worklist\<close> for searches, and \<open>function_matching\<close> for the recursive call of the matcher of functions.

  \<^bold>\<open>Not modelled.\<close> The constructors that copy a parsed PE, ELF or Mach-O container into an image and
  the .NET extractor work on the structures of the goblin and dotnet libraries. The
  discovery of code from seeds (\<^verbatim>\<open>recovery.rs\<close>) with the emulator (\<^verbatim>\<open>emucode.rs\<close>) and the pointer and callback
  analyses it interleaves is left out; the verdict of the emulator is a parameter of the switch analysis: the recovered code is the input of the theorems. JSON is
  produced and read by serde from the derives of the data types: the model starts at the structures serde fills. The command line and the Python binding
  only call the library.
\<close>

section \<open>From rule text to an analysis\<close>

lemma rbind_fails_first: "\<exists>e. r = Inl e \<Longrightarrow> \<exists>e. rbind r h = Inl e"
  by auto

lemma rbind_fails: "(\<And>x. \<exists>e. h x = Inl e) \<Longrightarrow> \<exists>e. rbind r h = Inl e"
  by (cases r) auto

lemma map_err_fails: "\<exists>e. r = Inl e \<Longrightarrow> \<exists>e. map_err h r = Inl e"
  by auto

lemma match_linear_fails:
  assumes "r \<in> set rs" "\<And>st. \<exists>e. match_rule rx r addr st = Inl e"
  shows "\<exists>e. match_linear rx rs addr st = Inl e"
  using assms(1)
proof (induction rs arbitrary: st)
  case Nil
  then show ?case by simp
next
  case (Cons q rs)
  show ?case
  proof (cases "match_rule rx q addr st")
    case (Inl e)
    then show ?thesis by simp
  next
    case (Inr out)
    obtain st' fresh where out: "out = (st', fresh)" by (cases out)
    have "q \<noteq> r" using assms(2) [of st] Inr by auto
    with Cons.prems Cons.IH [of st'] Inr out show ?thesis by simp
  qed
qed

lemma match_rule_root_subscope:
  assumes "root_subscope (body r)"
  shows "\<exists>e. match_rule rx r addr st = Inl e"
  using assms by (cases st) (auto simp: match_rule_def elim!: root_subscopeE)

text \<open>A rule that is matched at the file scope and is a nested scope stops every analysis.\<close>

lemma bare_file_rule_fails:
  assumes "MatchingRuleSet_new yl db rules = Inr mrs"
    and "r \<in> set (mrs_rules_for_scope mrs FileScope)" "root_subscope (body r)"
  shows "\<exists>e. find_static_capabilities rx it mrs fz = Inl e"
proof -
  have "\<exists>e. match_scope rx mrs FileScope fs addr = Inl e" for fs addr
    unfolding match_scope_linear [OF assms(1)]
    by (rule match_linear_fails [OF assms(2) match_rule_root_subscope [OF assms(3)]])
  then have at_file: "\<exists>e. find_file_capabilities rx mrs feats globals lower = Inl e" for feats globals lower
    unfolding find_file_capabilities_def Let_def match_scope_results_def map_ok_def match_scope_def
    by (intro rbind_fails_first)
  show ?thesis
    unfolding find_static_capabilities_def Let_def case_prod_beta
    by (intro rbind_fails rbind_fails_first map_err_fails at_file)
qed

text \<open>The document with a nested function scope as its whole tree.\<close>

abbreviation bare_doc :: yaml where
  "bare_doc \<equiv> sample_doc ''file'' (YMapping [(YString ''function'', YSequence [YMapping [(YString ''api'', YString ''k.x'')]])])"

abbreviation bare_tree :: node where
  "bare_tree \<equiv> Node (Subscope FunctionScope (Node (Leaf (Api ''x'')) None)) None"

lemma build_bare_tree:
  "build_statements (reader_of doc) rx [(YString ''function'', YSequence [YMapping [(YString ''api'', YString ''k.x'')]])]
     \<lparr>sc_static = Some FileScope, sc_dynamic = None\<rparr> = Inr bare_tree"
proof -
  have "is_subscope_compatible (Some FileScope) FunctionScope" by code_simp
  moreover have "sub_scopes FunctionScope = \<lparr>sc_static = Some FunctionScope, sc_dynamic = None\<rparr>"
    by (simp add: sub_scopes_def is_dynamic_subscope_def)
  moreover have "y_as_str (reader_of doc) (YString s) = Some s" for s by (simp add: reader_of_def)
  moreover have "pop_statement_description_entry [YMapping [(YString ''api'', YString ''k.x'')]]
      = Inr ([YMapping [(YString ''api'', YString ''k.x'')]], None)" by code_simp
  ultimately show ?thesis
    by (subst build_statements.simps)
      (simp add: seq_children_def pop_description_def build_statement_def build_subscope_def require_seq_def
        build_child_def as_feature_mapping_def sample_api_tree)
qed

definition bare_rule :: rule where
  "bare_rule = rule.make ''t'' None (rule_meta.make ''t'' None [] [] False [] [] [] [] (sample_meta ''file''))
     \<lparr>sc_static = Some FileScope, sc_dynamic = None\<rparr> bare_tree False []"

lemma bare_rule_simps [simp]:
  "rule_name bare_rule = ''t''" "namespace bare_rule = None" "body bare_rule = bare_tree"
  "rule_scopes bare_rule = \<lparr>sc_static = Some FileScope, sc_dynamic = None\<rparr>"
  "meta_raw (meta bare_rule) = sample_meta ''file''"
  by (simp_all add: bare_rule_def rule.defs rule_meta.defs)

lemma bare_rule_parsed: "rule_from_yaml (reader_of bare_doc) rx [] = Inr bare_rule"
  unfolding bare_rule_def by (rule sample_rule [OF sample_scopes(2) build_bare_tree])

lemma bare_rule_dependencies: "get_dependencies nss bare_tree = {}"
  by (simp add: get_dependencies_def register_feature_def)

lemma bare_rule_update: "bare_rule\<lparr>body := bare_tree\<rparr> = bare_rule"
  by (simp add: bare_rule_def rule.defs)

lemma bare_rule_expanded: "expand_and_extract (\<lambda>_ _. None) [bare_rule] = Inr [bare_rule]"
  by (simp add: expand_and_extract_def extract_rule_def extract_single_child.simps bare_rule_update)

lemma bare_rule_by_name: "rules_by_name [bare_rule] = [(''t'', bare_rule)]"
  by (simp add: rules_by_name_def)

lemma bare_rule_scoped:
  "rules_for_scope yl [bare_rule] [(''t'', bare_rule)] (index_rules_by_namespace [bare_rule]) FileScope = [''t'']"
  by (simp add: rules_for_scope_def topo_sort_subset_def transitive_closure.simps sorted_deps_def
      bare_rule_dependencies is_subscope_rule_def mapping_get_def sample_meta_def scopes_contains_def)

lemma bare_rule_accepted:
  "\<exists>mrs. MatchingRuleSet_new yl (\<lambda>_ _. None) [bare_rule] = Inr mrs
     \<and> bare_rule \<in> set (mrs_rules_for_scope mrs FileScope)"
proof -
  have "\<exists>rs. RuleSet_new [bare_rule] = Inr rs"
    by (simp add: RuleSet_new_def Let_def ensure_rules_are_unique_def bare_rule_dependencies
        ensure_rule_dependencies_are_met_def topologically_order_rules_def rules_by_name_def
        sorted_deps_def visit.simps)
  then show ?thesis
    by (auto simp: MatchingRuleSet_new_def Let_def bare_rule_expanded mrs_rules_for_scope_def matching_rule_set.defs
        ALL_SCOPES_def bare_rule_scoped bare_rule_by_name List.map_filter_def)
qed


end
